(* ===== verification/Afk_Prelude.thy ===== *)
theory Afk_Prelude
  imports Main "HOL-Library.Char_ord" "HOL-Library.List_Lexorder"
    "HOL-Library.Option_ord" "HOL-Library.Product_Lexorder"
begin

text \<open>
  What every component shares: Go's times and their zero value, decimal rendering of an
  integer as \<^verbatim>\<open>%d\<close> does it, the string functions of package \<^verbatim>\<open>strings\<close> the code
  uses, and the generic facts about keyed lists (tables with a primary key) and about the
  first element of a sorted list (\<^verbatim>\<open>ORDER BY ... LIMIT 1\<close>).

  The orders are the library's: a string is compared byte by byte (\<^verbatim>\<open>List_Lexorder\<close> over
  \<^verbatim>\<open>Char_ord\<close>), as SQLite's BINARY collation and Go's string comparison do, a pair
  lexicographically, and \<open>None\<close> is below every \<open>Some\<close>.
\<close>

named_theorems table_simps \<open>equations of the operations on keyed tables\<close>
named_theorems go_simps \<open>equations of the modelled Go library functions\<close>

subsection \<open>Times\<close>

text \<open>
  An instant is an integer number of nanoseconds since the Unix epoch. A field of type
  \<^verbatim>\<open>time.Time\<close> that may hold the zero time is an option, \<open>None\<close> being the zero time:
  it is before every other instant, which is the order of \<^verbatim>\<open>Option_ord\<close>.
\<close>

type_synonym instant = int
type_synonym gotime = "int option"

definition is_zero :: "gotime \<Rightarrow> bool" where
  "is_zero t \<longleftrightarrow> t = None"

lemma is_zero_simps [simp, go_simps]: "is_zero None" "\<not> is_zero (Some t)"
  by (simp_all add: is_zero_def)

lemma not_zero_conv: "\<not> is_zero t \<longleftrightarrow> (\<exists>i. t = Some i)"
  by (cases t) auto

definition second :: int where
  "second = 1000000000"

subsection \<open>Decimal rendering\<close>

definition digit :: "nat \<Rightarrow> char" where
  "digit n = char_of (48 + n)"

fun dec_nat :: "nat \<Rightarrow> string" where
  "dec_nat n = (if n < 10 then [digit n] else dec_nat (n div 10) @ [digit (n mod 10)])"

declare dec_nat.simps [simp del]

definition dec :: "int \<Rightarrow> string" where
  "dec i = (if i < 0 then CHR ''-'' # dec_nat (nat (- i)) else dec_nat (nat i))"

lemma digit_inject: "m < 10 \<Longrightarrow> n < 10 \<Longrightarrow> digit m = digit n \<longleftrightarrow> m = n"
  by (auto simp: digit_def dest!: arg_cong [where f = "of_char :: char \<Rightarrow> nat"])

lemma digit_not_minus: "n < 10 \<Longrightarrow> digit n \<noteq> CHR ''-''"
proof
  assume n: "n < 10" and e: "digit n = CHR ''-''"
  from e have "of_char (digit n) = (of_char (CHR ''-'') :: nat)" by simp
  with n show False by (simp add: digit_def)
qed

lemma dec_nat_ne: "dec_nat n \<noteq> []"
  by (subst dec_nat.simps) simp

lemma dec_nat_no_minus: "CHR ''-'' \<notin> set (dec_nat n)"
proof (induction n rule: dec_nat.induct)
  case (1 n)
  show ?case
  proof (cases "n < 10")
    case True
    then show ?thesis using digit_not_minus [of n] by (subst dec_nat.simps) auto
  next
    case False
    with 1 have "CHR ''-'' \<notin> set (dec_nat (n div 10))" by simp
    with False show ?thesis using digit_not_minus [of "n mod 10"]
      by (subst dec_nat.simps) auto
  qed
qed

lemma dec_nat_inject: "dec_nat m = dec_nat n \<longleftrightarrow> m = n"
proof (induction m arbitrary: n rule: dec_nat.induct)
  case (1 m)
  show ?case
  proof (cases "m < 10")
    case True
    then show ?thesis
      by (subst (1 2) dec_nat.simps)
        (auto simp: digit_inject dec_nat_ne dest: sym [of "[]"])
  next
    case m: False
    show ?thesis
    proof (cases "n < 10")
      case True
      with m show ?thesis
        by (subst (1 2) dec_nat.simps) (auto simp: dec_nat_ne dest: sym [of "[]"])
    next
      case n: False
      have "dec_nat m = dec_nat n \<longleftrightarrow>
          dec_nat (m div 10) = dec_nat (n div 10) \<and> digit (m mod 10) = digit (n mod 10)"
        using m n by (subst (1 2) dec_nat.simps) simp
      also have "\<dots> \<longleftrightarrow> m div 10 = n div 10 \<and> m mod 10 = n mod 10"
        using 1 [OF m] by (simp add: digit_inject)
      also have "\<dots> \<longleftrightarrow> m = n"
        by (metis div_mult_mod_eq)
      finally show ?thesis .
    qed
  qed
qed

lemma dec_inject [simp]: "dec i = dec j \<longleftrightarrow> i = j"
proof -
  have hd: "hd (dec_nat n) \<noteq> CHR ''-''" for n
    using dec_nat_no_minus [of n] dec_nat_ne [of n] hd_in_set by metis
  have "CHR ''-'' # xs \<noteq> dec_nat n" for xs n
    using hd [of n] by (metis list.sel(1))
  then show ?thesis
    by (auto simp: dec_def dec_nat_inject) (metis)+
qed


subsection \<open>Tables: lists of rows with a primary key\<close>

definition tlookup :: "('r \<Rightarrow> 'k) \<Rightarrow> 'k \<Rightarrow> 'r list \<Rightarrow> 'r option" where
  "tlookup key k rows = find (\<lambda>r. key r = k) rows"

definition tupdate :: "('r \<Rightarrow> 'k) \<Rightarrow> 'k \<Rightarrow> ('r \<Rightarrow> 'r) \<Rightarrow> 'r list \<Rightarrow> 'r list" where
  "tupdate key k f rows = map (\<lambda>r. if key r = k then f r else r) rows"

lemma tlookup_Nil [table_simps]: "tlookup key k [] = None"
  by (simp add: tlookup_def)

lemma tlookup_Cons [table_simps]:
  "tlookup key k (r # rows) = (if key r = k then Some r else tlookup key k rows)"
  by (simp add: tlookup_def)

lemma tlookup_append [table_simps]:
  "tlookup key k (xs @ ys) =
     (case tlookup key k xs of None \<Rightarrow> tlookup key k ys | Some r \<Rightarrow> Some r)"
  by (induction xs) (auto simp: table_simps)

lemma tlookup_None_iff: "tlookup key k rows = None \<longleftrightarrow> k \<notin> key ` set rows"
  by (induction rows) (auto simp: table_simps)

lemma tlookup_SomeD: "tlookup key k rows = Some r \<Longrightarrow> r \<in> set rows \<and> key r = k"
  by (induction rows) (auto simp: table_simps split: if_splits)

lemma tlookup_key: "tlookup key k rows = Some r \<Longrightarrow> key r = k"
  by (blast dest: tlookup_SomeD)

lemma tlookup_unique:
  "distinct (map key rows) \<Longrightarrow> r \<in> set rows \<Longrightarrow> tlookup key (key r) rows = Some r"
  by (induction rows) (auto simp: table_simps image_iff)

lemma keys_tupdate [table_simps]:
  "(\<And>r. key (f r) = key r) \<Longrightarrow> map key (tupdate key k f rows) = map key rows"
  by (simp add: tupdate_def)

lemma tlookup_tupdate [table_simps]:
  assumes "\<And>r. key (f r) = key r"
  shows "tlookup key k' (tupdate key k f rows) =
    (if k' = k then map_option f (tlookup key k rows) else tlookup key k' rows)"
  using assms by (induction rows) (auto simp: table_simps tupdate_def)

lemma set_tupdate:
  "r' \<in> set (tupdate key k f rows) \<Longrightarrow>
     (\<exists>r\<in>set rows. key r = k \<and> r' = f r) \<or> (r' \<in> set rows \<and> key r' \<noteq> k)"
  by (auto simp: tupdate_def split: if_splits)

subsection \<open>The first row of a sorted selection\<close>

definition first_by :: "('r \<Rightarrow> 'k::linorder) \<Rightarrow> 'r list \<Rightarrow> 'r option" where
  "first_by f rows = (case sort_key f rows of [] \<Rightarrow> None | r # _ \<Rightarrow> Some r)"

lemma sort_key_Nil_iff: "sort_key f xs = [] \<longleftrightarrow> xs = []"
  by (metis length_0_conv length_sort)

lemma first_by_None_iff [simp]: "first_by f rows = None \<longleftrightarrow> rows = []"
  by (auto simp: first_by_def sort_key_Nil_iff split: list.splits)

lemma first_by_SomeD:
  assumes "first_by f rows = Some r"
  shows "r \<in> set rows" and "\<forall>r'\<in>set rows. f r \<le> f r'"
proof -
  from assms obtain rs where rs: "sort_key f rows = r # rs"
    by (auto simp: first_by_def split: list.splits)
  have st: "set (sort_key f rows) = set rows" by simp
  with rs show "r \<in> set rows" by auto
  have "sorted (map f (r # rs))"
    using sorted_sort_key [of f rows] rs by simp
  then show "\<forall>r'\<in>set rows. f r \<le> f r'"
    using st rs by auto
qed

subsection \<open>Functions of package strings\<close>

definition has_prefix :: "string \<Rightarrow> string \<Rightarrow> bool" where
  "has_prefix s p \<longleftrightarrow> take (length p) s = p"

definition has_suffix :: "string \<Rightarrow> string \<Rightarrow> bool" where
  "has_suffix s p \<longleftrightarrow> has_prefix (rev s) (rev p)"

text \<open>\<^verbatim>\<open>strings.CutPrefix\<close>: the rest of the string, if it starts with the prefix.\<close>

definition cut_prefix :: "string \<Rightarrow> string \<Rightarrow> string option" where
  "cut_prefix s p = (if has_prefix s p then Some (drop (length p) s) else None)"

text \<open>\<^verbatim>\<open>strings.Cut\<close> at a one-character separator.\<close>

fun cut :: "string \<Rightarrow> char \<Rightarrow> string \<times> string \<times> bool" where
  "cut [] c = ([], [], False)"
| "cut (x # xs) c =
     (if x = c then ([], xs, True)
      else (let (b, a, ok) = cut xs c in (x # b, a, ok)))"

text \<open>\<^verbatim>\<open>strings.Split\<close> at a one-character separator: never the empty list.\<close>

fun split_on :: "char \<Rightarrow> string \<Rightarrow> string list" where
  "split_on c [] = [[]]"
| "split_on c (x # xs) =
     (if x = c then [] # split_on c xs
      else (case split_on c xs of [] \<Rightarrow> [[x]] | s # ss \<Rightarrow> (x # s) # ss))"

text \<open>\<^verbatim>\<open>strings.Join\<close>.\<close>

fun join :: "string list \<Rightarrow> string \<Rightarrow> string" where
  "join [] sep = []"
| "join [s] sep = s"
| "join (s # t # ss) sep = s @ sep @ join (t # ss) sep"

definition is_space :: "char \<Rightarrow> bool" where
  "is_space c \<longleftrightarrow> c \<in> {CHR '' '', CHR 0x09, CHR 0x0A, CHR 0x0B, CHR 0x0C, CHR 0x0D}"

definition trim_space :: "string \<Rightarrow> string" where
  "trim_space s = rev (dropWhile is_space (rev (dropWhile is_space s)))"

definition fold_char :: "char \<Rightarrow> char" where
  "fold_char c =
     (let n = (of_char c :: nat) in if 65 \<le> n \<and> n \<le> 90 then char_of (n + 32) else c)"

text \<open>\<^verbatim>\<open>strings.EqualFold\<close> on ASCII, which the logins, labels and headings it is used on are.\<close>

definition equal_fold :: "string \<Rightarrow> string \<Rightarrow> bool" where
  "equal_fold s t \<longleftrightarrow> map fold_char s = map fold_char t"

lemma has_prefix_append [simp, go_simps]: "has_prefix (p @ s) p"
  by (simp add: has_prefix_def)

lemma has_prefix_conv: "has_prefix s p \<longleftrightarrow> (\<exists>t. s = p @ t)"
  by (auto simp: has_prefix_def) (metis append_take_drop_id)

lemma cut_prefix_Some [go_simps]: "cut_prefix s p = Some t \<longleftrightarrow> s = p @ t"
  by (auto simp: cut_prefix_def has_prefix_conv)

lemma cut_found: "cut s c = (b, a, True) \<Longrightarrow> s = b @ c # a \<and> c \<notin> set b"
  by (induction s arbitrary: b) (auto split: if_splits prod.splits)

lemma cut_not_found: "cut s c = (b, a, False) \<Longrightarrow> b = s \<and> a = [] \<and> c \<notin> set s"
  by (induction s arbitrary: b) (auto split: if_splits prod.splits)

lemma split_on_ne [simp, go_simps]: "split_on c s \<noteq> []"
  by (induction s) (auto split: list.splits)

lemma split_on_no_sep: "seg \<in> set (split_on c s) \<Longrightarrow> c \<notin> set seg"
  by (induction s arbitrary: seg) (auto split: if_splits list.splits)

lemma join_split_on: "join (split_on c s) [c] = s"
proof (induction s)
  case Nil
  then show ?case by simp
next
  case (Cons x xs)
  obtain t ts where "split_on c xs = t # ts" using split_on_ne [of c xs] by (cases "split_on c xs") auto
  with Cons show ?case by (cases ts) auto
qed

lemma equal_fold_refl [simp, go_simps]: "equal_fold s s"
  by (simp add: equal_fold_def)

lemma equal_fold_sym: "equal_fold s t \<longleftrightarrow> equal_fold t s"
  by (auto simp: equal_fold_def)

end
