(* ===== verification/Job_Store.thy ===== *)
theory Job_Store
  imports Afk_Prelude
begin

text \<open>
  The job store, \<^verbatim>\<open>internal/store\<close>: the types of \<^verbatim>\<open>store.go\<close> and the SQLite store of
  \<^verbatim>\<open>sqlite.go\<close> and \<^verbatim>\<open>schema.go\<close>. A database is its three tables. A row of \<^verbatim>\<open>jobs\<close> keeps
  the two nullable lease columns the schema has; \<open>scan_job\<close> reads them into a job, as
  \<^verbatim>\<open>scanJob\<close> does. One operation of the interface is one definition on the database: a
  statement, or a transaction, that SQLite applies whole. A query that the database could
  not answer at all (a failed disk, a busy file) is not here; the runner's model adds it
  around every call.

  \<^verbatim>\<open>reserved_at\<close> is written and never read, so the idempotency table is a map from a key
  to the job it was reserved for.
\<close>

subsection \<open>Kinds, subjects and ids\<close>

type_synonym kind = string
type_synonym subject_type = string

definition KindImplement :: kind where "KindImplement = ''implement''"
definition KindReview :: kind where "KindReview = ''review''"
definition KindRevise :: kind where "KindRevise = ''revise''"

definition kind_valid :: "kind \<Rightarrow> bool" where
  "kind_valid k \<longleftrightarrow> k = KindImplement \<or> k = KindReview \<or> k = KindRevise"

definition SubjectIssue :: subject_type where "SubjectIssue = ''issue''"
definition SubjectPR :: subject_type where "SubjectPR = ''pr''"

definition subject_type_valid :: "subject_type \<Rightarrow> bool" where
  "subject_type_valid t \<longleftrightarrow> t = SubjectIssue \<or> t = SubjectPR"

record subject =
  sub_type :: subject_type
  sub_number :: int

definition subject_string :: "subject \<Rightarrow> string" where
  "subject_string s = sub_type s @ '' '' @ dec (sub_number s)"

definition job_ID :: "kind \<Rightarrow> subject \<Rightarrow> string" where
  "job_ID k s = k @ ''-'' @ sub_type s @ ''-'' @ dec (sub_number s)"

subsection \<open>Leases, jobs, episodes, commits\<close>

record lease =
  l_holder :: string
  l_expires :: instant

definition lease_expired :: "lease \<Rightarrow> instant \<Rightarrow> bool" where
  "lease_expired l now \<longleftrightarrow> \<not> now < l_expires l"

record job =
  j_id :: string
  j_kind :: kind
  j_subject :: subject
  j_state :: string
  j_attempts :: int
  j_stays :: int
  j_next :: gotime
  j_lease :: "lease option"

definition job_held :: "job \<Rightarrow> string \<Rightarrow> instant \<Rightarrow> bool" where
  "job_held j holder now \<longleftrightarrow>
     (case j_lease j of None \<Rightarrow> False
      | Some l \<Rightarrow> l_holder l = holder \<and> \<not> lease_expired l now)"

record episode =
  ep_running :: string
  ep_deferred :: string
  ep_since :: instant
  ep_times :: int
  ep_told :: bool

record commit_rec =
  c_job :: string
  c_holder :: string
  c_state :: string
  c_attempts :: int
  c_stays :: int
  c_next :: gotime
  c_keys :: "string list"
  c_release :: bool
  c_lease_until :: gotime
  c_end_episode :: bool

subsection \<open>The database\<close>

record job_row =
  r_id :: string
  r_kind :: kind
  r_subject_type :: subject_type
  r_subject_num :: int
  r_state :: string
  r_attempts :: int
  r_stays :: int
  r_next_run_at :: "int option"
  r_lease_holder :: "string option"
  r_lease_expires_at :: "int option"

record db =
  db_jobs :: "job_row list"
  db_idempotency :: "string \<rightharpoonup> string"
  db_episodes :: "string \<rightharpoonup> episode"

definition empty_db :: db where
  "empty_db = \<lparr>db_jobs = [], db_idempotency = Map.empty, db_episodes = Map.empty\<rparr>"

datatype store_error =
    ErrNoJob string
  | ErrNotHeld string string
  | ErrUnknownKind string
  | ErrUnknownSubjectType string
  | ErrForeignKey string
  | ErrCheck
  | ErrIO

type_synonym 'a store_op = "db \<Rightarrow> (store_error + 'a) \<times> db"

definition null_nanos :: "gotime \<Rightarrow> int option" where
  "null_nanos t = (if is_zero t then None else t)"

definition from_nanos :: "int option \<Rightarrow> gotime" where
  "from_nanos n = (case n of None \<Rightarrow> None | Some i \<Rightarrow> Some i)"

text \<open>
  \<^verbatim>\<open>scanJob\<close>: a lease is there when the holder column is. Its expiry is read from the
  other column; the schema's CHECK keeps the two NULL together, and an expiry that is
  NULL beside a holder would read as the zero time, which is before every instant.
\<close>

definition row_lease :: "job_row \<Rightarrow> lease option" where
  "row_lease r =
     (case r_lease_holder r of None \<Rightarrow> None
      | Some h \<Rightarrow> Some \<lparr>l_holder = h,
          l_expires = (case from_nanos (r_lease_expires_at r) of None \<Rightarrow> 0 | Some e \<Rightarrow> e)\<rparr>)"

definition scan_job :: "job_row \<Rightarrow> job" where
  "scan_job r =
     \<lparr>j_id = r_id r, j_kind = r_kind r,
      j_subject = \<lparr>sub_type = r_subject_type r, sub_number = r_subject_num r\<rparr>,
      j_state = r_state r, j_attempts = r_attempts r, j_stays = r_stays r,
      j_next = from_nanos (r_next_run_at r), j_lease = row_lease r\<rparr>"

definition find_row :: "string \<Rightarrow> db \<Rightarrow> job_row option" where
  "find_row jid d = tlookup r_id jid (db_jobs d)"

definition update_row :: "string \<Rightarrow> (job_row \<Rightarrow> job_row) \<Rightarrow> db \<Rightarrow> db" where
  "update_row jid f d = d\<lparr>db_jobs := tupdate r_id jid f (db_jobs d)\<rparr>"

subsection \<open>The operations\<close>

definition store_job :: "string \<Rightarrow> job store_op" where
  "store_job jid d =
     (case find_row jid d of None \<Rightarrow> (Inl (ErrNoJob jid), d)
      | Some r \<Rightarrow> (Inr (scan_job r), d))"

definition ensure :: "kind \<Rightarrow> subject \<Rightarrow> string \<Rightarrow> gotime \<Rightarrow> job store_op" where
  "ensure k s initial run_at d =
     (if \<not> kind_valid k then (Inl (ErrUnknownKind k), d)
      else if \<not> subject_type_valid (sub_type s) then (Inl (ErrUnknownSubjectType (sub_type s)), d)
      else
        let jid = job_ID k s;
            row = \<lparr>r_id = jid, r_kind = k, r_subject_type = sub_type s,
                   r_subject_num = sub_number s, r_state = initial, r_attempts = 0,
                   r_stays = 0, r_next_run_at = null_nanos run_at,
                   r_lease_holder = None, r_lease_expires_at = None\<rparr>;
            d' = (case find_row jid d of
                    None \<Rightarrow> d\<lparr>db_jobs := db_jobs d @ [row]\<rparr>
                  | Some _ \<Rightarrow> d)
        in store_job jid d')"

text \<open>\<^verbatim>\<open>ORDER BY next_run_at IS NULL, next_run_at, id\<close>.\<close>

definition jobs_order :: "job_row \<Rightarrow> bool \<times> int option \<times> string" where
  "jobs_order r = (r_next_run_at r = None, r_next_run_at r, r_id r)"

definition store_jobs :: "job list store_op" where
  "store_jobs d = (Inr (map scan_job (sort_key jobs_order (db_jobs d))), d)"

text \<open>
  \<^verbatim>\<open>leaseWhere\<close>, with SQL's three-valued logic: a comparison with NULL is not true.
\<close>

definition lease_where :: "instant \<Rightarrow> string \<Rightarrow> job_row \<Rightarrow> bool" where
  "lease_where now holder r \<longleftrightarrow>
     r_lease_holder r = None \<or>
     (case r_lease_expires_at r of None \<Rightarrow> False | Some e \<Rightarrow> e \<le> now) \<or>
     r_lease_holder r = Some holder"

definition set_lease :: "string \<Rightarrow> instant \<Rightarrow> job_row \<Rightarrow> job_row" where
  "set_lease holder expires r =
     r\<lparr>r_lease_holder := Some holder, r_lease_expires_at := Some expires\<rparr>"

definition acquire :: "string \<Rightarrow> string \<Rightarrow> instant \<Rightarrow> int \<Rightarrow> (job option) store_op" where
  "acquire jid holder now ttl d =
     (case find_row jid d of
        None \<Rightarrow> (Inl (ErrNoJob jid), d)
      | Some r \<Rightarrow>
          if lease_where now holder r then
            let d' = update_row jid (set_lease holder (now + ttl)) d in
            (case store_job jid d' of (Inl e, d'') \<Rightarrow> (Inl e, d'') | (Inr j, d'') \<Rightarrow> (Inr (Some j), d''))
          else (Inr None, d))"

definition due_where :: "instant \<Rightarrow> string \<Rightarrow> job_row \<Rightarrow> bool" where
  "due_where now holder r \<longleftrightarrow>
     (case r_next_run_at r of None \<Rightarrow> False | Some t \<Rightarrow> t \<le> now) \<and> lease_where now holder r"

definition due_order :: "job_row \<Rightarrow> int option \<times> string" where
  "due_order r = (r_next_run_at r, r_id r)"

definition due :: "string \<Rightarrow> instant \<Rightarrow> int \<Rightarrow> (job option) store_op" where
  "due holder now ttl d =
     (case first_by due_order (filter (due_where now holder) (db_jobs d)) of
        None \<Rightarrow> (Inr None, d)
      | Some r \<Rightarrow>
          (Inr (Some (scan_job (set_lease holder (now + ttl) r))),
           update_row (r_id r) (set_lease holder (now + ttl)) d))"

definition reserve_key :: "string \<Rightarrow> (string \<rightharpoonup> string) \<Rightarrow> string \<Rightarrow> (string \<rightharpoonup> string)" where
  "reserve_key jid m key = (case m key of None \<Rightarrow> m(key \<mapsto> jid) | Some _ \<Rightarrow> m)"

definition commit_row :: "commit_rec \<Rightarrow> job_row \<Rightarrow> job_row" where
  "commit_row c r =
     (let (holder, expires) =
        (if c_release c then (None, None)
         else if \<not> is_zero (c_lease_until c) then (Some (c_holder c), c_lease_until c)
         else (Some (c_holder c),
               Some (case r_lease_expires_at r of None \<Rightarrow> 0 | Some e \<Rightarrow> e)))
      in r\<lparr>r_state := c_state c, r_attempts := c_attempts c, r_stays := c_stays c,
           r_next_run_at := null_nanos (c_next c),
           r_lease_holder := holder, r_lease_expires_at := expires\<rparr>)"

definition commit :: "commit_rec \<Rightarrow> unit store_op" where
  "commit c d =
     (case find_row (c_job c) d of
        None \<Rightarrow> (Inl (ErrNoJob (c_job c)), d)
      | Some r \<Rightarrow>
          if r_lease_holder r \<noteq> Some (c_holder c)
          then (Inl (ErrNotHeld (c_job c) (c_holder c)), d)
          else
            let d1 = update_row (c_job c) (commit_row c) d;
                d2 = d1\<lparr>db_idempotency := foldl (reserve_key (c_job c)) (db_idempotency d1) (c_keys c)\<rparr>;
                d3 = (if c_end_episode c
                      then d2\<lparr>db_episodes := (db_episodes d2)(c_job c := None)\<rparr> else d2)
            in (Inr (), d3))"

definition reserved :: "string \<Rightarrow> bool store_op" where
  "reserved key d = (Inr (db_idempotency d key \<noteq> None), d)"

definition drop_lease :: "string \<Rightarrow> job_row \<Rightarrow> job_row" where
  "drop_lease holder r =
     (if r_lease_holder r = Some holder
      then r\<lparr>r_lease_holder := None, r_lease_expires_at := None\<rparr> else r)"

definition release :: "string \<Rightarrow> string \<Rightarrow> unit store_op" where
  "release jid holder d = (Inr (), update_row jid (drop_lease holder) d)"

subsection \<open>Episodes of an exhausted tier\<close>

definition episode_of :: "string \<Rightarrow> (episode option) store_op" where
  "episode_of jid d = (Inr (db_episodes d jid), d)"

definition count_episode :: "string \<Rightarrow> episode \<Rightarrow> episode store_op" where
  "count_episode jid start d =
     (case db_episodes d jid of
        None \<Rightarrow>
          if find_row jid d = None then (Inl (ErrForeignKey jid), d)
          else
            let ep = \<lparr>ep_running = ep_running start, ep_deferred = ep_deferred start,
                      ep_since = ep_since start, ep_times = 1, ep_told = False\<rparr>
            in (Inr ep, d\<lparr>db_episodes := (db_episodes d)(jid \<mapsto> ep)\<rparr>)
      | Some ep0 \<Rightarrow>
          let ep = ep0\<lparr>ep_times := ep_times ep0 + 1\<rparr>
          in (Inr ep, d\<lparr>db_episodes := (db_episodes d)(jid \<mapsto> ep)\<rparr>))"

definition told_episode :: "string \<Rightarrow> instant \<Rightarrow> unit store_op" where
  "told_episode jid since d =
     (case db_episodes d jid of
        None \<Rightarrow> (Inr (), d)
      | Some ep \<Rightarrow>
          if ep_since ep = since
          then (Inr (), d\<lparr>db_episodes := (db_episodes d)(jid \<mapsto> ep\<lparr>ep_told := True\<rparr>)\<rparr>)
          else (Inr (), d))"

definition end_episode :: "string \<Rightarrow> unit store_op" where
  "end_episode jid d = (Inr (), d\<lparr>db_episodes := (db_episodes d)(jid := None)\<rparr>)"

definition leave_episode :: "string \<Rightarrow> string \<Rightarrow> unit store_op" where
  "leave_episode jid state d =
     (case db_episodes d jid of
        None \<Rightarrow> (Inr (), d)
      | Some ep \<Rightarrow>
          if ep_running ep \<noteq> state \<and> ep_deferred ep \<noteq> state
          then (Inr (), d\<lparr>db_episodes := (db_episodes d)(jid := None)\<rparr>)
          else (Inr (), d))"

subsection \<open>Bringing the schema forward\<close>

text \<open>
  \<^verbatim>\<open>migrate\<close>: \<open>version\<close> is what the file records, \<open>n\<close> how many migrations this binary
  knows, and \<open>exec i\<close> whether running step \<open>i\<close> (its statements and the new version, one
  transaction) succeeds. The result is the version the file is left at and an error, if any.
\<close>

datatype migrate_error = NewerSchema int int | MigrationFailed int

definition migrations_known :: int where
  "migrations_known = 3"

function migrate_from :: "(int \<Rightarrow> bool) \<Rightarrow> int \<Rightarrow> int \<Rightarrow> (migrate_error option) \<times> int" where
  "migrate_from exec n i =
     (if i < n then
        if exec (i + 1) then migrate_from exec n (i + 1)
        else (Some (MigrationFailed (i + 1)), i)
      else (None, i))"
  by pat_completeness auto
termination
  by (relation "measure (\<lambda>(exec, n, i). nat (n - i))") auto

declare migrate_from.simps [simp del]

definition migrate :: "(int \<Rightarrow> bool) \<Rightarrow> int \<Rightarrow> (migrate_error option) \<times> int" where
  "migrate exec version =
     (if migrations_known < version then (Some (NewerSchema version migrations_known), version)
      else migrate_from exec migrations_known version)"

end
