(* ===== verification/Store_Laws.thy ===== *)
theory Store_Laws
  imports Job_Store
begin

text \<open>
  What the job store promises, and that the SQLite store keeps it. The promise is over the
  jobs as the interface shows them (\<open>view\<close>: a partial map from an id to a job) and over the
  set of reserved keys. \<open>db_ok\<close> is the schema's integrity: unique ids, the CHECK on the
  lease columns, both foreign keys, and ids derived from kind and subject. The locale
  \<open>lease_service\<close> states the contract a holder of leases relies on; it is interpreted on
  the SQLite store at the end.
\<close>

subsection \<open>The jobs as the interface shows them\<close>

definition view :: "db \<Rightarrow> string \<Rightarrow> job option" where
  "view d jid = map_option scan_job (find_row jid d)"

definition holder_of :: "job \<Rightarrow> string option" where
  "holder_of b = map_option l_holder (j_lease b)"

definition free_for :: "string \<Rightarrow> instant \<Rightarrow> job \<Rightarrow> bool" where
  "free_for holder now b \<longleftrightarrow>
     (case j_lease b of None \<Rightarrow> True | Some l \<Rightarrow> lease_expired l now \<or> l_holder l = holder)"

definition lease_to :: "string \<Rightarrow> instant \<Rightarrow> job \<Rightarrow> job" where
  "lease_to holder expires b = b\<lparr>j_lease := Some \<lparr>l_holder = holder, l_expires = expires\<rparr>\<rparr>"

definition committed :: "commit_rec \<Rightarrow> job \<Rightarrow> job" where
  "committed c b =
     b\<lparr>j_state := c_state c, j_attempts := c_attempts c, j_stays := c_stays c,
       j_next := c_next c,
       j_lease := (if c_release c then None
                   else case c_lease_until c of
                          None \<Rightarrow> j_lease b
                        | Some e \<Rightarrow> Some \<lparr>l_holder = c_holder c, l_expires = e\<rparr>)\<rparr>"

definition unleased_by :: "string \<Rightarrow> job \<Rightarrow> job" where
  "unleased_by holder b = (if holder_of b = Some holder then b\<lparr>j_lease := None\<rparr> else b)"

definition is_reserved :: "db \<Rightarrow> string \<Rightarrow> bool" where
  "is_reserved d key \<longleftrightarrow> db_idempotency d key \<noteq> None"

subsection \<open>Integrity of the database\<close>

definition row_ok :: "job_row \<Rightarrow> bool" where
  "row_ok r \<longleftrightarrow>
     (r_lease_holder r = None \<longleftrightarrow> r_lease_expires_at r = None) \<and>
     kind_valid (r_kind r) \<and> subject_type_valid (r_subject_type r) \<and>
     r_id r = job_ID (r_kind r) \<lparr>sub_type = r_subject_type r, sub_number = r_subject_num r\<rparr>"

definition db_ok :: "db \<Rightarrow> bool" where
  "db_ok d \<longleftrightarrow>
     distinct (map r_id (db_jobs d)) \<and> (\<forall>r\<in>set (db_jobs d). row_ok r) \<and>
     finite (dom (db_idempotency d)) \<and>
     (\<forall>j\<in>ran (db_idempotency d). find_row j d \<noteq> None) \<and>
     (\<forall>j\<in>dom (db_episodes d). find_row j d \<noteq> None)"

lemma db_ok_empty: "db_ok empty_db"
  by (simp add: db_ok_def empty_db_def)

lemma find_row_row_ok: "db_ok d \<Longrightarrow> find_row jid d = Some r \<Longrightarrow> row_ok r \<and> r_id r = jid"
  unfolding db_ok_def find_row_def by (blast dest: tlookup_SomeD)

lemma null_from_nanos [simp]: "from_nanos (null_nanos t) = t"
  by (cases t) (simp_all add: from_nanos_def null_nanos_def)

lemma from_nanos_id [simp]: "from_nanos n = n"
  by (cases n) (simp_all add: from_nanos_def)

lemma null_nanos_id [simp]: "null_nanos t = t"
  by (cases t) (simp_all add: null_nanos_def)

lemma set_lease_id [simp]: "r_id (set_lease h e r) = r_id r"
  by (simp add: set_lease_def)

lemma commit_row_id [simp]: "r_id (commit_row c r) = r_id r"
  by (simp add: commit_row_def)

lemma drop_lease_id [simp]: "r_id (drop_lease h r) = r_id r"
  by (simp add: drop_lease_def)

lemma row_ok_set_lease [simp]: "row_ok r \<Longrightarrow> row_ok (set_lease h e r)"
  by (simp add: row_ok_def set_lease_def)

lemma row_ok_commit_row [simp]: "row_ok r \<Longrightarrow> row_ok (commit_row c r)"
  by (cases "c_lease_until c") (simp_all add: row_ok_def commit_row_def)

lemma row_ok_drop_lease [simp]: "row_ok r \<Longrightarrow> row_ok (drop_lease h r)"
  by (simp add: row_ok_def drop_lease_def)

lemma scan_set_lease: "scan_job (set_lease h e r) = lease_to h e (scan_job r)"
  by (simp add: scan_job_def set_lease_def lease_to_def row_lease_def)

lemma scan_commit_row:
  "row_ok r \<Longrightarrow> r_lease_holder r = Some (c_holder c) \<Longrightarrow>
     scan_job (commit_row c r) = committed c (scan_job r)"
  by (auto simp: scan_job_def commit_row_def committed_def row_lease_def row_ok_def
      split: option.splits)

lemma scan_drop_lease: "scan_job (drop_lease h r) = unleased_by h (scan_job r)"
  by (auto simp: scan_job_def drop_lease_def unleased_by_def holder_of_def row_lease_def
      split: option.splits)

lemma holder_of_scan [simp]: "holder_of (scan_job r) = r_lease_holder r"
  by (simp add: holder_of_def scan_job_def row_lease_def split: option.splits)

lemma lease_where_free:
  "row_ok r \<Longrightarrow> lease_where now h r \<longleftrightarrow> free_for h now (scan_job r)"
  by (auto simp: lease_where_def free_for_def scan_job_def row_lease_def row_ok_def
      lease_expired_def split: option.splits)

subsection \<open>Updating one row\<close>

lemma find_row_update [table_simps]:
  "(\<And>r. r_id (f r) = r_id r) \<Longrightarrow>
     find_row jid' (update_row jid f d) =
       (if jid' = jid then map_option f (find_row jid d) else find_row jid' d)"
  by (simp add: find_row_def update_row_def table_simps)

lemma find_row_update_None [table_simps]:
  "(\<And>r. r_id (f r) = r_id r) \<Longrightarrow>
     find_row jid' (update_row jid f d) = None \<longleftrightarrow> find_row jid' d = None"
  by (simp add: find_row_update)

lemma view_update:
  "(\<And>r. r_id (f r) = r_id r) \<Longrightarrow> find_row jid d = Some r \<Longrightarrow>
     view (update_row jid f d) = (view d)(jid \<mapsto> scan_job (f r))"
  by (auto simp: view_def find_row_update)

lemma update_row_other [simp]:
  "db_idempotency (update_row jid f d) = db_idempotency d"
  "db_episodes (update_row jid f d) = db_episodes d"
  by (simp_all add: update_row_def)

lemma find_row_other [simp]:
  "find_row jid (d\<lparr>db_idempotency := m\<rparr>) = find_row jid d"
  "find_row jid (d\<lparr>db_episodes := e\<rparr>) = find_row jid d"
  by (simp_all add: find_row_def)

lemma view_other [simp]:
  "view (d\<lparr>db_idempotency := m\<rparr>) = view d"
  "view (d\<lparr>db_episodes := e\<rparr>) = view d"
  by (simp_all add: view_def fun_eq_iff)

lemma db_ok_update:
  assumes "db_ok d" and "\<And>r. r_id (f r) = r_id r" and "\<And>r. row_ok r \<Longrightarrow> row_ok (f r)"
  shows "db_ok (update_row jid f d)"
proof -
  have "map r_id (db_jobs (update_row jid f d)) = map r_id (db_jobs d)"
    using assms(2) by (simp add: update_row_def table_simps)
  moreover have "\<forall>r\<in>set (db_jobs (update_row jid f d)). row_ok r"
    using assms(1,3) by (auto simp: update_row_def db_ok_def dest!: set_tupdate)
  ultimately show ?thesis
    using assms(1,2) by (simp add: db_ok_def find_row_update_None)
qed

subsection \<open>Reserving keys\<close>

lemma reserve_key_dom: "dom (reserve_key j m k) = insert k (dom m)"
  by (auto simp: reserve_key_def split: option.splits)

lemma reserve_keys_dom: "dom (foldl (reserve_key j) m ks) = dom m \<union> set ks"
  by (induction ks arbitrary: m) (auto simp: reserve_key_dom)

lemma reserve_keys_keep: "m k = Some j' \<Longrightarrow> foldl (reserve_key j) m ks k = Some j'"
proof (induction ks arbitrary: m)
  case (Cons a ks)
  then have "reserve_key j m a k = Some j'" by (auto simp: reserve_key_def split: option.splits)
  with Cons.IH show ?case by simp
qed simp

lemma reserve_keys_ran: "ran (foldl (reserve_key j) m ks) \<subseteq> insert j (ran m)"
proof (induction ks arbitrary: m)
  case (Cons a ks)
  have "ran (reserve_key j m a) \<subseteq> insert j (ran m)"
    by (auto simp: reserve_key_def ran_def split: option.splits if_splits)
  with Cons.IH [of "reserve_key j m a"] show ?case by auto
qed auto


subsection \<open>What each operation does to the view, the keys and the integrity\<close>

lemma acquire_eq:
  "acquire jid h now ttl d =
    (case find_row jid d of None \<Rightarrow> (Inl (ErrNoJob jid), d)
     | Some r \<Rightarrow>
         if lease_where now h r
         then (Inr (Some (scan_job (set_lease h (now + ttl) r))),
               update_row jid (set_lease h (now + ttl)) d)
         else (Inr None, d))"
proof (cases "find_row jid d")
  case None
  then show ?thesis by (simp add: acquire_def)
next
  case (Some r)
  have "find_row jid (update_row jid (set_lease h (now + ttl)) d)
      = Some (set_lease h (now + ttl) r)"
    using Some by (subst find_row_update) simp_all
  with Some show ?thesis by (simp add: acquire_def store_job_def Let_def)
qed

lemma view_Some: "find_row jid d = Some r \<Longrightarrow> view d jid = Some (scan_job r)"
  by (simp add: view_def)

lemma view_None: "find_row jid d = None \<Longrightarrow> view d jid = None"
  by (simp add: view_def)

lemma lease_where_view:
  "db_ok d \<Longrightarrow> find_row jid d = Some r \<Longrightarrow> lease_where now h r = free_for h now (scan_job r)"
  by (blast dest: find_row_row_ok lease_where_free)

lemma acquire_result:
  assumes "db_ok d"
  shows "fst (acquire jid h now ttl d) =
    (case view d jid of None \<Rightarrow> Inl (ErrNoJob jid)
     | Some b \<Rightarrow> if free_for h now b then Inr (Some (lease_to h (now + ttl) b)) else Inr None)"
  by (cases "find_row jid d")
    (simp_all add: acquire_eq view_Some view_None lease_where_view [OF assms] scan_set_lease)

lemma acquire_view:
  assumes "db_ok d"
  shows "view (snd (acquire jid h now ttl d)) =
    (case view d jid of None \<Rightarrow> view d
     | Some b \<Rightarrow> if free_for h now b then (view d)(jid \<mapsto> lease_to h (now + ttl) b) else view d)"
  by (cases "find_row jid d")
    (simp_all add: acquire_eq view_Some view_None lease_where_view [OF assms]
      scan_set_lease view_update)

lemma acquire_other [simp]:
  "db_idempotency (snd (acquire jid h now ttl d)) = db_idempotency d"
  "db_episodes (snd (acquire jid h now ttl d)) = db_episodes d"
  by (simp_all add: acquire_eq split: option.splits)

lemma acquire_ok: "db_ok d \<Longrightarrow> db_ok (snd (acquire jid h now ttl d))"
  by (auto simp: acquire_eq split: option.splits intro!: db_ok_update)

lemma commit_result:
  assumes "db_ok d"
  shows "fst (commit c d) =
    (case view d (c_job c) of None \<Rightarrow> Inl (ErrNoJob (c_job c))
     | Some b \<Rightarrow> if holder_of b = Some (c_holder c) then Inr ()
               else Inl (ErrNotHeld (c_job c) (c_holder c)))"
  by (simp add: commit_def view_def Let_def split: option.splits)

lemma commit_view:
  assumes "db_ok d"
  shows "view (snd (commit c d)) =
    (case view d (c_job c) of None \<Rightarrow> view d
     | Some b \<Rightarrow> if holder_of b = Some (c_holder c) then (view d)(c_job c \<mapsto> committed c b)
               else view d)"
proof (cases "find_row (c_job c) d")
  case None
  then show ?thesis by (simp add: commit_def view_def)
next
  case (Some r)
  then have r: "row_ok r" "view d (c_job c) = Some (scan_job r)"
    using assms by (auto simp: view_def dest: find_row_row_ok)
  show ?thesis
    using Some r by (simp add: commit_def Let_def scan_commit_row view_update [OF commit_row_id Some])
qed

lemma commit_keys:
  "dom (db_idempotency (snd (commit c d))) =
     dom (db_idempotency d) \<union> (if isl (fst (commit c d)) then {} else set (c_keys c))"
  by (auto simp: commit_def Let_def reserve_keys_dom split: option.splits)

lemma reserved_commit:
  "is_reserved (snd (commit c d)) k \<longleftrightarrow>
     is_reserved d k \<or> (fst (commit c d) = Inr () \<and> k \<in> set (c_keys c))"
  using commit_keys [of c d] by (cases "fst (commit c d)") (auto simp: is_reserved_def)

lemma commit_ok: "db_ok d \<Longrightarrow> db_ok (snd (commit c d))"
proof (cases "fst (commit c d)")
  case (Inl e)
  assume "db_ok d"
  moreover from Inl have "snd (commit c d) = d"
    by (auto simp: commit_def Let_def split: option.splits if_splits)
  ultimately show ?thesis by simp
next
  case (Inr u)
  assume d: "db_ok d"
  let ?d1 = "update_row (c_job c) (commit_row c) d"
  have d1: "db_ok ?d1" using d by (intro db_ok_update) simp_all
  from Inr obtain r where r: "find_row (c_job c) d = Some r"
    by (auto simp: commit_def split: option.splits)
  then have "find_row (c_job c) ?d1 \<noteq> None" by (simp add: find_row_update)
  with d1 have ran: "\<forall>j\<in>ran (foldl (reserve_key (c_job c)) (db_idempotency ?d1) (c_keys c)).
      find_row j ?d1 \<noteq> None"
    using reserve_keys_ran [of "c_job c" "db_idempotency ?d1" "c_keys c"]
    unfolding db_ok_def by blast
  have fin: "finite (dom (foldl (reserve_key (c_job c)) (db_idempotency d) (c_keys c)))"
    using d by (simp add: reserve_keys_dom db_ok_def)
  from r Inr have "snd (commit c d) =
      (let d2 = ?d1\<lparr>db_idempotency := foldl (reserve_key (c_job c)) (db_idempotency ?d1) (c_keys c)\<rparr>
       in if c_end_episode c then d2\<lparr>db_episodes := (db_episodes d2)(c_job c := None)\<rparr> else d2)"
    by (auto simp: commit_def Let_def split: if_splits)
  with d1 ran fin show ?thesis
    by (auto simp: db_ok_def Let_def)
qed

lemma release_view:
  "view (snd (release jid h d)) =
    (case view d jid of None \<Rightarrow> view d | Some b \<Rightarrow> (view d)(jid \<mapsto> unleased_by h b))"
proof (cases "find_row jid d")
  case None
  then show ?thesis by (auto simp: release_def view_def find_row_update fun_eq_iff)
next
  case (Some r)
  then have "view d jid = Some (scan_job r)" by (simp add: view_def)
  then show ?thesis
    by (simp add: release_def view_update [OF drop_lease_id Some] scan_drop_lease)
qed

lemma release_other [simp]:
  "db_idempotency (snd (release jid h d)) = db_idempotency d"
  "db_episodes (snd (release jid h d)) = db_episodes d"
  by (simp_all add: release_def)

lemma release_result [simp]: "fst (release jid h d) = Inr ()"
  by (simp add: release_def)

lemma release_ok: "db_ok d \<Longrightarrow> db_ok (snd (release jid h d))"
  by (auto simp: release_def intro!: db_ok_update)

lemma store_job_simps [simp]:
  "snd (store_job jid d) = d"
  "fst (store_job jid d) = (case view d jid of None \<Rightarrow> Inl (ErrNoJob jid) | Some b \<Rightarrow> Inr b)"
  by (simp_all add: store_job_def view_def split: option.splits)

lemma reserved_simps [simp]:
  "snd (reserved k d) = d" "fst (reserved k d) = Inr (is_reserved d k)"
  by (simp_all add: reserved_def is_reserved_def)


definition new_job :: "kind \<Rightarrow> subject \<Rightarrow> string \<Rightarrow> gotime \<Rightarrow> job" where
  "new_job k s initial run_at =
     \<lparr>j_id = job_ID k s, j_kind = k, j_subject = s, j_state = initial, j_attempts = 0,
      j_stays = 0, j_next = run_at, j_lease = None\<rparr>"

definition new_row :: "kind \<Rightarrow> subject \<Rightarrow> string \<Rightarrow> gotime \<Rightarrow> job_row" where
  "new_row k s initial run_at =
     \<lparr>r_id = job_ID k s, r_kind = k, r_subject_type = sub_type s,
      r_subject_num = sub_number s, r_state = initial, r_attempts = 0, r_stays = 0,
      r_next_run_at = run_at, r_lease_holder = None, r_lease_expires_at = None\<rparr>"

lemma new_row_id [simp]: "r_id (new_row k s i t) = job_ID k s"
  by (simp add: new_row_def)

lemma scan_new_row: "scan_job (new_row k s i t) = new_job k s i t"
  by (simp add: scan_job_def new_row_def new_job_def row_lease_def)

lemma find_row_insert:
  "find_row j (d\<lparr>db_jobs := db_jobs d @ [r]\<rparr>) =
     (case find_row j d of None \<Rightarrow> if r_id r = j then Some r else None | Some r' \<Rightarrow> Some r')"
  by (auto simp: find_row_def tlookup_append tlookup_Cons tlookup_Nil split: option.split)

lemma ensure_eq:
  assumes "kind_valid k" and "subject_type_valid (sub_type s)"
  shows "ensure k s initial run_at d =
    (case find_row (job_ID k s) d of
       None \<Rightarrow> (Inr (new_job k s initial run_at),
               d\<lparr>db_jobs := db_jobs d @ [new_row k s initial run_at]\<rparr>)
     | Some r \<Rightarrow> (Inr (scan_job r), d))"
proof (cases "find_row (job_ID k s) d")
  case None
  then have "find_row (job_ID k s) (d\<lparr>db_jobs := db_jobs d @ [new_row k s initial run_at]\<rparr>)
      = Some (new_row k s initial run_at)" by (simp add: find_row_insert)
  with None assms show ?thesis
    by (simp add: ensure_def Let_def store_job_def scan_new_row flip: new_row_def)
next
  case (Some r)
  with assms show ?thesis by (simp add: ensure_def Let_def store_job_def)
qed

lemma ensure_result:
  assumes "kind_valid k" and "subject_type_valid (sub_type s)"
  shows "fst (ensure k s initial run_at d) =
      Inr (case view d (job_ID k s) of None \<Rightarrow> new_job k s initial run_at | Some b \<Rightarrow> b)"
  by (cases "find_row (job_ID k s) d") (simp_all add: ensure_eq [OF assms] view_Some view_None)

lemma ensure_view:
  assumes "kind_valid k" and "subject_type_valid (sub_type s)"
  shows "view (snd (ensure k s initial run_at d)) =
      (case view d (job_ID k s) of
         None \<Rightarrow> (view d)(job_ID k s \<mapsto> new_job k s initial run_at) | Some b \<Rightarrow> view d)"
proof (cases "find_row (job_ID k s) d")
  case None
  then show ?thesis
    by (auto simp: ensure_eq [OF assms] view_None fun_eq_iff view_def find_row_insert
        scan_new_row split: option.splits)
next
  case (Some r)
  then show ?thesis by (simp add: ensure_eq [OF assms] view_Some)
qed

lemma ensure_other [simp]:
  "db_idempotency (snd (ensure k s initial run_at d)) = db_idempotency d"
  "db_episodes (snd (ensure k s initial run_at d)) = db_episodes d"
  by (auto simp: ensure_def Let_def split: option.splits)

lemma ensure_invalid:
  "\<not> (kind_valid k \<and> subject_type_valid (sub_type s)) \<Longrightarrow>
     isl (fst (ensure k s initial run_at d)) \<and> snd (ensure k s initial run_at d) = d"
  by (simp add: ensure_def)

lemma ensure_ok:
  assumes "db_ok d"
  shows "db_ok (snd (ensure k s initial run_at d))"
proof (cases "kind_valid k \<and> subject_type_valid (sub_type s) \<and> find_row (job_ID k s) d = None")
  case False
  then have "snd (ensure k s initial run_at d) = d"
    by (auto simp: ensure_def Let_def split: option.splits)
  with assms show ?thesis by simp
next
  case True
  let ?row = "new_row k s initial run_at"
  let ?d' = "d\<lparr>db_jobs := db_jobs d @ [?row]\<rparr>"
  from True have eq: "snd (ensure k s initial run_at d) = ?d'"
    by (simp add: ensure_eq)
  from True have fresh: "job_ID k s \<notin> r_id ` set (db_jobs d)"
    by (simp add: find_row_def tlookup_None_iff)
  have keep: "find_row j d \<noteq> None \<Longrightarrow> find_row j ?d' \<noteq> None" for j
    by (auto simp: find_row_insert split: option.splits)
  have "row_ok ?row" using True by (simp add: row_ok_def new_row_def job_ID_def)
  with assms fresh keep have "db_ok ?d'" by (auto simp: db_ok_def)
  with eq show ?thesis by simp
qed

lemma due_Some:
  assumes "db_ok d" and "fst (due h now ttl d) = Inr (Some b')"
  obtains r where "r \<in> set (db_jobs d)" and "find_row (r_id r) d = Some r"
    and "due_where now h r" and "b' = lease_to h (now + ttl) (scan_job r)"
    and "snd (due h now ttl d) = update_row (r_id r) (set_lease h (now + ttl)) d"
    and "\<forall>r'\<in>set (db_jobs d). due_where now h r' \<longrightarrow> due_order r \<le> due_order r'"
proof -
  from assms(2) obtain r where
    r: "first_by due_order (filter (due_where now h) (db_jobs d)) = Some r"
    by (auto simp: due_def split: option.splits)
  from first_by_SomeD [OF r] have "r \<in> set (db_jobs d)" "due_where now h r" and
    min: "\<forall>r'\<in>set (db_jobs d). due_where now h r' \<longrightarrow> due_order r \<le> due_order r'" by auto
  moreover have "find_row (r_id r) d = Some r"
    using assms(1) \<open>r \<in> set (db_jobs d)\<close>
    by (simp add: find_row_def db_ok_def tlookup_unique)
  ultimately show ?thesis
    using r assms(2) that [of r] by (auto simp: due_def scan_set_lease)
qed

lemma due_None:
  assumes "\<And>b. fst (due h now ttl d) \<noteq> Inr (Some b)"
  shows "fst (due h now ttl d) = Inr None \<and> snd (due h now ttl d) = d"
proof (cases "first_by due_order (filter (due_where now h) (db_jobs d))")
  case None
  then show ?thesis by (simp only: due_def option.case fst_conv snd_conv simp_thms)
next
  case (Some r)
  then have "fst (due h now ttl d) = Inr (Some (scan_job (set_lease h (now + ttl) r)))"
    by (simp add: due_def)
  with assms show ?thesis by blast
qed

lemma due_cases:
  assumes "db_ok d"
  obtains (none) "fst (due h now ttl d) = Inr None" "snd (due h now ttl d) = d"
  | (some) r where "r \<in> set (db_jobs d)" "find_row (r_id r) d = Some r"
      "due_where now h r" "fst (due h now ttl d) = Inr (Some (lease_to h (now + ttl) (scan_job r)))"
      "snd (due h now ttl d) = update_row (r_id r) (set_lease h (now + ttl)) d"
proof (cases "\<exists>b. fst (due h now ttl d) = Inr (Some b)")
  case True
  then show ?thesis using due_Some [OF assms] some by metis
next
  case False
  then show ?thesis using due_None none by metis
qed

lemma due_other [simp]:
  "db_idempotency (snd (due h now ttl d)) = db_idempotency d"
  "db_episodes (snd (due h now ttl d)) = db_episodes d"
  by (simp_all add: due_def split: option.splits)

lemma due_ok: "db_ok d \<Longrightarrow> db_ok (snd (due h now ttl d))"
  by (auto simp: due_def split: option.splits intro!: db_ok_update)

lemma episodes_ok:
  assumes "db_ok d"
  shows "db_ok (snd (count_episode jid start d))" "db_ok (snd (told_episode jid since d))"
    "db_ok (snd (end_episode jid d))" "db_ok (snd (leave_episode jid st d))"
  using assms
  by (auto simp: db_ok_def count_episode_def told_episode_def end_episode_def leave_episode_def
      Let_def split: option.splits)

lemma episodes_view [simp]:
  "view (snd (count_episode jid start d)) = view d"
  "view (snd (told_episode jid since d)) = view d"
  "view (snd (end_episode jid d)) = view d"
  "view (snd (leave_episode jid st d)) = view d"
  by (auto simp: count_episode_def told_episode_def end_episode_def leave_episode_def Let_def
      split: option.splits)

lemma episodes_keys [simp]:
  "db_idempotency (snd (count_episode jid start d)) = db_idempotency d"
  "db_idempotency (snd (told_episode jid since d)) = db_idempotency d"
  "db_idempotency (snd (end_episode jid d)) = db_idempotency d"
  "db_idempotency (snd (leave_episode jid st d)) = db_idempotency d"
  by (auto simp: count_episode_def told_episode_def end_episode_def leave_episode_def Let_def
      split: option.splits)

subsection \<open>Any sequence of calls\<close>

datatype store_call =
    Ensure kind subject string gotime
  | Acquire string string instant int
  | Due string instant int
  | Commit commit_rec
  | Release string string
  | CountEpisode string episode
  | ToldEpisode string instant
  | EndEpisode string
  | LeaveEpisode string string

fun exec :: "store_call \<Rightarrow> db \<Rightarrow> db" where
  "exec (Ensure k s i t) d = snd (ensure k s i t d)"
| "exec (Acquire j h now ttl) d = snd (acquire j h now ttl d)"
| "exec (Due h now ttl) d = snd (due h now ttl d)"
| "exec (Commit c) d = snd (commit c d)"
| "exec (Release j h) d = snd (release j h d)"
| "exec (CountEpisode j ep) d = snd (count_episode j ep d)"
| "exec (ToldEpisode j t) d = snd (told_episode j t d)"
| "exec (EndEpisode j) d = snd (end_episode j d)"
| "exec (LeaveEpisode j st) d = snd (leave_episode j st d)"

definition exec_all :: "store_call list \<Rightarrow> db \<Rightarrow> db" where
  "exec_all cs d = fold exec cs d"

text \<open>Who makes a call under a lease of their own, and by which clock a call takes a lease.\<close>

fun caller :: "store_call \<Rightarrow> string option" where
  "caller (Acquire j h now ttl) = Some h"
| "caller (Due h now ttl) = Some h"
| "caller (Commit c) = Some (c_holder c)"
| "caller (Release j h) = Some h"
| "caller _ = None"

fun call_time :: "store_call \<Rightarrow> instant option" where
  "call_time (Acquire j h now ttl) = Some now"
| "call_time (Due h now ttl) = Some now"
| "call_time _ = None"

lemma exec_ok: "db_ok d \<Longrightarrow> db_ok (exec c d)"
  by (cases c) (simp_all add: ensure_ok acquire_ok due_ok commit_ok release_ok episodes_ok)

lemma exec_all_ok: "db_ok d \<Longrightarrow> db_ok (exec_all cs d)"
  unfolding exec_all_def by (induction cs arbitrary: d) (simp_all add: exec_ok)

lemma exec_keys_mono: "is_reserved d k \<Longrightarrow> is_reserved (exec c d) k"
proof (cases c)
  case (Commit x)
  assume "is_reserved d k"
  then have "k \<in> dom (db_idempotency (snd (commit x d)))"
    by (auto simp: commit_keys is_reserved_def)
  then show ?thesis by (auto simp: is_reserved_def Commit)
qed (simp_all add: is_reserved_def)


subsection \<open>The contract of a store of leases\<close>

text \<open>
  What whoever takes a lease relies on: who may take one, who may commit, that a commit is
  all or nothing, and that a key once reserved stays reserved. The clients' lemmas are
  proved from it once.
\<close>

locale lease_service =
  fixes ok :: "'s \<Rightarrow> bool"
    and jobs :: "'s \<Rightarrow> string \<Rightarrow> job option"
    and keys :: "'s \<Rightarrow> string \<Rightarrow> bool"
    and acq :: "string \<Rightarrow> string \<Rightarrow> instant \<Rightarrow> int \<Rightarrow> 's \<Rightarrow> (store_error + job option) \<times> 's"
    and com :: "commit_rec \<Rightarrow> 's \<Rightarrow> (store_error + unit) \<times> 's"
    and rel :: "string \<Rightarrow> string \<Rightarrow> 's \<Rightarrow> (store_error + unit) \<times> 's"
  assumes acq_ok: "ok s \<Longrightarrow> ok (snd (acq j h now ttl s))"
    and com_ok: "ok s \<Longrightarrow> ok (snd (com c s))"
    and rel_ok: "ok s \<Longrightarrow> ok (snd (rel j h s))"
    and acq_result: "ok s \<Longrightarrow> fst (acq j h now ttl s) =
      (case jobs s j of None \<Rightarrow> Inl (ErrNoJob j)
       | Some b \<Rightarrow> if free_for h now b then Inr (Some (lease_to h (now + ttl) b)) else Inr None)"
    and acq_jobs: "ok s \<Longrightarrow> jobs (snd (acq j h now ttl s)) =
      (case jobs s j of None \<Rightarrow> jobs s
       | Some b \<Rightarrow> if free_for h now b then (jobs s)(j \<mapsto> lease_to h (now + ttl) b) else jobs s)"
    and acq_keys: "keys (snd (acq j h now ttl s)) = keys s"
    and com_result: "ok s \<Longrightarrow> fst (com c s) =
      (case jobs s (c_job c) of None \<Rightarrow> Inl (ErrNoJob (c_job c))
       | Some b \<Rightarrow> if holder_of b = Some (c_holder c) then Inr ()
                 else Inl (ErrNotHeld (c_job c) (c_holder c)))"
    and com_jobs: "ok s \<Longrightarrow> jobs (snd (com c s)) =
      (case jobs s (c_job c) of None \<Rightarrow> jobs s
       | Some b \<Rightarrow> if holder_of b = Some (c_holder c) then (jobs s)(c_job c \<mapsto> committed c b)
                 else jobs s)"
    and com_keys: "ok s \<Longrightarrow> keys (snd (com c s)) k \<longleftrightarrow>
      keys s k \<or> (fst (com c s) = Inr () \<and> k \<in> set (c_keys c))"
    and rel_jobs: "ok s \<Longrightarrow> jobs (snd (rel j h s)) =
      (case jobs s j of None \<Rightarrow> jobs s | Some b \<Rightarrow> (jobs s)(j \<mapsto> unleased_by h b))"
    and rel_keys: "keys (snd (rel j h s)) = keys s"
begin

lemma acquired_is_held:
  assumes "ok s" and "fst (acq j h now ttl s) = Inr (Some b)"
  shows "jobs (snd (acq j h now ttl s)) j = Some b" and "holder_of b = Some h"
  using assms
  by (auto simp: acq_result acq_jobs lease_to_def holder_of_def split: option.splits if_splits)

lemma live_lease_blocks:
  assumes "ok s" and "fst (acq j h now ttl s) = Inr (Some b)"
    and "h' \<noteq> h" and "now' < now + ttl"
  shows "fst (acq j h' now' ttl' (snd (acq j h now ttl s))) = Inr None"
  using assms
  by (auto simp: acq_result acq_jobs acq_ok lease_to_def free_for_def lease_expired_def
      split: option.splits if_splits)

lemma expired_lease_taken:
  assumes "ok s" and "fst (acq j h now ttl s) = Inr (Some b)" and "now + ttl \<le> now'"
  shows "\<exists>b'. fst (acq j h' now' ttl' (snd (acq j h now ttl s))) = Inr (Some b')"
  using assms
  by (auto simp: acq_result acq_jobs acq_ok lease_to_def free_for_def lease_expired_def
      split: option.splits if_splits)

lemma displaced_commit_refused:
  assumes "ok s" and "fst (acq (c_job c) h' now ttl s) = Inr (Some b)" and "c_holder c \<noteq> h'"
  shows "fst (com c (snd (acq (c_job c) h' now ttl s))) = Inl (ErrNotHeld (c_job c) (c_holder c))"
    and "jobs (snd (com c (snd (acq (c_job c) h' now ttl s)))) =
         jobs (snd (acq (c_job c) h' now ttl s))"
    and "keys (snd (com c (snd (acq (c_job c) h' now ttl s)))) k \<longleftrightarrow> keys s k"
  using acquired_is_held [OF assms(1,2)] acq_ok [OF assms(1), of "c_job c" h' now ttl] assms(3)
  by (auto simp: com_result com_jobs com_keys acq_keys)

lemma committed_keys_stay:
  assumes "ok s" and "fst (com c s) = Inr ()" and "k \<in> set (c_keys c)"
  shows "keys (snd (com c s)) k"
  using assms by (simp add: com_keys)

lemma rel_clears:
  assumes "ok s"
  shows "\<exists>b. jobs (snd (rel j h s)) j = Some b \<Longrightarrow> holder_of (the (jobs (snd (rel j h s)) j)) \<noteq> Some h"
  using assms by (auto simp: rel_jobs unleased_by_def holder_of_def split: option.splits)

end

interpretation sq: lease_service db_ok view is_reserved acquire commit release
proof unfold_locales
  fix s c k
  assume "db_ok s"
  show "is_reserved (snd (commit c s)) k \<longleftrightarrow>
      is_reserved s k \<or> (fst (commit c s) = Inr () \<and> k \<in> set (c_keys c))"
    using commit_keys [of c s] by (cases "fst (commit c s)") (auto simp: is_reserved_def)
qed (auto simp: acquire_ok commit_ok release_ok acquire_result acquire_view commit_result
    commit_view release_view is_reserved_def fun_eq_iff)

subsection \<open>Properties of the store\<close>

lemma exec_live_lease:
  assumes "db_ok d" and b: "view d j = Some b" and l: "j_lease b = Some l"
    and "caller c \<noteq> Some (l_holder l)"
    and t: "\<And>t. call_time c = Some t \<Longrightarrow> t < l_expires l"
  shows "view (exec c d) j = Some b"
proof (cases c)
  case (Ensure k s i r)
  show ?thesis
  proof (cases "kind_valid k \<and> subject_type_valid (sub_type s)")
    case True
    with b show ?thesis by (auto simp: Ensure ensure_view split: option.splits)
  next
    case False
    with b show ?thesis by (simp add: Ensure ensure_invalid)
  qed
next
  case (Acquire j' h now ttl)
  with assms show ?thesis
    by (auto simp: acquire_view free_for_def lease_expired_def split: option.splits)
next
  case (Due h now ttl)
  show ?thesis
  proof (rule due_cases [OF assms(1), of h now ttl])
    assume "snd (due h now ttl d) = d"
    with b show ?thesis by (simp add: Due)
  next
    fix r
    assume r: "find_row (r_id r) d = Some r" "due_where now h r"
      and up: "snd (due h now ttl d) = update_row (r_id r) (set_lease h (now + ttl)) d"
    have "r_id r \<noteq> j"
    proof
      assume "r_id r = j"
      with r b have "b = scan_job r" by (simp add: view_Some)
      moreover have "free_for h now (scan_job r)"
        using r assms(1) by (simp add: due_where_def flip: lease_where_view)
      ultimately show False using assms Due by (auto simp: free_for_def lease_expired_def)
    qed
    with b show ?thesis by (simp add: Due up view_update [OF set_lease_id r(1)])
  qed
next
  case (Commit x)
  with assms show ?thesis by (auto simp: commit_view holder_of_def split: option.splits)
next
  case (Release j' h)
  with assms show ?thesis by (auto simp: release_view unleased_by_def holder_of_def split: option.splits)
qed (simp_all add: b)

end
