(* ===== verification/Registry.thy ===== *)
theory Registry
  imports Store_Laws "HOL-Library.Multiset"
begin

text \<open>
  Transitions and their registry, \<^verbatim>\<open>internal/transition/transition.go\<close>. A transition is
  data and a function: what it decides is a result, an error or a panic. The two indexes of
  a registry are association lists, newest entry first, since \<^verbatim>\<open>All\<close> and \<^verbatim>\<open>Names\<close> list them.

  An effect's \<^verbatim>\<open>Do\<close> is a function on the database (arming another job writes to it) that
  also says whether it failed; what it does to the tracker is outside the model. \<open>None\<close> is
  the nil function.
\<close>

type_synonym effect_do = "db \<Rightarrow> string option \<times> db"

datatype effect = Effect (e_key: string) (e_do: "effect_do option")

record result =
  res_state :: string
  res_run_at :: gotime
  res_effects :: "effect list"
  res_exhausted :: "string option"

definition result_keys :: "effect list \<Rightarrow> string list" where
  "result_keys es = map e_key es"

datatype decided = Decided result | DecideError string | Panicked string

record transition =
  t_name :: string
  t_kind :: kind
  t_from :: string
  t_tokens :: "string list"
  t_run :: "(job \<Rightarrow> instant \<Rightarrow> decided) option"

datatype registry_error =
    NoName
  | BadKind string kind
  | NoFrom string
  | NothingToRun string
  | EmptyToken string
  | TokenTwice string string
  | NameTwice string
  | Ambiguous string string kind string

fun validate_tokens :: "string \<Rightarrow> string list \<Rightarrow> string list \<Rightarrow> registry_error option" where
  "validate_tokens name seen [] = None"
| "validate_tokens name seen (tok # toks) =
     (if tok = '''' then Some (EmptyToken name)
      else if tok \<in> set seen then Some (TokenTwice name tok)
      else validate_tokens name (tok # seen) toks)"

definition validate :: "transition \<Rightarrow> registry_error option" where
  "validate t =
     (if t_name t = '''' then Some NoName
      else if \<not> kind_valid (t_kind t) then Some (BadKind (t_name t) (t_kind t))
      else if t_from t = '''' then Some (NoFrom (t_name t))
      else if t_run t = None then Some (NothingToRun (t_name t))
      else validate_tokens (t_name t) [] (t_tokens t))"

type_synonym state_id = "kind \<times> string"

definition state_key :: "transition \<Rightarrow> state_id" where
  "state_key t = (t_kind t, t_from t)"

record registry =
  by_name :: "(string \<times> transition) list"
  by_state :: "(state_id \<times> transition) list"

definition registry_get :: "registry \<Rightarrow> string \<Rightarrow> transition option" where
  "registry_get r name = map_of (by_name r) name"

definition registry_next :: "registry \<Rightarrow> kind \<Rightarrow> string \<Rightarrow> transition option" where
  "registry_next r k st = map_of (by_state r) (k, st)"

fun register_all :: "registry \<Rightarrow> transition list \<Rightarrow> registry_error + registry" where
  "register_all r [] = Inr r"
| "register_all r (t # ts) =
     (case validate t of
        Some e \<Rightarrow> Inl e
      | None \<Rightarrow>
          if registry_get r (t_name t) \<noteq> None then Inl (NameTwice (t_name t))
          else (case registry_next r (t_kind t) (t_from t) of
            Some other \<Rightarrow> Inl (Ambiguous (t_name other) (t_name t) (t_kind t) (t_from t))
          | None \<Rightarrow> register_all
              (r\<lparr>by_name := (t_name t, t) # by_name r, by_state := (state_key t, t) # by_state r\<rparr>) ts))"

definition new_registry :: "transition list \<Rightarrow> registry_error + registry" where
  "new_registry ts = register_all \<lparr>by_name = [], by_state = []\<rparr> ts"

definition registry_unmovable :: "registry \<Rightarrow> kind \<Rightarrow> string list \<Rightarrow> string list" where
  "registry_unmovable r k states = filter (\<lambda>s. registry_next r k s = None) states"

definition registry_all :: "registry \<Rightarrow> transition list" where
  "registry_all r = sort_key t_name (map snd (by_name r))"

definition registry_names :: "registry \<Rightarrow> string list" where
  "registry_names r = sort (map fst (by_name r))"

subsection \<open>What building a registry guarantees\<close>

lemma validate_tokens_ok:
  "validate_tokens name seen toks = None \<longleftrightarrow>
     '''' \<notin> set toks \<and> distinct toks \<and> set toks \<inter> set seen = {}"
  by (induction toks arbitrary: seen) auto

text \<open>The indexes agree with the transitions registered so far.\<close>

definition indexes :: "registry \<Rightarrow> transition list \<Rightarrow> bool" where
  "indexes r ts \<longleftrightarrow>
     by_name r = map (\<lambda>t. (t_name t, t)) ts \<and> by_state r = map (\<lambda>t. (state_key t, t)) ts \<and>
     distinct (map t_name ts) \<and> distinct (map state_key ts)"

lemma map_of_keyed:
  "distinct (map f ts) \<Longrightarrow> map_of (map (\<lambda>t. (f t, t)) ts) k = Some t \<longleftrightarrow> t \<in> set ts \<and> f t = k"
  by (induction ts) (auto simp: image_iff)

lemma map_of_keyed_None:
  "map_of (map (\<lambda>t. (f t, t)) ts) k = None \<longleftrightarrow> k \<notin> f ` set ts"
  by (induction ts) auto

lemma indexes_get:
  "indexes r ts \<Longrightarrow> registry_get r n = Some t \<longleftrightarrow> t \<in> set ts \<and> t_name t = n"
  by (auto simp: indexes_def registry_get_def map_of_keyed)

lemma indexes_next:
  "indexes r ts \<Longrightarrow> registry_next r k s = Some t \<longleftrightarrow> t \<in> set ts \<and> t_kind t = k \<and> t_from t = s"
  unfolding indexes_def registry_next_def by (auto simp: map_of_keyed) (auto simp: state_key_def)

definition registered :: "registry \<Rightarrow> transition \<Rightarrow> registry" where
  "registered r t = r\<lparr>by_name := (t_name t, t) # by_name r, by_state := (state_key t, t) # by_state r\<rparr>"

definition admissible :: "transition \<Rightarrow> transition list \<Rightarrow> bool" where
  "admissible t ts \<longleftrightarrow>
     validate t = None \<and> t_name t \<notin> t_name ` set ts \<and> state_key t \<notin> state_key ` set ts"

lemma indexes_None:
  assumes "indexes r ts"
  shows "registry_get r n = None \<longleftrightarrow> n \<notin> t_name ` set ts"
    and "registry_next r k s = None \<longleftrightarrow> (k, s) \<notin> state_key ` set ts"
  using assms by (simp_all add: indexes_def registry_get_def registry_next_def map_of_keyed_None)

lemma register_all_step:
  assumes "indexes r ts0"
  shows "admissible t ts0 \<Longrightarrow> register_all r (t # ts) = register_all (registered r t) ts"
    and "\<not> admissible t ts0 \<Longrightarrow> \<exists>e. register_all r (t # ts) = Inl e"
  using indexes_None(1) [OF assms, of "t_name t"] indexes_None(2) [OF assms, of "t_kind t" "t_from t"]
  by (auto simp: admissible_def registered_def simp flip: state_key_def split: option.splits)

lemma indexes_registered:
  "indexes r ts0 \<Longrightarrow> admissible t ts0 \<Longrightarrow> indexes (registered r t) (t # ts0)"
  by (simp add: indexes_def registered_def admissible_def)

lemma register_all_Inr:
  "indexes r ts0 \<Longrightarrow> register_all r ts = Inr r' \<Longrightarrow>
     indexes r' (rev ts @ ts0) \<and> (\<forall>t\<in>set ts. validate t = None)"
proof (induction ts arbitrary: r ts0)
  case (Cons t ts)
  then have adm: "admissible t ts0"
    by (metis register_all_step(2) Inl_Inr_False)
  with Cons.prems have "register_all (registered r t) ts = Inr r'"
    by (metis register_all_step(1))
  from Cons.IH [OF indexes_registered [OF Cons.prems(1) adm] this] adm
  show ?case by (simp add: admissible_def)
qed simp

lemma register_all_complete:
  assumes "indexes r ts0" and "\<forall>t\<in>set ts. validate t = None"
    and "distinct (map t_name (rev ts @ ts0))" and "distinct (map state_key (rev ts @ ts0))"
  shows "\<exists>r'. register_all r ts = Inr r'"
  using assms
proof (induction ts arbitrary: r ts0)
  case (Cons t ts)
  then have adm: "admissible t ts0" by (auto simp: admissible_def)
  have "\<exists>r'. register_all (registered r t) ts = Inr r'"
    using Cons.prems by (intro Cons.IH [OF indexes_registered [OF Cons.prems(1) adm]]) auto
  with Cons.prems(1) adm show ?case by (simp add: register_all_step(1) del: register_all.simps)
qed simp

lemma indexes_empty: "indexes \<lparr>by_name = [], by_state = []\<rparr> []"
  by (simp add: indexes_def)

lemma distinct_map_rev: "distinct (map f (rev xs)) \<longleftrightarrow> distinct (map f xs)"
  by (simp add: distinct_map)

text \<open>A registry is built exactly when every transition is well-formed, no two share a name
  and no two run from the same state of the same kind; and then the registry answers each
  lookup by the one transition registered for it.\<close>

theorem new_registry_sound:
  "(\<exists>r. new_registry ts = Inr r) \<longleftrightarrow>
     (\<forall>t\<in>set ts. validate t = None) \<and> distinct (map t_name ts) \<and> distinct (map state_key ts)"
proof
  assume "\<exists>r. new_registry ts = Inr r"
  then show "(\<forall>t\<in>set ts. validate t = None) \<and> distinct (map t_name ts) \<and> distinct (map state_key ts)"
    using register_all_Inr [OF indexes_empty, of ts]
    by (auto simp: new_registry_def indexes_def distinct_map_rev)
next
  assume "(\<forall>t\<in>set ts. validate t = None) \<and> distinct (map t_name ts) \<and> distinct (map state_key ts)"
  then show "\<exists>r. new_registry ts = Inr r"
    using register_all_complete [OF indexes_empty, of ts]
    by (simp add: new_registry_def distinct_map_rev)
qed

lemma new_registry_indexes: "new_registry ts = Inr r \<Longrightarrow> indexes r (rev ts)"
  using register_all_Inr [OF indexes_empty, of ts r] by (simp add: new_registry_def)

text \<open>The state machine is unambiguous: the transition a job takes next is determined by its
  kind and state, is one of those registered, runs jobs of that kind from that state, and is
  the one found by its own name; a state has none only if no transition runs from it.\<close>

theorem registry_next_unique:
  assumes "new_registry ts = Inr r"
  shows "(registry_next r k s = Some t \<longleftrightarrow> t \<in> set ts \<and> t_kind t = k \<and> t_from t = s) \<and>
    (registry_next r k s = Some t \<longrightarrow> registry_get r (t_name t) = Some t) \<and>
    (registry_unmovable r k states = filter (\<lambda>s. \<forall>t\<in>set ts. (t_kind t, t_from t) \<noteq> (k, s)) states)"
proof -
  note ix = new_registry_indexes [OF assms]
  have "registry_next r k s' = None \<longleftrightarrow> (\<forall>t\<in>set ts. (t_kind t, t_from t) \<noteq> (k, s'))" for s'
    using indexes_next [OF ix, of k s'] by (cases "registry_next r k s'") auto
  then show ?thesis
    by (auto simp: indexes_next [OF ix] indexes_get [OF ix] registry_unmovable_def)
qed

definition example_transition :: transition where
  "example_transition =
     \<lparr>t_name = ''review'', t_kind = KindReview, t_from = ''start'', t_tokens = [''heavy-build''],
      t_run = Some (\<lambda>j now. Decided \<lparr>res_state = ''posted'', res_run_at = None,
        res_effects = [Effect ''review-pr-12-abc'' (Some (\<lambda>d. (None, d)))], res_exhausted = None\<rparr>)\<rparr>"

lemma example_transition_valid: "validate example_transition = None"
  by (simp add: validate_def example_transition_def kind_valid_def)

definition example_registry :: registry where
  "example_registry =
     \<lparr>by_name = [(''review'', example_transition)],
      by_state = [((KindReview, ''start''), example_transition)]\<rparr>"

lemma example_registry_new: "new_registry [example_transition] = Inr example_registry"
  using example_transition_valid
  by (simp add: new_registry_def example_registry_def state_key_def registry_get_def
      registry_next_def example_transition_def)

theorem registry_next_unique_witness:
  "registry_next example_registry KindReview ''start'' = Some example_transition \<and>
   registry_unmovable example_registry KindReview [''start'', ''posted''] = [''posted'']"
  using registry_next_unique [OF example_registry_new, of KindReview "''start''" example_transition
      "[''start'', ''posted'']"]
  by (simp add: example_transition_def)

text \<open>The listings are complete and ordered: every registered transition is listed once, in
  order of name, and the names are those of the transitions listed.\<close>

theorem registry_listing:
  assumes "new_registry ts = Inr r"
  shows "set (registry_all r) = set ts \<and> distinct (registry_all r) \<and>
    sorted (map t_name (registry_all r)) \<and> registry_names r = map t_name (registry_all r)"
proof -
  note ix = new_registry_indexes [OF assms]
  then have bn: "map snd (by_name r) = rev ts" "map fst (by_name r) = map t_name (rev ts)"
    and d: "distinct (map t_name (rev ts))" by (simp_all add: indexes_def o_def)
  have s: "sorted (map t_name (registry_all r))" by (simp add: registry_all_def)
  have "mset (map t_name (registry_all r)) = mset (map fst (by_name r))"
    unfolding registry_all_def bn by (simp only: mset_map mset_sort)
  from properties_for_sort [OF this s] have "registry_names r = map t_name (registry_all r)"
    by (simp add: registry_names_def)
  with s d show ?thesis
    by (simp add: registry_all_def bn distinct_map)
qed

theorem registry_listing_witness:
  "registry_names example_registry = map t_name (registry_all example_registry)"
  using registry_listing [OF example_registry_new] by simp

theorem new_registry_sound_witness:
  "(\<exists>r. new_registry [example_transition] = Inr r) \<and>
   \<not> (\<exists>r. new_registry [example_transition, example_transition] = Inr r)"
  unfolding new_registry_sound by (simp add: example_transition_valid)

end
