(* ===== verification/Runner.thy ===== *)
theory Runner
  imports Registry
begin

text \<open>
  The runner, \<^verbatim>\<open>internal/transition/runner.go\<close>: it applies one transition to one job. The
  world it acts on is the database, the keys of the effects whose \<^verbatim>\<open>Do\<close> was called (oldest
  first), and a script of faults: each store call takes one entry, and \<open>True\<close> makes that call
  return an error with nothing applied. An exhausted script is a store that answers. The two
  readings of the clock a run makes are arguments: \<open>now\<close> when the lease is taken, \<open>now'\<close> when
  it is renewed at the commit. Cancellation of the caller's context reaches only the
  transition's own code and its effects, whose errors are arbitrary here.
\<close>

subsection \<open>The world and its faults\<close>

record world =
  w_db :: db
  w_faults :: "bool list"
  w_done :: "string list"

definition call :: "'a store_op \<Rightarrow> world \<Rightarrow> (store_error + 'a) \<times> world" where
  "call f w =
     (case w_faults w of
        True # fs \<Rightarrow> (Inl ErrIO, w\<lparr>w_faults := fs\<rparr>)
      | False # fs \<Rightarrow> (let (r, d) = f (w_db w) in (r, w\<lparr>w_db := d, w_faults := fs\<rparr>))
      | [] \<Rightarrow> (let (r, d) = f (w_db w) in (r, w\<lparr>w_db := d\<rparr>)))"

datatype run_error =
    UnknownTransition string
  | ErrHeld string
  | StoreErr store_error
  | WrongKind string kind string kind
  | ErrWrongState string string string string
  | DecideFailed string
  | DecidePanicked string string string
  | NoNextState string
  | BadEffect string
  | EffectFailed string string string
  | Joined run_error run_error

record runner =
  rn_registry :: registry
  rn_holder :: string
  rn_ttl :: int
  rn_backoff :: "(int \<Rightarrow> gotime \<times> bool) option"

record outcome =
  o_transition :: string
  o_job :: job
  o_from :: string
  o_to :: string
  o_performed :: "string list"
  o_skipped :: "string list"
  o_parked :: bool
  o_exhausted :: "string option"

definition zero_job :: job where
  "zero_job = \<lparr>j_id = '''', j_kind = '''', j_subject = \<lparr>sub_type = '''', sub_number = 0\<rparr>,
     j_state = '''', j_attempts = 0, j_stays = 0, j_next = None, j_lease = None\<rparr>"

definition no_outcome :: outcome where
  "no_outcome = \<lparr>o_transition = '''', o_job = zero_job, o_from = '''', o_to = '''',
     o_performed = [], o_skipped = [], o_parked = False, o_exhausted = None\<rparr>"

type_synonym ran = "outcome \<times> run_error option \<times> world"

subsection \<open>Giving the lease back, and failing\<close>

definition joined :: "run_error option \<Rightarrow> run_error \<Rightarrow> run_error" where
  "joined cause e = (case cause of None \<Rightarrow> e | Some c \<Rightarrow> Joined c e)"

definition rn_release :: "runner \<Rightarrow> job \<Rightarrow> run_error option \<Rightarrow> world \<Rightarrow> run_error option \<times> world" where
  "rn_release rn j cause w =
     (case call (release (j_id j) (rn_holder rn)) w of
        (Inl e, w') \<Rightarrow> (Some (joined cause (StoreErr e)), w')
      | (Inr _, w') \<Rightarrow> (cause, w'))"

definition refuse :: "runner \<Rightarrow> job \<Rightarrow> run_error \<Rightarrow> world \<Rightarrow> ran" where
  "refuse rn j cause w =
     (let (err, w') = rn_release rn j (Some cause) w in (no_outcome, err, w'))"

definition decide :: "transition \<Rightarrow> job \<Rightarrow> instant \<Rightarrow> run_error + result" where
  "decide t j now =
     (case t_run t of
        None \<Rightarrow> Inl (DecidePanicked (t_name t) (j_id j) ''nil function'')
      | Some f \<Rightarrow>
          (case f j now of
             Decided res \<Rightarrow> Inr res
           | DecideError e \<Rightarrow> Inl (DecideFailed e)
           | Panicked p \<Rightarrow> Inl (DecidePanicked (t_name t) (j_id j) p)))"

definition backoff_at :: "runner \<Rightarrow> int \<Rightarrow> gotime" where
  "backoff_at rn attempts =
     (case rn_backoff rn of
        None \<Rightarrow> None
      | Some f \<Rightarrow> (let (at, ok) = f attempts in if ok then at else None))"

definition fail_commit :: "runner \<Rightarrow> job \<Rightarrow> commit_rec" where
  "fail_commit rn j =
     \<lparr>c_job = j_id j, c_holder = rn_holder rn, c_state = j_state j,
      c_attempts = j_attempts j + 1, c_stays = j_stays j,
      c_next = backoff_at rn (j_attempts j + 1), c_keys = [], c_release = True,
      c_lease_until = None, c_end_episode = False\<rparr>"

definition rn_fail :: "runner \<Rightarrow> transition \<Rightarrow> job \<Rightarrow> run_error \<Rightarrow> world \<Rightarrow> ran" where
  "rn_fail rn t j cause w =
     (case call (commit (fail_commit rn j)) w of
        (Inl e, w1) \<Rightarrow> refuse rn j (Joined cause (StoreErr e)) w1
      | (Inr _, w1) \<Rightarrow>
          (case call (store_job (j_id j)) w1 of
             (Inl e, w2) \<Rightarrow> refuse rn j (Joined cause (StoreErr e)) w2
           | (Inr b, w2) \<Rightarrow>
               (no_outcome\<lparr>o_transition := t_name t, o_job := b, o_from := j_state j,
                  o_to := j_state j, o_parked := is_zero (backoff_at rn (j_attempts j + 1))\<rparr>,
                Some cause, w2)))"

subsection \<open>Which effects are still to do, and doing them\<close>

fun split_effects :: "transition \<Rightarrow> effect list \<Rightarrow> world \<Rightarrow>
    (run_error + effect list \<times> string list) \<times> world" where
  "split_effects t [] w = (Inr ([], []), w)"
| "split_effects t (e # es) w =
     (if e_key e = '''' \<or> e_do e = None then (Inl (BadEffect (t_name t)), w)
      else (case call (reserved (e_key e)) w of
        (Inl err, w') \<Rightarrow> (Inl (StoreErr err), w')
      | (Inr yes, w') \<Rightarrow>
          (case split_effects t es w' of
             (Inl err, w'') \<Rightarrow> (Inl err, w'')
           | (Inr (todo, skipped), w'') \<Rightarrow>
               (if yes then (Inr (todo, e_key e # skipped), w'')
                else (Inr (e # todo, skipped), w'')))))"

definition do_effect :: "effect \<Rightarrow> world \<Rightarrow> string option \<times> world" where
  "do_effect e w =
     (case e_do e of
        None \<Rightarrow> (Some ''nil function'', w)
      | Some f \<Rightarrow> (let (err, d) = f (w_db w) in (err, w\<lparr>w_db := d, w_done := w_done w @ [e_key e]\<rparr>)))"

fun perform :: "runner \<Rightarrow> job \<Rightarrow> outcome \<Rightarrow> effect list \<Rightarrow> world \<Rightarrow> ran" where
  "perform rn j out [] w = (let (err, w') = rn_release rn j None w in (out, err, w'))"
| "perform rn j out (e # es) w =
     (case do_effect e w of
        (Some err, w') \<Rightarrow>
          (let (err', w'') = rn_release rn j (Some (EffectFailed (e_key e) (j_id j) err)) w'
           in (out, err', w''))
      | (None, w') \<Rightarrow> perform rn j (out\<lparr>o_performed := o_performed out @ [e_key e]\<rparr>) es w')"

subsection \<open>Applying a transition\<close>

definition apply_commit :: "runner \<Rightarrow> job \<Rightarrow> result \<Rightarrow> effect list \<Rightarrow> instant \<Rightarrow> commit_rec" where
  "apply_commit rn j res todo now' =
     (let (attempts, stays) =
        (if res_state res = j_state j then (j_attempts j, j_stays j + 1) else (0, 0))
      in \<lparr>c_job = j_id j, c_holder = rn_holder rn, c_state = res_state res,
          c_attempts = attempts, c_stays = stays, c_next = res_run_at res,
          c_keys = result_keys todo, c_release = (todo = []),
          c_lease_until = (if todo = [] then None else Some (now' + rn_ttl rn)),
          c_end_episode = False\<rparr>)"

definition apply_result :: "runner \<Rightarrow> transition \<Rightarrow> job \<Rightarrow> result \<Rightarrow> instant \<Rightarrow> world \<Rightarrow> ran" where
  "apply_result rn t j res now' w =
     (case split_effects t (res_effects res) w of
        (Inl err, w1) \<Rightarrow> rn_fail rn t j err w1
      | (Inr (todo, skipped), w1) \<Rightarrow>
          (case call (commit (apply_commit rn j res todo now')) w1 of
             (Inl e, w2) \<Rightarrow> refuse rn j (StoreErr e) w2
           | (Inr _, w2) \<Rightarrow>
               (case call (store_job (j_id j)) w2 of
                  (Inl e, w3) \<Rightarrow> refuse rn j (StoreErr e) w3
                | (Inr b, w3) \<Rightarrow>
                    perform rn j
                      \<lparr>o_transition = t_name t, o_job = b, o_from = j_state j,
                       o_to = res_state res, o_performed = [], o_skipped = skipped,
                       o_parked = is_zero (res_run_at res), o_exhausted = res_exhausted res\<rparr>
                      todo w3)))"

definition rn_apply :: "runner \<Rightarrow> transition \<Rightarrow> job \<Rightarrow> instant \<Rightarrow> instant \<Rightarrow> world \<Rightarrow> ran" where
  "rn_apply rn t j now now' w =
     (if j_kind j \<noteq> t_kind t then
        refuse rn j (WrongKind (t_name t) (t_kind t) (j_id j) (j_kind j)) w
      else if j_state j \<noteq> t_from t then
        refuse rn j (ErrWrongState (j_id j) (j_state j) (t_name t) (t_from t)) w
      else
        (case decide t j now of
           Inl err \<Rightarrow> rn_fail rn t j err w
         | Inr res \<Rightarrow>
             if res_state res = '''' then rn_fail rn t j (NoNextState (t_name t)) w
             else apply_result rn t j res now' w))"

definition run :: "runner \<Rightarrow> string \<Rightarrow> string \<Rightarrow> instant \<Rightarrow> instant \<Rightarrow> world \<Rightarrow> ran" where
  "run rn name jid now now' w =
     (case registry_get (rn_registry rn) name of
        None \<Rightarrow> (no_outcome, Some (UnknownTransition name), w)
      | Some t \<Rightarrow>
          (case call (acquire jid (rn_holder rn) now (rn_ttl rn)) w of
             (Inl e, w1) \<Rightarrow> (no_outcome, Some (StoreErr e), w1)
           | (Inr None, w1) \<Rightarrow> (no_outcome, Some (ErrHeld jid), w1)
           | (Inr (Some j), w1) \<Rightarrow> rn_apply rn t j now now' w1))"

subsection \<open>A fault changes nothing, and a call that answers is the operation\<close>

lemma call_cases:
  obtains (fault) "call f w = (Inl ErrIO, w\<lparr>w_faults := tl (w_faults w)\<rparr>)"
  | (answer) "call f w = (fst (f (w_db w)), w\<lparr>w_db := snd (f (w_db w)), w_faults := tl (w_faults w)\<rparr>)"
  by (cases "w_faults w"; cases "hd (w_faults w)"; cases w)
    (auto simp: call_def split: prod.splits)

lemma call_outcome:
  assumes "call f w = (r, w')"
  shows "w_done w' = w_done w \<and>
    (r = Inl ErrIO \<and> w_db w' = w_db w \<or> r = fst (f (w_db w)) \<and> w_db w' = snd (f (w_db w)))"
  using assms by (cases rule: call_cases [of f w]) auto

lemma call_Inr:
  "call f w = (Inr x, w') \<Longrightarrow>
     fst (f (w_db w)) = Inr x \<and> w_db w' = snd (f (w_db w)) \<and> w_done w' = w_done w"
  by (auto dest: call_outcome)

lemma call_no_faults:
  "w_faults w = [] \<Longrightarrow> call f w = (fst (f (w_db w)), w\<lparr>w_db := snd (f (w_db w))\<rparr>)"
  by (simp add: call_def split: prod.splits)

lemma call_done: "call f w = (r, w') \<Longrightarrow> w_done w' = w_done w"
  by (simp add: call_outcome)

end
