(* ===== verification/Store_Properties.thy ===== *)
theory Store_Properties
  imports Store_Laws
begin

text \<open>
  The properties of the job store: integrity over any history, a live lease excludes
  everyone else, a commit is atomic and refused to a displaced holder, reserved keys stay
  reserved, the queue hands out the longest-waiting job, and ids tell jobs apart.
\<close>

text \<open>C12: Starting from an empty file, every sequence of store operations keeps the schema's
  integrity: ids unique and derived from kind and subject, lease columns NULL together, and
  every idempotency key and every episode belonging to a job that exists.\<close>

theorem store_integrity: "db_ok (exec_all calls empty_db)"
  by (rule exec_all_ok [OF db_ok_empty])

text \<open>C13: While a job's lease is live, no sequence of operations made by anyone but its holder
  changes the job in any way: not its state, its counts, its schedule or its lease. Every
  lease the others ask for is asked for before the lease's expiry.\<close>

theorem live_lease_excludes:
  assumes "db_ok d" and "view d j = Some b" and "j_lease b = Some l"
    and "\<forall>c\<in>set calls. caller c \<noteq> Some (l_holder l)"
    and "\<forall>c\<in>set calls. \<forall>t. call_time c = Some t \<longrightarrow> t < l_expires l"
  shows "view (exec_all calls d) j = Some b"
  using assms
proof (induction calls arbitrary: d)
  case Nil
  then show ?case by (simp add: exec_all_def)
next
  case (Cons c cs)
  have "view (exec c d) j = Some b"
    using Cons.prems by (intro exec_live_lease) auto
  with Cons show ?case by (simp add: exec_all_def exec_ok)
qed

definition example_subject :: subject where
  "example_subject = \<lparr>sub_type = SubjectPR, sub_number = 12\<rparr>"

definition example_db :: db where
  "example_db =
     exec_all [Ensure KindReview example_subject ''start'' (Some 5),
               Acquire ''review-pr-12'' ''w1'' 10 100] empty_db"

lemma example_id: "job_ID KindReview example_subject = ''review-pr-12''"
  by code_simp

definition example_row :: job_row where
  "example_row = set_lease ''w1'' 110 (new_row KindReview example_subject ''start'' (Some 5))"

lemma example_db_eq: "example_db = empty_db\<lparr>db_jobs := [example_row]\<rparr>"
proof -
  have v: "kind_valid KindReview" "subject_type_valid (sub_type example_subject)"
    by (simp_all add: kind_valid_def subject_type_valid_def example_subject_def)
  have e: "snd (ensure KindReview example_subject ''start'' (Some 5) empty_db) =
      empty_db\<lparr>db_jobs := [new_row KindReview example_subject ''start'' (Some 5)]\<rparr>"
    by (simp add: ensure_eq [OF v] find_row_def empty_db_def table_simps)
  show ?thesis
    by (simp add: example_db_def exec_all_def e acquire_eq find_row_def table_simps example_id
        lease_where_def update_row_def tupdate_def example_row_def new_row_def)
qed

lemma example_db_ok: "db_ok example_db"
  by (simp add: example_db_def exec_all_ok db_ok_empty)

lemma example_view: "view example_db ''review-pr-12'' = Some (scan_job example_row)"
  by (simp add: view_def example_db_eq find_row_def table_simps example_row_def example_id)

lemma example_lease: "j_lease (scan_job example_row) = Some \<lparr>l_holder = ''w1'', l_expires = 110\<rparr>"
  by (simp add: example_row_def scan_set_lease lease_to_def)

lemma example_valid [simp]: "kind_valid KindReview" "subject_type_valid (sub_type example_subject)"
  by (simp_all add: kind_valid_def subject_type_valid_def example_subject_def)

lemma example_job [simp]:
  "j_id (scan_job example_row) = ''review-pr-12''"
  "j_kind (scan_job example_row) = KindReview" "j_state (scan_job example_row) = ''start''"
  "free_for ''w1'' now (scan_job example_row)"
  using example_lease
  by (simp_all add: free_for_def)
    (simp_all add: scan_job_def example_row_def set_lease_def new_row_def example_id)

theorem live_lease_excludes_witness:
  "view (exec_all [Acquire ''review-pr-12'' ''w2'' 109 50, Due ''w3'' 50 10,
      Release ''review-pr-12'' ''w2''] example_db) ''review-pr-12'' = Some (scan_job example_row)"
  by (rule live_lease_excludes [OF example_db_ok example_view example_lease]) auto

text \<open>C14: A commit is all or nothing. Refused, it leaves the database as it was, and it is
  refused exactly when the job is not there or its lease is not the committer's. Applied, the
  job takes the commit's four fields, its lease is dropped, kept or renewed as the commit
  says, every key of the commit is reserved, no other job changes and no other key appears.\<close>

theorem commit_atomic:
  assumes "db_ok d"
  shows "(case fst (commit c d) of
      Inl e \<Rightarrow> snd (commit c d) = d \<and>
        (case view d (c_job c) of None \<Rightarrow> e = ErrNoJob (c_job c)
         | Some b \<Rightarrow> holder_of b \<noteq> Some (c_holder c) \<and> e = ErrNotHeld (c_job c) (c_holder c))
    | Inr _ \<Rightarrow> (\<exists>b. view d (c_job c) = Some b \<and> holder_of b = Some (c_holder c) \<and>
          view (snd (commit c d)) = (view d)(c_job c \<mapsto> committed c b)) \<and>
        {k. is_reserved (snd (commit c d)) k} = {k. is_reserved d k} \<union> set (c_keys c))"
proof (cases "fst (commit c d)")
  case (Inl e)
  moreover from Inl have "snd (commit c d) = d"
    by (auto simp: commit_def Let_def split: option.splits if_splits)
  ultimately show ?thesis
    using commit_result [OF assms, of c] by (auto split: option.splits if_splits)
next
  case (Inr u)
  then show ?thesis
    using commit_result [OF assms, of c] commit_view [OF assms, of c]
    by (auto simp: sq.com_keys [OF assms] split: option.splits if_splits)
qed

definition example_commit :: commit_rec where
  "example_commit =
     \<lparr>c_job = ''review-pr-12'', c_holder = ''w1'', c_state = ''posted'', c_attempts = 0,
      c_stays = 0, c_next = None, c_keys = [''review-pr-12-abc''], c_release = True,
      c_lease_until = None, c_end_episode = False\<rparr>"

theorem commit_atomic_witness:
  "is_reserved (snd (commit example_commit example_db)) ''review-pr-12-abc'' \<and>
   snd (commit (example_commit\<lparr>c_holder := ''w2''\<rparr>) example_db) = example_db"
proof -
  have b: "r_lease_holder example_row = Some ''w1''"
    by (simp add: example_row_def set_lease_def)
  have ok: "fst (commit example_commit example_db) = Inr ()"
    by (simp add: commit_result [OF example_db_ok] example_view example_commit_def b)
  have no: "fst (commit (example_commit\<lparr>c_holder := ''w2''\<rparr>) example_db) =
      Inl (ErrNotHeld ''review-pr-12'' ''w2'')"
    by (simp add: commit_result [OF example_db_ok] example_view example_commit_def b)
  have ks: "c_keys example_commit = [''review-pr-12-abc'']"
    by (simp add: example_commit_def)
  have "is_reserved (snd (commit example_commit example_db)) ''review-pr-12-abc''"
    using commit_atomic [OF example_db_ok, of example_commit] unfolding ok ks by auto
  moreover have "snd (commit (example_commit\<lparr>c_holder := ''w2''\<rparr>) example_db) = example_db"
    using commit_atomic [OF example_db_ok, of "example_commit\<lparr>c_holder := ''w2''\<rparr>"]
    unfolding no by simp
  ultimately show ?thesis by blast
qed

text \<open>A holder that overran its lease and was displaced cannot write: once another holder
  has taken the expired lease, the first one's commit is refused and changes neither the
  jobs nor the reserved keys. So two holders never both write.\<close>

theorem displaced_holder_cannot_commit:
  assumes "db_ok d" and "fst (acquire (c_job c) h' now ttl d) = Inr (Some b)"
    and "c_holder c \<noteq> h'"
  shows "let d' = snd (acquire (c_job c) h' now ttl d) in
      fst (commit c d') = Inl (ErrNotHeld (c_job c) (c_holder c)) \<and>
      view (snd (commit c d')) = view d' \<and> is_reserved (snd (commit c d')) = is_reserved d"
  using sq.displaced_commit_refused [OF assms] by (auto simp: Let_def fun_eq_iff)

theorem displaced_holder_cannot_commit_witness:
  "fst (commit example_commit (snd (acquire ''review-pr-12'' ''w2'' 110 100 example_db))) =
     Inl (ErrNotHeld ''review-pr-12'' ''w1'')"
proof -
  have "fst (acquire (c_job example_commit) ''w2'' 110 100 example_db) =
      Inr (Some (lease_to ''w2'' 210 (scan_job example_row)))"
    by (simp add: acquire_result [OF example_db_ok] example_commit_def example_view free_for_def
        example_lease lease_expired_def)
  from displaced_holder_cannot_commit [OF example_db_ok this]
  show ?thesis by (simp add: example_commit_def Let_def)
qed

text \<open>An idempotency key once reserved stays reserved, whatever is done to the store
  afterwards.\<close>

theorem reserved_for_good:
  assumes "is_reserved d k"
  shows "is_reserved (exec_all calls d) k"
  using assms unfolding exec_all_def
  by (induction calls arbitrary: d) (simp_all add: exec_keys_mono)

theorem reserved_for_good_witness:
  "is_reserved (exec_all [Commit example_commit, Release ''review-pr-12'' ''w1'']
     (empty_db\<lparr>db_idempotency := [''intake-comment-7'' \<mapsto> ''review-pr-12'']\<rparr>)) ''intake-comment-7''"
  by (rule reserved_for_good) (simp add: is_reserved_def)

text \<open>The queue hands out the longest-waiting job: what Due leases is scheduled at or before
  now and not held by another live holder, no other such job was due earlier (nor at the same
  time with a smaller id), it comes back leased to the asker until now plus the lease's
  length, and no other job changes.\<close>

theorem due_longest_waiting:
  assumes "db_ok d" and "fst (due h now ttl d) = Inr (Some b')"
  shows "\<exists>b. view d (j_id b) = Some b \<and> b' = lease_to h (now + ttl) b \<and>
      (\<exists>t\<le>now. j_next b = Some t) \<and> free_for h now b \<and>
      view (snd (due h now ttl d)) = (view d)(j_id b \<mapsto> b') \<and>
      (\<forall>j a t. view d j = Some a \<and> j_next a = Some t \<and> t \<le> now \<and> free_for h now a \<longrightarrow>
         (j_next b, j_id b) \<le> (Some t, j))"
proof -
  obtain r where r: "r \<in> set (db_jobs d)" "find_row (r_id r) d = Some r" "due_where now h r"
    and b': "b' = lease_to h (now + ttl) (scan_job r)"
    and up: "snd (due h now ttl d) = update_row (r_id r) (set_lease h (now + ttl)) d"
    and least: "\<forall>r'\<in>set (db_jobs d). due_where now h r' \<longrightarrow> due_order r \<le> due_order r'"
    using due_Some [OF assms] by metis
  let ?b = "scan_job r"
  have id: "j_id ?b = r_id r" and nx: "j_next ?b = r_next_run_at r"
    by (simp_all add: scan_job_def)
  have "(j_next ?b, j_id ?b) \<le> (Some t, j)"
    if a: "view d j = Some a" "j_next a = Some t" "t \<le> now" "free_for h now a" for j a t
  proof -
    from a(1) obtain r' where r': "find_row j d = Some r'" "a = scan_job r'"
      by (auto simp: view_def)
    then have "r' \<in> set (db_jobs d)" "r_id r' = j"
      by (auto simp: find_row_def dest: tlookup_SomeD)
    moreover have "due_where now h r'"
      using a r' lease_where_view [OF assms(1) r'(1), of now h]
      by (simp add: due_where_def scan_job_def)
    moreover have "r_next_run_at r' = Some t" using a(2) r'(2) by (simp add: scan_job_def)
    ultimately show ?thesis using least by (auto simp: due_order_def id nx)
  qed
  moreover have "view d (j_id ?b) = Some ?b" by (simp add: id view_Some r)
  moreover have "\<exists>t\<le>now. j_next ?b = Some t" and "free_for h now ?b"
    using r(3) lease_where_view [OF assms(1) r(2), of now h]
    by (auto simp: due_where_def nx split: option.splits)
  moreover have "view (snd (due h now ttl d)) = (view d)(j_id ?b \<mapsto> b')"
    by (simp add: up id b' view_update [OF set_lease_id r(2)] scan_set_lease)
  ultimately show ?thesis using b' by blast
qed

lemma example_due: "fst (due ''w1'' 20 100 example_db) =
    Inr (Some (lease_to ''w1'' 120 (scan_job example_row)))"
  by (simp add: due_def example_db_eq due_where_def lease_where_def example_row_def set_lease_def
      new_row_def first_by_def scan_job_def lease_to_def row_lease_def)

theorem due_longest_waiting_witness:
  "\<exists>b. view example_db (j_id b) = Some b \<and>
     lease_to ''w1'' 120 (scan_job example_row) = lease_to ''w1'' 120 b"
  using due_longest_waiting [OF example_db_ok example_due] by auto

text \<open>The id of a job determines its kind and its subject, for the kinds and subject types
  the agent knows: two different pieces of work never share a row.\<close>

theorem job_ID_injective:
  assumes "kind_valid k" and "subject_type_valid (sub_type s)"
    and "kind_valid k'" and "subject_type_valid (sub_type s')"
    and "job_ID k s = job_ID k' s'"
  shows "k = k' \<and> sub_type s = sub_type s' \<and> sub_number s = sub_number s'"
  using assms
  by (auto simp: kind_valid_def subject_type_valid_def KindImplement_def KindReview_def
      KindRevise_def SubjectIssue_def SubjectPR_def job_ID_def)

theorem job_ID_injective_witness:
  "\<exists>s s'. job_ID KindReview s = job_ID KindReview s' \<and> sub_number s = sub_number s'"
  using job_ID_injective [of KindReview example_subject KindReview example_subject]
  by (auto simp: kind_valid_def subject_type_valid_def example_subject_def)

lemma migrate_from_spec:
  "i \<le> n \<Longrightarrow> (case migrate_from run n i of
      (None, v) \<Rightarrow> v = n \<and> (\<forall>k. i < k \<and> k \<le> n \<longrightarrow> run k)
    | (Some e, v) \<Rightarrow> e = MigrationFailed (v + 1) \<and> i \<le> v \<and> v < n \<and> \<not> run (v + 1) \<and>
        (\<forall>k. i < k \<and> k \<le> v \<longrightarrow> run k))"
proof (induction run n i rule: migrate_from.induct)
  case (1 run n i)
  show ?case
  proof (cases "i < n \<and> run (i + 1)")
    case True
    then have IH: "case migrate_from run n (i + 1) of
        (None, v) \<Rightarrow> v = n \<and> (\<forall>k. i + 1 < k \<and> k \<le> n \<longrightarrow> run k)
      | (Some e, v) \<Rightarrow> e = MigrationFailed (v + 1) \<and> i + 1 \<le> v \<and> v < n \<and> \<not> run (v + 1) \<and>
          (\<forall>k. i + 1 < k \<and> k \<le> v \<longrightarrow> run k)"
      using 1 by simp
    have step: "i < k \<Longrightarrow> k = i + 1 \<or> i + 1 < k" for k by arith
    from True have "migrate_from run n i = migrate_from run n (i + 1)"
      by (subst migrate_from.simps) simp
    with IH True step show ?thesis
      by (auto split: prod.splits option.splits)
  next
    case False
    then show ?thesis using "1.prems" by (subst migrate_from.simps) auto
  qed
qed

text \<open>Migration leaves the file at the version this binary knows, or reports the step that
  failed and leaves the file at the last step that succeeded; it never runs a step twice and
  never goes back, and it refuses a file a newer binary wrote without touching it.\<close>

theorem migrate_reaches_or_stops:
  assumes "0 \<le> version"
  shows "case migrate run version of
      (None, v) \<Rightarrow> v = migrations_known \<and> (\<forall>k. version < k \<and> k \<le> v \<longrightarrow> run k)
    | (Some (NewerSchema a b), v) \<Rightarrow> v = version \<and> migrations_known < version
    | (Some (MigrationFailed k), v) \<Rightarrow>
        k = v + 1 \<and> version \<le> v \<and> v < migrations_known \<and> \<not> run k"
  using migrate_from_spec [of version migrations_known run]
  by (cases "version \<le> migrations_known")
    (auto simp: migrate_def split: prod.splits option.splits migrate_error.splits)

theorem migrate_reaches_or_stops_witness:
  "snd (migrate (\<lambda>k. True) 1) = 3 \<and> migrate (\<lambda>k. k < 3) 0 = (Some (MigrationFailed 3), 2)"
proof -
  have a: "migrate (\<lambda>k. True) 1 = (None, 3)" and b: "migrate (\<lambda>k. k < 3) 0 = (Some (MigrationFailed 3), 2)"
    by (simp_all add: migrate_def migrations_known_def migrate_from.simps)
  show ?thesis
    using migrate_reaches_or_stops [of 1 "\<lambda>k. True"] migrate_reaches_or_stops [of 0 "\<lambda>k. k < 3"] a b
    by simp
qed

end
