(* ===== verification/Runner_Properties.thy ===== *)
theory Runner_Properties
  imports Runner Store_Properties
begin

text \<open>
  The runner's properties. First what it may do to a key: however calls fail and whatever the
  transitions decide, an effect is performed at most once for each key, because its key is
  reserved by the commit before it and filtered out of every later run. Then what an
  undisturbed run does to the job, as one equation on the store's view.
\<close>

subsection \<open>Effects and their keys\<close>

text \<open>An effect's own writes are store operations, and none of those gives a key back.\<close>

definition keeps_keys :: "effect \<Rightarrow> bool" where
  "keeps_keys e \<longleftrightarrow> (\<forall>f d k. e_do e = Some f \<and> is_reserved d k \<longrightarrow> is_reserved (snd (f d)) k)"

definition decent_result :: "result \<Rightarrow> bool" where
  "decent_result res \<longleftrightarrow>
     distinct (result_keys (res_effects res)) \<and> (\<forall>e\<in>set (res_effects res). keeps_keys e)"

definition decent_runner :: "runner \<Rightarrow> bool" where
  "decent_runner rn \<longleftrightarrow>
     (\<forall>name t f j now res. registry_get (rn_registry rn) name = Some t \<and> t_run t = Some f \<and>
        f j now = Decided res \<longrightarrow> decent_result res)"

text \<open>Every effect performed so far has its key reserved, and none was performed twice.\<close>

definition done_ok :: "world \<Rightarrow> bool" where
  "done_ok w \<longleftrightarrow> distinct (w_done w) \<and> (\<forall>k\<in>set (w_done w). is_reserved (w_db w) k)"

definition keys_kept :: "'a store_op \<Rightarrow> bool" where
  "keys_kept f \<longleftrightarrow> (\<forall>d k. is_reserved d k \<longrightarrow> is_reserved (snd (f d)) k)"

lemma keys_kept_ops [simp]:
  "keys_kept (store_job j)" "keys_kept (acquire j h now ttl)" "keys_kept (release j h)"
  "keys_kept (commit c)" "keys_kept (reserved k)"
  using exec_keys_mono [of _ _ "Acquire j h now ttl"] exec_keys_mono [of _ _ "Release j h"]
    exec_keys_mono [of _ _ "Commit c"]
  by (simp_all add: keys_kept_def)

lemma call_done_ok:
  assumes "keys_kept f" and "call f w = (r, w')" and "done_ok w"
  shows "done_ok w'"
  using call_outcome [OF assms(2)] assms(1,3) by (auto simp: done_ok_def keys_kept_def)

lemma rn_release_done_ok: "done_ok w \<Longrightarrow> done_ok (snd (rn_release rn j c w))"
  unfolding rn_release_def
  by (auto split: prod.splits sum.splits dest: call_done_ok [OF keys_kept_ops(3)])

lemma refuse_done_ok: "done_ok w \<Longrightarrow> done_ok (snd (snd (refuse rn j c w)))"
  using rn_release_done_ok [of w rn j "Some c"] by (auto simp: refuse_def split: prod.splits)

lemma rn_fail_done_ok: "done_ok w \<Longrightarrow> done_ok (snd (snd (rn_fail rn t j c w)))"
  unfolding rn_fail_def
  by (auto split: prod.splits sum.splits intro!: refuse_done_ok
      dest: call_done_ok [OF keys_kept_ops(4)] call_done_ok [OF keys_kept_ops(1)])

lemma split_effects_Inr:
  "split_effects t es w = (Inr (todo, skipped), w') \<Longrightarrow>
     w_db w' = w_db w \<and> w_done w' = w_done w \<and>
     todo = filter (\<lambda>e. \<not> is_reserved (w_db w) (e_key e)) es \<and>
     skipped = filter (is_reserved (w_db w)) (result_keys es)"
proof (induction es arbitrary: w todo skipped w')
  case Nil
  then show ?case by (simp add: result_keys_def)
next
  case (Cons e es)
  from Cons.prems obtain yes w1 where c: "call (reserved (e_key e)) w = (Inr yes, w1)"
    by (auto split: if_splits prod.splits sum.splits)
  have w1: "yes = is_reserved (w_db w) (e_key e)" "w_db w1 = w_db w" "w_done w1 = w_done w"
    using call_Inr [OF c] by auto
  from Cons.prems c obtain todo' skipped' where
    r: "split_effects t es w1 = (Inr (todo', skipped'), w')"
      "(todo, skipped) = (if yes then (todo', e_key e # skipped') else (e # todo', skipped'))"
    by (auto split: if_splits prod.splits sum.splits)
  from Cons.IH [OF r(1)] r(2) w1 show ?case by (auto simp: result_keys_def split: if_splits)
qed

lemma split_effects_done_ok: "done_ok w \<Longrightarrow> done_ok (snd (split_effects t es w))"
proof (induction es arbitrary: w)
  case (Cons e es)
  obtain r w1 where c: "call (reserved (e_key e)) w = (r, w1)" by fastforce
  from keys_kept_ops(5) c Cons.prems have "done_ok w1" by (rule call_done_ok)
  then have "done_ok (snd (split_effects t es w1))" by (rule Cons.IH)
  with \<open>done_ok w1\<close> Cons.prems show ?case by (auto simp: c split: sum.split prod.split)
qed simp

lemma perform_done_ok:
  assumes "done_ok w" and "distinct (map e_key es)"
    and "\<forall>e\<in>set es. is_reserved (w_db w) (e_key e) \<and> e_key e \<notin> set (w_done w) \<and> keeps_keys e"
  shows "done_ok (snd (snd (perform rn j out es w)))"
  using assms
proof (induction es arbitrary: out w)
  case Nil
  then show ?case using rn_release_done_ok [of w rn j None] by (auto split: prod.splits)
next
  case (Cons e es)
  obtain err w' where d: "do_effect e w = (err, w')" by fastforce
  have kept: "is_reserved (w_db w) k \<Longrightarrow> is_reserved (w_db w') k" for k
    using d Cons.prems(3) unfolding do_effect_def keeps_keys_def
    by (force split: option.splits prod.splits)
  have done': "w_done w' = w_done w \<or> w_done w' = w_done w @ [e_key e]"
    using d by (auto simp: do_effect_def split: option.splits prod.splits)
  have ok': "done_ok w'"
    using Cons.prems kept done' by (auto simp: done_ok_def)
  show ?case
  proof (cases err)
    case None
    have "done_ok (snd (snd (perform rn j (out\<lparr>o_performed := o_performed out @ [e_key e]\<rparr>) es w')))"
    proof (rule Cons.IH [OF ok'])
      show "\<forall>e'\<in>set es. is_reserved (w_db w') (e_key e') \<and> e_key e' \<notin> set (w_done w') \<and> keeps_keys e'"
        using Cons.prems(2,3) kept done' by (auto simp: image_iff)
    qed (use Cons.prems in auto)
    then show ?thesis by (simp add: d None)
  next
    case (Some e')
    then show ?thesis
      using rn_release_done_ok [OF ok', of rn j "Some (EffectFailed (e_key e) (j_id j) e')"]
      by (auto simp: d split: prod.splits)
  qed
qed

lemma commit_call_reserves:
  assumes "call (commit c) w = (Inr u, w')" and "k \<in> set (c_keys c)"
  shows "is_reserved (w_db w') k"
proof -
  have "fst (commit c (w_db w)) = Inr u" "w_db w' = snd (commit c (w_db w))"
    using call_Inr [OF assms(1)] by auto
  then have "k \<in> dom (db_idempotency (w_db w'))" using assms(2) by (simp add: commit_keys)
  then show ?thesis by (auto simp: is_reserved_def)
qed

lemma apply_result_done_ok:
  assumes "done_ok w" and "decent_result res"
  shows "done_ok (snd (snd (apply_result rn t j res now' w)))"
proof -
  obtain r w1 where s: "split_effects t (res_effects res) w = (r, w1)" by fastforce
  have w1: "done_ok w1" using split_effects_done_ok [OF assms(1)] s by (metis snd_conv)
  show ?thesis
  proof (cases r)
    case (Inl err)
    then show ?thesis using w1 by (simp add: apply_result_def s rn_fail_done_ok)
  next
    case (Inr p)
    obtain todo skipped where p: "p = (todo, skipped)" by fastforce
    let ?c = "apply_commit rn j res todo now'"
    note sp = split_effects_Inr [OF s [unfolded Inr p]]
    have todo: "distinct (map e_key todo)" "\<forall>e\<in>set todo. keeps_keys e"
      "\<forall>e\<in>set todo. e_key e \<notin> set (w_done w)"
      using assms sp by (auto simp: decent_result_def result_keys_def distinct_map_filter done_ok_def)
    obtain r2 w2 where c2: "call (commit ?c) w1 = (r2, w2)" by fastforce
    then have w2: "done_ok w2" using w1 by (rule call_done_ok [OF keys_kept_ops(4)])
    obtain r3 w3 where c3: "call (store_job (j_id j)) w2 = (r3, w3)" by fastforce
    then have w3: "done_ok w3" using w2 by (rule call_done_ok [OF keys_kept_ops(1)])
    have keys: "c_keys ?c = map e_key todo"
      by (simp add: apply_commit_def result_keys_def split: prod.split)
    show ?thesis
    proof (cases r2)
      case (Inl e)
      then show ?thesis
        using w2 by (simp add: apply_result_def s \<open>r = Inr p\<close> p c2 refuse_done_ok)
    next
      case (Inr u)
      have db3: "w_db w3 = w_db w2" using call_outcome [OF c3] by auto
      have "is_reserved (w_db w2) (e_key e)" if "e \<in> set todo" for e
        using that commit_call_reserves [OF c2 [unfolded Inr], of "e_key e"] by (simp add: keys)
      then have "done_ok (snd (snd (perform rn j out todo w3)))" for out
        using w3 todo sp call_done [OF c2] call_done [OF c3]
        by (intro perform_done_ok) (auto simp: db3)
      then show ?thesis
        using w3 by (auto simp: apply_result_def s \<open>r = Inr p\<close> p c2 Inr c3 refuse_done_ok
            split: sum.split)
    qed
  qed
qed

lemma run_done_ok:
  assumes "done_ok w" and "decent_runner rn"
  shows "done_ok (snd (snd (run rn name jid now now' w)))"
proof (cases "registry_get (rn_registry rn) name")
  case None
  then show ?thesis using assms by (simp add: run_def)
next
  case (Some t)
  obtain r w1 where c: "call (acquire jid (rn_holder rn) now (rn_ttl rn)) w = (r, w1)" by fastforce
  then have w1: "done_ok w1" using assms(1) by (rule call_done_ok [OF keys_kept_ops(2)])
  have decent: "decide t j now = Inr res \<Longrightarrow> decent_result res" for j res
    using assms(2) Some unfolding decent_runner_def decide_def
    by (auto split: option.splits decided.splits)
  have "done_ok (snd (snd (rn_apply rn t j now now' w1)))" for j
    using w1 decent
    by (auto simp: rn_apply_def refuse_done_ok rn_fail_done_ok apply_result_done_ok split: sum.split)
  with w1 Some c show ?thesis by (auto simp: run_def split: sum.split option.split)
qed


subsection \<open>Any history of runs, faults and other writers\<close>

datatype act = RunAct runner string string instant instant | StoreAct store_call

fun do_act :: "act \<Rightarrow> world \<Rightarrow> world" where
  "do_act (RunAct rn name jid now now') w = snd (snd (run rn name jid now now' w))"
| "do_act (StoreAct c) w = w\<lparr>w_db := exec c (w_db w)\<rparr>"

fun decent_act :: "act \<Rightarrow> bool" where
  "decent_act (RunAct rn name jid now now') \<longleftrightarrow> decent_runner rn"
| "decent_act (StoreAct c) \<longleftrightarrow> True"

lemma do_act_done_ok: "done_ok w \<Longrightarrow> decent_act a \<Longrightarrow> done_ok (do_act a w)"
proof (cases a)
  case (RunAct rn name jid now now')
  then show "done_ok w \<Longrightarrow> decent_act a \<Longrightarrow> done_ok (do_act a w)" by (simp add: run_done_ok)
next
  case (StoreAct c)
  then show "done_ok w \<Longrightarrow> decent_act a \<Longrightarrow> done_ok (do_act a w)"
    by (simp add: done_ok_def exec_keys_mono)
qed

text \<open>C2: At most one outward effect per idempotency key: over any sequence of runs, replays and
  other writes to the store, with any store call failing at any point and transitions deciding
  anything, no key's effect is performed twice, provided no single result names a key twice.\<close>

theorem effect_at_most_once:
  assumes "\<forall>a\<in>set acts. decent_act a"
  shows "distinct (w_done (fold do_act acts \<lparr>w_db = d, w_faults = faults, w_done = []\<rparr>))"
proof -
  have "done_ok w \<Longrightarrow> done_ok (fold do_act acts w)" for w
    using assms by (induction acts arbitrary: w) (auto simp: do_act_done_ok)
  moreover have "done_ok \<lparr>w_db = d, w_faults = faults, w_done = []\<rparr>"
    by (simp add: done_ok_def)
  ultimately show ?thesis by (simp add: done_ok_def)
qed

definition example_runner :: runner where
  "example_runner = \<lparr>rn_registry = example_registry, rn_holder = ''w1'', rn_ttl = 100,
     rn_backoff = Some (\<lambda>n. (Some (1000 * n), n < 3))\<rparr>"

lemma example_runner_decent: "decent_runner example_runner"
  by (auto simp: decent_runner_def decent_result_def example_runner_def example_registry_def
      registry_get_def example_transition_def result_keys_def keeps_keys_def split: if_splits)

theorem effect_at_most_once_witness:
  "distinct (w_done (fold do_act
     [RunAct example_runner ''review'' ''review-pr-12'' 20 21,
      StoreAct (Due ''w2'' 500 100),
      RunAct example_runner ''review'' ''review-pr-12'' 30 31]
     \<lparr>w_db = example_db, w_faults = [False, False, True, False], w_done = []\<rparr>))"
  by (rule effect_at_most_once) (simp add: example_runner_decent)

subsection \<open>What an undisturbed run does to its job\<close>

definition quiet_for :: "string \<Rightarrow> effect \<Rightarrow> bool" where
  "quiet_for jid e \<longleftrightarrow>
     (\<forall>f. e_do e = Some f \<longrightarrow> (\<forall>d. fst (f d) = None \<and> view (snd (f d)) jid = view d jid))"

definition well_formed_effect :: "effect \<Rightarrow> bool" where
  "well_formed_effect e \<longleftrightarrow> e_key e \<noteq> '''' \<and> e_do e \<noteq> None"

definition failed_job :: "runner \<Rightarrow> job \<Rightarrow> job" where
  "failed_job rn b =
     b\<lparr>j_attempts := j_attempts b + 1, j_next := backoff_at rn (j_attempts b + 1), j_lease := None\<rparr>"

definition moved_job :: "result \<Rightarrow> job \<Rightarrow> job" where
  "moved_job res b =
     (if res_state res = j_state b
      then b\<lparr>j_stays := j_stays b + 1, j_next := res_run_at res, j_lease := None\<rparr>
      else b\<lparr>j_state := res_state res, j_attempts := 0, j_stays := 0,
             j_next := res_run_at res, j_lease := None\<rparr>)"

definition settled :: "runner \<Rightarrow> transition \<Rightarrow> instant \<Rightarrow> job \<Rightarrow> job" where
  "settled rn t now b =
     (case decide t (lease_to (rn_holder rn) (now + rn_ttl rn) b) now of
        Inl _ \<Rightarrow> failed_job rn b
      | Inr res \<Rightarrow>
          if res_state res = '''' \<or> \<not> list_all well_formed_effect (res_effects res)
          then failed_job rn b else moved_job res b)"

lemma rn_release_nf:
  "w_faults w = [] \<Longrightarrow> rn_release rn j c w =
     (c, w\<lparr>w_db := snd (release (j_id j) (rn_holder rn) (w_db w))\<rparr>)"
  by (simp add: rn_release_def call_no_faults)

lemma split_effects_nf:
  assumes "w_faults w = []"
  shows "list_all well_formed_effect es \<Longrightarrow> split_effects t es w =
      (Inr (filter (\<lambda>e. \<not> is_reserved (w_db w) (e_key e)) es,
            filter (is_reserved (w_db w)) (result_keys es)), w)"
    and "\<not> list_all well_formed_effect es \<Longrightarrow> \<exists>err. split_effects t es w = (Inl err, w)"
proof -
  have c: "call (reserved k) w = (Inr (is_reserved (w_db w) k), w)" for k
    using assms by (simp add: call_no_faults)
  show "list_all well_formed_effect es \<Longrightarrow> split_effects t es w =
      (Inr (filter (\<lambda>e. \<not> is_reserved (w_db w) (e_key e)) es,
            filter (is_reserved (w_db w)) (result_keys es)), w)"
    by (induction es) (auto simp: c well_formed_effect_def result_keys_def)
  show "\<not> list_all well_formed_effect es \<Longrightarrow> \<exists>err. split_effects t es w = (Inl err, w)"
  proof (induction es)
    case (Cons e es)
    show ?case
    proof (cases "well_formed_effect e")
      case True
      with Cons obtain err where "split_effects t es w = (Inl err, w)" by auto
      with True show ?thesis by (auto simp: c well_formed_effect_def)
    next
      case False
      then show ?thesis by (auto simp: well_formed_effect_def)
    qed
  qed simp
qed

lemma perform_nf:
  assumes "w_faults w = []" and "\<forall>e\<in>set es. well_formed_effect e \<and> quiet_for (j_id j) e"
  shows "view (w_db (snd (snd (perform rn j out es w)))) (j_id j) =
      map_option (unleased_by (rn_holder rn)) (view (w_db w) (j_id j))"
  using assms
proof (induction es arbitrary: out w)
  case Nil
  then show ?case by (auto simp: rn_release_nf release_view split: option.split)
next
  case (Cons e es)
  then obtain f where f: "e_do e = Some f" by (auto simp: well_formed_effect_def)
  obtain err d where fd: "f (w_db w) = (err, d)" by fastforce
  have q: "err = None" "view d (j_id j) = view (w_db w) (j_id j)"
    using Cons.prems(2) f fd by (auto simp: quiet_for_def dest!: spec [of _ "w_db w"])
  let ?w = "w\<lparr>w_db := d, w_done := w_done w @ [e_key e]\<rparr>"
  have "do_effect e w = (None, ?w)" by (simp add: do_effect_def f fd q)
  with Cons.IH [of ?w] Cons.prems q show ?case by simp
qed

lemma rn_fail_nf:
  assumes "w_faults w = []" and "db_ok (w_db w)" and "view (w_db w) (j_id j) = Some j"
    and "holder_of j = Some (rn_holder rn)"
  shows "view (w_db (snd (snd (rn_fail rn t j c w)))) (j_id j) = Some (failed_job rn j)"
proof -
  let ?d = "snd (commit (fail_commit rn j) (w_db w))"
  have ok: "fst (commit (fail_commit rn j) (w_db w)) = Inr ()"
    using assms by (simp add: commit_result fail_commit_def)
  have v: "view ?d (j_id j) = Some (failed_job rn j)"
    using assms by (simp add: commit_view fail_commit_def committed_def failed_job_def)
  show ?thesis
    using assms(1) v by (simp add: rn_fail_def call_no_faults ok)
qed

lemma apply_result_nf:
  assumes "w_faults w = []" and "db_ok (w_db w)" and "view (w_db w) (j_id j) = Some j"
    and "holder_of j = Some (rn_holder rn)" and "\<forall>e\<in>set (res_effects res). quiet_for (j_id j) e"
  shows "view (w_db (snd (snd (apply_result rn t j res now' w)))) (j_id j) =
    Some (if list_all well_formed_effect (res_effects res) then moved_job res j else failed_job rn j)"
proof (cases "list_all well_formed_effect (res_effects res)")
  case False
  with split_effects_nf(2) [OF assms(1)] obtain err
    where "split_effects t (res_effects res) w = (Inl err, w)" by blast
  then show ?thesis using False assms by (simp add: apply_result_def rn_fail_nf)
next
  case True
  define todo where "todo = filter (\<lambda>e. \<not> is_reserved (w_db w) (e_key e)) (res_effects res)"
  let ?c = "apply_commit rn j res todo now'"
  let ?w = "w\<lparr>w_db := snd (commit ?c (w_db w))\<rparr>"
  have c: "c_job ?c = j_id j" "c_holder ?c = rn_holder rn"
    by (simp_all add: apply_commit_def split: prod.split)
  have ok: "fst (commit ?c (w_db w)) = Inr ()"
    using assms c by (simp add: commit_result)
  have v: "view (w_db ?w) (j_id j) = Some (committed ?c j)"
    using assms c by (simp add: commit_view)
  have q: "\<forall>e\<in>set todo. well_formed_effect e \<and> quiet_for (j_id j) e"
    using True assms(5) by (auto simp: todo_def list_all_iff)
  have "view (w_db (snd (snd (apply_result rn t j res now' w)))) (j_id j) =
      Some (unleased_by (rn_holder rn) (committed ?c j))"
    using perform_nf [OF _ q, of ?w rn] assms(1) v
    by (simp add: apply_result_def split_effects_nf(1) [OF assms(1) True] call_no_faults ok
        flip: todo_def)
  also have "unleased_by (rn_holder rn) (committed ?c j) = moved_job res j"
    by (auto simp: unleased_by_def committed_def apply_commit_def moved_job_def holder_of_def)
  finally show ?thesis using True by simp
qed

lemma view_j_id: "db_ok d \<Longrightarrow> view d jid = Some b \<Longrightarrow> j_id b = jid"
  by (auto simp: view_def scan_job_def dest: find_row_row_ok)

lemma lease_to_simps [simp]:
  "j_id (lease_to h e b) = j_id b" "j_kind (lease_to h e b) = j_kind b"
  "j_state (lease_to h e b) = j_state b" "j_attempts (lease_to h e b) = j_attempts b"
  "j_stays (lease_to h e b) = j_stays b" "j_next (lease_to h e b) = j_next b"
  "holder_of (lease_to h e b) = Some h"
  "failed_job rn (lease_to h e b) = failed_job rn b"
  "moved_job res (lease_to h e b) = moved_job res b"
  by (simp_all add: lease_to_def holder_of_def failed_job_def moved_job_def)

text \<open>C3: An undisturbed run does to its job what the state machine says and nothing else: a
  transition that errs or panics, names no state, or returns a malformed effect counts one
  attempt and reschedules by the backoff; one that stays counts a stay and keeps the attempts;
  one that moves clears both; and in every case the lease is given back.\<close>

theorem run_settles:
  assumes "db_ok (w_db w)" and "w_faults w = []"
    and t: "registry_get (rn_registry rn) name = Some t"
    and b: "view (w_db w) jid = Some b" and free: "free_for (rn_holder rn) now b"
    and k: "j_kind b = t_kind t" "j_state b = t_from t"
    and quiet: "\<forall>res. decide t (lease_to (rn_holder rn) (now + rn_ttl rn) b) now = Inr res \<longrightarrow>
      (\<forall>e\<in>set (res_effects res). quiet_for jid e)"
  shows "view (w_db (snd (snd (run rn name jid now now' w)))) jid = Some (settled rn t now b)"
proof -
  let ?j = "lease_to (rn_holder rn) (now + rn_ttl rn) b"
  let ?w = "w\<lparr>w_db := snd (acquire jid (rn_holder rn) now (rn_ttl rn) (w_db w))\<rparr>"
  note id = view_j_id [OF assms(1) b]
  have a: "fst (acquire jid (rn_holder rn) now (rn_ttl rn) (w_db w)) = Inr (Some ?j)"
    by (simp add: acquire_result assms(1) b free)
  have w1: "w_faults ?w = []" "db_ok (w_db ?w)" "view (w_db ?w) (j_id ?j) = Some ?j"
    using assms by (simp_all add: acquire_ok acquire_view id)
  have "run rn name jid now now' w = rn_apply rn t ?j now now' ?w"
    by (simp add: run_def t call_no_faults assms(2) a)
  also have "view (w_db (snd (snd (rn_apply rn t ?j now now' ?w)))) (j_id ?j) =
      Some (settled rn t now b)"
    using rn_fail_nf [OF w1, of rn] apply_result_nf [OF w1, of rn] quiet
    by (auto simp: rn_apply_def k settled_def id split: sum.split)
  finally show ?thesis by (simp add: id)
qed

theorem run_settles_witness:
  "view (w_db (snd (snd (run example_runner ''review'' ''review-pr-12'' 20 21
     \<lparr>w_db = example_db, w_faults = [], w_done = []\<rparr>)))) ''review-pr-12'' =
   Some (moved_job \<lparr>res_state = ''posted'', res_run_at = None,
        res_effects = [Effect ''review-pr-12-abc'' (Some (\<lambda>d. (None, d)))], res_exhausted = None\<rparr>
      (scan_job example_row))"
proof -
  have s: "settled example_runner example_transition 20 (scan_job example_row) =
     moved_job \<lparr>res_state = ''posted'', res_run_at = None,
        res_effects = [Effect ''review-pr-12-abc'' (Some (\<lambda>d. (None, d)))], res_exhausted = None\<rparr>
      (scan_job example_row)"
    by (simp add: settled_def decide_def example_transition_def well_formed_effect_def)
  show ?thesis
    unfolding s [symmetric]
    by (rule run_settles)
      (auto simp: example_db_ok example_view example_runner_def example_registry_def
        registry_get_def decide_def example_transition_def quiet_for_def)
qed

lemma release_clears:
  "view (snd (release jid h d)) jid = Some b \<Longrightarrow> holder_of b \<noteq> Some h"
  by (auto simp: release_view unleased_by_def holder_of_def split: option.splits if_splits)

lemma perform_releases:
  "w_faults w = [] \<Longrightarrow>
     view (w_db (snd (snd (perform rn j out es w)))) (j_id j) = Some b \<Longrightarrow>
     holder_of b \<noteq> Some (rn_holder rn)"
proof (induction es arbitrary: out w)
  case Nil
  then show ?case by (auto simp: rn_release_nf dest: release_clears)
next
  case (Cons e es)
  obtain err w' where d: "do_effect e w = (err, w')" by fastforce
  then have f: "w_faults w' = []"
    using Cons.prems(1) by (auto simp: do_effect_def split: option.splits prod.splits)
  show ?case
  proof (cases err)
    case None
    with d f Cons show ?thesis by simp
  next
    case (Some x)
    with d f Cons.prems show ?thesis by (auto simp: rn_release_nf dest: release_clears)
  qed
qed

lemma refuse_releases:
  "w_faults w = [] \<Longrightarrow> view (w_db (snd (snd (refuse rn j c w)))) (j_id j) = Some b \<Longrightarrow>
     holder_of b \<noteq> Some (rn_holder rn)"
  by (simp add: refuse_def rn_release_nf release_clears)

lemma failed_job_free [simp]: "holder_of (failed_job rn b) = None"
  by (simp add: failed_job_def holder_of_def)

lemma rn_fail_releases:
  assumes "w_faults w = []" and "db_ok (w_db w)" and "view (w_db w) (j_id j) = Some j"
    and "holder_of j = Some (rn_holder rn)"
    and "view (w_db (snd (snd (rn_fail rn t j c w)))) (j_id j) = Some b"
  shows "holder_of b \<noteq> Some (rn_holder rn)"
  using rn_fail_nf [OF assms(1-4), of t c] assms(5) by auto

lemma apply_result_releases:
  assumes "w_faults w = []" and "db_ok (w_db w)" and "view (w_db w) (j_id j) = Some j"
    and "holder_of j = Some (rn_holder rn)"
    and b: "view (w_db (snd (snd (apply_result rn t j res now' w)))) (j_id j) = Some b"
  shows "holder_of b \<noteq> Some (rn_holder rn)"
proof (cases "list_all well_formed_effect (res_effects res)")
  case False
  with split_effects_nf(2) [OF assms(1)] obtain err
    where "split_effects t (res_effects res) w = (Inl err, w)" by blast
  then show ?thesis using b rn_fail_releases [OF assms(1-4)] by (simp add: apply_result_def)
next
  case True
  obtain todo skipped where s: "split_effects t (res_effects res) w = (Inr (todo, skipped), w)"
    using split_effects_nf(1) [OF assms(1) True] by blast
  let ?c = "apply_commit rn j res todo now'"
  let ?w = "w\<lparr>w_db := snd (commit ?c (w_db w))\<rparr>"
  have f: "w_faults ?w = []" using assms(1) by simp
  show ?thesis
    using b refuse_releases [OF f, of rn j _ b] perform_releases [OF f, of rn j _ todo b]
    by (auto simp: apply_result_def s call_no_faults assms(1) split: sum.splits option.splits)
qed

text \<open>C4: A run that takes the lease gives it back: when every store call answers, whatever the
  transition decides and whatever its effects do, failing or not, the job is no longer leased
  to the runner when the run returns.\<close>

theorem run_gives_lease_back:
  assumes "db_ok (w_db w)" and "w_faults w = []"
    and t: "registry_get (rn_registry rn) name = Some t"
    and j: "fst (acquire jid (rn_holder rn) now (rn_ttl rn) (w_db w)) = Inr (Some j)"
    and b: "view (w_db (snd (snd (run rn name jid now now' w)))) jid = Some b"
  shows "holder_of b \<noteq> Some (rn_holder rn)"
proof -
  let ?w = "w\<lparr>w_db := snd (acquire jid (rn_holder rn) now (rn_ttl rn) (w_db w))\<rparr>"
  note held = sq.acquired_is_held [OF assms(1) j]
  have ok: "db_ok (w_db ?w)" using assms(1) by (simp add: acquire_ok)
  have id: "j_id j = jid" using view_j_id [OF acquire_ok [OF assms(1)] held(1)] .
  have w1: "w_faults ?w = []" "view (w_db ?w) (j_id j) = Some j"
    using assms(2) held(1) id by simp_all
  have "run rn name jid now now' w = rn_apply rn t j now now' ?w"
    by (simp add: run_def t call_no_faults assms(2) j)
  with b show ?thesis
    using rn_fail_releases [OF w1(1) ok w1(2) held(2)] refuse_releases [OF w1(1), of rn j]
      apply_result_releases [OF w1(1) ok w1(2) held(2)]
    by (auto simp: rn_apply_def id split: if_splits sum.splits)
qed

theorem run_gives_lease_back_witness:
  "holder_of (moved_job \<lparr>res_state = ''posted'', res_run_at = None,
      res_effects = [Effect ''review-pr-12-abc'' (Some (\<lambda>d. (None, d)))], res_exhausted = None\<rparr>
      (scan_job example_row)) \<noteq> Some ''w1''"
proof -
  have a: "fst (acquire ''review-pr-12'' ''w1'' 20 100 example_db) =
      Inr (Some (lease_to ''w1'' 120 (scan_job example_row)))"
    by (simp add: acquire_result [OF example_db_ok] example_view)
  show ?thesis
    using run_gives_lease_back [OF _ _ _ _ run_settles_witness] example_db_ok a
    by (simp add: example_runner_def example_registry_def registry_get_def)
qed

subsection \<open>The limit of the guarantee\<close>

text \<open>
  The filter reads what earlier commits reserved. Two effects of one result under one key are
  both unreserved when it reads, and one commit reserves the key for both.
\<close>

definition twice_transition :: transition where
  "twice_transition = example_transition\<lparr>t_run := Some (\<lambda>j now. Decided
     \<lparr>res_state = ''posted'', res_run_at = None,
      res_effects = [Effect ''k'' (Some (\<lambda>d. (None, d))), Effect ''k'' (Some (\<lambda>d. (None, d)))],
      res_exhausted = None\<rparr>)\<rparr>"

theorem one_result_key_twice:
  "w_done (snd (snd (apply_result example_runner twice_transition (scan_job example_row)
     \<lparr>res_state = ''posted'', res_run_at = None,
      res_effects = [Effect ''k'' (Some (\<lambda>d. (None, d))), Effect ''k'' (Some (\<lambda>d. (None, d)))],
      res_exhausted = None\<rparr> 21 \<lparr>w_db = example_db, w_faults = [], w_done = []\<rparr>))) = [''k'', ''k'']"
proof -
  let ?es = "[Effect ''k'' (Some (\<lambda>d. (None, d))), Effect ''k'' (Some (\<lambda>d. (None, d)))]"
  let ?res = "\<lparr>res_state = ''posted'', res_run_at = None, res_effects = ?es, res_exhausted = None\<rparr>"
  let ?c = "apply_commit example_runner (scan_job example_row) ?res ?es 21"
  have r: "\<not> is_reserved example_db ''k''"
    by (simp add: is_reserved_def example_db_eq empty_db_def)
  have h: "r_lease_holder example_row = Some ''w1''"
    by (simp add: example_row_def set_lease_def)
  have c: "c_job ?c = ''review-pr-12''" "c_holder ?c = ''w1''"
    by (simp_all add: apply_commit_def example_runner_def)
  have ok: "fst (commit ?c example_db) = Inr ()"
    by (simp add: commit_result [OF example_db_ok] c example_view h)
  have v: "view (snd (commit ?c example_db)) ''review-pr-12'' =
      Some (committed ?c (scan_job example_row))"
    by (simp add: commit_view [OF example_db_ok] c example_view h)
  show ?thesis
    by (simp add: apply_result_def call_no_faults r result_keys_def ok v do_effect_def
        rn_release_nf)
qed

end
