(* ===== verification/Armer.thy ===== *)
theory Armer
  imports Runner_Properties
begin

text \<open>
  Making a job due from outside its own transitions, \<^verbatim>\<open>internal/transition/armer.go\<close>: a human
  restarts the work (\<open>restart\<close>), or another job asks for it (\<open>ask\<close>). Both create the job if it
  is not there, take its lease, look at it again under the lease, and commit it due. The
  errors of a call and of the release after it are listed, as \<^verbatim>\<open>errors.Join\<close> does.
\<close>

record armer =
  ar_holder :: string
  ar_ttl :: int

type_synonym arm_result = "(store_error list + job option) \<times> world"

definition arm_commit :: "armer \<Rightarrow> job \<Rightarrow> string \<Rightarrow> instant \<Rightarrow> string list \<Rightarrow> commit_rec" where
  "arm_commit a j start now keys =
     \<lparr>c_job = j_id j, c_holder = ar_holder a, c_state = start, c_attempts = 0, c_stays = 0,
      c_next = Some now, c_keys = keys, c_release = True, c_lease_until = None,
      c_end_episode = True\<rparr>"

definition armed_job :: "job \<Rightarrow> string \<Rightarrow> instant \<Rightarrow> job" where
  "armed_job j start now =
     j\<lparr>j_state := start, j_attempts := 0, j_stays := 0, j_next := Some now, j_lease := None\<rparr>"

definition arm :: "armer \<Rightarrow> job \<Rightarrow> string \<Rightarrow> instant \<Rightarrow> string list \<Rightarrow> (job \<Rightarrow> bool) \<Rightarrow> world \<Rightarrow> arm_result"
where
  "arm a job start now keys armable w =
     (if \<not> armable job then (Inr None, w)
      else (case call (acquire (j_id job) (ar_holder a) now (ar_ttl a)) w of
        (Inl e, w1) \<Rightarrow> (Inl [e], w1)
      | (Inr None, w1) \<Rightarrow> (Inr None, w1)
      | (Inr (Some j), w1) \<Rightarrow>
          if \<not> armable j then
            (case call (release (j_id j) (ar_holder a)) w1 of
               (Inl e, w2) \<Rightarrow> (Inl [e], w2)
             | (Inr _, w2) \<Rightarrow> (Inr None, w2))
          else
            (case call (commit (arm_commit a j start now keys)) w1 of
               (Inl e, w2) \<Rightarrow>
                 (case call (release (j_id j) (ar_holder a)) w2 of
                    (Inl e', w3) \<Rightarrow> (Inl [e, e'], w3)
                  | (Inr _, w3) \<Rightarrow> (Inl [e], w3))
             | (Inr _, w2) \<Rightarrow> (Inr (Some (armed_job j start now)), w2))))"

definition restart :: "armer \<Rightarrow> kind \<Rightarrow> subject \<Rightarrow> string \<Rightarrow> instant \<Rightarrow> string \<Rightarrow> world \<Rightarrow> arm_result" where
  "restart a k s start now key w =
     (case call (ensure k s start None) w of
        (Inl e, w1) \<Rightarrow> (Inl [e], w1)
      | (Inr j, w1) \<Rightarrow> arm a j start now [key] (\<lambda>j. is_zero (j_next j)) w1)"

definition ask :: "armer \<Rightarrow> kind \<Rightarrow> subject \<Rightarrow> string \<Rightarrow> instant \<Rightarrow> world \<Rightarrow> (store_error list) \<times> world" where
  "ask a k s start now w =
     (case call (ensure k s start (Some now)) w of
        (Inl e, w1) \<Rightarrow> ([e], w1)
      | (Inr j, w1) \<Rightarrow>
          (case arm a j start now [] (\<lambda>j. is_zero (j_next j) \<and> j_state j = start) w1 of
             (Inl es, w2) \<Rightarrow> (es, w2)
           | (Inr _, w2) \<Rightarrow> ([], w2)))"

subsection \<open>Arming one job, undisturbed\<close>

definition at_rest :: "string \<Rightarrow> instant \<Rightarrow> job \<Rightarrow> bool" where
  "at_rest h now b \<longleftrightarrow> is_zero (j_next b) \<and> free_for h now b"

lemma armed_lease_to [simp]: "armed_job (lease_to h e b) start now = armed_job b start now"
  by (simp add: armed_job_def lease_to_def)

lemma arm_undisturbed:
  assumes ok: "db_ok (w_db w)" and nf: "w_faults w = []" and b: "view (w_db w) jid = Some b"
    and same: "\<And>e. armable (lease_to (ar_holder a) e b) = armable b"
  shows "arm a b start now keys armable w =
    (if armable b \<and> free_for (ar_holder a) now b
     then (Inr (Some (armed_job b start now)),
           w\<lparr>w_db := snd (commit (arm_commit a b start now keys)
               (snd (acquire jid (ar_holder a) now (ar_ttl a) (w_db w))))\<rparr>)
     else (Inr None, w))"
proof (cases "armable b \<and> free_for (ar_holder a) now b")
  case True
  let ?j = "lease_to (ar_holder a) (now + ar_ttl a) b"
  let ?d = "snd (acquire jid (ar_holder a) now (ar_ttl a) (w_db w))"
  have id: "j_id b = jid" using view_j_id [OF ok b] .
  have acq: "fst (acquire jid (ar_holder a) now (ar_ttl a) (w_db w)) = Inr (Some ?j)"
    using True by (simp add: acquire_result ok b)
  note held = sq.acquired_is_held [OF ok acq]
  have c: "arm_commit a ?j start now keys = arm_commit a b start now keys"
    by (simp add: arm_commit_def)
  have com: "fst (commit (arm_commit a b start now keys) ?d) = Inr ()"
    using held by (simp add: commit_result [OF acquire_ok [OF ok]] arm_commit_def id)
  show ?thesis
    using True same by (simp add: arm_def nf call_no_faults id acq c com)
next
  case False
  have id: "j_id b = jid" using view_j_id [OF ok b] .
  show ?thesis
  proof (cases "armable b")
    case True
    with False have n: "\<not> free_for (ar_holder a) now b" by simp
    then have "fst (acquire jid (ar_holder a) now (ar_ttl a) (w_db w)) = Inr None"
      by (simp add: acquire_result ok b)
    moreover have "snd (acquire jid (ar_holder a) now (ar_ttl a) (w_db w)) = w_db w"
      using n b ok by (auto simp: acquire_eq view_def lease_where_view split: option.split)
    ultimately show ?thesis using True n by (simp add: arm_def nf call_no_faults id)
  qed (simp add: arm_def)
qed

lemma arm_commit_effect:
  fixes start :: string and keys :: "string list" and ttl :: int
  assumes ok: "db_ok d" and b: "view d jid = Some b" and free: "free_for (ar_holder a) now b"
    and d'_def: "d' = snd (commit (arm_commit a b start now keys)
      (snd (acquire jid (ar_holder a) now ttl d)))"
  shows "view d' = (view d)(jid \<mapsto> armed_job b start now)"
    and "is_reserved d' k \<longleftrightarrow> is_reserved d k \<or> k \<in> set keys"
    and "db_episodes d' jid = None"
proof -
  let ?d = "snd (acquire jid (ar_holder a) now ttl d)"
  let ?c = "arm_commit a b start now keys"
  have acq: "fst (acquire jid (ar_holder a) now ttl d) =
      Inr (Some (lease_to (ar_holder a) (now + ttl) b))"
    using free by (simp add: acquire_result ok b)
  note held = sq.acquired_is_held [OF ok acq]
  have ok': "db_ok ?d" using ok by (rule acquire_ok)
  have c: "c_job ?c = jid" "c_holder ?c = ar_holder a" "c_keys ?c = keys" "c_end_episode ?c"
    using view_j_id [OF ok b] by (simp_all add: arm_commit_def)
  have com: "fst (commit ?c ?d) = Inr ()"
    using held c by (simp add: commit_result [OF ok'])
  have cj: "committed ?c (lease_to (ar_holder a) (now + ttl) b) = armed_job b start now"
    by (simp add: committed_def arm_commit_def armed_job_def lease_to_def)
  have vd: "view ?d = (view d)(jid \<mapsto> lease_to (ar_holder a) (now + ttl) b)"
    using free by (simp add: acquire_view ok b)
  show "view d' = (view d)(jid \<mapsto> armed_job b start now)"
    unfolding d'_def by (simp add: commit_view [OF ok'] c vd cj fun_upd_idem_iff)
  show "is_reserved d' k \<longleftrightarrow> is_reserved d k \<or> k \<in> set keys"
    unfolding d'_def using sq.com_keys [OF ok', of ?c k] com c by (simp add: is_reserved_def)
  show "db_episodes d' jid = None"
    unfolding d'_def using com c by (auto simp: commit_def Let_def split: option.splits if_splits)
qed

subsection \<open>Properties\<close>

definition entered :: "db \<Rightarrow> kind \<Rightarrow> subject \<Rightarrow> string \<Rightarrow> gotime \<Rightarrow> job" where
  "entered d k s start t =
     (case view d (job_ID k s) of None \<Rightarrow> new_job k s start t | Some b \<Rightarrow> b)"

lemma call_ensure:
  assumes "db_ok (w_db w)" and "w_faults w = []" and "kind_valid k"
    and "subject_type_valid (sub_type s)"
  obtains w1 where "call (ensure k s start t) w = (Inr (entered (w_db w) k s start t), w1)"
    and "w_faults w1 = []" and "db_ok (w_db w1)"
    and "view (w_db w1) = (view (w_db w))(job_ID k s \<mapsto> entered (w_db w) k s start t)"
    and "is_reserved (w_db w1) = is_reserved (w_db w)"
proof -
  let ?w1 = "w\<lparr>w_db := snd (ensure k s start t (w_db w))\<rparr>"
  have "view (w_db ?w1) = (view (w_db w))(job_ID k s \<mapsto> entered (w_db w) k s start t)"
    using assms(3,4)
    by (auto simp: ensure_view entered_def fun_eq_iff split: option.split)
  then show thesis
    using that [of ?w1] assms
    by (simp add: call_no_faults ensure_result entered_def ensure_ok is_reserved_def fun_eq_iff)
qed

text \<open>C15: A human's restart makes the work due afresh wherever the job came to rest: a job that is
  new, or at rest and not held by another, becomes due now, in the start state, with both counts
  cleared, its tier's episode ended, and the key reserved in the same commit. A job already
  queued or held is left exactly as it was, and the key stays free for the next ask.\<close>

theorem restart_arms_or_leaves:
  assumes "db_ok (w_db w)" and "w_faults w = []" and "kind_valid k"
    and "subject_type_valid (sub_type s)"
  shows "let b = entered (w_db w) k s start None; (r, w') = restart a k s start now key w in
    if at_rest (ar_holder a) now b
    then r = Inr (Some (armed_job b start now)) \<and>
         view (w_db w') = (view (w_db w))(job_ID k s \<mapsto> armed_job b start now) \<and>
         db_episodes (w_db w') (job_ID k s) = None \<and>
         (\<forall>x. is_reserved (w_db w') x \<longleftrightarrow> is_reserved (w_db w) x \<or> x = key)
    else r = Inr None \<and> view (w_db w') = view (w_db w) \<and> is_reserved (w_db w') = is_reserved (w_db w)"
proof -
  let ?b = "entered (w_db w) k s start None"
  obtain w1 where e: "call (ensure k s start None) w = (Inr ?b, w1)"
    and w1: "w_faults w1 = []" "db_ok (w_db w1)"
    and v1: "view (w_db w1) = (view (w_db w))(job_ID k s \<mapsto> ?b)"
    and k1: "is_reserved (w_db w1) = is_reserved (w_db w)"
    using call_ensure [OF assms] by metis
  have b1: "view (w_db w1) (job_ID k s) = Some ?b" by (simp add: v1)
  have "is_zero (j_next (lease_to h e' ?b)) = is_zero (j_next ?b)" for h e' by simp
  note arm1 = arm_undisturbed [where armable = "\<lambda>j. is_zero (j_next j)", OF w1(2,1) b1 this,
      of a start now "[key]"]
  show ?thesis
  proof (cases "at_rest (ar_holder a) now ?b")
    case True
    then have free: "free_for (ar_holder a) now ?b" by (simp add: at_rest_def)
    note eff = arm_commit_effect [OF w1(2) b1 free refl, of start "[key]" "ar_ttl a"]
    from True show ?thesis
      by (simp add: restart_def e arm1 at_rest_def eff v1 k1 Let_def)
  next
    case False
    have "view (w_db w1) = view (w_db w)"
    proof -
      have "view (w_db w) (job_ID k s) \<noteq> None"
        using False
        by (cases "view (w_db w) (job_ID k s)")
          (simp_all add: at_rest_def entered_def new_job_def free_for_def)
      then show ?thesis by (auto simp: v1 entered_def fun_eq_iff)
    qed
    with False show ?thesis
      by (auto simp: restart_def e arm1 at_rest_def k1 Let_def)
  qed
qed

theorem restart_arms_or_leaves_witness:
  "fst (restart \<lparr>ar_holder = ''intake'', ar_ttl = 60\<rparr> KindReview example_subject ''start'' 7 ''intake-comment-1''
     \<lparr>w_db = empty_db, w_faults = [], w_done = []\<rparr>) =
   Inr (Some (armed_job (new_job KindReview example_subject ''start'' None) ''start'' 7))"
proof -
  have r: "at_rest h t (new_job k s st None)" for h t k s st
    by (simp add: at_rest_def new_job_def free_for_def)
  have e: "entered empty_db k s st t = new_job k s st t" for k s st t
    by (simp add: entered_def view_def find_row_def empty_db_def table_simps)
  show ?thesis
    using restart_arms_or_leaves [of "\<lparr>w_db = empty_db, w_faults = [], w_done = []\<rparr>" KindReview
        example_subject "''start''" "\<lparr>ar_holder = ''intake'', ar_ttl = 60\<rparr>" 7 "''intake-comment-1''"]
    by (simp add: db_ok_empty r e Let_def case_prod_beta)
qed

text \<open>Another job's ask never disturbs work under way or work parked elsewhere: only a job at
  rest in the start state is made due, a job that is not there is created due, and any other
  job - queued, held, or parked in another state - is left exactly as it was. It reserves no
  key.\<close>

theorem ask_leaves_parked_alone:
  assumes "db_ok (w_db w)" and "w_faults w = []" and "kind_valid k"
    and "subject_type_valid (sub_type s)"
  shows "let (errs, w') = ask a k s start now w in errs = [] \<and>
    is_reserved (w_db w') = is_reserved (w_db w) \<and>
    view (w_db w') = (view (w_db w))(job_ID k s \<mapsto>
      (case view (w_db w) (job_ID k s) of
         None \<Rightarrow> new_job k s start (Some now)
       | Some b \<Rightarrow> if at_rest (ar_holder a) now b \<and> j_state b = start
                 then armed_job b start now else b))"
proof -
  let ?b = "entered (w_db w) k s start (Some now)"
  obtain w1 where e: "call (ensure k s start (Some now)) w = (Inr ?b, w1)"
    and w1: "w_faults w1 = []" "db_ok (w_db w1)"
    and v1: "view (w_db w1) = (view (w_db w))(job_ID k s \<mapsto> ?b)"
    and k1: "is_reserved (w_db w1) = is_reserved (w_db w)"
    using call_ensure [OF assms] by metis
  have b1: "view (w_db w1) (job_ID k s) = Some ?b" by (simp add: v1)
  have "(is_zero (j_next (lease_to h e' ?b)) \<and> j_state (lease_to h e' ?b) = start) =
      (is_zero (j_next ?b) \<and> j_state ?b = start)" for h e' by simp
  note arm1 = arm_undisturbed [where armable = "\<lambda>j. is_zero (j_next j) \<and> j_state j = start",
      OF w1(2,1) b1 this, of a start now "[]"]
  show ?thesis
  proof (cases "at_rest (ar_holder a) now ?b \<and> j_state ?b = start")
    case True
    then have free: "free_for (ar_holder a) now ?b" by (simp add: at_rest_def)
    note eff = arm_commit_effect [OF w1(2) b1 free refl, of start "[]" "ar_ttl a"]
    from True have "view (w_db w) (job_ID k s) = Some ?b"
      by (auto simp: at_rest_def entered_def new_job_def split: option.splits)
    with True show ?thesis
      by (simp add: ask_def e arm1 at_rest_def eff v1 k1 fun_eq_iff)
  next
    case False
    then have "ask a k s start now w = ([], w1)"
      by (auto simp: ask_def e arm1 at_rest_def)
    with False show ?thesis
      by (auto simp: v1 k1 entered_def fun_eq_iff split: option.split)
  qed
qed

theorem ask_leaves_parked_alone_witness:
  "view (w_db (snd (ask \<lparr>ar_holder = ''x'', ar_ttl = 60\<rparr> KindReview example_subject ''start'' 7
     \<lparr>w_db = example_db, w_faults = [], w_done = []\<rparr>))) ''review-pr-12'' = Some (scan_job example_row)"
proof -
  have "\<not> at_rest ''x'' 7 (scan_job example_row)"
    by (simp add: at_rest_def free_for_def example_lease lease_expired_def)
  then show ?thesis
    using ask_leaves_parked_alone [of "\<lparr>w_db = example_db, w_faults = [], w_done = []\<rparr>" KindReview
        example_subject "\<lparr>ar_holder = ''x'', ar_ttl = 60\<rparr>" "''start''" 7]
    by (simp add: example_db_ok example_id example_view case_prod_beta)
qed

end
