(* ===== verification/Interleaving.thy ===== *)
theory Interleaving
  imports Armer
begin

text \<open>
  Several workers, and processes that die, over one store. Each step is one atomic store
  operation or one effect of one worker, in the order \<^verbatim>\<open>Runner.apply\<close> makes them, so the
  workers interleave at every point the code can be interrupted; \<open>crash\<close> is a worker killed
  at any of them. What a transition decides is any result at all, and any clock may be read.

  A worker is named by the holder it takes leases under; two live workers never share a name,
  which is what \<^verbatim>\<open>Runner.Holder\<close> asks for. \<open>owner\<close> is the job an idempotency key belongs
  to: every kind's keys name the job's subject, so two jobs never use one key.
\<close>

subsection \<open>Workers\<close>

datatype pc =
    PIdle
  | PHeld job
  | PChecking job result "effect list" "effect list"
  | PPerforming job "effect list"
  | PReleasing job

record sys =
  s_db :: db
  s_done :: "string list"
  s_pcs :: "string \<Rightarrow> pc"

definition at_pc :: "sys \<Rightarrow> string \<Rightarrow> pc \<Rightarrow> sys" where
  "at_pc s h p = s\<lparr>s_pcs := (s_pcs s)(h := p)\<rparr>"

definition row_holder :: "db \<Rightarrow> string \<Rightarrow> string option" where
  "row_holder d jid = Option.bind (find_row jid d) r_lease_holder"

text \<open>
  An effect's own store operations: it gives no key back and reserves none, and leaves no
  job leased to anyone who did not hold it (the asker's lease ends with its commit).
\<close>

definition tame :: "effect \<Rightarrow> bool" where
  "tame e \<longleftrightarrow> (\<forall>f d. e_do e = Some f \<longrightarrow> is_reserved (snd (f d)) = is_reserved d \<and>
     (\<forall>j h. row_holder (snd (f d)) j = Some h \<longrightarrow> row_holder d j = Some h))"

definition proper :: "(string \<Rightarrow> string) \<Rightarrow> job \<Rightarrow> effect list \<Rightarrow> bool" where
  "proper owner j es \<longleftrightarrow>
     distinct (map e_key es) \<and> (\<forall>e\<in>set es. owner (e_key e) = j_id j \<and> tame e)"

inductive sys_step :: "(string \<Rightarrow> string) \<Rightarrow> sys \<Rightarrow> sys \<Rightarrow> bool" for owner where
  due: "s_pcs s h = PIdle \<Longrightarrow> sys_step owner s (s\<lparr>s_db := snd (due h now ttl (s_db s))\<rparr>)"
| take: "s_pcs s h = PIdle \<Longrightarrow> acquire jid h now ttl (s_db s) = (Inr (Some j), d) \<Longrightarrow>
    sys_step owner s (at_pc (s\<lparr>s_db := d\<rparr>) h (PHeld j))"
| decided: "s_pcs s h = PHeld j \<Longrightarrow> proper owner j (res_effects res) \<Longrightarrow>
    sys_step owner s (at_pc s h (PChecking j res (res_effects res) []))"
| check: "s_pcs s h = PChecking j res (e # es) todo \<Longrightarrow>
    sys_step owner s (at_pc s h (PChecking j res es
      (if is_reserved (s_db s) (e_key e) then todo else todo @ [e])))"
| commits: "s_pcs s h = PChecking j res [] todo \<Longrightarrow> rn_holder rn = h \<Longrightarrow>
    commit (apply_commit rn j res todo now') (s_db s) = (Inr u, d) \<Longrightarrow>
    sys_step owner s (at_pc (s\<lparr>s_db := d\<rparr>) h (PPerforming j todo))"
| refused: "s_pcs s h = PChecking j res [] todo \<Longrightarrow> rn_holder rn = h \<Longrightarrow>
    commit (apply_commit rn j res todo now') (s_db s) = (Inl e, d) \<Longrightarrow>
    sys_step owner s (at_pc (s\<lparr>s_db := d\<rparr>) h (PReleasing j))"
| fails: "s_pcs s h \<in> {PHeld j, PChecking j res es todo} \<Longrightarrow> rn_holder rn = h \<Longrightarrow>
    sys_step owner s (at_pc (s\<lparr>s_db := snd (commit (fail_commit rn j) (s_db s))\<rparr>) h (PReleasing j))"
| arms: "s_pcs s h = PHeld j \<Longrightarrow> ar_holder a = h \<Longrightarrow> \<forall>k\<in>set keys. owner k = j_id j \<Longrightarrow>
    sys_step owner s
      (at_pc (s\<lparr>s_db := snd (commit (arm_commit a j start now keys) (s_db s))\<rparr>) h (PReleasing j))"
| performs: "s_pcs s h = PPerforming j (e # es) \<Longrightarrow> e_do e = Some f \<Longrightarrow>
    sys_step owner s (at_pc (s\<lparr>s_db := snd (f (s_db s)), s_done := s_done s @ [e_key e]\<rparr>) h
      (if fst (f (s_db s)) = None then PPerforming j es else PReleasing j))"
| releases: "s_pcs s h \<in> {PHeld j, PPerforming j [], PReleasing j} \<Longrightarrow>
    sys_step owner s (at_pc (s\<lparr>s_db := snd (release (j_id j) h (s_db s))\<rparr>) h PIdle)"
| crash: "sys_step owner s (at_pc s h PIdle)"
| others: "caller c = None \<Longrightarrow> sys_step owner s (s\<lparr>s_db := exec c (s_db s)\<rparr>)"

inductive sys_reachable :: "(string \<Rightarrow> string) \<Rightarrow> db \<Rightarrow> string list \<Rightarrow> sys \<Rightarrow> bool"
  for owner d0 past where
  start: "sys_reachable owner d0 past \<lparr>s_db = d0, s_done = past, s_pcs = (\<lambda>_. PIdle)\<rparr>"
| step: "sys_reachable owner d0 past s \<Longrightarrow> sys_step owner s s' \<Longrightarrow> sys_reachable owner d0 past s'"

subsection \<open>Who holds a job, after each operation\<close>

lemma row_holder_update:
  "(\<And>r. r_id (f r) = r_id r) \<Longrightarrow>
     row_holder (update_row jid f d) j =
       (if j = jid then Option.bind (find_row jid d) (\<lambda>r. r_lease_holder (f r)) else row_holder d j)"
  by (cases "find_row jid d") (auto simp: row_holder_def find_row_update)

lemma row_holder_set_lease:
  "row_holder (update_row jid (set_lease h e) d) j \<in> {row_holder d j, Some h}"
proof (cases "j = jid")
  case True
  then show ?thesis
    by (cases "find_row jid d") (simp_all add: row_holder_update set_lease_def, simp add: row_holder_def)
qed (simp add: row_holder_update)

lemma row_holder_due: "row_holder (snd (due h now ttl d)) j \<in> {row_holder d j, Some h}"
  using row_holder_set_lease [of _ h "now + ttl" d j]
  by (auto simp: due_def split: option.splits)

lemma row_holder_acquire:
  "acquire jid h now ttl d = (r, d') \<Longrightarrow> row_holder d' j \<in> {row_holder d j, Some h}"
  using row_holder_set_lease [of jid h "now + ttl" d j]
  by (auto simp: acquire_eq split: option.splits if_splits)

lemma row_holder_release: "row_holder (snd (release jid h d)) j \<in> {row_holder d j, None}"
proof (cases "j = jid")
  case True
  then show ?thesis
    by (cases "find_row jid d")
      (simp_all add: release_def row_holder_update drop_lease_def, simp_all add: row_holder_def)
qed (simp add: release_def row_holder_update)

lemma row_holder_commit:
  "row_holder (snd (commit c d)) j =
     (if fst (commit c d) = Inr () \<and> j = c_job c
      then (if c_release c then None else Some (c_holder c)) else row_holder d j)"
  "fst (commit c d) = Inr () \<Longrightarrow> row_holder d (c_job c) = Some (c_holder c)"
proof -
  have o: "row_holder (d\<lparr>db_idempotency := m\<rparr>) j = row_holder d j"
    "row_holder (d\<lparr>db_episodes := e\<rparr>) j = row_holder d j" for d m e j
    by (simp_all add: row_holder_def)
  show "row_holder (snd (commit c d)) j =
     (if fst (commit c d) = Inr () \<and> j = c_job c
      then (if c_release c then None else Some (c_holder c)) else row_holder d j)"
    by (auto simp: commit_def Let_def o row_holder_update commit_row_def split: option.split)
  show "fst (commit c d) = Inr () \<Longrightarrow> row_holder d (c_job c) = Some (c_holder c)"
    by (auto simp: commit_def row_holder_def split: option.splits if_splits)
qed

lemma row_holder_others: "caller c = None \<Longrightarrow> row_holder (exec c d) j = row_holder d j"
proof (cases c)
  case (Ensure k s i t)
  show ?thesis
  proof (cases "kind_valid k \<and> subject_type_valid (sub_type s)")
    case True
    then show ?thesis
      by (auto simp: Ensure ensure_eq row_holder_def find_row_insert new_row_def split: option.split)
  next
    case False
    then show ?thesis by (simp add: Ensure ensure_invalid)
  qed
qed (auto simp: row_holder_def count_episode_def told_episode_def end_episode_def
    leave_episode_def Let_def split: option.split)

lemma reserved_others: "caller c = None \<Longrightarrow> is_reserved (exec c d) = is_reserved d"
  by (cases c) (simp_all add: is_reserved_def fun_eq_iff)

lemma apply_commit_simps [simp]:
  "c_job (apply_commit rn j res todo t) = j_id j"
  "c_holder (apply_commit rn j res todo t) = rn_holder rn"
  "c_keys (apply_commit rn j res todo t) = map e_key todo"
  by (simp_all add: apply_commit_def result_keys_def split: prod.split)

subsection \<open>What a step of one worker leaves the others\<close>

text \<open>
  \<open>quiet owner h d d'\<close>: between \<open>d\<close> and \<open>d'\<close> no key was given back, nobody but \<open>h\<close> became
  the holder of anything, and a key reserved meanwhile belongs to a job that \<open>h\<close> holds or
  that nobody does.
\<close>

definition quiet :: "(string \<Rightarrow> string) \<Rightarrow> string \<Rightarrow> db \<Rightarrow> db \<Rightarrow> bool" where
  "quiet owner h d d' \<longleftrightarrow>
     (\<forall>k. is_reserved d k \<longrightarrow> is_reserved d' k) \<and>
     (\<forall>j h'. h' \<noteq> h \<longrightarrow> row_holder d' j = Some h' \<longrightarrow> row_holder d j = Some h') \<and>
     (\<forall>k. is_reserved d' k \<longrightarrow> \<not> is_reserved d k \<longrightarrow> row_holder d' (owner k) \<in> {None, Some h})"

lemma quietI:
  assumes "\<And>k. is_reserved d' k = is_reserved d k"
    and "\<And>j. row_holder d' j \<in> {row_holder d j, None, Some h}"
  shows "quiet owner h d d'"
  using assms unfolding quiet_def by (metis insertE option.distinct(1) option.inject singletonD)

lemma quiet_refl: "quiet owner h d d"
  by (rule quietI) simp_all

lemma quiet_due: "quiet owner h d (snd (due h now ttl d))"
  using row_holder_due [of h now ttl d] by (intro quietI) (simp add: is_reserved_def, blast)

lemma quiet_acquire:
  assumes "acquire jid h now ttl d = (r, d')"
  shows "quiet owner h d d'"
proof (rule quietI)
  show "is_reserved d' k = is_reserved d k" for k
    using acquire_other(1) [of jid h now ttl d] assms by (simp add: is_reserved_def)
  show "row_holder d' j \<in> {row_holder d j, None, Some h}" for j
    using row_holder_acquire [OF assms, of j] by blast
qed

lemma quiet_release: "quiet owner h d (snd (release jid h d))"
  using row_holder_release [of jid h d] by (intro quietI) (simp add: is_reserved_def, blast)

lemma quiet_commit:
  assumes "c_holder c = h" and "\<forall>k\<in>set (c_keys c). owner k = c_job c"
  shows "quiet owner h d (snd (commit c d))"
  unfolding quiet_def reserved_commit row_holder_commit(1) using assms by auto

lemma quiet_effect:
  assumes "tame e" and "e_do e = Some f"
  shows "quiet owner h d (snd (f d))"
proof -
  have "is_reserved (snd (f d)) = is_reserved d"
    and "\<And>j h'. row_holder (snd (f d)) j = Some h' \<Longrightarrow> row_holder d j = Some h'"
    using assms unfolding tame_def by blast+
  then show ?thesis unfolding quiet_def by metis
qed

lemma quiet_others: "caller c = None \<Longrightarrow> quiet owner h d (exec c d)"
  by (rule quietI) (simp_all add: row_holder_others reserved_others)

subsection \<open>The invariant\<close>

fun pc_ok :: "(string \<Rightarrow> string) \<Rightarrow> db \<Rightarrow> string \<Rightarrow> pc \<Rightarrow> bool" where
  "pc_ok owner d h (PChecking j res es todo) \<longleftrightarrow>
     proper owner j (todo @ es) \<and>
     (row_holder d (j_id j) = Some h \<longrightarrow> (\<forall>e\<in>set todo. \<not> is_reserved d (e_key e)))"
| "pc_ok owner d h (PPerforming j es) \<longleftrightarrow>
     proper owner j es \<and> (\<forall>e\<in>set es. is_reserved d (e_key e))"
| "pc_ok owner d h p \<longleftrightarrow> True"

fun pkeys :: "pc \<Rightarrow> string set" where
  "pkeys (PPerforming j es) = e_key ` set es"
| "pkeys p = {}"

definition sys_inv :: "(string \<Rightarrow> string) \<Rightarrow> sys \<Rightarrow> bool" where
  "sys_inv owner s \<longleftrightarrow>
     distinct (s_done s) \<and> (\<forall>k\<in>set (s_done s). is_reserved (s_db s) k) \<and>
     (\<forall>h. pc_ok owner (s_db s) h (s_pcs s h) \<and> pkeys (s_pcs s h) \<inter> set (s_done s) = {}) \<and>
     (\<forall>h h'. h \<noteq> h' \<longrightarrow> pkeys (s_pcs s h) \<inter> pkeys (s_pcs s h') = {})"

lemma pkeys_reserved: "pc_ok owner d h p \<Longrightarrow> k \<in> pkeys p \<Longrightarrow> is_reserved d k"
  by (cases p) auto

lemma pc_ok_quiet:
  assumes "pc_ok owner d h' p" and "quiet owner h d d'" and "h' \<noteq> h"
  shows "pc_ok owner d' h' p"
proof (cases p)
  case (PChecking j res es todo)
  have "\<not> is_reserved d' (e_key e)"
    if e: "e \<in> set todo" and r: "row_holder d' (j_id j) = Some h'" for e
  proof
    assume "is_reserved d' (e_key e)"
    moreover have "\<not> is_reserved d (e_key e)" "owner (e_key e) = j_id j"
      using assms e r PChecking by (auto simp: quiet_def proper_def)
    ultimately have "row_holder d' (j_id j) \<in> {None, Some h}"
      using assms(2) unfolding quiet_def by metis
    with r \<open>h' \<noteq> h\<close> show False by simp
  qed
  with assms(1) PChecking show ?thesis by simp
qed (use assms in \<open>auto simp: quiet_def\<close>)

text \<open>
  One worker \<open>h\<close> moves to \<open>p\<close>, the keys \<open>ks\<close> are performed meanwhile: \<open>ks\<close> were its own, and
  what it may now perform was its own before or nobody's.
\<close>

lemma sys_inv_move:
  assumes inv: "sys_inv owner s"
    and q: "quiet owner h (s_db s) d'"
    and ok: "pc_ok owner d' h p"
    and ks: "distinct ks" "set ks \<subseteq> pkeys (s_pcs s h)" "pkeys p \<inter> set ks = {}"
    and new: "\<And>k. k \<in> pkeys p \<Longrightarrow> k \<in> pkeys (s_pcs s h) \<or> \<not> is_reserved (s_db s) k"
  shows "sys_inv owner \<lparr>s_db = d', s_done = s_done s @ ks, s_pcs = (s_pcs s)(h := p)\<rparr>"
proof -
  have res: "is_reserved (s_db s) k \<Longrightarrow> is_reserved d' k" for k
    using q by (simp add: quiet_def)
  have pr: "k \<in> pkeys (s_pcs s g) \<Longrightarrow> is_reserved (s_db s) k" for k g
    using inv pkeys_reserved unfolding sys_inv_def by blast
  have dr: "k \<in> set (s_done s) \<Longrightarrow> is_reserved (s_db s) k" for k
    using inv by (simp add: sys_inv_def)
  have disj: "pkeys (s_pcs s g) \<inter> set (s_done s) = {}" for g
    using inv by (simp add: sys_inv_def)
  have apart: "g \<noteq> g' \<Longrightarrow> pkeys (s_pcs s g) \<inter> pkeys (s_pcs s g') = {}" for g g'
    using inv by (simp add: sys_inv_def)
  have pcs: "pc_ok owner d' g (((s_pcs s)(h := p)) g)" for g
    using ok inv q pc_ok_quiet [of owner "s_db s" g "s_pcs s g" h d'] by (simp add: sys_inv_def)
  have mine: "pkeys p \<inter> set (s_done s) = {}"
    using new disj [of h] dr by blast
  have free: "pkeys (((s_pcs s)(h := p)) g) \<inter> set (s_done s @ ks) = {}" for g
    using mine ks disj [of g] apart [of g h] by auto
  have other: "pkeys p \<inter> pkeys (s_pcs s g) = {}" if "g \<noteq> h" for g
    using new apart [of g h] that pr by blast
  have "distinct (s_done s @ ks)"
    using inv ks(1,2) disj [of h] unfolding sys_inv_def distinct_append by blast
  moreover have "\<forall>k\<in>set (s_done s @ ks). is_reserved d' k"
    using ks(2) pr dr res by auto
  moreover have "\<forall>g g'. g \<noteq> g' \<longrightarrow>
      pkeys (((s_pcs s)(h := p)) g) \<inter> pkeys (((s_pcs s)(h := p)) g') = {}"
    using other apart by (auto; blast)
  ultimately show ?thesis using pcs free by (simp add: sys_inv_def)
qed


lemma sys_inv_at:
  assumes "sys_inv owner s" and "quiet owner h (s_db s) d'" and "pc_ok owner d' h p"
    and "\<And>k. k \<in> pkeys p \<Longrightarrow> k \<in> pkeys (s_pcs s h) \<or> \<not> is_reserved (s_db s) k"
  shows "sys_inv owner (at_pc (s\<lparr>s_db := d'\<rparr>) h p)"
  using sys_inv_move [OF assms(1-3), of "[]"] assms(4) by (cases s) (simp add: at_pc_def)

lemma sys_inv_db:
  assumes "sys_inv owner s" and "quiet owner h (s_db s) d'" and "s_pcs s h = PIdle"
  shows "sys_inv owner (s\<lparr>s_db := d'\<rparr>)"
  using sys_inv_at [OF assms(1,2), of PIdle] assms(3)
  by (simp add: at_pc_def fun_upd_idem)

lemma sys_inv_exec:
  assumes "sys_inv owner s" and "caller c = None"
  shows "sys_inv owner (s\<lparr>s_db := exec c (s_db s)\<rparr>)"
proof -
  have r: "is_reserved (exec c (s_db s)) = is_reserved (s_db s)"
    "\<And>j. row_holder (exec c (s_db s)) j = row_holder (s_db s) j"
    using assms(2) by (simp_all add: row_holder_others reserved_others)
  have "pc_ok owner (exec c (s_db s)) h p = pc_ok owner (s_db s) h p" for h p
    by (cases p) (simp_all add: r)
  with assms r show ?thesis by (simp add: sys_inv_def)
qed

lemma sys_inv_pc: "sys_inv owner s \<Longrightarrow> pc_ok owner (s_db s) h (s_pcs s h)"
  by (simp add: sys_inv_def)

lemma sys_step_inv:
  assumes "sys_step owner s s'" and "sys_inv owner s"
  shows "sys_inv owner s'"
  using assms(1)
proof cases
  case (due h now ttl)
  then show ?thesis using sys_inv_db [OF assms(2) quiet_due] by simp
next
  case (take h jid now ttl j d)
  then show ?thesis
    using sys_inv_at [OF assms(2) quiet_acquire [OF take(3)], of "PHeld j"] by simp
next
  case (decided h j res)
  then show ?thesis
    using sys_inv_at [OF assms(2) quiet_refl, of h "PChecking j res (res_effects res) []"] by simp
next
  case (check h j res e es todo)
  then show ?thesis
    using sys_inv_at [OF assms(2) quiet_refl, of h
        "PChecking j res es (if is_reserved (s_db s) (e_key e) then todo else todo @ [e])"]
      sys_inv_pc [OF assms(2), of h]
    by (auto simp: proper_def)
next
  case (commits h j res todo rn now' u d)
  have pc: "proper owner j todo"
    "row_holder (s_db s) (j_id j) = Some h \<Longrightarrow> \<forall>e\<in>set todo. \<not> is_reserved (s_db s) (e_key e)"
    using sys_inv_pc [OF assms(2), of h] commits by simp_all
  have d: "d = snd (commit (apply_commit rn j res todo now') (s_db s))"
    and ok: "fst (commit (apply_commit rn j res todo now') (s_db s)) = Inr ()"
    using commits by simp_all
  have held: "row_holder (s_db s) (j_id j) = Some h"
    using row_holder_commit(2) [OF ok] commits by simp
  have "quiet owner h (s_db s) d"
    unfolding d using pc(1) commits by (intro quiet_commit) (auto simp: proper_def)
  moreover have "is_reserved d (e_key e)" if "e \<in> set todo" for e
    using that ok by (simp add: d reserved_commit)
  ultimately show ?thesis
    using sys_inv_at [OF assms(2), of h d "PPerforming j todo"] pc held commits by auto
next
  case (refused h j res todo rn now' e d)
  then have "d = s_db s" by (auto simp: commit_def Let_def split: option.splits if_splits)
  then show ?thesis using sys_inv_at [OF assms(2) quiet_refl, of h "PReleasing j"] refused by simp
next
  case (fails h j res es todo rn)
  then show ?thesis
    using sys_inv_at [OF assms(2) quiet_commit, of "fail_commit rn j" h "PReleasing j"]
    by (simp add: fail_commit_def)
next
  case (arms h j a keys start now)
  then show ?thesis
    using sys_inv_at [OF assms(2) quiet_commit, of "arm_commit a j start now keys" h "PReleasing j"]
    by (simp add: arm_commit_def)
next
  case (performs h j e es f)
  let ?d = "snd (f (s_db s))" and ?p = "if fst (f (s_db s)) = None then PPerforming j es else PReleasing j"
  have pc: "proper owner j (e # es)" "\<forall>e'\<in>set (e # es). is_reserved (s_db s) (e_key e')"
    using sys_inv_pc [OF assms(2), of h] performs by simp_all
  have tame: "tame e" using pc by (simp add: proper_def)
  have q: "quiet owner h (s_db s) ?d" using tame performs by (rule_tac quiet_effect)
  have "pc_ok owner ?d h ?p" using pc q by (auto simp: proper_def quiet_def)
  then have "sys_inv owner \<lparr>s_db = ?d, s_done = s_done s @ [e_key e], s_pcs = (s_pcs s)(h := ?p)\<rparr>"
    using pc performs by (intro sys_inv_move [OF assms(2) q])
      (auto simp: proper_def split: if_splits)
  then show ?thesis using performs by (cases s) (simp add: at_pc_def)
next
  case (releases h j)
  then show ?thesis using sys_inv_at [OF assms(2) quiet_release, where p = PIdle] by simp
next
  case (crash h)
  then show ?thesis using sys_inv_at [OF assms(2) quiet_refl, of h PIdle] by simp
next
  case (others c)
  then show ?thesis using sys_inv_exec [OF assms(2)] by simp
qed


lemma sys_reachable_inv:
  assumes "sys_reachable owner d0 past s"
    and "distinct past" and "\<forall>k\<in>set past. is_reserved d0 k"
  shows "sys_inv owner s"
  using assms
proof (induction rule: sys_reachable.induct)
  case start
  then show ?case by (simp add: sys_inv_def)
next
  case (step s s')
  then show ?case using sys_step_inv by blast
qed


definition example_effect :: effect where
  "example_effect = Effect ''review-pr-12-abc'' (Some (\<lambda>d. (None, d)))"

definition example_result :: result where
  "example_result = \<lparr>res_state = ''posted'', res_run_at = None,
     res_effects = [example_effect], res_exhausted = None\<rparr>"

lemma example_run_reachable:
  "\<exists>s. sys_reachable (\<lambda>_. ''review-pr-12'') example_db [] s \<and> s_done s = [''review-pr-12-abc'']"
proof -
  let ?o = "\<lambda>_::string. ''review-pr-12''" and ?h = "''w2''" and ?e = example_effect
  let ?rn = "example_runner\<lparr>rn_holder := ?h\<rparr>"
  let ?s0 = "\<lparr>s_db = example_db, s_done = [], s_pcs = (\<lambda>_. PIdle)\<rparr>"
  let ?j = "lease_to ?h 210 (scan_job example_row)"
  let ?d1 = "snd (acquire ''review-pr-12'' ?h 110 100 example_db)"
  let ?c = "apply_commit ?rn ?j example_result [?e] 120"
  let ?d2 = "snd (commit ?c ?d1)"
  have acq: "acquire ''review-pr-12'' ?h 110 100 example_db = (Inr (Some ?j), ?d1)"
    by (rule prod_eqI) (simp_all add: acquire_result [OF example_db_ok] example_view free_for_def
        example_lease lease_expired_def)
  have ok1: "db_ok ?d1" by (rule acquire_ok [OF example_db_ok])
  have v1: "view ?d1 ''review-pr-12'' = Some ?j"
    by (simp add: acquire_view [OF example_db_ok] example_view free_for_def example_lease
        lease_expired_def)
  have jid: "j_id ?j = ''review-pr-12''" by (simp add: lease_to_def)
  have nores: "\<not> is_reserved ?d1 (e_key ?e)"
    by (simp add: is_reserved_def example_db_eq empty_db_def)
  have com: "commit ?c ?d1 = (Inr (), ?d2)"
  proof (rule prod_eqI)
    have "holder_of ?j = Some ?h" by (simp add: lease_to_def holder_of_def)
    then show "fst (commit ?c ?d1) = fst (Inr (), ?d2)"
      using v1 by (simp add: commit_result [OF ok1] jid)
  qed simp
  let ?s1 = "at_pc (?s0\<lparr>s_db := ?d1\<rparr>) ?h (PHeld ?j)"
  let ?s2 = "at_pc ?s1 ?h (PChecking ?j example_result (res_effects example_result) [])"
  let ?s3 = "at_pc ?s2 ?h (PChecking ?j example_result [] [?e])"
  let ?s4 = "at_pc (?s3\<lparr>s_db := ?d2\<rparr>) ?h (PPerforming ?j [?e])"
  have pr: "proper ?o ?j (res_effects example_result)"
    by (simp add: proper_def example_result_def jid tame_def example_effect_def)
  have "sys_reachable ?o example_db [] ?s0" by (rule start)
  then have "sys_reachable ?o example_db [] ?s1" by (rule step)
      (use sys_step.take [of ?s0 ?h "''review-pr-12''" 110 100 ?j ?d1 ?o] acq in simp)
  then have "sys_reachable ?o example_db [] ?s2"
    by (rule step) (rule decided [OF _ pr], simp add: at_pc_def)
  then have "sys_reachable ?o example_db [] ?s3"
    by (rule step)
      (use check [of ?s2 ?h ?j example_result ?e "[]" "[]" ?o] nores in
        \<open>simp add: at_pc_def example_result_def\<close>)
  then have r4: "sys_reachable ?o example_db [] ?s4"
    by (rule step)
      (use commits [of ?s3 ?h ?j example_result "[?e]" ?rn 120 "()" ?d2 ?o] com in
        \<open>simp add: at_pc_def\<close>)
  have "sys_step ?o ?s4 (at_pc (?s4\<lparr>s_db := ?d2, s_done := [''review-pr-12-abc'']\<rparr>) ?h (PPerforming ?j []))"
    using performs [of ?s4 ?h ?j ?e "[]" "\<lambda>d. (None, d)" ?o]
    by (simp add: at_pc_def example_effect_def)
  with r4 have "sys_reachable ?o example_db []
      (at_pc (?s4\<lparr>s_db := ?d2, s_done := [''review-pr-12-abc'']\<rparr>) ?h (PPerforming ?j []))"
    by (rule step)
  moreover have "s_done (at_pc (?s4\<lparr>s_db := ?d2, s_done := [''review-pr-12-abc'']\<rparr>) ?h (PPerforming ?j [])) =
      [''review-pr-12-abc'']" by (simp add: at_pc_def)
  ultimately show ?thesis by blast
qed


end
