(* ===== verification/Catalogue.thy ===== *)
theory Catalogue
  imports Complex_Main Afk_Prelude "HOL-Library.AList"
begin

text \<open>
  The model catalogue, \<^verbatim>\<open>internal/model/{model,decode,source}.go\<close>: references, capabilities,
  advertised prices and the fetch-and-cache seam. A price is a rational, since a \<^verbatim>\<open>float64\<close>
  read from a document is only compared here, never computed with. The JSON decoder is left
  out: a document is the tree it yields, and \<open>None\<close> is a body that does not parse. A Go map
  is an association list with distinct keys.
\<close>

subsection \<open>References\<close>

datatype ref = Ref (ref_provider: string) (ref_model: string)

text \<open>\<^verbatim>\<open>Catalogue.Refs\<close> orders by provider and then model, byte by byte.\<close>

definition ref_less :: "ref \<Rightarrow> ref \<Rightarrow> bool" where
  "ref_less a b \<longleftrightarrow>
     (if ref_provider a \<noteq> ref_provider b then ref_provider a < ref_provider b else ref_model a < ref_model b)"

instantiation ref :: linorder
begin

definition less_ref :: "ref \<Rightarrow> ref \<Rightarrow> bool" where
  "less_ref = ref_less"

definition less_eq_ref :: "ref \<Rightarrow> ref \<Rightarrow> bool" where
  "less_eq_ref a b \<longleftrightarrow> a = b \<or> ref_less a b"

instance
  by standard (auto simp: less_eq_ref_def less_ref_def ref_less_def ref.expand split: if_splits)

end

definition ref_string :: "ref \<Rightarrow> string" where
  "ref_string r = ref_provider r @ ''/'' @ ref_model r"

definition parse_ref :: "string \<Rightarrow> ref option" where
  "parse_ref s =
     (let (provider, model, ok) = cut s CHR ''/'' in
      if \<not> ok \<or> provider = '''' \<or> model = '''' then None else Some (Ref provider model))"

subsection \<open>Models\<close>

type_synonym capability = string

definition CapAttachment :: capability where "CapAttachment = ''attachment''"
definition CapToolCall :: capability where "CapToolCall = ''tool_call''"
definition CapReasoning :: capability where "CapReasoning = ''reasoning''"
definition CapStructuredOutput :: capability where "CapStructuredOutput = ''structured_output''"
definition input_prefix :: string where "input_prefix = ''input:''"
definition output_prefix :: string where "output_prefix = ''output:''"

definition input_modality :: "string \<Rightarrow> capability" where
  "input_modality s = input_prefix @ s"

definition output_modality :: "string \<Rightarrow> capability" where
  "output_modality s = output_prefix @ s"

record band =
  bd_input :: rat
  bd_output :: rat
  bd_cache_read :: rat
  bd_cache_write :: rat

record price =
  pr_input :: rat
  pr_output :: rat
  pr_cache_read :: rat
  pr_cache_write :: rat
  pr_headline :: band
  pr_known :: bool

record limit =
  lim_context :: int
  lim_output :: int

record model =
  m_ref :: ref
  m_name :: string
  m_attachment :: bool
  m_tool_call :: bool
  m_reasoning :: bool
  m_structured_output :: bool
  m_input_modalities :: "string list"
  m_output_modalities :: "string list"
  m_limit :: limit
  m_price :: price

fun cap_listed :: "string list \<Rightarrow> string \<Rightarrow> bool" where
  "cap_listed [] v = False"
| "cap_listed (x # vs) v = (if x = v then True else cap_listed vs v)"

definition has_cap :: "model \<Rightarrow> capability \<Rightarrow> bool" where
  "has_cap m c =
     (if c = CapAttachment then m_attachment m
      else if c = CapToolCall then m_tool_call m
      else if c = CapReasoning then m_reasoning m
      else if c = CapStructuredOutput then m_structured_output m
      else (case cut_prefix c input_prefix of
              Some v \<Rightarrow> cap_listed (m_input_modalities m) v
            | None \<Rightarrow> (case cut_prefix c output_prefix of
                Some v \<Rightarrow> cap_listed (m_output_modalities m) v
              | None \<Rightarrow> False)))"

subsection \<open>The catalogue\<close>

text \<open>\<open>None\<close> is the nil pointer, which every method accepts.\<close>

type_synonym catalogue = "(ref \<times> model) list option"

definition new_catalogue :: "model list \<Rightarrow> catalogue" where
  "new_catalogue ms = Some (fold (\<lambda>m. AList.update (m_ref m) m) ms [])"

definition cat_lookup :: "catalogue \<Rightarrow> ref \<Rightarrow> model option" where
  "cat_lookup c r = (case c of None \<Rightarrow> None | Some ms \<Rightarrow> map_of ms r)"

definition cat_len :: "catalogue \<Rightarrow> nat" where
  "cat_len c = (case c of None \<Rightarrow> 0 | Some ms \<Rightarrow> length ms)"

definition cat_refs :: "catalogue \<Rightarrow> ref list" where
  "cat_refs c = (case c of None \<Rightarrow> [] | Some ms \<Rightarrow> sort (map fst ms))"

subsection \<open>The models.dev document\<close>

record wire_cost =
  wc_base :: band
  wc_tiers :: "band list"
  wc_over_200k :: "band option"

record wire_model =
  wm_name :: string
  wm_attachment :: bool
  wm_tool_call :: bool
  wm_reasoning :: bool
  wm_structured_output :: bool
  wm_input :: "string list"
  wm_output :: "string list"
  wm_context :: int
  wm_max_output :: int
  wm_cost :: "wire_cost option"

type_synonym wire_doc = "(string \<times> (string \<times> wire_model) list) list"

definition zero_band :: band where
  "zero_band = \<lparr>bd_input = 0, bd_output = 0, bd_cache_read = 0, bd_cache_write = 0\<rparr>"

definition zero_price :: price where
  "zero_price = \<lparr>pr_input = 0, pr_output = 0, pr_cache_read = 0, pr_cache_write = 0,
     pr_headline = zero_band, pr_known = False\<rparr>"

definition worst :: "band \<Rightarrow> price \<Rightarrow> price" where
  "worst b p =
     p\<lparr>pr_input := max (pr_input p) (bd_input b), pr_output := max (pr_output p) (bd_output b),
       pr_cache_read := max (pr_cache_read p) (bd_cache_read b),
       pr_cache_write := max (pr_cache_write p) (bd_cache_write b)\<rparr>"

definition cost_price :: "wire_cost option \<Rightarrow> price" where
  "cost_price c =
     (case c of None \<Rightarrow> zero_price
      | Some c \<Rightarrow>
          let p = \<lparr>pr_input = bd_input (wc_base c), pr_output = bd_output (wc_base c),
                   pr_cache_read = bd_cache_read (wc_base c),
                   pr_cache_write = bd_cache_write (wc_base c),
                   pr_headline = wc_base c, pr_known = True\<rparr>;
              p = fold worst (wc_tiers c) p
          in (case wc_over_200k c of None \<Rightarrow> p | Some b \<Rightarrow> worst b p))"

definition catalogue_model :: "string \<Rightarrow> string \<Rightarrow> wire_model \<Rightarrow> model" where
  "catalogue_model provider mid wm =
     \<lparr>m_ref = Ref provider mid, m_name = wm_name wm, m_attachment = wm_attachment wm,
      m_tool_call = wm_tool_call wm, m_reasoning = wm_reasoning wm,
      m_structured_output = wm_structured_output wm, m_input_modalities = wm_input wm,
      m_output_modalities = wm_output wm,
      m_limit = \<lparr>lim_context = wm_context wm, lim_output = wm_max_output wm\<rparr>,
      m_price = cost_price (wm_cost wm)\<rparr>"

datatype decode_error = BadDocument | NoProviders | NoModels

definition decode_catalogue :: "wire_doc option \<Rightarrow> decode_error + catalogue" where
  "decode_catalogue doc =
     (case doc of None \<Rightarrow> Inl BadDocument
      | Some [] \<Rightarrow> Inl NoProviders
      | Some ps \<Rightarrow>
          let ms = concat (map (\<lambda>(p, ms). map (\<lambda>(i, wm). (Ref p i, catalogue_model p i wm)) ms) ps)
          in if ms = [] then Inl NoModels else Inr (Some ms))"

subsection \<open>Fetching and caching\<close>

text \<open>
  The cache is a file's body and its modification time. A fetch is a body or an error, a
  write succeeds or does not: the four arguments of a load that its environment decides.
  \<open>parse\<close> is \<^verbatim>\<open>DecodeCatalogue\<close> on a body.
\<close>

record 'b cache_file =
  cf_body :: 'b
  cf_mtime :: instant

record staleness =
  st_age :: int
  st_fetch_failed :: bool
  st_cache_failed :: bool

definition source_age :: "instant \<Rightarrow> instant \<Rightarrow> int" where
  "source_age now mtime = (if 0 < now - mtime then now - mtime else 0)"

definition load_cache ::
    "('b \<Rightarrow> decode_error + catalogue) \<Rightarrow> bool \<Rightarrow> instant \<Rightarrow> 'b cache_file option \<Rightarrow> (catalogue \<times> int) option" where
  "load_cache parse configured now file =
     (if \<not> configured then None
      else (case file of None \<Rightarrow> None
        | Some f \<Rightarrow> (case parse (cf_body f) of
            Inl _ \<Rightarrow> None | Inr c \<Rightarrow> Some (c, source_age now (cf_mtime f)))))"

definition cache_age :: "bool \<Rightarrow> instant \<Rightarrow> 'b cache_file option \<Rightarrow> int option" where
  "cache_age configured now file =
     (if \<not> configured then None else map_option (\<lambda>f. source_age now (cf_mtime f)) file)"

definition fetch_catalogue ::
    "('b \<Rightarrow> decode_error + catalogue) \<Rightarrow> 'b option \<Rightarrow> (catalogue \<times> 'b) option" where
  "fetch_catalogue parse got =
     (case got of None \<Rightarrow> None
      | Some body \<Rightarrow> (case parse body of Inl _ \<Rightarrow> None | Inr c \<Rightarrow> Some (c, body)))"

definition write_cache ::
    "bool \<Rightarrow> bool \<Rightarrow> instant \<Rightarrow> 'b \<Rightarrow> 'b cache_file option \<Rightarrow> bool \<times> 'b cache_file option" where
  "write_cache configured writable now body file =
     (if configured \<and> writable then (True, Some \<lparr>cf_body = body, cf_mtime = now\<rparr>) else (False, file))"

definition load_catalogue ::
    "('b \<Rightarrow> decode_error + catalogue) \<Rightarrow> int \<Rightarrow> bool \<Rightarrow> bool \<Rightarrow> 'b option \<Rightarrow> instant \<Rightarrow> 'b cache_file option \<Rightarrow>
     (catalogue \<times> staleness) option \<times> 'b cache_file option" where
  "load_catalogue parse max_age configured writable got now file =
     (case (if (case cache_age configured now file of None \<Rightarrow> False | Some age \<Rightarrow> 0 < max_age \<and> age < max_age)
            then load_cache parse configured now file else None) of
        Some (c, age) \<Rightarrow> (Some (c, \<lparr>st_age = age, st_fetch_failed = False, st_cache_failed = False\<rparr>), file)
      | None \<Rightarrow>
          (case fetch_catalogue parse got of
             Some (fresh, body) \<Rightarrow>
               (let (ok, file') = write_cache configured writable now body file
                in (Some (fresh, \<lparr>st_age = 0, st_fetch_failed = False, st_cache_failed = \<not> ok\<rparr>), file'))
           | None \<Rightarrow>
               (case load_cache parse configured now file of
                  None \<Rightarrow> (None, file)
                | Some (c, age) \<Rightarrow>
                    (Some (c, \<lparr>st_age = age, st_fetch_failed = True, st_cache_failed = False\<rparr>), file))))"

subsection \<open>What the catalogue guarantees\<close>

lemma has_cap_modality:
  "has_cap m (input_modality v) \<longleftrightarrow> v \<in> set (m_input_modalities m)"
  "has_cap m (output_modality v) \<longleftrightarrow> v \<in> set (m_output_modalities m)"
proof -
  have c: "cap_listed vs v \<longleftrightarrow> v \<in> set vs" for vs by (induction vs) auto
  show "has_cap m (input_modality v) \<longleftrightarrow> v \<in> set (m_input_modalities m)"
    by (simp add: has_cap_def input_modality_def input_prefix_def CapAttachment_def CapToolCall_def
        CapReasoning_def CapStructuredOutput_def c cut_prefix_def has_prefix_def)
  show "has_cap m (output_modality v) \<longleftrightarrow> v \<in> set (m_output_modalities m)"
    by (simp add: has_cap_def output_modality_def input_prefix_def output_prefix_def
        CapAttachment_def CapToolCall_def CapReasoning_def CapStructuredOutput_def c
        cut_prefix_def has_prefix_def)
qed

text \<open>C0: A reference read from \<^verbatim>\<open>provider/model\<close> is the one that renders to it: the split is at
  the first slash, a model id may itself contain slashes, and a string reads as a reference
  exactly when it is the rendering of one with both halves and no slash in its provider.\<close>

theorem parse_ref_iff:
  "parse_ref s = Some r \<longleftrightarrow>
     s = ref_string r \<and> ref_provider r \<noteq> '''' \<and> ref_model r \<noteq> '''' \<and> CHR ''/'' \<notin> set (ref_provider r)"
proof -
  have cut_app: "CHR ''/'' \<notin> set p \<Longrightarrow> cut (p @ CHR ''/'' # q) CHR ''/'' = (p, q, True)" for p q
    by (induction p) auto
  show ?thesis
  proof
    assume "parse_ref s = Some r"
    then obtain p q where c: "cut s CHR ''/'' = (p, q, True)" and r: "p \<noteq> ''''" "q \<noteq> ''''" "r = Ref p q"
      by (auto simp: parse_ref_def Let_def split: prod.splits if_splits)
    from cut_found [OF c] r
    show "s = ref_string r \<and> ref_provider r \<noteq> '''' \<and> ref_model r \<noteq> '''' \<and> CHR ''/'' \<notin> set (ref_provider r)"
      by (simp add: ref_string_def)
  next
    assume "s = ref_string r \<and> ref_provider r \<noteq> '''' \<and> ref_model r \<noteq> '''' \<and> CHR ''/'' \<notin> set (ref_provider r)"
    then show "parse_ref s = Some r"
      using cut_app [of "ref_provider r" "ref_model r"] by (simp add: parse_ref_def ref_string_def)
  qed
qed

definition bands :: "wire_cost \<Rightarrow> band list" where
  "bands c = wc_base c # wc_tiers c @ (case wc_over_200k c of None \<Rightarrow> [] | Some b \<Rightarrow> [b])"

definition capped :: "band \<Rightarrow> price \<Rightarrow> bool" where
  "capped b p \<longleftrightarrow> bd_input b \<le> pr_input p \<and> bd_output b \<le> pr_output p \<and>
     bd_cache_read b \<le> pr_cache_read p \<and> bd_cache_write b \<le> pr_cache_write p"

lemma capped_worst: "capped b p \<Longrightarrow> capped b (worst b' p)" "capped b (worst b p)"
  by (auto simp: capped_def worst_def)

lemma capped_fold: "capped b p \<or> b \<in> set bs \<Longrightarrow> capped b (fold worst bs p)"
  by (induction bs arbitrary: p) (auto simp: capped_worst)

lemma worst_keeps [simp]: "pr_known (worst b p) = pr_known p" "pr_headline (worst b p) = pr_headline p"
  by (simp_all add: worst_def)

lemma fold_worst_keeps [simp]:
  "pr_known (fold worst bs p) = pr_known p" "pr_headline (fold worst bs p) = pr_headline p"
  by (induction bs arbitrary: p) simp_all

definition base_price :: "wire_cost \<Rightarrow> price" where
  "base_price c = \<lparr>pr_input = bd_input (wc_base c), pr_output = bd_output (wc_base c),
     pr_cache_read = bd_cache_read (wc_base c), pr_cache_write = bd_cache_write (wc_base c),
     pr_headline = wc_base c, pr_known = True\<rparr>"

lemma cost_price_fold:
  "cost_price (Some c) = fold worst (tl (bands c)) (base_price c)"
  by (simp add: cost_price_def bands_def base_price_def Let_def split: option.split)

lemma cost_price_capped: "b \<in> set (bands c) \<Longrightarrow> capped b (cost_price (Some c))"
proof -
  have "capped (wc_base c) (base_price c)" by (simp add: capped_def base_price_def)
  then show "b \<in> set (bands c) \<Longrightarrow> capped b (cost_price (Some c))"
    unfolding cost_price_fold by (intro capped_fold) (auto simp: bands_def)
qed

lemma cost_price_known: "pr_known (cost_price c) \<longleftrightarrow> c \<noteq> None"
  by (auto simp: cost_price_def zero_price_def Let_def split: option.splits)

text \<open>A catalogue once read is never lost to a bad answer: a load fails only when the fetch
  failed and there is no usable cached copy; the cached copy is replaced only by a body that
  parsed, so a copy that was usable stays usable; and what a load returns always came from a
  body that parsed, fetched or cached.\<close>

theorem load_keeps_last_good:
  assumes "load_catalogue parse max_age configured writable got now file = (r, file')"
  shows "(r = None \<longleftrightarrow> fetch_catalogue parse got = None \<and> load_cache parse configured now file = None) \<and>
    (file' = file \<or> (\<exists>body c. got = Some body \<and> parse body = Inr c \<and>
        file' = Some \<lparr>cf_body = body, cf_mtime = now\<rparr>)) \<and>
    (load_cache parse configured now file \<noteq> None \<longrightarrow> load_cache parse configured now file' \<noteq> None) \<and>
    (\<forall>c st. r = Some (c, st) \<longrightarrow>
        (\<exists>body. (got = Some body \<or> map_option cf_body file = Some body) \<and> parse body = Inr c))"
proof -
  have lc: "load_cache parse configured now file = Some (c, age) \<Longrightarrow>
      \<exists>body. map_option cf_body file = Some body \<and> parse body = Inr c" for c age
    by (auto simp: load_cache_def split: if_splits option.splits sum.splits)
  have fc: "fetch_catalogue parse got = Some (c, body) \<Longrightarrow> got = Some body \<and> parse body = Inr c" for c body
    by (auto simp: fetch_catalogue_def split: option.splits sum.splits)
  have wc: "fetch_catalogue parse got = Some (c, body) \<Longrightarrow> write_cache configured writable now body file = (ok, f) \<Longrightarrow>
      (f = file \<or> f = Some \<lparr>cf_body = body, cf_mtime = now\<rparr> \<and> load_cache parse configured now f \<noteq> None)" for c body ok f
    using fc by (auto simp: write_cache_def load_cache_def split: if_splits)
  let ?fresh = "if (case cache_age configured now file of None \<Rightarrow> False | Some age \<Rightarrow> 0 < max_age \<and> age < max_age)
    then load_cache parse configured now file else None"
  consider (cached) c age where "load_cache parse configured now file = Some (c, age)"
      "r = Some (c, \<lparr>st_age = age, st_fetch_failed = False, st_cache_failed = False\<rparr>)" "file' = file"
    | (fetched) c body ok where "fetch_catalogue parse got = Some (c, body)"
      "write_cache configured writable now body file = (ok, file')"
      "r = Some (c, \<lparr>st_age = 0, st_fetch_failed = False, st_cache_failed = \<not> ok\<rparr>)"
    | (fallback) c age where "fetch_catalogue parse got = None"
      "load_cache parse configured now file = Some (c, age)"
      "r = Some (c, \<lparr>st_age = age, st_fetch_failed = True, st_cache_failed = False\<rparr>)" "file' = file"
    | (nothing) "fetch_catalogue parse got = None" "load_cache parse configured now file = None"
      "r = None" "file' = file"
  proof (cases ?fresh)
    case (Some x)
    obtain c age where x: "x = (c, age)" by (cases x)
    from Some x have l: "load_cache parse configured now file = Some (c, age)" by (simp split: if_splits)
    from assms have "r = Some (c, \<lparr>st_age = age, st_fetch_failed = False, st_cache_failed = False\<rparr>)" "file' = file"
      unfolding load_catalogue_def Some x by simp_all
    with l show ?thesis by (rule cached)
  next
    case None
    show ?thesis
    proof (cases "fetch_catalogue parse got")
      case (Some y)
      obtain c body where y: "y = (c, body)" by (cases y)
      obtain ok f where w: "write_cache configured writable now body file = (ok, f)" by fastforce
      from assms have "r = Some (c, \<lparr>st_age = 0, st_fetch_failed = False, st_cache_failed = \<not> ok\<rparr>)" "file' = f"
        unfolding load_catalogue_def unfolding None unfolding Some y by (simp_all add: w)
      with w Some y show ?thesis by (intro fetched) simp_all
    next
      case no: None
      show ?thesis
      proof (cases "load_cache parse configured now file")
        case c: None
        from assms have "r = None" "file' = file"
          unfolding load_catalogue_def unfolding None unfolding no c by simp_all
        with no c show ?thesis by (rule nothing)
      next
        case (Some z)
        obtain c age where z: "z = (c, age)" by (cases z)
        from assms have "r = Some (c, \<lparr>st_age = age, st_fetch_failed = True, st_cache_failed = False\<rparr>)" "file' = file"
          unfolding load_catalogue_def unfolding None unfolding no Some z by simp_all
        with no Some z show ?thesis by (intro fallback) simp_all
      qed
    qed
  qed
  then show ?thesis
  proof cases
    case cached
    with lc [OF cached(1)] show ?thesis by auto
  next
    case fetched
    with fc [OF fetched(1)] wc [OF fetched(1,2)] show ?thesis by auto
  next
    case fallback
    with lc [OF fallback(2)] show ?thesis by auto
  next
    case nothing
    then show ?thesis by simp
  qed
qed

definition example_body :: wire_doc where
  "example_body = [(''p'', [(''m'', \<lparr>wm_name = ''m'', wm_attachment = False, wm_tool_call = True,
     wm_reasoning = False, wm_structured_output = False, wm_input = [''text''], wm_output = [''text''],
     wm_context = 200000, wm_max_output = 8000,
     wm_cost = Some \<lparr>wc_base = \<lparr>bd_input = 2, bd_output = 4, bd_cache_read = 0, bd_cache_write = 0\<rparr>,
       wc_tiers = [\<lparr>bd_input = 4, bd_output = 8, bd_cache_read = 1, bd_cache_write = 0\<rparr>],
       wc_over_200k = None\<rparr>\<rparr>)])]"

theorem load_keeps_last_good_witness:
  "\<exists>c. load_cache (\<lambda>b. decode_catalogue (Some b)) True 50
     (snd (load_catalogue (\<lambda>b. decode_catalogue (Some b)) 10 True True (Some []) 50
       (Some \<lparr>cf_body = example_body, cf_mtime = 3\<rparr>))) = Some c"
proof -
  let ?p = "\<lambda>b. decode_catalogue (Some b)" and ?f = "Some \<lparr>cf_body = example_body, cf_mtime = 3::int\<rparr>"
  have "load_cache ?p True 50 ?f \<noteq> None"
    by (simp add: load_cache_def decode_catalogue_def example_body_def)
  with load_keeps_last_good [OF surjective_pairing, of ?p 10 True True "Some []" 50 ?f]
  show ?thesis by blast
qed

end
