(* ===== verification/Resolver.thy ===== *)
theory Resolver
  imports Catalogue
begin

text \<open>
  Model choice, \<^verbatim>\<open>internal/model/{enrol,resolve,choose}.go\<close>: the enrolment a human wrote,
  the resolver over it, the bounded walk through a tier's candidates, and what a job's run
  does with the answer. A reason for a rejection keeps its parts as data, where the code
  renders them into one string.
\<close>

subsection \<open>The enrolment\<close>

type_synonym tier = string

record tier_enrolment =
  te_name :: tier
  te_models :: "ref list"

record enrolment =
  en_tiers :: "(tier \<times> ref list) list"
  en_order :: "tier list"

datatype enrol_error =
    TierNoName
  | TierTwice tier
  | TierEmpty tier
  | IncompleteRef tier
  | EnrolledTwice tier ref
  | BadEnrolment
  | NoTiers
  | NotARef tier string

fun check_models :: "tier \<Rightarrow> ref list \<Rightarrow> ref list \<Rightarrow> enrol_error option" where
  "check_models t seen [] = None"
| "check_models t seen (r # rs) =
     (if ref_provider r = '''' \<or> ref_model r = '''' then Some (IncompleteRef t)
      else if r \<in> set seen then Some (EnrolledTwice t r)
      else check_models t (r # seen) rs)"

fun enrol_all :: "enrolment \<Rightarrow> tier_enrolment list \<Rightarrow> enrol_error + enrolment" where
  "enrol_all e [] = Inr e"
| "enrol_all e (t # ts) =
     (if te_name t = '''' then Inl TierNoName
      else if map_of (en_tiers e) (te_name t) \<noteq> None then Inl (TierTwice (te_name t))
      else if te_models t = [] then Inl (TierEmpty (te_name t))
      else (case check_models (te_name t) [] (te_models t) of
          Some err \<Rightarrow> Inl err
        | None \<Rightarrow> enrol_all \<lparr>en_tiers = (te_name t, te_models t) # en_tiers e,
                            en_order = en_order e @ [te_name t]\<rparr> ts))"

definition new_enrolment :: "tier_enrolment list \<Rightarrow> enrol_error + enrolment" where
  "new_enrolment ts = enrol_all \<lparr>en_tiers = [], en_order = []\<rparr> ts"

definition enrol_tier :: "enrolment option \<Rightarrow> tier \<Rightarrow> ref list option" where
  "enrol_tier e t = (case e of None \<Rightarrow> None | Some e \<Rightarrow> map_of (en_tiers e) t)"

definition enrol_tiers :: "enrolment option \<Rightarrow> tier list" where
  "enrol_tiers e = (case e of None \<Rightarrow> [] | Some e \<Rightarrow> en_order e)"

fun parse_refs :: "tier \<Rightarrow> string list \<Rightarrow> enrol_error + ref list" where
  "parse_refs t [] = Inr []"
| "parse_refs t (s # ss) =
     (case parse_ref s of
        None \<Rightarrow> Inl (NotARef t s)
      | Some r \<Rightarrow> (case parse_refs t ss of Inl e \<Rightarrow> Inl e | Inr rs \<Rightarrow> Inr (r # rs)))"

fun parse_tiers :: "(tier \<times> string list) list \<Rightarrow> enrol_error + tier_enrolment list" where
  "parse_tiers [] = Inr []"
| "parse_tiers ((name, models) # ts) =
     (case parse_refs name models of
        Inl e \<Rightarrow> Inl e
      | Inr refs \<Rightarrow> (case parse_tiers ts of Inl e \<Rightarrow> Inl e
          | Inr rest \<Rightarrow> Inr (\<lparr>te_name = name, te_models = refs\<rparr> # rest)))"

text \<open>\<open>None\<close> is a document the strict JSON decoder refused.\<close>

definition decode_enrolment :: "(tier \<times> string list) list option \<Rightarrow> enrol_error + enrolment" where
  "decode_enrolment doc =
     (case doc of None \<Rightarrow> Inl BadEnrolment
      | Some ts \<Rightarrow>
          if ts = [] then Inl NoTiers
          else (case parse_tiers ts of Inl e \<Rightarrow> Inl e | Inr tiers \<Rightarrow> new_enrolment tiers))"

subsection \<open>Resolving\<close>

record ceiling =
  ce_input :: rat
  ce_output :: rat
  ce_cache_read :: rat

definition zero_ceiling :: ceiling where
  "zero_ceiling = \<lparr>ce_input = 0, ce_output = 0, ce_cache_read = 0\<rparr>"

record requirements =
  rq_tier :: tier
  rq_capabilities :: "capability list"
  rq_min_context :: int
  rq_ceiling :: ceiling

record model_budget =
  mb_limited :: bool
  mb_resets_at :: gotime

datatype why =
    NotCatalogued
  | Lacks capability
  | ContextShort int int
  | Unpriced
  | OverCeiling string rat rat "rat option"

type_synonym rejection = "ref \<times> why"

datatype exhausted = Exhausted (ex_tried: int) (ex_enrolled: int) (ex_last: "string option")

datatype resolve_error =
    NoTierRequired
  | UnknownTier tier "tier list"
  | Limited gotime
  | NoCandidate tier "capability list" "rejection list" nat
  | NegativeAttempt int
  | ExhaustedError exhausted
  | OtherError string

fun over_fields :: "(string \<times> rat \<times> rat \<times> rat) list \<Rightarrow> why option" where
  "over_fields [] = None"
| "over_fields ((name, cost, limit, headline) # fs) =
     (if 0 < limit \<and> limit < cost
      then Some (OverCeiling name cost limit (if headline < cost then Some headline else None))
      else over_fields fs)"

definition over_ceiling :: "price \<Rightarrow> ceiling \<Rightarrow> why option" where
  "over_ceiling p c =
     (if c = zero_ceiling then None
      else if \<not> pr_known p then Some Unpriced
      else over_fields
        [(''input'', pr_input p, ce_input c, bd_input (pr_headline p)),
         (''output'', pr_output p, ce_output c, bd_output (pr_headline p)),
         (''cache read'', pr_cache_read p, ce_cache_read c, bd_cache_read (pr_headline p))])"

definition reject :: "model \<Rightarrow> requirements \<Rightarrow> why option" where
  "reject m reqs =
     (case find (\<lambda>c. \<not> has_cap m c) (rq_capabilities reqs) of
        Some c \<Rightarrow> Some (Lacks c)
      | None \<Rightarrow>
          if 0 < rq_min_context reqs \<and> lim_context (m_limit m) < rq_min_context reqs
          then Some (ContextShort (lim_context (m_limit m)) (rq_min_context reqs))
          else over_ceiling (m_price m) (rq_ceiling reqs))"

record walk =
  wk_candidates :: "ref list"
  wk_rejected :: "rejection list"
  wk_catalogued :: nat
  wk_met :: "capability list"

definition walk_model :: "requirements \<Rightarrow> catalogue \<Rightarrow> ref \<Rightarrow> walk \<Rightarrow> walk" where
  "walk_model reqs cat r w =
     (case cat_lookup cat r of
        None \<Rightarrow> w\<lparr>wk_rejected := wk_rejected w @ [(r, NotCatalogued)]\<rparr>
      | Some m \<Rightarrow>
          let w = w\<lparr>wk_catalogued := wk_catalogued w + 1,
                    wk_met := wk_met w @ filter (has_cap m) (rq_capabilities reqs)\<rparr>
          in (case reject m reqs of
                Some y \<Rightarrow> w\<lparr>wk_rejected := wk_rejected w @ [(r, y)]\<rparr>
              | None \<Rightarrow> w\<lparr>wk_candidates := wk_candidates w @ [r]\<rparr>))"

definition resolve :: "requirements \<Rightarrow> catalogue \<Rightarrow> enrolment option \<Rightarrow> model_budget \<Rightarrow> resolve_error + ref list" where
  "resolve reqs cat enrol budget =
     (if rq_tier reqs = '''' then Inl NoTierRequired
      else (case enrol_tier enrol (rq_tier reqs) of
          None \<Rightarrow> Inl (UnknownTier (rq_tier reqs) (enrol_tiers enrol))
        | Some enrolled \<Rightarrow>
            if mb_limited budget then Inl (Limited (mb_resets_at budget))
            else
              let w = fold (walk_model reqs cat) enrolled
                        \<lparr>wk_candidates = [], wk_rejected = [], wk_catalogued = 0, wk_met = []\<rparr>
              in if wk_candidates w = [] then
                   Inl (NoCandidate (rq_tier reqs)
                     (if 0 < wk_catalogued w
                      then filter (\<lambda>c. c \<notin> set (wk_met w)) (rq_capabilities reqs) else [])
                     (wk_rejected w) (wk_catalogued w))
                 else Inr (wk_candidates w)))"

definition attempt_ref :: "ref list \<Rightarrow> int \<Rightarrow> int \<Rightarrow> resolve_error + ref" where
  "attempt_ref c n bound =
     (let limit = (if 0 < bound \<and> bound < int (length c) then bound else int (length c)) in
      if n < 0 then Inl (NegativeAttempt n)
      else if limit \<le> n then Inl (ExhaustedError (Exhausted limit (int (length c)) None))
      else Inr (c ! nat n))"

subsection \<open>Choosing a model for a run\<close>

record wait =
  wt_until :: gotime
  wt_exhausted :: "exhausted option"

definition no_wait :: wait where
  "no_wait = \<lparr>wt_until = None, wt_exhausted = None\<rparr>"

definition zero_ref :: ref where
  "zero_ref = Ref '''' ''''"

text \<open>\<open>candidates\<close> is what the caller's \<^verbatim>\<open>resolve\<close> returned.\<close>

definition choose_model ::
    "resolve_error + ref list \<Rightarrow> int \<Rightarrow> int \<Rightarrow> instant \<Rightarrow> int \<Rightarrow> ref \<times> wait \<times> resolve_error option" where
  "choose_model candidates stays bound now w =
     (case candidates of
        Inl (Limited resets) \<Rightarrow>
          (case resets of
             None \<Rightarrow> (zero_ref, no_wait\<lparr>wt_until := Some (now + w)\<rparr>, None)
           | Some t \<Rightarrow> (zero_ref, no_wait\<lparr>wt_until := Some t\<rparr>, None))
      | Inl e \<Rightarrow> (zero_ref, no_wait, Some e)
      | Inr cs \<Rightarrow>
          (case attempt_ref cs stays bound of
             Inl (ExhaustedError x) \<Rightarrow>
               (zero_ref, \<lparr>wt_until = Some (now + w), wt_exhausted = Some x\<rparr>, None)
           | Inl e \<Rightarrow> (zero_ref, no_wait, Some e)
           | Inr r \<Rightarrow> (r, no_wait, None)))"

definition failed_model ::
    "resolve_error + ref list \<Rightarrow> int \<Rightarrow> int \<Rightarrow> instant \<Rightarrow> int \<Rightarrow> string \<Rightarrow> wait" where
  "failed_model candidates stays bound now w failed =
     (case choose_model candidates (stays + 1) bound now w of
        (r, wt, err) \<Rightarrow>
          (case (err, wt_exhausted wt) of
             (None, Some x) \<Rightarrow>
               wt\<lparr>wt_exhausted := Some (Exhausted (ex_tried x) (ex_enrolled x) (Some failed))\<rparr>
           | _ \<Rightarrow> no_wait))"

subsection \<open>What a candidate list is\<close>

text \<open>The specification of a model that qualifies, one clause per requirement.\<close>

definition under_cap :: "rat \<Rightarrow> rat \<Rightarrow> bool" where
  "under_cap cost cap \<longleftrightarrow> (0 < cap \<longrightarrow> cost \<le> cap)"

definition affordable :: "price \<Rightarrow> ceiling \<Rightarrow> bool" where
  "affordable p c \<longleftrightarrow> c = zero_ceiling \<or>
     pr_known p \<and> under_cap (pr_input p) (ce_input c) \<and> under_cap (pr_output p) (ce_output c) \<and>
     under_cap (pr_cache_read p) (ce_cache_read c)"

definition qualifies :: "requirements \<Rightarrow> model \<Rightarrow> bool" where
  "qualifies reqs m \<longleftrightarrow>
     (\<forall>c\<in>set (rq_capabilities reqs). has_cap m c) \<and>
     (0 < rq_min_context reqs \<longrightarrow> rq_min_context reqs \<le> lim_context (m_limit m)) \<and>
     affordable (m_price m) (rq_ceiling reqs)"

definition candidate :: "requirements \<Rightarrow> catalogue \<Rightarrow> ref \<Rightarrow> bool" where
  "candidate reqs cat r \<longleftrightarrow> (\<exists>m. cat_lookup cat r = Some m \<and> qualifies reqs m)"

lemma over_ceiling_None: "over_ceiling p c = None \<longleftrightarrow> affordable p c"
  by (auto simp: over_ceiling_def affordable_def under_cap_def)

lemma reject_None: "reject m reqs = None \<longleftrightarrow> qualifies reqs m"
proof (cases "find (\<lambda>c. \<not> has_cap m c) (rq_capabilities reqs)")
  case None
  then have "\<forall>c\<in>set (rq_capabilities reqs). has_cap m c" by (auto simp: find_None_iff)
  with None show ?thesis by (auto simp: reject_def qualifies_def over_ceiling_None)
next
  case (Some c)
  then have "\<not> has_cap m c" "c \<in> set (rq_capabilities reqs)" by (auto simp: find_Some_iff)
  with Some show ?thesis by (auto simp: reject_def qualifies_def)
qed

definition why_not :: "requirements \<Rightarrow> catalogue \<Rightarrow> ref \<Rightarrow> why" where
  "why_not reqs cat r =
     (case cat_lookup cat r of None \<Rightarrow> NotCatalogued
      | Some m \<Rightarrow> (case reject m reqs of None \<Rightarrow> NotCatalogued | Some y \<Rightarrow> y))"

definition met_by :: "requirements \<Rightarrow> catalogue \<Rightarrow> ref \<Rightarrow> capability list" where
  "met_by reqs cat r =
     (case cat_lookup cat r of None \<Rightarrow> [] | Some m \<Rightarrow> filter (has_cap m) (rq_capabilities reqs))"

lemma walk_model_eq:
  "walk_model reqs cat r w =
     w\<lparr>wk_candidates := wk_candidates w @ (if candidate reqs cat r then [r] else []),
       wk_rejected := wk_rejected w @ (if candidate reqs cat r then [] else [(r, why_not reqs cat r)]),
       wk_catalogued := wk_catalogued w + (if cat_lookup cat r = None then 0 else 1),
       wk_met := wk_met w @ met_by reqs cat r\<rparr>"
proof (cases "cat_lookup cat r")
  case None
  then show ?thesis by (simp add: walk_model_def candidate_def why_not_def met_by_def)
next
  case (Some m)
  then show ?thesis
    by (cases "reject m reqs")
      (auto simp: walk_model_def candidate_def why_not_def met_by_def Let_def simp flip: reject_None)
qed

lemma walk_all:
  "fold (walk_model reqs cat) rs w =
     w\<lparr>wk_candidates := wk_candidates w @ filter (candidate reqs cat) rs,
       wk_rejected := wk_rejected w @
         map (\<lambda>r. (r, why_not reqs cat r)) (filter (\<lambda>r. \<not> candidate reqs cat r) rs),
       wk_catalogued := wk_catalogued w + length (filter (\<lambda>r. cat_lookup cat r \<noteq> None) rs),
       wk_met := wk_met w @ concat (map (met_by reqs cat) rs)\<rparr>"
  by (induction rs arbitrary: w) (simp_all add: walk_model_eq)

lemma resolve_eq:
  "resolve reqs cat enrol budget =
     (if rq_tier reqs = '''' then Inl NoTierRequired
      else (case enrol_tier enrol (rq_tier reqs) of
          None \<Rightarrow> Inl (UnknownTier (rq_tier reqs) (enrol_tiers enrol))
        | Some rs \<Rightarrow>
            if mb_limited budget then Inl (Limited (mb_resets_at budget))
            else if filter (candidate reqs cat) rs = [] then
              Inl (NoCandidate (rq_tier reqs)
                (if filter (\<lambda>r. cat_lookup cat r \<noteq> None) rs = [] then []
                 else filter (\<lambda>c. \<forall>r\<in>set rs. c \<notin> set (met_by reqs cat r)) (rq_capabilities reqs))
                (map (\<lambda>r. (r, why_not reqs cat r)) (filter (\<lambda>r. \<not> candidate reqs cat r) rs))
                (length (filter (\<lambda>r. cat_lookup cat r \<noteq> None) rs)))
            else Inr (filter (candidate reqs cat) rs)))"
  by (simp add: resolve_def walk_all Let_def split: option.split)

text \<open>C18: What may do a job's work is exactly what a human enrolled for it: a resolution succeeds
  when the job's tier is enrolled, the account is not limited and some model of that tier
  qualifies, and then the candidates are all the qualifying models of that tier, in the
  enrolled order. No model outside the tier is ever among them, and no requirement is dropped.\<close>

theorem resolve_exact:
  "resolve reqs cat enrol budget = Inr cs \<longleftrightarrow>
     rq_tier reqs \<noteq> '''' \<and> \<not> mb_limited budget \<and> cs \<noteq> [] \<and>
     (\<exists>enrolled. enrol_tier enrol (rq_tier reqs) = Some enrolled \<and>
        cs = filter (candidate reqs cat) enrolled)"
  by (auto simp: resolve_eq split: option.splits if_splits)

text \<open>A tier that cannot serve a job says why, model by model: when no candidate is left,
  every enrolled model is listed, in order, with what it failed on; a capability is reported
  missing exactly when no catalogued model of the tier has it, and nothing is reported
  missing about a tier the catalogue knows nothing of.\<close>

theorem resolve_explains:
  assumes "resolve reqs cat enrol budget = Inl (NoCandidate t missing rejected n)"
  shows "\<exists>enrolled. enrol_tier enrol t = Some enrolled \<and> t = rq_tier reqs \<and>
    map fst rejected = enrolled \<and>
    (\<forall>r y. (r, y) \<in> set rejected \<longrightarrow>
       (case cat_lookup cat r of None \<Rightarrow> y = NotCatalogued | Some m \<Rightarrow> reject m reqs = Some y)) \<and>
    n = length (filter (\<lambda>r. cat_lookup cat r \<noteq> None) enrolled) \<and>
    missing = (if n = 0 then []
      else filter (\<lambda>c. \<forall>r\<in>set enrolled. \<forall>m. cat_lookup cat r = Some m \<longrightarrow> \<not> has_cap m c)
             (rq_capabilities reqs))"
proof -
  from assms obtain rs where rs: "enrol_tier enrol (rq_tier reqs) = Some rs"
    "filter (candidate reqs cat) rs = []" "t = rq_tier reqs"
    "rejected = map (\<lambda>r. (r, why_not reqs cat r)) (filter (\<lambda>r. \<not> candidate reqs cat r) rs)"
    "n = length (filter (\<lambda>r. cat_lookup cat r \<noteq> None) rs)"
    "missing = (if filter (\<lambda>r. cat_lookup cat r \<noteq> None) rs = [] then []
       else filter (\<lambda>c. \<forall>r\<in>set rs. c \<notin> set (met_by reqs cat r)) (rq_capabilities reqs))"
    by (auto simp: resolve_eq split: option.splits if_splits)
  from rs(2) have none: "\<forall>r\<in>set rs. \<not> candidate reqs cat r" by (simp add: filter_empty_conv)
  then have "filter (\<lambda>r. \<not> candidate reqs cat r) rs = rs" by (simp add: filter_id_conv)
  with rs(4) have rej: "rejected = map (\<lambda>r. (r, why_not reqs cat r)) rs" by simp
  have "case cat_lookup cat r of None \<Rightarrow> why_not reqs cat r = NotCatalogued
      | Some m \<Rightarrow> reject m reqs = Some (why_not reqs cat r)" if "r \<in> set rs" for r
    using none that
    by (auto simp: why_not_def candidate_def simp flip: reject_None split: option.splits)
  then have "\<forall>r y. (r, y) \<in> set rejected \<longrightarrow>
      (case cat_lookup cat r of None \<Rightarrow> y = NotCatalogued | Some m \<Rightarrow> reject m reqs = Some y)"
    by (auto simp: rej)
  moreover have "filter (\<lambda>c. \<forall>r\<in>set rs. c \<notin> set (met_by reqs cat r)) (rq_capabilities reqs) =
      filter (\<lambda>c. \<forall>r\<in>set rs. \<forall>m. cat_lookup cat r = Some m \<longrightarrow> \<not> has_cap m c) (rq_capabilities reqs)"
    by (rule filter_cong) (auto simp: met_by_def split: option.splits)
  moreover have "map fst rejected = rs" by (simp add: rej comp_def)
  moreover have "(filter (\<lambda>r. cat_lookup cat r \<noteq> None) rs = []) = (n = 0)" by (simp add: rs(5))
  ultimately show ?thesis
    using rs(1,3,5) unfolding rs(6) by (intro exI [of _ rs]) simp
qed

definition example_ref :: ref where "example_ref = Ref ''p'' ''m''"

definition example_cat :: catalogue where
  "example_cat = (case decode_catalogue (Some example_body) of Inr c \<Rightarrow> c | Inl _ \<Rightarrow> None)"

definition example_enrolment :: "tier_enrolment list" where
  "example_enrolment = [\<lparr>te_name = ''high'', te_models = [example_ref, Ref ''q'' ''gone'']\<rparr>]"

definition example_enrolled :: enrolment where
  "example_enrolled =
     \<lparr>en_tiers = [(''high'', [example_ref, Ref ''q'' ''gone''])], en_order = [''high'']\<rparr>"

definition example_reqs :: "capability list \<Rightarrow> requirements" where
  "example_reqs cs = \<lparr>rq_tier = ''high'', rq_capabilities = cs, rq_min_context = 0,
     rq_ceiling = zero_ceiling\<rparr>"

definition example_budget :: model_budget where
  "example_budget = \<lparr>mb_limited = False, mb_resets_at = None\<rparr>"

lemma example_enrolled: "new_enrolment example_enrolment = Inr example_enrolled"
  by (simp add: new_enrolment_def example_enrolment_def example_enrolled_def example_ref_def)

lemma example_lookup:
  "cat_lookup example_cat example_ref =
     Some (catalogue_model ''p'' ''m'' (snd (hd (snd (hd example_body)))))"
  "cat_lookup example_cat (Ref ''q'' ''gone'') = None"
  by (simp_all add: example_cat_def cat_lookup_def decode_catalogue_def example_body_def example_ref_def)

lemma example_caps:
  "has_cap (catalogue_model ''p'' ''m'' (snd (hd (snd (hd example_body))))) ''tool_call''"
  "\<not> has_cap (catalogue_model ''p'' ''m'' (snd (hd (snd (hd example_body))))) ''reasoning''"
  by (simp_all add: has_cap_def catalogue_model_def example_body_def CapAttachment_def CapToolCall_def
      CapReasoning_def)

lemma example_tier: "enrol_tier (Some example_enrolled) ''high'' = Some [example_ref, Ref ''q'' ''gone'']"
  by (simp add: enrol_tier_def example_enrolled_def)

lemma example_no_candidate:
  "resolve (example_reqs [''reasoning'']) example_cat (Some example_enrolled) example_budget =
     Inl (NoCandidate ''high'' [''reasoning'']
       [(example_ref, Lacks ''reasoning''), (Ref ''q'' ''gone'', NotCatalogued)] 1)"
  by (simp add: resolve_eq example_reqs_def example_tier candidate_def why_not_def met_by_def
      qualifies_def reject_def example_lookup example_caps example_budget_def)

lemma example_candidates:
  "resolve (example_reqs [''tool_call'']) example_cat (Some example_enrolled) example_budget =
     Inr [example_ref]"
  by (simp add: resolve_eq example_reqs_def example_tier candidate_def
      qualifies_def affordable_def example_lookup example_caps example_budget_def)

theorem resolve_explains_witness:
  "\<exists>enrolled. enrol_tier (Some example_enrolled) ''high'' = Some enrolled \<and>
     enrolled = [example_ref, Ref ''q'' ''gone'']"
  using resolve_explains [OF example_no_candidate] by auto

subsection \<open>Prices\<close>

text \<open>A ceiling holds on every band a model publishes: when a priced or unpriced model passes
  a ceiling that caps something, it is priced, and none of its bands, the headline one, the
  long-context tiers or the older spelling of them, costs more than any cap that is set.\<close>

theorem ceiling_holds_in_every_band:
  assumes "over_ceiling (cost_price cost) c = None" and "c \<noteq> zero_ceiling"
  shows "\<exists>w. cost = Some w \<and> (\<forall>b\<in>set (bands w).
    under_cap (bd_input b) (ce_input c) \<and> under_cap (bd_output b) (ce_output c) \<and>
    under_cap (bd_cache_read b) (ce_cache_read c))"
proof -
  from assms have aff: "pr_known (cost_price cost)"
    "under_cap (pr_input (cost_price cost)) (ce_input c)"
    "under_cap (pr_output (cost_price cost)) (ce_output c)"
    "under_cap (pr_cache_read (cost_price cost)) (ce_cache_read c)"
    by (auto simp: over_ceiling_None affordable_def)
  from aff(1) obtain w where w: "cost = Some w" by (auto simp: cost_price_known)
  have "under_cap (bd_input b) (ce_input c) \<and> under_cap (bd_output b) (ce_output c) \<and>
    under_cap (bd_cache_read b) (ce_cache_read c)" if "b \<in> set (bands w)" for b
    using cost_price_capped [OF that] aff unfolding w
    by (auto simp: capped_def under_cap_def intro: order_trans)
  with w show ?thesis by blast
qed

theorem ceiling_holds_in_every_band_witness:
  "\<exists>w. wm_cost (snd (hd (snd (hd example_body)))) = Some w \<and>
     list_all (\<lambda>b. under_cap (bd_input b) 5) (bands w)"
proof -
  let ?c = "\<lparr>ce_input = 5, ce_output = 0, ce_cache_read = 0\<rparr>"
  have "over_ceiling (cost_price (wm_cost (snd (hd (snd (hd example_body)))))) ?c = None"
    by (simp add: over_ceiling_def cost_price_def example_body_def worst_def)
  from ceiling_holds_in_every_band [OF this] show ?thesis
    by (simp add: zero_ceiling_def list_all_iff) blast
qed

subsection \<open>The walk through a tier\<close>

lemma check_models_ok:
  "check_models t seen rs = None \<Longrightarrow> distinct rs \<and> set rs \<inter> set seen = {}"
proof (induction rs arbitrary: seen)
  case (Cons r rs)
  then have "r \<notin> set seen" "check_models t (r # seen) rs = None" by (auto split: if_splits)
  with Cons.IH [of "r # seen"] show ?case by auto
qed simp

definition tiers_ok :: "enrolment \<Rightarrow> bool" where
  "tiers_ok e \<longleftrightarrow> (\<forall>(t, rs)\<in>set (en_tiers e). distinct rs \<and> rs \<noteq> [])"

lemma enrol_all_ok: "enrol_all e ts = Inr e' \<Longrightarrow> tiers_ok e \<Longrightarrow> tiers_ok e'"
proof (induction ts arbitrary: e)
  case (Cons x xs)
  from Cons.prems(1) have ok: "check_models (te_name x) [] (te_models x) = None" "te_models x \<noteq> []"
    and rec: "enrol_all \<lparr>en_tiers = (te_name x, te_models x) # en_tiers e,
        en_order = en_order e @ [te_name x]\<rparr> xs = Inr e'"
    by (auto split: if_splits option.splits)
  from check_models_ok [OF ok(1)] ok(2) Cons.prems(2) show ?case
    by (intro Cons.IH [OF rec]) (simp add: tiers_ok_def)
qed simp

lemma resolve_distinct:
  assumes "new_enrolment ts = Inr e" and "resolve reqs cat (Some e) budget = Inr cs"
  shows "distinct cs"
proof -
  have "tiers_ok e"
    using enrol_all_ok [OF assms(1) [unfolded new_enrolment_def]] by (simp add: tiers_ok_def)
  moreover from assms(2) obtain rs where rs: "map_of (en_tiers e) (rq_tier reqs) = Some rs"
      "cs = filter (candidate reqs cat) rs"
    by (auto simp: resolve_eq enrol_tier_def split: option.splits if_splits)
  ultimately have "distinct rs" using map_of_SomeD [OF rs(1)] by (auto simp: tiers_ok_def)
  with rs(2) show ?thesis by simp
qed

definition tries :: "ref list \<Rightarrow> int \<Rightarrow> int" where
  "tries cs bound = (if 0 < bound \<and> bound < int (length cs) then bound else int (length cs))"

text \<open>C0: A job whose runs keep failing transiently tries each candidate of its tier once, in
  order, up to the bound, and is then deferred for the tier's wait with the last failure as
  the cause: stay \<open>n\<close> below the bound runs candidate \<open>n\<close> at once, its failure either leaves the
  job due for candidate \<open>n + 1\<close> or ends the walk, and no candidate occurs twice.\<close>

theorem tier_walked_once:
  assumes "new_enrolment ts = Inr e" and "resolve reqs cat (Some e) budget = Inr cs"
    and "0 \<le> n" and "n < tries cs bound"
  shows "distinct cs \<and>
    choose_model (Inr cs) n bound now w = (cs ! nat n, no_wait, None) \<and>
    failed_model (Inr cs) n bound now w cause =
      (if n + 1 < tries cs bound then no_wait
       else \<lparr>wt_until = Some (now + w),
             wt_exhausted = Some (Exhausted (tries cs bound) (int (length cs)) (Some cause))\<rparr>) \<and>
    choose_model (Inr cs) (tries cs bound) bound now w =
      (zero_ref, \<lparr>wt_until = Some (now + w),
         wt_exhausted = Some (Exhausted (tries cs bound) (int (length cs)) None)\<rparr>, None)"
proof -
  have att: "attempt_ref cs k bound =
      (if tries cs bound \<le> k then Inl (ExhaustedError (Exhausted (tries cs bound) (int (length cs)) None))
       else Inr (cs ! nat k))" if "0 \<le> k" for k
    using that by (simp add: attempt_ref_def Let_def tries_def)
  have "0 \<le> tries cs bound" using assms(3,4) by simp
  then show ?thesis
    using assms(3,4) resolve_distinct [OF assms(1,2)]
    by (simp add: choose_model_def failed_model_def att no_wait_def)
qed

theorem tier_walked_once_witness:
  "failed_model (Inr [example_ref]) 0 3 1000 60 ''timed out'' =
     \<lparr>wt_until = Some 1060, wt_exhausted = Some (Exhausted 1 1 (Some ''timed out''))\<rparr>"
  using tier_walked_once [OF example_enrolled example_candidates, of 0 3 1000 60 "''timed out''"]
  by (simp add: tries_def)

end
