(* ===== verification/Budget.thy ===== *)
theory Budget
  imports Resolver
begin

text \<open>
  Budget observation and admission, \<^verbatim>\<open>internal/budget\<close>: the windows and what is derived from
  them, the operator's waivers, the admission policy, the observer that caches one
  observation, and the shape the model resolver takes. A percentage is a rational. The JSON
  and RFC 3339 parsers are left out: a usage document is the map it yields, and \<open>rfc3339\<close> is
  \<^verbatim>\<open>time.Parse\<close> on a timestamp.
\<close>

subsection \<open>Windows\<close>

type_synonym status = string

definition StatusRateLimited :: status where "StatusRateLimited = ''rate-limited''"

record window =
  w_name :: string
  w_status :: status
  w_percent :: rat
  w_resets_at :: gotime

definition zero_window :: window where
  "zero_window = \<lparr>w_name = '''', w_status = '''', w_percent = 0, w_resets_at = None\<rparr>"

definition window_limited :: "window \<Rightarrow> bool" where
  "window_limited w \<longleftrightarrow> w_status w = StatusRateLimited"

record budget_state =
  bs_windows :: "window list"
  bs_observed_at :: gotime

definition zero_state :: budget_state where
  "zero_state = \<lparr>bs_windows = [], bs_observed_at = None\<rparr>"

definition state_known :: "budget_state \<Rightarrow> bool" where
  "state_known s \<longleftrightarrow> \<not> is_zero (bs_observed_at s)"

fun any_limited :: "window list \<Rightarrow> bool" where
  "any_limited [] = False"
| "any_limited (w # ws) = (if window_limited w then True else any_limited ws)"

definition state_limited :: "budget_state \<Rightarrow> bool" where
  "state_limited s = any_limited (bs_windows s)"

fun last_reset :: "window \<Rightarrow> window list \<Rightarrow> window" where
  "last_reset cur [] = cur"
| "last_reset cur (w # ws) =
     (if \<not> window_limited w then last_reset cur ws
      else if w_name cur = '''' \<or> w_resets_at cur < w_resets_at w then last_reset w ws
      else last_reset cur ws)"

definition last_to_reset :: "budget_state \<Rightarrow> window" where
  "last_to_reset s = last_reset zero_window (bs_windows s)"

definition state_resets_at :: "budget_state \<Rightarrow> gotime" where
  "state_resets_at s = w_resets_at (last_to_reset s)"

fun peak_of :: "window \<Rightarrow> window list \<Rightarrow> window" where
  "peak_of peak [] = peak"
| "peak_of peak (w # ws) =
     (if (window_limited w \<and> \<not> window_limited peak) \<or>
         (window_limited w = window_limited peak \<and> w_percent peak < w_percent w)
      then peak_of w ws else peak_of peak ws)"

definition state_peak :: "budget_state \<Rightarrow> window" where
  "state_peak s = (case bs_windows s of [] \<Rightarrow> zero_window | w # ws \<Rightarrow> peak_of w ws)"

definition state_window :: "budget_state \<Rightarrow> string \<Rightarrow> window option" where
  "state_window s name = find (\<lambda>w. w_name w = name) (bs_windows s)"

subsection \<open>Waivers\<close>

record waiver =
  wv_window :: string
  wv_until :: instant

definition reset_drift :: int where
  "reset_drift = 2 * second"

definition waiver_matches :: "waiver \<Rightarrow> window \<Rightarrow> bool" where
  "waiver_matches wa w =
     (case w_resets_at w of None \<Rightarrow> False
      | Some t \<Rightarrow> (let d = t - wv_until wa in - reset_drift \<le> d \<and> d \<le> reset_drift))"

definition waiver_covers :: "waiver \<Rightarrow> window \<Rightarrow> instant \<Rightarrow> bool" where
  "waiver_covers wa w now \<longleftrightarrow>
     wv_window wa = w_name w \<and> now < wv_until wa \<and> waiver_matches wa w"

definition waived_by :: "waiver list \<Rightarrow> window \<Rightarrow> instant \<Rightarrow> waiver option" where
  "waived_by ws w now = find (\<lambda>wa. waiver_covers wa w now) ws"

fun waive_windows :: "waiver list \<Rightarrow> instant \<Rightarrow> window list \<Rightarrow> window list \<times> waiver list" where
  "waive_windows ws now [] = ([], [])"
| "waive_windows ws now (w # rest) =
     (let (kept, waived) = waive_windows ws now rest in
      (case waived_by ws w now of
         None \<Rightarrow> (w # kept, waived)
       | Some wa \<Rightarrow> if window_limited w then (kept, wa # waived) else (kept, waived)))"

definition waive :: "budget_state \<Rightarrow> waiver list \<Rightarrow> instant \<Rightarrow> budget_state \<times> waiver list" where
  "waive s ws now =
     (if ws = [] then (s, [])
      else (let (kept, waived) = waive_windows ws now (bs_windows s)
            in (\<lparr>bs_windows = kept, bs_observed_at = bs_observed_at s\<rparr>, waived)))"

definition live_waivers :: "waiver list \<Rightarrow> instant \<Rightarrow> waiver list" where
  "live_waivers ws now = filter (\<lambda>wa. now < wv_until wa) ws"

subsection \<open>Admission\<close>

datatype decision = Start | Wait | Defer

record admission =
  ad_decision :: decision
  ad_until :: gotime
  ad_window :: window
  ad_waived :: "waiver list"

definition admission_of :: "decision \<Rightarrow> admission" where
  "admission_of d = \<lparr>ad_decision = d, ad_until = None, ad_window = zero_window, ad_waived = []\<rparr>"

definition starts :: "admission \<Rightarrow> bool" where
  "starts a \<longleftrightarrow> ad_decision a = Start"

definition admit :: "budget_state \<Rightarrow> rat \<Rightarrow> waiver list \<Rightarrow> instant \<Rightarrow> admission" where
  "admit s threshold waivers now =
     (if \<not> state_known s then admission_of Start
      else
        let (s, waived) = waive s waivers now in
        if state_limited s then
          let l = last_to_reset s in
          if Some now < w_resets_at l
          then (admission_of Defer)\<lparr>ad_until := w_resets_at l, ad_window := l\<rparr>
          else (admission_of Wait)\<lparr>ad_window := state_peak s\<rparr>
        else if 0 < threshold \<and> threshold \<le> w_percent (state_peak s)
        then (admission_of Wait)\<lparr>ad_window := state_peak s\<rparr>
        else (admission_of Start)\<lparr>ad_waived := waived\<rparr>)"

definition state_resolver :: "budget_state \<Rightarrow> waiver list \<Rightarrow> instant \<Rightarrow> model_budget" where
  "state_resolver s waivers now =
     (let (s, _) = waive s waivers now
      in \<lparr>mb_limited = state_limited s, mb_resets_at = state_resets_at s\<rparr>)"

subsection \<open>The usage document\<close>

record wire_window =
  ww_status :: string
  ww_percent :: rat
  ww_resets_at :: string

datatype usage_error = BadUsage | NoWindows | BadTimestamp string

definition window_order :: "string list" where
  "window_order = [''rolling'', ''weekly'', ''monthly'']"

fun rank_in :: "nat \<Rightarrow> string list \<Rightarrow> string \<Rightarrow> nat" where
  "rank_in i [] name = i"
| "rank_in i (n # ns) name = (if n = name then i else rank_in (i + 1) ns name)"

definition rank :: "string \<Rightarrow> nat" where
  "rank name = rank_in 0 window_order name"

definition parse_reset :: "(string \<Rightarrow> instant option) \<Rightarrow> string \<Rightarrow> gotime option" where
  "parse_reset rfc3339 s =
     (if s = '''' then Some None else map_option Some (rfc3339 s))"

fun decode_windows ::
    "(string \<Rightarrow> instant option) \<Rightarrow> (string \<times> wire_window) list \<Rightarrow> usage_error + window list" where
  "decode_windows rfc3339 [] = Inr []"
| "decode_windows rfc3339 ((name, w) # ws) =
     (case parse_reset rfc3339 (ww_resets_at w) of
        None \<Rightarrow> Inl (BadTimestamp name)
      | Some resets \<Rightarrow>
          (case decode_windows rfc3339 ws of Inl e \<Rightarrow> Inl e
           | Inr rest \<Rightarrow> Inr (\<lparr>w_name = name, w_status = ww_status w, w_percent = ww_percent w,
                             w_resets_at = resets\<rparr> # rest)))"

definition decode_usage ::
    "(string \<Rightarrow> instant option) \<Rightarrow> (string \<times> wire_window) list option \<Rightarrow> instant \<Rightarrow> usage_error + budget_state" where
  "decode_usage rfc3339 doc observed_at =
     (case doc of None \<Rightarrow> Inl BadUsage
      | Some usage \<Rightarrow>
          if usage = [] then Inl NoWindows
          else (case decode_windows rfc3339 (sort_key (\<lambda>(name, w). (rank name, name)) usage) of
              Inl e \<Rightarrow> Inl e
            | Inr ws \<Rightarrow> Inr \<lparr>bs_windows = ws, bs_observed_at = Some observed_at\<rparr>))"

subsection \<open>The observer\<close>

record observer =
  ob_max_age :: int
  ob_threshold :: rat
  ob_waivers :: "waiver list"
  ob_last :: budget_state
  ob_last_fail :: gotime

definition observe_due :: "observer \<Rightarrow> instant \<Rightarrow> bool" where
  "observe_due ob now =
     (if ob_max_age ob \<le> 0 then True
      else if (case ob_last_fail ob of None \<Rightarrow> False | Some t \<Rightarrow> now < t + ob_max_age ob) then False
      else (case bs_observed_at (ob_last ob) of
          None \<Rightarrow> True
        | Some seen \<Rightarrow>
            if \<not> now < seen + ob_max_age ob then True
            else if state_limited (ob_last ob) \<and> \<not> Some now < state_resets_at (ob_last ob) then True
            else False))"

text \<open>\<open>got\<close> is what the fetch would return if made now: \<^verbatim>\<open>Observer.fetch\<close>, decode included.\<close>

definition observe ::
    "observer \<Rightarrow> instant \<Rightarrow> string + budget_state \<Rightarrow> (budget_state \<times> string option) \<times> observer" where
  "observe ob now got =
     (if \<not> observe_due ob now then ((ob_last ob, None), ob)
      else (case got of
          Inl err \<Rightarrow> ((ob_last ob, Some err), ob\<lparr>ob_last_fail := Some now\<rparr>)
        | Inr state \<Rightarrow> ((state, None), ob\<lparr>ob_last_fail := None, ob_last := state\<rparr>)))"

definition observer_admit ::
    "observer \<Rightarrow> instant \<Rightarrow> instant \<Rightarrow> string + budget_state \<Rightarrow> (admission \<times> string option) \<times> observer" where
  "observer_admit ob now now' got =
     (let ((state, err), ob') = observe ob now got
      in ((admit state (ob_threshold ob) (ob_waivers ob) now', err), ob'))"

definition observer_resolver :: "observer \<Rightarrow> budget_state \<Rightarrow> instant \<Rightarrow> model_budget" where
  "observer_resolver ob s now = state_resolver s (ob_waivers ob) now"

subsection \<open>The window that reopens last, and the worst one\<close>

lemma any_limited_iff: "any_limited ws \<longleftrightarrow> (\<exists>w\<in>set ws. window_limited w)"
  by (induction ws) auto

lemma last_reset_from:
  assumes "w_name l \<noteq> ''''" and "\<forall>w\<in>set ws. w_name w \<noteq> ''''"
  shows "(last_reset l ws = l \<or> last_reset l ws \<in> {w \<in> set ws. window_limited w}) \<and>
    w_resets_at l \<le> w_resets_at (last_reset l ws) \<and>
    (\<forall>w\<in>set ws. window_limited w \<longrightarrow> w_resets_at w \<le> w_resets_at (last_reset l ws))"
  using assms
proof (induction ws arbitrary: l)
  case (Cons w ws)
  show ?case
  proof (cases "window_limited w \<and> w_resets_at l < w_resets_at w")
    case True
    with Cons.IH [of w] Cons.prems show ?thesis by auto
  next
    case False
    with Cons.IH [of l] Cons.prems show ?thesis by auto
  qed
qed simp

lemma last_to_reset_max:
  assumes "state_limited s" and "\<forall>w\<in>set (bs_windows s). w_name w \<noteq> ''''"
  shows "last_to_reset s \<in> set (bs_windows s) \<and> window_limited (last_to_reset s) \<and>
    (\<forall>w\<in>set (bs_windows s). window_limited w \<longrightarrow> w_resets_at w \<le> w_resets_at (last_to_reset s))"
proof -
  have "any_limited ws \<Longrightarrow> \<forall>w\<in>set ws. w_name w \<noteq> '''' \<Longrightarrow>
      last_reset zero_window ws \<in> set ws \<and> window_limited (last_reset zero_window ws) \<and>
      (\<forall>w\<in>set ws. window_limited w \<longrightarrow> w_resets_at w \<le> w_resets_at (last_reset zero_window ws))" for ws
  proof (induction ws)
    case (Cons w ws)
    show ?case
    proof (cases "window_limited w")
      case True
      with Cons.prems last_reset_from [of w ws] show ?thesis
        by (auto simp: zero_window_def)
    next
      case False
      with Cons show ?thesis by auto
    qed
  qed simp
  with assms show ?thesis by (simp add: state_limited_def last_to_reset_def)
qed

lemma peak_of_max:
  assumes "\<forall>w\<in>set (p # ws). \<not> window_limited w"
  shows "peak_of p ws \<in> set (p # ws) \<and> (\<forall>w\<in>set (p # ws). w_percent w \<le> w_percent (peak_of p ws))"
  using assms
proof (induction ws arbitrary: p)
  case (Cons w ws)
  show ?case
  proof (cases "w_percent p < w_percent w")
    case True
    with Cons.IH [of w] Cons.prems show ?thesis by auto
  next
    case False
    with Cons.IH [of p] Cons.prems show ?thesis by auto
  qed
qed simp

lemma state_peak_max:
  assumes "\<not> state_limited s" and "bs_windows s \<noteq> []"
  shows "state_peak s \<in> set (bs_windows s) \<and>
    (\<forall>w\<in>set (bs_windows s). w_percent w \<le> w_percent (state_peak s))"
  using assms peak_of_max [of "hd (bs_windows s)" "tl (bs_windows s)"]
  by (cases "bs_windows s") (auto simp: state_peak_def state_limited_def any_limited_iff)

subsection \<open>What a waiver leaves out\<close>

definition unwaived :: "budget_state \<Rightarrow> waiver list \<Rightarrow> instant \<Rightarrow> window list" where
  "unwaived s ws now = filter (\<lambda>w. waived_by ws w now = None) (bs_windows s)"

lemma waive_windows_eq:
  "waive_windows ws now xs =
     (filter (\<lambda>w. waived_by ws w now = None) xs,
      List.map_filter (\<lambda>w. if window_limited w then waived_by ws w now else None) xs)"
  by (induction xs) (auto simp: map_filter_simps split: option.split)

lemma waived_by_Nil [simp]: "waived_by [] w now = None"
  by (simp add: waived_by_def)

lemma waive_eq:
  "waive s ws now =
     (\<lparr>bs_windows = unwaived s ws now, bs_observed_at = bs_observed_at s\<rparr>,
      List.map_filter (\<lambda>w. if window_limited w then waived_by ws w now else None) (bs_windows s))"
  by (cases s) (auto simp: waive_def waive_windows_eq unwaived_def List.map_filter_def)

lemma waived_by_covers: "waived_by ws w now = Some wa \<Longrightarrow> wa \<in> set ws \<and> waiver_covers wa w now"
  by (auto simp: waived_by_def find_Some_iff in_set_conv_nth)

text \<open>Admission is exactly the operator's policy. New work is deferred only while an
  unwaived window is limited and reopens in the future, to the time the last such window
  reopens, which is never zero and never past. It waits when what is limited gives no future
  time, or when an unwaived window is at the threshold. Otherwise it starts: no unwaived
  window is limited, and every limited window has a live waiver naming that very period,
  reported with the admission.\<close>

theorem admission_exact:
  assumes "state_known s" and "\<forall>w\<in>set (bs_windows s). w_name w \<noteq> ''''"
    and "a = admit s threshold ws now"
    and "L = {w \<in> set (unwaived s ws now). window_limited w}"
  shows "(case ad_decision a of
      Defer \<Rightarrow> ad_window a \<in> L \<and> ad_until a = w_resets_at (ad_window a) \<and> Some now < ad_until a \<and>
        (\<forall>w\<in>L. w_resets_at w \<le> ad_until a)
    | Wait \<Rightarrow> ad_until a = None \<and>
        (L \<noteq> {} \<and> (\<forall>w\<in>L. w_resets_at w \<le> Some now) \<or>
         L = {} \<and> 0 < threshold \<and> (\<exists>w\<in>set (unwaived s ws now). threshold \<le> w_percent w))
    | Start \<Rightarrow> ad_until a = None \<and> L = {} \<and>
        (threshold \<le> 0 \<or> (\<forall>w\<in>set (unwaived s ws now). w_percent w < threshold)) \<and>
        (\<forall>w\<in>set (bs_windows s). window_limited w \<longrightarrow>
           (\<exists>wa\<in>set (ad_waived a). wa \<in> set ws \<and> waiver_covers wa w now)))"
proof -
  let ?s = "\<lparr>bs_windows = unwaived s ws now, bs_observed_at = bs_observed_at s\<rparr>"
  have adm: "a = (if state_limited ?s then
          if Some now < w_resets_at (last_to_reset ?s)
          then (admission_of Defer)\<lparr>ad_until := w_resets_at (last_to_reset ?s), ad_window := last_to_reset ?s\<rparr>
          else (admission_of Wait)\<lparr>ad_window := state_peak ?s\<rparr>
        else if 0 < threshold \<and> threshold \<le> w_percent (state_peak ?s)
        then (admission_of Wait)\<lparr>ad_window := state_peak ?s\<rparr>
        else (admission_of Start)\<lparr>ad_waived := snd (waive s ws now)\<rparr>)"
    using assms(1,3) by (simp add: admit_def waive_eq Let_def)
  have lim: "state_limited ?s \<longleftrightarrow> L \<noteq> {}"
    by (auto simp: state_limited_def any_limited_iff assms(4))
  show ?thesis
  proof (cases "state_limited ?s")
    case True
    from last_to_reset_max [OF True] assms(2)
    have "last_to_reset ?s \<in> L \<and> (\<forall>w\<in>L. w_resets_at w \<le> w_resets_at (last_to_reset ?s))"
      by (auto simp: assms(4) unwaived_def)
    with True lim adm show ?thesis by (auto simp: admission_of_def intro: order_trans)
  next
    case False
    have cov: "\<exists>wa\<in>set (snd (waive s ws now)). wa \<in> set ws \<and> waiver_covers wa w now"
      if w: "w \<in> set (bs_windows s)" "window_limited w" for w
    proof -
      from False lim w assms(4) obtain wa where wa: "waived_by ws w now = Some wa"
        by (auto simp: unwaived_def)
      with w have "wa \<in> set (snd (waive s ws now))"
        by (force simp: waive_eq List.map_filter_def)
      with waived_by_covers [OF wa] show ?thesis by blast
    qed
    show ?thesis
    proof (cases "unwaived s ws now = []")
      case True
      with False adm lim cov show ?thesis
        by (auto simp: admission_of_def state_peak_def zero_window_def)
    next
      case ne: False
      from state_peak_max [OF False] ne
      have pk: "state_peak ?s \<in> set (unwaived s ws now)"
        "\<forall>w\<in>set (unwaived s ws now). w_percent w \<le> w_percent (state_peak ?s)" by simp_all
      have "\<not> threshold \<le> w_percent (state_peak ?s) \<Longrightarrow> \<forall>w\<in>set (unwaived s ws now). w_percent w < threshold"
        using pk(2) by fastforce
      with False adm lim cov pk(1) show ?thesis by (auto simp: admission_of_def)
    qed
  qed
qed


definition example_state :: budget_state where
  "example_state =
     \<lparr>bs_windows =
        [\<lparr>w_name = ''rolling'', w_status = ''ok'', w_percent = 10, w_resets_at = Some 100\<rparr>,
         \<lparr>w_name = ''weekly'', w_status = ''rate-limited'', w_percent = 100, w_resets_at = Some 500\<rparr>,
         \<lparr>w_name = ''monthly'', w_status = ''rate-limited'', w_percent = 100, w_resets_at = Some 900\<rparr>],
      bs_observed_at = Some 40\<rparr>"

lemma example_admit:
  "admit example_state 90 [] 50 = (admission_of Defer)\<lparr>ad_until := Some 900,
     ad_window := \<lparr>w_name = ''monthly'', w_status = ''rate-limited'', w_percent = 100, w_resets_at = Some 900\<rparr>\<rparr>"
  by (simp add: admit_def example_state_def state_known_def waive_def state_limited_def
      last_to_reset_def window_limited_def StatusRateLimited_def zero_window_def)

theorem admission_exact_witness:
  "list_all (\<lambda>w. w_resets_at w \<le> Some 900) (filter window_limited (unwaived example_state [] 50))"
  using admission_exact [of example_state "admit example_state 90 [] 50" 90 "[]" 50, OF _ _ refl refl]
  by (simp add: example_admit admission_of_def list_all_iff) (simp add: example_state_def state_known_def)

text \<open>Admission and resolution cannot disagree about one observation: work admitted now finds
  the resolver's account not limited, and work deferred finds it limited until the very same
  time, with the same waivers left out of both.\<close>

theorem admission_agrees_with_resolver:
  assumes "state_known s \<or> bs_windows s = []"
  shows "(starts (admit s threshold ws now) \<longrightarrow> \<not> mb_limited (state_resolver s ws now)) \<and>
    (ad_decision (admit s threshold ws now) = Defer \<longrightarrow>
       mb_limited (state_resolver s ws now) \<and>
       mb_resets_at (state_resolver s ws now) = ad_until (admit s threshold ws now))"
proof (cases "state_known s")
  case True
  then show ?thesis
    by (simp add: admit_def state_resolver_def waive_eq Let_def starts_def admission_of_def
        state_resets_at_def)
next
  case False
  with assms show ?thesis
    by (simp add: admit_def state_resolver_def waive_eq starts_def admission_of_def
        state_limited_def unwaived_def)
qed

theorem admission_agrees_with_resolver_witness:
  "mb_resets_at (state_resolver example_state [] 50) = Some 900"
  using admission_agrees_with_resolver [of example_state 90 "[]" 50]
  by (simp add: example_admit admission_of_def) (simp add: example_state_def state_known_def)

text \<open>A waiver spends one period's balance and no other's: it covers a window only before it
  lapses, and two periods one waiver covers, at whatever times, have resets at most twice the
  drift of one reading apart. A window that gave no reset is never covered.\<close>

theorem waiver_one_period:
  assumes "waiver_covers wa w now" and "waiver_covers wa w' now'"
  shows "now < wv_until wa \<and> now' < wv_until wa \<and> w_name w = w_name w' \<and>
    (\<exists>t t'. w_resets_at w = Some t \<and> w_resets_at w' = Some t' \<and> \<bar>t - t'\<bar> \<le> 2 * reset_drift)"
  using assms by (auto simp: waiver_covers_def waiver_matches_def Let_def split: option.splits)

definition example_waiver :: waiver where
  "example_waiver = \<lparr>wv_window = ''weekly'', wv_until = 500000000000\<rparr>"

theorem waiver_one_period_witness:
  "\<bar>501000000000 - 498000000000\<bar> \<le> 2 * reset_drift"
proof -
  let ?w = "\<lambda>t. \<lparr>w_name = ''weekly'', w_status = ''ok'', w_percent = 1, w_resets_at = Some t\<rparr>"
  have "waiver_covers example_waiver (?w 501000000000) 7" "waiver_covers example_waiver (?w 498000000000) 9"
    by (simp_all add: waiver_covers_def waiver_matches_def example_waiver_def reset_drift_def second_def)
  from waiver_one_period [OF this] show ?thesis by simp
qed

subsection \<open>How often the endpoint is asked\<close>

text \<open>After the endpoint was asked, it is not asked again for the observation's maximum age,
  whether the attempt answered or failed, with one exception: an answer that says the account
  is limited, by windows none of which reopens after now. A failed attempt keeps the last
  good observation and says why.\<close>

theorem observer_throttled:
  assumes "0 < ob_max_age ob" and "observe_due ob t" and "observe ob t got = ((s, err), ob')"
    and "\<And>st. got = Inr st \<Longrightarrow> bs_observed_at st = Some t"
    and "t \<le> t'" and "t' < t + ob_max_age ob"
  shows "(observe_due ob' t' \<longleftrightarrow>
      (\<exists>st. got = Inr st \<and> state_limited st \<and> \<not> Some t' < state_resets_at st)) \<and>
    (\<forall>e. got = Inl e \<longrightarrow> s = ob_last ob \<and> ob_last ob' = ob_last ob \<and> err = Some e)"
proof (cases got)
  case (Inl e)
  from assms(2,3) have "ob' = ob\<lparr>ob_last_fail := Some t\<rparr>" "s = ob_last ob" "err = Some e"
    by (simp_all add: observe_def Inl)
  with Inl assms(1,5,6) show ?thesis by (simp add: observe_due_def)
next
  case (Inr st)
  with assms(4) have at: "bs_observed_at st = Some t" by simp
  from assms(2,3) have "ob' = ob\<lparr>ob_last_fail := None, ob_last := st\<rparr>"
    by (auto simp: observe_def Inr)
  with Inr at assms(1,6) show ?thesis by (simp add: observe_due_def)
qed

definition example_observer :: observer where
  "example_observer = \<lparr>ob_max_age = 60, ob_threshold = 90, ob_waivers = [], ob_last = zero_state,
     ob_last_fail = None\<rparr>"

theorem observer_throttled_witness:
  "\<not> observe_due (snd (observe example_observer 40 (Inr example_state))) 70"
proof -
  have "observe_due example_observer 40"
    by (simp add: example_observer_def observe_due_def zero_state_def)
  then show ?thesis
    using observer_throttled [of example_observer 40 "Inr example_state" example_state None
        "example_observer\<lparr>ob_last := example_state\<rparr>" 70]
    by (simp add: observe_def) (simp add: example_observer_def example_state_def state_limited_def
      state_resets_at_def last_to_reset_def window_limited_def StatusRateLimited_def zero_window_def)
qed

text \<open>
  The exception reaches further than the comment on it says: a limited window reported with no
  reset time makes every call ask again.
\<close>

theorem limited_without_reset_always_asks:
  assumes "0 < ob_max_age ob" and "ob_last_fail ob = None" and "state_known (ob_last ob)"
    and "state_limited (ob_last ob)" and "state_resets_at (ob_last ob) = None"
  shows "observe_due ob now"
  using assms by (auto simp: observe_due_def split: option.splits)

text \<open>
  The walk for the window that reopens last takes an unset name for no window seen yet. A
  limited window whose name is empty, which a document may have, is replaced by any later
  one, even one that reopens earlier.
\<close>

theorem nameless_window_forgotten:
  "last_to_reset \<lparr>bs_windows =
      [\<lparr>w_name = '''', w_status = ''rate-limited'', w_percent = 100, w_resets_at = Some 900\<rparr>,
       \<lparr>w_name = ''yearly'', w_status = ''rate-limited'', w_percent = 100, w_resets_at = Some 500\<rparr>],
      bs_observed_at = Some 40\<rparr> =
   \<lparr>w_name = ''yearly'', w_status = ''rate-limited'', w_percent = 100, w_resets_at = Some 500\<rparr>"
  by (simp add: last_to_reset_def zero_window_def window_limited_def StatusRateLimited_def)

end
