(* ===== verification/Notify.thy ===== *)
theory Notify
  imports Budget Store_Properties
begin

text \<open>
  The operator's interrupt channel, \<^verbatim>\<open>internal/notify/notify.go\<close>. A notifier is its
  configuration and the set of occurrences it has published (or is publishing); \<open>nt_posted\<close>
  records what reached the server. Each publish is given the outcome of its post, \<open>None\<close>
  being success. The timestamps and the window of a message's text are rendered by the two
  functions of \<open>style\<close>: \<^verbatim>\<open>time.Format(time.RFC3339)\<close> and \<^verbatim>\<open>Window.String\<close>. A cause is its
  text, and the bound of the run that was killed, when it was. Strings are bytes.
\<close>

subsection \<open>Messages\<close>

record message =
  ms_title :: string
  ms_tag :: string
  ms_body :: string
  ms_click :: string

record style =
  fmt_time :: "gotime \<Rightarrow> string"
  fmt_window :: "window \<Rightarrow> string"

record cause =
  ca_text :: string
  ca_bound :: "string option"

record notifier =
  nt_repo :: string
  nt_tier_after :: int
  nt_sent :: "string list"
  nt_posted :: "(string \<times> message) list"

definition body_limit :: nat where
  "body_limit = 3800"

definition tag_parked :: string where "tag_parked = ''octagonal_sign''"
definition tag_exhausted :: string where "tag_exhausted = ''money_with_wings''"
definition tag_tier :: string where "tag_tier = ''hourglass''"
definition tag_waived :: string where "tag_waived = ''moneybag''"

definition nl :: string where
  "nl = [CHR 0x0A]"

definition clean_char :: "char \<Rightarrow> char" where
  "clean_char c = (if c = CHR 0x0A \<or> c = CHR 0x0D then CHR '' '' else c)"

definition clean :: "string \<Rightarrow> string" where
  "clean s = map clean_char s"

definition rune_start :: "char \<Rightarrow> bool" where
  "rune_start c \<longleftrightarrow> (let b = (of_char c :: nat) in \<not> (128 \<le> b \<and> b < 192))"

fun cut_at :: "string \<Rightarrow> nat \<Rightarrow> nat" where
  "cut_at s 0 = 0"
| "cut_at s (Suc n) = (if rune_start (s ! Suc n) then Suc n else cut_at s n)"

definition truncate :: "string \<Rightarrow> string" where
  "truncate s =
     (if length s \<le> body_limit then s
      else take (cut_at s body_limit) s @ nl @ ''(truncated)'')"

definition para_text :: "string \<Rightarrow> string" where
  "para_text s = (if s = '''' then '''' else nl @ nl @ s)"

definition quoted :: "string \<Rightarrow> string" where
  "quoted s = CHR 0x22 # s @ [CHR 0x22]"

definition subject_link :: "notifier \<Rightarrow> subject \<Rightarrow> string" where
  "subject_link n s =
     (if nt_repo n = '''' then ''''
      else ''https://github.com/'' @ nt_repo n @ ''/'' @
        (if sub_type s = SubjectPR then ''pull'' else ''issues'') @ ''/'' @ dec (sub_number s))"

subsection \<open>Publishing one occurrence\<close>

text \<open>
  The key is taken before the publish and given back if it failed: three atomic steps, since
  the lock is not held across the publish.
\<close>

definition nt_reserve :: "string \<Rightarrow> notifier \<Rightarrow> bool \<times> notifier" where
  "nt_reserve key n =
     (if key \<in> set (nt_sent n) then (False, n) else (True, n\<lparr>nt_sent := key # nt_sent n\<rparr>))"

definition nt_give :: "string \<Rightarrow> notifier \<Rightarrow> notifier" where
  "nt_give key n = n\<lparr>nt_sent := filter (\<lambda>k. k \<noteq> key) (nt_sent n)\<rparr>"

definition nt_post :: "string \<Rightarrow> message \<Rightarrow> string option \<Rightarrow> notifier \<Rightarrow> string option \<times> notifier" where
  "nt_post key m result n =
     (let m = m\<lparr>ms_title := clean (ms_title m), ms_click := clean (ms_click m),
               ms_body := truncate (ms_body m)\<rparr> in
      case result of
        Some err \<Rightarrow> (Some err, nt_give key n)
      | None \<Rightarrow> (None, n\<lparr>nt_posted := nt_posted n @ [(key, m)]\<rparr>))"

definition nt_send :: "string \<Rightarrow> message \<Rightarrow> string option \<Rightarrow> notifier \<Rightarrow> string option \<times> notifier" where
  "nt_send key m result n =
     (let (fresh, n) = nt_reserve key n in
      if \<not> fresh then (None, n) else nt_post key m result n)"

subsection \<open>The four conditions\<close>

definition parked_key :: "job \<Rightarrow> string" where
  "parked_key j = ''parked:'' @ j_id j @ '':'' @ j_state j @ '':'' @ dec (j_attempts j)"

definition nt_parked :: "job \<Rightarrow> cause option \<Rightarrow> string option \<Rightarrow> notifier \<Rightarrow> string option \<times> notifier" where
  "nt_parked j why result n =
     (let link = subject_link n (j_subject j);
          body = j_id j @ '' is parked in state '' @ quoted (j_state j) @ '' after '' @
            dec (j_attempts j) @ '' attempt(s), on '' @ sub_type (j_subject j) @ '' #'' @
            dec (sub_number (j_subject j)) @ ''.'' @ para_text link @
            (case why of None \<Rightarrow> '''' | Some c \<Rightarrow> nl @ nl @ ca_text c) @
            nl @ nl @ ''It stays there until an operator moves it; nothing will pick it up.''
      in nt_send (parked_key j)
           \<lparr>ms_title = ''afk-agent parked '' @ j_id j, ms_tag = tag_parked, ms_body = body,
            ms_click = link\<rparr> result n)"

definition exhausted_key :: "style \<Rightarrow> window \<Rightarrow> string" where
  "exhausted_key st w = ''exhausted:'' @ w_name w @ '':'' @ fmt_time st (w_resets_at w)"

definition nt_exhausted :: "style \<Rightarrow> window \<Rightarrow> string option \<Rightarrow> notifier \<Rightarrow> string option \<times> notifier" where
  "nt_exhausted st w result n =
     (let body = fmt_window st w @ nl @ nl @
            (if is_zero (w_resets_at w)
             then ''New jobs are not starting. The provider reported no reset time, so the queue is looked at again each poll.''
             else ''New jobs are deferred until '' @ fmt_time st (w_resets_at w) @ ''.'') @
            nl @ ''Work already in flight is untouched, and `afk run` still works.''
      in nt_send (exhausted_key st w)
           \<lparr>ms_title = ''afk-agent: the '' @ w_name w @ '' budget is spent'', ms_tag = tag_exhausted,
            ms_body = body, ms_click = ''''\<rparr> result n)"

definition waived_key :: "style \<Rightarrow> waiver \<Rightarrow> string" where
  "waived_key st wa = ''waived:'' @ wv_window wa @ '':'' @ fmt_time st (Some (wv_until wa))"

definition nt_waived :: "style \<Rightarrow> waiver \<Rightarrow> string option \<Rightarrow> notifier \<Rightarrow> string option \<times> notifier" where
  "nt_waived st wa result n =
     (let body = ''The operator waived the '' @ wv_window wa @ '' window until '' @
            fmt_time st (Some (wv_until wa)) @ '', so a spent '' @ wv_window wa @
            '' window is not stopping work: new jobs are starting and spending the account's balance.'' @
            nl @ nl @ ''This needs no action. A spent '' @ wv_window wa @
            '' window defers work again once the waiver lapses.'' @
            nl @ nl @ ''Work already in flight is untouched, and `afk run` still works.''
      in nt_send (waived_key st wa)
           \<lparr>ms_title = ''afk-agent: the '' @ wv_window wa @ '' budget is waived'', ms_tag = tag_waived,
            ms_body = body, ms_click = ''''\<rparr> result n)"

definition tier_key :: "job \<Rightarrow> episode \<Rightarrow> string" where
  "tier_key j ep = ''tier:'' @ j_id j @ '':'' @ dec (ep_since ep)"

definition tier_message :: "style \<Rightarrow> job \<Rightarrow> episode \<Rightarrow> cause option \<Rightarrow> notifier \<Rightarrow> message" where
  "tier_message st j ep why n =
     (let link = subject_link n (j_subject j);
          body = j_id j @ '', on '' @ sub_type (j_subject j) @ '' #'' @ dec (sub_number (j_subject j)) @
            '', has run out of models '' @ dec (ep_times ep) @ '' times since '' @
            fmt_time st (Some (ep_since ep)) @ ''.'' @ para_text link @ nl @ nl @ ''It is deferred'' @
            (if is_zero (j_next j) then '''' else '' until '' @ fmt_time st (j_next j)) @
            '' and will try the tier again, and keeps doing so until a model answers. '' @
            (case Option.bind why ca_bound of
               Some bound \<Rightarrow> ''The last candidate's run was killed at its bound, --model-timeout ('' @ bound @
                 ''). If every run is, the bound is too short for the work, and the tier stays exhausted until --model-timeout is raised. ''
             | None \<Rightarrow> ''Every enrolled candidate failed transiently: the enrolment may name models the provider does not know, the provider is down, or every run is outlasting --model-timeout. '') @
            ''This is not repeated while the tier stays exhausted.'' @
            (case why of None \<Rightarrow> '''' | Some c \<Rightarrow> nl @ nl @ ca_text c)
      in \<lparr>ms_title = ''afk-agent: '' @ j_id j @ '' cannot reach a model'', ms_tag = tag_tier,
          ms_body = body, ms_click = link\<rparr>)"

definition nt_tier_exhausted ::
    "style \<Rightarrow> job \<Rightarrow> episode \<Rightarrow> cause option \<Rightarrow> string option \<Rightarrow> notifier \<Rightarrow> (bool \<times> string option) \<times> notifier" where
  "nt_tier_exhausted st j ep why result n =
     (if ep_told ep then ((True, None), n)
      else if ep_times ep < nt_tier_after n then ((False, None), n)
      else (case nt_send (tier_key j ep) (tier_message st j ep why n) result n of
          (Some err, n) \<Rightarrow> ((False, Some err), n)
        | (None, n) \<Rightarrow> ((True, None), n)))"

subsection \<open>What reaches the operator\<close>

datatype condition =
    Parked job "cause option"
  | Spent_window window
  | Waived_window waiver
  | Tier_exhausted job episode "cause option"

fun condition_key :: "style \<Rightarrow> condition \<Rightarrow> string" where
  "condition_key st (Parked j why) = parked_key j"
| "condition_key st (Spent_window w) = exhausted_key st w"
| "condition_key st (Waived_window wa) = waived_key st wa"
| "condition_key st (Tier_exhausted j ep why) = tier_key j ep"

fun publish :: "style \<Rightarrow> condition \<times> string option \<Rightarrow> notifier \<Rightarrow> notifier" where
  "publish st (Parked j why, r) n = snd (nt_parked j why r n)"
| "publish st (Spent_window w, r) n = snd (nt_exhausted st w r n)"
| "publish st (Waived_window wa, r) n = snd (nt_waived st wa r n)"
| "publish st (Tier_exhausted j ep why, r) n = snd (nt_tier_exhausted st j ep why r n)"

lemma cut_at_le: "cut_at s n \<le> n"
  by (induction n) auto

lemma cut_at_rune: "cut_at s n = 0 \<or> rune_start (s ! cut_at s n)"
  by (induction n) auto

lemma truncate_length: "length (truncate s) \<le> body_limit + 12"
  using cut_at_le [of s body_limit] by (simp add: truncate_def nl_def)

lemma clean_no_newline: "CHR 0x0A \<notin> set (clean s) \<and> CHR 0x0D \<notin> set (clean s)"
  by (auto simp: clean_def clean_char_def split: if_splits)

text \<open>
  A notifier in order: every occurrence posted is still taken, none was posted twice, and
  every message was fit to be posted.
\<close>

definition sendable :: "message \<Rightarrow> bool" where
  "sendable m \<longleftrightarrow> length (ms_body m) \<le> 4096 \<and> CHR 0x0A \<notin> set (ms_title m) \<and> CHR 0x0A \<notin> set (ms_click m)"

definition notifier_ok :: "notifier \<Rightarrow> bool" where
  "notifier_ok n \<longleftrightarrow> distinct (map fst (nt_posted n)) \<and> fst ` set (nt_posted n) \<subseteq> set (nt_sent n) \<and>
     (\<forall>m\<in>snd ` set (nt_posted n). sendable m)"

lemma nt_send_eq:
  "nt_send key m r n =
     (if key \<in> set (nt_sent n) then (None, n)
      else (case r of
          Some err \<Rightarrow> (Some err, n\<lparr>nt_sent := filter (\<lambda>k. k \<noteq> key) (nt_sent n)\<rparr>)
        | None \<Rightarrow> (None, n\<lparr>nt_sent := key # nt_sent n, nt_posted := nt_posted n @
            [(key, m\<lparr>ms_title := clean (ms_title m), ms_click := clean (ms_click m),
                     ms_body := truncate (ms_body m)\<rparr>)]\<rparr>)))"
  by (simp add: nt_send_def nt_reserve_def nt_post_def nt_give_def Let_def split: option.split)

lemma nt_send_ok: "notifier_ok n \<Longrightarrow> notifier_ok (snd (nt_send key m r n))"
proof -
  assume n: "notifier_ok n"
  have "sendable (m\<lparr>ms_title := clean (ms_title m), ms_click := clean (ms_click m),
      ms_body := truncate (ms_body m)\<rparr>)"
    using truncate_length [of "ms_body m"] by (simp add: sendable_def clean_no_newline body_limit_def)
  with n show ?thesis
    by (auto simp: nt_send_eq notifier_ok_def split: option.split)
qed

lemma nt_send_keys:
  assumes "set (nt_sent n) = fst ` set (nt_posted n)"
  shows "set (nt_sent (snd (nt_send key m r n))) = fst ` set (nt_posted (snd (nt_send key m r n)))"
proof -
  have "filter (\<lambda>k. k \<noteq> key) (nt_sent n) = nt_sent n" if "key \<notin> set (nt_sent n)"
    using that by (auto simp: filter_id_conv)
  with assms show ?thesis by (simp add: nt_send_eq split: option.split)
qed

lemma nt_tier_exhausted_notifier:
  "snd (nt_tier_exhausted st j ep why r n) =
     (if ep_told ep \<or> ep_times ep < nt_tier_after n then n
      else snd (nt_send (tier_key j ep) (tier_message st j ep why n) r n))"
  by (simp add: nt_tier_exhausted_def split: prod.split option.split)

lemma publish_eq:
  "publish st (c, r) n = n \<or> (\<exists>m. publish st (c, r) n = snd (nt_send (condition_key st c) m r n))"
  by (cases c) (auto simp: nt_parked_def nt_exhausted_def nt_waived_def nt_tier_exhausted_notifier Let_def)

lemma publish_ok: "notifier_ok n \<Longrightarrow> notifier_ok (publish st x n)"
  using publish_eq [of st "fst x" "snd x" n] nt_send_ok by (cases x) auto

lemma publish_all_ok: "notifier_ok n \<Longrightarrow> notifier_ok (fold (publish st) xs n)"
  by (induction xs arbitrary: n) (auto simp: publish_ok)

definition fresh_notifier :: "string \<Rightarrow> int \<Rightarrow> notifier" where
  "fresh_notifier repo tier_after =
     \<lparr>nt_repo = repo, nt_tier_after = tier_after, nt_sent = [], nt_posted = []\<rparr>"

text \<open>Whatever conditions are offered, however often and whichever posts fail, each occurrence
  reaches the operator at most once in the life of a process, every message fits under the
  server's limit with a title and a link that are single lines, and an occurrence whose post
  succeeded stays suppressed while one whose post failed is offered again.\<close>

theorem each_occurrence_once:
  "let n = fold (publish st) xs (fresh_notifier repo tier_after) in
     distinct (map fst (nt_posted n)) \<and>
     (\<forall>m\<in>snd ` set (nt_posted n). sendable m) \<and>
     fst ` set (nt_posted n) = set (nt_sent n)"
proof -
  have step: "set (nt_sent (publish st x n)) = fst ` set (nt_posted (publish st x n))"
    if "set (nt_sent n) = fst ` set (nt_posted n)" for x n
    using publish_eq [of st "fst x" "snd x" n] nt_send_keys [OF that] that by (metis prod.collapse)
  have "set (nt_sent n) = fst ` set (nt_posted n) \<Longrightarrow>
      set (nt_sent (fold (publish st) xs n)) = fst ` set (nt_posted (fold (publish st) xs n))" for n
    using step by (induction xs arbitrary: n) simp_all
  moreover have "notifier_ok (fold (publish st) xs (fresh_notifier repo tier_after))"
    by (rule publish_all_ok) (simp add: notifier_ok_def fresh_notifier_def)
  ultimately show ?thesis by (simp add: Let_def notifier_ok_def fresh_notifier_def)
qed

theorem each_occurrence_once_witness:
  "let n = fold (publish \<lparr>fmt_time = (\<lambda>_. ''t''), fmt_window = w_name\<rparr>)
     [(Parked (scan_job example_row) None, Some ''503''), (Parked (scan_job example_row) None, None),
      (Parked (scan_job example_row) None, None)] (fresh_notifier ''o/r'' 3)
   in length (nt_posted n) = 1 \<and> distinct (map fst (nt_posted n))"
proof -
  let ?n = "fold (publish \<lparr>fmt_time = (\<lambda>_. ''t''), fmt_window = w_name\<rparr>)
     [(Parked (scan_job example_row) None, Some ''503''), (Parked (scan_job example_row) None, None),
      (Parked (scan_job example_row) None, None)] (fresh_notifier ''o/r'' 3)"
  have "length (nt_posted ?n) = 1"
    by (simp add: nt_parked_def nt_send_eq fresh_notifier_def Let_def)
  then show ?thesis
    using each_occurrence_once [of "\<lparr>fmt_time = (\<lambda>_. ''t''), fmt_window = w_name\<rparr>"
        "[(Parked (scan_job example_row) None, Some ''503''), (Parked (scan_job example_row) None, None),
      (Parked (scan_job example_row) None, None)]" "''o/r''" 3]
    unfolding Let_def by blast
qed

text \<open>
  Two callers on one occurrence. The second finds the key taken and reports the episode told;
  the first one's post then fails and gives the key back, so nothing was published, while the
  caller of the second records the episode as told.
\<close>

theorem told_without_publishing:
  assumes "key = tier_key j ep" and "\<not> ep_told ep" and "nt_tier_after n \<le> ep_times ep"
    and "nt_reserve key n = (True, n1)"
    and "nt_tier_exhausted st j ep why r n1 = ((told, err), n2)"
    and "nt_post key m (Some e) n2 = (err', n3)"
  shows "told \<and> nt_posted n3 = nt_posted n \<and> key \<notin> set (nt_sent n3)"
  using assms
  by (auto simp: nt_tier_exhausted_def nt_reserve_def nt_send_eq nt_post_def nt_give_def Let_def
      split: if_splits)

end
