(* ===== verification/Tokens.thy ===== *)
theory Tokens
  imports Registry
begin

text \<open>
  Resource tokens, \<^verbatim>\<open>internal/transition/tokens.go\<close>. A pool is each name's capacity and how
  many of its permits are out. A caller of \<^verbatim>\<open>Acquire\<close> is the names it holds, in the order
  taken, and those it still wants, sorted; one attempt at its channel is \<open>attempt\<close>, and the
  pool with all its callers is a step relation, since which caller moves next is the
  scheduler's. \<open>PUnknown\<close> and \<open>PCancelled\<close> are the two errors, both after giving back
  everything held.
\<close>

subsection \<open>The pool\<close>

record pool =
  p_capacity :: "string \<rightharpoonup> nat"
  p_out :: "string \<Rightarrow> nat"

datatype pool_error = TokenNoName | TokenBadCapacity string int

definition new_pool :: "(string \<times> int) list \<Rightarrow> pool_error + pool" where
  "new_pool capacity =
     fold (\<lambda>(name, n) acc.
       (case acc of Inl e \<Rightarrow> Inl e
        | Inr p \<Rightarrow>
            if name = '''' then Inl TokenNoName
            else if n < 1 then Inl (TokenBadCapacity name n)
            else Inr (p\<lparr>p_capacity := (p_capacity p)(name \<mapsto> nat n)\<rparr>)))
       capacity (Inr \<lparr>p_capacity = Map.empty, p_out = (\<lambda>_. 0)\<rparr>)"

definition pool_known :: "pool \<Rightarrow> string list \<Rightarrow> string option" where
  "pool_known p names = find (\<lambda>name. p_capacity p name = None) names"

definition put_back :: "pool \<Rightarrow> string list \<Rightarrow> pool" where
  "put_back p held = p\<lparr>p_out := (\<lambda>n. p_out p n - count_list held n)\<rparr>"

subsection \<open>One caller\<close>

datatype phase = Waiting "string list" "string list" | Running "string list" | Ended

datatype attempt_result =
    PRuns pool phase
  | PTook pool phase
  | PBlocked
  | PUnknown string pool

definition start_phase :: "string list \<Rightarrow> phase" where
  "start_phase names = Waiting [] (sort names)"

fun attempt :: "pool \<Rightarrow> phase \<Rightarrow> attempt_result" where
  "attempt p (Waiting held []) = PRuns p (Running held)"
| "attempt p (Waiting held (n # ns)) =
     (case p_capacity p n of
        None \<Rightarrow> PUnknown n (put_back p held)
      | Some c \<Rightarrow>
          if p_out p n < c
          then PTook (p\<lparr>p_out := (p_out p)(n := p_out p n + 1)\<rparr>) (Waiting (held @ [n]) ns)
          else PBlocked)"
| "attempt p ph = PBlocked"

fun held_by :: "phase \<Rightarrow> string list" where
  "held_by (Waiting held todo) = held"
| "held_by (Running held) = held"
| "held_by Ended = []"

subsection \<open>All the callers\<close>

type_synonym callers = "nat \<rightharpoonup> phase"

inductive pool_step :: "pool \<times> callers \<Rightarrow> pool \<times> callers \<Rightarrow> bool" where
  come: "cs i = None \<Longrightarrow> distinct names \<Longrightarrow> pool_step (p, cs) (p, cs(i \<mapsto> start_phase names))"
| took: "cs i = Some ph \<Longrightarrow> attempt p ph = PTook p' ph' \<Longrightarrow> pool_step (p, cs) (p', cs(i \<mapsto> ph'))"
| runs: "cs i = Some ph \<Longrightarrow> attempt p ph = PRuns p' ph' \<Longrightarrow> pool_step (p, cs) (p', cs(i \<mapsto> ph'))"
| unknown: "cs i = Some ph \<Longrightarrow> attempt p ph = PUnknown n p' \<Longrightarrow> pool_step (p, cs) (p', cs(i \<mapsto> Ended))"
| cancelled: "cs i = Some (Waiting held todo) \<Longrightarrow> todo \<noteq> [] \<Longrightarrow>
    pool_step (p, cs) (put_back p held, cs(i \<mapsto> Ended))"
| finished: "cs i = Some (Running held) \<Longrightarrow> pool_step (p, cs) (put_back p held, cs(i \<mapsto> Ended))"

inductive pool_reachable :: "pool \<Rightarrow> pool \<times> callers \<Rightarrow> bool" for p0 where
  start: "pool_reachable p0 (p0, Map.empty)"
| step: "pool_reachable p0 s \<Longrightarrow> pool_step s s' \<Longrightarrow> pool_reachable p0 s'"

subsection \<open>The invariant\<close>

definition holders :: "callers \<Rightarrow> string \<Rightarrow> nat set" where
  "holders cs n = {i. \<exists>ph. cs i = Some ph \<and> n \<in> set (held_by ph)}"

fun phase_ok :: "phase \<Rightarrow> bool" where
  "phase_ok (Waiting held todo) \<longleftrightarrow> distinct (held @ todo) \<and> sorted (held @ todo)"
| "phase_ok (Running held) \<longleftrightarrow> distinct held"
| "phase_ok Ended \<longleftrightarrow> True"

definition pool_ok :: "pool \<times> callers \<Rightarrow> bool" where
  "pool_ok s \<longleftrightarrow> (case s of (p, cs) \<Rightarrow>
     finite (dom cs) \<and> (\<forall>i ph. cs i = Some ph \<longrightarrow> phase_ok ph \<and> set (held_by ph) \<subseteq> dom (p_capacity p)) \<and>
     (\<forall>n. p_out p n = card (holders cs n)) \<and>
     (\<forall>n c. p_capacity p n = Some c \<longrightarrow> p_out p n \<le> c))"

lemma holders_finite: "finite (dom cs) \<Longrightarrow> finite (holders cs n)"
  by (rule finite_subset [of _ "dom cs"]) (auto simp: holders_def)

lemma holders_upd:
  "holders (cs(i \<mapsto> ph)) n =
     (if n \<in> set (held_by ph) then insert i (holders cs n) else holders cs n - {i})"
  by (auto simp: holders_def)

lemma holders_member: "cs i = Some ph \<Longrightarrow> i \<in> holders cs n \<longleftrightarrow> n \<in> set (held_by ph)"
  by (auto simp: holders_def)

lemma holders_absent: "cs i = None \<Longrightarrow> i \<notin> holders cs n"
  by (auto simp: holders_def)

lemma phase_ok_held: "phase_ok ph \<Longrightarrow> distinct (held_by ph)"
  by (cases ph) auto

lemma count_distinct: "distinct xs \<Longrightarrow> count_list xs x = (if x \<in> set xs then 1 else 0)"
  by (induction xs) auto

text \<open>Whoever ends gives back exactly what it held.\<close>

lemma end_ok:
  assumes "pool_ok (p, cs)" and "cs i = Some ph"
  shows "pool_ok (put_back p (held_by ph), cs(i \<mapsto> Ended))"
proof -
  have fin: "finite (holders cs n)" for n
    using assms(1) by (auto simp: pool_ok_def holders_finite)
  have d: "distinct (held_by ph)" using assms by (auto simp: pool_ok_def phase_ok_held)
  have "p_out p n - count_list (held_by ph) n = card (holders (cs(i \<mapsto> Ended)) n)" for n
    using assms fin [of n] d
    by (cases "n \<in> set (held_by ph)")
      (auto simp: pool_ok_def holders_upd holders_member count_distinct
        card_Diff_singleton_if)
  with assms show ?thesis
    by (auto simp: pool_ok_def put_back_def dest: spec)
      (metis diff_le_self le_trans)+
qed

lemma took_ok:
  assumes ok: "pool_ok (p, cs)" and i: "cs i = Some ph" and a: "attempt p ph = PTook p' ph'"
  shows "pool_ok (p', cs(i \<mapsto> ph'))"
proof -
  obtain held n ns where ph: "ph = Waiting held (n # ns)"
    using a by (cases "(p, ph)" rule: attempt.cases) (auto split: option.splits)
  obtain c where c: "p_capacity p n = Some c" "p_out p n < c"
    and p': "p' = p\<lparr>p_out := (p_out p)(n := p_out p n + 1)\<rparr>" "ph' = Waiting (held @ [n]) ns"
    using a ph by (auto split: option.splits if_splits)
  have fin: "finite (holders cs m)" for m
    using ok by (auto simp: pool_ok_def holders_finite)
  have pok: "phase_ok ph" "set (held_by ph) \<subseteq> dom (p_capacity p)" using ok i by (auto simp: pool_ok_def)
  have "i \<notin> holders cs n" using pok i by (simp add: holders_member ph)
  moreover have "m \<noteq> n \<Longrightarrow> holders (cs(i \<mapsto> ph')) m = holders cs m" for m
    using i by (auto simp: holders_upd holders_member p' ph)
  moreover have "holders (cs(i \<mapsto> ph')) n = insert i (holders cs n)"
    by (simp add: holders_upd p')
  ultimately have out: "\<forall>m. p_out p' m = card (holders (cs(i \<mapsto> ph')) m)"
    using ok fin by (simp add: pool_ok_def p')
  have le: "\<forall>m k. p_capacity p' m = Some k \<longrightarrow> p_out p' m \<le> k"
    using ok c by (auto simp: pool_ok_def p')
  have phs: "\<forall>j q. (cs(i \<mapsto> ph')) j = Some q \<longrightarrow> phase_ok q \<and> set (held_by q) \<subseteq> dom (p_capacity p')"
    using ok pok c by (auto simp: pool_ok_def p' ph)
  show ?thesis
    using ok out le phs by (simp add: pool_ok_def del: fun_upd_apply)
qed

lemma runs_ok:
  assumes ok: "pool_ok (p, cs)" and i: "cs i = Some ph" and a: "attempt p ph = PRuns p' ph'"
  shows "pool_ok (p', cs(i \<mapsto> ph'))"
proof -
  obtain held where ph: "ph = Waiting held []" "p' = p" "ph' = Running held"
    using a by (cases "(p, ph)" rule: attempt.cases) (auto split: option.splits if_splits)
  have "holders (cs(i \<mapsto> ph')) n = holders cs n" for n
    using i by (auto simp: holders_upd holders_member ph)
  moreover have "phase_ok ph \<and> set (held_by ph) \<subseteq> dom (p_capacity p)"
    using ok i by (simp add: pool_ok_def)
  ultimately show ?thesis using ok by (auto simp: pool_ok_def ph)
qed

lemma unknown_put_back: "attempt p ph = PUnknown n p' \<Longrightarrow> p' = put_back p (held_by ph)"
  by (cases "(p, ph)" rule: attempt.cases) (auto split: option.splits if_splits)

lemma come_ok:
  assumes "pool_ok (p, cs)" and "cs i = None" and "distinct names"
  shows "pool_ok (p, cs(i \<mapsto> start_phase names))"
  using assms
  by (auto simp: pool_ok_def start_phase_def holders_upd holders_absent)

lemma pool_step_ok: "pool_step s s' \<Longrightarrow> pool_ok s \<Longrightarrow> pool_ok s'"
proof (induction rule: pool_step.induct)
  case (unknown cs i ph p n p')
  then show ?case using end_ok unknown_put_back by metis
next
  case (cancelled cs i held todo p)
  then show ?case using end_ok [of p cs i "Waiting held todo"] by simp
next
  case (finished cs i held p)
  then show ?case using end_ok [of p cs i "Running held"] by simp
qed (simp_all add: come_ok took_ok runs_ok)

definition fresh_pool :: "pool \<Rightarrow> bool" where
  "fresh_pool p \<longleftrightarrow> (\<forall>n. p_out p n = 0) \<and> (\<forall>n c. p_capacity p n = Some c \<longrightarrow> 1 \<le> c)"

lemma reachable_ok: "pool_reachable p0 s \<Longrightarrow> fresh_pool p0 \<Longrightarrow> pool_ok s"
proof (induction rule: pool_reachable.induct)
  case start
  then show ?case by (simp add: pool_ok_def fresh_pool_def holders_def)
next
  case (step s s')
  then show ?case by (simp add: pool_step_ok)
qed

lemma step_capacity: "pool_step s s' \<Longrightarrow> p_capacity (fst s') = p_capacity (fst s)"
proof (induction rule: pool_step.induct)
  case (took cs i ph p p' ph')
  then show ?case
    by (cases "(p, ph)" rule: attempt.cases) (auto split: option.splits if_splits)
next
  case (runs cs i ph p p' ph')
  then show ?case
    by (cases "(p, ph)" rule: attempt.cases) (auto split: option.splits if_splits)
next
  case (unknown cs i ph p n p')
  then show ?case by (auto dest!: unknown_put_back simp: put_back_def)
qed (simp_all add: put_back_def)

lemma reachable_capacity: "pool_reachable p0 s \<Longrightarrow> p_capacity (fst s) = p_capacity p0"
  by (induction rule: pool_reachable.induct) (simp_all add: step_capacity)

subsection \<open>Properties\<close>

text \<open>C16: A token is never held by more callers than its capacity: in every reachable state of any
  number of callers coming, taking, giving up and finishing in any order, the permits out for a
  name are exactly the callers holding it, and never more than the capacity configured.\<close>

theorem capacity_respected:
  assumes "fresh_pool p0" and "pool_reachable p0 (p, cs)" and "p_capacity p0 n = Some c"
  shows "card (holders cs n) = p_out p n \<and> p_out p n \<le> c"
  using reachable_ok [OF assms(2,1)] reachable_capacity [OF assms(2)] assms(3)
  by (auto simp: pool_ok_def)

definition example_pool :: pool where
  "example_pool = \<lparr>p_capacity = [''heavy-build'' \<mapsto> 1, ''net'' \<mapsto> 2], p_out = (\<lambda>_. 0)\<rparr>"

lemma example_pool_new: "new_pool [(''heavy-build'', 1), (''net'', 2)] = Inr example_pool"
  by (simp add: new_pool_def example_pool_def)

lemma example_pool_fresh: "fresh_pool example_pool"
  by (auto simp: fresh_pool_def example_pool_def)

theorem capacity_respected_witness:
  "card (holders [0 \<mapsto> Waiting [] [''heavy-build'']] ''heavy-build'') = p_out example_pool ''heavy-build''"
proof -
  have "pool_step (example_pool, Map.empty) (example_pool, [0 \<mapsto> start_phase [''heavy-build'']])"
    by (rule pool_step.come) simp_all
  then have r: "pool_reachable example_pool (example_pool, [0 \<mapsto> Waiting [] [''heavy-build'']])"
    by (auto simp: start_phase_def intro: pool_reachable.intros)
  show ?thesis
    using capacity_respected [OF example_pool_fresh r, of "''heavy-build''" 1]
    by (simp add: example_pool_def)
qed

text \<open>C17: Acquiring in name order cannot deadlock: in any reachable state where some caller is
  waiting for a token it knows and no caller is running, some waiting caller can take its
  next token at once.\<close>

theorem acquire_never_deadlocks:
  assumes "fresh_pool p0" and "pool_reachable p0 (p, cs)"
    and waiting: "cs i = Some (Waiting held todo)" and "todo \<noteq> []"
    and known: "\<forall>i held todo. cs i = Some (Waiting held todo) \<longrightarrow> set todo \<subseteq> dom (p_capacity p)"
    and idle: "\<forall>i held. cs i \<noteq> Some (Running held)"
    and blocked: "\<forall>i held. cs i \<noteq> Some (Waiting held [])"
  shows "\<exists>i ph p' ph'. cs i = Some ph \<and> attempt p ph = PTook p' ph'"
proof (rule ccontr)
  assume stuck: "\<nexists>i ph p' ph'. cs i = Some ph \<and> attempt p ph = PTook p' ph'"
  have ok: "pool_ok (p, cs)" using reachable_ok [OF assms(2,1)] .
  have cap: "p_capacity p = p_capacity p0" using reachable_capacity [OF assms(2)] by simp
  let ?W = "{n. \<exists>i held ns. cs i = Some (Waiting held (n # ns))}"
  have fin: "finite ?W"
  proof (rule finite_subset)
    show "?W \<subseteq> (\<lambda>i. case the (cs i) of Waiting held (n # ns) \<Rightarrow> n | _ \<Rightarrow> '''') ` dom cs"
      by (force simp: image_iff dom_def)
    show "finite ((\<lambda>i. case the (cs i) of Waiting held (n # ns) \<Rightarrow> n | _ \<Rightarrow> '''') ` dom cs)"
      using ok by (simp add: pool_ok_def)
  qed
  from waiting \<open>todo \<noteq> []\<close> have ne: "?W \<noteq> {}" by (cases todo) auto
  define m where "m = Max ?W"
  from fin ne have "m \<in> ?W" unfolding m_def by (rule Max_in)
  then obtain j h ns where j: "cs j = Some (Waiting h (m # ns))" by blast
  with known obtain c where c: "p_capacity p m = Some c" by fastforce
  have "c \<le> p_out p m"
  proof (rule ccontr)
    assume "\<not> c \<le> p_out p m"
    then have "\<exists>p' ph'. attempt p (Waiting h (m # ns)) = PTook p' ph'" by (simp add: c)
    with stuck j show False by blast
  qed
  moreover have "1 \<le> c" using assms(1) c cap by (simp add: fresh_pool_def)
  ultimately have "card (holders cs m) \<noteq> 0" using ok by (auto simp: pool_ok_def)
  then obtain v ph where v: "cs v = Some ph" "m \<in> set (held_by ph)"
    by (auto simp: holders_def card_eq_0_iff)
  then obtain h' t' where ph: "ph = Waiting h' t'" "t' \<noteq> []"
    using idle blocked by (cases ph) fastforce+
  then obtain n' ts' where t': "t' = n' # ts'" by (cases t') auto
  have "phase_ok ph" using ok v(1) by (simp add: pool_ok_def)
  then have "m < n'" using v(2) ph t' by (auto simp: sorted_append order.strict_iff_order)
  moreover have "n' \<le> m"
    unfolding m_def using fin v(1) ph t' by (intro Max_ge) auto
  ultimately show False by simp
qed

theorem acquire_never_deadlocks_witness:
  "\<exists>i ph p' ph'. [0 \<mapsto> Waiting [] [''heavy-build'', ''net'']] i = Some ph \<and>
     attempt example_pool ph = PTook p' ph'"
proof -
  have "pool_step (example_pool, Map.empty) (example_pool, [0 \<mapsto> start_phase [''net'', ''heavy-build'']])"
    by (rule pool_step.come) simp_all
  moreover have "start_phase [''net'', ''heavy-build''] = Waiting [] [''heavy-build'', ''net'']"
    by (simp add: start_phase_def)
  ultimately have r: "pool_reachable example_pool
      (example_pool, [0 \<mapsto> Waiting [] [''heavy-build'', ''net'']])"
    by (auto intro: pool_reachable.intros)
  show ?thesis
    using acquire_never_deadlocks [OF example_pool_fresh r,
        of 0 "[]" "[''heavy-build'', ''net'']"]
    by (auto simp: example_pool_def split: if_splits)
qed

end
