(* ===== verification/Dispatch.thy ===== *)
theory Dispatch
  imports Interleaving Notify Tokens
begin

text \<open>
  The worker pool, \<^verbatim>\<open>internal/dispatch/dispatch.go\<close>. What a pool keeps between passes is the
  store, the budget observer and the notifier; one pass of one worker, the body of
  \<^verbatim>\<open>Dispatcher.work\<close>, is one function of them. What its environment decides in a pass is
  \<open>pass_env\<close>: the clock at each reading, what the usage endpoint answers, whether the resource
  tokens came free in time, and how each post ends. Log lines, sleeps and the cancellation of
  the pool are left out.
\<close>

subsection \<open>The dispatcher\<close>

record dispatcher =
  dp_store :: bool
  dp_registry :: "registry option"
  dp_pool :: "pool option"
  dp_holder :: string
  dp_workers :: int
  dp_lease_ttl :: int
  dp_poll :: int
  dp_token_wait :: int
  dp_backoff :: "(int \<Rightarrow> gotime \<times> bool) option"
  dp_style :: style
  dp_cause :: "run_error \<Rightarrow> cause"
  dp_tier_cause :: "string \<Rightarrow> cause"

record dsys =
  ds_world :: world
  ds_observer :: "observer option"
  ds_notifier :: "notifier option"

record pass_env =
  pe_due_at :: instant
  pe_observe_at :: instant
  pe_admit_at :: instant
  pe_usage :: "string + budget_state"
  pe_tokens_free :: bool
  pe_run_at :: instant
  pe_commit_at :: instant
  pe_since :: instant
  pe_post :: "condition \<Rightarrow> string option"

datatype dispatch_error =
    NoStore
  | NoRegistry
  | NoPool
  | NoHolder
  | NoWorkers int
  | NoLease
  | NoPoll
  | NoTokenWait
  | TokenWaitTooLong int int
  | NoMaxAge
  | NoTierAfter
  | UnknownToken string string

fun unknown_tokens :: "pool \<Rightarrow> transition list \<Rightarrow> dispatch_error option" where
  "unknown_tokens p [] = None"
| "unknown_tokens p (t # ts) =
     (case pool_known p (t_tokens t) of
        Some tok \<Rightarrow> Some (UnknownToken (t_name t) tok) | None \<Rightarrow> unknown_tokens p ts)"

definition dp_validate :: "dispatcher \<Rightarrow> observer option \<Rightarrow> notifier option \<Rightarrow> dispatch_error option" where
  "dp_validate d ob nt =
     (if \<not> dp_store d then Some NoStore
      else (case dp_registry d of None \<Rightarrow> Some NoRegistry
      | Some reg \<Rightarrow> (case dp_pool d of None \<Rightarrow> Some NoPool
      | Some p \<Rightarrow>
          if dp_holder d = '''' then Some NoHolder
          else if dp_workers d < 1 then Some (NoWorkers (dp_workers d))
          else if dp_lease_ttl d \<le> 0 then Some NoLease
          else if dp_poll d \<le> 0 then Some NoPoll
          else if dp_token_wait d \<le> 0 then Some NoTokenWait
          else if dp_lease_ttl d \<le> dp_token_wait d
            then Some (TokenWaitTooLong (dp_token_wait d) (dp_lease_ttl d))
          else if (case ob of None \<Rightarrow> False | Some ob \<Rightarrow> ob_max_age ob \<le> 0) then Some NoMaxAge
          else if (case nt of None \<Rightarrow> False | Some nt \<Rightarrow> nt_tier_after nt < 1) then Some NoTierAfter
          else unknown_tokens p (registry_all reg))))"

definition worker_name :: "dispatcher \<Rightarrow> int \<Rightarrow> string" where
  "worker_name d i = dp_holder d @ ''/'' @ dec i"

definition worker_runner :: "dispatcher \<Rightarrow> registry \<Rightarrow> string \<Rightarrow> runner" where
  "worker_runner d reg holder =
     \<lparr>rn_registry = reg, rn_holder = holder, rn_ttl = dp_lease_ttl d, rn_backoff = dp_backoff d\<rparr>"

subsection \<open>Giving a job back\<close>

definition dp_call :: "'a store_op \<Rightarrow> dsys \<Rightarrow> (store_error + 'a) \<times> dsys" where
  "dp_call f s = (let (r, w) = call f (ds_world s) in (r, s\<lparr>ds_world := w\<rparr>))"

definition dp_release :: "string \<Rightarrow> job \<Rightarrow> dsys \<Rightarrow> dsys" where
  "dp_release holder j s = snd (dp_call (release (j_id j) holder) s)"

definition reschedule_commit :: "string \<Rightarrow> job \<Rightarrow> gotime \<Rightarrow> commit_rec" where
  "reschedule_commit holder j at_time =
     \<lparr>c_job = j_id j, c_holder = holder, c_state = j_state j, c_attempts = j_attempts j,
      c_stays = j_stays j, c_next = at_time, c_keys = [], c_release = True,
      c_lease_until = None, c_end_episode = False\<rparr>"

definition dp_reschedule :: "string \<Rightarrow> job \<Rightarrow> gotime \<Rightarrow> dsys \<Rightarrow> bool \<times> dsys" where
  "dp_reschedule holder j at_time s =
     (case dp_call (commit (reschedule_commit holder j at_time)) s of
        (Inl e, s) \<Rightarrow> (False, s) | (Inr _, s) \<Rightarrow> (True, s))"

definition dp_park :: "string \<Rightarrow> job \<Rightarrow> dsys \<Rightarrow> bool \<times> dsys" where
  "dp_park holder j s = dp_reschedule holder j None s"

definition dp_notify :: "dispatcher \<Rightarrow> pass_env \<Rightarrow> condition \<Rightarrow> dsys \<Rightarrow> dsys" where
  "dp_notify d env c s =
     (case ds_notifier s of None \<Rightarrow> s
      | Some n \<Rightarrow> s\<lparr>ds_notifier := Some (publish (dp_style d) (c, pe_post env c) n)\<rparr>)"

subsection \<open>Episodes of an exhausted tier\<close>

definition dp_exhausted :: "dispatcher \<Rightarrow> pass_env \<Rightarrow> outcome \<Rightarrow> dsys \<Rightarrow> dsys" where
  "dp_exhausted d env out s =
     (case ds_notifier s of None \<Rightarrow> s
      | Some n \<Rightarrow>
          if o_transition out = '''' then s
          else let jid = j_id (o_job out) in
          (case o_exhausted out of
             None \<Rightarrow>
               if o_parked out then snd (dp_call (end_episode jid) s)
               else snd (dp_call (leave_episode jid (o_to out)) s)
           | Some what \<Rightarrow>
               (case dp_call (count_episode jid
                   \<lparr>ep_running = o_from out, ep_deferred = o_to out, ep_since = pe_since env,
                    ep_times = 0, ep_told = False\<rparr>) s of
                  (Inl e, s) \<Rightarrow> s
                | (Inr ep, s) \<Rightarrow>
                    if ep_told ep then s
                    else let c = Tier_exhausted (o_job out) ep (Some (dp_tier_cause d what));
                             ((told, err), n) = nt_tier_exhausted (dp_style d) (o_job out) ep
                               (Some (dp_tier_cause d what)) (pe_post env c) n;
                             s = s\<lparr>ds_notifier := Some n\<rparr>
                         in if told then snd (dp_call (told_episode jid (ep_since ep)) s) else s)))"

subsection \<open>Admission and one dispatch\<close>

definition dp_admit :: "dispatcher \<Rightarrow> pass_env \<Rightarrow> string \<Rightarrow> job \<Rightarrow> dsys \<Rightarrow> bool \<times> dsys" where
  "dp_admit d env holder j s =
     (case ds_observer s of None \<Rightarrow> (True, s)
      | Some ob \<Rightarrow>
          let ((adm, err), ob) = observer_admit ob (pe_observe_at env) (pe_admit_at env) (pe_usage env);
              s = s\<lparr>ds_observer := Some ob\<rparr>
          in if starts adm
             then (True, fold (\<lambda>wa. dp_notify d env (Waived_window wa)) (ad_waived adm) s)
             else
               let s = (if window_limited (ad_window adm)
                        then dp_notify d env (Spent_window (ad_window adm)) s else s)
               in if ad_decision adm = Defer
                  then (False, snd (dp_reschedule holder j (ad_until adm) s))
                  else (False, dp_release holder j s))"

definition no_transition_cause :: "string \<Rightarrow> cause" where
  "no_transition_cause st = \<lparr>ca_text = ''no transition runs from state '' @ quoted st, ca_bound = None\<rparr>"

definition dp_dispatch :: "dispatcher \<Rightarrow> pass_env \<Rightarrow> registry \<Rightarrow> string \<Rightarrow> job \<Rightarrow> dsys \<Rightarrow> dsys" where
  "dp_dispatch d env reg holder j s =
     (case registry_next reg (j_kind j) (j_state j) of
        None \<Rightarrow>
          (let (ok, s) = dp_park holder j s in
           if ok then dp_notify d env (Parked j (Some (no_transition_cause (j_state j)))) s else s)
      | Some t \<Rightarrow>
          if t_tokens t \<noteq> [] \<and> \<not> pe_tokens_free env then dp_release holder j s
          else
            let (out, err, w) = run (worker_runner d reg holder) (t_name t) (j_id j)
                                  (pe_run_at env) (pe_commit_at env) (ds_world s);
                s = s\<lparr>ds_world := w\<rparr>;
                s = (case err of None \<Rightarrow> s
                     | Some e \<Rightarrow>
                         if o_parked out then dp_notify d env (Parked (o_job out) (Some (dp_cause d e))) s
                         else s)
            in dp_exhausted d env out s)"

definition dp_pass :: "dispatcher \<Rightarrow> pass_env \<Rightarrow> registry \<Rightarrow> string \<Rightarrow> dsys \<Rightarrow> dsys" where
  "dp_pass d env reg holder s =
     (case dp_call (due holder (pe_due_at env) (dp_lease_ttl d)) s of
        (Inl e, s) \<Rightarrow> s
      | (Inr None, s) \<Rightarrow> s
      | (Inr (Some j), s) \<Rightarrow>
          let (admitted, s) = dp_admit d env holder j s in
          if \<not> admitted then s else dp_dispatch d env reg holder j s)"

end
