(* ===== verification/Dispatch_Properties.thy ===== *)
theory Dispatch_Properties
  imports Dispatch
begin

text \<open>
  What one pass of a worker does to the job it took, what starting the pool has already
  checked, and what an episode of an exhausted tier tells the operator.
\<close>

subsection \<open>The store through a dispatcher\<close>

definition ds_db :: "dsys \<Rightarrow> db" where
  "ds_db s = w_db (ds_world s)"

definition quiet_world :: "dsys \<Rightarrow> bool" where
  "quiet_world s \<longleftrightarrow> w_faults (ds_world s) = []"

lemma dp_call_nf:
  "quiet_world s \<Longrightarrow> dp_call f s =
     (fst (f (ds_db s)), s\<lparr>ds_world := (ds_world s)\<lparr>w_db := snd (f (ds_db s))\<rparr>\<rparr>)"
  by (simp add: dp_call_def quiet_world_def call_no_faults ds_db_def)

lemma ds_simps [simp]:
  "ds_db (s\<lparr>ds_world := (ds_world s)\<lparr>w_db := d\<rparr>\<rparr>) = d"
  "quiet_world (s\<lparr>ds_world := (ds_world s)\<lparr>w_db := d\<rparr>\<rparr>) = quiet_world s"
  "ds_db (s\<lparr>ds_observer := ob\<rparr>) = ds_db s" "quiet_world (s\<lparr>ds_observer := ob\<rparr>) = quiet_world s"
  "ds_db (s\<lparr>ds_notifier := nt\<rparr>) = ds_db s" "quiet_world (s\<lparr>ds_notifier := nt\<rparr>) = quiet_world s"
  "ds_db (s\<lparr>ds_world := w\<rparr>) = w_db w"
  by (simp_all add: ds_db_def quiet_world_def)

lemma dp_notify_simps [simp]:
  "ds_db (dp_notify d env c s) = ds_db s" "quiet_world (dp_notify d env c s) = quiet_world s"
  "ds_world (dp_notify d env c s) = ds_world s"
  by (simp_all add: dp_notify_def ds_db_def quiet_world_def split: option.split)

lemma notify_all_simps [simp]:
  "ds_world (fold (\<lambda>wa. dp_notify d env (f wa)) ws s) = ds_world s"
  by (induction ws arbitrary: s) simp_all

lemma dp_release_view:
  assumes "quiet_world s" and "view (ds_db s) (j_id j) = Some b" and "holder_of b = Some holder"
  shows "view (ds_db (dp_release holder j s)) = (view (ds_db s))(j_id j \<mapsto> b\<lparr>j_lease := None\<rparr>)"
  using assms by (simp add: dp_release_def dp_call_nf release_view unleased_by_def)

lemma dp_reschedule_view:
  assumes "quiet_world s" and "db_ok (ds_db s)" and "view (ds_db s) (j_id j) = Some j"
    and "holder_of j = Some holder"
  shows "fst (dp_reschedule holder j t s) \<and>
    view (ds_db (snd (dp_reschedule holder j t s))) =
      (view (ds_db s))(j_id j \<mapsto> j\<lparr>j_next := t, j_lease := None\<rparr>)"
proof -
  let ?c = "reschedule_commit holder j t"
  have c: "c_job ?c = j_id j" "c_holder ?c = holder" by (simp_all add: reschedule_commit_def)
  have "fst (commit ?c (ds_db s)) = Inr ()"
    using assms by (simp add: commit_result c)
  moreover have "view (snd (commit ?c (ds_db s))) = (view (ds_db s))(j_id j \<mapsto> committed ?c j)"
    using assms by (simp add: commit_view c)
  moreover have "committed ?c j = j\<lparr>j_next := t, j_lease := None\<rparr>"
    by (simp add: committed_def reschedule_commit_def)
  ultimately show ?thesis using assms(1) by (simp add: dp_reschedule_def dp_call_nf)
qed

lemma dp_exhausted_view: "view (ds_db (dp_exhausted d env out s)) = view (ds_db s)"
proof -
  have call: "view (ds_db (snd (dp_call f s'))) = view (ds_db s')"
    if "\<And>db. view (snd (f db)) = view db" for f :: "'a store_op" and s'
    using that by (cases rule: call_cases [of f "ds_world s'"]) (simp_all add: dp_call_def ds_db_def)
  have ct: "dp_call (count_episode jid start) s = (r, s') \<Longrightarrow> view (ds_db s') = view (ds_db s)" for jid start r s'
    using call [of "count_episode jid start" s] by simp
  show ?thesis
    by (auto simp: dp_exhausted_def Let_def call dest: ct split: option.split prod.split sum.split)
qed

subsection \<open>One pass\<close>

definition pass_admission :: "pass_env \<Rightarrow> dsys \<Rightarrow> admission" where
  "pass_admission env s =
     (case ds_observer s of None \<Rightarrow> admission_of Start
      | Some ob \<Rightarrow> fst (fst (observer_admit ob (pe_observe_at env) (pe_admit_at env) (pe_usage env))))"

text \<open>What a pass that took \<open>j\<close> leaves of the jobs, by what stopped it, or what its run left.\<close>

definition pass_leaves :: "dispatcher \<Rightarrow> pass_env \<Rightarrow> registry \<Rightarrow> string \<Rightarrow> job \<Rightarrow> admission \<Rightarrow> world \<Rightarrow> string \<Rightarrow> job option" where
  "pass_leaves d env reg holder j adm w =
     (case ad_decision adm of
        Defer \<Rightarrow> (view (w_db w))(j_id j \<mapsto> j\<lparr>j_next := ad_until adm, j_lease := None\<rparr>)
      | Wait \<Rightarrow> (view (w_db w))(j_id j \<mapsto> j\<lparr>j_lease := None\<rparr>)
      | Start \<Rightarrow>
          (case registry_next reg (j_kind j) (j_state j) of
             None \<Rightarrow> (view (w_db w))(j_id j \<mapsto> j\<lparr>j_next := None, j_lease := None\<rparr>)
           | Some t \<Rightarrow>
               if t_tokens t \<noteq> [] \<and> \<not> pe_tokens_free env
               then (view (w_db w))(j_id j \<mapsto> j\<lparr>j_lease := None\<rparr>)
               else view (w_db (snd (snd (run (worker_runner d reg holder) (t_name t) (j_id j)
                      (pe_run_at env) (pe_commit_at env) w))))))"

lemma admit_cases: "ad_decision a \<noteq> Start \<Longrightarrow> ad_decision a \<noteq> Defer \<Longrightarrow> ad_decision a = Wait"
  by (cases "ad_decision a") auto

lemma dp_admit_view:
  assumes "quiet_world s" and "db_ok (ds_db s)" and "view (ds_db s) (j_id j) = Some j"
    and "holder_of j = Some holder" and "pass_admission env s = adm"
  shows "fst (dp_admit d env holder j s) = starts adm"
    and "starts adm \<Longrightarrow> ds_world (snd (dp_admit d env holder j s)) = ds_world s"
    and "\<not> starts adm \<Longrightarrow> view (ds_db (snd (dp_admit d env holder j s))) =
           pass_leaves d env reg holder j adm (ds_world s)"
proof -
  have nw: "w_db (ds_world s) = ds_db s" by (simp add: ds_db_def)
  show "fst (dp_admit d env holder j s) = starts adm"
    using assms(5) by (auto simp: dp_admit_def pass_admission_def starts_def admission_of_def Let_def
        split: option.split prod.split)
  show "starts adm \<Longrightarrow> ds_world (snd (dp_admit d env holder j s)) = ds_world s"
    using assms(5) by (auto simp: dp_admit_def pass_admission_def Let_def split: option.split prod.split)
  assume no: "\<not> starts adm"
  then obtain ob where ob: "ds_observer s = Some ob"
    using assms(5) by (auto simp: pass_admission_def starts_def admission_of_def split: option.splits)
  obtain err ob' where oa: "observer_admit ob (pe_observe_at env) (pe_admit_at env) (pe_usage env) = ((adm, err), ob')"
    using assms(5) ob by (auto simp: pass_admission_def) (metis prod.collapse)
  let ?s1 = "s\<lparr>ds_observer := Some ob'\<rparr>"
  let ?s2 = "if window_limited (ad_window adm) then dp_notify d env (Spent_window (ad_window adm)) ?s1 else ?s1"
  have s2: "quiet_world ?s2" "ds_db ?s2 = ds_db s" using assms(1) by simp_all
  have res: "snd (dp_admit d env holder j s) =
      (if ad_decision adm = Defer then snd (dp_reschedule holder j (ad_until adm) ?s2)
       else dp_release holder j ?s2)"
    using no by (simp add: dp_admit_def ob oa Let_def)
  show "view (ds_db (snd (dp_admit d env holder j s))) = pass_leaves d env reg holder j adm (ds_world s)"
    using dp_reschedule_view [of ?s2 j holder "ad_until adm"] dp_release_view [of ?s2 j j holder] s2 assms no
    unfolding res by (cases "ad_decision adm") (simp_all add: pass_leaves_def nw starts_def)
qed

lemma dp_dispatch_view:
  assumes "quiet_world s" and "db_ok (ds_db s)" and "view (ds_db s) (j_id j) = Some j"
    and "holder_of j = Some holder" and "starts adm"
  shows "view (ds_db (dp_dispatch d env reg holder j s)) =
    pass_leaves d env reg holder j adm (ds_world s)"
proof -
  have nw: "w_db (ds_world s) = ds_db s" by (simp add: ds_db_def)
  show ?thesis
  proof (cases "registry_next reg (j_kind j) (j_state j)")
    case None
    with dp_reschedule_view [OF assms(1-4), of None] assms(5) show ?thesis
      by (simp add: dp_dispatch_def pass_leaves_def dp_park_def Let_def nw starts_def case_prod_beta)
  next
    case (Some t)
    show ?thesis
    proof (cases "t_tokens t \<noteq> [] \<and> \<not> pe_tokens_free env")
      case True
      with Some dp_release_view [OF assms(1,3,4)] assms(5) show ?thesis
        by (simp add: dp_dispatch_def pass_leaves_def nw starts_def)
    next
      case False
      obtain out err w where run: "run (worker_runner d reg holder) (t_name t) (j_id j)
          (pe_run_at env) (pe_commit_at env) (ds_world s) = (out, err, w)"
        by (cases "run (worker_runner d reg holder) (t_name t) (j_id j) (pe_run_at env)
            (pe_commit_at env) (ds_world s)")
      have "(t_tokens t \<noteq> [] \<and> \<not> pe_tokens_free env) = False" using False by blast
      with Some assms(5) run show ?thesis
        by (cases err) (auto simp: dp_dispatch_def pass_leaves_def starts_def dp_exhausted_view Let_def)
    qed
  qed
qed

text \<open>C23: No pass of a worker loses a job or spends its retries on waiting: the job a pass takes is
  run when admission starts it, a transition leads from its state and its tokens are free, and
  then the store's jobs are what the run left. Otherwise it is given back with its state,
  attempts and stays untouched and no lease: still due when admission waits or a token is
  taken, due at the reset when admission defers, and parked when nothing moves its state. No
  other job changes.\<close>

theorem pass_gives_back_or_runs:
  assumes "w_faults (ds_world s) = []" and "db_ok (w_db (ds_world s))"
    and "due holder (pe_due_at env) (dp_lease_ttl d) (w_db (ds_world s)) = (Inr (Some j), db')"
  shows "view (w_db (ds_world (dp_pass d env reg holder s))) =
    pass_leaves d env reg holder j (pass_admission env s) ((ds_world s)\<lparr>w_db := db'\<rparr>)"
proof -
  let ?s1 = "s\<lparr>ds_world := (ds_world s)\<lparr>w_db := db'\<rparr>\<rparr>"
  let ?adm = "pass_admission env s"
  have q: "quiet_world s" using assms(1) by (simp add: quiet_world_def)
  have db': "db' = snd (due holder (pe_due_at env) (dp_lease_ttl d) (w_db (ds_world s)))"
    using assms(3) by simp
  obtain r where r: "find_row (r_id r) (w_db (ds_world s)) = Some r"
    "j = lease_to holder (pe_due_at env + dp_lease_ttl d) (scan_job r)"
    "db' = update_row (r_id r) (set_lease holder (pe_due_at env + dp_lease_ttl d)) (w_db (ds_world s))"
  proof -
    have j: "fst (due holder (pe_due_at env) (dp_lease_ttl d) (w_db (ds_world s))) = Inr (Some j)"
      using assms(3) by simp
    show ?thesis by (rule due_Some [OF assms(2) j], rule that) (simp_all add: db')
  qed
  have jid: "j_id j = r_id r" by (simp add: r(2) lease_to_def scan_job_def)
  have v: "view db' (j_id j) = Some j"
    unfolding jid using r(2) by (simp add: r(3) view_update [OF set_lease_id r(1)] scan_set_lease)
  have h: "holder_of j = Some holder" by (simp add: r(2) lease_to_def holder_of_def)
  have ok: "db_ok db'" using due_ok [OF assms(2)] db' by simp
  have s1: "quiet_world ?s1" "ds_db ?s1 = db'" "pass_admission env ?s1 = ?adm"
    using q by (simp_all add: pass_admission_def)
  have pass: "dp_pass d env reg holder s =
      (if fst (dp_admit d env holder j ?s1) then dp_dispatch d env reg holder j (snd (dp_admit d env holder j ?s1))
       else snd (dp_admit d env holder j ?s1))"
    using q assms(3) by (simp add: dp_pass_def dp_call_nf ds_db_def case_prod_beta Let_def)
  note adm = dp_admit_view [of ?s1 j holder env ?adm d, unfolded s1(2), OF s1(1) ok v h s1(3)]
  show ?thesis
  proof (cases "starts ?adm")
    case True
    have w: "ds_world (snd (dp_admit d env holder j ?s1)) = (ds_world s)\<lparr>w_db := db'\<rparr>"
      using adm(2) [OF True] by simp
    have "view (ds_db (dp_dispatch d env reg holder j (snd (dp_admit d env holder j ?s1)))) =
        pass_leaves d env reg holder j ?adm (ds_world (snd (dp_admit d env holder j ?s1)))"
      using assms(1) ok v h True w by (intro dp_dispatch_view) (simp_all add: quiet_world_def ds_db_def)
    with True adm(1) pass w show ?thesis by (simp add: ds_db_def)
  next
    case False
    with adm(1) adm(3) [OF False] pass show ?thesis by (simp add: ds_db_def)
  qed
qed


subsection \<open>What starting the pool has checked\<close>

lemma unknown_tokens_None:
  "unknown_tokens p ts = None \<longleftrightarrow> (\<forall>t\<in>set ts. \<forall>tok\<in>set (t_tokens t). p_capacity p tok \<noteq> None)"
proof (induction ts)
  case (Cons t ts)
  show ?case
  proof (cases "pool_known p (t_tokens t)")
    case None
    then have "\<forall>tok\<in>set (t_tokens t). p_capacity p tok \<noteq> None"
      by (simp add: pool_known_def find_None_iff)
    with None Cons show ?thesis by simp
  next
    case (Some tok)
    then have "tok \<in> set (t_tokens t)" "p_capacity p tok = None"
      by (auto simp: pool_known_def find_Some_iff)
    with Some show ?thesis by auto
  qed
qed simp

text \<open>A pool that starts cannot fail later on its own configuration: every token any registered
  transition declares has a capacity, so acquiring one is never refused as unknown; a worker
  stops queuing for a permit before its lease lapses; the endpoint is not asked on every
  pass; and no two workers lease jobs under one name.\<close>

theorem started_pool_is_sound:
  assumes "dp_validate d ob nt = None"
  shows "\<exists>reg p. dp_registry d = Some reg \<and> dp_pool d = Some p \<and>
    (\<forall>t\<in>set (registry_all reg). \<forall>held todo. set todo \<subseteq> set (t_tokens t) \<longrightarrow>
       (\<forall>n p'. attempt p (Waiting held todo) \<noteq> PUnknown n p')) \<and>
    0 < dp_token_wait d \<and> dp_token_wait d < dp_lease_ttl d \<and>
    (case ob of None \<Rightarrow> True | Some ob \<Rightarrow> 0 < ob_max_age ob) \<and>
    (\<forall>i j. worker_name d i = worker_name d j \<longleftrightarrow> i = j)"
proof -
  from assms obtain reg p where rp: "dp_registry d = Some reg" "dp_pool d = Some p"
    "unknown_tokens p (registry_all reg) = None"
    "0 < dp_token_wait d" "dp_token_wait d < dp_lease_ttl d"
    "\<not> (case ob of None \<Rightarrow> False | Some ob \<Rightarrow> ob_max_age ob \<le> 0)"
    by (auto simp: dp_validate_def split: if_splits option.splits)
  have "attempt p (Waiting held todo) \<noteq> PUnknown n p'"
    if "t \<in> set (registry_all reg)" "set todo \<subseteq> set (t_tokens t)" for t held todo n p'
  proof (cases todo)
    case (Cons m ms)
    with that(2) have "m \<in> set (t_tokens t)" by simp
    with rp(3) that(1) have "p_capacity p m \<noteq> None" unfolding unknown_tokens_None by blast
    with Cons show ?thesis by (auto split: if_splits)
  qed simp
  with rp show ?thesis by (auto simp: worker_name_def split: option.splits)
qed

definition example_style :: style where
  "example_style = \<lparr>fmt_time = (\<lambda>_. ''t''), fmt_window = w_name\<rparr>"

definition example_dispatcher :: dispatcher where
  "example_dispatcher =
     \<lparr>dp_store = True, dp_registry = Some example_registry,
      dp_pool = Some \<lparr>p_capacity = [''heavy-build'' \<mapsto> 1], p_out = (\<lambda>_. 0)\<rparr>, dp_holder = ''host'',
      dp_workers = 2, dp_lease_ttl = 100, dp_poll = 30, dp_token_wait = 60, dp_backoff = None,
      dp_style = example_style, dp_cause = (\<lambda>_. \<lparr>ca_text = ''failed'', ca_bound = None\<rparr>),
      dp_tier_cause = (\<lambda>s. \<lparr>ca_text = s, ca_bound = None\<rparr>)\<rparr>"

theorem started_pool_is_sound_witness:
  "worker_name example_dispatcher 1 \<noteq> worker_name example_dispatcher 2"
proof -
  have "dp_validate example_dispatcher None None = None"
    by (simp add: dp_validate_def example_dispatcher_def registry_all_def example_registry_def
        example_transition_def pool_known_def)
  from started_pool_is_sound [OF this] show ?thesis by auto
qed

subsection \<open>Episodes\<close>

text \<open>
  The pool's process restarts between two exhaustions or it does not: a restart forgets what
  the notifier published, and keeps what reached the operator.
\<close>

definition restarted :: "bool \<Rightarrow> dsys \<Rightarrow> dsys" where
  "restarted again s =
     (if again then s\<lparr>ds_notifier := map_option (\<lambda>n. n\<lparr>nt_sent := []\<rparr>) (ds_notifier s)\<rparr> else s)"

definition exhaust_step :: "dispatcher \<Rightarrow> outcome \<Rightarrow> bool \<times> pass_env \<Rightarrow> dsys \<Rightarrow> dsys" where
  "exhaust_step d out x s = dp_exhausted d (snd x) out (restarted (fst x) s)"

definition told_count :: "dsys \<Rightarrow> nat" where
  "told_count s = (case ds_notifier s of None \<Rightarrow> 0 | Some n \<Rightarrow> length (nt_posted n))"

text \<open>After \<open>k\<close> exhaustions: what the store counts, and what was told.\<close>

definition episode_at :: "string \<Rightarrow> int \<Rightarrow> nat \<Rightarrow> dsys \<Rightarrow> bool" where
  "episode_at jid after k s \<longleftrightarrow>
     quiet_world s \<and> find_row jid (ds_db s) \<noteq> None \<and>
     (if k = 0 then db_episodes (ds_db s) jid = None
      else \<exists>ep. db_episodes (ds_db s) jid = Some ep \<and> ep_times ep = int k \<and>
             ep_told ep = (after \<le> int k)) \<and>
     (\<exists>n. ds_notifier s = Some n \<and> nt_tier_after n = after \<and>
        (if after \<le> int k then length (nt_posted n) = 1 else nt_posted n = [] \<and> nt_sent n = []))"

lemma episode_at_restarted: "episode_at jid after k s \<Longrightarrow> episode_at jid after k (restarted again s)"
  by (auto simp: episode_at_def restarted_def)

lemma count_episode_at:
  assumes "episode_at jid after k s" and "ep_told start = False"
  shows "\<exists>ep. fst (count_episode jid start (ds_db s)) = Inr ep \<and> ep_times ep = int k + 1 \<and>
    ep_told ep = (0 < k \<and> after \<le> int k) \<and>
    snd (count_episode jid start (ds_db s)) =
      (ds_db s)\<lparr>db_episodes := (db_episodes (ds_db s))(jid \<mapsto> ep)\<rparr>"
  using assms by (cases "k = 0") (auto simp: episode_at_def count_episode_def Let_def)


lemma exhaust_step_at:
  assumes at: "episode_at jid after k s" and "0 < after"
    and out: "o_transition out \<noteq> ''''" "j_id (o_job out) = jid" "o_exhausted out \<noteq> None"
    and posts: "\<And>c. pe_post env c = None"
  shows "episode_at jid after (k + 1) (exhaust_step d out (again, env) s)"
proof -
  let ?s = "restarted again s"
  have r: "episode_at jid after k ?s" by (rule episode_at_restarted [OF at])
  obtain what where what: "o_exhausted out = Some what" using out(3) by auto
  obtain n where n: "ds_notifier ?s = Some n" "nt_tier_after n = after"
    "if after \<le> int k then length (nt_posted n) = 1 else nt_posted n = [] \<and> nt_sent n = []"
    and q: "quiet_world ?s" and row: "find_row jid (ds_db ?s) \<noteq> None"
    using r by (auto simp: episode_at_def)
  let ?start = "\<lparr>ep_running = o_from out, ep_deferred = o_to out, ep_since = pe_since env,
      ep_times = 0, ep_told = False\<rparr>"
  obtain ep where ep: "fst (count_episode jid ?start (ds_db ?s)) = Inr ep" "ep_times ep = int k + 1"
      "ep_told ep = (0 < k \<and> after \<le> int k)"
      "snd (count_episode jid ?start (ds_db ?s)) = (ds_db ?s)\<lparr>db_episodes := (db_episodes (ds_db ?s))(jid \<mapsto> ep)\<rparr>"
    using count_episode_at [OF r, of ?start] by auto
  let ?d1 = "(ds_db ?s)\<lparr>db_episodes := (db_episodes (ds_db ?s))(jid \<mapsto> ep)\<rparr>"
  let ?s1 = "?s\<lparr>ds_world := (ds_world ?s)\<lparr>w_db := ?d1\<rparr>\<rparr>"
  have count: "dp_call (count_episode jid ?start) ?s = (Inr ep, ?s1)"
    using q ep by (simp add: dp_call_nf)
  let ?c = "Some (dp_tier_cause d what)"
  let ?t = "nt_tier_exhausted (dp_style d) (o_job out) ep ?c None n"
  have step: "exhaust_step d out (again, env) s =
      (if ep_told ep then ?s1
       else if fst (fst ?t) then snd (dp_call (told_episode jid (ep_since ep)) (?s1\<lparr>ds_notifier := Some (snd ?t)\<rparr>))
       else ?s1\<lparr>ds_notifier := Some (snd ?t)\<rparr>)"
    using n(1) out(1,2) what count posts
    by (simp add: exhaust_step_def dp_exhausted_def Let_def case_prod_beta)
  consider (told) "after \<le> int k" | (now) "after = int k + 1" | (early) "int k + 1 < after" by linarith
  then show ?thesis
  proof cases
    case told
    then have "0 < k" using \<open>0 < after\<close> by simp
    with told ep step n q row show ?thesis by (simp add: episode_at_def)
  next
    case now
    then have "\<not> ep_told ep" using ep(3) by simp
    moreover have "nt_posted n = []" "nt_sent n = []" using n(3) now by simp_all
    ultimately have "fst (fst ?t)" "length (nt_posted (snd ?t)) = 1" "nt_tier_after (snd ?t) = after"
      using n(2) ep(2) now by (simp_all add: nt_tier_exhausted_def nt_send_eq)
    moreover have "dp_call (told_episode jid (ep_since ep)) (?s1\<lparr>ds_notifier := Some (snd ?t)\<rparr>) =
        (Inr (), (?s1\<lparr>ds_notifier := Some (snd ?t)\<rparr>)\<lparr>ds_world := (ds_world ?s)\<lparr>w_db :=
           ?d1\<lparr>db_episodes := (db_episodes ?d1)(jid \<mapsto> ep\<lparr>ep_told := True\<rparr>)\<rparr>\<rparr>\<rparr>)"
      using q by (simp add: dp_call_nf told_episode_def)
    ultimately show ?thesis using step \<open>\<not> ep_told ep\<close> q row ep(2) now
      by (simp add: episode_at_def quiet_world_def)
  next
    case early
    then have "\<not> ep_told ep" using ep(3) by simp
    moreover have "?t = ((False, None), n)"
      using early n(2) ep(2) \<open>\<not> ep_told ep\<close> by (simp add: nt_tier_exhausted_def)
    ultimately show ?thesis using step n q row ep(2) early by (simp add: episode_at_def)
  qed
qed

text \<open>C24: A tier that stays exhausted is told to the operator exactly once, when its count reaches
  the configured one, however many times the pool restarts in between: after any number of
  exhaustions of one job in one episode, with posts that succeed and a store that answers,
  the operator was told once if there were enough of them and not at all otherwise.\<close>

theorem episode_told_exactly_once:
  assumes "ds_notifier s = Some (fresh_notifier repo after)" and "0 < after"
    and "w_faults (ds_world s) = []" and "db_episodes (w_db (ds_world s)) jid = None"
    and "find_row jid (w_db (ds_world s)) \<noteq> None"
    and "o_transition out \<noteq> ''''" "j_id (o_job out) = jid" "o_exhausted out \<noteq> None"
    and "\<And>env c. env \<in> snd ` set xs \<Longrightarrow> pe_post env c = None"
  shows "told_count (fold (exhaust_step d out) xs s) = (if after \<le> int (length xs) then 1 else 0)"
proof -
  have "episode_at jid after k s' \<Longrightarrow> (\<And>env c. env \<in> snd ` set ys \<Longrightarrow> pe_post env c = None) \<Longrightarrow>
      episode_at jid after (k + length ys) (fold (exhaust_step d out) ys s')" for k s' ys
  proof (induction ys arbitrary: k s')
    case (Cons y ys)
    have "episode_at jid after (k + 1) (exhaust_step d out (fst y, snd y) s')"
      using Cons.prems by (intro exhaust_step_at [OF _ assms(2) assms(6,7,8)]) auto
    with Cons.IH [of "k + 1" "exhaust_step d out y s'"] Cons.prems(2) show ?case by simp
  qed simp
  moreover have "episode_at jid after 0 s"
    using assms(1-5) by (simp add: episode_at_def quiet_world_def ds_db_def fresh_notifier_def)
  ultimately have "episode_at jid after (length xs) (fold (exhaust_step d out) xs s)"
    using assms(9) by fastforce
  then show ?thesis by (auto simp: episode_at_def told_count_def split: if_splits)
qed

definition example_sys :: dsys where
  "example_sys = \<lparr>ds_world = \<lparr>w_db = example_db, w_faults = [], w_done = []\<rparr>, ds_observer = None,
     ds_notifier = Some (fresh_notifier ''o/r'' 2)\<rparr>"

definition example_env :: pass_env where
  "example_env = \<lparr>pe_due_at = 200, pe_observe_at = 200, pe_admit_at = 200, pe_usage = Inl ''off'',
     pe_tokens_free = False, pe_run_at = 200, pe_commit_at = 201, pe_since = 202,
     pe_post = (\<lambda>_. None)\<rparr>"

theorem episode_told_exactly_once_witness:
  "told_count (fold (exhaust_step example_dispatcher
     (no_outcome\<lparr>o_transition := ''review'', o_job := scan_job example_row, o_from := ''start'',
        o_to := ''waiting'', o_exhausted := Some ''all 2 models''\<rparr>))
     [(False, example_env), (True, example_env), (True, example_env)] example_sys) = 1"
  by (subst episode_told_exactly_once [where jid = "''review-pr-12''" and after = 2 and repo = "''o/r''"])
    (auto simp: example_sys_def example_db_eq empty_db_def find_row_def table_simps example_row_def
      example_id example_env_def no_outcome_def scan_job_def set_lease_def new_row_def)

theorem pass_gives_back_or_runs_witness:
  "view (w_db (ds_world (dp_pass example_dispatcher example_env example_registry ''host/1'' example_sys)))
     ''review-pr-12'' = Some ((scan_job example_row)\<lparr>j_lease := None\<rparr>)"
proof -
  let ?d = "w_db (ds_world example_sys)"
  have d: "?d = example_db" by (simp add: example_sys_def)
  have f: "fst (due ''host/1'' (pe_due_at example_env) (dp_lease_ttl example_dispatcher) ?d) =
      Inr (Some (lease_to ''host/1'' 300 (scan_job example_row)))"
    by (simp add: d due_def example_db_eq due_where_def lease_where_def example_row_def set_lease_def
        new_row_def first_by_def scan_job_def lease_to_def row_lease_def example_env_def
        example_dispatcher_def)
  have "view (w_db (ds_world (dp_pass example_dispatcher example_env example_registry ''host/1'' example_sys))) =
      pass_leaves example_dispatcher example_env example_registry ''host/1''
        (lease_to ''host/1'' 300 (scan_job example_row)) (pass_admission example_env example_sys)
        ((ds_world example_sys)\<lparr>w_db := snd (due ''host/1'' (pe_due_at example_env)
           (dp_lease_ttl example_dispatcher) ?d)\<rparr>)"
    using f by (intro pass_gives_back_or_runs)
      (simp_all add: d example_db_ok, simp_all add: example_sys_def prod_eq_iff)
  moreover have "pass_admission example_env example_sys = admission_of Start"
    by (simp add: pass_admission_def example_sys_def)
  moreover have "registry_next example_registry KindReview ''start'' = Some example_transition"
    by (simp add: registry_next_def example_registry_def)
  ultimately show ?thesis
    by (simp add: pass_leaves_def admission_of_def lease_to_def example_transition_def example_env_def)
qed

end
