(* ===== verification/Globs.thy ===== *)
theory Globs
  imports Afk_Prelude
begin

text \<open>
  Matching repository paths against the operator's globs, \<^verbatim>\<open>internal/glob/glob.go\<close>, with
  \<^verbatim>\<open>path.Match\<close> on one segment: a pattern is read into its elements first, \<open>None\<close> being
  \<^verbatim>\<open>ErrBadPattern\<close>, which the library reports whatever the name. A character is a byte.
\<close>

subsection \<open>One segment: path.Match\<close>

datatype elem =
    Star
  | One
  | Lit char
  | Class bool "(char \<times> char) list"

text \<open>\<^verbatim>\<open>getEsc\<close>: one character of a class, and there must be more after it.\<close>

fun get_esc :: "string \<Rightarrow> (char \<times> string) option" where
  "get_esc [] = None"
| "get_esc (c # cs) =
     (if c = CHR ''-'' \<or> c = CHR '']'' then None
      else if c = CHR 0x5C then
        (case cs of [] \<Rightarrow> None | e # es \<Rightarrow> if es = [] then None else Some (e, es))
      else if cs = [] then None else Some (c, cs))"

lemma get_esc_shorter: "get_esc s = Some (c, r) \<Longrightarrow> length r < length s"
  by (cases s) (auto split: if_splits list.splits)

function read_class :: "string \<Rightarrow> (char \<times> char) list \<Rightarrow> ((char \<times> char) list \<times> string) option" where
  "read_class s acc =
     (if acc \<noteq> [] \<and> s \<noteq> [] \<and> hd s = CHR '']'' then Some (rev acc, tl s)
      else (case get_esc s of
          None \<Rightarrow> None
        | Some (lo, r) \<Rightarrow>
            if hd r = CHR ''-'' then
              (case get_esc (tl r) of
                 None \<Rightarrow> None
               | Some (hi, r') \<Rightarrow> read_class r' ((lo, hi) # acc))
            else read_class r ((lo, lo) # acc)))"
  by pat_completeness auto
termination
proof (relation "measure (\<lambda>(s, acc). length s)")
  fix s :: string and acc :: "(char \<times> char) list" and x lo r x' hi r'
  assume "get_esc s = Some x" "(lo, r) = x" "get_esc (tl r) = Some x'" "(hi, r') = x'"
  then show "((r', (lo, hi) # acc), s, acc) \<in> measure (\<lambda>(s, acc). length s)"
    using get_esc_shorter [of s lo r] get_esc_shorter [of "tl r" hi r'] by auto
qed (use get_esc_shorter in auto)

declare read_class.simps [simp del]

lemma read_class_shorter: "read_class s acc = Some (rs, r) \<Longrightarrow> length r < length s"
proof (induction s acc rule: read_class.induct)
  case (1 s acc)
  show ?case
  proof (cases "acc \<noteq> [] \<and> s \<noteq> [] \<and> hd s = CHR '']''")
    case True
    with "1.prems" have "r = tl s" by (subst (asm) read_class.simps) simp
    with True show ?thesis by (cases s) simp_all
  next
    case no: False
    with "1.prems" obtain lo q where q: "get_esc s = Some (lo, q)"
      by (subst (asm) read_class.simps) (auto split: option.splits)
    note sq = get_esc_shorter [OF q]
    show ?thesis
    proof (cases "hd q = CHR ''-''")
      case True
      with "1.prems" no q obtain hi q' where q': "get_esc (tl q) = Some (hi, q')"
        "read_class q' ((lo, hi) # acc) = Some (rs, r)"
        by (subst (asm) read_class.simps) (auto split: option.splits if_splits)
      from "1.IH"(1) [OF no q refl True q'(1) refl q'(2)] get_esc_shorter [OF q'(1)] sq
      show ?thesis by simp
    next
      case False
      with "1.prems" no q have "read_class q ((lo, lo) # acc) = Some (rs, r)"
        by (subst (asm) read_class.simps) (auto split: if_splits)
      from "1.IH"(2) [OF no q refl False this] sq show ?thesis by simp
    qed
  qed
qed

function read_pattern :: "string \<Rightarrow> elem list option" where
  "read_pattern [] = Some []"
| "read_pattern (c # cs) =
     (if c = CHR ''*'' then map_option ((#) Star) (read_pattern cs)
      else if c = CHR ''?'' then map_option ((#) One) (read_pattern cs)
      else if c = CHR ''['' then
        (let (neg, body) = (if cs \<noteq> [] \<and> hd cs = CHR ''^'' then (True, tl cs) else (False, cs)) in
         case read_class body [] of
           None \<Rightarrow> None
         | Some (ranges, rest) \<Rightarrow> map_option ((#) (Class neg ranges)) (read_pattern rest))
      else if c = CHR 0x5C then
        (case cs of [] \<Rightarrow> None | e # es \<Rightarrow> map_option ((#) (Lit e)) (read_pattern es))
      else map_option ((#) (Lit c)) (read_pattern cs))"
  by pat_completeness auto
termination
  by (relation "measure length") (auto dest!: read_class_shorter split: if_splits)

declare read_pattern.simps(2) [simp del]

fun in_ranges :: "(char \<times> char) list \<Rightarrow> char \<Rightarrow> bool" where
  "in_ranges [] c = False"
| "in_ranges ((lo, hi) # rs) c = ((lo \<le> c \<and> c \<le> hi) \<or> in_ranges rs c)"

fun match_elems :: "elem list \<Rightarrow> string \<Rightarrow> bool" where
  "match_elems [] s = (s = [])"
| "match_elems (Star # es) [] = match_elems es []"
| "match_elems (Star # es) (c # cs) =
     (match_elems es (c # cs) \<or> (c \<noteq> CHR ''/'' \<and> match_elems (Star # es) cs))"
| "match_elems (One # es) s = (case s of [] \<Rightarrow> False | c # cs \<Rightarrow> c \<noteq> CHR ''/'' \<and> match_elems es cs)"
| "match_elems (Lit l # es) s = (case s of [] \<Rightarrow> False | c # cs \<Rightarrow> c = l \<and> match_elems es cs)"
| "match_elems (Class neg rs # es) s =
     (case s of [] \<Rightarrow> False | c # cs \<Rightarrow> in_ranges rs c \<noteq> neg \<and> match_elems es cs)"

definition path_match :: "string \<Rightarrow> string \<Rightarrow> bool option" where
  "path_match pattern name = map_option (\<lambda>es. match_elems es name) (read_pattern pattern)"

subsection \<open>Whole paths\<close>

fun match_segments :: "string list \<Rightarrow> string list \<Rightarrow> bool" where
  "match_segments [] name = (name = [])"
| "match_segments (p # pattern) name =
     (if p = ''**'' then list_ex (\<lambda>i. match_segments pattern (drop i name)) [0..<Suc (length name)]
      else (case name of
          [] \<Rightarrow> False
        | n # ns \<Rightarrow> path_match p n = Some True \<and> match_segments pattern ns))"

definition glob_matches :: "string \<Rightarrow> string \<Rightarrow> bool" where
  "glob_matches pattern name =
     match_segments (split_on CHR ''/'' pattern) (split_on CHR ''/'' name)"

fun matching_from :: "string list \<Rightarrow> string list \<Rightarrow> string list \<Rightarrow> string list" where
  "matching_from patterns seen [] = []"
| "matching_from patterns seen (p # ps) =
     (if p = '''' \<or> p \<in> set seen then matching_from patterns seen ps
      else if list_ex (\<lambda>pattern. glob_matches pattern p) patterns
      then p # matching_from patterns (p # seen) ps
      else matching_from patterns seen ps)"

definition matching :: "string list \<Rightarrow> string list \<Rightarrow> string list" where
  "matching patterns paths = matching_from patterns [] paths"

datatype glob_error =
    NotRelative string string
  | DotSegment string string
  | BadPattern string string

fun valid_segments :: "string \<Rightarrow> string \<Rightarrow> string list \<Rightarrow> glob_error option" where
  "valid_segments what pattern [] = None"
| "valid_segments what pattern (seg # segs) =
     (if seg \<in> {'''', ''.'', ''..''} then Some (DotSegment what pattern)
      else if seg = ''**'' then valid_segments what pattern segs
      else if path_match seg '''' = None then Some (BadPattern what pattern)
      else valid_segments what pattern segs)"

fun globs_valid :: "string \<Rightarrow> string list \<Rightarrow> glob_error option" where
  "globs_valid what [] = None"
| "globs_valid what (pattern # ps) =
     (if pattern = '''' \<or> has_prefix pattern ''/'' then Some (NotRelative what pattern)
      else (case valid_segments what pattern (split_on CHR ''/'' pattern) of
          Some e \<Rightarrow> Some e | None \<Rightarrow> globs_valid what ps))"

subsection \<open>What a glob matches\<close>

text \<open>The meaning of a pattern: \<open>**\<close> stands for any segments, every other segment for one.\<close>

inductive stands_for :: "string list \<Rightarrow> string list \<Rightarrow> bool" where
  nothing: "stands_for [] []"
| run: "stands_for ps ns \<Longrightarrow> stands_for (''**'' # ps) (skipped @ ns)"
| single: "p \<noteq> ''**'' \<Longrightarrow> path_match p n = Some True \<Longrightarrow> stands_for ps ns \<Longrightarrow> stands_for (p # ps) (n # ns)"

inductive_cases stands_for_NilE: "stands_for [] ns"
inductive_cases stands_for_ConsE: "stands_for (p # ps) ns"

lemma match_segments_iff: "match_segments ps ns \<longleftrightarrow> stands_for ps ns"
proof (induction ps arbitrary: ns)
  case Nil
  then show ?case by (auto intro: stands_for.nothing elim: stands_for_NilE)
next
  case (Cons p ps)
  show ?case
  proof (cases "p = ''**''")
    case True
    have "(\<exists>i\<le>length ns. stands_for ps (drop i ns)) \<longleftrightarrow> (\<exists>pre rest. ns = pre @ rest \<and> stands_for ps rest)"
    proof
      assume "\<exists>i\<le>length ns. stands_for ps (drop i ns)"
      then show "\<exists>pre rest. ns = pre @ rest \<and> stands_for ps rest" by (metis append_take_drop_id)
    next
      assume "\<exists>pre rest. ns = pre @ rest \<and> stands_for ps rest"
      then obtain pre rest where "ns = pre @ rest" "stands_for ps rest" by blast
      then show "\<exists>i\<le>length ns. stands_for ps (drop i ns)" by (intro exI [of _ "length pre"]) simp
    qed
    moreover have "match_segments (p # ps) ns \<longleftrightarrow> (\<exists>i\<le>length ns. stands_for ps (drop i ns))"
      using True by (auto simp: list_ex_iff Cons.IH less_Suc_eq_le simp del: upt_Suc)
    ultimately show ?thesis
      unfolding True by (auto intro: stands_for.run elim: stands_for_ConsE)
  next
    case False
    then show ?thesis
      by (cases ns) (auto simp: Cons.IH intro: stands_for.single elim: stands_for_ConsE)
  qed
qed

lemma matching_from_eq:
  "set (matching_from patterns seen paths) =
     {p \<in> set paths. p \<noteq> '''' \<and> p \<notin> set seen \<and> (\<exists>pattern\<in>set patterns. glob_matches pattern p)} \<and>
   distinct (matching_from patterns seen paths)"
  by (induction paths arbitrary: seen) (auto simp: list_ex_iff)



lemma valid_segments_ok:
  "valid_segments what pattern segs = None \<Longrightarrow> seg \<in> set segs \<Longrightarrow>
     seg \<notin> {'''', ''.'', ''..''} \<and> (seg = ''**'' \<or> path_match seg n \<noteq> None)"
  by (induction segs) (auto simp: path_match_def split: if_splits)

text \<open>C0: A list of globs accepted at startup has no pattern that silently matches nothing for being
  malformed: every segment of every pattern is either \<^verbatim>\<open>**\<close> or well-formed, and no pattern is
  absolute, empty, or has a segment no repository path has.\<close>

theorem valid_globs_well_formed:
  assumes "globs_valid what patterns = None" and "pattern \<in> set patterns"
    and "seg \<in> set (split_on CHR ''/'' pattern)"
  shows "seg \<notin> {'''', ''.'', ''..''} \<and> \<not> has_prefix pattern ''/'' \<and>
    (seg = ''**'' \<or> (\<forall>name. path_match seg name \<noteq> None))"
proof -
  from assms(1,2) have "valid_segments what pattern (split_on CHR ''/'' pattern) = None"
      "\<not> has_prefix pattern ''/''"
    by (induction patterns) (auto split: if_splits option.splits)
  with valid_segments_ok [OF this(1) assms(3)] show ?thesis by blast
qed

theorem valid_globs_well_formed_witness:
  "path_match ''[sS]*.yaml'' ''x'' \<noteq> None"
proof -
  have v: "globs_valid ''denied'' [''**/[sS]*.yaml''] = None" by code_simp
  have s: "''[sS]*.yaml'' \<in> set (split_on CHR ''/'' ''**/[sS]*.yaml'')" by code_simp
  from valid_globs_well_formed [OF v _ s] show ?thesis by simp
qed

end
