(* ===== verification/Diff_Size.thy ===== *)
theory Diff_Size
  imports Afk_Prelude
begin

text \<open>
  The size signal, \<^verbatim>\<open>internal/size/size.go\<close>: how many changed lines of a diff a reviewer reads.
  What git prints is an argument: the two diffs, the attributes of the changed paths, and the
  files that carry the generated header. \<open>None\<close> is a git command that failed. Paths are the
  clean relative paths git prints, on which \<^verbatim>\<open>path.Dir\<close>, \<^verbatim>\<open>path.Base\<close> and \<^verbatim>\<open>path.Ext\<close> are
  the functions below.
\<close>

subsection \<open>Library functions\<close>

definition path_dir :: "string \<Rightarrow> string" where
  "path_dir p = (case butlast (split_on CHR ''/'' p) of [] \<Rightarrow> ''.'' | segs \<Rightarrow> join segs ''/'')"

definition path_base :: "string \<Rightarrow> string" where
  "path_base p = (if p = '''' then ''.'' else last (split_on CHR ''/'' p))"

text \<open>From the last dot of the base, or nothing.\<close>

definition path_ext :: "string \<Rightarrow> string" where
  "path_ext p =
     (let base = path_base p in
      if CHR ''.'' \<notin> set base then ''''
      else CHR ''.'' # rev (takeWhile (\<lambda>c. c \<noteq> CHR ''.'') (rev base)))"

definition trim_suffix :: "string \<Rightarrow> string \<Rightarrow> string" where
  "trim_suffix s x = (if has_suffix s x then take (length s - length x) s else s)"

definition trim_prefix :: "string \<Rightarrow> string \<Rightarrow> string" where
  "trim_prefix s p = (case cut_prefix s p of Some t \<Rightarrow> t | None \<Rightarrow> s)"

definition digit_byte :: "char \<Rightarrow> bool" where
  "digit_byte c \<longleftrightarrow> (let n = (of_char c :: nat) in 48 \<le> n \<and> n \<le> 57)"

text \<open>\<^verbatim>\<open>strconv.Atoi\<close> with its error dropped: zero for what is not a number, and the nearest
  64-bit integer for one out of range.\<close>

definition atoi :: "string \<Rightarrow> int" where
  "atoi s =
     (let neg = (s \<noteq> '''' \<and> hd s = CHR ''-'');
          d = (if s \<noteq> '''' \<and> (hd s = CHR ''-'' \<or> hd s = CHR ''+'') then tl s else s);
          n = fold (\<lambda>c n. 10 * n + (int (of_char c) - 48)) d 0
      in if d = '''' \<or> \<not> list_all digit_byte d then 0
         else if neg then max (- (2 ^ 63)) (- n) else min (2 ^ 63 - 1) n)"

text \<open>\<^verbatim>\<open>strings.SplitN(s, sep, 3)\<close>, when it has three parts.\<close>

definition split3 :: "string \<Rightarrow> char \<Rightarrow> (string \<times> string \<times> string) option" where
  "split3 s c =
     (let (a, rest, ok) = cut s c in
      if \<not> ok then None
      else (let (b, r, ok') = cut rest c in if \<not> ok' then None else Some (a, b, r)))"

subsection \<open>The changed files\<close>

record count =
  ct_lines :: int
  ct_tests :: int

definition over_signal :: "count \<Rightarrow> int \<Rightarrow> bool" where
  "over_signal c signal \<longleftrightarrow> signal < ct_lines c"

record diff_file =
  fi_path :: string
  fi_lines :: int

fun numstat_files :: "string set \<Rightarrow> string list \<Rightarrow> diff_file list" where
  "numstat_files gone [] = []"
| "numstat_files gone (f # fs) =
     (case split3 f CHR 0x09 of
        None \<Rightarrow> numstat_files gone fs
      | Some (added, removed, name) \<Rightarrow>
          let lines = atoi added + atoi removed in
          if name = '''' then
            (case fs of
               old # new # rest \<Rightarrow>
                 if new \<in> gone then numstat_files gone rest
                 else \<lparr>fi_path = new, fi_lines = lines\<rparr> # numstat_files gone rest
             | _ \<Rightarrow> [])
          else if name \<in> gone then numstat_files gone fs
          else \<lparr>fi_path = name, fi_lines = lines\<rparr> # numstat_files gone fs)"

definition changed_files :: "string option \<Rightarrow> string option \<Rightarrow> diff_file list option" where
  "changed_files deleted numstat =
     (case deleted of None \<Rightarrow> None
      | Some d \<Rightarrow> (case numstat of None \<Rightarrow> None
          | Some out \<Rightarrow> Some (numstat_files (set (split_on CHR 0x00 d)) (split_on CHR 0x00 out))))"

subsection \<open>What the attributes and the conventions say\<close>

record attrs =
  at_vendored :: string
  at_generated :: string
  at_test :: string

definition no_attrs :: attrs where
  "no_attrs = \<lparr>at_vendored = '''', at_generated = '''', at_test = ''''\<rparr>"

definition attr_value :: "string \<Rightarrow> string" where
  "attr_value v =
     (if v = ''set'' \<or> v = ''true'' then ''set''
      else if v = ''unset'' \<or> v = ''false'' then ''unset'' else '''')"

definition set_attr :: "string \<Rightarrow> string \<Rightarrow> attrs \<Rightarrow> attrs" where
  "set_attr name v a =
     (if name = ''linguist-vendored'' then a\<lparr>at_vendored := v\<rparr>
      else if name = ''linguist-generated'' then a\<lparr>at_generated := v\<rparr>
      else if name = ''afk-test'' then a\<lparr>at_test := v\<rparr> else a)"

fun read_attrs :: "string list \<Rightarrow> (string \<Rightarrow> attrs) \<Rightarrow> (string \<Rightarrow> attrs)" where
  "read_attrs (p # name # v # fs) got =
     read_attrs fs (got(p := set_attr name (attr_value v) (got p)))"
| "read_attrs _ got = got"

definition attributes :: "string \<Rightarrow> string \<Rightarrow> attrs" where
  "attributes out = read_attrs (split_on CHR 0x00 out) (\<lambda>_. no_attrs)"

definition in_category :: "string \<Rightarrow> bool \<Rightarrow> bool" where
  "in_category attribute convention =
     (if attribute \<noteq> '''' then attribute = ''set'' else convention)"

datatype grep_result = GrepMatched string | GrepNothing | GrepFailed

definition generated_by_header :: "(string list \<Rightarrow> grep_result) \<Rightarrow> string \<Rightarrow> string list \<Rightarrow> string list option" where
  "generated_by_header grep head paths =
     (if paths = [] then Some []
      else (case grep paths of
          GrepNothing \<Rightarrow> Some []
        | GrepFailed \<Rightarrow> None
        | GrepMatched out \<Rightarrow>
            Some (map (\<lambda>p. trim_prefix p (head @ '':''))
              (filter (\<lambda>p. p \<noteq> '''') (split_on CHR 0x00 out)))))"

definition vendored :: "string \<Rightarrow> bool" where
  "vendored p =
     list_ex (\<lambda>dir. dir \<in> {''vendor'', ''third_party'', ''node_modules''})
       (split_on CHR ''/'' (path_dir p))"

definition lock :: "string \<Rightarrow> bool" where
  "lock p =
     (let base = path_base p in
      base \<in> {''go.sum'', ''go.work.sum'', ''Package.resolved'', ''npm-shrinkwrap.json''} \<or>
      list_ex (has_suffix base) [''.lock'', ''.lockb'', ''.lock.json'', ''-lock.json'', ''-lock.yaml''])"

definition test_path :: "string \<Rightarrow> bool" where
  "test_path p =
     (if list_ex (\<lambda>dir. dir \<in> {''test'', ''tests'', ''testdata'', ''__tests__'', ''spec''})
           (split_on CHR ''/'' (path_dir p)) then True
      else
        let base = path_base p; stem = trim_suffix base (path_ext base) in
        has_suffix stem ''_test'' \<or> has_suffix stem ''.test'' \<or> has_suffix stem ''.spec'' \<or>
        has_suffix stem ''_spec'' \<or> (has_prefix base ''test_'' \<and> path_ext base = ''.py''))"

subsection \<open>Measuring\<close>

definition left_out :: "(string \<Rightarrow> attrs) \<Rightarrow> diff_file \<Rightarrow> bool" where
  "left_out at f =
     (in_category (at_vendored (at (fi_path f))) (vendored (fi_path f)) \<or>
      in_category (at_generated (at (fi_path f))) (lock (fi_path f)))"

fun count_files :: "(string \<Rightarrow> attrs) \<Rightarrow> string list \<Rightarrow> diff_file list \<Rightarrow> count \<Rightarrow> count" where
  "count_files at marked [] c = c"
| "count_files at marked (f # fs) c =
     count_files at marked fs
       (if fi_path f \<in> set marked then c
        else if in_category (at_test (at (fi_path f))) (test_path (fi_path f))
        then c\<lparr>ct_tests := ct_tests c + fi_lines f\<rparr>
        else c\<lparr>ct_lines := ct_lines c + fi_lines f\<rparr>)"

definition measure_diff ::
    "string option \<Rightarrow> string option \<Rightarrow> (string list \<Rightarrow> string option) \<Rightarrow> (string list \<Rightarrow> grep_result) \<Rightarrow>
     string \<Rightarrow> count option" where
  "measure_diff deleted numstat check_attr grep head =
     (case changed_files deleted numstat of
        None \<Rightarrow> None
      | Some files \<Rightarrow>
          if files = [] then Some \<lparr>ct_lines = 0, ct_tests = 0\<rparr>
          else (case check_attr (map fi_path files) of
              None \<Rightarrow> None
            | Some out \<Rightarrow>
                let at = attributes out;
                    kept = filter (\<lambda>f. \<not> left_out at f) files;
                    unknown = map fi_path (filter (\<lambda>f. at_generated (at (fi_path f)) = '''') kept)
                in (case generated_by_header grep head unknown of
                      None \<Rightarrow> None
                    | Some marked \<Rightarrow> Some (count_files at marked kept \<lparr>ct_lines = 0, ct_tests = 0\<rparr>))))"

subsection \<open>Every changed line is counted once, in one place\<close>

datatype part = Left_out | Tests | Counted

definition diff_part :: "(string \<Rightarrow> attrs) \<Rightarrow> string list \<Rightarrow> diff_file \<Rightarrow> part" where
  "diff_part at marked f =
     (if left_out at f \<or> fi_path f \<in> set marked then Left_out
      else if in_category (at_test (at (fi_path f))) (test_path (fi_path f)) then Tests
      else Counted)"

definition part_lines :: "(diff_file \<Rightarrow> part) \<Rightarrow> part \<Rightarrow> diff_file list \<Rightarrow> int" where
  "part_lines part x files = sum_list (map fi_lines (filter (\<lambda>f. part f = x) files))"

lemma count_files_eq:
  "count_files at marked (filter (\<lambda>f. \<not> left_out at f) files) c =
     \<lparr>ct_lines = ct_lines c + part_lines (diff_part at marked) Counted files,
      ct_tests = ct_tests c + part_lines (diff_part at marked) Tests files\<rparr>"
  by (induction files arbitrary: c) (simp_all add: part_lines_def diff_part_def)

lemma lines_of_all:
  "part_lines part Left_out files + part_lines part Tests files + part_lines part Counted files =
     sum_list (map fi_lines files)"
proof (induction files)
  case (Cons f fs)
  then show ?case by (cases "part f") (simp_all add: part_lines_def)
qed (simp add: part_lines_def)

text \<open>The size of a diff is a partition of its changed lines: with what was left out, its tests
  and its counted lines add up to every changed line of every file not deleted whole; a file
  is left out by being vendored, a lock file or generated, tests are counted beside the rest,
  and for each of them the repository's own attribute overrides the convention both ways.\<close>

theorem size_partitions_the_diff:
  assumes "measure_diff deleted numstat check_attr grep head = Some c"
    and "changed_files deleted numstat = Some files" and "files \<noteq> []"
    and "check_attr (map fi_path files) = Some out"
  shows "\<exists>marked. let part = diff_part (attributes out) marked in
    ct_lines c = part_lines part Counted files \<and> ct_tests c = part_lines part Tests files \<and>
    ct_lines c + ct_tests c + part_lines part Left_out files = sum_list (map fi_lines files) \<and>
    (\<forall>f\<in>set files.
       (at_vendored (attributes out (fi_path f)) = ''set'' \<longrightarrow> part f = Left_out) \<and>
       (at_generated (attributes out (fi_path f)) = ''set'' \<longrightarrow> part f = Left_out) \<and>
       (part f \<noteq> Left_out \<and> at_test (attributes out (fi_path f)) = ''set'' \<longrightarrow> part f = Tests) \<and>
       (part f \<noteq> Left_out \<and> at_test (attributes out (fi_path f)) = ''unset'' \<longrightarrow> part f = Counted))"
proof -
  from assms obtain marked where "c = count_files (attributes out) marked
      (filter (\<lambda>f. \<not> left_out (attributes out) f) files) \<lparr>ct_lines = 0, ct_tests = 0\<rparr>"
    by (auto simp: measure_diff_def Let_def split: option.splits)
  then have c: "ct_lines c = part_lines (diff_part (attributes out) marked) Counted files"
    "ct_tests c = part_lines (diff_part (attributes out) marked) Tests files"
    by (simp_all add: count_files_eq)
  show ?thesis
    using lines_of_all [of "diff_part (attributes out) marked" files]
    by (intro exI [of _ marked])
      (auto simp: Let_def c diff_part_def left_out_def in_category_def)
qed

definition example_numstat :: string where
  "example_numstat = ''3'' @ [CHR 0x09] @ ''1'' @ [CHR 0x09] @ ''main.go'' @ [CHR 0x00] @
     ''5'' @ [CHR 0x09] @ ''0'' @ [CHR 0x09] @ ''main_test.go'' @ [CHR 0x00] @
     ''900'' @ [CHR 0x09] @ ''0'' @ [CHR 0x09] @ ''vendor/x/y.go'' @ [CHR 0x00] @
     ''2'' @ [CHR 0x09] @ ''2'' @ [CHR 0x09, CHR 0x00] @ ''old.go'' @ [CHR 0x00] @ ''new.go'' @ [CHR 0x00] @
     ''0'' @ [CHR 0x09] @ ''70'' @ [CHR 0x09] @ ''gone.go'' @ [CHR 0x00]"

definition example_attr :: string where
  "example_attr = ''new.go'' @ [CHR 0x00] @ ''afk-test'' @ [CHR 0x00] @ ''set'' @ [CHR 0x00]"

lemma example_changed:
  "changed_files (Some (''gone.go'' @ [CHR 0x00])) (Some example_numstat) =
     Some [\<lparr>fi_path = ''main.go'', fi_lines = 4\<rparr>, \<lparr>fi_path = ''main_test.go'', fi_lines = 5\<rparr>,
           \<lparr>fi_path = ''vendor/x/y.go'', fi_lines = 900\<rparr>, \<lparr>fi_path = ''new.go'', fi_lines = 4\<rparr>]"
  by code_simp

lemma example_measure:
  "measure_diff (Some (''gone.go'' @ [CHR 0x00])) (Some example_numstat)
     (\<lambda>_. Some example_attr) (\<lambda>_. GrepNothing) ''abc'' = Some \<lparr>ct_lines = 4, ct_tests = 9\<rparr>"
  by code_simp

definition example_files :: "diff_file list" where
  "example_files =
     [\<lparr>fi_path = ''main.go'', fi_lines = 4\<rparr>, \<lparr>fi_path = ''main_test.go'', fi_lines = 5\<rparr>,
      \<lparr>fi_path = ''vendor/x/y.go'', fi_lines = 900\<rparr>, \<lparr>fi_path = ''new.go'', fi_lines = 4\<rparr>]"

theorem size_partitions_the_diff_witness:
  "\<exists>marked. part_lines (diff_part (attributes example_attr) marked) Left_out example_files = 900"
proof -
  have ne: "example_files \<noteq> []" and total: "sum_list (map fi_lines example_files) = 913"
    by (simp_all add: example_files_def)
  from size_partitions_the_diff [OF example_measure example_changed [folded example_files_def] ne refl]
  obtain marked where "ct_lines \<lparr>ct_lines = 4, ct_tests = 9\<rparr> + ct_tests \<lparr>ct_lines = 4, ct_tests = 9\<rparr> +
      part_lines (diff_part (attributes example_attr) marked) Left_out example_files =
      sum_list (map fi_lines example_files)"
    unfolding Let_def by blast
  then show ?thesis unfolding total by (intro exI [of _ marked]) simp
qed

end
