(* ===== verification/Afk_Strings.thy ===== *)
theory Afk_Strings
  imports Afk_Prelude
begin

text \<open>
  More of Go's package \<^verbatim>\<open>strings\<close>, and the escapes of package \<^verbatim>\<open>net/url\<close>: searching,
  replacing and trimming, on strings of bytes, with the facts the components share.
\<close>

subsection \<open>Searching\<close>

fun index_of :: "string \<Rightarrow> string \<Rightarrow> nat option" where
  "index_of [] t = (if t = [] then Some 0 else None)"
| "index_of (x # xs) t =
     (if has_prefix (x # xs) t then Some 0 else map_option Suc (index_of xs t))"

fun last_index_of :: "string \<Rightarrow> string \<Rightarrow> nat option" where
  "last_index_of [] t = (if t = [] then Some 0 else None)"
| "last_index_of (x # xs) t =
     (case last_index_of xs t of
        Some i \<Rightarrow> Some (Suc i)
      | None \<Rightarrow> if has_prefix (x # xs) t then Some 0 else None)"

definition contains :: "string \<Rightarrow> string \<Rightarrow> bool" where
  "contains s t \<longleftrightarrow> index_of s t \<noteq> None"

lemma index_of_Some: "index_of s t = Some i \<Longrightarrow> i \<le> length s \<and> has_prefix (drop i s) t"
  by (induction s arbitrary: i) (auto simp: has_prefix_def split: if_splits)

lemma index_of_split: "index_of s t = Some i \<Longrightarrow> s = take i s @ t @ drop (i + length t) s"
proof -
  assume "index_of s t = Some i"
  then have "has_prefix (drop i s) t" using index_of_Some by blast
  then obtain r where r: "drop i s = t @ r" by (auto simp: has_prefix_conv)
  then have "drop (i + length t) s = r" by (metis add.commute append_eq_conv_conj drop_drop)
  with r show ?thesis by (metis append_take_drop_id)
qed

lemma index_of_None_iff: "index_of s t = None \<longleftrightarrow> (\<forall>i\<le>length s. \<not> has_prefix (drop i s) t)"
proof (induction s)
  case Nil
  then show ?case by (auto simp: has_prefix_def)
next
  case (Cons x xs)
  have "(\<forall>i\<le>length (x # xs). \<not> has_prefix (drop i (x # xs)) t) \<longleftrightarrow>
      \<not> has_prefix (x # xs) t \<and> (\<forall>i\<le>length xs. \<not> has_prefix (drop i xs) t)"
    unfolding less_Suc_eq_le [symmetric] list.size(4) add_Suc_right add_0_right All_less_Suc2 by simp
  with Cons show ?case by auto
qed

lemma contains_iff: "contains s t \<longleftrightarrow> (\<exists>a b. s = a @ t @ b)"
proof
  assume "contains s t"
  then show "\<exists>a b. s = a @ t @ b" using index_of_split [of s t] unfolding contains_def by blast
next
  assume "\<exists>a b. s = a @ t @ b"
  then obtain a b where "s = a @ t @ b" by blast
  then have "has_prefix (drop (length a) s) t" "length a \<le> length s" by simp_all
  then show "contains s t" unfolding contains_def index_of_None_iff by blast
qed

lemma index_of_first: "index_of s t = Some i \<Longrightarrow> j < i \<Longrightarrow> \<not> has_prefix (drop j s) t"
proof (induction s arbitrary: i j)
  case Nil
  then show ?case by (auto split: if_splits)
next
  case (Cons x xs)
  then show ?case by (cases j) (auto split: if_splits)
qed

lemma last_index_of_Some: "last_index_of s t = Some i \<Longrightarrow> i \<le> length s \<and> has_prefix (drop i s) t"
  by (induction s arbitrary: i) (auto simp: has_prefix_def split: if_splits option.splits)

lemma last_index_of_None_iff: "last_index_of s t = None \<longleftrightarrow> \<not> contains s t"
  by (induction s) (auto simp: contains_def has_prefix_def split: option.splits)

lemma last_index_of_last:
  "last_index_of s t = Some i \<Longrightarrow> i < j \<Longrightarrow> j \<le> length s \<Longrightarrow> \<not> has_prefix (drop j s) t"
proof (induction s arbitrary: i j)
  case Nil
  then show ?case by (auto split: if_splits)
next
  case (Cons x xs)
  show ?case
  proof (cases "last_index_of xs t")
    case None
    then have "index_of xs t = None" by (simp add: last_index_of_None_iff contains_def)
    with None Cons.prems show ?thesis
      by (cases j) (auto simp: index_of_None_iff split: if_splits)
  next
    case (Some k)
    with Cons show ?thesis by (cases j) auto
  qed
qed

text \<open>A string whose first character occurs in it once never straddles that character.\<close>

lemma mark_before:
  assumes t: "t = c # rest" "c \<notin> set rest"
    and p: "has_prefix (drop i (m @ c # r)) t" and i: "i < length m"
  shows "contains m t"
proof -
  obtain b where b: "drop i m @ c # r = t @ b" using p i by (auto simp: has_prefix_conv)
  show ?thesis
  proof (cases "length t \<le> length m - i")
    case True
    then have "drop i m = t @ take (length m - i - length t) b"
      using arg_cong [OF b, of "take (length m - i)"] by simp
    then have "m = take i m @ t @ take (length m - i - length t) b" by (metis append_take_drop_id)
    then show ?thesis unfolding contains_iff by blast
  next
    case False
    define k where "k = length m - i"
    have k: "0 < k" "k < length t" using False i by (auto simp: k_def)
    have "(drop i m @ c # r) ! k = c" by (simp add: nth_append k_def)
    moreover have "(t @ b) ! k = t ! k" using k by (simp add: nth_append)
    ultimately have "t ! k = c" using b by simp
    with k t have "rest ! (k - 1) = c" "k - 1 < length rest" by (auto simp: nth_Cons')
    with t(2) show ?thesis by (metis nth_mem)
  qed
qed

lemma mark_not_straddling:
  assumes t: "t = c # rest" "c \<notin> set rest"
    and cs: "contains (m @ c # r) t"
  shows "contains m t \<or> contains (c # r) t"
proof -
  obtain a b where ab: "m @ c # r = a @ t @ b" using cs by (auto simp: contains_iff)
  show ?thesis
  proof (cases "length m \<le> length a")
    case True
    then have "c # r = drop (length m) a @ t @ b"
      using arg_cong [OF ab, of "drop (length m)"] by simp
    then show ?thesis unfolding contains_iff by blast
  next
    case False
    then show ?thesis using mark_before [OF t, of "length a" m r] by (simp add: ab)
  qed
qed

lemma contains_Cons: "contains (x # s) t \<longleftrightarrow> has_prefix (x # s) t \<or> contains s t"
  by (auto simp: contains_def)

lemma index_of_mark:
  assumes t: "t = c # rest" "c \<notin> set rest" and no: "\<not> contains m t"
  shows "index_of (m @ t @ z) t = Some (length m)"
proof -
  let ?s = "m @ t @ z"
  have "contains ?s t" unfolding contains_iff by blast
  then obtain i where i: "index_of ?s t = Some i" by (cases "index_of ?s t") (auto simp: contains_def)
  then have pre: "has_prefix (drop i ?s) t" using index_of_Some by blast
  have "\<not> length m < i" using index_of_first [OF i, of "length m"] by auto
  moreover have "\<not> i < length m"
    using mark_before [OF t, of i m "rest @ z"] pre no by (auto simp: t(1))
  ultimately show ?thesis using i by simp
qed

lemma last_index_of_mark:
  assumes t: "t = c # rest" "c \<notin> set rest" and no: "\<not> contains z t"
  shows "last_index_of (a @ t @ z) t = Some (length a)"
proof -
  let ?s = "a @ t @ z"
  have "contains ?s t" unfolding contains_iff by blast
  then obtain i where i: "last_index_of ?s t = Some i"
    by (cases "last_index_of ?s t") (auto simp: last_index_of_None_iff)
  then have pre: "has_prefix (drop i ?s) t" "i \<le> length ?s" using last_index_of_Some by blast+
  have "\<not> length a < i"
  proof
    assume less: "length a < i"
    show False
    proof (cases "i < length a + length t")
      case True
      then have "drop i ?s = drop (i - length a) t @ z" using less by simp
      moreover have "drop (i - length a) t = t ! (i - length a) # drop (Suc (i - length a)) t"
        using True less by (intro Cons_nth_drop_Suc [symmetric]) simp
      ultimately have "t ! (i - length a) = c"
        using pre(1) by (simp add: has_prefix_def t(1))
      then have "rest ! (i - length a - 1) = c" using less by (simp add: t(1) nth_Cons')
      moreover have "i - length a - 1 < length rest" using True less by (simp add: t(1))
      ultimately show False using t(2) nth_mem by metis
    next
      case False
      then have "drop i ?s = drop (i - length a - length t) z" by simp
      with pre(1) have "\<exists>u v. z = u @ t @ v" by (metis append_take_drop_id has_prefix_conv)
      with no show False by (simp add: contains_iff)
    qed
  qed
  moreover have "\<not> i < length a" using last_index_of_last [OF i, of "length a"] by auto
  ultimately show ?thesis using i by simp
qed

subsection \<open>Replacing and trimming\<close>

text \<open>\<^verbatim>\<open>strings.Replace(s, old, new, 1)\<close>.\<close>

definition replace_first :: "string \<Rightarrow> string \<Rightarrow> string \<Rightarrow> string" where
  "replace_first s old new_s =
     (case index_of s old of
        None \<Rightarrow> s
      | Some i \<Rightarrow> take i s @ new_s @ drop (i + length old) s)"

text \<open>\<^verbatim>\<open>strings.TrimRight\<close> and \<^verbatim>\<open>strings.TrimLeft\<close> for one character.\<close>

definition trim_right :: "string \<Rightarrow> char \<Rightarrow> string" where
  "trim_right s c = rev (dropWhile (\<lambda>x. x = c) (rev s))"

definition trim_left :: "string \<Rightarrow> char \<Rightarrow> string" where
  "trim_left s c = dropWhile (\<lambda>x. x = c) s"

lemma trim_right_append: "\<exists>n. s = trim_right s c @ replicate n c"
proof -
  have "rev s = takeWhile (\<lambda>x. x = c) (rev s) @ dropWhile (\<lambda>x. x = c) (rev s)" by simp
  moreover have "takeWhile (\<lambda>x. x = c) (rev s) = replicate (length (takeWhile (\<lambda>x. x = c) (rev s))) c"
    by (rule replicate_eqI) (auto dest: set_takeWhileD)
  ultimately have "s = trim_right s c @ rev (replicate (length (takeWhile (\<lambda>x. x = c) (rev s))) c)"
    unfolding trim_right_def by (metis rev_append rev_rev_ident)
  then show ?thesis by (auto simp: rev_replicate)
qed

lemma trim_right_last: "trim_right s c \<noteq> '''' \<Longrightarrow> last (trim_right s c) \<noteq> c"
  unfolding trim_right_def
  using hd_dropWhile [of "\<lambda>x. x = c" "rev s"] by (simp add: last_rev)

text \<open>\<^verbatim>\<open>strings.Fields\<close>.\<close>

function words :: "string \<Rightarrow> string list" where
  "words [] = []"
| "words (x # xs) =
     (if is_space x then words xs
      else (x # takeWhile (\<lambda>c. \<not> is_space c) xs) #
        words (dropWhile (\<lambda>c. \<not> is_space c) xs))"
  by pat_completeness auto
termination
  by (relation "measure length") (auto simp: le_imp_less_Suc length_dropWhile_le)

lemma words_no_space: "w \<in> set (words s) \<Longrightarrow> w \<noteq> '''' \<and> list_all (\<lambda>c. \<not> is_space c) w"
proof (induction s rule: words.induct)
  case 1
  then show ?case by simp
next
  case (2 x xs)
  have "list_all (\<lambda>c. \<not> is_space c) (takeWhile (\<lambda>c. \<not> is_space c) xs)"
    unfolding list_all_iff by (blast dest: set_takeWhileD)
  with 2 show ?case by (cases "is_space x") auto
qed

subsection \<open>Escapes in a URL\<close>

definition hex_digit :: "nat \<Rightarrow> char" where
  "hex_digit n = (if n < 10 then char_of (48 + n) else char_of (55 + n))"

definition percent :: "char \<Rightarrow> string" where
  "percent c = (let n = of_char c :: nat in [CHR ''%'', hex_digit (n div 16), hex_digit (n mod 16)])"

definition unreserved :: "char \<Rightarrow> bool" where
  "unreserved c \<longleftrightarrow> (let n = of_char c :: nat in
     48 \<le> n \<and> n \<le> 57 \<or> 65 \<le> n \<and> n \<le> 90 \<or> 97 \<le> n \<and> n \<le> 122 \<or>
     c \<in> {CHR ''-'', CHR ''_'', CHR ''.'', CHR ''~''})"

text \<open>\<^verbatim>\<open>url.PathEscape\<close> and \<^verbatim>\<open>url.QueryEscape\<close>.\<close>

definition path_escape :: "string \<Rightarrow> string" where
  "path_escape s = concat (map (\<lambda>c.
     if unreserved c \<or> c \<in> {CHR ''$'', CHR ''&'', CHR ''+'', CHR '':'', CHR ''='', CHR ''@''}
     then [c] else percent c) s)"

definition query_escape :: "string \<Rightarrow> string" where
  "query_escape s = concat (map (\<lambda>c.
     if unreserved c then [c] else if c = CHR '' '' then ''+'' else percent c) s)"

end
