(* ===== verification/Spend.thy ===== *)
theory Spend
  imports Catalogue Afk_Strings
begin

text \<open>
  What a job's model runs cost and the footer that says so, \<^verbatim>\<open>internal/spend/spend.go\<close>, with
  the reply of a run it counts (\<^verbatim>\<open>opencode.Reply\<close>). A cost is an exact rational where the code
  has a \<^verbatim>\<open>float64\<close>, and the two ways a float is written are a parameter. A footer is found again
  by its hidden lines, brought up to date in place, and taken out for a reader that is to be
  unaware of it.
\<close>

record run_tokens =
  tn_input :: int
  tn_output :: int
  tn_reasoning :: int
  tn_cache_read :: int
  tn_cache_write :: int

definition no_tokens :: run_tokens where
  "no_tokens = \<lparr>tn_input = 0, tn_output = 0, tn_reasoning = 0, tn_cache_read = 0, tn_cache_write = 0\<rparr>"

record run_reply =
  oc_text :: string
  oc_cost :: rat
  oc_session :: string
  oc_tokens :: run_tokens
  oc_last_input :: int
  oc_sub_agents :: int
  oc_unread :: int

definition footer_open :: string where
  "footer_open = ''<!-- afk:spend -->''"

definition footer_close :: string where
  "footer_close = ''<!-- /afk:spend -->''"

record spend_line =
  sl_model :: string
  sl_input :: int
  sl_output :: int
  sl_reasoning :: int
  sl_cache_read :: int
  sl_cache_write :: int
  sl_cost :: rat
  sl_listed :: rat
  sl_priced :: bool
  sl_sub_agents :: int
  sl_unread :: int

type_synonym spent = "spend_line list"

definition new_line :: "string \<Rightarrow> spend_line" where
  "new_line r = \<lparr>sl_model = r, sl_input = 0, sl_output = 0, sl_reasoning = 0, sl_cache_read = 0,
     sl_cache_write = 0, sl_cost = 0, sl_listed = 0, sl_priced = False, sl_sub_agents = 0, sl_unread = 0\<rparr>"

text \<open>\<^verbatim>\<open>s.line(ref)\<close> and what is done through the pointer it gives.\<close>

fun update_line :: "string \<Rightarrow> (spend_line \<Rightarrow> spend_line) \<Rightarrow> spent \<Rightarrow> spent" where
  "update_line r f [] = [f (new_line r)]"
| "update_line r f (l # ls) = (if sl_model l = r then f l # ls else l # update_line r f ls)"

definition listed_cost :: "price \<Rightarrow> run_tokens \<Rightarrow> rat" where
  "listed_cost p t =
     (let w = (if pr_cache_write p = 0 then pr_input p else pr_cache_write p) in
      (of_int (tn_input t) * pr_input p + of_int (tn_output t + tn_reasoning t) * pr_output p +
       of_int (tn_cache_read t) * pr_cache_read p + of_int (tn_cache_write t) * w) / 1000000)"

definition count_run :: "(ref \<Rightarrow> price) option \<Rightarrow> ref \<Rightarrow> run_reply \<Rightarrow> spend_line \<Rightarrow> spend_line" where
  "count_run prices r a l0 =
     (let t = oc_tokens a;
          l = l0\<lparr>sl_input := sl_input l0 + tn_input t, sl_output := sl_output l0 + tn_output t,
            sl_reasoning := sl_reasoning l0 + tn_reasoning t,
            sl_cache_read := sl_cache_read l0 + tn_cache_read t,
            sl_cache_write := sl_cache_write l0 + tn_cache_write t\<rparr>;
          l = (if 0 < oc_cost a then l\<lparr>sl_cost := sl_cost l + oc_cost a, sl_priced := True\<rparr>
               else (case prices of
                   Some p \<Rightarrow>
                     if t \<noteq> no_tokens \<and> pr_known (p r)
                     then l\<lparr>sl_listed := sl_listed l + listed_cost (p r) t, sl_priced := True\<rparr> else l
                 | None \<Rightarrow> l))
      in l\<lparr>sl_sub_agents := sl_sub_agents l + oc_sub_agents a, sl_unread := sl_unread l + oc_unread a\<rparr>)"

definition spend_add :: "(ref \<Rightarrow> price) option \<Rightarrow> ref \<Rightarrow> run_reply \<Rightarrow> spent \<Rightarrow> spent" where
  "spend_add prices r a s =
     (if oc_tokens a = no_tokens \<and> oc_cost a = 0 \<and> oc_sub_agents a = 0 then s
      else update_line (ref_string r) (count_run prices r a) s)"

subsection \<open>The footer\<close>

text \<open>\<^verbatim>\<open>%.4f\<close> of a cost, and \<^verbatim>\<open>%.1f\<close> of a count in a unit.\<close>

record float_text =
  ft_cost :: "rat \<Rightarrow> string"
  ft_tenths :: "int \<Rightarrow> int \<Rightarrow> string"

definition trim_tenths :: "string \<Rightarrow> string" where
  "trim_tenths s = (if has_suffix s ''.0'' then take (length s - 2) s else s)"

definition token_count :: "float_text \<Rightarrow> int \<Rightarrow> string" where
  "token_count ft n =
     (if n < 1000 then dec n
      else if n < 999950 then trim_tenths (ft_tenths ft n 1000) @ ''k''
      else trim_tenths (ft_tenths ft n 1000000) @ ''M'')"

definition middle_dot :: string where
  "middle_dot = [CHR '' '', CHR 0xC2, CHR 0xB7, CHR '' '']"

definition at_least :: string where
  "at_least = [CHR 0xE2, CHR 0x89, CHR 0xA5, CHR '' '']"

definition line_cost :: "float_text \<Rightarrow> spend_line \<Rightarrow> string" where
  "line_cost ft l =
     (let total = sl_cost l + sl_listed l;
          cost = (if sl_priced l \<or> 0 < total
                  then (if 0 < sl_unread l then at_least else '''') @ ''$'' @ ft_cost ft total
                  else ''no listed price'')
      in cost @
         (if 0 < sl_listed l \<and> sl_cost l = 0 then '' at the catalogue's dearest price''
          else if 0 < sl_listed l
          then '', $'' @ ft_cost ft (sl_listed l) @ '' of it at the catalogue's dearest price'' else '''') @
         (if sl_unread l = 0 then ''''
          else if sl_unread l = 1 then '', with 1 sub-agent's cost unread''
          else '', with '' @ dec (sl_unread l) @ '' sub-agents' cost unread''))"

definition line_text :: "float_text \<Rightarrow> spend_line \<Rightarrow> string" where
  "line_text ft l =
     (let who = sl_model l @ (if 0 < sl_sub_agents l then '' and its sub-agents'' else '''');
          into = token_count ft (sl_input l + sl_cache_read l + sl_cache_write l) @ '' in'' @
            (if 0 < sl_cache_read l then '' ('' @ token_count ft (sl_cache_read l) @ '' cached)'' else '''');
          out = token_count ft (sl_output l + sl_reasoning l) @ '' out''
      in who @ middle_dot @ into @ middle_dot @ out @ middle_dot @ line_cost ft l)"

definition nl :: string where
  "nl = [CHR 0x0A]"

definition footer :: "float_text \<Rightarrow> spent \<Rightarrow> string" where
  "footer ft s =
     (if s = [] then ''''
      else footer_open @ nl @
        ''<sub>What this job's own model runs cost, estimated at list price: not a bill, and not the account's spend.'' @
        concat (map (\<lambda>l. ''<br>'' @ nl @ line_text ft l) s) @ ''</sub>'' @ nl @ footer_close)"

definition held_footer :: "float_text \<Rightarrow> spent \<Rightarrow> string" where
  "held_footer ft s = (if footer ft s \<noteq> '''' then footer ft s else footer_open @ nl @ footer_close)"

text \<open>Where a body's footer is: what is before the last opening line and what follows the closing
  line after it.\<close>

definition find_footer :: "string \<Rightarrow> (string \<times> string) option" where
  "find_footer body =
     (case last_index_of body footer_open of
        None \<Rightarrow> None
      | Some i \<Rightarrow>
          (case index_of (drop i body) footer_close of
             None \<Rightarrow> None
           | Some j \<Rightarrow> Some (take i body, drop (i + j + length footer_close) body)))"

definition with_footer :: "string \<Rightarrow> string \<Rightarrow> string" where
  "with_footer body f =
     (case find_footer body of
        Some (a, z) \<Rightarrow> a @ (if f = '''' then footer_open @ nl @ footer_close else f) @ z
      | None \<Rightarrow> if f = '''' then body else trim_right body (CHR 0x0A) @ nl @ nl @ f @ nl)"

definition strip_footer :: "string \<Rightarrow> string" where
  "strip_footer body =
     (case find_footer body of
        None \<Rightarrow> body
      | Some (a, z) \<Rightarrow> trim_right a (CHR 0x0A) @ nl @ trim_left z (CHR 0x0A))"


subsection \<open>A footer is found again\<close>

lemma tags:
  "footer_open = CHR ''<'' # ''!-- afk:spend -->''" "CHR ''<'' \<notin> set ''!-- afk:spend -->''"
  "footer_close = CHR ''<'' # ''!-- /afk:spend -->''" "CHR ''<'' \<notin> set ''!-- /afk:spend -->''"
  by (simp_all add: footer_open_def footer_close_def)

lemma no_open_past_close: "\<not> contains z footer_open \<Longrightarrow> \<not> contains (footer_close @ z) footer_open"
  by (simp add: footer_open_def footer_close_def contains_Cons has_prefix_def)

definition is_footer :: "string \<Rightarrow> bool" where
  "is_footer f \<longleftrightarrow> (\<exists>m. f = footer_open @ m @ footer_close \<and>
     \<not> contains m footer_open \<and> \<not> contains m footer_close)"

lemma first_tag:
  assumes "\<not> contains m footer_close"
  shows "index_of (footer_open @ m @ footer_close @ z) footer_close =
    Some (length footer_open + length m)"
proof -
  have "\<not> contains (footer_open @ m) footer_close"
    using assms by (simp add: footer_open_def footer_close_def contains_Cons has_prefix_def)
  from index_of_mark [OF tags(3,4) this, of z] show ?thesis by simp
qed

lemma find_footer_at:
  assumes "is_footer f" and "\<not> contains z footer_open"
  shows "find_footer (a @ f @ z) = Some (a, z)"
proof -
  obtain m where m: "f = footer_open @ m @ footer_close" "\<not> contains m footer_open"
    "\<not> contains m footer_close" using assms(1) by (auto simp: is_footer_def)
  have no: "\<not> contains (m @ footer_close @ z) footer_open"
  proof
    assume "contains (m @ footer_close @ z) footer_open"
    then have "contains m footer_open \<or> contains (footer_close @ z) footer_open"
      using mark_not_straddling [OF tags(1,2), of m "''!-- /afk:spend -->'' @ z"]
      by (simp add: footer_close_def)
    with m(2) no_open_past_close [OF assms(2)] show False by blast
  qed
  have s: "a @ f @ z = a @ footer_open @ (m @ footer_close @ z)" by (simp add: m(1))
  have i: "last_index_of (a @ f @ z) footer_open = Some (length a)"
    unfolding s by (rule last_index_of_mark [OF tags(1,2) no])
  have d: "drop (length a) (a @ f @ z) = footer_open @ m @ footer_close @ z" by (simp add: s)
  have j: "index_of (drop (length a) (a @ f @ z)) footer_close = Some (length footer_open + length m)"
    unfolding d by (rule first_tag [OF m(3)])
  show ?thesis unfolding find_footer_def i option.simps j by (simp add: m(1))
qed

lemma find_footer_SomeD:
  assumes "find_footer body = Some (a, z)"
  shows "\<not> contains z footer_open"
proof
  assume c: "contains z footer_open"
  from assms obtain i j where i: "last_index_of body footer_open = Some i"
    and j: "index_of (drop i body) footer_close = Some j"
    and z: "z = drop (i + j + length footer_close) body"
    by (auto simp: find_footer_def split: option.splits)
  from c obtain u v where "z = u @ footer_open @ v" by (auto simp: contains_iff)
  then have "has_prefix (drop (i + j + length footer_close + length u) body) footer_open"
    by (metis drop_drop add.commute append_eq_conv_conj has_prefix_append z)
  moreover have "i + j + length footer_close + length u \<le> length body"
  proof (rule ccontr)
    assume "\<not> ?thesis"
    then have "z = [] \<or> length z < length u" using z by auto
    with \<open>z = u @ footer_open @ v\<close> show False by (auto simp: footer_open_def)
  qed
  moreover have "i < i + j + length footer_close + length u" by (simp add: footer_close_def)
  ultimately show False using last_index_of_last [OF i] by blast
qed

lemma is_footer_ne: "is_footer f \<Longrightarrow> f \<noteq> ''''"
  by (auto simp: is_footer_def footer_open_def)

lemma no_open_nl: "\<not> contains nl footer_open"
  by (simp add: nl_def contains_Cons has_prefix_def footer_open_def) (simp add: contains_def)

text \<open>A description's footer is brought up to date and nothing else is touched: whatever a session
  wrote before it, an opening line included, bringing in one footer and then another gives what
  the second alone gives, and a reader that is to be unaware of the price reads the same text
  whatever the footer says.\<close>

theorem footer_brought_up_to_date:
  assumes "is_footer f" and "is_footer g"
  shows "with_footer (with_footer body f) g = with_footer body g \<and>
    strip_footer (with_footer body f) = strip_footer (with_footer body g)"
proof (cases "find_footer body")
  case None
  let ?a = "trim_right body (CHR 0x0A) @ nl @ nl"
  have w: "with_footer body h = ?a @ h @ nl" if "is_footer h" for h
    using that None by (simp add: with_footer_def is_footer_ne)
  have "find_footer (?a @ h @ nl) = Some (?a, nl)" if "is_footer h" for h
    by (rule find_footer_at [OF that no_open_nl])
  then show ?thesis
    using assms by (simp add: w with_footer_def [of "_ @ _"] strip_footer_def is_footer_ne)
next
  case (Some p)
  obtain a z where p: "p = (a, z)" by (cases p)
  have w: "with_footer body h = a @ h @ z" if "is_footer h" for h
    using that Some by (simp add: with_footer_def is_footer_ne p)
  have "find_footer (a @ h @ z) = Some (a, z)" if "is_footer h" for h
    by (rule find_footer_at [OF that find_footer_SomeD]) (use Some p in simp)
  then show ?thesis
    using assms by (simp add: w with_footer_def [of "_ @ _"] strip_footer_def is_footer_ne)
qed

theorem footer_brought_up_to_date_witness:
  "with_footer (with_footer ''Done.'' (footer_open @ ''$1'' @ footer_close)) (footer_open @ nl @ footer_close) =
     ''Done.'' @ nl @ nl @ footer_open @ nl @ footer_close @ nl"
proof -
  have f: "is_footer (footer_open @ ''$1'' @ footer_close)"
    unfolding is_footer_def by (rule exI [of _ "''$1''"]) (simp, code_simp)
  have g: "is_footer (footer_open @ nl @ footer_close)"
    unfolding is_footer_def by (rule exI [of _ nl]) (simp, code_simp)
  have "with_footer ''Done.'' (footer_open @ nl @ footer_close) =
     ''Done.'' @ nl @ nl @ footer_open @ nl @ footer_close @ nl" by code_simp
  with footer_brought_up_to_date [OF f g, of "''Done.''"] show ?thesis by simp
qed

end
