(* ===== verification/Opencode.thy ===== *)
theory Opencode
  imports Spend
begin

text \<open>
  One run of one model, \<^verbatim>\<open>internal/opencode/opencode.go\<close>: the event stream a run writes read into
  a reply (\<open>decode_stream\<close>), the kind of failure a run was (\<open>run_command\<close>), the sessions of its
  sub-agents read for what they cost (\<open>count_sub_agents\<close>), and the tail of its stderr. How the
  process ended - what the operating system and the two contexts say of it - is a record, the
  parsing of one line of JSON and \<^verbatim>\<open>%q\<close> are parameters, and a cost is an exact rational where the code has
  a \<^verbatim>\<open>float64\<close>. Starting, waiting for and killing the process are not modelled.
\<close>

subsection \<open>Requests and errors\<close>

record run_request =
  rr_model :: ref
  rr_dir :: string
  rr_prompt :: string
  rr_session :: string
  rr_cost :: bool

definition no_reply :: run_reply where
  "no_reply = \<lparr>oc_text = '''', oc_cost = 0, oc_session = '''', oc_tokens = no_tokens, oc_last_input = 0,
     oc_sub_agents = 0, oc_unread = 0\<rparr>"

text \<open>A failure opencode reported, with the bound it ran out of or zero; a session it does not
  have; a failure no model could have avoided; and the caller's own cancellation.\<close>

datatype model_error =
    Transient ref string int
  | SessionGone string
  | Fatal string
  | Cancelled string

definition stderr_keep :: nat where
  "stderr_keep = 4096"

definition session_gone_text :: string where
  "session_gone_text = ''Session not found''"

subsection \<open>The tail of stderr\<close>

definition tail_write :: "string \<Rightarrow> string \<Rightarrow> string" where
  "tail_write buf p =
     (let buf = buf @ p; over = length buf - stderr_keep in if 0 < over then drop over buf else buf)"

subsection \<open>The event stream\<close>

record event_part =
  ep_text :: string
  ep_cost :: rat
  ep_tokens :: "run_tokens option"
  ep_tool :: string
  ep_session :: string

record run_event =
  ev_type :: string
  ev_session :: string
  ev_part :: event_part
  ev_error :: "(string \<times> string) option"

definition part_child :: "event_part \<Rightarrow> string" where
  "part_child p = (if ep_tool p \<noteq> ''task'' then '''' else ep_session p)"

definition add_tokens :: "run_tokens \<Rightarrow> run_tokens \<Rightarrow> run_tokens" where
  "add_tokens t u = \<lparr>tn_input = tn_input t + tn_input u, tn_output = tn_output t + tn_output u,
     tn_reasoning = tn_reasoning t + tn_reasoning u, tn_cache_read = tn_cache_read t + tn_cache_read u,
     tn_cache_write = tn_cache_write t + tn_cache_write u\<rparr>"

definition reported_error :: "run_event \<Rightarrow> string" where
  "reported_error ev =
     (case ev_error ev of
        None \<Rightarrow> ''opencode reported an error and did not say what''
      | Some (name, message) \<Rightarrow>
          if message = '''' then ''opencode reported '' @ name
          else ''opencode reported '' @ name @ '': '' @ message)"

definition cut_line :: "string \<Rightarrow> string" where
  "cut_line b = (if 120 < length b then take 120 b @ ''...'' else b)"

record decoding =
  de_reply :: run_reply
  de_children :: "string list"
  de_step :: "string list"
  de_reported :: "string option"

definition decoding_start :: decoding where
  "decoding_start = \<lparr>de_reply = no_reply, de_children = [], de_step = [], de_reported = None\<rparr>"

definition finish_step :: "event_part \<Rightarrow> run_reply \<Rightarrow> run_reply" where
  "finish_step p a =
     (let a = a\<lparr>oc_cost := oc_cost a + ep_cost p\<rparr> in
      case ep_tokens p of
        None \<Rightarrow> a
      | Some t \<Rightarrow> a\<lparr>oc_tokens := add_tokens (oc_tokens a) t,
          oc_last_input := tn_input t + tn_cache_read t + tn_cache_write t\<rparr>)"

definition decode_event :: "run_event \<Rightarrow> decoding \<Rightarrow> decoding" where
  "decode_event ev s0 =
     (let s = (if oc_session (de_reply s0) = ''''
               then s0\<lparr>de_reply := (de_reply s0)\<lparr>oc_session := ev_session ev\<rparr>\<rparr> else s0)
      in if ev_type ev = ''step_start'' then s\<lparr>de_step := []\<rparr>
         else if ev_type ev = ''text'' then s\<lparr>de_step := de_step s @ [ep_text (ev_part ev)]\<rparr>
         else if ev_type ev = ''step_finish'' then s\<lparr>de_reply := finish_step (ev_part ev) (de_reply s)\<rparr>
         else if ev_type ev = ''tool_use'' then
           (if part_child (ev_part ev) \<noteq> ''''
            then s\<lparr>de_children := de_children s @ [part_child (ev_part ev)]\<rparr> else s)
         else if ev_type ev = ''error'' then
           (if de_reported s = None then s\<lparr>de_reported := Some (reported_error ev)\<rparr> else s)
         else s)"

text \<open>The lines of the stream, each parsed by \<open>parse\<close>, and what the scanner ended with. The reply
  comes back as far as the stream built it, its text only at the stream's end.\<close>

fun decode_lines :: "(string \<Rightarrow> string) \<Rightarrow> (string \<Rightarrow> string + run_event) \<Rightarrow> string list \<Rightarrow> string option \<Rightarrow> decoding \<Rightarrow>
    decoding \<times> string option" where
  "decode_lines quote parse [] ended s =
     (case ended of
        Some e \<Rightarrow> (s, Some e)
      | None \<Rightarrow> (s\<lparr>de_reply := (de_reply s)\<lparr>oc_text := join (de_step s) [CHR 0x0A]\<rparr>\<rparr>, None))"
| "decode_lines quote parse (l # ls) ended s =
     (let line = trim_space l in
      if line = '''' then decode_lines quote parse ls ended s
      else (case parse line of
          Inl e \<Rightarrow> (s, Some (''line '' @ quote (cut_line line) @ '': '' @ e))
        | Inr ev \<Rightarrow>
            if ev_type ev = '''' then (s, Some (''line '' @ quote (cut_line line) @ '' has no event type''))
            else decode_lines quote parse ls ended (decode_event ev s)))"

definition decode_stream :: "(string \<Rightarrow> string) \<Rightarrow> (string \<Rightarrow> string + run_event) \<Rightarrow> string list \<Rightarrow> string option \<Rightarrow>
    decoding \<times> string option" where
  "decode_stream quote parse ls ended = decode_lines quote parse ls ended decoding_start"

subsection \<open>The sessions of sub-agents\<close>

record exported_session =
  xs_cost :: rat
  xs_tokens :: run_tokens
  xs_messages :: "event_part list list"

definition session_children :: "exported_session \<Rightarrow> string list" where
  "session_children s = filter (\<lambda>c. c \<noteq> '''') (map part_child (concat (xs_messages s)))"

definition count_read :: "exported_session \<Rightarrow> run_reply \<Rightarrow> run_reply" where
  "count_read s a = a\<lparr>oc_cost := oc_cost a + xs_cost s, oc_tokens := add_tokens (oc_tokens a) (xs_tokens s)\<rparr>"

text \<open>\<open>None\<close> is a search that never ends. A session whose export fails has none.\<close>

partial_function (option) count_sub_agents ::
    "(string \<Rightarrow> exported_session option) \<Rightarrow> string list \<Rightarrow> string list \<Rightarrow> run_reply \<Rightarrow> run_reply option" where
  "count_sub_agents export seen todo a =
     (case todo of
        [] \<Rightarrow> Some a
      | i # rest \<Rightarrow>
          if i \<in> set seen then count_sub_agents export seen rest a
          else (let a = a\<lparr>oc_sub_agents := oc_sub_agents a + 1\<rparr> in
            case export i of
              None \<Rightarrow> count_sub_agents export (i # seen) rest (a\<lparr>oc_unread := oc_unread a + 1\<rparr>)
            | Some s \<Rightarrow> count_sub_agents export (i # seen) (rest @ session_children s) (count_read s a)))"

subsection \<open>One run\<close>

record opencode =
  op_path :: string
  op_timeout :: int
  op_quote :: "string \<Rightarrow> string"

datatype dir_stat = DirThere | NotDir | StatError string

text \<open>How the process ended: what the caller's context says, whether the bound ran out, whether a
  signal ended it, what \<^verbatim>\<open>Wait\<close> and the exit status say, and what it wrote.\<close>

record process_run =
  rp_start :: "string option"
  rp_lines :: "string list"
  rp_scan_error :: "string option"
  rp_cancelled :: "string option"
  rp_bound_out :: bool
  rp_killed :: bool
  rp_wait :: "string option"
  rp_success :: bool
  rp_exit_text :: string
  rp_stderr :: "string list"
  rp_export :: "string \<Rightarrow> exported_session option"

definition check_request :: "opencode \<Rightarrow> dir_stat \<Rightarrow> run_request \<Rightarrow> string option" where
  "check_request c dir q =
     (if op_path c = '''' then Some ''no opencode binary configured''
      else if op_timeout c \<le> 0 then Some ''no bound on a run configured''
      else if ref_provider (rr_model q) = '''' \<or> ref_model (rr_model q) = ''''
        then Some (''model '' @ op_quote c (ref_string (rr_model q)) @ '' is not provider/model'')
      else if rr_prompt q = '''' then Some ''empty prompt''
      else if has_prefix (rr_prompt q) ''-'' then Some (''a prompt beginning with '' @ [CHR 0x22, CHR ''-'', CHR 0x22] @ '' would be read as a flag'')
      else (case dir of
          StatError e \<Rightarrow> Some (''workspace: '' @ e)
        | NotDir \<Rightarrow> Some (''workspace '' @ rr_dir q @ '' is not a directory'')
        | DirThere \<Rightarrow> None))"

definition transient :: "run_request \<Rightarrow> string \<Rightarrow> string \<Rightarrow> int \<Rightarrow> model_error" where
  "transient q e stderr bound =
     (let s = trim_space stderr in
      Transient (rr_model q) (if s \<noteq> '''' then e @ [CHR 0x0A] @ ''stderr: '' @ s else e) bound)"

definition run_args :: "run_request \<Rightarrow> string list" where
  "run_args q =
     [''run'', ''--model'', ref_string (rr_model q), ''--dir'', rr_dir q, ''--format'', ''json''] @
     (if rr_session q \<noteq> '''' then [''--session'', rr_session q] else []) @ [rr_prompt q]"

text \<open>What of a failed run is still counted.\<close>

definition spent_of :: "run_reply \<Rightarrow> run_reply" where
  "spent_of a = no_reply\<lparr>oc_cost := oc_cost a, oc_tokens := oc_tokens a, oc_last_input := oc_last_input a\<rparr>"

definition with_sub_agents :: "run_request \<Rightarrow> process_run \<Rightarrow> string list \<Rightarrow> run_reply \<Rightarrow> run_reply option" where
  "with_sub_agents q r children a =
     (if rr_cost q then count_sub_agents (rp_export r) [] children a else Some a)"

definition run_failed :: "run_request \<Rightarrow> process_run \<Rightarrow> decoding \<Rightarrow> model_error \<Rightarrow>
    (run_reply \<times> model_error option) option" where
  "run_failed q r s e =
     map_option (\<lambda>a. (a, Some e)) (with_sub_agents q r (de_children s) (spent_of (de_reply s)))"

definition run_wait :: "process_run \<Rightarrow> string option" where
  "run_wait r = (if rp_bound_out r \<and> \<not> rp_killed r
     then (if rp_success r then None else Some (rp_exit_text r)) else rp_wait r)"

definition run_command :: "opencode \<Rightarrow> (string \<Rightarrow> string + run_event) \<Rightarrow> (int \<Rightarrow> string) \<Rightarrow> dir_stat \<Rightarrow>
    (string list \<Rightarrow> process_run) \<Rightarrow> run_request \<Rightarrow> (run_reply \<times> model_error option) option" where
  "run_command c parse duration dir proc q =
     (let r = proc (run_args q) in case check_request c dir q of
        Some e \<Rightarrow> Some (no_reply, Some (Fatal e))
      | None \<Rightarrow>
     (case rp_start r of
        Some e \<Rightarrow> Some (no_reply, Some (Fatal (''starting '' @ op_path c @ '': '' @ e)))
      | None \<Rightarrow>
     (let (s, decode_error) = decode_stream (op_quote c) parse (rp_lines r) (rp_scan_error r);
          wait_error = run_wait r;
          stderr = foldl tail_write '''' (rp_stderr r)
      in case rp_cancelled r of
           Some e \<Rightarrow> Some (no_reply, Some (Cancelled e))
         | None \<Rightarrow>
         if rp_bound_out r \<and> rp_killed r
         then run_failed q r s (transient q
           (''the run was still going after '' @ duration (op_timeout c) @ '', and was killed'') stderr (op_timeout c))
         else (case decode_error of
           Some e \<Rightarrow> Some (no_reply, Some (Fatal (op_path c @ '' did not write an event stream: '' @ e)))
         | None \<Rightarrow>
         (case de_reported s of
           Some e \<Rightarrow> run_failed q r s (transient q e stderr 0)
         | None \<Rightarrow>
         (case wait_error of
           Some e \<Rightarrow>
             if rr_session q \<noteq> '''' \<and> oc_session (de_reply s) = '''' \<and> contains stderr session_gone_text
             then Some (no_reply, Some (SessionGone (rr_session q)))
             else run_failed q r s (transient q e stderr 0)
         | None \<Rightarrow>
           if trim_space (oc_text (de_reply s)) = ''''
           then run_failed q r s (transient q ''the run finished without writing a reply'' stderr 0)
           else map_option (\<lambda>a. (a, None)) (with_sub_agents q r (de_children s) (de_reply s))))))))"


subsection \<open>The tail keeps the end\<close>

lemma tail_write_eq: "tail_write buf p = drop (length (buf @ p) - stderr_keep) (buf @ p)"
  by (simp add: tail_write_def Let_def)

lemma tail_write_all: "foldl tail_write (drop (length a - stderr_keep) a) ps =
    drop (length (a @ concat ps) - stderr_keep) (a @ concat ps)"
proof (induction ps arbitrary: a)
  case (Cons p ps)
  have "tail_write (drop (length a - stderr_keep) a) p = drop (length (a @ p) - stderr_keep) (a @ p)"
    by (cases "length a \<le> stderr_keep") (simp_all add: tail_write_eq drop_append add.commute add.left_commute)
  with Cons [of "a @ p"] show ?case by simp
qed simp

text \<open>However a run's stderr is cut into writes, what is kept of it is exactly its last 4096
  bytes, and all of it when it is shorter.\<close>

theorem stderr_tail_is_the_end:
  "foldl tail_write '''' ps = drop (length (concat ps) - stderr_keep) (concat ps) \<and>
   length (foldl tail_write '''' ps) = min stderr_keep (length (concat ps))"
  using tail_write_all [of "''''" ps] by simp

subsection \<open>Every sub-agent's session once\<close>

text \<open>The sessions reached from the ones a run's stream names.\<close>

inductive_set spawned :: "(string \<Rightarrow> exported_session option) \<Rightarrow> string list \<Rightarrow> string set"
  for export roots where
  root: "i \<in> set roots \<Longrightarrow> i \<in> spawned export roots"
| child: "i \<in> spawned export roots \<Longrightarrow> export i = Some s \<Longrightarrow> c \<in> set (session_children s) \<Longrightarrow>
    c \<in> spawned export roots"

definition read_cost :: "(string \<Rightarrow> exported_session option) \<Rightarrow> string \<Rightarrow> rat" where
  "read_cost export i = (case export i of None \<Rightarrow> 0 | Some s \<Rightarrow> xs_cost s)"

text \<open>A stage of the search: everything seen or still to do is spawned, and what a seen session
  started is seen or still to do.\<close>

definition search_inv :: "(string \<Rightarrow> exported_session option) \<Rightarrow> string list \<Rightarrow> string list \<Rightarrow> string list \<Rightarrow> bool" where
  "search_inv export roots seen todo \<longleftrightarrow>
     set seen \<union> set todo \<subseteq> spawned export roots \<and> set roots \<subseteq> set seen \<union> set todo \<and>
     (\<forall>i\<in>set seen. \<forall>s. export i = Some s \<longrightarrow> set (session_children s) \<subseteq> set seen \<union> set todo)"

lemma search_inv_done:
  assumes "search_inv export roots seen []"
  shows "set seen = spawned export roots"
proof
  show "spawned export roots \<subseteq> set seen"
  proof
    fix i assume "i \<in> spawned export roots"
    then show "i \<in> set seen"
    proof induction
      case (child i s c)
      with assms have "set (session_children s) \<subseteq> set seen" by (simp add: search_inv_def)
      with child.hyps show ?case by blast
    qed (use assms in \<open>auto simp: search_inv_def\<close>)
  qed
qed (use assms in \<open>simp add: search_inv_def\<close>)

lemma search_inv_seen:
  "search_inv export roots seen (i # rest) \<Longrightarrow> i \<in> set seen \<Longrightarrow> search_inv export roots seen rest"
proof -
  assume "i \<in> set seen"
  then have "set seen \<union> set (i # rest) = set seen \<union> set rest" by auto
  then show "search_inv export roots seen (i # rest) \<Longrightarrow> search_inv export roots seen rest"
    unfolding search_inv_def by (simp del: list.set Un_iff)
qed

lemma search_inv_unread:
  "search_inv export roots seen (i # rest) \<Longrightarrow> export i = None \<Longrightarrow> search_inv export roots (i # seen) rest"
  unfolding search_inv_def by (simp add: insert_commute)

lemma search_inv_read:
  "search_inv export roots seen (i # rest) \<Longrightarrow> export i = Some s \<Longrightarrow>
     search_inv export roots (i # seen) (rest @ session_children s)"
  unfolding search_inv_def
  by (simp add: insert_commute) (blast intro: spawned.child)

lemma count_sub_agents_counts:
  assumes "finite (spawned export roots)" and "search_inv export roots seen todo"
  shows "\<exists>b. count_sub_agents export seen todo a = Some b \<and>
    oc_sub_agents b = oc_sub_agents a + int (card (spawned export roots - set seen)) \<and>
    oc_unread b = oc_unread a + int (card {i \<in> spawned export roots - set seen. export i = None}) \<and>
    oc_cost b = oc_cost a + sum (read_cost export) (spawned export roots - set seen) \<and>
    oc_text b = oc_text a \<and> oc_session b = oc_session a \<and> oc_last_input b = oc_last_input a"
  using assms(2)
proof (induction "card (spawned export roots - set seen)" arbitrary: seen todo a rule: less_induct)
  case less
  let ?R = "spawned export roots"
  from less.prems show ?case
  proof (induction todo arbitrary: a)
    case Nil
    then show ?case using search_inv_done by (subst count_sub_agents.simps) simp
  next
    case (Cons i rest)
    show ?case
    proof (cases "i \<in> set seen")
      case True
      then show ?thesis
        using Cons.IH [OF search_inv_seen [OF Cons.prems True]]
        by (subst count_sub_agents.simps) simp
    next
      case False
      define S where "S = ?R - set (i # seen)"
      have iR: "i \<in> ?R - set seen" using Cons.prems False by (auto simp: search_inv_def)
      have split_R: "?R - set seen = insert i S" using iR by (auto simp: S_def)
      have S: "finite S" "i \<notin> S" using assms(1) by (simp_all add: S_def)
      have card: "card (?R - set seen) = Suc (card S)"
        unfolding split_R using S by simp
      have cost: "sum f (?R - set seen) = f i + sum f S" for f :: "string \<Rightarrow> rat"
        unfolding split_R using S by simp
      have "{k \<in> ?R - set seen. export k = None} = {k \<in> insert i S. export k = None}"
        by (simp only: split_R)
      also have "\<dots> = (if export i = None then insert i {k \<in> S. export k = None} else {k \<in> S. export k = None})"
        by auto
      finally have none: "card {k \<in> ?R - set seen. export k = None} =
          (if export i = None then Suc (card {k \<in> S. export k = None}) else card {k \<in> S. export k = None})"
        using S by simp
      have smaller: "card (?R - set (i # seen)) < card (?R - set seen)"
        unfolding card S_def [symmetric] by simp
      show ?thesis
      proof (cases "export i")
        case None
        from less.hyps [OF smaller search_inv_unread [OF Cons.prems None], of
            "a\<lparr>oc_sub_agents := oc_sub_agents a + 1, oc_unread := oc_unread a + 1\<rparr>", folded S_def]
        show ?thesis
          unfolding card cost none using None False
          by (subst count_sub_agents.simps) (auto simp: Let_def read_cost_def)
      next
        case (Some s)
        from less.hyps [OF smaller search_inv_read [OF Cons.prems Some], of
            "count_read s (a\<lparr>oc_sub_agents := oc_sub_agents a + 1\<rparr>)", folded S_def]
        show ?thesis
          unfolding card cost none using Some False
          by (subst count_sub_agents.simps) (auto simp: Let_def read_cost_def count_read_def)
      qed
    qed
  qed
qed

text \<open>Reading what a run's sub-agents cost ends whenever there are finitely many of them, however
  their sessions name one another - a session named twice, or one that names its parent, is read
  once: each spawned session is counted exactly once, each that cannot be read is counted as
  unread, and the run's cost grows by exactly the cost of the ones that could.\<close>

theorem sub_agents_counted_once:
  assumes "finite (spawned export roots)"
  shows "\<exists>b. count_sub_agents export [] roots a = Some b \<and>
    oc_sub_agents b = oc_sub_agents a + int (card (spawned export roots)) \<and>
    oc_unread b = oc_unread a + int (card {i \<in> spawned export roots. export i = None}) \<and>
    oc_cost b = oc_cost a + sum (read_cost export) (spawned export roots) \<and>
    oc_text b = oc_text a \<and> oc_session b = oc_session a \<and> oc_last_input b = oc_last_input a"
proof -
  have "search_inv export roots [] roots" by (auto simp: search_inv_def intro: spawned.root)
  from count_sub_agents_counts [OF assms this, of a] show ?thesis by simp
qed


lemma sub_agents_keep:
  "count_sub_agents export seen todo a = Some b \<Longrightarrow> oc_text b = oc_text a \<and> oc_session b = oc_session a \<and>
     oc_last_input b = oc_last_input a"
proof (rule count_sub_agents.raw_induct
    [of "\<lambda>export seen todo a b. oc_text b = oc_text a \<and> oc_session b = oc_session a \<and>
       oc_last_input b = oc_last_input a"])
  fix rec :: "(string \<Rightarrow> exported_session option) \<Rightarrow> string list \<Rightarrow> string list \<Rightarrow> run_reply \<Rightarrow> run_reply option"
    and ex and seen todo :: "string list" and a b :: run_reply
  assume IH: "\<And>ex seen todo a b. rec ex seen todo a = Some b \<Longrightarrow> oc_text b = oc_text a \<and>
      oc_session b = oc_session a \<and> oc_last_input b = oc_last_input a"
    and b: "(case todo of [] \<Rightarrow> Some a
      | i # rest \<Rightarrow> if i \<in> set seen then rec ex seen rest a
          else let a = a\<lparr>oc_sub_agents := oc_sub_agents a + 1\<rparr> in
            case ex i of None \<Rightarrow> rec ex (i # seen) rest (a\<lparr>oc_unread := oc_unread a + 1\<rparr>)
            | Some s \<Rightarrow> rec ex (i # seen) (rest @ session_children s) (count_read s a)) = Some b"
  from b show "oc_text b = oc_text a \<and> oc_session b = oc_session a \<and> oc_last_input b = oc_last_input a"
    by (auto simp: Let_def count_read_def split: list.splits if_splits option.splits dest!: IH)
qed

lemma with_sub_agents_keep:
  "with_sub_agents q r cs a = Some b \<Longrightarrow> oc_text b = oc_text a \<and> oc_session b = oc_session a \<and>
     oc_last_input b = oc_last_input a"
  by (auto simp: with_sub_agents_def dest: sub_agents_keep split: if_splits)

subsection \<open>What a stream says\<close>

text \<open>The texts of the events since the last step began.\<close>

definition final_step :: "run_event list \<Rightarrow> string list" where
  "final_step evs = map (\<lambda>e. ep_text (ev_part e)) (filter (\<lambda>e. ev_type e = ''text'')
     (rev (takeWhile (\<lambda>e. ev_type e \<noteq> ''step_start'') (rev evs))))"

definition finished_steps :: "run_event list \<Rightarrow> event_part list" where
  "finished_steps evs = map ev_part (filter (\<lambda>e. ev_type e = ''step_finish'') evs)"

lemma decode_event_simps:
  "de_step (decode_event ev s) = (if ev_type ev = ''step_start'' then []
     else if ev_type ev = ''text'' then de_step s @ [ep_text (ev_part ev)] else de_step s)"
  "oc_cost (de_reply (decode_event ev s)) = oc_cost (de_reply s) +
     (if ev_type ev = ''step_finish'' then ep_cost (ev_part ev) else 0)"
  "oc_session (de_reply (decode_event ev s)) =
     (if oc_session (de_reply s) = '''' then ev_session ev else oc_session (de_reply s))"
  "oc_text (de_reply (decode_event ev s)) = oc_text (de_reply s)"
  "de_reported (decode_event ev s) = (if ev_type ev = ''error'' \<and> de_reported s = None
     then Some (reported_error ev) else de_reported s)"
  by (auto simp: decode_event_def Let_def finish_step_def split: option.split)

lemma decode_fold_step:
  "de_step (fold decode_event evs decoding_start) = final_step evs"
  by (induction evs rule: rev_induct)
    (auto simp: decode_event_simps final_step_def decoding_start_def)

lemma decode_fold_cost:
  "oc_cost (de_reply (fold decode_event evs s)) = oc_cost (de_reply s) + sum_list (map ep_cost (finished_steps evs))"
  by (induction evs arbitrary: s) (auto simp: decode_event_simps finished_steps_def)

lemma decode_fold_reported:
  "de_reported (fold decode_event evs s) = None \<longleftrightarrow>
     de_reported s = None \<and> (\<forall>e\<in>set evs. ev_type e \<noteq> ''error'')"
  by (induction evs arbitrary: s) (auto simp: decode_event_simps)

definition stream_of :: "(string \<Rightarrow> string + run_event) \<Rightarrow> string list \<Rightarrow> run_event list \<Rightarrow> bool" where
  "stream_of parse ls evs \<longleftrightarrow>
     map parse (filter (\<lambda>l. l \<noteq> '''') (map trim_space ls)) = map Inr evs \<and> (\<forall>e\<in>set evs. ev_type e \<noteq> '''')"

lemma decode_lines_fold:
  "stream_of parse ls evs \<Longrightarrow> decode_lines quote parse ls None s =
     (let s' = fold decode_event evs s
      in (s'\<lparr>de_reply := (de_reply s')\<lparr>oc_text := join (de_step s') [CHR 0x0A]\<rparr>\<rparr>, None))"
proof (induction ls arbitrary: evs s)
  case (Cons l ls)
  show ?case
  proof (cases "trim_space l = ''''")
    case True
    with Cons show ?thesis by (simp add: stream_of_def)
  next
    case False
    with Cons.prems obtain e es where e: "evs = e # es" "parse (trim_space l) = Inr e" "ev_type e \<noteq> ''''"
      and es: "stream_of parse ls es"
      by (auto simp: stream_of_def map_eq_Cons_conv Cons_eq_map_conv)
    with False Cons.IH [OF es] show ?thesis by simp
  qed
qed (simp add: stream_of_def Let_def)

text \<open>The reply of a run is what the model wrote once it stopped calling tools: on a stream whose
  lines are all events, decoding succeeds, the text is the texts of the final step alone, in
  order, however much was written in earlier ones, the cost is that of every step finished, and
  an error is reported exactly when an event reported one.\<close>

theorem reply_is_final_step:
  assumes "stream_of parse ls evs"
  shows "\<exists>s. decode_stream quote parse ls None = (s, None) \<and>
    oc_text (de_reply s) = join (final_step evs) [CHR 0x0A] \<and>
    oc_cost (de_reply s) = sum_list (map ep_cost (finished_steps evs)) \<and>
    (de_reported s \<noteq> None \<longleftrightarrow> (\<exists>e\<in>set evs. ev_type e = ''error''))"
  using decode_fold_cost [of evs decoding_start] decode_fold_reported [of evs decoding_start]
  by (auto simp: decode_stream_def decode_lines_fold [OF assms] Let_def decode_fold_step)
    (auto simp: decoding_start_def no_reply_def)

subsection \<open>What kind of failure a run was\<close>

lemma run_failed_Some:
  "run_failed q r s e = Some (a, x) \<Longrightarrow> x = Some e \<and> oc_text a = '''' \<and> oc_session a = '''' \<and>
     oc_last_input a = oc_last_input (de_reply s)"
  by (auto simp: run_failed_def spent_of_def no_reply_def dest: with_sub_agents_keep)



subsection \<open>Examples\<close>

definition example_part :: event_part where
  "example_part = \<lparr>ep_text = '''', ep_cost = 0, ep_tokens = None, ep_tool = '''', ep_session = ''''\<rparr>"

definition example_event :: "string \<Rightarrow> string \<Rightarrow> run_event" where
  "example_event ty txt = \<lparr>ev_type = ty, ev_session = ''s1'', ev_part = example_part\<lparr>ep_text := txt\<rparr>, ev_error = None\<rparr>"

text \<open>A stand-in for the JSON of a stream: a line is its event's type, and a text says so.\<close>

definition example_parse :: "string \<Rightarrow> string + run_event" where
  "example_parse l = (if l = ''look'' then Inr (example_event ''text'' ''let me look'')
     else if l = ''answer'' then Inr (example_event ''text'' ''done'')
     else if l = ''step_start'' then Inr (example_event ''step_start'' '''') else Inl ''not JSON'')"

theorem reply_is_final_step_witness:
  "\<exists>s. decode_stream id example_parse [''step_start'', ''look'', '''', ''step_start'', ''answer''] None = (s, None) \<and>
     oc_text (de_reply s) = ''done''"
proof -
  have "stream_of example_parse [''step_start'', ''look'', '''', ''step_start'', ''answer'']
      [example_event ''step_start'' '''', example_event ''text'' ''let me look'',
       example_event ''step_start'' '''', example_event ''text'' ''done'']"
    by (simp add: stream_of_def trim_space_def is_space_def example_parse_def example_event_def)
  from reply_is_final_step [OF this, of id] show ?thesis
    by (auto simp: final_step_def example_event_def)
qed

definition example_export :: "string \<Rightarrow> exported_session option" where
  "example_export i = (if i = ''c1'' then Some \<lparr>xs_cost = 3, xs_tokens = no_tokens,
       xs_messages = [[example_part\<lparr>ep_tool := ''task'', ep_session := ''c2''\<rparr>,
         example_part\<lparr>ep_tool := ''task'', ep_session := ''c1''\<rparr>]]\<rparr> else None)"

lemma example_spawned: "spawned example_export [''c1''] = {''c1'', ''c2''}"
proof
  have ch: "set (session_children s) \<subseteq> {''c1'', ''c2''}" if "example_export i = Some s" for i s
    using that by (auto simp: example_export_def session_children_def part_child_def example_part_def
        split: if_splits)
  show "spawned example_export [''c1''] \<subseteq> {''c1'', ''c2''}"
  proof
    fix i assume "i \<in> spawned example_export [''c1'']"
    then show "i \<in> {''c1'', ''c2''}" by induction (use ch in auto)
  qed
  have c1: "''c1'' \<in> spawned example_export [''c1'']" by (rule spawned.root) simp
  have "''c2'' \<in> set (session_children (the (example_export ''c1'')))"
    by (simp add: example_export_def session_children_def part_child_def example_part_def)
  with c1 spawned.child [OF c1] have "''c2'' \<in> spawned example_export [''c1'']"
    by (simp add: example_export_def)
  with c1 show "{''c1'', ''c2''} \<subseteq> spawned example_export [''c1'']" by simp
qed

theorem sub_agents_counted_once_witness:
  "\<exists>b. count_sub_agents example_export [] [''c1''] no_reply = Some b \<and> oc_sub_agents b = 2 \<and>
     oc_unread b = 1 \<and> oc_cost b = 3"
proof -
  have "finite (spawned example_export [''c1''])" by (simp add: example_spawned)
  from sub_agents_counted_once [OF this, of no_reply]
  have "\<exists>b. count_sub_agents example_export [] [''c1''] no_reply = Some b \<and> oc_sub_agents b = 2 \<and>
      oc_unread b = int (card {i \<in> {''c1'', ''c2''}. example_export i = None}) \<and> oc_cost b = 3"
    by (auto simp: example_spawned no_reply_def read_cost_def example_export_def)
  moreover have "{i \<in> {''c1'', ''c2''}. example_export i = None} = {''c2''}"
    by (auto simp: example_export_def)
  ultimately show ?thesis by simp
qed

definition example_command :: opencode where
  "example_command = \<lparr>op_path = ''opencode'', op_timeout = 60, op_quote = id\<rparr>"

definition example_process :: process_run where
  "example_process = \<lparr>rp_start = None, rp_lines = [], rp_scan_error = None, rp_cancelled = None,
     rp_bound_out = False, rp_killed = False, rp_wait = Some ''exit status 1'', rp_success = False,
     rp_exit_text = '''', rp_stderr = [''Session '', ''not found''], rp_export = example_export\<rparr>"

definition example_request :: run_request where
  "example_request = \<lparr>rr_model = Ref ''p'' ''m'', rr_dir = ''/w'', rr_prompt = ''go on'', rr_session = ''s1'', rr_cost = True\<rparr>"


end
