(* ===== verification/Rounds.thy ===== *)
theory Rounds
  imports Armer
begin

text \<open>
  The rounds of an effect that is read back, \<^verbatim>\<open>internal/transition/round.go\<close>. A key is
  reserved for good, so an effect lost between its commit and its performing is made again
  under the next key of its stem. \<open>effect_round\<close> looks through a bounded allowance; \<open>next_round\<close>
  looks until it finds a key nobody reserved, and \<open>None\<close> would be a loop that never ends.
\<close>

definition round_key :: "string \<Rightarrow> int \<Rightarrow> string" where
  "round_key stem i = stem @ ''-'' @ dec i"

datatype round_result = RoundKey string | Spent string int int | RoundError store_error

fun round_scan :: "string \<Rightarrow> int \<Rightarrow> nat \<Rightarrow> world \<Rightarrow> (store_error + string option) \<times> world" where
  "round_scan stem i 0 w = (Inr None, w)"
| "round_scan stem i (Suc n) w =
     (case call (reserved (round_key stem i)) w of
        (Inl e, w') \<Rightarrow> (Inl e, w')
      | (Inr yes, w') \<Rightarrow>
          if yes then round_scan stem (i + 1) n w' else (Inr (Some (round_key stem i)), w'))"

definition effect_round :: "string \<Rightarrow> int \<Rightarrow> int \<Rightarrow> world \<Rightarrow> round_result \<times> world" where
  "effect_round stem from bound w =
     (let bound = (if bound < 1 then 1 else bound) in
      case round_scan stem from (nat bound) w of
        (Inl e, w') \<Rightarrow> (RoundError e, w')
      | (Inr (Some key), w') \<Rightarrow> (RoundKey key, w')
      | (Inr None, w') \<Rightarrow> (Spent stem bound (from + bound), w'))"

partial_function (option) next_from ::
    "string \<Rightarrow> int \<Rightarrow> world \<Rightarrow> ((int \<times> store_error option) \<times> world) option" where
  "next_from stem i w =
     (case call (reserved (round_key stem i)) w of
        (Inl e, w') \<Rightarrow> Some ((i, Some e), w')
      | (Inr yes, w') \<Rightarrow> if yes then next_from stem (i + 1) w' else Some ((i, None), w'))"

definition next_round :: "string \<Rightarrow> world \<Rightarrow> ((int \<times> store_error option) \<times> world) option" where
  "next_round stem w = next_from stem 0 w"

lemma round_key_inject [simp]: "round_key stem i = round_key stem j \<longleftrightarrow> i = j"
  by (simp add: round_key_def)

lemma call_reserved_nf:
  "w_faults w = [] \<Longrightarrow> call (reserved k) w = (Inr (is_reserved (w_db w) k), w)"
  by (simp add: call_no_faults)

lemma round_scan_nf:
  assumes "w_faults w = []"
  shows "round_scan stem i n w =
    (Inr (map_option (round_key stem)
       (find (\<lambda>j. \<not> is_reserved (w_db w) (round_key stem j)) [i..i + int n - 1])), w)"
proof (induction n arbitrary: i)
  case (Suc n)
  have "[i..i + int (Suc n) - 1] = i # [i + 1..i + 1 + int n - 1]"
    by (simp add: upto_rec1)
  with Suc show ?case by (simp add: call_reserved_nf assms)
qed simp

lemma find_upto_Some:
  "find P [i..j] = Some k \<longleftrightarrow> i \<le> k \<and> k \<le> j \<and> P k \<and> (\<forall>m. i \<le> m \<and> m < k \<longrightarrow> \<not> P m)"
proof -
  have "find P xs = Some k \<longleftrightarrow> k \<in> set xs \<and> P k \<and> (\<forall>m\<in>set xs. m < k \<longrightarrow> \<not> P m)"
    if "sorted xs" "distinct xs" for xs :: "int list"
    using that by (induction xs) (auto simp: order.strict_iff_order)
  from this [of "[i..j]"] show ?thesis by auto
qed

lemma find_None: "find P xs = None \<longleftrightarrow> (\<forall>x\<in>set xs. \<not> P x)"
  by (induction xs) auto

lemma round_first:
  assumes "w_faults w = []" and "n = max 1 bound"
  shows "(case fst (effect_round stem from bound w) of
      RoundKey key \<Rightarrow> (\<exists>i. from \<le> i \<and> i < from + n \<and> key = round_key stem i \<and>
        \<not> is_reserved (w_db w) key \<and> (\<forall>j. from \<le> j \<and> j < i \<longrightarrow> is_reserved (w_db w) (round_key stem j)))
    | Spent s r next \<Rightarrow> s = stem \<and> r = n \<and> next = from + n \<and>
        (\<forall>j. from \<le> j \<and> j < from + n \<longrightarrow> is_reserved (w_db w) (round_key stem j))
    | RoundError e \<Rightarrow> False)"
proof -
  have n: "(if bound < 1 then 1 else bound) = n" "int (nat n) = n" using assms(2) by auto
  let ?f = "find (\<lambda>j. \<not> is_reserved (w_db w) (round_key stem j)) [from..from + n - 1]"
  have s: "round_scan stem from (nat n) w = (Inr (map_option (round_key stem) ?f), w)"
    using round_scan_nf [OF assms(1), of stem "from" "nat n"] n(2) by simp
  show ?thesis
  proof (cases ?f)
    case None
    then have "\<forall>j. from \<le> j \<and> j < from + n \<longrightarrow> is_reserved (w_db w) (round_key stem j)"
      by (auto simp: find_None)
    with None show ?thesis by (simp add: effect_round_def n Let_def s)
  next
    case (Some i)
    then have "effect_round stem from bound w = (RoundKey (round_key stem i), w)"
      by (simp add: effect_round_def n Let_def s)
    with Some show ?thesis by (auto simp: find_upto_Some)
  qed
qed

text \<open>The next attempt at an effect takes the first key of its allowance that no commit has
  reserved, a key no earlier attempt used; once every key of the allowance is reserved the
  effect is given up as spent, saying how many rounds it had and where a new allowance would
  start. A bound below one still allows one round.\<close>

theorem round_first_unreserved:
  assumes "w_faults w = []" and "n = max 1 bound"
  shows "(case fst (effect_round stem from bound w) of
      RoundKey key \<Rightarrow> (\<exists>i. from \<le> i \<and> i < from + n \<and> key = round_key stem i \<and>
        \<not> is_reserved (w_db w) key \<and> (\<forall>j. from \<le> j \<and> j < i \<longrightarrow> is_reserved (w_db w) (round_key stem j)))
    | Spent s r next \<Rightarrow> s = stem \<and> r = n \<and> next = from + n \<and>
        (\<forall>j. from \<le> j \<and> j < from + n \<longrightarrow> is_reserved (w_db w) (round_key stem j))
    | RoundError e \<Rightarrow> False)"
  by (rule round_first [OF assms])

definition example_world :: world where
  "example_world = \<lparr>w_db = empty_db\<lparr>db_idempotency := [''push-0'' \<mapsto> ''j'']\<rparr>, w_faults = [], w_done = []\<rparr>"

theorem round_first_unreserved_witness:
  "fst (effect_round ''push'' 0 2 example_world) = RoundKey ''push-1'' \<and>
   \<not> is_reserved (w_db example_world) ''push-1''"
proof -
  have d: "dec 0 = ''0''" "dec 1 = ''1''" by code_simp+
  have key: "fst (effect_round ''push'' 0 2 example_world) = RoundKey ''push-1''"
    by (simp add: example_world_def effect_round_def numeral_2_eq_2 call_reserved_nf round_key_def d
        is_reserved_def)
  have "w_faults example_world = []" by (simp add: example_world_def)
  from round_first_unreserved [OF this refl, of 0 2 "''push''"] key show ?thesis by auto
qed

lemma next_from_reaches:
  assumes "w_faults w = []" and "\<not> is_reserved (w_db w) (round_key stem (i + int n))"
    and "\<forall>j. i \<le> j \<and> j < i + int n \<longrightarrow> is_reserved (w_db w) (round_key stem j)"
  shows "next_from stem i w = Some ((i + int n, None), w)"
  using assms(2,3)
proof (induction n arbitrary: i)
  case 0
  then show ?case by (subst next_from.simps) (simp add: call_reserved_nf assms(1))
next
  case (Suc n)
  have a: "i + int (Suc n) = i + 1 + int n" by simp
  have "is_reserved (w_db w) (round_key stem i)" using Suc.prems(2) by simp
  moreover have "next_from stem (i + 1) w = Some ((i + 1 + int n, None), w)"
    using Suc.prems unfolding a by (intro Suc.IH) auto
  ultimately show ?case
    unfolding a by (subst next_from.simps) (simp add: call_reserved_nf assms(1))
qed

lemma next_round_ends:
  assumes "w_faults w = []" and "db_ok (w_db w)"
  shows "\<exists>i\<ge>0. next_round stem w = Some ((i, None), w) \<and>
    \<not> is_reserved (w_db w) (round_key stem i) \<and>
    (\<forall>j. 0 \<le> j \<and> j < i \<longrightarrow> is_reserved (w_db w) (round_key stem j))"
proof -
  let ?P = "\<lambda>n. \<not> is_reserved (w_db w) (round_key stem (int n))"
  have "\<exists>n. ?P n"
  proof (rule ccontr)
    assume "\<nexists>n. ?P n"
    then have "range (\<lambda>n. round_key stem (int n)) \<subseteq> dom (db_idempotency (w_db w))"
      by (auto simp: is_reserved_def)
    moreover have "infinite (range (\<lambda>n. round_key stem (int n)))"
      using finite_imageD [of "\<lambda>n. round_key stem (int n)" UNIV] by (auto simp: inj_on_def)
    ultimately show False using assms(2) by (auto simp: db_ok_def dest: finite_subset)
  qed
  then obtain n where n: "?P n" and least: "\<forall>m<n. \<not> ?P m"
    using exists_least_iff [of ?P, THEN iffD1] by blast
  have below: "is_reserved (w_db w) (round_key stem j)" if "0 \<le> j" "j < int n" for j
  proof -
    have "nat j < n" "int (nat j) = j" using that by auto
    with least show ?thesis by metis
  qed
  have "next_from stem 0 w = Some ((0 + int n, None), w)"
    using n below by (intro next_from_reaches assms(1)) auto
  with n below show ?thesis by (intro exI [of _ "int n"]) (simp add: next_round_def)
qed

text \<open>Looking for the start of a new allowance always ends: a store holds finitely many keys,
  so the search returns, at the first round of the stem that no commit has reserved.\<close>

theorem next_round_terminates:
  assumes "w_faults w = []" and "db_ok (w_db w)"
  shows "\<exists>i\<ge>0. next_round stem w = Some ((i, None), w) \<and>
    \<not> is_reserved (w_db w) (round_key stem i) \<and>
    (\<forall>j. 0 \<le> j \<and> j < i \<longrightarrow> is_reserved (w_db w) (round_key stem j))"
  by (rule next_round_ends [OF assms])

theorem next_round_terminates_witness:
  "\<exists>i\<ge>0. next_round ''push'' \<lparr>w_db = example_db, w_faults = [], w_done = []\<rparr> =
     Some ((i, None), \<lparr>w_db = example_db, w_faults = [], w_done = []\<rparr>)"
  using next_round_terminates [of "\<lparr>w_db = example_db, w_faults = [], w_done = []\<rparr>" "''push''"]
    example_db_ok by auto

subsection \<open>Notes of why an effect failed\<close>

text \<open>
  \<^verbatim>\<open>Noting\<close> and \<^verbatim>\<open>Noted\<close>. The note file is an optional note; \<open>saved\<close> says whether a
  write of it succeeds and \<open>removed\<close> whether its removal does, both of whose errors the code
  drops.
\<close>

record effect_note =
  n_stem :: string
  n_error :: string

definition noted :: "effect_note option \<Rightarrow> string \<Rightarrow> string" where
  "noted file stem =
     (case file of None \<Rightarrow> '''' | Some n \<Rightarrow> if n_stem n \<noteq> stem then '''' else n_error n)"

definition noting :: "bool \<Rightarrow> bool \<Rightarrow> string \<Rightarrow> string option \<Rightarrow> effect_note option \<Rightarrow>
    string option \<times> effect_note option" where
  "noting saved removed stem err file =
     (case err of
        Some e \<Rightarrow> (err, if saved then Some \<lparr>n_stem = stem, n_error = e\<rparr> else file)
      | None \<Rightarrow> (err, if noted file stem \<noteq> '''' then (if removed then None else file) else file))"

text \<open>A note never changes what the effect returned; when the file can be written, a failed
  effect leaves its error to be read back under its stem, a successful one leaves none, and
  no effect forgets a note kept under another stem unless it failed itself.\<close>

theorem noting_keeps_last_failure:
  "fst (noting sv rm stem err file) = err \<and>
   (sv \<and> rm \<longrightarrow> noted (snd (noting sv rm stem err file)) stem =
      (case err of None \<Rightarrow> '''' | Some e \<Rightarrow> e)) \<and>
   (err = None \<and> other \<noteq> stem \<longrightarrow>
      noted (snd (noting sv rm stem err file)) other = noted file other)"
  by (auto simp: noting_def noted_def split: option.splits if_splits)

theorem noting_keeps_last_failure_witness:
  "noted (snd (noting True True ''push-b-1'' (Some ''refused'') None)) ''push-b-1'' = ''refused''"
  using noting_keeps_last_failure [of True True "''push-b-1''" "Some ''refused''" None]
  by simp

end
