(* ===== verification/GitHub_Types.thy ===== *)
theory GitHub_Types
  imports Afk_Prelude "HOL-Library.Monad_Syntax"
begin

text \<open>
  What the tracker serves, as \<^verbatim>\<open>internal/github\<close> names it: the documents on the wire, decoded
  from their JSON, and the values the rest of the program reads. A JSON document is a value of
  \<open>json\<close>; a decoder answers \<open>None\<close> for a document of the wrong type. As \<^verbatim>\<open>encoding/json\<close> does,
  an absent member and a null leave the zero value, and the last of a repeated member counts.
  The case-insensitive match the library falls back to on a member's name is left out: the API
  spells its members as the tags do. How a time is written is an argument, \<open>tm\<close>.
\<close>

subsection \<open>JSON, as the decoder reads it\<close>

datatype json =
    JNull
  | JBool bool
  | JNum int
  | JStr string
  | JList "json list"
  | JObj "(string \<times> json) list"

type_synonym time_format = "string \<Rightarrow> gotime option"

text \<open>A member of an object; null is as good as absent, and anything but an object is a type error.\<close>

definition member :: "string \<Rightarrow> json \<Rightarrow> json option" where
  "member key j =
     (case j of
        JObj ms \<Rightarrow> Some (case map_of (rev ms) key of None \<Rightarrow> JNull | Some v \<Rightarrow> v)
      | JNull \<Rightarrow> Some JNull
      | _ \<Rightarrow> None)"

definition as_string :: "json \<Rightarrow> string option" where
  "as_string j = (case j of JStr s \<Rightarrow> Some s | JNull \<Rightarrow> Some '''' | _ \<Rightarrow> None)"

definition as_int :: "json \<Rightarrow> int option" where
  "as_int j =
     (case j of JNum n \<Rightarrow> if - (2 ^ 63) \<le> n \<and> n < 2 ^ 63 then Some n else None
      | JNull \<Rightarrow> Some 0 | _ \<Rightarrow> None)"

definition as_bool :: "json \<Rightarrow> bool option" where
  "as_bool j = (case j of JBool b \<Rightarrow> Some b | JNull \<Rightarrow> Some False | _ \<Rightarrow> None)"

definition as_time :: "time_format \<Rightarrow> json \<Rightarrow> gotime option" where
  "as_time tm j = (case j of JStr s \<Rightarrow> tm s | JNull \<Rightarrow> Some None | _ \<Rightarrow> None)"

text \<open>Every element of an array, decoded, or nothing when one is of the wrong type.\<close>

fun decode_all :: "(json \<Rightarrow> 'a option) \<Rightarrow> json list \<Rightarrow> 'a list option" where
  "decode_all f [] = Some []"
| "decode_all f (j # js) = do { x \<leftarrow> f j; xs \<leftarrow> decode_all f js; Some (x # xs) }"

definition as_list :: "(json \<Rightarrow> 'a option) \<Rightarrow> json \<Rightarrow> 'a list option" where
  "as_list f j = (case j of JList js \<Rightarrow> decode_all f js | JNull \<Rightarrow> Some [] | _ \<Rightarrow> None)"

definition member_string :: "string \<Rightarrow> json \<Rightarrow> string option" where
  "member_string key j = do { v \<leftarrow> member key j; as_string v }"

definition member_int :: "string \<Rightarrow> json \<Rightarrow> int option" where
  "member_int key j = do { v \<leftarrow> member key j; as_int v }"

text \<open>A pointer to a struct: nothing when it is absent or null.\<close>

definition as_pointer :: "(json \<Rightarrow> 'a option) \<Rightarrow> json \<Rightarrow> 'a option option" where
  "as_pointer f j = (if j = JNull then Some None else do { x \<leftarrow> f j; Some (Some x) })"

definition login_of :: "json \<Rightarrow> string option" where
  "login_of j = do { u \<leftarrow> member ''user'' j; member_string ''login'' u }"

definition names_of :: "json \<Rightarrow> string list option" where
  "names_of j = do { ls \<leftarrow> member ''labels'' j; as_list (member_string ''name'') ls }"

subsection \<open>Pull requests\<close>

record pull_request =
  pr_number :: int
  pr_state :: string
  pr_head_sha :: string
  pr_head_ref :: string
  pr_head_repo :: string
  pr_base_ref :: string
  pr_base_sha :: string
  pr_login :: string
  pr_labels :: "string list"
  pr_title :: string
  pr_body :: string

record wire_pr =
  wp_number :: int
  wp_state :: string
  wp_title :: string
  wp_body :: string
  wp_head_sha :: string
  wp_head_ref :: string
  wp_head_repo :: "string option"
  wp_base_sha :: string
  wp_base_ref :: string
  wp_login :: string
  wp_labels :: "string list"

definition decode_pr :: "json \<Rightarrow> wire_pr option" where
  "decode_pr j = do {
     number \<leftarrow> member_int ''number'' j;
     state \<leftarrow> member_string ''state'' j;
     title \<leftarrow> member_string ''title'' j;
     body \<leftarrow> member_string ''body'' j;
     hd \<leftarrow> member ''head'' j;
     head_sha \<leftarrow> member_string ''sha'' hd;
     head_ref \<leftarrow> member_string ''ref'' hd;
     repo \<leftarrow> member ''repo'' hd;
     head_repo \<leftarrow> as_pointer (member_string ''full_name'') repo;
     bs \<leftarrow> member ''base'' j;
     base_sha \<leftarrow> member_string ''sha'' bs;
     base_ref \<leftarrow> member_string ''ref'' bs;
     login \<leftarrow> login_of j;
     labels \<leftarrow> names_of j;
     Some \<lparr>wp_number = number, wp_state = state, wp_title = title, wp_body = body,
       wp_head_sha = head_sha, wp_head_ref = head_ref, wp_head_repo = head_repo,
       wp_base_sha = base_sha, wp_base_ref = base_ref, wp_login = login, wp_labels = labels\<rparr> }"

definition pull_request_of :: "wire_pr \<Rightarrow> pull_request" where
  "pull_request_of w =
     \<lparr>pr_number = wp_number w, pr_state = wp_state w, pr_head_sha = wp_head_sha w,
      pr_head_ref = wp_head_ref w,
      pr_head_repo = (case wp_head_repo w of None \<Rightarrow> '''' | Some r \<Rightarrow> r),
      pr_base_ref = wp_base_ref w, pr_base_sha = wp_base_sha w, pr_login = wp_login w,
      pr_labels = wp_labels w, pr_title = wp_title w, pr_body = wp_body w\<rparr>"

subsection \<open>Issues\<close>

record gh_issue =
  is_number :: int
  is_id :: int
  is_state :: string
  is_title :: string
  is_body :: string
  is_pull_request :: bool
  is_labels :: "string list"
  is_author :: string
  is_blocked_by :: int
  is_dependencies_read :: bool
  is_updated_at :: gotime

record wire_issue =
  wi_id :: int
  wi_number :: int
  wi_state :: string
  wi_title :: string
  wi_body :: string
  wi_pull_request :: "unit option"
  wi_login :: string
  wi_labels :: "string list"
  wi_dependencies :: "int option"
  wi_updated_at :: gotime

text \<open>An empty struct is decoded from any object.\<close>

definition as_object :: "json \<Rightarrow> unit option" where
  "as_object j = (case j of JObj _ \<Rightarrow> Some () | _ \<Rightarrow> None)"

definition decode_issue :: "time_format \<Rightarrow> json \<Rightarrow> wire_issue option" where
  "decode_issue tm j = do {
     i \<leftarrow> member_int ''id'' j;
     number \<leftarrow> member_int ''number'' j;
     state \<leftarrow> member_string ''state'' j;
     title \<leftarrow> member_string ''title'' j;
     body \<leftarrow> member_string ''body'' j;
     p \<leftarrow> member ''pull_request'' j;
     pull \<leftarrow> as_pointer as_object p;
     login \<leftarrow> login_of j;
     labels \<leftarrow> names_of j;
     d \<leftarrow> member ''issue_dependencies_summary'' j;
     deps \<leftarrow> as_pointer (member_int ''blocked_by'') d;
     u \<leftarrow> member ''updated_at'' j;
     updated \<leftarrow> as_time tm u;
     Some \<lparr>wi_id = i, wi_number = number, wi_state = state, wi_title = title, wi_body = body,
       wi_pull_request = pull, wi_login = login, wi_labels = labels, wi_dependencies = deps,
       wi_updated_at = updated\<rparr> }"

definition issue_of :: "wire_issue \<Rightarrow> gh_issue" where
  "issue_of w =
     \<lparr>is_number = wi_number w, is_id = wi_id w, is_state = wi_state w, is_title = wi_title w,
      is_body = wi_body w, is_pull_request = (wi_pull_request w \<noteq> None), is_labels = wi_labels w,
      is_author = wi_login w,
      is_blocked_by = (case wi_dependencies w of None \<Rightarrow> 0 | Some n \<Rightarrow> n),
      is_dependencies_read = (wi_dependencies w \<noteq> None), is_updated_at = wi_updated_at w\<rparr>"

subsection \<open>Comments, reviews and reactions\<close>

record gh_comment =
  cm_id :: int
  cm_body :: string
  cm_login :: string
  cm_association :: string
  cm_created_at :: gotime

record wire_comment =
  wc_id :: int
  wc_body :: string
  wc_association :: string
  wc_created_at :: gotime
  wc_login :: string

definition decode_comment :: "time_format \<Rightarrow> json \<Rightarrow> wire_comment option" where
  "decode_comment tm j = do {
     i \<leftarrow> member_int ''id'' j;
     body \<leftarrow> member_string ''body'' j;
     association \<leftarrow> member_string ''author_association'' j;
     c \<leftarrow> member ''created_at'' j;
     created \<leftarrow> as_time tm c;
     login \<leftarrow> login_of j;
     Some \<lparr>wc_id = i, wc_body = body, wc_association = association, wc_created_at = created,
       wc_login = login\<rparr> }"

definition comment_of :: "wire_comment \<Rightarrow> gh_comment" where
  "comment_of w = \<lparr>cm_id = wc_id w, cm_body = wc_body w, cm_login = wc_login w,
     cm_association = wc_association w, cm_created_at = wc_created_at w\<rparr>"

record reaction =
  re_login :: string
  re_content :: string

definition decode_reaction :: "json \<Rightarrow> reaction option" where
  "decode_reaction j = do {
     content \<leftarrow> member_string ''content'' j;
     login \<leftarrow> login_of j;
     Some \<lparr>re_login = login, re_content = content\<rparr> }"

record pr_review =
  rv_id :: int
  rv_node_id :: string
  rv_body :: string
  rv_login :: string
  rv_association :: string
  rv_state :: string
  rv_submitted_at :: gotime
  rv_commit_id :: string
  rv_url :: string

definition decode_review :: "time_format \<Rightarrow> json \<Rightarrow> pr_review option" where
  "decode_review tm j = do {
     i \<leftarrow> member_int ''id'' j;
     node \<leftarrow> member_string ''node_id'' j;
     body \<leftarrow> member_string ''body'' j;
     state \<leftarrow> member_string ''state'' j;
     association \<leftarrow> member_string ''author_association'' j;
     s \<leftarrow> member ''submitted_at'' j;
     submitted \<leftarrow> as_time tm s;
     commit \<leftarrow> member_string ''commit_id'' j;
     u \<leftarrow> member_string ''html_url'' j;
     login \<leftarrow> login_of j;
     Some \<lparr>rv_id = i, rv_node_id = node, rv_body = body, rv_login = login,
       rv_association = association, rv_state = state, rv_submitted_at = submitted,
       rv_commit_id = commit, rv_url = u\<rparr> }"

record line_comment =
  lc_id :: int
  lc_body :: string
  lc_path :: string
  lc_line :: int
  lc_commit_id :: string
  lc_url :: string

definition decode_line_comment :: "json \<Rightarrow> line_comment option" where
  "decode_line_comment j = do {
     i \<leftarrow> member_int ''id'' j;
     body \<leftarrow> member_string ''body'' j;
     path \<leftarrow> member_string ''path'' j;
     line \<leftarrow> member_int ''original_line'' j;
     commit \<leftarrow> member_string ''original_commit_id'' j;
     u \<leftarrow> member_string ''html_url'' j;
     Some \<lparr>lc_id = i, lc_body = body, lc_path = path, lc_line = line, lc_commit_id = commit,
       lc_url = u\<rparr> }"

subsection \<open>Labels\<close>

definition has_label :: "string list \<Rightarrow> string \<Rightarrow> bool" where
  "has_label labels label \<longleftrightarrow> list_ex (\<lambda>l. label \<noteq> '''' \<and> equal_fold l label) labels"

end
