(* ===== verification/GitHub_Client.thy ===== *)
theory GitHub_Client
  imports GitHub_Types Afk_Strings
begin

text \<open>
  The client of the tracker's API, \<^verbatim>\<open>internal/github/github.go\<close> and
  \<^verbatim>\<open>internal/github/pull_request_review.go\<close>. The network is a state: what every request sent
  so far was (oldest first), what the server answers a request after those, and the clock,
  which may move with each request. The credential is an interface, as in the code: how it
  gives a token, and what it does with one refused. A listing is read page by page with a
  bound on the pages, \<open>None\<close> being a listing not read to its end within it.
\<close>

subsection \<open>The network\<close>

record request =
  hr_method :: string
  hr_url :: string
  hr_accept :: string
  hr_token :: string
  hr_payload :: "json option"

text \<open>\<open>rp_doc\<close> is the body as a JSON document, if it is one, and \<open>rp_text\<close> the body as read.\<close>

record response =
  rp_code :: int
  rp_status :: string
  rp_link :: string
  rp_text :: "string + string"
  rp_doc :: "json option"

record net =
  nt_answer :: "request list \<Rightarrow> request \<Rightarrow> string + response"
  nt_clock :: "request list \<Rightarrow> instant"
  nt_sent :: "request list"

datatype gh_error =
    StatusError string string int string
  | NoToken string string gh_error
  | NotSent string
  | Unread string string
  | Decoding string string
  | WrongType string string
  | BadNext string string
  | BadRepo string
  | NoDefaultBranch string
  | NoSpelling string
  | GraphQLError string string
  | NoKey
  | SigningError string
  | NoSlug string
  | NoInstallation string
  | NoTokenInAnswer string

text \<open>Where a token comes from: \<^verbatim>\<open>Credential\<close>, over a state of its own.\<close>

record 'c credential =
  cr_token :: "'c \<Rightarrow> net \<Rightarrow> (gh_error + string) \<times> 'c \<times> net"
  cr_refused :: "string \<Rightarrow> 'c \<Rightarrow> 'c"

record client =
  cl_repo :: string
  cl_base_url :: string

type_synonym 'c gh_state = "'c \<times> net"
type_synonym ('c, 'a) gh_op = "'c gh_state \<Rightarrow> (gh_error + 'a) \<times> 'c gh_state"

subsection \<open>URLs\<close>

definition default_base_url :: string where
  "default_base_url = ''https://api.github.com''"

definition body_limit_gh :: int where
  "body_limit_gh = 65536"

definition media_json :: string where
  "media_json = ''application/vnd.github+json''"

definition media_diff :: string where
  "media_diff = ''application/vnd.github.diff''"

definition per_page :: int where
  "per_page = 100"

definition base_url :: "string \<Rightarrow> string" where
  "base_url u = (if u = '''' then default_base_url else trim_right u CHR ''/'')"

definition split_repo :: "string \<Rightarrow> string \<times> string \<times> bool" where
  "split_repo repo =
     (let (owner, name, ok) = cut repo CHR ''/''
      in (owner, name, ok \<and> owner \<noteq> '''' \<and> name \<noteq> '''' \<and> CHR ''/'' \<notin> set name))"

definition client_base :: "client \<Rightarrow> string" where
  "client_base cl = base_url (cl_base_url cl)"

definition repo_url :: "client \<Rightarrow> string \<Rightarrow> gh_error + string" where
  "repo_url cl path =
     (if \<not> snd (snd (split_repo (cl_repo cl))) then Inl (BadRepo (cl_repo cl))
      else Inr (client_base cl @ ''/repos/'' @ cl_repo cl @ path))"

text \<open>\<^verbatim>\<open>strings.Trim(s, "<>")\<close>.\<close>

definition trim_angles :: "string \<Rightarrow> string" where
  "trim_angles s =
     (let angle = (\<lambda>c. c = CHR ''<'' \<or> c = CHR ''>'')
      in rev (dropWhile angle (rev (dropWhile angle s))))"

definition rel_next :: string where
  "rel_next = ''rel='' @ [CHR 0x22] @ ''next'' @ [CHR 0x22]"

fun next_part :: "string \<Rightarrow> string list \<Rightarrow> gh_error + string" where
  "next_part base [] = Inr ''''"
| "next_part base (part # parts) =
     (let (target, params, ok) = cut (trim_space part) CHR '';'' in
      if \<not> ok \<or> \<not> contains params rel_next then next_part base parts
      else
        let u = trim_angles (trim_space target) in
        if \<not> has_prefix u (base @ ''/'') then Inl (BadNext u base) else Inr u)"

definition next_url :: "client \<Rightarrow> string \<Rightarrow> gh_error + string" where
  "next_url cl link = next_part (client_base cl) (split_on CHR '','' link)"

subsection \<open>One request\<close>

definition do_request :: "string \<Rightarrow> string \<Rightarrow> string \<Rightarrow> string \<Rightarrow> json option \<Rightarrow> net \<Rightarrow> (gh_error + response) \<times> net" where
  "do_request meth u accept token payload n =
     (let q = \<lparr>hr_method = meth, hr_url = u, hr_accept = accept, hr_token = token, hr_payload = payload\<rparr>;
          n' = n\<lparr>nt_sent := nt_sent n @ [q]\<rparr>
      in (case nt_answer n (nt_sent n) q of
            Inl e \<Rightarrow> (Inl (NotSent e), n')
          | Inr r \<Rightarrow>
              if rp_code r < 200 \<or> 299 < rp_code r
              then (Inl (StatusError meth u (rp_code r) (rp_status r)), n')
              else (Inr r, n')))"

fun status_is :: "int \<Rightarrow> gh_error \<Rightarrow> bool" where
  "status_is code (StatusError m u c s) \<longleftrightarrow> c = code"
| "status_is code (NoToken m u e) \<longleftrightarrow> status_is code e"
| "status_is code _ \<longleftrightarrow> False"

definition send :: "'c credential option \<Rightarrow> string \<Rightarrow> string \<Rightarrow> string \<Rightarrow> json option \<Rightarrow> ('c, response) gh_op" where
  "send cr meth u accept payload st =
     (let (c, n) = st in
      case cr of
        None \<Rightarrow> (let (r, n') = do_request meth u accept '''' payload n in (r, c, n'))
      | Some k \<Rightarrow>
          (case cr_token k c n of
             (Inl e, c1, n1) \<Rightarrow> (Inl (NoToken meth u e), c1, n1)
           | (Inr token, c1, n1) \<Rightarrow>
               (let (r, n2) = do_request meth u accept token payload n1 in
                case r of
                  Inl e \<Rightarrow> (Inl e, if status_is 401 e then cr_refused k token c1 else c1, n2)
                | Inr a \<Rightarrow> (Inr a, c1, n2))))"

definition read_json :: "string \<Rightarrow> string \<Rightarrow> (json \<Rightarrow> 'a option) \<Rightarrow> response \<Rightarrow> gh_error + 'a" where
  "read_json meth u decode r =
     (case rp_doc r of None \<Rightarrow> Inl (Decoding meth u)
      | Some j \<Rightarrow> (case decode j of None \<Rightarrow> Inl (WrongType meth u) | Some v \<Rightarrow> Inr v))"

definition get_json :: "client \<Rightarrow> 'c credential option \<Rightarrow> (json \<Rightarrow> 'a option) \<Rightarrow> string \<Rightarrow> ('c, 'a \<times> string) gh_op" where
  "get_json cl cr decode u st =
     (case send cr ''GET'' u media_json None st of
        (Inl e, st') \<Rightarrow> (Inl e, st')
      | (Inr r, st') \<Rightarrow>
          (case read_json ''GET'' u decode r of
             Inl e \<Rightarrow> (Inl e, st')
           | Inr v \<Rightarrow>
               (case next_url cl (rp_link r) of
                  Inl e \<Rightarrow> (Inl e, st')
                | Inr nx \<Rightarrow> (Inr (v, nx), st'))))"

text \<open>\<^verbatim>\<open>postJSON\<close> with a value to decode into, and with nil.\<close>

definition post_json :: "'c credential option \<Rightarrow> (json \<Rightarrow> 'a option) \<Rightarrow> string \<Rightarrow> json \<Rightarrow> ('c, 'a) gh_op" where
  "post_json cr decode u payload st =
     (case send cr ''POST'' u media_json (Some payload) st of
        (Inl e, st') \<Rightarrow> (Inl e, st')
      | (Inr r, st') \<Rightarrow> (read_json ''POST'' u decode r, st'))"

definition post_nil :: "'c credential option \<Rightarrow> string \<Rightarrow> json \<Rightarrow> ('c, unit) gh_op" where
  "post_nil cr u payload st =
     (case send cr ''POST'' u media_json (Some payload) st of
        (Inl e, st') \<Rightarrow> (Inl e, st')
      | (Inr r, st') \<Rightarrow> (Inr (), st'))"

text \<open>Pages, until there is no next one, each added to what was read before it.\<close>

fun read_pages :: "nat \<Rightarrow> client \<Rightarrow> 'c credential option \<Rightarrow> (json \<Rightarrow> 'p option) \<Rightarrow> ('p \<Rightarrow> 'a \<Rightarrow> 'a) \<Rightarrow>
    string \<Rightarrow> 'a \<Rightarrow> 'c gh_state \<Rightarrow> (gh_error + 'a) option \<times> 'c gh_state" where
  "read_pages 0 cl cr decode add u out st = (if u = '''' then (Some (Inr out), st) else (None, st))"
| "read_pages (Suc n) cl cr decode add u out st =
     (if u = '''' then (Some (Inr out), st)
      else (case get_json cl cr decode u st of
          (Inl e, st') \<Rightarrow> (Some (Inl e), st')
        | (Inr (page, nx), st') \<Rightarrow> read_pages n cl cr decode add nx (add page out) st'))"

definition all_pages :: "nat \<Rightarrow> client \<Rightarrow> 'c credential option \<Rightarrow> (json \<Rightarrow> 'a option) \<Rightarrow> string \<Rightarrow>
    'c gh_state \<Rightarrow> (gh_error + 'a list) option \<times> 'c gh_state" where
  "all_pages n cl cr decode u st = read_pages n cl cr (as_list decode) (\<lambda>page out. out @ page) u [] st"

subsection \<open>Reading the repository\<close>

text \<open>An endpoint under the repository, or the error its name makes before anything is sent.\<close>

definition at_repo :: "client \<Rightarrow> string \<Rightarrow> (string \<Rightarrow> ('c, 'a) gh_op) \<Rightarrow> ('c, 'a) gh_op" where
  "at_repo cl path f st = (case repo_url cl path of Inl e \<Rightarrow> (Inl e, st) | Inr u \<Rightarrow> f u st)"

definition list_repo :: "client \<Rightarrow> string \<Rightarrow> (string \<Rightarrow> 'c gh_state \<Rightarrow> (gh_error + 'a) option \<times> 'c gh_state) \<Rightarrow>
    'c gh_state \<Rightarrow> (gh_error + 'a) option \<times> 'c gh_state" where
  "list_repo cl path f st = (case repo_url cl path of Inl e \<Rightarrow> (Some (Inl e), st) | Inr u \<Rightarrow> f u st)"

definition map_result :: "('a \<Rightarrow> 'b) \<Rightarrow> (gh_error + 'a) \<times> 's \<Rightarrow> (gh_error + 'b) \<times> 's" where
  "map_result f r = (case r of (Inl e, st) \<Rightarrow> (Inl e, st) | (Inr a, st) \<Rightarrow> (Inr (f a), st))"

definition map_listing :: "('a \<Rightarrow> 'b) \<Rightarrow> (gh_error + 'a) option \<times> 's \<Rightarrow> (gh_error + 'b) option \<times> 's" where
  "map_listing f r =
     (case r of (None, st) \<Rightarrow> (None, st)
      | (Some (Inl e), st) \<Rightarrow> (Some (Inl e), st)
      | (Some (Inr a), st) \<Rightarrow> (Some (Inr (f a)), st))"

definition paged :: string where
  "paged = ''per_page='' @ dec per_page"

definition get_pull_request :: "client \<Rightarrow> 'c credential option \<Rightarrow> int \<Rightarrow> ('c, pull_request) gh_op" where
  "get_pull_request cl cr number =
     at_repo cl (''/pulls/'' @ dec number)
       (\<lambda>u st. map_result (pull_request_of \<circ> fst) (get_json cl cr decode_pr u st))"

definition get_issue :: "client \<Rightarrow> 'c credential option \<Rightarrow> time_format \<Rightarrow> int \<Rightarrow> ('c, gh_issue) gh_op" where
  "get_issue cl cr tm number =
     at_repo cl (''/issues/'' @ dec number)
       (\<lambda>u st. map_result (issue_of \<circ> fst) (get_json cl cr (decode_issue tm) u st))"

definition default_branch :: "client \<Rightarrow> 'c credential option \<Rightarrow> ('c, string) gh_op" where
  "default_branch cl cr =
     at_repo cl '''' (\<lambda>u st.
       (case get_json cl cr (member_string ''default_branch'') u st of
          (Inl e, st') \<Rightarrow> (Inl e, st')
        | (Inr (b, _), st') \<Rightarrow> (if b = '''' then Inl (NoDefaultBranch u) else Inr b, st')))"

definition open_issues :: "nat \<Rightarrow> client \<Rightarrow> 'c credential option \<Rightarrow> time_format \<Rightarrow> 'c gh_state \<Rightarrow> (gh_error + gh_issue list) option \<times> 'c gh_state" where
  "open_issues n cl cr tm =
     list_repo cl (''/issues?state=open&'' @ paged)
       (\<lambda>u st. map_listing (map issue_of) (all_pages n cl cr (decode_issue tm) u st))"

definition open_pull_requests :: "nat \<Rightarrow> client \<Rightarrow> 'c credential option \<Rightarrow> 'c gh_state \<Rightarrow> (gh_error + pull_request list) option \<times> 'c gh_state" where
  "open_pull_requests n cl cr =
     list_repo cl (''/pulls?state=open&'' @ paged)
       (\<lambda>u st. map_listing (map pull_request_of) (all_pages n cl cr decode_pr u st))"

definition compare_heads :: "client \<Rightarrow> 'c credential option \<Rightarrow> string \<Rightarrow> string \<Rightarrow> ('c, string) gh_op" where
  "compare_heads cl cr base head =
     at_repo cl (''/compare/'' @ path_escape base @ ''...'' @ path_escape head) (\<lambda>u st.
       (case send cr ''GET'' u media_diff None st of
          (Inl e, st') \<Rightarrow> (Inl e, st')
        | (Inr r, st') \<Rightarrow> (case rp_text r of Inl e \<Rightarrow> Inl (Unread u e) | Inr t \<Rightarrow> Inr t, st')))"

definition list_comments :: "nat \<Rightarrow> client \<Rightarrow> 'c credential option \<Rightarrow> time_format \<Rightarrow> int \<Rightarrow> 'c gh_state \<Rightarrow> (gh_error + gh_comment list) option \<times> 'c gh_state" where
  "list_comments n cl cr tm number =
     list_repo cl (''/issues/'' @ dec number @ ''/comments?'' @ paged)
       (\<lambda>u st. map_listing (map comment_of) (all_pages n cl cr (decode_comment tm) u st))"

definition list_reactions :: "nat \<Rightarrow> client \<Rightarrow> 'c credential option \<Rightarrow> int \<Rightarrow> 'c gh_state \<Rightarrow> (gh_error + reaction list) option \<times> 'c gh_state" where
  "list_reactions n cl cr comment =
     list_repo cl (''/issues/comments/'' @ dec comment @ ''/reactions?'' @ paged)
       (all_pages n cl cr decode_reaction)"

definition list_issue_reactions :: "nat \<Rightarrow> client \<Rightarrow> 'c credential option \<Rightarrow> int \<Rightarrow> 'c gh_state \<Rightarrow> (gh_error + reaction list) option \<times> 'c gh_state" where
  "list_issue_reactions n cl cr number =
     list_repo cl (''/issues/'' @ dec number @ ''/reactions?'' @ paged)
       (all_pages n cl cr decode_reaction)"

definition list_reviews :: "nat \<Rightarrow> client \<Rightarrow> 'c credential option \<Rightarrow> time_format \<Rightarrow> int \<Rightarrow> 'c gh_state \<Rightarrow> (gh_error + pr_review list) option \<times> 'c gh_state" where
  "list_reviews n cl cr tm number =
     list_repo cl (''/pulls/'' @ dec number @ ''/reviews?'' @ paged)
       (all_pages n cl cr (decode_review tm))"

definition list_line_comments :: "nat \<Rightarrow> client \<Rightarrow> 'c credential option \<Rightarrow> int \<Rightarrow> int \<Rightarrow> 'c gh_state \<Rightarrow> (gh_error + line_comment list) option \<times> 'c gh_state" where
  "list_line_comments n cl cr number review =
     list_repo cl (''/pulls/'' @ dec number @ ''/reviews/'' @ dec review @ ''/comments?'' @ paged)
       (all_pages n cl cr decode_line_comment)"

definition issues_by :: "nat \<Rightarrow> client \<Rightarrow> 'c credential option \<Rightarrow> time_format \<Rightarrow> string \<Rightarrow> 'c gh_state \<Rightarrow> (gh_error + gh_issue list) option \<times> 'c gh_state" where
  "issues_by n cl cr tm login =
     list_repo cl (''/issues?state=all&creator='' @ query_escape login @ ''&'' @ paged)
       (\<lambda>u st. map_listing (map issue_of) (all_pages n cl cr (decode_issue tm) u st))"

definition blocked_by :: "nat \<Rightarrow> client \<Rightarrow> 'c credential option \<Rightarrow> time_format \<Rightarrow> int \<Rightarrow> 'c gh_state \<Rightarrow> (gh_error + gh_issue list) option \<times> 'c gh_state" where
  "blocked_by n cl cr tm number =
     list_repo cl (''/issues/'' @ dec number @ ''/dependencies/blocked_by?'' @ paged)
       (\<lambda>u st. map_listing (map issue_of) (all_pages n cl cr (decode_issue tm) u st))"

subsection \<open>Checks and workflow runs\<close>

record check_run =
  cr_name :: string
  cr_status :: string
  cr_conclusion :: string
  cr_url :: string
  cr_title :: string
  cr_summary :: string
  cr_text :: string

definition decode_check_run :: "json \<Rightarrow> check_run option" where
  "decode_check_run j = do {
     name \<leftarrow> member_string ''name'' j;
     status \<leftarrow> member_string ''status'' j;
     conclusion \<leftarrow> member_string ''conclusion'' j;
     u \<leftarrow> member_string ''html_url'' j;
     out \<leftarrow> member ''output'' j;
     title \<leftarrow> member_string ''title'' out;
     summary \<leftarrow> member_string ''summary'' out;
     text \<leftarrow> member_string ''text'' out;
     Some \<lparr>cr_name = name, cr_status = status, cr_conclusion = conclusion, cr_url = u,
       cr_title = title, cr_summary = summary, cr_text = text\<rparr> }"

definition list_check_runs :: "nat \<Rightarrow> client \<Rightarrow> 'c credential option \<Rightarrow> string \<Rightarrow> 'c gh_state \<Rightarrow> (gh_error + check_run list) option \<times> 'c gh_state" where
  "list_check_runs n cl cr sha =
     list_repo cl (''/commits/'' @ sha @ ''/check-runs?'' @ paged) (\<lambda>u.
       read_pages n cl cr (\<lambda>j. do { rs \<leftarrow> member ''check_runs'' j; as_list decode_check_run rs })
         (\<lambda>page out. out @ page) u [])"

record workflow_run =
  wr_id :: int
  wr_head_sha :: string
  wr_head_branch :: string
  wr_event :: string
  wr_conclusion :: string
  wr_created :: gotime

definition decode_workflow_run :: "time_format \<Rightarrow> json \<Rightarrow> workflow_run option" where
  "decode_workflow_run tm j = do {
     i \<leftarrow> member_int ''id'' j;
     sha \<leftarrow> member_string ''head_sha'' j;
     branch \<leftarrow> member_string ''head_branch'' j;
     event \<leftarrow> member_string ''event'' j;
     conclusion \<leftarrow> member_string ''conclusion'' j;
     c \<leftarrow> member ''created_at'' j;
     created \<leftarrow> as_time tm c;
     Some \<lparr>wr_id = i, wr_head_sha = sha, wr_head_branch = branch, wr_event = event,
       wr_conclusion = conclusion, wr_created = created\<rparr> }"

definition decode_workflow_page :: "time_format \<Rightarrow> json \<Rightarrow> (int \<times> workflow_run list) option" where
  "decode_workflow_page tm j = do {
     total \<leftarrow> member_int ''total_count'' j;
     rs \<leftarrow> member ''workflow_runs'' j;
     runs \<leftarrow> as_list (decode_workflow_run tm) rs;
     Some (total, runs) }"

text \<open>The runs of every page, and the total the last page gives.\<close>

definition workflow_runs :: "nat \<Rightarrow> client \<Rightarrow> 'c credential option \<Rightarrow> time_format \<Rightarrow> string \<Rightarrow> string \<Rightarrow> 'c gh_state \<Rightarrow>
    (gh_error + workflow_run list \<times> int) option \<times> 'c gh_state" where
  "workflow_runs n cl cr tm actor conclusion =
     list_repo cl (''/actions/runs?actor='' @ query_escape actor @ ''&status='' @ query_escape conclusion @
         ''&exclude_pull_requests=true&'' @ paged) (\<lambda>u.
       read_pages n cl cr (decode_workflow_page tm)
         (\<lambda>(total, page) (runs, _). (runs @ page, total)) u ([], 0))"

definition workflow_run_count :: "client \<Rightarrow> 'c credential option \<Rightarrow> string \<Rightarrow> ('c, int) gh_op" where
  "workflow_run_count cl cr actor =
     at_repo cl (''/actions/runs?actor='' @ query_escape actor @ ''&exclude_pull_requests=true&per_page=1'')
       (\<lambda>u st. map_result fst (get_json cl cr (member_int ''total_count'') u st))"

record workflow_job =
  wj_name :: string
  wj_conclusion :: string
  wj_url :: string

definition decode_workflow_job :: "json \<Rightarrow> workflow_job option" where
  "decode_workflow_job j = do {
     name \<leftarrow> member_string ''name'' j;
     conclusion \<leftarrow> member_string ''conclusion'' j;
     u \<leftarrow> member_string ''html_url'' j;
     Some \<lparr>wj_name = name, wj_conclusion = conclusion, wj_url = u\<rparr> }"

definition workflow_jobs :: "nat \<Rightarrow> client \<Rightarrow> 'c credential option \<Rightarrow> int \<Rightarrow> 'c gh_state \<Rightarrow> (gh_error + workflow_job list) option \<times> 'c gh_state" where
  "workflow_jobs n cl cr run =
     list_repo cl (''/actions/runs/'' @ dec run @ ''/jobs?'' @ paged) (\<lambda>u.
       read_pages n cl cr (\<lambda>j. do { js \<leftarrow> member ''jobs'' j; as_list decode_workflow_job js })
         (\<lambda>page out. out @ page) u [])"

text \<open>A branch's rules: their type and the contexts of their required checks.\<close>

definition decode_rule :: "json \<Rightarrow> (string \<times> string list) option" where
  "decode_rule j = do {
     ty \<leftarrow> member_string ''type'' j;
     p \<leftarrow> member ''parameters'' j;
     cs \<leftarrow> member ''required_status_checks'' p;
     contexts \<leftarrow> as_list (member_string ''context'') cs;
     Some (ty, contexts) }"

fun add_new :: "string list \<Rightarrow> string list \<Rightarrow> string list" where
  "add_new out [] = out"
| "add_new out (c # cs) = add_new (if c \<in> set out then out else out @ [c]) cs"

fun required_of :: "string list \<Rightarrow> (string \<times> string list) list \<Rightarrow> string list" where
  "required_of out [] = out"
| "required_of out ((ty, contexts) # rules) =
     required_of (if ty \<noteq> ''required_status_checks'' then out else add_new out contexts) rules"

definition list_required_checks :: "nat \<Rightarrow> client \<Rightarrow> 'c credential option \<Rightarrow> string \<Rightarrow> 'c gh_state \<Rightarrow> (gh_error + string list) option \<times> 'c gh_state" where
  "list_required_checks n cl cr branch =
     list_repo cl (''/rules/branches/'' @ branch @ ''?'' @ paged)
       (\<lambda>u st. map_listing (required_of []) (all_pages n cl cr decode_rule u st))"

subsection \<open>Writing to the repository\<close>

definition post_comment :: "client \<Rightarrow> 'c credential option \<Rightarrow> time_format \<Rightarrow> int \<Rightarrow> string \<Rightarrow> ('c, gh_comment) gh_op" where
  "post_comment cl cr tm number body =
     at_repo cl (''/issues/'' @ dec number @ ''/comments'') (\<lambda>u st.
       map_result comment_of (post_json cr (decode_comment tm) u (JObj [(''body'', JStr body)]) st))"

definition patch_body :: "'c credential option \<Rightarrow> string \<Rightarrow> string \<Rightarrow> ('c, unit) gh_op" where
  "patch_body cr body u st =
     (case send cr ''PATCH'' u media_json (Some (JObj [(''body'', JStr body)])) st of
        (Inl e, st') \<Rightarrow> (Inl e, st')
      | (Inr r, st') \<Rightarrow> (Inr (), st'))"

definition edit_comment :: "client \<Rightarrow> 'c credential option \<Rightarrow> int \<Rightarrow> string \<Rightarrow> ('c, unit) gh_op" where
  "edit_comment cl cr comment body =
     at_repo cl (''/issues/comments/'' @ dec comment) (patch_body cr body)"

definition edit_pull_request :: "client \<Rightarrow> 'c credential option \<Rightarrow> int \<Rightarrow> string \<Rightarrow> ('c, unit) gh_op" where
  "edit_pull_request cl cr number body = at_repo cl (''/pulls/'' @ dec number) (patch_body cr body)"

definition react :: "client \<Rightarrow> 'c credential option \<Rightarrow> int \<Rightarrow> string \<Rightarrow> ('c, unit) gh_op" where
  "react cl cr comment content =
     at_repo cl (''/issues/comments/'' @ dec comment @ ''/reactions'')
       (\<lambda>u. post_nil cr u (JObj [(''content'', JStr content)]))"

definition react_to_issue :: "client \<Rightarrow> 'c credential option \<Rightarrow> int \<Rightarrow> string \<Rightarrow> ('c, unit) gh_op" where
  "react_to_issue cl cr number content =
     at_repo cl (''/issues/'' @ dec number @ ''/reactions'')
       (\<lambda>u. post_nil cr u (JObj [(''content'', JStr content)]))"

record new_pull_request =
  np_title :: string
  np_head :: string
  np_base :: string
  np_body :: string

definition create_pull_request :: "client \<Rightarrow> 'c credential option \<Rightarrow> new_pull_request \<Rightarrow> ('c, pull_request) gh_op" where
  "create_pull_request cl cr np =
     at_repo cl ''/pulls'' (\<lambda>u st. map_result pull_request_of
       (post_json cr decode_pr u
          (JObj [(''base'', JStr (np_base np)), (''body'', JStr (np_body np)),
             (''head'', JStr (np_head np)), (''title'', JStr (np_title np))]) st))"

definition label :: "client \<Rightarrow> 'c credential option \<Rightarrow> int \<Rightarrow> string \<Rightarrow> ('c, unit) gh_op" where
  "label cl cr number name =
     at_repo cl (''/issues/'' @ dec number @ ''/labels'')
       (\<lambda>u. post_nil cr u (JObj [(''labels'', JList [JStr name])]))"

text \<open>\<^verbatim>\<open>errors.As\<close> looks through what an error wraps, a token's error included.\<close>

definition unlabel :: "client \<Rightarrow> 'c credential option \<Rightarrow> int \<Rightarrow> string \<Rightarrow> ('c, unit) gh_op" where
  "unlabel cl cr number name =
     at_repo cl (''/issues/'' @ dec number @ ''/labels/'' @ path_escape name) (\<lambda>u st.
       (case send cr ''DELETE'' u media_json None st of
          (Inl e, st') \<Rightarrow> (if status_is 404 e then Inr () else Inl e, st')
        | (Inr r, st') \<Rightarrow> (Inr (), st')))"

definition create_issue :: "client \<Rightarrow> 'c credential option \<Rightarrow> time_format \<Rightarrow> string \<Rightarrow> string \<Rightarrow> ('c, gh_issue) gh_op" where
  "create_issue cl cr tm title body =
     at_repo cl ''/issues'' (\<lambda>u st. map_result issue_of
       (post_json cr (decode_issue tm) u (JObj [(''body'', JStr body), (''title'', JStr title)]) st))"

definition add_blocked_by :: "client \<Rightarrow> 'c credential option \<Rightarrow> int \<Rightarrow> int \<Rightarrow> ('c, unit) gh_op" where
  "add_blocked_by cl cr number blocker =
     at_repo cl (''/issues/'' @ dec number @ ''/dependencies/blocked_by'')
       (\<lambda>u. post_nil cr u (JObj [(''issue_id'', JNum blocker)]))"

subsection \<open>Reactions to a review, through GraphQL\<close>

definition graphql_url :: "client \<Rightarrow> string" where
  "graphql_url cl = client_base cl @ ''/graphql''"

definition graphql_content :: "(string \<times> string) list" where
  "graphql_content =
     [(''+1'', ''THUMBS_UP''), (''-1'', ''THUMBS_DOWN''), (''laugh'', ''LAUGH''), (''hooray'', ''HOORAY''),
      (''confused'', ''CONFUSED''), (''heart'', ''HEART''), (''rocket'', ''ROCKET''), (''eyes'', ''EYES'')]"

definition rest_content :: "string \<Rightarrow> string" where
  "rest_content gql =
     (case find (\<lambda>(rest, g). g = gql) graphql_content of
        Some (rest, _) \<Rightarrow> rest
      | None \<Rightarrow> map fold_char gql)"

definition decode_graphql_error :: "json \<Rightarrow> (string \<times> string) option" where
  "decode_graphql_error j = do {
     ty \<leftarrow> member_string ''type'' j; m \<leftarrow> member_string ''message'' j; Some (ty, m) }"

definition decode_graphql :: "(json \<Rightarrow> 'a option) \<Rightarrow> json \<Rightarrow> ('a \<times> (string \<times> string) list) option" where
  "decode_graphql decode j = do {
     d \<leftarrow> member ''data'' j;
     v \<leftarrow> decode d;
     es \<leftarrow> member ''errors'' j;
     errs \<leftarrow> as_list decode_graphql_error es;
     Some (v, errs) }"

definition graphql :: "client \<Rightarrow> 'c credential option \<Rightarrow> (json \<Rightarrow> 'a option) \<Rightarrow> string \<Rightarrow> json \<Rightarrow> ('c, 'a) gh_op" where
  "graphql cl cr decode query variables st =
     (let u = graphql_url cl in
      case post_json cr (decode_graphql decode) u
          (JObj [(''query'', JStr query), (''variables'', variables)]) st of
        (Inl e, st') \<Rightarrow> (Inl e, st')
      | (Inr (v, []), st') \<Rightarrow> (Inr v, st')
      | (Inr (v, (ty, message) # _), st') \<Rightarrow>
          (Inl (if ty = ''NOT_FOUND'' then StatusError ''POST'' u 404 message
                else GraphQLError u message), st'))"

definition reactions_query :: string where
  "reactions_query = ''query($id: ID!, $after: String) {
  node(id: $id) {
    ... on PullRequestReview {
      reactions(first: 100, after: $after) {
        nodes { content user { login } }
        pageInfo { hasNextPage endCursor }
      }
    }
  }
}''"

definition decode_node :: "json \<Rightarrow> reaction option" where
  "decode_node j = do {
     content \<leftarrow> member_string ''content'' j;
     u \<leftarrow> member ''user'' j;
     login \<leftarrow> as_pointer (member_string ''login'') u;
     Some \<lparr>re_login = (case login of None \<Rightarrow> '''' | Some l \<Rightarrow> l), re_content = rest_content content\<rparr> }"

definition decode_reaction_page :: "json \<Rightarrow> (reaction list \<times> bool \<times> string) option" where
  "decode_reaction_page j = do {
     rs \<leftarrow> member ''reactions'' j;
     ns \<leftarrow> member ''nodes'' rs;
     nodes \<leftarrow> as_list decode_node ns;
     page \<leftarrow> member ''pageInfo'' rs;
     m \<leftarrow> member ''hasNextPage'' page;
     again \<leftarrow> as_bool m;
     cursor \<leftarrow> member_string ''endCursor'' page;
     Some (nodes, again, cursor) }"

fun review_reactions :: "nat \<Rightarrow> client \<Rightarrow> 'c credential option \<Rightarrow> string \<Rightarrow> json \<Rightarrow> reaction list \<Rightarrow>
    'c gh_state \<Rightarrow> (gh_error + reaction list) option \<times> 'c gh_state" where
  "review_reactions 0 cl cr node after out st = (None, st)"
| "review_reactions (Suc n) cl cr node after out st =
     (case graphql cl cr (\<lambda>d. do { v \<leftarrow> member ''node'' d; as_pointer decode_reaction_page v })
         reactions_query (JObj [(''after'', after), (''id'', JStr node)]) st of
        (Inl e, st') \<Rightarrow> (Some (Inl e), st')
      | (Inr None, st') \<Rightarrow>
          (Some (Inl (StatusError ''POST'' (graphql_url cl) 404 (''review '' @ node @ '' not found''))), st')
      | (Inr (Some (nodes, again, cursor)), st') \<Rightarrow>
          if \<not> again then (Some (Inr (out @ nodes)), st')
          else review_reactions n cl cr node (JStr cursor) (out @ nodes) st')"

definition reaction_mutation :: string where
  "reaction_mutation = ''mutation($id: ID!, $content: ReactionContent!) {
  addReaction(input: {subjectId: $id, content: $content}) { reaction { content } }
}''"

definition react_to_review :: "client \<Rightarrow> 'c credential option \<Rightarrow> string \<Rightarrow> string \<Rightarrow> ('c, unit) gh_op" where
  "react_to_review cl cr node content st =
     (case map_of graphql_content content of
        None \<Rightarrow> (Inl (NoSpelling content), st)
      | Some gql \<Rightarrow>
          graphql cl cr (\<lambda>d. if d = JNull then Some () else as_object d) reaction_mutation
            (JObj [(''content'', JStr gql), (''id'', JStr node)]) st)"

end
