(* ===== verification/Intake.thy ===== *)
theory Intake
  imports Armer GitHub_Types Afk_Strings
begin

text \<open>
  How a command enters the store, \<^verbatim>\<open>internal/intake/intake.go\<close>: a pass reads the open issues
  and pull requests for commands nobody has answered and makes a job due for each, then takes
  the eligible issues the review queue has room for. The tracker is a record of what it
  answers during the pass; the listing is read twice, for the pass and for the queue. The
  store is the world of \<^verbatim>\<open>Runner\<close>, with its faults. Each reading of the clock has a name of its
  own in the configuration. What the pass logs is part of its answer.
\<close>

subsection \<open>Commands\<close>

record command =
  cd_word :: string
  cd_on :: subject_type
  cd_kind :: kind
  cd_start :: string
  cd_by_review :: bool

record review_queue =
  qu_limit :: int
  qu_label :: string
  qu_revise :: kind

record unattended =
  un_label :: string
  un_kind :: kind
  un_start :: string
  un_queue :: review_queue

type_synonym 'a answer = "string + 'a"

record tracker =
  tk_open :: "gh_issue list answer"
  tk_open_again :: "gh_issue list answer"
  tk_comments :: "int \<Rightarrow> gh_comment list answer"
  tk_reactions :: "int \<Rightarrow> reaction list answer"
  tk_issue_reactions :: "int \<Rightarrow> reaction list answer"
  tk_reviews :: "int \<Rightarrow> pr_review list answer"
  tk_review_reactions :: "string \<Rightarrow> reaction list answer"

record intake =
  in_tracker :: "tracker option"
  in_store :: bool
  in_commands :: "command list"
  in_unattended :: unattended
  in_login :: string
  in_holder :: string
  in_ttl :: int
  in_now_arm :: "string \<Rightarrow> instant"
  in_now_queue :: instant
  in_now_take :: "int \<Rightarrow> instant"

record reading =
  rg_at :: gotime
  rg_settled :: bool

record intake_state =
  it_seen :: "int \<rightharpoonup> reading"
  it_blind :: "int list"
  it_holding :: bool

definition claim_reaction :: string where
  "claim_reaction = ''eyes''"

definition writers :: "string list" where
  "writers = [''OWNER'', ''MEMBER'', ''COLLABORATOR'']"

definition comment_key :: "int \<Rightarrow> string" where
  "comment_key i = ''intake-comment-'' @ dec i"

definition review_key :: "int \<Rightarrow> string" where
  "review_key i = ''intake-review-'' @ dec i"

definition issues_word :: "string \<Rightarrow> string \<Rightarrow> string \<Rightarrow> string \<Rightarrow> string \<Rightarrow> bool" where
  "issues_word author association body login word \<longleftrightarrow>
     \<not> (equal_fold author login \<or> association \<notin> set writers) \<and>
     (case words (fst (cut (trim_space body) CHR 0x0A)) of [] \<Rightarrow> False | w # _ \<Rightarrow> w = word)"

definition is_command :: "gh_comment \<Rightarrow> string \<Rightarrow> string \<Rightarrow> bool" where
  "is_command c login word = issues_word (cm_login c) (cm_association c) (cm_body c) login word"

definition is_command_by_review :: "pr_review \<Rightarrow> string \<Rightarrow> string \<Rightarrow> bool" where
  "is_command_by_review r login word \<longleftrightarrow>
     rv_state r \<noteq> ''PENDING'' \<and> issues_word (rv_login r) (rv_association r) (rv_body r) login word"

definition claimed :: "reaction list \<Rightarrow> string \<Rightarrow> bool" where
  "claimed rs login \<longleftrightarrow> list_ex (\<lambda>r. re_content r = claim_reaction \<and> equal_fold (re_login r) login) rs"

definition find_command :: "intake \<Rightarrow> gh_comment \<Rightarrow> subject_type \<Rightarrow> command option" where
  "find_command i c on = find (\<lambda>cd. cd_on cd = on \<and> is_command c (in_login i) (cd_word cd)) (in_commands i)"

definition find_command_by_review :: "intake \<Rightarrow> pr_review \<Rightarrow> command option" where
  "find_command_by_review i r =
     find (\<lambda>cd. cd_by_review cd \<and> cd_on cd = SubjectPR \<and> is_command_by_review r (in_login i) (cd_word cd))
       (in_commands i)"

definition by_review :: "intake \<Rightarrow> bool" where
  "by_review i \<longleftrightarrow> list_ex cd_by_review (in_commands i)"

definition answered :: "intake \<Rightarrow> reaction list answer \<Rightarrow> bool answer" where
  "answered i rs = (case rs of Inl e \<Rightarrow> Inl e | Inr l \<Rightarrow> Inr (claimed l (in_login i)))"

subsection \<open>Configuration\<close>

datatype intake_error =
    NoTracker | NoStore | NoLogin | NoHolder | NoLease
  | BadWord string
  | BadCommand string string
  | BadUnattended string
  | TrackerError string
  | StoreErrors "store_error list"
  | SubjectError string int intake_error
  | NoDependencies int
  | ListingError string
  | QueueError intake_error

definition command_error :: "command \<Rightarrow> intake_error option" where
  "command_error cd =
     (if \<not> has_prefix (cd_word cd) ''/'' \<or> list_ex (\<lambda>c. c \<in> {CHR '' '', CHR 0x09, CHR 0x0A}) (cd_word cd)
      then Some (BadWord (cd_word cd))
      else if \<not> subject_type_valid (cd_on cd) then Some (BadCommand (cd_word cd) ''unknown subject type'')
      else if \<not> kind_valid (cd_kind cd) then Some (BadCommand (cd_word cd) ''unknown job kind'')
      else if cd_start cd = '''' then Some (BadCommand (cd_word cd) ''no start state'')
      else if cd_by_review cd \<and> cd_on cd \<noteq> SubjectPR
      then Some (BadCommand (cd_word cd) ''only a pull request has reviews'')
      else None)"

fun first_error :: "('a \<Rightarrow> 'e option) \<Rightarrow> 'a list \<Rightarrow> 'e option" where
  "first_error f [] = None"
| "first_error f (x # xs) = (case f x of Some e \<Rightarrow> Some e | None \<Rightarrow> first_error f xs)"

definition unattended_error :: "unattended \<Rightarrow> intake_error option" where
  "unattended_error u =
     (if un_label u = '''' then None
      else if \<not> kind_valid (un_kind u) then Some (BadUnattended ''unknown job kind'')
      else if un_start u = '''' then Some (BadUnattended ''no start state'')
      else if qu_limit (un_queue u) < 0 then Some (BadUnattended ''review-queue limit is negative'')
      else if qu_revise (un_queue u) \<noteq> '''' \<and> \<not> kind_valid (qu_revise (un_queue u))
      then Some (BadUnattended ''unknown revision kind'')
      else if 0 < qu_limit (un_queue u) \<and> qu_label (un_queue u) = ''''
      then Some (BadUnattended ''a review-queue limit and no hand-off label'')
      else None)"

definition intake_validate :: "intake \<Rightarrow> intake_error option" where
  "intake_validate i =
     (if in_tracker i = None then Some NoTracker
      else if \<not> in_store i then Some NoStore
      else if in_login i = '''' then Some NoLogin
      else if in_holder i = '''' then Some NoHolder
      else if in_ttl i \<le> 0 then Some NoLease
      else (case first_error command_error (in_commands i) of
          Some e \<Rightarrow> Some e
        | None \<Rightarrow> unattended_error (in_unattended i)))"

subsection \<open>Arming what a subject asks for\<close>

text \<open>What a call made: the jobs, whether there is nothing to come back for, and an error.\<close>

type_synonym armed = "job list \<times> bool \<times> intake_error option"

definition intake_arm :: "intake \<Rightarrow> command \<Rightarrow> subject \<Rightarrow> string \<Rightarrow> world \<Rightarrow> arm_result" where
  "intake_arm i cd s key w =
     restart \<lparr>ar_holder = in_holder i, ar_ttl = in_ttl i\<rparr> (cd_kind cd) s (cd_start cd) (in_now_arm i key) key w"

definition arm_unanswered :: "intake \<Rightarrow> command \<Rightarrow> subject \<Rightarrow> string \<Rightarrow> bool answer \<Rightarrow> world \<Rightarrow> armed \<times> world" where
  "arm_unanswered i cd s key ans w =
     (case call (reserved key) w of
        (Inl e, w1) \<Rightarrow> (([], False, Some (StoreErrors [e])), w1)
      | (Inr True, w1) \<Rightarrow> (([], True, None), w1)
      | (Inr False, w1) \<Rightarrow>
          (case ans of
             Inl e \<Rightarrow> (([], False, Some (TrackerError e)), w1)
           | Inr True \<Rightarrow> (([], True, None), w1)
           | Inr False \<Rightarrow>
               (case intake_arm i cd s key w1 of
                  (Inl es, w2) \<Rightarrow> (([], False, Some (StoreErrors es)), w2)
                | (Inr None, w2) \<Rightarrow> (([], False, None), w2)
                | (Inr (Some j), w2) \<Rightarrow> (([j], True, None), w2))))"

text \<open>The commands among a subject's comments, or its reviews, each with its key and whether it
  is answered; then each armed in turn, until one fails.\<close>

record asked_command =
  ak_command :: command
  ak_key :: string
  ak_answered :: "bool answer"

definition comment_asks :: "intake \<Rightarrow> tracker \<Rightarrow> subject_type \<Rightarrow> gh_comment list \<Rightarrow> asked_command list" where
  "comment_asks i tk on cs =
     List.map_filter (\<lambda>c. map_option (\<lambda>cd. \<lparr>ak_command = cd, ak_key = comment_key (cm_id c),
         ak_answered = answered i (tk_reactions tk (cm_id c))\<rparr>) (find_command i c on)) cs"

definition review_asks :: "intake \<Rightarrow> tracker \<Rightarrow> pr_review list \<Rightarrow> asked_command list" where
  "review_asks i tk rs =
     List.map_filter (\<lambda>r. map_option (\<lambda>cd. \<lparr>ak_command = cd, ak_key = review_key (rv_id r),
         ak_answered = answered i (tk_review_reactions tk (rv_node_id r))\<rparr>) (find_command_by_review i r)) rs"

fun arm_asks :: "intake \<Rightarrow> subject \<Rightarrow> asked_command list \<Rightarrow> job list \<Rightarrow> bool \<Rightarrow> world \<Rightarrow> armed \<times> world" where
  "arm_asks i s [] made fin w = ((made, fin, None), w)"
| "arm_asks i s (a # as) made fin w =
     (case arm_unanswered i (ak_command a) s (ak_key a) (ak_answered a) w of
        ((jobs, stl, Some e), w1) \<Rightarrow> ((made, False, Some e), w1)
      | ((jobs, stl, None), w1) \<Rightarrow> arm_asks i s as (made @ jobs) (fin \<and> stl) w1)"

definition read_subject :: "intake \<Rightarrow> tracker \<Rightarrow> subject \<Rightarrow> world \<Rightarrow> armed \<times> world" where
  "read_subject i tk s w =
     (case tk_comments tk (sub_number s) of
        Inl e \<Rightarrow> (([], False, Some (TrackerError e)), w)
      | Inr cs \<Rightarrow>
          (case arm_asks i s (comment_asks i tk (sub_type s) cs) [] True w of
             ((made, fin, Some e), w1) \<Rightarrow> ((made, False, Some e), w1)
           | ((made, fin, None), w1) \<Rightarrow>
               if sub_type s \<noteq> SubjectPR \<or> \<not> by_review i then ((made, fin, None), w1)
               else
                 (case tk_reviews tk (sub_number s) of
                    Inl e \<Rightarrow> ((made, False, Some (TrackerError e)), w1)
                  | Inr rs \<Rightarrow> arm_asks i s (review_asks i tk rs) made fin w1)))"

definition issue_subject :: "gh_issue \<Rightarrow> subject" where
  "issue_subject is =
     \<lparr>sub_type = (if is_pull_request is then SubjectPR else SubjectIssue), sub_number = is_number is\<rparr>"

definition unchanged :: "(int \<rightharpoonup> reading) \<Rightarrow> gh_issue \<Rightarrow> bool" where
  "unchanged seen is \<longleftrightarrow>
     (case seen (is_number is) of None \<Rightarrow> False
      | Some r \<Rightarrow> \<not> is_zero (is_updated_at is) \<and> rg_at r = is_updated_at is)"

definition settled_before :: "(int \<rightharpoonup> reading) \<Rightarrow> gh_issue \<Rightarrow> bool" where
  "settled_before seen is \<longleftrightarrow>
     unchanged seen is \<and> (case seen (is_number is) of None \<Rightarrow> False | Some r \<Rightarrow> rg_settled r)"

fun read_open :: "intake \<Rightarrow> tracker \<Rightarrow> (int \<rightharpoonup> reading) \<Rightarrow> gh_issue list \<Rightarrow> (int \<rightharpoonup> reading) \<Rightarrow> world \<Rightarrow>
    (job list \<times> intake_error list \<times> (int \<rightharpoonup> reading)) \<times> world" where
  "read_open i tk seen [] nxt w = (([], [], nxt), w)"
| "read_open i tk seen (is # rest) nxt w =
     (if settled_before seen is
      then read_open i tk seen rest (nxt(is_number is := seen (is_number is))) w
      else
        (let ((jobs, fin, err), w1) = read_subject i tk (issue_subject is) w;
             nxt' = (if fin \<and> err = None
                     then nxt(is_number is \<mapsto>
                       \<lparr>rg_at = is_updated_at is, rg_settled = unchanged seen is\<rparr>)
                     else nxt);
             ((made, errs, nxt''), w2) = read_open i tk seen rest nxt' w1;
             named = (case err of None \<Rightarrow> []
               | Some e \<Rightarrow> [SubjectError (if is_pull_request is then ''pull request'' else ''issue'')
                   (is_number is) e])
         in ((jobs @ made, named @ errs, nxt''), w2)))"

definition open_pass :: "intake \<Rightarrow> tracker \<Rightarrow> gh_issue list \<Rightarrow> intake_state \<Rightarrow> world \<Rightarrow>
    (job list \<times> intake_error list) \<times> intake_state \<times> world" where
  "open_pass i tk listing st w =
     (let ((made, errs, nxt), w1) = read_open i tk (it_seen st) listing Map.empty w
      in ((made, errs), st\<lparr>it_seen := nxt\<rparr>, w1))"

subsection \<open>Taking eligible issues\<close>

definition labelled :: "intake \<Rightarrow> gh_issue \<Rightarrow> bool" where
  "labelled i is = has_label (is_labels is) (un_label (in_unattended i))"

definition candidates :: "intake \<Rightarrow> gh_issue list \<Rightarrow> gh_issue list" where
  "candidates i listing = filter (\<lambda>is. \<not> is_pull_request is \<and> labelled i is) listing"

definition eligible :: "intake \<Rightarrow> gh_issue list \<Rightarrow> gh_issue list" where
  "eligible i listing =
     sort_key is_number (filter (\<lambda>is. is_dependencies_read is \<and> is_blocked_by is = 0) (candidates i listing))"

definition blind_issues :: "intake \<Rightarrow> gh_issue list \<Rightarrow> int list" where
  "blind_issues i listing = map is_number (filter (\<lambda>is. \<not> is_dependencies_read is) (candidates i listing))"

definition in_queue :: "intake \<Rightarrow> job \<Rightarrow> bool" where
  "in_queue i j \<longleftrightarrow>
     (j_kind j = un_kind (in_unattended i) \<or>
      qu_revise (un_queue (in_unattended i)) \<noteq> '''' \<and> j_kind j = qu_revise (un_queue (in_unattended i))) \<and>
     (\<not> is_zero (j_next j) \<or>
      (case j_lease j of None \<Rightarrow> False | Some l \<Rightarrow> \<not> lease_expired l (in_now_queue i)))"

definition waiting_review :: "intake \<Rightarrow> gh_issue \<Rightarrow> bool" where
  "waiting_review i is \<longleftrightarrow>
     is_pull_request is \<and> equal_fold (is_author is) (in_login i) \<and>
     has_label (is_labels is) (qu_label (un_queue (in_unattended i)))"

definition queue_length :: "intake \<Rightarrow> tracker \<Rightarrow> world \<Rightarrow> (intake_error + int) \<times> world" where
  "queue_length i tk w =
     (case call store_jobs w of
        (Inl e, w1) \<Rightarrow> (Inl (StoreErrors [e]), w1)
      | (Inr jobs, w1) \<Rightarrow>
          (case tk_open_again tk of
             Inl e \<Rightarrow> (Inl (TrackerError e), w1)
           | Inr listing \<Rightarrow>
               (Inr (int (length (filter (in_queue i) jobs)) +
                     int (length (filter (waiting_review i) listing))), w1)))"

definition take_subject :: "int \<Rightarrow> subject" where
  "take_subject n = \<lparr>sub_type = SubjectIssue, sub_number = n\<rparr>"

fun any_answered :: "intake \<Rightarrow> tracker \<Rightarrow> gh_comment list \<Rightarrow> bool answer" where
  "any_answered i tk [] = Inr False"
| "any_answered i tk (c # cs) =
     (case find_command i c SubjectIssue of
        None \<Rightarrow> any_answered i tk cs
      | Some cd \<Rightarrow>
          if cd_kind cd \<noteq> un_kind (in_unattended i) then any_answered i tk cs
          else (case answered i (tk_reactions tk (cm_id c)) of
              Inl e \<Rightarrow> Inl e
            | Inr True \<Rightarrow> Inr True
            | Inr False \<Rightarrow> any_answered i tk cs))"

definition issue_taken :: "intake \<Rightarrow> tracker \<Rightarrow> int \<Rightarrow> bool answer" where
  "issue_taken i tk n =
     (case tk_issue_reactions tk n of
        Inl e \<Rightarrow> Inl e
      | Inr rs \<Rightarrow>
          if claimed rs (in_login i) then Inr True
          else (case tk_comments tk n of Inl e \<Rightarrow> Inl e | Inr cs \<Rightarrow> any_answered i tk cs))"

definition takeable :: "intake \<Rightarrow> tracker \<Rightarrow> int \<Rightarrow> world \<Rightarrow> (intake_error + bool) \<times> world" where
  "takeable i tk n w =
     (case call (store_job (job_ID (un_kind (in_unattended i)) (take_subject n))) w of
        (Inr j, w1) \<Rightarrow> (Inr False, w1)
      | (Inl (ErrNoJob x), w1) \<Rightarrow>
          (case issue_taken i tk n of
             Inl e \<Rightarrow> (Inl (TrackerError e), w1)
           | Inr t \<Rightarrow> (Inr (\<not> t), w1))
      | (Inl e, w1) \<Rightarrow> (Inl (StoreErrors [e]), w1))"

definition take_ensure :: "intake \<Rightarrow> int \<Rightarrow> world \<Rightarrow> (store_error + job) \<times> world" where
  "take_ensure i n w =
     call (ensure (un_kind (in_unattended i)) (take_subject n) (un_start (in_unattended i))
       (Some (in_now_take i n))) w"

text \<open>What is left of the eligible issues, with room for so many: the jobs made, the errors, and
  whether one was held back.\<close>

fun take_each :: "intake \<Rightarrow> tracker \<Rightarrow> gh_issue list \<Rightarrow> int \<Rightarrow> world \<Rightarrow>
    (job list \<times> intake_error list \<times> bool) \<times> world" where
  "take_each i tk [] room w = (([], [], False), w)"
| "take_each i tk (is # rest) room w =
     (case takeable i tk (is_number is) w of
        (Inl e, w1) \<Rightarrow>
          (let ((made, errs, held), w2) = take_each i tk rest room w1
           in ((made, SubjectError ''issue'' (is_number is) e # errs, held), w2))
      | (Inr False, w1) \<Rightarrow> take_each i tk rest room w1
      | (Inr True, w1) \<Rightarrow>
          if room = 0 then (([], [], True), w1)
          else
            (case take_ensure i (is_number is) w1 of
               (Inl e, w2) \<Rightarrow>
                 (let ((made, errs, held), w3) = take_each i tk rest room w2
                  in ((made, SubjectError ''issue'' (is_number is) (StoreErrors [e]) # errs, held), w3))
             | (Inr j, w2) \<Rightarrow>
                 (let ((made, errs, held), w3) = take_each i tk rest (room - 1) w2
                  in ((j # made, errs, held), w3))))"

definition holding_message :: "int \<Rightarrow> int \<Rightarrow> string" where
  "holding_message queue limit = ''intake: holding eligible issues, with '' @ dec queue @
     '' in the review queue and a limit of '' @ dec limit"

definition hold :: "intake \<Rightarrow> bool \<Rightarrow> int \<Rightarrow> intake_state \<Rightarrow> intake_state \<times> string list" where
  "hold i held queue st =
     (if held = it_holding st then (st, [])
      else (st\<lparr>it_holding := held\<rparr>,
        [if held then holding_message queue (qu_limit (un_queue (in_unattended i)))
         else ''intake: stopped holding eligible issues'']))"

type_synonym take_result = "(job list \<times> intake_error list \<times> string list) \<times> intake_state \<times> world"

definition intake_take :: "intake \<Rightarrow> tracker \<Rightarrow> gh_issue list \<Rightarrow> intake_state \<Rightarrow> world \<Rightarrow> take_result" where
  "intake_take i tk listing st w =
     (if un_label (in_unattended i) = '''' then (([], [], []), st, w)
      else
        let blind = blind_issues i listing;
            errs0 = map NoDependencies (filter (\<lambda>n. n \<notin> set (it_blind st)) blind);
            st1 = st\<lparr>it_blind := blind\<rparr>;
            el = eligible i listing;
            limit = qu_limit (un_queue (in_unattended i))
        in if 0 < limit \<and> el \<noteq> [] then
             (case queue_length i tk w of
                (Inl e, w1) \<Rightarrow> (([], errs0 @ [QueueError e], []), st1, w1)
              | (Inr queue, w1) \<Rightarrow>
                  let room = max (limit - queue) 0;
                      ((made, errs, held), w2) = take_each i tk el room w1;
                      (st2, log) = (if held then hold i True (queue + int (length made)) st1
                                    else if room \<noteq> 0 then hold i False (queue + int (length made)) st1
                                    else (st1, []))
                  in ((made, errs0 @ errs, log), st2, w2))
           else
             let ((made, errs, held), w2) = take_each i tk el (int (length el)) w
             in ((made, errs0 @ errs, []), st1, w2))"

definition pass :: "intake \<Rightarrow> intake_state \<Rightarrow> world \<Rightarrow> take_result" where
  "pass i st w =
     (case intake_validate i of
        Some e \<Rightarrow> (([], [e], []), st, w)
      | None \<Rightarrow>
          (case in_tracker i of
             None \<Rightarrow> (([], [NoTracker], []), st, w)
           | Some tk \<Rightarrow>
               (case tk_open tk of
                  Inl e \<Rightarrow> (([], [ListingError e], []), st, w)
                | Inr listing \<Rightarrow>
                    (let ((made, errs), st1, w1) = open_pass i tk listing st w;
                         ((taken, errs', log), st2, w2) = intake_take i tk listing st1 w1
                     in ((made @ taken, errs @ errs', log), st2, w2)))))"

end
