(* ===== verification/Owed.thy ===== *)
theory Owed
  imports Rounds GitHub_Client Intake
begin

text \<open>
  What a decision owes the tracker and the read-back that makes sure it gets there,
  \<^verbatim>\<open>internal/owed/owed.go\<close>: the hidden markers the agent's comments are read back by, the
  items, the record that waits in the state directory, and the two operations \<^verbatim>\<open>Owe\<close> and
  \<^verbatim>\<open>Settle\<close>. The tracker is a record of what it answers while an operation reads it (each
  subject is read once per read-back), and a write on it is a value, so that what an effect
  asked for can be talked about. The rendering of an error is a parameter of the book.
\<close>

subsection \<open>Markers\<close>

definition reply_marker :: "int \<Rightarrow> string" where
  "reply_marker i = ''<!-- afk:reply comment='' @ dec i @ '' -->''"

definition review_reply_marker :: "int \<Rightarrow> string" where
  "review_reply_marker i = ''<!-- afk:reply pull-request-review='' @ dec i @ '' -->''"

definition revision_marker :: "int \<Rightarrow> string" where
  "revision_marker i = ''<!-- afk:revision comment='' @ dec i @ '' -->''"

definition review_revision_marker :: "int \<Rightarrow> string" where
  "review_revision_marker i = ''<!-- afk:revision pull-request-review='' @ dec i @ '' -->''"

definition revision_reply_marker :: "int \<Rightarrow> string \<Rightarrow> string" where
  "revision_reply_marker n head =
     ''<!-- afk:revision-reply pr='' @ dec n @ '' head='' @ head @ '' -->''"

definition revision_read_marker :: "string \<Rightarrow> string" where
  "revision_read_marker head = ''<!-- afk:revision-read head='' @ head @ '' -->''"

definition is_digit :: "char \<Rightarrow> bool" where
  "is_digit c \<longleftrightarrow> 48 \<le> (of_char c :: nat) \<and> (of_char c :: nat) \<le> 57"

definition is_hex :: "char \<Rightarrow> bool" where
  "is_hex c \<longleftrightarrow> is_digit c \<or> 97 \<le> (of_char c :: nat) \<and> (of_char c :: nat) \<le> 102"

fun undec :: "int \<Rightarrow> string \<Rightarrow> int" where
  "undec acc [] = acc"
| "undec acc (c # cs) = undec (10 * acc + (int (of_char c) - 48)) cs"

text \<open>\<^verbatim>\<open>strconv.ParseInt(s, 10, 64)\<close> of digits.\<close>

definition parse_int64 :: "string \<Rightarrow> int option" where
  "parse_int64 s = (let v = undec 0 s in if v < 2 ^ 63 then Some v else None)"

text \<open>The one regular expression of a command's marker, at the start of a string: whether it
  names a comment, its digits, and what follows it.\<close>

definition comment_mark :: string where
  "comment_mark = ''<!-- afk:revision comment=''"

definition review_mark :: string where
  "review_mark = ''<!-- afk:revision pull-request-review=''"

definition mark_digits :: "bool \<Rightarrow> string \<Rightarrow> (bool \<times> string \<times> string) option" where
  "mark_digits on_comment s =
     (let ds = takeWhile is_digit s in
      case cut_prefix (dropWhile is_digit s) '' -->'' of
        Some rest \<Rightarrow> if ds = '''' then None else Some (on_comment, ds, rest)
      | None \<Rightarrow> None)"

definition match_revision :: "string \<Rightarrow> (bool \<times> string \<times> string) option" where
  "match_revision s =
     (case cut_prefix s comment_mark of
        Some t \<Rightarrow> mark_digits True t
      | None \<Rightarrow>
          (case cut_prefix s review_mark of Some t \<Rightarrow> mark_digits False t | None \<Rightarrow> None))"

lemma mark_digits_shorter: "mark_digits b s = Some (c, ds, rest) \<Longrightarrow> length rest \<le> length s"
  using length_dropWhile_le [of is_digit s]
  by (auto simp: mark_digits_def Let_def cut_prefix_Some split: option.splits if_splits)

lemma match_revision_shorter: "match_revision s = Some (c, ds, rest) \<Longrightarrow> length rest < length s"
  by (auto simp: match_revision_def cut_prefix_Some comment_mark_def review_mark_def
      dest!: mark_digits_shorter split: option.splits)

text \<open>\<^verbatim>\<open>FindAllStringSubmatch\<close>: the leftmost matches, none overlapping another.\<close>

function find_revisions :: "string \<Rightarrow> (bool \<times> string) list" where
  "find_revisions s =
     (case match_revision s of
        Some (c, ds, rest) \<Rightarrow> (c, ds) # find_revisions rest
      | None \<Rightarrow> (case s of [] \<Rightarrow> [] | x # xs \<Rightarrow> find_revisions xs))"
  by pat_completeness auto
termination
  by (relation "measure length") (auto dest: match_revision_shorter)

declare find_revisions.simps [simp del]

fun sort_commands :: "(bool \<times> string) list \<Rightarrow> int list \<times> int list" where
  "sort_commands [] = ([], [])"
| "sort_commands ((c, ds) # ms) =
     (let (cs, rs) = sort_commands ms in
      case parse_int64 ds of
        None \<Rightarrow> (cs, rs)
      | Some i \<Rightarrow> if c then (i # cs, rs) else (cs, i # rs))"

definition revision_commands :: "string \<Rightarrow> int list \<times> int list" where
  "revision_commands body = sort_commands (find_revisions body)"

definition full_name :: "nat \<Rightarrow> string \<Rightarrow> string option" where
  "full_name n s =
     (if length (takeWhile is_hex (take n s)) = n \<and> has_prefix (drop n s) '' -->''
      then Some (take n s) else None)"

definition match_read :: "string \<Rightarrow> string option" where
  "match_read s =
     (case cut_prefix s ''<!-- afk:revision-read head='' of
        None \<Rightarrow> None
      | Some t \<Rightarrow> (case full_name 40 t of Some h \<Rightarrow> Some h | None \<Rightarrow> full_name 64 t))"

fun revision_read :: "string \<Rightarrow> string option" where
  "revision_read [] = None"
| "revision_read (x # xs) =
     (case match_read (x # xs) of Some h \<Rightarrow> Some h | None \<Rightarrow> revision_read xs)"

subsection \<open>Round trips of the markers\<close>

lemma digit_is_digit: "n < 10 \<Longrightarrow> is_digit (digit n)"
  by (simp add: is_digit_def digit_def)

lemma dec_nat_digits: "list_all is_digit (dec_nat n)"
proof (induction n rule: dec_nat.induct)
  case (1 n)
  then show ?case
    by (subst dec_nat.simps) (auto simp: digit_is_digit)
qed

lemma undec_append: "undec acc (s @ [c]) = 10 * undec acc s + (int (of_char c) - 48)"
  by (induction s arbitrary: acc) simp_all

lemma undec_dec_nat: "undec 0 (dec_nat n) = int n"
proof (induction n rule: dec_nat.induct)
  case (1 n)
  have d: "int (of_char (digit m)) - 48 = int m" if "m < 10" for m
    using that by (simp add: digit_def)
  show ?case
  proof (cases "n < 10")
    case True
    then show ?thesis by (subst dec_nat.simps) (simp add: d)
  next
    case False
    then have "undec 0 (dec_nat n) = 10 * int (n div 10) + int (n mod 10)"
      using 1 by (subst dec_nat.simps) (simp add: undec_append d)
    also have "\<dots> = int n"
      by (metis int_ops(7) of_nat_add of_nat_numeral mult_div_mod_eq)
    finally show ?thesis .
  qed
qed

lemma dec_digits: "0 \<le> i \<Longrightarrow> list_all is_digit (dec i) \<and> dec i \<noteq> ''''"
  by (simp add: dec_def dec_nat_digits dec_nat_ne)

lemma parse_dec: "0 \<le> i \<Longrightarrow> i < 2 ^ 63 \<Longrightarrow> parse_int64 (dec i) = Some i"
  by (simp add: parse_int64_def dec_def undec_dec_nat)

lemma span_digits:
  assumes "list_all is_digit ds" and "\<not> is_digit c"
  shows "takeWhile is_digit (ds @ c # s) = ds" "dropWhile is_digit (ds @ c # s) = c # s"
  using assms by (induction ds) auto

lemma mark_digits_dec:
  assumes "0 \<le> i"
  shows "mark_digits c (dec i @ '' -->'' @ s) = Some (c, dec i, s)"
proof -
  have "\<not> is_digit (CHR '' '')" by (simp add: is_digit_def)
  from span_digits [OF _ this, of "dec i" "''-->'' @ s"] dec_digits [OF assms]
  show ?thesis by (simp add: mark_digits_def Let_def cut_prefix_def has_prefix_def)
qed

lemma match_revision_markers:
  assumes "0 \<le> i"
  shows "match_revision (revision_marker i @ s) = Some (True, dec i, s)"
    and "match_revision (review_revision_marker i @ s) = Some (False, dec i, s)"
proof -
  have "revision_marker i @ s = comment_mark @ dec i @ '' -->'' @ s"
    by (simp add: revision_marker_def comment_mark_def)
  then show "match_revision (revision_marker i @ s) = Some (True, dec i, s)"
    by (metis match_revision_def cut_prefix_Some option.simps(5) mark_digits_dec [OF assms])
  have e: "review_revision_marker i @ s = review_mark @ dec i @ '' -->'' @ s"
    by (simp add: review_revision_marker_def review_mark_def)
  have "cut_prefix (review_mark @ t) comment_mark = None" for t
    by (simp add: cut_prefix_def has_prefix_def review_mark_def comment_mark_def)
  moreover have "cut_prefix (review_mark @ t) review_mark = Some t" for t
    by (simp add: cut_prefix_Some)
  ultimately show "match_revision (review_revision_marker i @ s) = Some (False, dec i, s)"
    unfolding e match_revision_def by (simp add: mark_digits_dec [OF assms, simplified])
qed

lemma match_revision_open: "x \<noteq> CHR ''<'' \<Longrightarrow> match_revision (x # s) = None"
  by (auto simp: match_revision_def cut_prefix_def has_prefix_def comment_mark_def review_mark_def)

lemma find_revisions_skip: "CHR ''<'' \<notin> set t \<Longrightarrow> find_revisions (t @ s) = find_revisions s"
proof (induction t)
  case (Cons x t)
  then have "match_revision (x # t @ s) = None" by (intro match_revision_open) auto
  with Cons show ?case by (subst find_revisions.simps) simp
qed simp

text \<open>A command by its form and its id, as an answer names it.\<close>

definition command_marker :: "bool \<times> int \<Rightarrow> string" where
  "command_marker c = (if fst c then revision_marker (snd c) else review_revision_marker (snd c))"

lemma find_revisions_marker:
  assumes "0 \<le> snd c"
  shows "find_revisions (command_marker c @ s) = (fst c, dec (snd c)) # find_revisions s"
  using match_revision_markers [OF assms, of s]
  by (subst find_revisions.simps) (simp add: command_marker_def)

text \<open>The commands an answer says it was given are read back from it: whatever is written before,
  between and after the markers, as long as it opens no tag, the ids of the comments and of the
  reviews come back in the order the markers stand in.\<close>

theorem revision_commands_round_trip:
  assumes "list_all (\<lambda>(c, t). 0 \<le> snd c \<and> snd c < 2 ^ 63 \<and> CHR ''<'' \<notin> set t) cs"
    and "CHR ''<'' \<notin> set start"
  shows "revision_commands (start @ concat (map (\<lambda>(c, t). command_marker c @ t) cs)) =
    (map (snd \<circ> fst) (filter (fst \<circ> fst) cs), map (snd \<circ> fst) (filter (Not \<circ> fst \<circ> fst) cs))"
proof -
  have "sort_commands (find_revisions (concat (map (\<lambda>(c, t). command_marker c @ t) cs))) =
    (map (snd \<circ> fst) (filter (fst \<circ> fst) cs), map (snd \<circ> fst) (filter (Not \<circ> fst \<circ> fst) cs))"
    using assms(1)
  proof (induction cs)
    case Nil
    show ?case
      by (subst find_revisions.simps)
        (simp add: match_revision_def cut_prefix_def has_prefix_def comment_mark_def review_mark_def)
  next
    case (Cons p cs)
    obtain c t where p: "p = (c, t)" by (cases p)
    from Cons.prems have c: "0 \<le> snd c" "snd c < 2 ^ 63" "CHR ''<'' \<notin> set t" by (simp_all add: p)
    have "find_revisions (concat (map (\<lambda>(c, t). command_marker c @ t) (p # cs))) =
        (fst c, dec (snd c)) # find_revisions (concat (map (\<lambda>(c, t). command_marker c @ t) cs))"
      by (simp add: p find_revisions_marker [OF c(1)] find_revisions_skip [OF c(3)])
    with Cons p show ?case by (simp add: parse_dec [OF c(1,2)])
  qed
  then show ?thesis by (simp add: revision_commands_def find_revisions_skip [OF assms(2)])
qed

theorem revision_commands_round_trip_witness:
  "revision_commands (''Done.'' @ concat (map (\<lambda>(c, t). command_marker c @ t)
      [((True, 17), ''a''), ((False, 17), ''''), ((True, 4), ''b'')])) = ([17, 4], [17])"
  using revision_commands_round_trip
    [of "[((True, 17), ''a''), ((False, 17), ''''), ((True, 4), ''b'')]" "''Done.''"] by simp

text \<open>Only a full commit name is ever read as the head a send-back was written against.\<close>

lemma full_name_ok: "full_name n s = Some h \<Longrightarrow> length h = n \<and> list_all is_hex h"
proof -
  assume "full_name n s = Some h"
  then have h: "h = take n s" and l: "length (takeWhile is_hex (take n s)) = n"
    by (auto simp: full_name_def split: if_splits)
  have le: "length (takeWhile is_hex (take n s)) \<le> length (take n s)" by (rule length_takeWhile_le)
  with l have "length (take n s) = n" by simp
  with l have "takeWhile is_hex (take n s) = take n s" by (metis takeWhile_eq_take take_all_iff order_refl)
  then show ?thesis using l h unfolding list_all_iff by (metis set_takeWhileD)
qed

lemma revision_read_full:
  "revision_read s = Some h \<Longrightarrow> length h \<in> {40, 64} \<and> list_all is_hex h"
proof (induction s)
  case (Cons x xs)
  then show ?case
    by (auto simp: match_read_def split: option.splits dest!: full_name_ok)
qed simp

subsection \<open>Items\<close>

datatype what =
    ClaimComment | ClaimReview | ClaimPR | ClaimIssue | SaidComment | LabelOn | LabelOff
  | OtherWhat string

record owed_item =
  ow_what :: what
  ow_stem :: string
  ow_from :: int
  ow_on :: int
  ow_comment :: int
  ow_review :: string
  ow_marker :: string
  ow_body :: string
  ow_label :: string

definition blank_item :: "what \<Rightarrow> string \<Rightarrow> owed_item" where
  "blank_item w stem = \<lparr>ow_what = w, ow_stem = stem, ow_from = 0, ow_on = 0, ow_comment = 0,
     ow_review = '''', ow_marker = '''', ow_body = '''', ow_label = ''''\<rparr>"

definition claim_comment :: "gh_comment \<Rightarrow> owed_item" where
  "claim_comment c = (blank_item ClaimComment (''claim-comment-'' @ dec (cm_id c)))\<lparr>ow_comment := cm_id c\<rparr>"

definition claim_pull_request :: "int \<Rightarrow> owed_item" where
  "claim_pull_request n = (blank_item ClaimPR (''claim-pr-'' @ dec n))\<lparr>ow_on := n\<rparr>"

definition claim_issue :: "int \<Rightarrow> owed_item" where
  "claim_issue n = (blank_item ClaimIssue (''claim-issue-'' @ dec n))\<lparr>ow_on := n\<rparr>"

definition said_item :: "string \<Rightarrow> int \<Rightarrow> string \<Rightarrow> string \<Rightarrow> owed_item" where
  "said_item stem n marker body =
     (blank_item SaidComment stem)\<lparr>ow_on := n, ow_marker := marker, ow_body := body\<rparr>"

definition reply_item :: "string \<Rightarrow> int \<Rightarrow> gh_comment \<Rightarrow> string \<Rightarrow> owed_item" where
  "reply_item stem n c txt =
     (let marker = reply_marker (cm_id c) in said_item stem n marker (marker @ [CHR 0x0A] @ txt))"

definition label_item :: "string \<Rightarrow> int \<Rightarrow> string \<Rightarrow> owed_item" where
  "label_item stem n name = (blank_item LabelOn stem)\<lparr>ow_on := n, ow_label := name\<rparr>"

definition unlabel_item :: "string \<Rightarrow> int \<Rightarrow> string \<Rightarrow> owed_item" where
  "unlabel_item stem n name = (blank_item LabelOff stem)\<lparr>ow_on := n, ow_label := name\<rparr>"

text \<open>A command in either of its forms.\<close>

datatype owed_command = ByComment gh_comment | ByReview pr_review

fun command_key :: "owed_command \<Rightarrow> string" where
  "command_key (ByReview r) = ''pull-request-review-'' @ dec (rv_id r)"
| "command_key (ByComment c) = ''comment-'' @ dec (cm_id c)"

definition same_command :: "owed_command \<Rightarrow> owed_command \<Rightarrow> bool" where
  "same_command c d \<longleftrightarrow> command_key c = command_key d"

fun command_issues :: "owed_command \<Rightarrow> string \<Rightarrow> string \<Rightarrow> bool" where
  "command_issues (ByReview r) login word = is_command_by_review r login word"
| "command_issues (ByComment c) login word = is_command c login word"

fun command_claim :: "owed_command \<Rightarrow> owed_item" where
  "command_claim (ByReview r) =
     (blank_item ClaimReview (''claim-'' @ command_key (ByReview r)))\<lparr>ow_review := rv_node_id r\<rparr>"
| "command_claim (ByComment c) = claim_comment c"

fun command_reply :: "owed_command \<Rightarrow> string \<Rightarrow> int \<Rightarrow> string \<Rightarrow> owed_item" where
  "command_reply (ByReview r) stem n txt =
     (let marker = review_reply_marker (rv_id r) in
      said_item stem n marker
        (marker @ [CHR 0x0A] @ ''On [your review]('' @ rv_url r @ ''): '' @ txt))"
| "command_reply (ByComment c) stem n txt = reply_item stem n c txt"

fun command_revision_marker :: "owed_command \<Rightarrow> string" where
  "command_revision_marker (ByReview r) = review_revision_marker (rv_id r)"
| "command_revision_marker (ByComment c) = revision_marker (cm_id c)"

datatype owed_error =
    NoStem
  | MalformedItem string
  | NoReviewTracker
  | NoNextState
  | OwedTracker gh_error
  | OwedStore store_error
  | RoundsSpent "(string \<times> int) list" "owed_error option"
  | NoRecordDir
  | RecordFile string
  | RecordUnreadable string
  | RecordIncomplete string
  | RecordBad string owed_error

definition item_error :: "owed_item \<Rightarrow> owed_error option" where
  "item_error it =
     (if ow_stem it = '''' then Some NoStem
      else if ow_what it = ClaimComment \<and> ow_comment it \<noteq> 0 then None
      else if ow_what it = ClaimReview \<and> ow_review it \<noteq> '''' then None
      else if (ow_what it = ClaimPR \<or> ow_what it = ClaimIssue) \<and> ow_on it > 0 then None
      else if ow_what it = SaidComment \<and> ow_on it > 0 \<and> ow_marker it \<noteq> '''' \<and>
        contains (ow_body it) (ow_marker it) then None
      else if (ow_what it = LabelOn \<or> ow_what it = LabelOff) \<and> ow_on it > 0 \<and> ow_label it \<noteq> ''''
      then None
      else Some (MalformedItem (ow_stem it)))"

record owed_record =
  or_next :: string
  or_due :: bool
  or_items :: "owed_item list"

subsection \<open>The book, the tracker and the records\<close>

text \<open>A write on the tracker.\<close>

datatype tracker_write =
    React int string | ReactToReview string string | ReactToIssue int string
  | PutLabel int string | TakeLabel int string | Post int string

record owed_tracker =
  ot_labels :: "int \<Rightarrow> gh_error + string list"
  ot_comments :: "int \<Rightarrow> gh_error + gh_comment list"
  ot_reactions :: "int \<Rightarrow> gh_error + reaction list"
  ot_issue_reactions :: "int \<Rightarrow> gh_error + reaction list"
  ot_review_reactions :: "string \<Rightarrow> gh_error + reaction list"
  ot_write :: "tracker_write \<Rightarrow> gh_error option"

text \<open>\<open>bk_reviews\<close> says whether the book has a tracker for reviews, \<open>bk_later\<close> is the tracker
  as the effect of an item finds it, and \<open>bk_text\<close> renders an error.\<close>

record book =
  bk_login :: string
  bk_rounds :: int
  bk_dir :: string
  bk_reviews :: bool
  bk_later :: "owed_item \<Rightarrow> owed_tracker"
  bk_text :: "owed_error \<Rightarrow> string"

text \<open>The files of the state directory, by job, and what the next write or removal of one
  meets. A file either holds a record or does not decode to one.\<close>

datatype owed_file = Recorded owed_record | Undecodable string

record shelf =
  sh_files :: "string \<rightharpoonup> owed_file"
  sh_write_error :: "string option"
  sh_remove_error :: "string option"

definition owed_save :: "book \<Rightarrow> string \<Rightarrow> owed_record \<Rightarrow> shelf \<Rightarrow> owed_error option \<times> shelf" where
  "owed_save b jid r sh =
     (if bk_dir b = '''' then (Some NoRecordDir, sh)
      else (case sh_write_error sh of
          Some e \<Rightarrow> (Some (RecordFile e), sh)
        | None \<Rightarrow> (None, sh\<lparr>sh_files := (sh_files sh)(jid \<mapsto> Recorded r)\<rparr>)))"

text \<open>\<open>Inr None\<close> is a record that is not there.\<close>

definition owed_load :: "book \<Rightarrow> string \<Rightarrow> shelf \<Rightarrow> owed_error + owed_record option" where
  "owed_load b jid sh =
     (if bk_dir b = '''' then Inl NoRecordDir
      else (case sh_files sh jid of
          None \<Rightarrow> Inr None
        | Some (Undecodable e) \<Rightarrow> Inl (RecordUnreadable e)
        | Some (Recorded r) \<Rightarrow>
            if or_next r = '''' \<or> or_items r = [] then Inl (RecordIncomplete jid)
            else (case first_error item_error (or_items r) of
                Some e \<Rightarrow> Inl (RecordBad jid e)
              | None \<Rightarrow> Inr (Some r))))"

definition owed_remove :: "string \<Rightarrow> shelf \<Rightarrow> owed_error option \<times> shelf" where
  "owed_remove jid sh =
     (case sh_remove_error sh of
        Some e \<Rightarrow> (Some (RecordFile e), sh)
      | None \<Rightarrow> (None, sh\<lparr>sh_files := (sh_files sh)(jid := None)\<rparr>))"

subsection \<open>Reading back\<close>

definition item_said :: "book \<Rightarrow> gh_comment list \<Rightarrow> string \<Rightarrow> bool" where
  "item_said b cs marker \<longleftrightarrow>
     list_ex (\<lambda>c. equal_fold (cm_login c) (bk_login b) \<and> contains (cm_body c) marker) cs"

definition gone :: "gh_error \<Rightarrow> bool" where
  "gone e \<longleftrightarrow> status_is 404 e \<or> status_is 410 e"

type_synonym read_cache = "(int \<rightharpoonup> gh_comment list) \<times> (int \<rightharpoonup> string list)"

definition claim_there :: "book \<Rightarrow> bool \<Rightarrow> gh_error + reaction list \<Rightarrow> owed_error + bool" where
  "claim_there b deletable rs =
     (case rs of
        Inl e \<Rightarrow> if deletable \<and> gone e then Inr True else Inl (OwedTracker e)
      | Inr l \<Rightarrow> Inr (claimed l (bk_login b)))"

definition there :: "book \<Rightarrow> owed_tracker \<Rightarrow> owed_item \<Rightarrow> read_cache \<Rightarrow> (owed_error + bool) \<times> read_cache" where
  "there b tk it cache =
     (let (cs, ls) = cache in
      case ow_what it of
        ClaimComment \<Rightarrow> (claim_there b True (ot_reactions tk (ow_comment it)), cache)
      | ClaimReview \<Rightarrow>
          (if \<not> bk_reviews b then Inl NoReviewTracker
           else claim_there b True (ot_review_reactions tk (ow_review it)), cache)
      | ClaimPR \<Rightarrow> (claim_there b False (ot_issue_reactions tk (ow_on it)), cache)
      | ClaimIssue \<Rightarrow> (claim_there b False (ot_issue_reactions tk (ow_on it)), cache)
      | SaidComment \<Rightarrow>
          (case cs (ow_on it) of
             Some l \<Rightarrow> (Inr (item_said b l (ow_marker it)), cache)
           | None \<Rightarrow>
               (case ot_comments tk (ow_on it) of
                  Inl e \<Rightarrow> (Inl (OwedTracker e), cache)
                | Inr l \<Rightarrow> (Inr (item_said b l (ow_marker it)), (cs(ow_on it \<mapsto> l), ls))))
      | OtherWhat x \<Rightarrow> (Inl (MalformedItem (ow_stem it)), cache)
      | w \<Rightarrow>
          (case ls (ow_on it) of
             Some l \<Rightarrow> (Inr (has_label l (ow_label it) = (w = LabelOn)), cache)
           | None \<Rightarrow>
               (case ot_labels tk (ow_on it) of
                  Inl e \<Rightarrow> (Inl (OwedTracker e), cache)
                | Inr l \<Rightarrow> (Inr (has_label l (ow_label it) = (w = LabelOn)), (cs, ls(ow_on it \<mapsto> l))))))"

fun missing_from :: "book \<Rightarrow> owed_tracker \<Rightarrow> owed_item list \<Rightarrow> read_cache \<Rightarrow> owed_error + owed_item list" where
  "missing_from b tk [] cache = Inr []"
| "missing_from b tk (it # its) cache =
     (case there b tk it cache of
        (Inl e, _) \<Rightarrow> Inl e
      | (Inr yes, cache') \<Rightarrow>
          (case missing_from b tk its cache' of
             Inl e \<Rightarrow> Inl e
           | Inr out \<Rightarrow> Inr (if yes then out else it # out)))"

definition missing_items :: "book \<Rightarrow> owed_tracker \<Rightarrow> owed_item list \<Rightarrow> owed_error + owed_item list" where
  "missing_items b tk its = missing_from b tk its (\<lambda>_. None, \<lambda>_. None)"

definition command_reactions :: "book \<Rightarrow> owed_tracker \<Rightarrow> owed_command \<Rightarrow> owed_error + reaction list" where
  "command_reactions b tk c =
     (case c of
        ByComment c \<Rightarrow> (case ot_reactions tk (cm_id c) of Inl e \<Rightarrow> Inl (OwedTracker e) | Inr l \<Rightarrow> Inr l)
      | ByReview r \<Rightarrow>
          if \<not> bk_reviews b then Inl NoReviewTracker
          else (case ot_review_reactions tk (rv_node_id r) of Inl e \<Rightarrow> Inl (OwedTracker e) | Inr l \<Rightarrow> Inr l))"

fun unanswered_commands :: "book \<Rightarrow> owed_tracker \<Rightarrow> owed_command list \<Rightarrow> string \<Rightarrow> owed_error + owed_command list" where
  "unanswered_commands b tk [] word = Inr []"
| "unanswered_commands b tk (c # cs) word =
     (if \<not> command_issues c (bk_login b) word then unanswered_commands b tk cs word
      else (case command_reactions b tk c of
          Inl e \<Rightarrow> Inl e
        | Inr rs \<Rightarrow>
            (case unanswered_commands b tk cs word of
               Inl e \<Rightarrow> Inl e
             | Inr out \<Rightarrow> Inr (if claimed rs (bk_login b) then out else c # out))))"

definition unanswered :: "book \<Rightarrow> owed_tracker \<Rightarrow> gh_comment list \<Rightarrow> string \<Rightarrow> owed_error + gh_comment list" where
  "unanswered b tk comments word =
     (case unanswered_commands b tk (map ByComment comments) word of
        Inl e \<Rightarrow> Inl e
      | Inr out \<Rightarrow> Inr (concat (map (\<lambda>c. case c of ByComment x \<Rightarrow> [x] | ByReview r \<Rightarrow> []) out)))"

subsection \<open>Owing and settling\<close>

text \<open>What performing an item asks of the tracker, and the error it ends with.\<close>

definition write_once :: "owed_tracker \<Rightarrow> tracker_write \<Rightarrow> owed_error option \<times> tracker_write list" where
  "write_once tk a = (map_option OwedTracker (ot_write tk a), [a])"

definition do_item :: "book \<Rightarrow> owed_item \<Rightarrow> owed_tracker \<Rightarrow> owed_error option \<times> tracker_write list" where
  "do_item b it tk =
     (case ow_what it of
        ClaimComment \<Rightarrow> write_once tk (React (ow_comment it) claim_reaction)
      | ClaimReview \<Rightarrow>
          if \<not> bk_reviews b then (Some NoReviewTracker, [])
          else write_once tk (ReactToReview (ow_review it) claim_reaction)
      | ClaimPR \<Rightarrow> write_once tk (ReactToIssue (ow_on it) claim_reaction)
      | ClaimIssue \<Rightarrow> write_once tk (ReactToIssue (ow_on it) claim_reaction)
      | LabelOn \<Rightarrow> write_once tk (PutLabel (ow_on it) (ow_label it))
      | LabelOff \<Rightarrow> write_once tk (TakeLabel (ow_on it) (ow_label it))
      | _ \<Rightarrow>
          (case ot_comments tk (ow_on it) of
             Inl e \<Rightarrow> (Some (OwedTracker e), [])
           | Inr cs \<Rightarrow>
               if item_said b cs (ow_marker it) then (None, [])
               else write_once tk (Post (ow_on it) (ow_body it))))"

definition item_effect :: "book \<Rightarrow> owed_item \<Rightarrow> string \<Rightarrow> effect" where
  "item_effect b it key =
     Effect key (Some (\<lambda>d. (map_option (bk_text b) (fst (do_item b it (bk_later b it))), d)))"

definition move_on :: "string \<Rightarrow> int \<Rightarrow> owed_item list \<Rightarrow> owed_item list" where
  "move_on stem n its = map (\<lambda>it. if ow_stem it = stem then it\<lparr>ow_from := n\<rparr> else it) its"

text \<open>The loop of \<^verbatim>\<open>effects\<close>. \<open>shared\<close> says that the items are the record's own, so that an
  allowance moved on is seen by the items still to come: it is in \<^verbatim>\<open>Owe\<close>, and is not in
  \<^verbatim>\<open>Settle\<close>, whose missing items are copies.\<close>

lemma length_move_on [simp]: "length (move_on stem n its) = length its"
  by (simp add: move_on_def)

function effects_loop :: "book \<Rightarrow> bool \<Rightarrow> owed_item list \<Rightarrow> owed_item list \<Rightarrow> world \<Rightarrow>
    (owed_error + effect list \<times> (string \<times> int) list \<times> owed_item list) \<times> world" where
  "effects_loop b shared rs [] w = (Inr ([], [], rs), w)"
| "effects_loop b shared rs (it # its) w =
     (case effect_round (ow_stem it) (ow_from it) (bk_rounds b) w of
        (Spent stem n nxt, w') \<Rightarrow>
          (case effects_loop b shared (move_on (ow_stem it) nxt rs)
              (if shared then move_on (ow_stem it) nxt its else its) w' of
             (Inl e, w'') \<Rightarrow> (Inl e, w'')
           | (Inr (es, errs, rs'), w'') \<Rightarrow> (Inr (es, (stem, n) # errs, rs'), w''))
      | (RoundError e, w') \<Rightarrow> (Inl (OwedStore e), w')
      | (RoundKey key, w') \<Rightarrow>
          (case effects_loop b shared rs its w' of
             (Inl e, w'') \<Rightarrow> (Inl e, w'')
           | (Inr (es, errs, rs'), w'') \<Rightarrow> (Inr (item_effect b it key # es, errs, rs'), w'')))"
  by pat_completeness auto
termination
  by (relation "measure (\<lambda>(b, shared, rs, its, w). length its)") auto

definition owed_effects :: "book \<Rightarrow> bool \<Rightarrow> string \<Rightarrow> owed_record \<Rightarrow> owed_item list \<Rightarrow> shelf \<Rightarrow> world \<Rightarrow>
    (owed_error + effect list) \<times> shelf \<times> world" where
  "owed_effects b shared jid r its sh w =
     (case effects_loop b shared (or_items r) its w of
        (Inl e, w') \<Rightarrow> (Inl e, sh, w')
      | (Inr (es, errs, rs), w') \<Rightarrow>
          if errs \<noteq> [] then
            (let (se, sh') = owed_save b jid (r\<lparr>or_items := rs\<rparr>) sh in (Inl (RoundsSpent errs se), sh', w'))
          else (Inr es, sh, w'))"

definition owed_next :: "instant \<Rightarrow> owed_record \<Rightarrow> result" where
  "owed_next now r = \<lparr>res_state = or_next r, res_run_at = (if or_due r then Some now else None),
     res_effects = [], res_exhausted = None\<rparr>"

text \<open>The first loop of \<^verbatim>\<open>Owe\<close>: each item checked, and its allowance started.\<close>

fun start_items :: "owed_item list \<Rightarrow> world \<Rightarrow> ((owed_error + owed_item list) \<times> world) option" where
  "start_items [] w = Some (Inr [], w)"
| "start_items (it # its) w =
     (case item_error it of
        Some e \<Rightarrow> Some (Inl e, w)
      | None \<Rightarrow>
          (case next_round (ow_stem it) w of
             None \<Rightarrow> None
           | Some ((i, Some e), w') \<Rightarrow> Some (Inl (OwedStore e), w')
           | Some ((i, None), w') \<Rightarrow>
               (case start_items its w' of
                  None \<Rightarrow> None
                | Some (Inl e, w'') \<Rightarrow> Some (Inl e, w'')
                | Some (Inr out, w'') \<Rightarrow> Some (Inr (it\<lparr>ow_from := i\<rparr> # out), w''))))"

definition owe :: "book \<Rightarrow> job \<Rightarrow> instant \<Rightarrow> string \<Rightarrow> owed_record \<Rightarrow> shelf \<Rightarrow> world \<Rightarrow>
    ((owed_error + result) \<times> shelf \<times> world) option" where
  "owe b j now state r sh w =
     (if or_next r = '''' then Some (Inl NoNextState, sh, w)
      else if or_items r = [] then Some (Inr (owed_next now r), sh, w)
      else (case start_items (or_items r) w of
          None \<Rightarrow> None
        | Some (Inl e, w') \<Rightarrow> Some (Inl e, sh, w')
        | Some (Inr its, w') \<Rightarrow>
            (let r = r\<lparr>or_items := its\<rparr> in
             case owed_save b (j_id j) r sh of
               (Some e, sh') \<Rightarrow> Some (Inl e, sh', w')
             | (None, sh') \<Rightarrow>
                 (case owed_effects b True (j_id j) r its sh' w' of
                    (Inl e, sh'', w'') \<Rightarrow> Some (Inl e, sh'', w'')
                  | (Inr es, sh'', w'') \<Rightarrow>
                      Some (Inr \<lparr>res_state = state, res_run_at = Some now, res_effects = es,
                        res_exhausted = None\<rparr>, sh'', w'')))))"

definition settle :: "book \<Rightarrow> owed_tracker \<Rightarrow> job \<Rightarrow> instant \<Rightarrow> result \<Rightarrow> shelf \<Rightarrow> world \<Rightarrow>
    (owed_error + result) \<times> shelf \<times> world" where
  "settle b tk j now lost sh w =
     (case owed_load b (j_id j) sh of
        Inl e \<Rightarrow> (Inl e, sh, w)
      | Inr None \<Rightarrow> (Inr lost, sh, w)
      | Inr (Some r) \<Rightarrow>
          (case missing_items b tk (or_items r) of
             Inl e \<Rightarrow> (Inl e, sh, w)
           | Inr [] \<Rightarrow>
               (case owed_remove (j_id j) sh of
                  (Some e, sh') \<Rightarrow> (Inl e, sh', w)
                | (None, sh') \<Rightarrow> (Inr (owed_next now r), sh', w))
           | Inr (m # ms) \<Rightarrow>
               (case owed_effects b False (j_id j) r (m # ms) sh w of
                  (Inl e, sh', w') \<Rightarrow> (Inl e, sh', w')
                | (Inr es, sh', w') \<Rightarrow>
                    (Inr \<lparr>res_state = j_state j, res_run_at = Some now, res_effects = es,
                      res_exhausted = None\<rparr>, sh', w'))))"

end
