(* ===== verification/Permalink.thy ===== *)
theory Permalink
  imports Owed
begin

text \<open>
  Linking the citations of a model's text, \<^verbatim>\<open>internal/permalink/permalink.go\<close>: the regular
  expression's alternatives in the order it tries them, the check that a citation names a file of
  the checkout, and the links made. The checkout is a parameter: \<open>regular\<close> says which of its
  paths are regular files. The text is read into pieces, of which only a linked one is changed.
\<close>

subsection \<open>Paths: filepath.Clean and filepath.IsLocal\<close>

text \<open>The segments kept so far are in reverse.\<close>

fun clean_segments :: "bool \<Rightarrow> string list \<Rightarrow> string list \<Rightarrow> string list" where
  "clean_segments rooted acc [] = rev acc"
| "clean_segments rooted acc (s # ss) =
     (if s = '''' \<or> s = ''.'' then clean_segments rooted acc ss
      else if s = ''..'' then
        (if acc \<noteq> [] \<and> hd acc \<noteq> ''..'' then clean_segments rooted (tl acc) ss
         else if rooted then clean_segments rooted acc ss
         else clean_segments rooted (s # acc) ss)
      else clean_segments rooted (s # acc) ss)"

definition clean_path :: "string \<Rightarrow> string" where
  "clean_path p =
     (let rooted = has_prefix p ''/'';
          body = join (clean_segments rooted [] (split_on (CHR ''/'') p)) ''/''
      in if rooted then CHR ''/'' # body else if body = '''' then ''.'' else body)"

definition is_local_path :: "string \<Rightarrow> bool" where
  "is_local_path p \<longleftrightarrow>
     p \<noteq> '''' \<and> \<not> has_prefix p ''/'' \<and>
     (let segs = split_on (CHR ''/'') p;
          q = (if ''.'' \<in> set segs \<or> ''..'' \<in> set segs then clean_path p else p)
      in q \<noteq> ''..'' \<and> \<not> has_prefix q ''../'')"

definition under_git :: "string \<Rightarrow> bool" where
  "under_git p \<longleftrightarrow> takeWhile (\<lambda>c. c \<noteq> CHR ''/'') p = ''.git''"

subsection \<open>Citations\<close>

definition path_char :: "char \<Rightarrow> bool" where
  "path_char c \<longleftrightarrow> (let n = of_char c :: nat in
     48 \<le> n \<and> n \<le> 57 \<or> 65 \<le> n \<and> n \<le> 90 \<or> 97 \<le> n \<and> n \<le> 122 \<or>
     c \<in> {CHR ''_'', CHR ''.'', CHR ''/'', CHR ''-''})"

definition regex_space :: "char \<Rightarrow> bool" where
  "regex_space c \<longleftrightarrow> c \<in> {CHR '' '', CHR 0x09, CHR 0x0A, CHR 0x0C, CHR 0x0D}"

text \<open>What one match is: its kind and its length.\<close>

datatype citation = LeftAlone nat | CodeSpan string nat | Cited string string string nat

text \<open>\<^verbatim>\<open>path:first\<close> or \<^verbatim>\<open>path:first-last\<close> at the start of a string.\<close>

definition path_citation :: "string \<Rightarrow> (string \<times> string \<times> string \<times> nat) option" where
  "path_citation s =
     (let p = takeWhile path_char s; r = dropWhile path_char s in
      if p = '''' \<or> r = '''' \<or> hd r \<noteq> CHR '':'' then None
      else (let from = takeWhile is_digit (tl r); r2 = dropWhile is_digit (tl r) in
        if from = '''' then None
        else (let upto = takeWhile is_digit (tl r2) in
          if r2 \<noteq> '''' \<and> hd r2 = CHR ''-'' \<and> upto \<noteq> ''''
          then Some (p, from, upto, length p + 1 + length from + 1 + length upto)
          else Some (p, from, '''', length p + 1 + length from))))"

definition fenced :: "string \<Rightarrow> nat option" where
  "fenced s =
     (case cut_prefix s (replicate 3 (CHR 0x60)) of
        None \<Rightarrow> None
      | Some t \<Rightarrow> map_option (\<lambda>j. 6 + j) (index_of t (replicate 3 (CHR 0x60))))"

definition markdown_link :: "string \<Rightarrow> nat option" where
  "markdown_link s =
     (case cut_prefix s ''['' of
        None \<Rightarrow> None
      | Some t \<Rightarrow>
          (let a = takeWhile (\<lambda>c. c \<noteq> CHR '']'' \<and> c \<noteq> CHR 0x0A) t in
           case cut_prefix (drop (length a) t) ''](''  of
             None \<Rightarrow> None
           | Some u \<Rightarrow>
               (let b = takeWhile (\<lambda>c. c \<noteq> CHR '')'' \<and> c \<noteq> CHR 0x0A) u in
                if has_prefix (drop (length b) u) '')'' then Some (length a + length b + 4) else None)))"

definition bare_url :: "string \<Rightarrow> nat option" where
  "bare_url s =
     (let k = (if has_prefix s ''http://'' then 7 else if has_prefix s ''https://'' then 8 else 0);
          t = takeWhile (\<lambda>c. \<not> regex_space c \<and> c \<noteq> CHR '')'' \<and> c \<noteq> CHR ''>'') (drop k s)
      in if k = 0 \<or> t = '''' then None else Some (k + length t))"

definition code_text :: "string \<Rightarrow> string option" where
  "code_text s =
     (case cut_prefix s [CHR 0x60] of
        None \<Rightarrow> None
      | Some t \<Rightarrow>
          (let a = takeWhile (\<lambda>c. c \<noteq> CHR 0x60 \<and> c \<noteq> CHR 0x0A) t in
           if has_prefix (drop (length a) t) [CHR 0x60] then Some a else None))"

definition citation_at :: "string \<Rightarrow> citation option" where
  "citation_at s =
     (case fenced s of Some n \<Rightarrow> Some (LeftAlone n)
      | None \<Rightarrow> (case markdown_link s of Some n \<Rightarrow> Some (LeftAlone n)
      | None \<Rightarrow> (case bare_url s of Some n \<Rightarrow> Some (LeftAlone n)
      | None \<Rightarrow> (case code_text s of Some a \<Rightarrow> Some (CodeSpan a (length a + 2))
      | None \<Rightarrow> (case path_citation s of Some (p, f, l, n) \<Rightarrow> Some (Cited p f l n)
      | None \<Rightarrow> None)))))"

fun cite_length :: "citation \<Rightarrow> nat" where
  "cite_length (LeftAlone n) = n"
| "cite_length (CodeSpan a n) = n"
| "cite_length (Cited p f l n) = n"

lemma citation_at_pos: "citation_at s = Some c \<Longrightarrow> 0 < cite_length c \<and> s \<noteq> ''''"
  by (auto simp: citation_at_def fenced_def markdown_link_def bare_url_def code_text_def path_citation_def
      cut_prefix_Some Let_def has_prefix_def split: option.splits if_splits)

subsection \<open>Linking\<close>

definition link_target :: "(string \<Rightarrow> bool) \<Rightarrow> string \<Rightarrow> string \<Rightarrow> string \<Rightarrow> string \<Rightarrow> string \<Rightarrow> string option" where
  "link_target regular repo head path first last_line =
     (let p = clean_path path in
      if \<not> is_local_path p \<or> under_git p then None
      else (case parse_int64 first of
          None \<Rightarrow> None
        | Some n \<Rightarrow>
            if n < 1 then None
            else if \<not> regular p then None
            else Some (''https://github.com/'' @ repo @ ''/blob/'' @ head @ ''/'' @ p @ ''#L'' @ first @
              (if last_line \<noteq> '''' then ''-L'' @ last_line else ''''))))"

fun cite_target :: "(string \<Rightarrow> bool) \<Rightarrow> string \<Rightarrow> string \<Rightarrow> citation \<Rightarrow> string option" where
  "cite_target regular repo head (LeftAlone n) = None"
| "cite_target regular repo head (CodeSpan a n) =
     (case path_citation a of
        Some (p, f, l, k) \<Rightarrow> if k = length a then link_target regular repo head p f l else None
      | None \<Rightarrow> None)"
| "cite_target regular repo head (Cited p f l n) = link_target regular repo head p f l"

datatype piece = Plain string | Linked string string

function link_pieces :: "(string \<Rightarrow> bool) \<Rightarrow> string \<Rightarrow> string \<Rightarrow> string \<Rightarrow> piece list" where
  "link_pieces regular repo head s =
     (case citation_at s of
        Some c \<Rightarrow>
          (case cite_target regular repo head c of
             Some u \<Rightarrow> Linked (take (cite_length c) s) u
           | None \<Rightarrow> Plain (take (cite_length c) s)) #
          link_pieces regular repo head (drop (cite_length c) s)
      | None \<Rightarrow> (case s of [] \<Rightarrow> [] | x # xs \<Rightarrow> Plain [x] # link_pieces regular repo head xs))"
  by pat_completeness auto
termination
  by (relation "measure (\<lambda>(r, a, h, s). length s)") (auto dest: citation_at_pos)

declare link_pieces.simps [simp del]

fun piece_text :: "piece \<Rightarrow> string" where
  "piece_text (Plain t) = t"
| "piece_text (Linked t u) = ''['' @ t @ '']('' @ u @ '')''"

fun piece_source :: "piece \<Rightarrow> string" where
  "piece_source (Plain t) = t"
| "piece_source (Linked t u) = t"

text \<open>\<^verbatim>\<open>Link\<close>: \<open>root\<close> is what opening the checkout gives, its files or an error.\<close>

definition permalinks :: "string + (string \<Rightarrow> bool) \<Rightarrow> string \<Rightarrow> string \<Rightarrow> string \<Rightarrow> string + string" where
  "permalinks root repo head txt =
     (if repo = '''' then Inr txt
      else (case root of
          Inl e \<Rightarrow> Inl e
        | Inr regular \<Rightarrow> Inr (concat (map piece_text (link_pieces regular repo head txt)))))"

subsection \<open>What a link is\<close>

fun link_sound :: "(string \<Rightarrow> bool) \<Rightarrow> string \<Rightarrow> string \<Rightarrow> piece \<Rightarrow> bool" where
  "link_sound regular repo head (Plain t) \<longleftrightarrow> True"
| "link_sound regular repo head (Linked t u) \<longleftrightarrow>
     (\<exists>p line. is_local_path p \<and> \<not> under_git p \<and> regular p \<and>
        has_prefix u (''https://github.com/'' @ repo @ ''/blob/'' @ head @ ''/'' @ p @ ''#L'' @ line) \<and>
        (\<exists>n\<ge>1. parse_int64 line = Some n))"

lemma link_target_sound:
  assumes "link_target regular repo head path first last_line = Some u"
  shows "link_sound regular repo head (Linked t u)"
proof -
  let ?p = "clean_path path"
  have ok: "is_local_path ?p" "\<not> under_git ?p" "regular ?p" "\<exists>n\<ge>1. parse_int64 first = Some n"
    and u: "u = (''https://github.com/'' @ repo @ ''/blob/'' @ head @ ''/'' @ ?p @ ''#L'' @ first) @
      (if last_line \<noteq> '''' then ''-L'' @ last_line else '''')"
    using assms by (auto simp: link_target_def Let_def split: option.splits if_splits)
  have "has_prefix u (''https://github.com/'' @ repo @ ''/blob/'' @ head @ ''/'' @ ?p @ ''#L'' @ first)"
    unfolding u by (rule has_prefix_append)
  with ok show ?thesis unfolding link_sound.simps by blast
qed

lemma cite_target_sound:
  "cite_target regular repo head c = Some u \<Longrightarrow> link_sound regular repo head (Linked t u)"
  by (cases c) (auto simp del: link_sound.simps split: option.splits if_splits intro: link_target_sound)

lemma link_pieces_sound:
  "concat (map piece_source (link_pieces regular repo head s)) = s \<and>
   list_all (link_sound regular repo head) (link_pieces regular repo head s)"
proof (induction regular repo head s rule: link_pieces.induct)
  case (1 regular repo head s)
  show ?case
  proof (cases "citation_at s")
    case None
    show ?thesis
    proof (cases s)
      case Nil
      with None show ?thesis by (simp add: link_pieces.simps)
    next
      case (Cons x xs)
      with None 1(1) [OF None Cons] show ?thesis by (subst (1 2) link_pieces.simps) simp
    qed
  next
    case (Some c)
    show ?thesis
    proof (cases "cite_target regular repo head c")
      case None
      with Some 1(2) [OF Some] show ?thesis by (subst (1 2) link_pieces.simps) simp
    next
      case target: (Some u)
      with Some 1(2) [OF Some] cite_target_sound [OF target]
      show ?thesis by (subst (1 2) link_pieces.simps) (simp del: link_sound.simps)
    qed
  qed
qed

text \<open>Linking a review's citations only ever adds links: the text is what it was with some of its
  pieces turned into links, and each of those reaches a line, numbered from one, of a regular file
  of the checkout, whose path stays inside the checkout and out of \<^verbatim>\<open>.git\<close>, at the commit the
  review is of.\<close>

theorem permalinks_only_add_links:
  assumes "permalinks (Inr regular) repo head txt = Inr out"
  shows "\<exists>ps. out = concat (map piece_text ps) \<and> concat (map piece_source ps) = txt \<and>
    list_all (link_sound regular repo head) ps"
proof (cases "repo = ''''")
  case True
  with assms show ?thesis by (intro exI [of _ "[Plain txt]"]) (simp add: permalinks_def)
next
  case False
  with assms link_pieces_sound show ?thesis by (auto simp: permalinks_def)
qed

theorem permalinks_only_add_links_witness:
  "\<exists>ps. ''[a.go:3](https://github.com/o/r/blob/c0/a.go#L3) at 10:30'' = concat (map piece_text ps) \<and>
    concat (map piece_source ps) = ''a.go:3 at 10:30'' \<and> list_all (link_sound (\<lambda>p. p = ''a.go'') ''o/r'' ''c0'') ps"
proof -
  have "permalinks (Inr (\<lambda>p. p = ''a.go'')) ''o/r'' ''c0'' ''a.go:3 at 10:30'' =
      Inr ''[a.go:3](https://github.com/o/r/blob/c0/a.go#L3) at 10:30''" by code_simp
  then show ?thesis by (rule permalinks_only_add_links)
qed

end
