(* ===== verification/Sensitive.thy ===== *)
theory Sensitive
  imports Globs Spend
begin

text \<open>
  The sensitive paths, \<^verbatim>\<open>internal/sensitive/sensitive.go\<close>: the operator's labels and their globs,
  the labels a change touches, the one line a description carries for them, and the two
  operations that keep that line: bringing it up to date, and taking it out. Running git for the
  changed paths is a parameter; so is \<^verbatim>\<open>strconv.Quote\<close>, which needs the Unicode tables.
\<close>

record sensitive_path =
  sp_label :: string
  sp_globs :: "string list"

text \<open>\<^verbatim>\<open>unicode.IsControl\<close> of some character: a byte below a blank, delete, or one of the two-byte
  encodings of the other control characters.\<close>

fun has_control :: "string \<Rightarrow> bool" where
  "has_control [] = False"
| "has_control (c # cs) =
     ((of_char c :: nat) < 32 \<or> (of_char c :: nat) = 127 \<or>
      (c = CHR 0xC2 \<and> cs \<noteq> [] \<and> 128 \<le> (of_char (hd cs) :: nat) \<and> (of_char (hd cs) :: nat) < 160) \<or>
      has_control cs)"

datatype sensitive_error =
    NoLabel
  | BadLabel string
  | LabelTwice string
  | NoPaths string
  | BadGlob glob_error

fun valid_paths :: "string list \<Rightarrow> sensitive_path list \<Rightarrow> sensitive_error option" where
  "valid_paths seen [] = None"
| "valid_paths seen (s # ss) =
     (if trim_space (sp_label s) = '''' then Some NoLabel
      else if has_control (sp_label s) \<or> list_ex (\<lambda>c. c \<in> {CHR '','', CHR ''('', CHR '')''}) (sp_label s)
      then Some (BadLabel (sp_label s))
      else if sp_label s \<in> set seen then Some (LabelTwice (sp_label s))
      else if sp_globs s = [] then Some (NoPaths (sp_label s))
      else (case globs_valid ''sensitive'' (sp_globs s) of
          Some e \<Rightarrow> Some (BadGlob e)
        | None \<Rightarrow> valid_paths (sp_label s # seen) ss))"

definition sensitive_valid :: "sensitive_path list \<Rightarrow> sensitive_error option" where
  "sensitive_valid ss = valid_paths [] ss"

record touched =
  to_label :: string
  to_files :: "string list"

definition touches :: "sensitive_path list \<Rightarrow> string list \<Rightarrow> touched list" where
  "touches ss paths =
     concat (map (\<lambda>s. let files = matching (sp_globs s) paths in
       if files \<noteq> [] then [\<lparr>to_label = sp_label s, to_files = files\<rparr>] else []) ss)"

definition sensitive_prefix :: string where
  "sensitive_prefix = ''**Sensitive:** ''"

definition sensitive_line :: "(touched \<Rightarrow> string) \<Rightarrow> touched list \<Rightarrow> string" where
  "sensitive_line files ts =
     (if ts = [] then ''''
      else sensitive_prefix @ join (map (\<lambda>t. to_label t @ '' ('' @ files t @ '')'') ts) '', '')"

text \<open>The fence grows until the path does not contain it.\<close>

function grow_fence :: "string \<Rightarrow> nat \<Rightarrow> nat" where
  "grow_fence p n = (if contains p (replicate n (CHR 0x60)) then grow_fence p (Suc n) else n)"
  by pat_completeness auto
termination
proof (relation "measure (\<lambda>(p, n). Suc (length p) - n)")
  fix p n
  assume "contains p (replicate n (CHR 0x60))"
  then have "n \<le> length p" by (auto simp: contains_iff)
  then show "((p, Suc n), (p, n)) \<in> measure (\<lambda>(p, n). Suc (length p) - n)" by simp
qed simp

declare grow_fence.simps [simp del]

definition code_span :: "(string \<Rightarrow> string) \<Rightarrow> string \<Rightarrow> string" where
  "code_span quote p0 =
     (let p = (if has_control p0 then quote p0 else p0);
          n = grow_fence p 1; fence = replicate n (CHR 0x60)
      in if 1 < n then fence @ '' '' @ p @ '' '' @ fence else fence @ p @ fence)"

definition sensitive_files :: "(string \<Rightarrow> string) \<Rightarrow> touched list \<Rightarrow> string" where
  "sensitive_files quote ts = sensitive_line (\<lambda>t. join (map (code_span quote) (to_files t)) '', '') ts"

definition sensitive_counted :: "touched list \<Rightarrow> string" where
  "sensitive_counted ts = sensitive_line (\<lambda>t.
     if length (to_files t) = 1 then ''1 file'' else dec (int (length (to_files t))) @ '' files'') ts"

text \<open>The diff's output, or the error of running it.\<close>

definition changed_paths :: "string + string \<Rightarrow> string + string list" where
  "changed_paths out =
     (case out of Inl e \<Rightarrow> Inl e | Inr s \<Rightarrow> Inr (filter (\<lambda>p. p \<noteq> '''') (split_on (CHR 0x00) s)))"

definition reminder :: string where
  "reminder = ''> **Your review**''"

definition with_sensitive :: "string \<Rightarrow> string \<Rightarrow> string \<times> bool" where
  "with_sensitive body line =
     (case index_of body (nl @ reminder) of
        None \<Rightarrow> (body, False)
      | Some i \<Rightarrow>
          (let head = filter (\<lambda>l. \<not> has_prefix l sensitive_prefix) (split_on (CHR 0x0A) (take i body));
               top = trim_right (join head nl) (CHR 0x0A) @ nl @ nl
           in (top @ (if line \<noteq> '''' then line @ nl @ nl else '''') @ drop (i + 1) body, True)))"

definition strip_sensitive :: "string \<Rightarrow> string" where
  "strip_sensitive body = fst (with_sensitive body '''')"

subsection \<open>The line is replaced, and nothing else\<close>

lemma split_on_append: "split_on c (a @ c # b) = split_on c a @ split_on c b"
  by (induction a) (auto split: list.split)

lemma split_on_none: "c \<notin> set s \<Longrightarrow> split_on c s = [s]"
  by (induction s) auto

lemma split_on_join:
  "list_all (\<lambda>l. c \<notin> set l) ls \<Longrightarrow> ls \<noteq> [] \<Longrightarrow> split_on c (join ls [c]) = ls"
proof (induction ls)
  case (Cons l ls)
  then show ?case
    by (cases ls) (auto simp: split_on_none split_on_append)
qed simp

lemma split_on_replicate: "split_on c (replicate n c) = replicate (Suc n) ''''"
  by (induction n) auto

lemma split_on_trim:
  "\<exists>n. split_on c s = split_on c (trim_right s c) @ replicate n ''''"
proof -
  obtain n where n: "s = trim_right s c @ replicate n c" using trim_right_append by blast
  show ?thesis
  proof (cases n)
    case 0
    with n show ?thesis by (intro exI [of _ 0]) simp
  next
    case (Suc m)
    have "split_on c s = split_on c (trim_right s c @ c # replicate m c)"
      using n Suc by simp
    also have "\<dots> = split_on c (trim_right s c) @ replicate (Suc m) ''''"
      by (simp only: split_on_append split_on_replicate)
    finally show ?thesis ..
  qed
qed

lemma trim_right_idem: "trim_right (trim_right s c) c = trim_right s c"
  by (simp add: trim_right_def dropWhile_idem)

lemma trim_right_snoc: "trim_right (s @ [c]) c = trim_right s c"
  by (simp add: trim_right_def)

lemma join_snoc: "ls \<noteq> [] \<Longrightarrow> join (ls @ ['''']) sep = join ls sep @ sep"
proof (induction ls)
  case (Cons l ls)
  then show ?case by (cases ls) auto
qed simp

lemma contains_line:
  assumes "c \<notin> set r"
  shows "contains s (c # r) \<longleftrightarrow> list_ex (\<lambda>l. has_prefix l r) (tl (split_on c s))"
proof (induction s)
  case Nil
  then show ?case by (simp add: contains_def)
next
  case (Cons x xs)
  have line: "has_prefix xs r \<longleftrightarrow> has_prefix (hd (split_on c xs)) r"
    using assms
  proof (induction xs arbitrary: r)
    case (Cons y ys)
    obtain l ls where "split_on c ys = l # ls" using split_on_ne [of c ys] by (cases "split_on c ys") auto
    with Cons show ?case by (cases r) (auto simp: has_prefix_def)
  qed (simp add: has_prefix_def)
  obtain l ls where ls: "split_on c xs = l # ls" using split_on_ne [of c xs] by (cases "split_on c xs") auto
  have "contains (x # xs) (c # r) \<longleftrightarrow> x = c \<and> has_prefix xs r \<or> contains xs (c # r)"
    by (auto simp: contains_def has_prefix_def)
  with Cons.IH line ls show ?case by (auto)
qed

lemma tl_filter: "set (tl (filter P xs)) \<subseteq> set (tl xs)"
proof (induction xs)
  case (Cons x xs)
  have "set (tl (filter P xs)) \<subseteq> set (filter P xs)" by (cases "filter P xs") auto
  then show ?case by auto
qed simp

definition keep_lines :: "string \<Rightarrow> string" where
  "keep_lines s = trim_right (join (filter (\<lambda>l. \<not> has_prefix l sensitive_prefix)
     (split_on (CHR 0x0A) s)) nl) (CHR 0x0A)"

definition line_block :: "string \<Rightarrow> string" where
  "line_block line = (if line \<noteq> '''' then line @ nl else '''')"

lemma with_sensitive_conv:
  "with_sensitive body line =
     (case index_of body (nl @ reminder) of
        None \<Rightarrow> (body, False)
      | Some i \<Rightarrow> (keep_lines (take i body) @ nl @ (if line \<noteq> '''' then nl @ line @ nl else '''') @ nl @ drop (i + 1) body, True))"
  by (simp add: with_sensitive_def keep_lines_def Let_def split: option.split)

lemma kept_lines:
  "list_all (\<lambda>l. \<not> has_prefix l sensitive_prefix) (split_on (CHR 0x0A) (keep_lines s))"
  "set (tl (split_on (CHR 0x0A) (keep_lines s))) \<subseteq> set (tl (split_on (CHR 0x0A) s)) \<union> {''''}"
proof -
  let ?H = "filter (\<lambda>l. \<not> has_prefix l sensitive_prefix) (split_on (CHR 0x0A) s)"
  have no: "list_all (\<lambda>l. CHR 0x0A \<notin> set l) ?H" using split_on_no_sep by (auto simp: list_all_iff)
  have J: "split_on (CHR 0x0A) (join ?H nl) = (if ?H = [] then [''''] else ?H)"
    using split_on_join [OF no] by (simp add: nl_def)
  obtain n where "split_on (CHR 0x0A) (join ?H nl) =
      split_on (CHR 0x0A) (keep_lines s) @ replicate n ''''"
    using split_on_trim unfolding keep_lines_def by blast
  with J have n: "(if ?H = [] then [''''] else ?H) = split_on (CHR 0x0A) (keep_lines s) @ replicate n ''''"
    by simp
  have "list_all (\<lambda>l. \<not> has_prefix l sensitive_prefix) (if ?H = [] then [''''] else ?H)"
    by (auto simp: list_all_iff has_prefix_def sensitive_prefix_def)
  then show "list_all (\<lambda>l. \<not> has_prefix l sensitive_prefix) (split_on (CHR 0x0A) (keep_lines s))"
    unfolding n by simp
  have "tl (if ?H = [] then [''''] else ?H) = tl (split_on (CHR 0x0A) (keep_lines s)) @ replicate n ''''"
    unfolding n by (simp add: tl_append split: list.split)
  then have "set (tl (split_on (CHR 0x0A) (keep_lines s))) \<subseteq> set (tl ?H) \<union> {''''}"
    by (auto split: if_splits dest: arg_cong [where f = set])
  with tl_filter show "set (tl (split_on (CHR 0x0A) (keep_lines s))) \<subseteq> set (tl (split_on (CHR 0x0A) s)) \<union> {''''}"
    by (meson Un_mono order_refl subset_trans)
qed

definition is_sensitive_line :: "string \<Rightarrow> bool" where
  "is_sensitive_line l \<longleftrightarrow> l = '''' \<or> has_prefix l sensitive_prefix \<and> CHR 0x0A \<notin> set l"

lemma sensitive_replaced:
  assumes "is_sensitive_line l"
  shows "with_sensitive (fst (with_sensitive body l)) l' = with_sensitive body l' \<and>
    strip_sensitive (fst (with_sensitive body l)) = strip_sensitive body"
proof (cases "index_of body (nl @ reminder)")
  case None
  then have "with_sensitive body l = (body, False)" by (simp add: with_sensitive_conv)
  then show ?thesis by simp
next
  case (Some i)
  let ?k = "keep_lines (take i body)"
  let ?A = "?k @ nl @ (if l \<noteq> '''' then nl @ l @ nl else '''')"
  have R: "nl @ reminder = CHR 0x0A # reminder" "CHR 0x0A \<notin> set reminder"
    by (simp_all add: nl_def reminder_def)
  obtain z where z: "drop (i + 1) body = reminder @ z"
  proof -
    obtain t where "drop i body = nl @ reminder @ t"
      using index_of_Some [OF Some] by (auto simp: has_prefix_conv)
    then have "drop 1 (drop i body) = reminder @ t" by (simp add: nl_def)
    then show ?thesis by (intro that [of t]) simp
  qed
  have "\<not> contains (take i body) (nl @ reminder)"
  proof
    assume "contains (take i body) (nl @ reminder)"
    then obtain a b where ab: "take i body = a @ (nl @ reminder) @ b" by (auto simp: contains_iff)
    then have "length a < length (take i body)" by (simp add: nl_def)
    then have "length a < i" by simp
    moreover have "body = a @ (nl @ reminder) @ b @ drop i body"
      using ab by (metis append.assoc append_take_drop_id)
    then have "has_prefix (drop (length a) body) (nl @ reminder)"
      by (metis append_eq_conv_conj has_prefix_append)
    ultimately show False using index_of_first [OF Some] by blast
  qed
  then have tl: "\<not> list_ex (\<lambda>l. has_prefix l reminder) (tl (split_on (CHR 0x0A) (take i body)))"
    unfolding R(1) contains_line [OF R(2)] .
  have kb: "\<not> list_ex (\<lambda>l. has_prefix l reminder) (tl (split_on (CHR 0x0A) ?k))"
    using tl kept_lines(2) [of "take i body"] by (fastforce simp: list_ex_iff has_prefix_def reminder_def)
  have lp: "\<not> has_prefix l reminder" if "l \<noteq> ''''"
    using assms that by (auto simp: is_sensitive_line_def has_prefix_conv reminder_def sensitive_prefix_def)
  have ln: "CHR 0x0A \<notin> set l" using assms by (auto simp: is_sensitive_line_def)
  have sA: "split_on (CHR 0x0A) ?A =
      split_on (CHR 0x0A) ?k @ (if l \<noteq> '''' then ['''', l, ''''] else [''''])"
    using split_on_none [OF ln] by (simp add: nl_def split_on_append)
  have "\<not> contains ?A (nl @ reminder)"
    unfolding R(1) contains_line [OF R(2)] sA
    using kb lp by (auto simp: tl_append has_prefix_def reminder_def split: list.split)
  then have idx: "index_of (?A @ (nl @ reminder) @ z) (nl @ reminder) = Some (length ?A)"
    unfolding R(1) by (rule index_of_mark [OF refl R(2)])
  have new: "fst (with_sensitive body l) = ?A @ (nl @ reminder) @ z"
    by (simp add: with_sensitive_conv Some z [simplified])
  have kk: "keep_lines ?A = ?k"
  proof -
    have f: "filter (\<lambda>l. \<not> has_prefix l sensitive_prefix) (split_on (CHR 0x0A) ?A) =
        split_on (CHR 0x0A) ?k @ (if l \<noteq> '''' then ['''', ''''] else [''''])"
      using kept_lines(1) [of "take i body"] assms unfolding sA
      by (auto simp: list_all_iff is_sensitive_line_def has_prefix_def sensitive_prefix_def)
    have one: "join (split_on (CHR 0x0A) ?k @ ['''']) nl = ?k @ nl"
      by (simp add: join_snoc join_split_on nl_def)
    have "join ((split_on (CHR 0x0A) ?k @ ['''']) @ ['''']) nl = (?k @ nl) @ nl"
      by (subst join_snoc) (simp_all add: one)
    with one have "join (split_on (CHR 0x0A) ?k @ (if l \<noteq> '''' then ['''', ''''] else [''''])) nl =
        ?k @ nl @ (if l \<noteq> '''' then nl else '''')" by simp
    then have "keep_lines ?A = trim_right (?k @ nl @ (if l \<noteq> '''' then nl else '''')) (CHR 0x0A)"
      unfolding keep_lines_def [of ?A] f by simp
    also have "\<dots> = trim_right ?k (CHR 0x0A)"
      using trim_right_snoc [of "?k @ nl" "CHR 0x0A"] trim_right_snoc [of ?k "CHR 0x0A"]
      by (simp add: nl_def)
    also have "\<dots> = ?k" by (simp add: keep_lines_def trim_right_idem)
    finally show ?thesis .
  qed
  have d: "drop (length ?A + 1) (?A @ (nl @ reminder) @ z) = reminder @ z"
    by (simp add: nl_def)
  have "with_sensitive (fst (with_sensitive body l)) m = with_sensitive body m" for m
    unfolding new with_sensitive_conv [of "?A @ (nl @ reminder) @ z"] idx option.simps d
    by (simp add: with_sensitive_conv Some z [simplified] kk del: append_assoc)
  then show ?thesis by (simp add: strip_sensitive_def)
qed

text \<open>A description's sensitive line is replaced by the next one, and nothing else of it moves:
  bringing in one line and then another is bringing in the second alone, so that a push that
  recomputes it leaves one line at most, and a reader the line is taken out for reads the same
  description whatever it said.\<close>

theorem sensitive_line_replaced:
  assumes "is_sensitive_line l"
  shows "with_sensitive (fst (with_sensitive body l)) l' = with_sensitive body l' \<and>
    strip_sensitive (fst (with_sensitive body l)) = strip_sensitive body"
  using sensitive_replaced [OF assms] by blast

theorem sensitive_line_replaced_witness:
  "with_sensitive (fst (with_sensitive (''Why.'' @ nl @ nl @ reminder @ '' here'') ''**Sensitive:** keys (1 file)'')) '''' =
     (''Why.'' @ nl @ nl @ reminder @ '' here'', True)"
proof -
  have l: "is_sensitive_line ''**Sensitive:** keys (1 file)''" by code_simp
  have "with_sensitive (''Why.'' @ nl @ nl @ reminder @ '' here'') '''' =
      (''Why.'' @ nl @ nl @ reminder @ '' here'', True)" by code_simp
  with sensitive_line_replaced [OF l] show ?thesis by simp
qed

end
