(* ===== verification/Review_Spec.thy ===== *)
theory Review_Spec
  imports Permalink Sensitive
begin

text \<open>
  What a review is written against, \<^verbatim>\<open>internal/review/spec.go\<close>: the issues a description closes,
  the lines the implement kind links its issue with, and the spec made of the pull request's
  description, those issues, and the send-back a revision answers. The regular expressions are
  matched on bytes; of the characters outside ASCII that fold onto a letter of a keyword none is
  recognised.
\<close>

subsection \<open>The tracker as the review reads it\<close>

record review_tracker =
  vt_owed :: owed_tracker
  vt_pull_request :: "int \<Rightarrow> gh_error + pull_request"
  vt_issue :: "int \<Rightarrow> gh_error + gh_issue"
  vt_compare :: "string \<Rightarrow> string \<Rightarrow> gh_error + string"
  vt_reviews :: "int \<Rightarrow> gh_error + pr_review list"
  vt_line_comments :: "int \<Rightarrow> int \<Rightarrow> gh_error + line_comment list"

text \<open>The status of the answer an error is about, if it is about one.\<close>

fun gone_status :: "gh_error \<Rightarrow> string option" where
  "gone_status (StatusError m u c s) = (if c = 404 \<or> c = 410 then Some s else None)"
| "gone_status (NoToken m u e) = gone_status e"
| "gone_status _ = None"

subsection \<open>The issues a description links\<close>

definition word_char :: "char \<Rightarrow> bool" where
  "word_char c \<longleftrightarrow> (let n = of_char c :: nat in
     48 \<le> n \<and> n \<le> 57 \<or> 65 \<le> n \<and> n \<le> 90 \<or> 97 \<le> n \<and> n \<le> 122 \<or> c = CHR ''_'')"

definition closing_words :: "string list" where
  "closing_words = [''close'', ''closes'', ''closed'', ''fix'', ''fixes'', ''fixed'',
     ''resolve'', ''resolves'', ''resolved'']"

text \<open>What follows a keyword: an optional colon, space, and the number.\<close>

definition closing_number :: "string \<Rightarrow> (string \<times> string) option" where
  "closing_number s =
     (let s1 = (if has_prefix s '':'' then tl s else s);
          s2 = dropWhile regex_space s1 in
      if s2 = s1 \<or> \<not> has_prefix s2 ''#'' then None
      else (let ds = takeWhile is_digit (tl s2); rest = dropWhile is_digit (tl s2) in
        if ds = '''' \<or> (rest \<noteq> '''' \<and> word_char (hd rest)) then None else Some (ds, rest)))"

fun closing_with :: "string list \<Rightarrow> string \<Rightarrow> (string \<times> string) option" where
  "closing_with [] s = None"
| "closing_with (w # ws) s =
     (case (if equal_fold (take (length w) s) w then closing_number (drop (length w) s) else None) of
        Some m \<Rightarrow> Some m
      | None \<Rightarrow> closing_with ws s)"

lemma closing_number_shorter: "closing_number s = Some (ds, rest) \<Longrightarrow> length rest < length s"
proof -
  assume a: "closing_number s = Some (ds, rest)"
  define s2 where "s2 = dropWhile regex_space (if has_prefix s '':'' then tl s else s)"
  have p: "has_prefix s2 ''#''" and rest: "rest = dropWhile is_digit (tl s2)"
    using a by (auto simp: closing_number_def s2_def Let_def split: if_splits)
  have "length rest \<le> length (tl s2)" unfolding rest by (rule length_dropWhile_le)
  also have "\<dots> < length s2" using p by (cases s2) (simp_all add: has_prefix_def)
  also have "\<dots> \<le> length (if has_prefix s '':'' then tl s else s)"
    unfolding s2_def by (rule length_dropWhile_le)
  also have "\<dots> \<le> length s" by simp
  finally show ?thesis .
qed

lemma closing_with_shorter: "closing_with ws s = Some (ds, rest) \<Longrightarrow> length rest < length s"
proof (induction ws)
  case (Cons w ws)
  then show ?case
    using closing_number_shorter [of "drop (length w) s" ds rest]
    by (auto split: option.splits if_splits)
qed simp

text \<open>Every match, none overlapping another; \<open>inside\<close> says whether the character before is of a
  word.\<close>

function find_closing :: "bool \<Rightarrow> string \<Rightarrow> string list" where
  "find_closing inside s =
     (case (if inside then None else closing_with closing_words s) of
        Some (ds, rest) \<Rightarrow> ds # find_closing True rest
      | None \<Rightarrow> (case s of [] \<Rightarrow> [] | x # xs \<Rightarrow> find_closing (word_char x) xs))"
  by pat_completeness auto
termination
  by (relation "measure (\<lambda>(i, s). length s)") (auto dest: closing_with_shorter split: if_splits)

declare find_closing.simps [simp del]

fun closes_from :: "int list \<Rightarrow> string list \<Rightarrow> int list" where
  "closes_from seen [] = []"
| "closes_from seen (ds # dss) =
     (case parse_int64 ds of
        None \<Rightarrow> closes_from seen dss
      | Some n \<Rightarrow> if n \<in> set seen then closes_from seen dss else n # closes_from (n # seen) dss)"

definition closes :: "string \<Rightarrow> int \<Rightarrow> int list" where
  "closes desc part = closes_from [part] (find_closing False desc)"

text \<open>The first line of a description the implement kind wrote: its marker, and what follows it.\<close>

definition after_marker :: "string \<Rightarrow> string option" where
  "after_marker s =
     (case cut_prefix s ''<!-- afk:implement issue='' of
        None \<Rightarrow> None
      | Some t \<Rightarrow>
          if takeWhile is_digit t = '''' then None
          else (case cut_prefix (dropWhile is_digit t) '' -->'' of
              None \<Rightarrow> None
            | Some u \<Rightarrow> cut_prefix (if has_prefix u [CHR 0x0D] then tl u else u) nl))"

definition line_ends :: "string \<Rightarrow> bool" where
  "line_ends s = (let t = (if has_prefix s [CHR 0x0D] then tl s else s) in t = '''' \<or> has_prefix t nl)"

definition number_after :: "string \<Rightarrow> string \<Rightarrow> (string \<times> string) option" where
  "number_after p s =
     (case cut_prefix s p of
        None \<Rightarrow> None
      | Some t \<Rightarrow>
          (let ds = takeWhile is_digit t in if ds = '''' then None else Some (ds, dropWhile is_digit t)))"

text \<open>\<^verbatim>\<open>strconv.Atoi\<close> of digits: a number out of range is the largest, and an error.\<close>

definition atoi_digits :: "string \<Rightarrow> int \<times> bool" where
  "atoi_digits ds = (case parse_int64 ds of Some n \<Rightarrow> (n, True) | None \<Rightarrow> (2 ^ 63 - 1, False))"

definition part_of :: "string \<Rightarrow> int \<times> int \<times> bool" where
  "part_of desc =
     (case after_marker desc of
        None \<Rightarrow> (0, 0, False)
      | Some s \<Rightarrow>
          (case number_after ''Part of #'' s of
             None \<Rightarrow> (0, 0, False)
           | Some (d1, s1) \<Rightarrow>
               (case number_after ''. The rest is #'' s1 of
                  None \<Rightarrow> (0, 0, False)
                | Some (d2, s2) \<Rightarrow>
                    if has_prefix s2 ''.'' \<and> line_ends (tl s2)
                    then (fst (atoi_digits d1), fst (atoi_digits d2),
                      snd (atoi_digits d1) \<and> snd (atoi_digits d2))
                    else (0, 0, False))))"

definition refs_of :: "string \<Rightarrow> int \<times> bool" where
  "refs_of desc =
     (case after_marker desc of
        None \<Rightarrow> (0, False)
      | Some s \<Rightarrow>
          (case number_after ''Refs #'' s of
             None \<Rightarrow> (0, False)
           | Some (d, s1) \<Rightarrow> if line_ends s1 then atoi_digits d else (0, False)))"

subsection \<open>The spec\<close>

definition write_issue :: "review_tracker \<Rightarrow> int \<Rightarrow> string \<Rightarrow> gh_error + string" where
  "write_issue tk n note =
     (case vt_issue tk n of
        Inr is1 \<Rightarrow> Inr (nl @ ''# Issue #'' @ dec (is_number is1) @ '': '' @ is_title is1 @ note @ nl @ nl @
          is_body is1 @ nl)
      | Inl e \<Rightarrow>
          (case gone_status e of
             Some s \<Rightarrow> Inr (nl @ ''# Issue #'' @ dec n @ note @ nl @ nl @
               ''This issue could not be read: '' @ s @ ''.'' @ nl)
           | None \<Rightarrow> Inl e))"

fun write_issues :: "review_tracker \<Rightarrow> (int \<times> string) list \<Rightarrow> gh_error + string" where
  "write_issues tk [] = Inr ''''"
| "write_issues tk ((n, note) # ns) =
     (case write_issue tk n note of
        Inl e \<Rightarrow> Inl e
      | Inr t \<Rightarrow> (case write_issues tk ns of Inl e \<Rightarrow> Inl e | Inr u \<Rightarrow> Inr (t @ u)))"

text \<open>The issues a review is written against, each with its note, in the order they are written.\<close>

definition spec_issues :: "string \<Rightarrow> (int \<times> string) list" where
  "spec_issues body =
     (let (issue, rest, piece) = part_of body;
          pieces = (if piece then [(issue, '' (only partly done: this pull request is its first piece)''),
              (rest, '' (out of scope: filed for the rest of #'' @ dec issue @ '')'')] else []);
          (n, ok) = refs_of body;
          refers = ok \<and> \<not> piece;
          refd = (if refers then [(n, '' (not closed by this pull request: it lists a criterion that needs more than the pull request to meet as not verified)'')] else [])
      in pieces @ refd @ map (\<lambda>m. (m, '''')) (closes body (if refers then n else issue)))"

definition review_spec :: "review_tracker \<Rightarrow> string \<Rightarrow> pull_request \<Rightarrow> gh_error + string" where
  "review_spec tk login pr =
     (let desc = (if equal_fold (pr_login pr) login then strip_footer (strip_sensitive (pr_body pr))
            else pr_body pr);
          start = ''# Pull request #'' @ dec (pr_number pr) @ '': '' @ pr_title pr @ nl @ nl @
            (if trim_space desc = '''' then ''(no description)'' @ nl else desc @ nl)
      in case write_issues tk (spec_issues (pr_body pr)) of
           Inl e \<Rightarrow> Inl e
         | Inr t \<Rightarrow> Inr (start @ t))"

subsection \<open>The send-back a revision answers\<close>

record review_request =
  rq_issue :: int
  rq_reply :: int
  rq_since :: string
  rq_of :: string
  rq_points :: "int list"
  rq_reviews :: "int list"

definition no_request :: review_request where
  "no_request = \<lparr>rq_issue = 0, rq_reply = 0, rq_since = '''', rq_of = '''', rq_points = [], rq_reviews = []\<rparr>"

definition unread_command :: string where
  "unread_command = ''This command could not be read: it is not on the pull request.'' @ nl"

definition comment_point :: "gh_comment list \<Rightarrow> int \<Rightarrow> string" where
  "comment_point comments i =
     nl @ ''## Command, comment '' @ dec i @ nl @ nl @
     (case find (\<lambda>c. cm_id c = i) comments of
        None \<Rightarrow> unread_command
      | Some c \<Rightarrow> trim_space (cm_body c) @ nl)"

definition line_point :: "line_comment \<Rightarrow> string" where
  "line_point l =
     nl @ ''### Line comment on `'' @ lc_path l @ ''`'' @
     (if 0 < lc_line l then '' line '' @ dec (lc_line l) else '''') @ nl @ nl @ trim_space (lc_body l) @ nl"

fun review_points :: "review_tracker \<Rightarrow> int \<Rightarrow> pr_review list \<Rightarrow> int list \<Rightarrow> gh_error + string" where
  "review_points tk n reviews [] = Inr ''''"
| "review_points tk n reviews (i # is1) =
     (let head = nl @ ''## Command, review '' @ dec i @ nl @ nl in
      case (case find (\<lambda>r. rv_id r = i) reviews of
          None \<Rightarrow> Inr (head @ unread_command)
        | Some r \<Rightarrow>
            (case vt_line_comments tk n i of
               Inl e \<Rightarrow> Inl e
             | Inr ls \<Rightarrow> Inr (head @ trim_space (rv_body r) @ nl @ concat (map line_point ls)))) of
        Inl e \<Rightarrow> Inl e
      | Inr t \<Rightarrow>
          (case review_points tk n reviews is1 of Inl e \<Rightarrow> Inl e | Inr u \<Rightarrow> Inr (t @ u)))"

definition sent_back_at :: "review_tracker \<Rightarrow> int \<Rightarrow> gh_comment list \<Rightarrow> string \<Rightarrow> review_request \<Rightarrow> gh_error + string" where
  "sent_back_at tk n comments since a =
     (let start = ''# The send-back the range answers'' @ nl @ nl @
            ''The range is a revision of pull request #'' @ dec n @ '' at `'' @ since @
            ''`, for these commands, verbatim. They are its spec. What follows them - the pull request's description, and the issues it closes - is background: what the pull request as a whole is for.'' @ nl @
            concat (map (comment_point comments) (rq_points a))
      in if rq_reviews a = [] then Inr start
         else (case vt_reviews tk n of
             Inl e \<Rightarrow> Inl e
           | Inr reviews \<Rightarrow>
               (case review_points tk n reviews (rq_reviews a) of
                  Inl e \<Rightarrow> Inl e
                | Inr t \<Rightarrow> Inr (start @ t))))"

subsection \<open>Which issues are linked\<close>

lemma closes_from_new: "n \<in> set (closes_from seen dss) \<Longrightarrow> n \<notin> set seen"
proof (induction dss arbitrary: seen)
  case (Cons d dss)
  then show ?case by (fastforce split: option.splits if_splits)
qed simp

lemma closes_from_distinct: "distinct (closes_from seen dss)"
proof (induction dss arbitrary: seen)
  case (Cons d dss)
  then show ?case using closes_from_new by (fastforce split: option.splits)
qed simp

lemma closes_from_set:
  "set (closes_from seen dss) = {n. \<exists>ds\<in>set dss. parse_int64 ds = Some n} - set seen"
  by (induction dss arbitrary: seen) (auto split: option.splits)

end
