(* ===== verification/Review.thy ===== *)
theory Review
  imports Review_Spec Resolver
begin

text \<open>
  The review job kind, \<^verbatim>\<open>internal/review/review.go\<close>: seven transitions over seven states. What a
  transition reads of the world outside is in its environment (the tracker's answers, the
  candidate models, the checkout, the run of the model); what the kind keeps in the state
  directory between transitions is a record of files, each absent, holding a value, or
  unreadable; the store is the world of \<^verbatim>\<open>Runner\<close>. A transition that would look for a key for
  ever is \<open>None\<close>. What is logged, and the template the prompt is made from, are not modelled: a
  run of the model is given what the template is given.
\<close>

subsection \<open>States and configuration\<close>

definition review_start :: string where "review_start = ''start''"
definition review_claiming :: string where "review_claiming = ''claiming''"
definition review_reviewing :: string where "review_reviewing = ''reviewing''"
definition review_posting :: string where "review_posting = ''posting''"
definition review_verifying :: string where "review_verifying = ''verifying''"
definition review_deferred :: string where "review_deferred = ''deferred''"
definition review_handing_back :: string where "review_handing_back = ''handing-back''"

definition review_word :: string where "review_word = ''/review''"

datatype 'a kept_file = Absent | Kept 'a | Unreadable string

record pending_review =
  pv_head :: string
  pv_body :: string
  pv_from :: int
  pv_spent :: spent

record review_files =
  vf_shelf :: shelf
  vf_pending :: "pending_review kept_file"
  vf_asked :: "review_request kept_file"
  vf_spent :: "spent kept_file"
  vf_note :: "effect_note option"
  vf_write_error :: "string \<Rightarrow> string option"
  vf_remove_error :: "string \<Rightarrow> string option"

text \<open>What a run of the model is given: the prompt's values and the workspace's files.\<close>

record model_run =
  mr_ref :: ref
  mr_number :: int
  mr_head :: string
  mr_since :: string
  mr_floor :: string
  mr_fold_cut :: int
  mr_diff :: string
  mr_whole :: "string option"
  mr_spec :: string

datatype model_outcome = Ran run_reply | RanTransient string run_reply | RanFailed string

record review_env =
  ve_tracker :: review_tracker
  ve_candidates :: "resolve_error + ref list"
  ve_candidates_after :: "resolve_error + ref list"
  ve_prices :: "(ref \<Rightarrow> price) option"
  ve_bound :: int
  ve_rounds :: int
  ve_label :: string
  ve_tier_wait :: int
  ve_floor :: string
  ve_fold_cut :: int
  ve_repo :: string
  ve_login :: string
  ve_float :: float_text
  ve_workspace :: "string option"
  ve_checkout :: "string + string"
  ve_workspace_write :: "string \<Rightarrow> string option"
  ve_root :: "string + (string \<Rightarrow> bool)"
  ve_model :: "model_run \<Rightarrow> model_outcome"
  ve_later :: "owed_item \<Rightarrow> owed_tracker"
  ve_later_post :: owed_tracker
  ve_text :: "owed_error \<Rightarrow> string"
  ve_exhausted :: "exhausted \<Rightarrow> string"

datatype review_error =
    RvOwed owed_error
  | RvTracker gh_error
  | RvStore store_error
  | RvFile string
  | RvIncomplete string
  | RvResolve resolve_error
  | RvWorkspace string
  | RvRun string

type_synonym review_step = "((review_error + result) \<times> review_files \<times> world) option"

definition review_book :: "review_env \<Rightarrow> book" where
  "review_book v = \<lparr>bk_login = ve_login v, bk_rounds = ve_rounds v, bk_dir = ''owed'', bk_reviews = False,
     bk_later = ve_later v, bk_text = ve_text v\<rparr>"

definition review_goes :: "string \<Rightarrow> instant \<Rightarrow> result" where
  "review_goes st now = \<lparr>res_state = st, res_run_at = Some now, res_effects = [], res_exhausted = None\<rparr>"

text \<open>The owed operations, on the kind's own files.\<close>

definition review_owes :: "review_env \<Rightarrow> job \<Rightarrow> instant \<Rightarrow> string \<Rightarrow> owed_record \<Rightarrow> review_files \<Rightarrow> world \<Rightarrow> review_step" where
  "review_owes v j now st r fl w =
     (case owe (review_book v) j now st r (vf_shelf fl) w of
        None \<Rightarrow> None
      | Some (Inl e, sh, w') \<Rightarrow> Some (Inl (RvOwed e), fl\<lparr>vf_shelf := sh\<rparr>, w')
      | Some (Inr res, sh, w') \<Rightarrow> Some (Inr res, fl\<lparr>vf_shelf := sh\<rparr>, w'))"

definition review_settles :: "review_env \<Rightarrow> job \<Rightarrow> instant \<Rightarrow> result \<Rightarrow> review_files \<Rightarrow> world \<Rightarrow>
    (review_error + result) \<times> review_files \<times> world" where
  "review_settles v j now lost fl w =
     (case settle (review_book v) (vt_owed (ve_tracker v)) j now lost (vf_shelf fl) w of
        (Inl e, sh, w') \<Rightarrow> (Inl (RvOwed e), fl\<lparr>vf_shelf := sh\<rparr>, w')
      | (Inr res, sh, w') \<Rightarrow> (Inr res, fl\<lparr>vf_shelf := sh\<rparr>, w'))"

subsection \<open>What a comment says\<close>

definition review_marker :: "string \<Rightarrow> string" where
  "review_marker head = ''<!-- afk:review head='' @ head @ '' -->''"

definition hand_back_marker :: "string \<Rightarrow> string" where
  "hand_back_marker head = ''<!-- afk:review-hand-back head='' @ head @ '' -->''"

definition find_review :: "gh_comment list \<Rightarrow> string \<Rightarrow> string \<Rightarrow> gh_comment option" where
  "find_review cs login head =
     find (\<lambda>c. equal_fold (cm_login c) login \<and> contains (cm_body c) (review_marker head)) cs"

definition reviewed :: "gh_comment list \<Rightarrow> string \<Rightarrow> string \<Rightarrow> bool" where
  "reviewed cs login head \<longleftrightarrow> find_review cs login head \<noteq> None"

definition review_handed_back :: "gh_comment list \<Rightarrow> string \<Rightarrow> string \<Rightarrow> bool" where
  "review_handed_back cs login head \<longleftrightarrow>
     list_ex (\<lambda>c. equal_fold (cm_login c) login \<and> contains (cm_body c) (hand_back_marker head)) cs"

definition short_name :: "string \<Rightarrow> string" where
  "short_name sha = take 12 sha"

definition already_reviewed :: "int \<Rightarrow> string \<Rightarrow> gh_comment \<Rightarrow> owed_item" where
  "already_reviewed n head c = reply_item (''already-comment-'' @ dec (cm_id c)) n c
     (''Already reviewed at `'' @ short_name head @
      ''`; nothing has changed since. Push a new commit and `'' @ review_word @ ''` again for another review.'')"

fun find_implement_marker :: "string \<Rightarrow> int option" where
  "find_implement_marker [] = None"
| "find_implement_marker (x # xs) =
     (case number_after ''<!-- afk:implement issue='' (x # xs) of
        Some (ds, rest) \<Rightarrow>
          if has_prefix rest '' -->'' then Some (fst (atoi_digits ds)) else find_implement_marker xs
      | None \<Rightarrow> find_implement_marker xs)"

definition implemented_for :: "review_env \<Rightarrow> pull_request \<Rightarrow> int" where
  "implemented_for v pr =
     (if \<not> equal_fold (pr_login pr) (ve_login v) then 0
      else (case find_implement_marker (pr_body pr) of None \<Rightarrow> 0 | Some n \<Rightarrow> n))"

definition asked_by_job :: "review_env \<Rightarrow> pull_request \<Rightarrow> review_error + bool" where
  "asked_by_job v pr =
     (if implemented_for v pr = 0 then Inr False
      else (case ot_issue_reactions (vt_owed (ve_tracker v)) (pr_number pr) of
          Inl e \<Rightarrow> Inl (RvTracker e)
        | Inr rs \<Rightarrow> Inr (\<not> claimed rs (ve_login v))))"

fun find_unclaimed :: "review_env \<Rightarrow> string \<Rightarrow> gh_comment list \<Rightarrow> review_error + gh_comment option" where
  "find_unclaimed v marker [] = Inr None"
| "find_unclaimed v marker (c # cs) =
     (if \<not> equal_fold (cm_login c) (ve_login v) \<or> \<not> contains (cm_body c) marker
      then find_unclaimed v marker cs
      else (case ot_reactions (vt_owed (ve_tracker v)) (cm_id c) of
          Inl e \<Rightarrow> Inl (RvTracker e)
        | Inr rs \<Rightarrow> if \<not> claimed rs (ve_login v) then Inr (Some c) else find_unclaimed v marker cs))"

definition zero_comment :: gh_comment where
  "zero_comment = \<lparr>cm_id = 0, cm_body = '''', cm_login = '''', cm_association = '''', cm_created_at = None\<rparr>"

definition asked_by_revision :: "review_env \<Rightarrow> gh_comment list \<Rightarrow> int \<Rightarrow> string \<Rightarrow> review_error + gh_comment" where
  "asked_by_revision v cs n head =
     (case find_unclaimed v (revision_reply_marker n head) cs of
        Inl e \<Rightarrow> Inl e
      | Inr None \<Rightarrow> Inr zero_comment
      | Inr (Some c) \<Rightarrow> Inr c)"

subsection \<open>The kind's files\<close>

definition save_asked :: "review_request \<Rightarrow> review_files \<Rightarrow> review_error option \<times> review_files" where
  "save_asked a fl =
     (case vf_write_error fl ''asked'' of
        Some e \<Rightarrow> (Some (RvFile e), fl) | None \<Rightarrow> (None, fl\<lparr>vf_asked := Kept a\<rparr>))"

definition asked_for :: "review_files \<Rightarrow> review_error + review_request" where
  "asked_for fl =
     (case vf_asked fl of Absent \<Rightarrow> Inr no_request | Kept a \<Rightarrow> Inr a | Unreadable e \<Rightarrow> Inl (RvFile e))"

definition request_since :: "review_request \<Rightarrow> string \<Rightarrow> string" where
  "request_since a head = (if rq_of a \<noteq> head then '''' else rq_since a)"

definition remove_spent :: "review_files \<Rightarrow> review_error option \<times> review_files" where
  "remove_spent fl =
     (case vf_remove_error fl ''spent'' of
        Some e \<Rightarrow> (Some (RvFile e), fl) | None \<Rightarrow> (None, fl\<lparr>vf_spent := Absent\<rparr>))"

definition save_pending :: "pending_review \<Rightarrow> review_files \<Rightarrow> review_error option \<times> review_files" where
  "save_pending p fl =
     (case vf_write_error fl ''replies'' of
        Some e \<Rightarrow> (Some (RvFile e), fl) | None \<Rightarrow> (None, fl\<lparr>vf_pending := Kept p\<rparr>))"

text \<open>\<open>Inr None\<close> is a reply the state directory lost.\<close>

definition load_pending :: "job \<Rightarrow> review_files \<Rightarrow> review_error + pending_review option" where
  "load_pending j fl =
     (case vf_pending fl of
        Absent \<Rightarrow> Inr None
      | Unreadable e \<Rightarrow> Inl (RvFile e)
      | Kept p \<Rightarrow> if pv_head p = '''' \<or> pv_body p = '''' then Inl (RvIncomplete (j_id j)) else Inr (Some p))"

text \<open>The four files in their order; an error stops at the file it is about.\<close>

definition forget_review :: "review_files \<Rightarrow> review_error option \<times> review_files" where
  "forget_review fl =
     (case vf_remove_error fl ''replies'' of
        Some e \<Rightarrow> (Some (RvFile e), fl)
      | None \<Rightarrow>
     (let f1 = fl\<lparr>vf_pending := Absent\<rparr> in
      case vf_remove_error fl ''asked'' of
        Some e \<Rightarrow> (Some (RvFile e), f1)
      | None \<Rightarrow>
     (let f2 = f1\<lparr>vf_asked := Absent\<rparr> in
      case vf_remove_error fl ''spent'' of
        Some e \<Rightarrow> (Some (RvFile e), f2)
      | None \<Rightarrow>
     (let f3 = f2\<lparr>vf_spent := Absent\<rparr> in
      case vf_remove_error fl ''notes'' of
        Some e \<Rightarrow> (Some (RvFile e), f3)
      | None \<Rightarrow> (None, f3\<lparr>vf_note := None\<rparr>)))))"

definition count_spend :: "review_env \<Rightarrow> ref \<Rightarrow> run_reply \<Rightarrow> review_files \<Rightarrow> spent \<times> review_files" where
  "count_spend v r a fl =
     (let s = spend_add (ve_prices v) r a (case vf_spent fl of Kept s \<Rightarrow> s | _ \<Rightarrow> []) in
      (s, if vf_write_error fl ''spent'' = None then fl\<lparr>vf_spent := Kept s\<rparr> else fl))"


subsection \<open>The comment a review is posted as\<close>

definition summary_before :: string where
  "summary_before = ''<summary>Advisory review of <code>''"

definition summary_after :: string where
  "summary_after = ''. Open it after your own reading.</summary>''"

definition review_summary :: "string \<Rightarrow> string \<Rightarrow> string" where
  "review_summary of_what followed = summary_before @ of_what @ ''</code>'' @ followed @ summary_after"

definition asked_text :: "review_env \<Rightarrow> int \<Rightarrow> review_request \<Rightarrow> string" where
  "asked_text v n a =
     (if rq_reply a \<noteq> 0 \<and> ve_repo v \<noteq> ''''
      then '' Asked for by the revise job, once CI was green, with [its reply](https://github.com/'' @ ve_repo v @
        ''/pull/'' @ dec n @ ''#issuecomment-'' @ dec (rq_reply a) @ '').''
      else if rq_reply a \<noteq> 0 then '' Asked for by the revise job, once CI was green, with its reply above.''
      else if rq_issue a \<noteq> 0
      then '' Asked for by the implement job for #'' @ dec (rq_issue a) @ '', once CI was green.''
      else '''')"

definition review_body :: "review_env \<Rightarrow> int \<Rightarrow> string \<Rightarrow> string \<Rightarrow> string \<Rightarrow> review_request \<Rightarrow> spent \<Rightarrow> string" where
  "review_body v n since head txt a s =
     (let f = footer (ve_float v) s;
          of_what = (if since \<noteq> '''' then short_name since @ ''..'' @ short_name head else short_name head)
      in ''<details>'' @ nl @ review_summary of_what '''' @ nl @ nl @ review_marker head @ nl @
         ''This review does not gate or block merging.'' @ asked_text v n a @ nl @ nl @
         trim_space txt @ (if f \<noteq> '''' then nl @ nl @ f else '''') @ nl @ nl @ ''</details>'' @ nl)"

text \<open>The summary line of a posted review: the regular expression at the start of a line.\<close>

definition posted_summary :: "string \<Rightarrow> (string \<times> string) option" where
  "posted_summary s =
     (case cut_prefix s summary_before of
        None \<Rightarrow> None
      | Some t \<Rightarrow>
          (case cut_prefix (dropWhile (\<lambda>c. c \<noteq> CHR ''<'') t) (''</code>'' @ summary_after) of
             None \<Rightarrow> None
           | Some rest \<Rightarrow>
               if rest = '''' \<or> has_prefix rest nl then Some (takeWhile (\<lambda>c. c \<noteq> CHR ''<'') t, rest) else None))"

lemma posted_summary_shorter: "posted_summary s = Some (x, rest) \<Longrightarrow> length rest < length s"
proof -
  assume a: "posted_summary s = Some (x, rest)"
  obtain t where s: "s = summary_before @ t"
    and r: "dropWhile (\<lambda>c. c \<noteq> CHR ''<'') t = (''</code>'' @ summary_after) @ rest"
    using a by (auto simp: posted_summary_def cut_prefix_Some split: option.splits if_splits)
  have "length rest < length (dropWhile (\<lambda>c. c \<noteq> CHR ''<'') t)" unfolding r by simp
  also have "\<dots> \<le> length t" by (rule length_dropWhile_le)
  finally show ?thesis by (simp add: s)
qed

function followed_from :: "bool \<Rightarrow> string \<Rightarrow> string \<Rightarrow> string" where
  "followed_from line_start followed s =
     (case (if line_start then posted_summary s else None) of
        Some (x, rest) \<Rightarrow> review_summary x followed @ followed_from False followed rest
      | None \<Rightarrow> (case s of [] \<Rightarrow> [] | c # cs \<Rightarrow> c # followed_from (c = CHR 0x0A) followed cs))"
  by pat_completeness auto
termination
  by (relation "measure (\<lambda>(l, f, s). length s)") (auto dest: posted_summary_shorter split: if_splits)

declare followed_from.simps [simp del]

definition followed :: "string \<Rightarrow> string \<Rightarrow> string" where
  "followed body after = followed_from True after body"

subsection \<open>Claiming\<close>

definition request_of :: "review_env \<Rightarrow> pull_request \<Rightarrow> bool \<Rightarrow> gh_comment \<Rightarrow> review_request" where
  "request_of v pr asked reply =
     (let a = no_request\<lparr>rq_reply := cm_id reply\<rparr>;
          a = (case revision_read (cm_body reply) of
              None \<Rightarrow> a
            | Some since \<Rightarrow>
                (let (points, reviews) = revision_commands (cm_body reply) in
                 a\<lparr>rq_since := since, rq_of := pr_head_sha pr, rq_points := points, rq_reviews := reviews\<rparr>))
      in if asked then a\<lparr>rq_issue := implemented_for v pr\<rparr> else a)"

definition claim_items :: "gh_comment list \<Rightarrow> bool \<Rightarrow> int \<Rightarrow> gh_comment \<Rightarrow> owed_item list" where
  "claim_items commands asked n reply =
     map claim_comment commands @ (if asked then [claim_pull_request n] else []) @
     (if cm_id reply \<noteq> 0 then [claim_comment (zero_comment\<lparr>cm_id := cm_id reply\<rparr>)] else [])"

definition review_claim :: "review_env \<Rightarrow> job \<Rightarrow> instant \<Rightarrow> review_files \<Rightarrow> world \<Rightarrow> review_step" where
  "review_claim v j now fl w =
     (let n = sub_number (j_subject j); tk = vt_owed (ve_tracker v) in
      case vt_pull_request (ve_tracker v) n of
        Inl e \<Rightarrow> Some (Inl (RvTracker e), fl, w)
      | Inr pr \<Rightarrow>
     (case ot_comments tk n of
        Inl e \<Rightarrow> Some (Inl (RvTracker e), fl, w)
      | Inr comments \<Rightarrow>
     (case unanswered (review_book v) tk comments review_word of
        Inl e \<Rightarrow> Some (Inl (RvOwed e), fl, w)
      | Inr commands \<Rightarrow>
     (case asked_by_job v pr of
        Inl e \<Rightarrow> Some (Inl e, fl, w)
      | Inr asked \<Rightarrow>
     (case asked_by_revision v comments n (pr_head_sha pr) of
        Inl e \<Rightarrow> Some (Inl e, fl, w)
      | Inr reply \<Rightarrow>
     (let items = claim_items commands asked n reply in
      if pr_state pr \<noteq> ''open'' then
        review_owes v j now review_claiming \<lparr>or_next = review_start, or_due = False, or_items = items\<rparr> fl w
      else if reviewed comments (ve_login v) (pr_head_sha pr) then
        review_owes v j now review_claiming \<lparr>or_next = review_start, or_due = False,
          or_items = items @ map (already_reviewed n (pr_head_sha pr)) commands\<rparr> fl w
      else (case (if asked \<or> cm_id reply \<noteq> 0 then save_asked (request_of v pr asked reply) fl
            else (None, fl)) of
          (Some e, f1) \<Rightarrow> Some (Inl e, f1, w)
        | (None, f1) \<Rightarrow>
            (case remove_spent f1 of
               (Some e, f2) \<Rightarrow> Some (Inl e, f2, w)
             | (None, f2) \<Rightarrow>
                 review_owes v j now review_claiming
                   \<lparr>or_next = review_reviewing, or_due = True, or_items = items\<rparr> f2 w))))))))"

definition review_claimed :: "review_env \<Rightarrow> job \<Rightarrow> instant \<Rightarrow> review_files \<Rightarrow> world \<Rightarrow>
    (review_error + result) \<times> review_files \<times> world" where
  "review_claimed v j now fl w = review_settles v j now (review_goes review_start now) fl w"

subsection \<open>Running\<close>

definition post_stem :: "int \<Rightarrow> string \<Rightarrow> string" where
  "post_stem n head = ''review-pr-'' @ dec n @ ''-'' @ head"

text \<open>The diffs written into the checkout: the one the review is of, and beside a revision's delta
  the whole.\<close>

definition review_diffs :: "review_env \<Rightarrow> string \<Rightarrow> string \<Rightarrow> string \<Rightarrow> review_error + string \<times> string option" where
  "review_diffs v bas since head =
     (case vt_compare (ve_tracker v) bas head of
        Inl e \<Rightarrow> Inl (RvTracker e)
      | Inr whole \<Rightarrow>
          if since = '''' then
            (case ve_workspace_write v ''afk-pr.diff'' of Some e \<Rightarrow> Inl (RvWorkspace e) | None \<Rightarrow> Inr (whole, None))
          else
            (case vt_compare (ve_tracker v) since head of
               Inl e \<Rightarrow> Inl (RvTracker e)
             | Inr delta \<Rightarrow>
                 (case ve_workspace_write v ''afk-pr-whole.diff'' of
                    Some e \<Rightarrow> Inl (RvWorkspace e)
                  | None \<Rightarrow>
                      (case ve_workspace_write v ''afk-pr.diff'' of
                         Some e \<Rightarrow> Inl (RvWorkspace e)
                       | None \<Rightarrow> Inr (delta, Some whole)))))"

definition spec_for :: "review_env \<Rightarrow> int \<Rightarrow> gh_comment list \<Rightarrow> string \<Rightarrow> review_request \<Rightarrow> pull_request \<Rightarrow> review_error + string" where
  "spec_for v n comments since a pr =
     (case review_spec (ve_tracker v) (ve_login v) pr of
        Inl e \<Rightarrow> Inl (RvTracker e)
      | Inr spec \<Rightarrow>
          (case (if since = '''' then Inr spec
              else (case sent_back_at (ve_tracker v) n comments since a of
                  Inl e \<Rightarrow> Inl (RvTracker e)
                | Inr sb \<Rightarrow> Inr (sb @ nl @ spec))) of
             Inl e \<Rightarrow> Inl e
           | Inr spec \<Rightarrow>
               (case ve_workspace_write v ''afk-pr-spec.md'' of
                  Some e \<Rightarrow> Inl (RvWorkspace e) | None \<Rightarrow> Inr spec)))"

text \<open>The run of a model that wrote a review: its links made, its spend counted, and the reply
  kept with the round its posts are counted from.\<close>

definition keep_reply :: "review_env \<Rightarrow> job \<Rightarrow> instant \<Rightarrow> ref \<Rightarrow> string \<Rightarrow> string \<Rightarrow> review_request \<Rightarrow>
    run_reply \<Rightarrow> review_files \<Rightarrow> world \<Rightarrow> review_step" where
  "keep_reply v j now r since head a reply fl w =
     (let n = sub_number (j_subject j) in
      case permalinks (ve_root v) (ve_repo v) head (oc_text reply) of
        Inl e \<Rightarrow> Some (Inl (RvWorkspace e), fl, w)
      | Inr txt \<Rightarrow>
          (let (s, f1) = count_spend v r reply fl in
           case next_round (post_stem n head) w of
             None \<Rightarrow> None
           | Some ((i, Some e), w') \<Rightarrow> Some (Inl (RvStore e), f1, w')
           | Some ((i, None), w') \<Rightarrow>
               (case save_pending \<lparr>pv_head = head, pv_body = review_body v n since head txt a s,
                   pv_from = i, pv_spent = s\<rparr> f1 of
                  (Some e, f2) \<Rightarrow> Some (Inl e, f2, w')
                | (None, f2) \<Rightarrow> Some (Inr (review_goes review_posting now), f2, w'))))"

definition review_waits :: "review_env \<Rightarrow> wait \<Rightarrow> result" where
  "review_waits v wt = \<lparr>res_state = review_deferred, res_run_at = wt_until wt, res_effects = [],
     res_exhausted = map_option (ve_exhausted v) (wt_exhausted wt)\<rparr>"

definition run_model :: "review_env \<Rightarrow> job \<Rightarrow> instant \<Rightarrow> ref \<Rightarrow> string \<Rightarrow> string \<Rightarrow> review_request \<Rightarrow>
    string \<times> string option \<Rightarrow> string \<Rightarrow> review_files \<Rightarrow> world \<Rightarrow> review_step" where
  "run_model v j now r since head a written spec fl w =
     (case ve_model v \<lparr>mr_ref = r, mr_number = sub_number (j_subject j), mr_head = head, mr_since = since,
         mr_floor = ve_floor v, mr_fold_cut = ve_fold_cut v, mr_diff = fst written, mr_whole = snd written,
         mr_spec = spec\<rparr> of
        RanTransient e reply \<Rightarrow>
          (let f1 = snd (count_spend v r reply fl);
               wt = failed_model (ve_candidates_after v) (j_stays j) (ve_bound v) now (ve_tier_wait v) e
           in if \<not> is_zero (wt_until wt) then Some (Inr (review_waits v wt), f1, w)
              else Some (Inr (review_goes review_reviewing now), f1, w))
      | RanFailed e \<Rightarrow> Some (Inl (RvRun e), fl, w)
      | Ran reply \<Rightarrow> keep_reply v j now r since head a reply fl w)"

definition review_checked_out :: "review_env \<Rightarrow> job \<Rightarrow> instant \<Rightarrow> ref \<Rightarrow> string \<Rightarrow> review_files \<Rightarrow> world \<Rightarrow> review_step" where
  "review_checked_out v j now r head fl w =
     (let n = sub_number (j_subject j) in
      case ot_comments (vt_owed (ve_tracker v)) n of
        Inl e \<Rightarrow> Some (Inl (RvTracker e), fl, w)
      | Inr comments \<Rightarrow>
     (case asked_by_revision v comments n head of
        Inl e \<Rightarrow> Some (Inl e, fl, w)
      | Inr reply \<Rightarrow>
          if cm_id reply \<noteq> 0 then Some (Inr (review_goes review_start now), fl, w)
          else (case asked_for fl of
              Inl e \<Rightarrow> Some (Inl e, fl, w)
            | Inr a \<Rightarrow>
                (let since = request_since a head in
                 case vt_pull_request (ve_tracker v) n of
                   Inl e \<Rightarrow> Some (Inl (RvTracker e), fl, w)
                 | Inr pr \<Rightarrow>
                     (case review_diffs v (pr_base_sha pr) since head of
                        Inl e \<Rightarrow> Some (Inl e, fl, w)
                      | Inr written \<Rightarrow>
                          (case spec_for v n comments since a pr of
                             Inl e \<Rightarrow> Some (Inl e, fl, w)
                           | Inr spec \<Rightarrow> run_model v j now r since head a written spec fl w))))))"

definition review_run :: "review_env \<Rightarrow> job \<Rightarrow> instant \<Rightarrow> review_files \<Rightarrow> world \<Rightarrow> review_step" where
  "review_run v j now fl w =
     (case choose_model (ve_candidates v) (j_stays j) (ve_bound v) now (ve_tier_wait v) of
        (r, wt, Some e) \<Rightarrow> Some (Inl (RvResolve e), fl, w)
      | (r, wt, None) \<Rightarrow>
          if \<not> is_zero (wt_until wt) then Some (Inr (review_waits v wt), fl, w)
          else (case ve_workspace v of
              Some e \<Rightarrow> Some (Inl (RvWorkspace e), fl, w)
            | None \<Rightarrow>
                (case ve_checkout v of
                   Inl e \<Rightarrow> Some (Inl (RvWorkspace e), fl, w)
                 | Inr head \<Rightarrow> review_checked_out v j now r head fl w)))"

subsection \<open>Posting, verifying, handing back\<close>

text \<open>What performing the post asks of the tracker, the error it ends with, and the note it leaves.\<close>

definition perform_post :: "review_env \<Rightarrow> int \<Rightarrow> pending_review \<Rightarrow> owed_tracker \<Rightarrow> gh_error option \<times> tracker_write list" where
  "perform_post v n p tk =
     (case ot_comments tk n of
        Inl e \<Rightarrow> (Some e, [])
      | Inr cs \<Rightarrow>
          if reviewed cs (ve_login v) (pv_head p) then (None, [])
          else (ot_write tk (Post n (pv_body p)), [Post n (pv_body p)]))"

definition note_post :: "review_env \<Rightarrow> int \<Rightarrow> pending_review \<Rightarrow> owed_tracker \<Rightarrow> review_files \<Rightarrow> string option \<times> review_files" where
  "note_post v n p tk fl =
     (let (err, note) = noting (vf_write_error fl ''notes'' = None) (vf_remove_error fl ''notes'' = None)
            (post_stem n (pv_head p))
            (map_option (\<lambda>e. ve_text v (OwedTracker e)) (fst (perform_post v n p tk))) (vf_note fl)
      in (err, fl\<lparr>vf_note := note\<rparr>))"

definition hand_back_text :: "review_env \<Rightarrow> pending_review \<Rightarrow> int \<Rightarrow> string \<Rightarrow> string" where
  "hand_back_text v p rounds last_error =
     (let e = trim_space last_error; f = footer (ve_float v) (pv_spent p); fence = replicate 4 (CHR 0x60) in
      hand_back_marker (pv_head p) @ nl @ ''I wrote a review of `'' @ short_name (pv_head p) @
      ''`, and posted it '' @ dec rounds @ '' times, but it never appeared on this pull request.'' @ nl @
      (if e \<noteq> '''' then nl @ ''The last error:'' @ nl @ nl @ fence @ nl @ e @ nl @ fence @ nl else '''') @
      nl @ ''Push a new commit and `'' @ review_word @ ''` again for another review.'' @ nl @
      (if f \<noteq> '''' then nl @ f @ nl else ''''))"

definition review_hand_back :: "review_env \<Rightarrow> job \<Rightarrow> instant \<Rightarrow> pending_review \<Rightarrow> int \<Rightarrow> string \<Rightarrow> review_files \<Rightarrow> world \<Rightarrow> review_step" where
  "review_hand_back v j now p rounds last_error fl w =
     (let n = sub_number (j_subject j) in
      review_owes v j now review_handing_back
        \<lparr>or_next = review_start, or_due = False, or_items =
          [said_item (''review-hand-back-pr-'' @ dec n @ ''-'' @ pv_head p) n (hand_back_marker (pv_head p))
             (hand_back_text v p rounds last_error),
           label_item (''review-hand-back-label-pr-'' @ dec n @ ''-'' @ pv_head p) n (ve_label v)]\<rparr> fl w)"

definition review_post :: "review_env \<Rightarrow> job \<Rightarrow> instant \<Rightarrow> review_files \<Rightarrow> world \<Rightarrow> review_step" where
  "review_post v j now fl w =
     (let n = sub_number (j_subject j) in
      case load_pending j fl of
        Inl e \<Rightarrow> Some (Inl e, fl, w)
      | Inr None \<Rightarrow> Some (Inr (review_goes review_reviewing now), fl, w)
      | Inr (Some p) \<Rightarrow>
          (let stem = post_stem n (pv_head p) in
           case effect_round stem (pv_from p) (ve_rounds v) w of
             (Spent s rounds nxt, w') \<Rightarrow> review_hand_back v j now p rounds (noted (vf_note fl) stem) fl w'
           | (RoundError e, w') \<Rightarrow> Some (Inl (RvStore e), fl, w')
           | (RoundKey key, w') \<Rightarrow>
               Some (Inr \<lparr>res_state = review_verifying, res_run_at = Some now,
                 res_effects = [Effect key (Some (\<lambda>d. (fst (note_post v n p (ve_later_post v) fl), d)))],
                 res_exhausted = None\<rparr>, fl, w')))"

definition review_handed_back_step :: "review_env \<Rightarrow> job \<Rightarrow> instant \<Rightarrow> review_files \<Rightarrow> world \<Rightarrow>
    (review_error + result) \<times> review_files \<times> world" where
  "review_handed_back_step v j now fl w =
     (case review_settles v j now
         \<lparr>res_state = review_start, res_run_at = None, res_effects = [], res_exhausted = None\<rparr> fl w of
        (Inl e, f1, w') \<Rightarrow> (Inl e, f1, w')
      | (Inr res, f1, w') \<Rightarrow>
          if res_state res \<noteq> review_start then (Inr res, f1, w')
          else (case forget_review f1 of
              (Some e, f2) \<Rightarrow> (Inl e, f2, w')
            | (None, f2) \<Rightarrow> (Inr res, f2, w')))"

definition review_verify :: "review_env \<Rightarrow> job \<Rightarrow> instant \<Rightarrow> review_files \<Rightarrow> world \<Rightarrow>
    (review_error + result) \<times> review_files \<times> world" where
  "review_verify v j now fl w =
     (case load_pending j fl of
        Inl e \<Rightarrow> (Inl e, fl, w)
      | Inr None \<Rightarrow> (Inr (review_goes review_reviewing now), fl, w)
      | Inr (Some p) \<Rightarrow>
          (case ot_comments (vt_owed (ve_tracker v)) (sub_number (j_subject j)) of
             Inl e \<Rightarrow> (Inl (RvTracker e), fl, w)
           | Inr cs \<Rightarrow>
               if \<not> reviewed cs (ve_login v) (pv_head p) then (Inr (review_goes review_posting now), fl, w)
               else (case forget_review fl of
                   (Some e, f1) \<Rightarrow> (Inl e, f1, w)
                 | (None, f1) \<Rightarrow> (Inr \<lparr>res_state = review_start, res_run_at = None, res_effects = [],
                     res_exhausted = None\<rparr>, f1, w))))"

definition review_resume :: "instant \<Rightarrow> result" where
  "review_resume now = review_goes review_reviewing now"

subsection \<open>The kind's transitions\<close>

definition review_step_of :: "review_env \<Rightarrow> job \<Rightarrow> instant \<Rightarrow> review_files \<Rightarrow> world \<Rightarrow> review_step" where
  "review_step_of v j now fl w =
     (let st = j_state j in
      if st = review_start then review_claim v j now fl w
      else if st = review_claiming then Some (review_claimed v j now fl w)
      else if st = review_reviewing then review_run v j now fl w
      else if st = review_posting then review_post v j now fl w
      else if st = review_verifying then Some (review_verify v j now fl w)
      else if st = review_deferred then Some (Inr (review_resume now), fl, w)
      else if st = review_handing_back then Some (review_handed_back_step v j now fl w)
      else None)"

text \<open>As registry entries, deciding in a fixed environment.\<close>

definition review_decides :: "(review_error \<Rightarrow> string) \<Rightarrow> review_env \<Rightarrow> review_files \<Rightarrow> world \<Rightarrow> job \<Rightarrow> instant \<Rightarrow> decided" where
  "review_decides txt v fl w j now =
     (case review_step_of v j now fl w of
        None \<Rightarrow> Panicked ''no transition''
      | Some (Inl e, _, _) \<Rightarrow> DecideError (txt e)
      | Some (Inr r, _, _) \<Rightarrow> Decided r)"

definition review_transitions :: "(review_error \<Rightarrow> string) \<Rightarrow> review_env \<Rightarrow> review_files \<Rightarrow> world \<Rightarrow> transition list" where
  "review_transitions txt v fl w =
     map (\<lambda>(name, st). \<lparr>t_name = name, t_kind = KindReview, t_from = st, t_tokens = [],
         t_run = Some (review_decides txt v fl w)\<rparr>)
       [(''review'', review_start), (''review-claimed'', review_claiming), (''review-run'', review_reviewing),
        (''review-post'', review_posting), (''review-verify'', review_verifying),
        (''review-resume'', review_deferred), (''review-handed-back'', review_handing_back)]"

end
