(* ===== verification/Work_Steps.thy ===== *)
theory Work_Steps
  imports Rounds GitHub_Client
begin

text \<open>
  The steps a delivery is made of, \<^verbatim>\<open>internal/work/{progress,gate,ci,push}.go\<close>: a job's progress,
  the local gate and its attempts, the watch on CI and its fixes, and a push read back from the
  remote. What git, the gate's process and the tracker answer is an argument; \<open>Inl\<close> is an
  error. The log of catches is left out.
\<close>

type_synonym 'a io = "string + 'a"

subsection \<open>Progress\<close>

record progress =
  pg_nonce :: string
  pg_branch :: string
  pg_base :: string
  pg_into :: string
  pg_head :: string
  pg_pushed :: string
  pg_pushed_at :: instant
  pg_session :: string
  pg_last_input :: int
  pg_attempts :: int
  pg_failure :: string
  pg_why :: string
  pg_fixes :: int
  pg_fixed_head :: string

definition progress_complete :: "progress \<Rightarrow> bool" where
  "progress_complete p \<longleftrightarrow>
     pg_nonce p \<noteq> '''' \<and> pg_branch p \<noteq> '''' \<and> pg_base p \<noteq> '''' \<and> pg_into p \<noteq> ''''"

definition git_short :: "string \<Rightarrow> string" where
  "git_short sha = (if 12 < length sha then take 12 sha else sha)"

definition tick :: "string \<Rightarrow> string" where
  "tick s = ''`'' @ s @ ''`''"

definition quoted_paths :: "string list \<Rightarrow> string" where
  "quoted_paths ps = join (map tick ps) '', ''"

definition gate_tail :: nat where
  "gate_tail = 65536"

definition tail_of :: "string \<Rightarrow> nat \<Rightarrow> string" where
  "tail_of s n = (if n < length s then drop (length s - n) s else s)"

subsection \<open>The local gate\<close>

datatype gate_state =
    GatePassed | GateLost | GateSwitched | GateEmpty | GateDirty | GateFailed | GateExhausted

record gate_result =
  gr_state :: gate_state
  gr_branch :: string
  gr_output :: string
  gr_attempts :: int

definition gate_of :: "gate_state \<Rightarrow> gate_result" where
  "gate_of s = \<lparr>gr_state = s, gr_branch = '''', gr_output = '''', gr_attempts = 0\<rparr>"

text \<open>How the gate's process ended: its exit and output, or an error that is not the work's.\<close>

datatype process_end = ExitZero string | ExitNonZero string | NotRun string

definition run_gate :: "process_end \<Rightarrow> (bool \<times> string) io" where
  "run_gate e =
     (case e of ExitZero out \<Rightarrow> Inr (True, '''')
      | ExitNonZero out \<Rightarrow> Inr (False, tail_of out gate_tail)
      | NotRun err \<Rightarrow> Inl err)"

record workspace =
  ws_exists :: bool
  ws_branch :: "string io"
  ws_commits :: "string \<Rightarrow> int io"
  ws_uncommitted :: "string io"
  ws_clean :: "unit io"
  ws_gate :: process_end

definition count_failure :: "progress \<Rightarrow> int \<Rightarrow> gate_result io \<times> progress" where
  "count_failure p attempts =
     (let p = p\<lparr>pg_attempts := pg_attempts p + 1\<rparr> in
      (Inr \<lparr>gr_state = (if attempts \<le> pg_attempts p then GateExhausted else GateFailed),
            gr_branch = '''', gr_output = pg_failure p, gr_attempts = pg_attempts p\<rparr>, p))"

definition since_commit :: "progress \<Rightarrow> string" where
  "since_commit p = (if pg_pushed p \<noteq> '''' then pg_pushed p else pg_base p)"

definition dirty_why :: "string \<Rightarrow> string" where
  "dirty_why command = ''The local gate, '' @ tick command @
     '', was not run: the session left changes to tracked files uncommitted, and the gate reads commits.''"

definition dirty_failure :: "string \<Rightarrow> string" where
  "dirty_failure dirty =
     ''git status --porcelain --untracked-files=no:'' @ [CHR 0x0A] @ dirty @ [CHR 0x0A]"

definition gate_why :: "string \<Rightarrow> string" where
  "gate_why command =
     ''The local gate, '' @ tick command @ '', failed on the work: it exited non-zero.''"

definition check_gate :: "workspace \<Rightarrow> progress \<Rightarrow> string \<Rightarrow> int \<Rightarrow> gate_result io \<times> progress" where
  "check_gate ws p command attempts =
     (if \<not> ws_exists ws then (Inr (gate_of GateLost), p)
      else (case ws_branch ws of
        Inl e \<Rightarrow> (Inl e, p)
      | Inr branch \<Rightarrow>
          if branch \<noteq> pg_branch p then (Inr ((gate_of GateSwitched)\<lparr>gr_branch := branch\<rparr>), p)
          else (case ws_commits ws (since_commit p) of
            Inl e \<Rightarrow> (Inl e, p)
          | Inr made \<Rightarrow>
              if made = 0 then (Inr (gate_of GateEmpty), p)
              else (case ws_uncommitted ws of
                Inl e \<Rightarrow> (Inl e, p)
              | Inr dirty \<Rightarrow>
                  if dirty \<noteq> '''' then
                    count_failure
                      (p\<lparr>pg_why := dirty_why command, pg_failure := dirty_failure dirty\<rparr>)
                      attempts
                  else (case ws_clean ws of
                    Inl e \<Rightarrow> (Inl e, p)
                  | Inr _ \<Rightarrow>
                      (case run_gate (ws_gate ws) of
                         Inl e \<Rightarrow> (Inl e, p)
                       | Inr (True, _) \<Rightarrow>
                           (let p = p\<lparr>pg_failure := '''', pg_why := ''''\<rparr>
                            in (Inr ((gate_of GatePassed)\<lparr>gr_attempts := pg_attempts p\<rparr>), p))
                       | Inr (False, output) \<Rightarrow>
                           count_failure
                             (p\<lparr>pg_why := gate_why command, pg_failure := output\<rparr>)
                             attempts))))))"

subsection \<open>The watch on CI\<close>

definition passing :: "string \<Rightarrow> bool" where
  "passing c \<longleftrightarrow> c \<in> {''success'', ''neutral'', ''skipped''}"

definition approval :: string where
  "approval = ''action_required''"

record ci =
  ci_wait :: int
  ci_ceiling :: int
  ci_fixes :: int
  ci_duration :: "int \<Rightarrow> string"

datatype ci_state = CIPending | CIGreen | CIRed | CIHandBack

record ci_result =
  cx_state :: ci_state
  cx_run_at :: gotime
  cx_reason :: string
  cx_output :: string
  cx_moved :: bool

definition ci_of :: "ci_state \<Rightarrow> ci_result" where
  "ci_of s = \<lparr>cx_state = s, cx_run_at = None, cx_reason = '''', cx_output = '''', cx_moved = False\<rparr>"

definition absent :: "string list \<Rightarrow> check_run list \<Rightarrow> string list" where
  "absent required runs = filter (\<lambda>name. name \<notin> set (map cr_name runs)) required"

definition run_names :: "check_run list \<Rightarrow> string" where
  "run_names runs = quoted_paths (map cr_name runs)"

definition run_output :: "check_run \<Rightarrow> string" where
  "run_output r =
     (let n = [CHR 0x0A] in
      ''## '' @ cr_name r @ '': '' @ cr_conclusion r @ n @
      (if cr_url r = '''' then '''' else cr_url r @ n) @
      concat (map (\<lambda>part. if trim_space part = '''' then '''' else n @ trim_space part @ n)
                [cr_title r, cr_summary r, cr_text r]) @ n)"

definition ci_output :: "check_run list \<Rightarrow> string" where
  "ci_output failed = tail_of (concat (map run_output failed)) gate_tail"

text \<open>What one pass over the runs collects: those failed, those of them waiting for an approval,
  and whether every run has finished.\<close>

fun read_runs :: "check_run list \<Rightarrow> check_run list \<times> check_run list \<times> bool" where
  "read_runs [] = ([], [], True)"
| "read_runs (r # rs) =
     (let (failed, waiting, finished) = read_runs rs in
      if cr_status r \<noteq> ''completed'' then (failed, waiting, False)
      else if cr_conclusion r = approval then (r # failed, r # waiting, finished)
      else if \<not> passing (cr_conclusion r) then (r # failed, waiting, finished)
      else (failed, waiting, finished))"

definition moved_reason :: "progress \<Rightarrow> string \<Rightarrow> string" where
  "moved_reason p head =
     ''Someone else pushed to '' @ tick (pg_branch p) @ '' while CI ran: it is at '' @
     tick (git_short head) @ '', not at '' @ tick (git_short (pg_pushed p)) @
     '' where the agent left it, and the agent does not push over anyone else's work.''"

definition late_reason :: "ci \<Rightarrow> progress \<Rightarrow> string list \<Rightarrow> check_run list \<Rightarrow> string" where
  "late_reason c p missing failed =
     ''CI had not finished on '' @ tick (git_short (pg_pushed p)) @ '' '' @
     ci_duration c (ci_ceiling c) @ '' after the push.'' @
     (if missing = [] then '''' else '' '' @ quoted_paths missing @ '', required on '' @
        tick (pg_into p) @ '', had not started.'') @
     (if failed = [] then '''' else '' By then '' @ run_names failed @ '' had failed.'')"

definition approval_reason :: "check_run list \<Rightarrow> string" where
  "approval_reason waiting =
     ''CI is waiting for approval to run '' @ run_names waiting @ '', which a fix cannot give.''"

definition fixes_reason :: "ci \<Rightarrow> string" where
  "fixes_reason c = ''CI still failed after '' @ dec (ci_fixes c) @ '' fixes.''"

definition red_why :: "progress \<Rightarrow> check_run list \<Rightarrow> string" where
  "red_why p failed = ''CI failed on '' @ tick (git_short (pg_pushed p)) @
     '', the head the agent pushed: '' @ run_names failed @ ''.''"

definition ci_hand_back :: "string \<Rightarrow> string \<Rightarrow> ci_result" where
  "ci_hand_back reason output = (ci_of CIHandBack)\<lparr>cx_reason := reason, cx_output := output\<rparr>"

text \<open>Once for each head: a replay of a red head counts nothing.\<close>

definition count_fix :: "progress \<Rightarrow> progress" where
  "count_fix p =
     (if pg_fixed_head p \<noteq> pg_pushed p
      then p\<lparr>pg_fixes := pg_fixes p + 1, pg_fixed_head := pg_pushed p\<rparr> else p)"

definition watch_runs :: "ci \<Rightarrow> check_run list \<Rightarrow> string list \<Rightarrow> instant \<Rightarrow> progress \<Rightarrow> ci_result \<times> progress" where
  "watch_runs c runs required now p =
     (let missing = absent required runs;
          (failed, waiting, completed) = read_runs runs;
          finished = (runs \<noteq> [] \<and> completed \<and> \<not> (failed = [] \<and> missing \<noteq> []));
          output = ci_output failed
      in if \<not> finished then
           if \<not> now < pg_pushed_at p + ci_ceiling c
           then (ci_hand_back (late_reason c p missing failed) output, p)
           else ((ci_of CIPending)\<lparr>cx_run_at := Some (now + ci_wait c)\<rparr>, p)
         else if failed = [] then (ci_of CIGreen, p)
         else if waiting \<noteq> [] then (ci_hand_back (approval_reason waiting) output, p)
         else
           let p = count_fix p in
           if ci_fixes c < pg_fixes p then (ci_hand_back (fixes_reason c) output, p)
           else (ci_of CIRed, p\<lparr>pg_attempts := 0, pg_failure := output, pg_why := red_why p failed\<rparr>))"

definition watch ::
    "ci \<Rightarrow> string io \<Rightarrow> check_run list io \<Rightarrow> string list io \<Rightarrow> instant \<Rightarrow> progress \<Rightarrow> ci_result io \<times> progress" where
  "watch c remote check_runs required_checks now p =
     (case remote of
        Inl e \<Rightarrow> (Inl e, p)
      | Inr head \<Rightarrow>
          if head \<noteq> pg_pushed p
          then (Inr ((ci_hand_back (moved_reason p head) '''')\<lparr>cx_moved := True\<rparr>), p)
          else (case check_runs of
            Inl e \<Rightarrow> (Inl e, p)
          | Inr runs \<Rightarrow> (case required_checks of
              Inl e \<Rightarrow> (Inl e, p)
            | Inr required \<Rightarrow>
                (let (x, p) = watch_runs c runs required now p in (Inr x, p)))))"

subsection \<open>Pushing\<close>

definition push_stem :: "string \<Rightarrow> string \<Rightarrow> string" where
  "push_stem branch head = ''push-'' @ branch @ ''-'' @ head"

datatype landing = NotLanded | Landed | Moved

definition land :: "string io \<Rightarrow> instant \<Rightarrow> progress \<Rightarrow> (landing \<times> string) io \<times> progress" where
  "land remote now p =
     (case remote of
        Inl e \<Rightarrow> (Inl e, p)
      | Inr at_head \<Rightarrow>
          if at_head = pg_head p then
            (Inr (Landed, at_head),
             if pg_pushed p \<noteq> at_head then p\<lparr>pg_pushed := at_head, pg_pushed_at := now\<rparr> else p)
          else if at_head = pg_pushed p then (Inr (NotLanded, at_head), p)
          else (Inr (Moved, at_head), p))"

definition push_from :: "string \<Rightarrow> string \<Rightarrow> world \<Rightarrow> ((int \<times> store_error option) \<times> world) option" where
  "push_from branch head w = next_round (push_stem branch head) w"

subsection \<open>The gate's attempts\<close>

lemma count_failure_simps [simp]:
  "fst (count_failure p n) = Inr \<lparr>gr_state = (if n \<le> pg_attempts p + 1 then GateExhausted else GateFailed),
      gr_branch = '''', gr_output = pg_failure p, gr_attempts = pg_attempts p + 1\<rparr>"
  "snd (count_failure p n) = p\<lparr>pg_attempts := pg_attempts p + 1\<rparr>"
  by (simp_all add: count_failure_def Let_def)

text \<open>The work the gate may pass: on its branch, with commits of its own, all of them committed.\<close>

definition gateable :: "workspace \<Rightarrow> progress \<Rightarrow> bool" where
  "gateable ws p \<longleftrightarrow> ws_exists ws \<and> ws_branch ws = Inr (pg_branch p) \<and>
     (\<exists>n. ws_commits ws (since_commit p) = Inr n \<and> n \<noteq> 0) \<and> ws_uncommitted ws = Inr ''''"

text \<open>The gate passes exactly the committed work it ran on and exited zero for: on the job's
  branch, with a commit on top of the agent's last push, nothing left uncommitted. Every other
  reading of the work counts one attempt and keeps what failed, and a retry is offered only
  while attempts are left, so a job fails the gate fewer times than its bound before it is
  handed back; the branch, the push and the fixes are never the gate's to change.\<close>

theorem gate_reads_commits:
  assumes "check_gate ws p command attempts = (Inr r, p')"
  shows "(gr_state r = GatePassed \<longleftrightarrow>
      gateable ws p \<and> ws_clean ws = Inr () \<and> (\<exists>out. ws_gate ws = ExitZero out)) \<and>
    (gr_state r = GatePassed \<longrightarrow> p' = p\<lparr>pg_failure := '''', pg_why := ''''\<rparr>) \<and>
    (gr_state r \<in> {GateFailed, GateExhausted} \<longrightarrow>
       pg_attempts p' = pg_attempts p + 1 \<and> gr_output r = pg_failure p' \<and>
       (gr_state r = GateFailed \<longleftrightarrow> pg_attempts p' < attempts)) \<and>
    (gr_state r \<in> {GateLost, GateSwitched, GateEmpty} \<longrightarrow> p' = p) \<and>
    gr_state r \<noteq> GateDirty \<and>
    pg_branch p' = pg_branch p \<and> pg_pushed p' = pg_pushed p \<and> pg_fixes p' = pg_fixes p"
proof -
  note defs = check_gate_def gate_of_def gateable_def run_gate_def count_failure_def Let_def
  show ?thesis
  proof (cases "ws_exists ws \<and> (\<exists>b. ws_branch ws = Inr b)")
    case False
    with assms show ?thesis by (auto simp: defs split: sum.splits if_splits)
  next
    case True
    then obtain b where b: "ws_exists ws" "ws_branch ws = Inr b" by blast
    show ?thesis
    proof (cases "b = pg_branch p \<and> (\<exists>n. ws_commits ws (since_commit p) = Inr n \<and> n \<noteq> 0)")
      case False
      with b assms show ?thesis by (auto simp: defs split: sum.splits if_splits)
    next
      case True
      then obtain n where n: "b = pg_branch p" "ws_commits ws (since_commit p) = Inr n" "n \<noteq> 0" by blast
      show ?thesis
      proof (cases "ws_uncommitted ws")
        case (Inl e)
        with b n assms show ?thesis by (simp add: defs)
      next
        case dirty: (Inr d)
        show ?thesis
        proof (cases "d = ''''")
          case False
          with b n dirty assms show ?thesis by (auto simp: defs split: if_splits)
        next
          case clean: True
          show ?thesis
          proof (cases "ws_clean ws")
            case (Inl e)
            with b n dirty clean assms show ?thesis by (simp add: defs)
          next
            case (Inr u)
            with b n dirty clean assms show ?thesis by (cases "ws_gate ws") (auto simp: defs split: if_splits)
          qed
        qed
      qed
    qed
  qed
qed

definition example_progress :: progress where
  "example_progress = \<lparr>pg_nonce = ''n'', pg_branch = ''afk/7'', pg_base = ''b0'', pg_into = ''main'',
     pg_head = ''h1'', pg_pushed = ''h1'', pg_pushed_at = 1000, pg_session = '''', pg_last_input = 0,
     pg_attempts = 1, pg_failure = '''', pg_why = '''', pg_fixes = 0, pg_fixed_head = ''''\<rparr>"

definition example_workspace :: workspace where
  "example_workspace = \<lparr>ws_exists = True, ws_branch = Inr ''afk/7'', ws_commits = (\<lambda>_. Inr 2),
     ws_uncommitted = Inr '''', ws_clean = Inr (), ws_gate = ExitNonZero ''FAIL''\<rparr>"

theorem gate_reads_commits_witness:
  "\<exists>r p'. check_gate example_workspace example_progress ''make'' 3 = (Inr r, p') \<and>
     gr_state r = GateFailed \<and> pg_attempts p' < 3"
proof -
  obtain r p' where r: "check_gate example_workspace example_progress ''make'' 3 = (Inr r, p')"
    and s: "gr_state r = GateFailed"
    by (simp add: check_gate_def example_workspace_def example_progress_def count_failure_def
        run_gate_def Let_def)
  from gate_reads_commits [OF r] r s show ?thesis by blast
qed

subsection \<open>What the watch decides\<close>

definition all_finished :: "check_run list \<Rightarrow> bool" where
  "all_finished runs \<longleftrightarrow> runs \<noteq> [] \<and> (\<forall>r\<in>set runs. cr_status r = ''completed'')"

definition failed_run :: "check_run \<Rightarrow> bool" where
  "failed_run r \<longleftrightarrow> cr_status r = ''completed'' \<and> \<not> passing (cr_conclusion r)"

lemma approval_fails: "\<not> passing approval"
  by (simp add: passing_def approval_def)

lemma read_runs_eq:
  "read_runs runs = (filter failed_run runs,
     filter (\<lambda>r. cr_status r = ''completed'' \<and> cr_conclusion r = approval) runs,
     \<forall>r\<in>set runs. cr_status r = ''completed'')"
  by (induction runs) (auto simp: failed_run_def approval_fails)

text \<open>The specification of the watch's four answers, on the head the agent pushed.\<close>

definition ci_green :: "check_run list \<Rightarrow> string list \<Rightarrow> bool" where
  "ci_green runs required \<longleftrightarrow> all_finished runs \<and> (\<forall>r\<in>set runs. \<not> failed_run r) \<and>
     set required \<subseteq> cr_name ` set runs"

definition ci_failed :: "check_run list \<Rightarrow> bool" where
  "ci_failed runs \<longleftrightarrow> all_finished runs \<and> (\<exists>r\<in>set runs. failed_run r)"

lemma absent_Nil: "absent required runs = [] \<longleftrightarrow> set required \<subseteq> cr_name ` set runs"
  by (auto simp: absent_def filter_empty_conv)

text \<open>C26: CI decides correctness and only on the agent's own head: the head is green exactly when
  every run on it has finished and passed and every check its base branch requires is among
  them; a branch not where the agent left it is handed back untouched; a red head goes back
  to the session only when every run has finished, one failed, none waits for an approval and
  fixes are left; and a head still unfinished is looked at again after the wait, until the
  ceiling after its push.\<close>

theorem watch_reads_ci:
  assumes "watch c (Inr head) (Inr runs) (Inr required) now p = (Inr x, p')"
  shows "(cx_moved x \<longleftrightarrow> head \<noteq> pg_pushed p) \<and>
    (cx_state x = CIGreen \<longleftrightarrow> head = pg_pushed p \<and> ci_green runs required) \<and>
    (cx_state x = CIRed \<longrightarrow> head = pg_pushed p \<and> ci_failed runs \<and>
       (\<forall>r\<in>set runs. cr_conclusion r \<noteq> approval) \<and>
       pg_fixes p' \<le> ci_fixes c \<and> pg_fixed_head p' = pg_pushed p \<and> pg_attempts p' = 0) \<and>
    (cx_state x = CIPending \<longrightarrow> head = pg_pushed p \<and> now < pg_pushed_at p + ci_ceiling c \<and>
       cx_run_at x = Some (now + ci_wait c) \<and> \<not> ci_failed runs \<and> \<not> ci_green runs required \<and> p' = p) \<and>
    (cx_state x = CIHandBack \<longrightarrow> head \<noteq> pg_pushed p \<or> ci_failed runs \<or>
       pg_pushed_at p + ci_ceiling c \<le> now) \<and>
    pg_pushed p' = pg_pushed p \<and> pg_branch p' = pg_branch p"
proof (cases "head = pg_pushed p")
  case False
  with assms show ?thesis by (auto simp: watch_def ci_hand_back_def ci_of_def)
next
  case here: True
  define finished where "finished \<longleftrightarrow> runs \<noteq> [] \<and> (\<forall>r\<in>set runs. cr_status r = ''completed'') \<and>
      \<not> (filter failed_run runs = [] \<and> absent required runs \<noteq> [])"
  let ?waiting = "filter (\<lambda>r. cr_status r = ''completed'' \<and> cr_conclusion r = approval) runs"
  have green: "ci_green runs required \<longleftrightarrow> finished \<and> filter failed_run runs = []"
    by (auto simp: ci_green_def all_finished_def finished_def absent_Nil filter_empty_conv)
  have red: "ci_failed runs \<longleftrightarrow> finished \<and> filter failed_run runs \<noteq> []"
    by (auto simp: ci_failed_def all_finished_def finished_def filter_empty_conv)
  have wait: "finished \<Longrightarrow> ?waiting = [] \<longleftrightarrow> (\<forall>r\<in>set runs. cr_conclusion r \<noteq> approval)"
    by (auto simp: filter_empty_conv finished_def)
  have w: "(x, p') = watch_runs c runs required now p"
    using assms here by (simp add: watch_def case_prod_beta prod_eq_iff)
  have "watch_runs c runs required now p =
      (if \<not> finished then
         if \<not> now < pg_pushed_at p + ci_ceiling c
         then (ci_hand_back (late_reason c p (absent required runs) (filter failed_run runs))
                 (ci_output (filter failed_run runs)), p)
         else ((ci_of CIPending)\<lparr>cx_run_at := Some (now + ci_wait c)\<rparr>, p)
       else if filter failed_run runs = [] then (ci_of CIGreen, p)
       else if ?waiting \<noteq> [] then
         (ci_hand_back (approval_reason ?waiting) (ci_output (filter failed_run runs)), p)
       else if ci_fixes c < pg_fixes (count_fix p)
       then (ci_hand_back (fixes_reason c) (ci_output (filter failed_run runs)), count_fix p)
       else (ci_of CIRed, (count_fix p)\<lparr>pg_attempts := 0, pg_failure := ci_output (filter failed_run runs),
               pg_why := red_why (count_fix p) (filter failed_run runs)\<rparr>))"
    unfolding watch_runs_def read_runs_eq Let_def prod.case finished_def by (rule refl)
  note eq = w [unfolded this]
  have cnt: "pg_fixed_head (count_fix p) = pg_pushed p" "pg_pushed (count_fix p) = pg_pushed p"
    "pg_branch (count_fix p) = pg_branch p" by (simp_all add: count_fix_def)
  show ?thesis
    using eq green red wait cnt here
    by (simp add: ci_hand_back_def ci_of_def split: if_splits)
qed

definition example_ci :: ci where
  "example_ci = \<lparr>ci_wait = 60, ci_ceiling = 600, ci_fixes = 2, ci_duration = (\<lambda>_. ''10m0s'')\<rparr>"

definition example_run :: "string \<Rightarrow> string \<Rightarrow> check_run" where
  "example_run name conclusion = \<lparr>cr_name = name, cr_status = ''completed'', cr_conclusion = conclusion,
     cr_url = '''', cr_title = '''', cr_summary = '''', cr_text = ''''\<rparr>"

lemma example_red:
  "fst (watch example_ci (Inr ''h1'') (Inr [example_run ''build'' ''success'', example_run ''test'' ''failure''])
     (Inr [''build'']) 1100 example_progress) = Inr (ci_of CIRed)"
  by (simp add: watch_def watch_runs_def example_progress_def example_run_def passing_def approval_def
      count_fix_def example_ci_def)

theorem watch_reads_ci_witness:
  "pg_fixes (snd (watch example_ci (Inr ''h1'')
     (Inr [example_run ''build'' ''success'', example_run ''test'' ''failure''])
     (Inr [''build'']) 1100 example_progress)) \<le> 2"
proof -
  let ?w = "watch example_ci (Inr ''h1'')
     (Inr [example_run ''build'' ''success'', example_run ''test'' ''failure''])
     (Inr [''build'']) 1100 example_progress"
  have "?w = (Inr (ci_of CIRed), snd ?w)" using example_red by (simp add: prod_eq_iff)
  moreover have "cx_state (ci_of CIRed) = CIRed" by (simp add: ci_of_def)
  ultimately have "pg_fixes (snd ?w) \<le> ci_fixes example_ci" using watch_reads_ci by blast
  moreover have "ci_fixes example_ci = 2" by (simp add: example_ci_def)
  ultimately show ?thesis by simp
qed

text \<open>A red head is counted once however often the decision about it is replayed: run again on the
  progress it saved, with the same answers and at any later time, the watch decides the same
  and changes nothing, so a decision whose commit was lost spends no fix.\<close>

theorem red_head_counted_once:
  assumes "watch c (Inr head) (Inr runs) (Inr required) now p = (Inr x, p')"
    and "cx_state x = CIRed"
  shows "watch c (Inr head) (Inr runs) (Inr required) now' p' = (Inr x, p')"
proof -
  have here: "head = pg_pushed p"
    using assms by (auto simp: watch_def ci_hand_back_def ci_of_def split: if_splits)
  with assms have w: "watch_runs c runs required now p = (x, p')"
    by (simp add: watch_def case_prod_beta prod_eq_iff)
  obtain failed waiting completed where rr: "read_runs runs = (failed, waiting, completed)"
    by (cases "read_runs runs")
  from w assms(2) have p': "p' = (count_fix p)\<lparr>pg_attempts := 0, pg_failure := ci_output failed,
      pg_why := red_why (count_fix p) failed\<rparr>" and x: "x = ci_of CIRed"
    and fin: "runs \<noteq> []" "completed" "failed \<noteq> []" "waiting = []"
    and left: "\<not> ci_fixes c < pg_fixes (count_fix p)"
    by (auto simp: watch_runs_def rr Let_def ci_hand_back_def ci_of_def split: if_splits)
  have same: "count_fix p' = p'" "pg_pushed p' = pg_pushed p"
    by (simp_all add: p' count_fix_def)
  have "red_why p' failed = red_why (count_fix p) failed"
    by (simp add: red_why_def p' count_fix_def)
  then have "watch_runs c runs required now' p' = (x, p')"
    using fin left same x by (simp add: watch_runs_def rr Let_def) (simp add: p')
  then show ?thesis using here same by (simp add: watch_def)
qed

theorem red_head_counted_once_witness:
  "pg_fixes (snd (watch example_ci (Inr ''h1'') (Inr [example_run ''test'' ''failure'']) (Inr []) 1300
     (snd (watch example_ci (Inr ''h1'') (Inr [example_run ''test'' ''failure'']) (Inr []) 1100
        example_progress)))) = 1"
proof -
  let ?w = "watch example_ci (Inr ''h1'') (Inr [example_run ''test'' ''failure'']) (Inr []) 1100 example_progress"
  have st: "fst ?w = Inr (ci_of CIRed)" and fx: "pg_fixes (snd ?w) = 1"
    by (simp_all add: watch_def watch_runs_def example_progress_def example_run_def passing_def
        approval_def count_fix_def example_ci_def)
  have "?w = (Inr (ci_of CIRed), snd ?w)" using st by (simp add: prod_eq_iff)
  from red_head_counted_once [OF this, of 1300] fx show ?thesis by (simp add: ci_of_def)
qed

text \<open>
  A workspace with uncommitted changes is counted as a failed attempt: the state that names it
  is never the gate's answer.
\<close>

theorem dirty_is_a_failed_attempt:
  assumes "gr_state r = GateDirty"
  shows "check_gate ws p command attempts \<noteq> (Inr r, p')"
  using assms
  by (auto simp: check_gate_def gate_of_def count_failure_def run_gate_def Let_def
      split: sum.splits if_splits process_end.splits bool.splits)

end
