(* ===== verification/Handoff.thy ===== *)
theory Handoff
  imports Review Work_Steps
begin

text \<open>
  How a kind that hands a pull request off ends, \<^verbatim>\<open>internal/handoff/handoff.go\<close>: the review of
  the pushed head asked for and waited for (\<open>await_review\<close>), the branch still where the agent
  left it (\<open>kept_pushed\<close>), and the hand-off label applied until it is read back (\<open>hand_off\<close>).
  What the remote and the tracker answer is in the deps, with what they will answer once an
  effect is performed; the store is the world of \<^verbatim>\<open>Runner\<close>. Performing the ask arms the review
  job in the database it is performed on, so whether an ask is ever lost can be stated.
\<close>

subsection \<open>Deps and results\<close>

record handoff_deps =
  ha_remote :: "string \<Rightarrow> string io"
  ha_comments :: "int \<Rightarrow> gh_error + gh_comment list"
  ha_login :: string
  ha_asker :: armer
  ha_label :: string
  ha_wait :: int
  ha_rounds :: int
  ha_note :: "effect_note option"
  ha_note_saved :: bool
  ha_note_removed :: bool
  ha_label_error :: "string option"
  ha_ask_faults :: "bool list"
  ha_store_text :: "store_error list \<Rightarrow> string"

datatype handoff_state = HoPending | HoDone | HoHandedBack | HoHandBack

record handoff_result =
  ho_state :: handoff_state
  ho_run_at :: gotime
  ho_effects :: "effect list"
  ho_reason :: string
  ho_output :: string
  ho_review :: gh_comment

datatype handoff_error = HoRemote string | HoTracker gh_error | HoStore store_error

definition ho_of :: "handoff_state \<Rightarrow> handoff_result" where
  "ho_of s = \<lparr>ho_state = s, ho_run_at = None, ho_effects = [], ho_reason = '''', ho_output = '''',
     ho_review = zero_comment\<rparr>"

definition ho_back :: "string \<Rightarrow> string \<Rightarrow> handoff_result" where
  "ho_back reason output = (ho_of HoHandBack)\<lparr>ho_reason := reason, ho_output := output\<rparr>"

subsection \<open>The branch the agent left\<close>

definition pushed_over_reason :: "progress \<Rightarrow> string \<Rightarrow> string" where
  "pushed_over_reason p at_head =
     ''Someone else pushed to '' @ tick (pg_branch p) @ '' after CI went green: it is at '' @
     tick (git_short at_head) @ '', not at '' @ tick (git_short (pg_pushed p)) @
     '' where the agent left it, and the agent does not hand off anyone else's work.''"

definition kept_pushed :: "handoff_deps \<Rightarrow> progress \<Rightarrow> handoff_error + handoff_result" where
  "kept_pushed d p =
     (case ha_remote d (pg_branch p) of
        Inl e \<Rightarrow> Inl (HoRemote e)
      | Inr at_head \<Rightarrow>
          if at_head \<noteq> pg_pushed p then Inr (ho_back (pushed_over_reason p at_head) '''')
          else Inr (ho_of HoDone))"

subsection \<open>Asking for the review\<close>

definition pr_subject :: "int \<Rightarrow> subject" where
  "pr_subject n = \<lparr>sub_type = SubjectPR, sub_number = n\<rparr>"

definition asker :: "armer \<Rightarrow> subject \<Rightarrow> instant \<Rightarrow> world \<Rightarrow> store_error list \<times> world" where
  "asker a s now w = ask a KindReview s review_start now w"

definition asked_stem :: "int \<Rightarrow> string \<Rightarrow> string" where
  "asked_stem n head = ''review-asked-pr-'' @ dec n @ ''-'' @ head"

text \<open>What the effect's function does to the database it is performed on.\<close>

definition perform_ask :: "handoff_deps \<Rightarrow> int \<Rightarrow> string \<Rightarrow> instant \<Rightarrow> effect_do" where
  "perform_ask h n stem now d =
     (let (errs, w) = asker (ha_asker h) (pr_subject n) now
            \<lparr>w_db = d, w_faults = ha_ask_faults h, w_done = []\<rparr>
      in (fst (noting (ha_note_saved h) (ha_note_removed h) stem
            (if errs = [] then None else Some (ha_store_text h errs)) (ha_note h)), w_db w))"

definition parked_reason :: "string \<Rightarrow> progress \<Rightarrow> string" where
  "parked_reason st p =
     ''The review job for this pull request failed and stopped in '' @ tick st @
     '', so no review of '' @ tick (git_short (pg_pushed p)) @ '' is coming.''"

definition never_came_reason :: "progress \<Rightarrow> int \<Rightarrow> string" where
  "never_came_reason p rounds =
     ''CI is green on '' @ tick (git_short (pg_pushed p)) @ '', but its review was asked for '' @
     dec rounds @ '' times and never came.''"

definition ask_again :: "handoff_deps \<Rightarrow> instant \<Rightarrow> int \<Rightarrow> progress \<Rightarrow> world \<Rightarrow>
    (handoff_error + handoff_result) \<times> world" where
  "ask_again d now n p w =
     (let stem = asked_stem n (pg_pushed p) in
      case effect_round stem 0 (ha_rounds d) w of
        (Spent _ rounds _, w) \<Rightarrow> (Inr (ho_back (never_came_reason p rounds) (noted (ha_note d) stem)), w)
      | (RoundError e, w) \<Rightarrow> (Inl (HoStore e), w)
      | (RoundKey key, w) \<Rightarrow>
          (Inr ((ho_of HoPending)\<lparr>ho_run_at := Some (now + ha_wait d),
             ho_effects := [Effect key (Some (perform_ask d n stem now))]\<rparr>), w))"

text \<open>The review job as the store answers it: under way, parked where it failed, or to ask for.\<close>

definition under_way :: "instant \<Rightarrow> job \<Rightarrow> bool" where
  "under_way now j \<longleftrightarrow> \<not> is_zero (j_next j) \<or>
     (case j_lease j of None \<Rightarrow> False | Some l \<Rightarrow> \<not> lease_expired l now)"

definition await_review :: "handoff_deps \<Rightarrow> instant \<Rightarrow> int \<Rightarrow> progress \<Rightarrow> world \<Rightarrow>
    (handoff_error + handoff_result) \<times> world" where
  "await_review d now n p w =
     (case kept_pushed d p of
        Inl e \<Rightarrow> (Inl e, w)
      | Inr r \<Rightarrow>
          if ho_state r = HoHandBack then (Inr r, w)
          else (case ha_comments d n of
            Inl e \<Rightarrow> (Inl (HoTracker e), w)
          | Inr cs \<Rightarrow>
              (case find_review cs (ha_login d) (pg_pushed p) of
                 Some c \<Rightarrow> (Inr ((ho_of HoDone)\<lparr>ho_review := c\<rparr>), w)
               | None \<Rightarrow>
                   if review_handed_back cs (ha_login d) (pg_pushed p) then (Inr (ho_of HoHandedBack), w)
                   else (case call (store_job (job_ID KindReview (pr_subject n))) w of
                     (Inl (ErrNoJob _), w) \<Rightarrow> ask_again d now n p w
                   | (Inl e, w) \<Rightarrow> (Inl (HoStore e), w)
                   | (Inr rj, w) \<Rightarrow>
                       if under_way now rj
                       then (Inr ((ho_of HoPending)\<lparr>ho_run_at := Some (now + ha_wait d)\<rparr>), w)
                       else if j_state rj \<noteq> review_start
                       then (Inr (ho_back (parked_reason (j_state rj) p) ''''), w)
                       else ask_again d now n p w))))"

subsection \<open>The hand-off label\<close>

definition never_appeared_reason :: "handoff_deps \<Rightarrow> string \<Rightarrow> int \<Rightarrow> string" where
  "never_appeared_reason d pushed rounds =
     ''CI is green on '' @ tick (git_short pushed) @ '' and it has its review, but the '' @
     tick (ha_label d) @ '' label was applied '' @ dec rounds @ '' times and never appeared.''"

definition perform_label :: "handoff_deps \<Rightarrow> string \<Rightarrow> effect_do" where
  "perform_label h stem d =
     (fst (noting (ha_note_saved h) (ha_note_removed h) stem (ha_label_error h) (ha_note h)), d)"

definition hand_off :: "handoff_deps \<Rightarrow> instant \<Rightarrow> pull_request \<Rightarrow> string \<Rightarrow> string \<Rightarrow> world \<Rightarrow>
    (handoff_error + handoff_result) \<times> world" where
  "hand_off d now pr pushed stem w =
     (if list_ex (\<lambda>l. equal_fold l (ha_label d)) (pr_labels pr) then (Inr (ho_of HoDone), w)
      else (case effect_round stem 0 (ha_rounds d) w of
        (Spent _ rounds _, w) \<Rightarrow>
          (Inr (ho_back (never_appeared_reason d pushed rounds) (noted (ha_note d) stem)), w)
      | (RoundError e, w) \<Rightarrow> (Inl (HoStore e), w)
      | (RoundKey key, w) \<Rightarrow>
          (Inr ((ho_of HoPending)\<lparr>ho_run_at := Some now,
             ho_effects := [Effect key (Some (perform_label d stem))]\<rparr>), w)))"


subsection \<open>What the hand-off decides\<close>

lemma ho_of_simps [simp]:
  "ho_state (ho_of s) = s" "ho_effects (ho_of s) = []"
  "ho_state (ho_back a b) = HoHandBack" "ho_effects (ho_back a b) = []"
  by (simp_all add: ho_of_def ho_back_def)

lemma kept_pushed_cases:
  "kept_pushed d p = Inr r \<Longrightarrow> ho_effects r = [] \<and>
     (ho_state r = HoHandBack \<and> ha_remote d (pg_branch p) \<noteq> Inr (pg_pushed p) \<or>
      ho_state r = HoDone \<and> ha_remote d (pg_branch p) = Inr (pg_pushed p))"
  by (auto simp: kept_pushed_def split: sum.splits if_splits)

lemma ask_again_result:
  assumes "ask_again d now n p w = (Inr r, w')"
  shows "ho_state r = HoPending \<and> (\<exists>key. ho_effects r =
      [Effect key (Some (perform_ask d n (asked_stem n (pg_pushed p)) now))] \<and>
      effect_round (asked_stem n (pg_pushed p)) 0 (ha_rounds d) w = (RoundKey key, w')) \<or>
    ho_state r = HoHandBack \<and> ho_effects r = []"
  using assms by (auto simp: ask_again_def Let_def split: prod.splits round_result.splits)

lemma await_review_cases:
  assumes "await_review d now n p w = (Inr r, w')"
  obtains (moved) "ho_state r = HoHandBack" "ho_effects r = []" "ha_remote d (pg_branch p) \<noteq> Inr (pg_pushed p)"
  | (reviewed) cs c where "ha_remote d (pg_branch p) = Inr (pg_pushed p)" "ha_comments d n = Inr cs"
      "find_review cs (ha_login d) (pg_pushed p) = Some c" "r = (ho_of HoDone)\<lparr>ho_review := c\<rparr>"
  | (handed_back) cs where "ha_remote d (pg_branch p) = Inr (pg_pushed p)" "ha_comments d n = Inr cs"
      "\<not> reviewed cs (ha_login d) (pg_pushed p)" "review_handed_back cs (ha_login d) (pg_pushed p)"
      "r = ho_of HoHandedBack"
  | (waits) cs where "ha_remote d (pg_branch p) = Inr (pg_pushed p)" "ha_comments d n = Inr cs"
      "\<not> reviewed cs (ha_login d) (pg_pushed p)" "\<not> review_handed_back cs (ha_login d) (pg_pushed p)"
      "ho_state r \<in> {HoPending, HoHandBack}" "ho_effects r = []"
  | (asks) cs w1 where "ha_remote d (pg_branch p) = Inr (pg_pushed p)" "ha_comments d n = Inr cs"
      "\<not> reviewed cs (ha_login d) (pg_pushed p)" "\<not> review_handed_back cs (ha_login d) (pg_pushed p)"
      "ask_again d now n p w1 = (Inr r, w')"
      "(\<exists>x. call (store_job (job_ID KindReview (pr_subject n))) w = (Inl (ErrNoJob x), w1)) \<or>
       (\<exists>rj. call (store_job (job_ID KindReview (pr_subject n))) w = (Inr rj, w1) \<and>
         \<not> under_way now rj \<and> j_state rj = review_start)"
proof -
  obtain k where k: "kept_pushed d p = Inr k"
    using assms by (auto simp: await_review_def split: sum.splits)
  note kc = kept_pushed_cases [OF k]
  show thesis
  proof (cases "ho_state k = HoHandBack")
    case True
    with assms kc moved show ?thesis by (simp add: await_review_def k)
  next
    case False
    with kc have kept: "ha_remote d (pg_branch p) = Inr (pg_pushed p)" by blast
    from False assms obtain cs where cs: "ha_comments d n = Inr cs"
      by (auto simp: await_review_def k split: sum.splits)
    show ?thesis
    proof (cases "find_review cs (ha_login d) (pg_pushed p)")
      case (Some c)
      with False assms kept cs reviewed show ?thesis by (simp add: await_review_def k)
    next
      case None
      then have n: "\<not> Review.reviewed cs (ha_login d) (pg_pushed p)" by (simp add: reviewed_def)
      show ?thesis
      proof (cases "review_handed_back cs (ha_login d) (pg_pushed p)")
        case True
        with None False assms kept cs n handed_back show ?thesis by (simp add: await_review_def k)
      next
        case nb: False
        obtain x w1 where x: "call (store_job (job_ID KindReview (pr_subject n))) w = (x, w1)"
          by (metis surj_pair)
        show ?thesis
        proof (cases x)
          case (Inl e)
          with None False assms kept cs n nb x show ?thesis
            by (cases e) (simp_all add: await_review_def k asks)
        next
          case (Inr rj)
          with None False assms kept cs n nb x show ?thesis
            using waits [OF kept cs n nb] asks [OF kept cs n nb]
            by (auto simp: await_review_def k split: if_splits)
        qed
      qed
    qed
  qed
qed

text \<open>C35: A hand-off never runs ahead of its review: waiting ends as done only while the branch is
  still at the head the agent pushed and the agent's own review of exactly that head is on the
  pull request, which is the review it returns; a hand-back by the review job counts only for
  that head and only where there is no review of it; anyone else's push hands the work back
  whatever the comments say; and only a pending wait asks for anything.\<close>

theorem handoff_needs_review:
  assumes "await_review d now n p w = (Inr r, w')"
  shows "(ho_state r = HoDone \<longleftrightarrow> ha_remote d (pg_branch p) = Inr (pg_pushed p) \<and>
      (\<exists>cs. ha_comments d n = Inr cs \<and> reviewed cs (ha_login d) (pg_pushed p))) \<and>
    (ho_state r = HoDone \<longrightarrow> (\<exists>cs. ha_comments d n = Inr cs \<and>
      find_review cs (ha_login d) (pg_pushed p) = Some (ho_review r))) \<and>
    (ho_state r = HoHandedBack \<longleftrightarrow> ha_remote d (pg_branch p) = Inr (pg_pushed p) \<and>
      (\<exists>cs. ha_comments d n = Inr cs \<and> \<not> reviewed cs (ha_login d) (pg_pushed p) \<and>
        review_handed_back cs (ha_login d) (pg_pushed p))) \<and>
    (ha_remote d (pg_branch p) \<noteq> Inr (pg_pushed p) \<longrightarrow> ho_state r = HoHandBack) \<and>
    (ho_effects r \<noteq> [] \<longrightarrow> ho_state r = HoPending)"
  using assms
proof (cases rule: await_review_cases)
  case (asks cs w1)
  with ask_again_result [OF asks(5)] show ?thesis by auto
qed (auto simp: reviewed_def)

subsection \<open>An ask is never lost\<close>

lemma kind_review_valid [simp]: "kind_valid KindReview"
  by (simp add: kind_valid_def)

lemma pr_subject_valid [simp]: "subject_type_valid (sub_type (pr_subject n))"
  by (simp add: pr_subject_def subject_type_valid_def)

lemma not_at_rest: "\<not> at_rest h now b \<Longrightarrow> under_way now b"
  by (auto simp: at_rest_def under_way_def free_for_def split: option.splits)

lemma perform_ask_arms:
  assumes "db_ok d" and "ha_ask_faults h = []"
  shows "\<exists>b. fst (perform_ask h n stem now d) = None \<and>
    view (snd (perform_ask h n stem now d)) = (view d)(job_ID KindReview (pr_subject n) \<mapsto> b) \<and>
    (under_way now b \<or> j_state b \<noteq> review_start) \<and>
    is_reserved (snd (perform_ask h n stem now d)) = is_reserved d"
proof -
  let ?w = "\<lparr>w_db = d, w_faults = [], w_done = []\<rparr>"
  obtain errs w1 where a: "ask (ha_asker h) KindReview (pr_subject n) review_start now ?w = (errs, w1)"
    by (metis surj_pair)
  let ?b = "case view d (job_ID KindReview (pr_subject n)) of
         None \<Rightarrow> new_job KindReview (pr_subject n) review_start (Some now)
       | Some b \<Rightarrow> if at_rest (ar_holder (ha_asker h)) now b \<and> j_state b = review_start
                 then armed_job b review_start now else b"
  have r: "errs = []" "is_reserved (w_db w1) = is_reserved d"
    "view (w_db w1) = (view d)(job_ID KindReview (pr_subject n) \<mapsto> ?b)"
    using ask_leaves_parked_alone [of ?w KindReview "pr_subject n" "ha_asker h" review_start now] a assms
    by simp_all
  have "under_way now ?b \<or> j_state ?b \<noteq> review_start"
    by (auto simp: under_way_def new_job_def armed_job_def dest!: not_at_rest split: option.splits)
  with r show ?thesis
    by (intro exI [of _ ?b]) (simp add: perform_ask_def asker_def a assms noting_def)
qed

text \<open>A review asked for is never lost: an ask goes out only where no review job is under way
  and none is parked where it failed, under a key of its allowance that no commit has reserved,
  so there are never more asks than rounds; and performing it, on whatever the database has
  become by then, leaves the pull request's review job due or held by a live lease - or parked
  away from the start, where the next look hands the work back - with every other job and every
  key as they were.\<close>

theorem ask_never_lost:
  assumes "await_review h now n p w = (Inr r, w')" and "E \<in> set (ho_effects r)" and "w_faults w = []"
    and "db_ok d" and "ha_ask_faults h = []"
  shows "(\<exists>i. 0 \<le> i \<and> i < max 1 (ha_rounds h) \<and>
      e_key E = round_key (asked_stem n (pg_pushed p)) i \<and> \<not> is_reserved (w_db w) (e_key E)) \<and>
    (case view (w_db w) (job_ID KindReview (pr_subject n)) of
       None \<Rightarrow> True | Some b \<Rightarrow> \<not> under_way now b \<and> j_state b = review_start) \<and>
    (\<exists>f b. e_do E = Some f \<and> fst (f d) = None \<and>
      view (snd (f d)) = (view d)(job_ID KindReview (pr_subject n) \<mapsto> b) \<and>
      (under_way now b \<or> j_state b \<noteq> review_start) \<and> is_reserved (snd (f d)) = is_reserved d)"
  using assms(1)
proof (cases rule: await_review_cases)
  case (asks cs w1)
  from ask_again_result [OF asks(5)] assms(2) obtain key
    where e: "E = Effect key (Some (perform_ask h n (asked_stem n (pg_pushed p)) now))"
      and k: "effect_round (asked_stem n (pg_pushed p)) 0 (ha_rounds h) w1 = (RoundKey key, w')"
    by auto
  have w1: "w1 = w" and v: "case view (w_db w) (job_ID KindReview (pr_subject n)) of
       None \<Rightarrow> True | Some b \<Rightarrow> \<not> under_way now b \<and> j_state b = review_start"
    using asks(6) by (auto simp: call_no_faults assms(3) store_job_def view_def split: option.splits)
  have "\<exists>i. 0 \<le> i \<and> i < max 1 (ha_rounds h) \<and> key = round_key (asked_stem n (pg_pushed p)) i \<and>
      \<not> is_reserved (w_db w) key"
    using round_first [OF assms(3) refl, of 0 "ha_rounds h" "asked_stem n (pg_pushed p)"] k w1
    by auto
  with v perform_ask_arms [OF assms(4,5)] show ?thesis by (simp add: e)
qed (use assms(2) in auto)


subsection \<open>Examples\<close>

definition example_pushed :: progress where
  "example_pushed = \<lparr>pg_nonce = ''n1'', pg_branch = ''afk/7-n1'', pg_base = ''b0'', pg_into = ''main'',
     pg_head = ''c1'', pg_pushed = ''c1'', pg_pushed_at = 5, pg_session = '''', pg_last_input = 0,
     pg_attempts = 0, pg_failure = '''', pg_why = '''', pg_fixes = 0, pg_fixed_head = ''''\<rparr>"

definition example_review_comment :: gh_comment where
  "example_review_comment = zero_comment\<lparr>cm_id := 41, cm_body := review_marker ''c1'', cm_login := ''afk''\<rparr>"

definition example_handoff :: "gh_comment list \<Rightarrow> handoff_deps" where
  "example_handoff cs = \<lparr>ha_remote = (\<lambda>b. Inr ''c1''), ha_comments = (\<lambda>n. Inr cs), ha_login = ''afk'',
     ha_asker = \<lparr>ar_holder = ''handoff'', ar_ttl = 60\<rparr>, ha_label = ''ready'', ha_wait = 30, ha_rounds = 2,
     ha_note = None, ha_note_saved = True, ha_note_removed = True, ha_label_error = None,
     ha_ask_faults = [], ha_store_text = (\<lambda>es. ''failed'')\<rparr>"

definition example_pool_world :: world where
  "example_pool_world = \<lparr>w_db = empty_db, w_faults = [], w_done = []\<rparr>"

lemma example_reviewed:
  "find_review [example_review_comment] ''afk'' ''c1'' = Some example_review_comment"
proof -
  have "contains (review_marker h) (review_marker h)" for h
    unfolding contains_iff by (intro exI [of _ "''''"]) simp
  then show ?thesis by (simp add: find_review_def example_review_comment_def)
qed

theorem handoff_needs_review_witness:
  "\<exists>r. await_review (example_handoff [example_review_comment]) 9 12 example_pushed example_pool_world =
     (Inr r, example_pool_world) \<and> ho_state r = HoDone \<and> ho_review r = example_review_comment"
proof -
  have a: "await_review (example_handoff [example_review_comment]) 9 12 example_pushed example_pool_world =
      (Inr ((ho_of HoDone)\<lparr>ho_review := example_review_comment\<rparr>), example_pool_world)"
    by (simp add: await_review_def kept_pushed_def example_handoff_def example_pushed_def example_reviewed)
  from handoff_needs_review [OF a] a show ?thesis
    by (simp add: example_handoff_def example_pushed_def example_reviewed)
qed

lemma example_asks:
  "await_review (example_handoff []) 9 12 example_pushed example_pool_world =
     (Inr ((ho_of HoPending)\<lparr>ho_run_at := Some 39, ho_effects :=
        [Effect (round_key (asked_stem 12 ''c1'') 0)
           (Some (perform_ask (example_handoff []) 12 (asked_stem 12 ''c1'') 9))]\<rparr>), example_pool_world)"
  by (simp add: await_review_def kept_pushed_def example_handoff_def example_pushed_def find_review_def
      review_handed_back_def example_pool_world_def call_no_faults store_job_def find_row_def empty_db_def
      table_simps ask_again_def Let_def effect_round_def numeral_2_eq_2 call_reserved_nf is_reserved_def)

theorem ask_never_lost_witness:
  "\<exists>f b. e_do (hd (ho_effects (projr (fst (await_review (example_handoff []) 9 12 example_pushed
        example_pool_world))))) = Some f \<and>
     view (snd (f empty_db)) (job_ID KindReview (pr_subject 12)) = Some b"
proof -
  have "w_faults example_pool_world = []" "ha_ask_faults (example_handoff []) = []"
    by (simp_all add: example_pool_world_def example_handoff_def)
  from ask_never_lost [OF example_asks _ this(1) db_ok_empty this(2), simplified, OF refl]
  show ?thesis by (auto simp: example_asks)
qed

end
