(* ===== verification/Sessions.thy ===== *)
theory Sessions
  imports Opencode Resolver Handoff
begin

text \<open>
  Running a job's sessions on its tier, \<^verbatim>\<open>internal/work/session.go\<close>, and a hand-back after the
  push, \<^verbatim>\<open>internal/work/handback.go\<close>. A model is what each run of a request answers, by the
  number of the run, because the second may answer otherwise; \<open>fresh\<close> is the prompt of a session
  that takes over, asked for by the number of the ask. The result says which requests were run
  and how often a session was forgotten, so that what a session is continued with can be stated.
\<close>

subsection \<open>The tier\<close>

record session_tier =
  tr_bound :: int
  tr_wait :: int
  tr_fresh_at :: int
  tr_exhausted_text :: "exhausted \<Rightarrow> string"

type_synonym candidate_list = "resolve_error + ref list"

definition no_result :: result where
  "no_result = \<lparr>res_state = '''', res_run_at = None, res_effects = [], res_exhausted = None\<rparr>"

definition tier_waits :: "session_tier \<Rightarrow> string \<Rightarrow> wait \<Rightarrow> result" where
  "tier_waits t deferred wt = \<lparr>res_state = deferred, res_run_at = wt_until wt, res_effects = [],
     res_exhausted = map_option (tr_exhausted_text t) (wt_exhausted wt)\<rparr>"

text \<open>\<open>Inr (Inl r)\<close> is a candidate to run, \<open>Inr (Inr res)\<close> the deferral.\<close>

definition tier_choose :: "session_tier \<Rightarrow> candidate_list \<Rightarrow> job \<Rightarrow> instant \<Rightarrow> string \<Rightarrow> resolve_error + (ref + result)" where
  "tier_choose t cands j now deferred =
     (case choose_model cands (j_stays j) (tr_bound t) now (tr_wait t) of
        (r, wt, Some e) \<Rightarrow> Inl e
      | (r, wt, None) \<Rightarrow>
          if \<not> is_zero (wt_until wt) then Inr (Inr (tier_waits t deferred wt)) else Inr (Inl r))"

subsection \<open>One candidate's session\<close>

datatype session_error = FreshFailed string | RunError model_error

record tier_ran =
  tu_reply :: run_reply
  tu_result :: result
  tu_ok :: bool
  tu_error :: "session_error option"
  tu_asked :: "run_request list"
  tu_forgot :: nat

definition tier_failed :: "session_error \<Rightarrow> run_request list \<Rightarrow> nat \<Rightarrow> tier_ran" where
  "tier_failed e asked n = \<lparr>tu_reply = no_reply, tu_result = no_result, tu_ok = False, tu_error = Some e,
     tu_asked = asked, tu_forgot = n\<rparr>"

definition renewed :: "run_request \<Rightarrow> string \<Rightarrow> run_request" where
  "renewed q prompt = q\<lparr>rr_prompt := prompt, rr_session := ''''\<rparr>"

definition too_long :: "session_tier \<Rightarrow> run_request \<Rightarrow> int \<Rightarrow> bool" where
  "too_long t q last_input \<longleftrightarrow> rr_session q \<noteq> '''' \<and> 0 < tr_fresh_at t \<and> tr_fresh_at t < last_input"

text \<open>What comes of the last run: its reply, the next candidate, a deferral, or an error.\<close>

definition tier_ends :: "session_tier \<Rightarrow> candidate_list \<Rightarrow> job \<Rightarrow> instant \<Rightarrow> string \<Rightarrow> string \<Rightarrow>
    run_reply \<times> model_error option \<Rightarrow> run_request list \<Rightarrow> nat \<Rightarrow> tier_ran" where
  "tier_ends t cands j now stay deferred ran_as asked n =
     (case ran_as of
        (a, None) \<Rightarrow> \<lparr>tu_reply = a, tu_result = no_result, tu_ok = True, tu_error = None,
          tu_asked = asked, tu_forgot = n\<rparr>
      | (a, Some (Transient m e b)) \<Rightarrow>
          (let wt = failed_model cands (j_stays j) (tr_bound t) now (tr_wait t) (ref_string m @ '': '' @ e) in
           \<lparr>tu_reply = a, tu_result = (if \<not> is_zero (wt_until wt) then tier_waits t deferred wt
               else no_result\<lparr>res_state := stay, res_run_at := Some now\<rparr>),
            tu_ok = False, tu_error = None, tu_asked = asked, tu_forgot = n\<rparr>)
      | (a, Some e) \<Rightarrow> tier_failed (RunError e) asked n)"

definition tier_run :: "session_tier \<Rightarrow> candidate_list \<Rightarrow> job \<Rightarrow> instant \<Rightarrow>
    (nat \<Rightarrow> run_request \<Rightarrow> run_reply \<times> model_error option) \<Rightarrow> run_request \<Rightarrow> int \<Rightarrow> (nat \<Rightarrow> string io) \<Rightarrow>
    string \<Rightarrow> string \<Rightarrow> tier_ran" where
  "tier_run t cands j now m q last_input fresh stay deferred =
     (let n = (if too_long t q last_input then 1 else 0) in
      case (if too_long t q last_input then map_sum id (renewed q) (fresh 0) else Inr q) of
        Inl e \<Rightarrow> tier_failed (FreshFailed e) [] n
      | Inr q1 \<Rightarrow>
          (case m 0 q1 of
             (a, Some (SessionGone s)) \<Rightarrow>
               (case fresh n of
                  Inl e \<Rightarrow> tier_failed (FreshFailed e) [q1] (Suc n)
                | Inr prompt \<Rightarrow>
                    tier_ends t cands j now stay deferred (m 1 (renewed q1 prompt)) [q1, renewed q1 prompt] (Suc n))
           | ended \<Rightarrow> tier_ends t cands j now stay deferred ended [q1] n))"

subsection \<open>A hand-back after the push\<close>

definition hand_back_tail :: nat where
  "hand_back_tail = 4096"

record hand_back =
  hb_label :: string
  hb_number :: int
  hb_key :: string
  hb_marker :: string
  hb_also :: string
  hb_stopped :: string
  hb_next :: string
  hb_detail :: string
  hb_output :: string
  hb_spent :: spent
  hb_handing_back :: string
  hb_rest :: string

definition hand_back_body :: "float_text \<Rightarrow> string \<Rightarrow> string \<Rightarrow> string \<Rightarrow> string \<Rightarrow> string \<Rightarrow> string \<Rightarrow> spent \<Rightarrow> string" where
  "hand_back_body ft marker also_said stopped detail output nxt s =
     (let detail = trim_space detail;
          output = trim_space (tail_of output hand_back_tail);
          f = footer ft s; fence = replicate 4 (CHR 0x60)
      in marker @ nl @ also_said @ stopped @ nl @
         (if detail \<noteq> '''' then nl @ detail @ nl else '''') @
         (if output \<noteq> '''' then nl @ ''The end of the last output:'' @ nl @ nl @ fence @ nl @ output @ nl @ fence @ nl
          else '''') @
         nl @ nxt @ nl @
         (if f \<noteq> '''' then nl @ f @ nl else ''''))"

definition hand_back_record :: "float_text \<Rightarrow> hand_back \<Rightarrow> owed_record" where
  "hand_back_record ft hb =
     (let n = hb_number hb;
          body = hand_back_body ft (hb_marker hb) (hb_also hb) (hb_stopped hb) (hb_detail hb) (hb_output hb)
            (hb_next hb) (hb_spent hb)
      in \<lparr>or_next = hb_rest hb, or_due = False, or_items =
        [said_item (''hand-back-pr-'' @ dec n @ ''-'' @ hb_key hb) n (hb_marker hb) body,
         label_item (''hand-back-label-pr-'' @ dec n @ ''-'' @ hb_key hb) n (hb_label hb)]\<rparr>)"

subsection \<open>What a session is continued with\<close>

lemma tier_ends_simps [simp]:
  "tu_asked (tier_ends t cands j now stay deferred x asked n) = asked"
  "tu_forgot (tier_ends t cands j now stay deferred x asked n) = n"
  "tu_asked (tier_failed e asked n) = asked" "tu_forgot (tier_failed e asked n) = n"
  "tu_error (tier_failed e asked n) = Some e" "\<not> tu_ok (tier_failed e asked n)"
  by (auto simp: tier_ends_def tier_failed_def Let_def split: prod.split option.split model_error.split)

lemma renewed_session [simp]: "rr_session (renewed q p) = ''''"
  by (simp add: renewed_def)

lemma tier_ends_cases:
  "u = tier_ends t cands j now stay deferred (a, e) asked n \<Longrightarrow>
     (tu_ok u \<longleftrightarrow> e = None) \<and> (tu_ok u \<longrightarrow> tu_reply u = a) \<and>
     (\<not> tu_ok u \<and> tu_error u = None \<longrightarrow> (\<exists>m x b. e = Some (Transient m x b)) \<and> tu_reply u = a \<and>
        (res_state (tu_result u) = stay \<and> res_run_at (tu_result u) = Some now \<or>
         res_state (tu_result u) = deferred \<and> res_run_at (tu_result u) \<noteq> None))"
  by (auto simp: tier_ends_def tier_failed_def tier_waits_def no_result_def Let_def is_zero_def
      split: option.splits model_error.splits)

text \<open>A session is continued only with the prompt it was asked with and only while its last turn
  was short enough; every other request is fresh, with the prompt made for a fresh session, and
  each one was asked for exactly once. At most two runs are made, the second only after the first
  found its session gone. A reply is the last run's, a failure of the model's own never becomes
  the job's error but moves the job on or defers it, and everything else does.\<close>

theorem sessions_stay_short:
  assumes "u = tier_run t cands j now m q last_input fresh stay deferred"
  shows "(\<forall>r\<in>set (tu_asked u). rr_session r \<noteq> '''' \<longrightarrow>
      r = q \<and> (tr_fresh_at t \<le> 0 \<or> last_input \<le> tr_fresh_at t)) \<and>
    (\<forall>r\<in>set (tu_asked u). r = q \<or> (\<exists>k<tu_forgot u. fresh k = Inr (rr_prompt r) \<and> r = renewed q (rr_prompt r))) \<and>
    length (tu_asked u) \<le> 2 \<and>
    (\<forall>r1 r2. tu_asked u = [r1, r2] \<longrightarrow> (\<exists>s. snd (m 0 r1) = Some (SessionGone s)) \<and> rr_session r2 = '''') \<and>
    (tu_ok u \<longrightarrow> tu_asked u \<noteq> [] \<and>
      m (length (tu_asked u) - 1) (last (tu_asked u)) = (tu_reply u, None)) \<and>
    (\<not> tu_ok u \<and> tu_error u = None \<longrightarrow> res_state (tu_result u) \<in> {stay, deferred} \<and>
      res_run_at (tu_result u) \<noteq> None \<and>
      (\<exists>mm x b. m (length (tu_asked u) - 1) (last (tu_asked u)) = (tu_reply u, Some (Transient mm x b))))"
proof -
  define n :: nat where "n = (if too_long t q last_input then 1 else 0)"
  show ?thesis
  proof (cases "if too_long t q last_input then map_sum id (renewed q) (fresh 0) else Inr q")
    case (Inl e)
    then have "u = tier_failed (FreshFailed e) [] n"
      by (simp add: assms tier_run_def n_def)
    then show ?thesis by simp
  next
    case (Inr q1)
    have q1: "q1 = q \<and> \<not> too_long t q last_input \<and> n = 0 \<or>
        (\<exists>p. q1 = renewed q p \<and> fresh 0 = Inr p \<and> n = 1)"
      using Inr by (cases "fresh 0") (auto simp: n_def split: if_splits)
    have cont: "rr_session q1 \<noteq> '''' \<longrightarrow> q1 = q \<and> (tr_fresh_at t \<le> 0 \<or> last_input \<le> tr_fresh_at t)"
      using q1 by (auto simp: too_long_def)
    have prompt: "q1 = q \<or> (\<exists>k<n. fresh k = Inr (rr_prompt q1) \<and> q1 = renewed q (rr_prompt q1))"
      using q1 by (auto simp: renewed_def)
    obtain a e where m0: "m 0 q1 = (a, e)" by (metis surj_pair)
    show ?thesis
    proof (cases "\<exists>s. e = Some (SessionGone s)")
      case False
      then have u: "u = tier_ends t cands j now stay deferred (a, e) [q1] n"
        using Inr m0 by (auto simp: assms tier_run_def n_def split: option.split model_error.split)
      then have "tu_asked u = [q1]" "tu_forgot u = n" by simp_all
      with tier_ends_cases [OF u] cont prompt m0 show ?thesis by auto
    next
      case True
      then obtain s where s: "e = Some (SessionGone s)" ..
      show ?thesis
      proof (cases "fresh n")
        case (Inl x)
        then have "u = tier_failed (FreshFailed x) [q1] (Suc n)"
          using Inr m0 s by (simp add: assms tier_run_def n_def)
        with cont prompt show ?thesis by (auto intro: less_SucI)
      next
        case (Inr p)
        let ?q2 = "renewed q1 p"
        obtain a2 e2 where m1: "m 1 ?q2 = (a2, e2)" by (metis surj_pair)
        have u: "u = tier_ends t cands j now stay deferred (a2, e2) [q1, ?q2] (Suc n)"
          using \<open>_ = Inr q1\<close> m0 s Inr m1 by (simp add: assms tier_run_def n_def)
        have q2: "?q2 = renewed q (rr_prompt ?q2) \<and> fresh n = Inr (rr_prompt ?q2)"
          using q1 Inr by (auto simp: renewed_def)
        from u have "tu_asked u = [q1, ?q2]" "tu_forgot u = Suc n" by simp_all
        with tier_ends_cases [OF u] cont prompt m0 m1 s q2 show ?thesis
          by (auto intro: less_SucI)
      qed
    qed
  qed
qed


definition example_tier :: session_tier where
  "example_tier = \<lparr>tr_bound = 2, tr_wait = 60, tr_fresh_at = 10, tr_exhausted_text = (\<lambda>_. ''exhausted'')\<rparr>"

definition example_answers :: "nat \<Rightarrow> run_request \<Rightarrow> run_reply \<times> model_error option" where
  "example_answers k q = (if rr_session q = ''s1'' then (no_reply, Some (SessionGone ''s1''))
     else (no_reply\<lparr>oc_text := ''done''\<rparr>, None))"

theorem sessions_stay_short_witness:
  "(let u = tier_run example_tier (Inr [Ref ''p'' ''m'']) zero_job 5 example_answers example_request 7
       (\<lambda>_. Inr ''carry on'') ''working'' ''deferred''
    in tu_ok u \<and> length (tu_asked u) = 2 \<and> rr_session (last (tu_asked u)) = '''')"
proof -
  let ?u = "tier_run example_tier (Inr [Ref ''p'' ''m'']) zero_job 5 example_answers example_request 7
       (\<lambda>_. Inr ''carry on'') ''working'' ''deferred''"
  have "tu_ok ?u" "tu_asked ?u = [example_request, renewed example_request ''carry on'']"
    by (simp_all add: tier_run_def too_long_def example_tier_def example_request_def example_answers_def
        tier_ends_def renewed_def)
  with sessions_stay_short [OF refl, of example_tier "Inr [Ref ''p'' ''m'']" zero_job 5 example_answers
      example_request 7 "\<lambda>_. Inr ''carry on''" "''working''" "''deferred''"]
  show ?thesis by simp
qed

end
