(* ===== verification/Descriptions.thy ===== *)
theory Descriptions
  imports Sensitive Work_Steps
begin

text \<open>
  A pull request's description brought up to date, \<^verbatim>\<open>internal/work/description.go\<close>: its sensitive
  line and its spend footer, within GitHub's limit on its length, and the edit as an effect that
  reads the description again. A description's length is counted in runes as \<^verbatim>\<open>unicode/utf8\<close>
  counts them. What is logged is not modelled.
\<close>

subsection \<open>Runes\<close>

definition byte_in :: "nat \<Rightarrow> nat \<Rightarrow> char \<Rightarrow> bool" where
  "byte_in lo hi c \<longleftrightarrow> lo \<le> of_char c \<and> of_char c \<le> hi"

definition continuation :: "char \<Rightarrow> bool" where
  "continuation c \<longleftrightarrow> byte_in 0x80 0xBF c"

text \<open>The bytes of the first rune of a string; a byte that starts no rune is one of its own.\<close>

fun rune_width :: "string \<Rightarrow> nat" where
  "rune_width [] = 0"
| "rune_width (a # s) =
     (case s of
        b # t \<Rightarrow>
          if byte_in 0xC2 0xDF a \<and> continuation b then 2
          else (case t of
              c # u \<Rightarrow>
                if (byte_in 0xE0 0xE0 a \<and> byte_in 0xA0 0xBF b \<or> byte_in 0xE1 0xEC a \<and> continuation b \<or>
                    byte_in 0xED 0xED a \<and> byte_in 0x80 0x9F b \<or> byte_in 0xEE 0xEF a \<and> continuation b) \<and>
                   continuation c then 3
                else (case u of
                    d # v \<Rightarrow>
                      if (byte_in 0xF0 0xF0 a \<and> byte_in 0x90 0xBF b \<or> byte_in 0xF1 0xF3 a \<and> continuation b \<or>
                          byte_in 0xF4 0xF4 a \<and> byte_in 0x80 0x8F b) \<and> continuation c \<and> continuation d
                      then 4 else 1
                  | [] \<Rightarrow> 1)
            | [] \<Rightarrow> 1)
      | [] \<Rightarrow> 1)"

function rune_count :: "string \<Rightarrow> nat" where
  "rune_count s = (if s = [] then 0 else Suc (rune_count (drop (rune_width s) s)))"
  by pat_completeness auto
termination
proof (relation "measure length")
  fix s :: string assume "s \<noteq> []"
  then show "(drop (rune_width s) s, s) \<in> measure length"
    by (cases s) (auto split: list.split)
qed simp

declare rune_count.simps [simp del]

definition over_limit :: "string \<Rightarrow> bool" where
  "over_limit body \<longleftrightarrow> body_limit_gh < int (rune_count body)"

subsection \<open>A description's fixed parts\<close>

text \<open>\<^verbatim>\<open>strings.ReplaceAll(body, "\r\n", "\n")\<close>.\<close>

fun unix_lines :: "string \<Rightarrow> string" where
  "unix_lines (x # y # s) =
     (if x = CHR 0x0D \<and> y = CHR 0x0A then CHR 0x0A # unix_lines s else x # unix_lines (y # s))"
| "unix_lines s = s"

datatype change = AlreadyRight | NoReminder | OverLimit | Listed | Counted

text \<open>The line brought into \<open>footed\<close>, and what that comes to against what the description was;
  \<open>over\<close> is what to do when even counted files are over the limit.\<close>

definition fixed_parts :: "(string \<Rightarrow> string) \<Rightarrow> string \<Rightarrow> string \<Rightarrow> touched list \<Rightarrow> string \<times> change \<Rightarrow> string \<times> change" where
  "fixed_parts quote was footed ts over =
     (case with_sensitive footed (sensitive_files quote ts) of
        (to, ok) \<Rightarrow>
          if \<not> ok then ('''', NoReminder)
          else let (to, e) = (if over_limit to then (fst (with_sensitive footed (sensitive_counted ts)), Counted)
                              else (to, Listed))
            in if to = was then ('''', AlreadyRight)
               else if over_limit to then over
               else (to, e))"

function described :: "float_text \<Rightarrow> (string \<Rightarrow> string) \<Rightarrow> string \<Rightarrow> touched list \<Rightarrow> spent option \<Rightarrow> string \<times> change" where
  "described ft quote body ts None =
     (let was = unix_lines body in fixed_parts quote was was ts ('''', OverLimit))"
| "described ft quote body ts (Some s) =
     (let was = unix_lines body in
      fixed_parts quote was (with_footer was (footer ft s)) ts (described ft quote body ts None))"
  by pat_completeness auto
termination
  by (relation "measure (\<lambda>(ft, quote, body, ts, s). if s = None then 0 else 1)") auto

subsection \<open>The edit\<close>

text \<open>What performing the edit writes and the error it ends with, from what the description is by
  then (\<open>False\<close>: the pull request is no longer there) and what an edit of it answers.\<close>

definition perform_edit :: "float_text \<Rightarrow> (string \<Rightarrow> string) \<Rightarrow> (string \<times> bool) io \<Rightarrow> (string \<Rightarrow> string option) \<Rightarrow>
    touched list \<Rightarrow> spent option \<Rightarrow> string option \<times> string option" where
  "perform_edit ft quote reread edit ts s =
     (case reread of
        Inl e \<Rightarrow> (None, Some e)
      | Inr (body, ok) \<Rightarrow>
          if \<not> ok then (None, None)
          else (case described ft quote body ts s of
              (to, c) \<Rightarrow> if c \<noteq> Listed \<and> c \<noteq> Counted then (None, None) else (Some to, edit to)))"

definition description_stem :: "string \<Rightarrow> string \<Rightarrow> string" where
  "description_stem branch head = ''description-'' @ branch @ ''-'' @ head"

definition redescribe :: "float_text \<Rightarrow> (string \<Rightarrow> string) \<Rightarrow> int \<Rightarrow> (string \<times> bool) io \<Rightarrow> (string \<Rightarrow> string option) \<Rightarrow>
    string \<Rightarrow> string \<Rightarrow> string \<Rightarrow> touched list \<Rightarrow> spent option \<Rightarrow> world \<Rightarrow> (store_error + effect option) \<times> world" where
  "redescribe ft quote rounds reread edit body branch head ts s w =
     (case described ft quote body ts s of
        (_, c) \<Rightarrow>
          if c = NoReminder \<or> c = AlreadyRight \<or> c = OverLimit then (Inr None, w)
          else (case effect_round (description_stem branch head) 0 rounds w of
              (Spent _ _ _, w) \<Rightarrow> (Inr None, w)
            | (RoundError e, w) \<Rightarrow> (Inl e, w)
            | (RoundKey key, w) \<Rightarrow>
                (Inr (Some (Effect key (Some (\<lambda>d. (snd (perform_edit ft quote reread edit ts s), d))))), w)))"

subsection \<open>The two parts do not disturb each other\<close>

lemma fixed_parts_cases:
  "fixed_parts quote was footed ts over = (to, c) \<Longrightarrow>
     (to, c) = over \<and> over_limit (fst (with_sensitive footed (sensitive_counted ts))) \<and>
       over_limit (fst (with_sensitive footed (sensitive_files quote ts))) \<or>
     c \<in> {AlreadyRight, NoReminder} \<or>
     c = Listed \<and> \<not> over_limit to \<and> with_sensitive footed (sensitive_files quote ts) = (to, True) \<or>
     c = Counted \<and> \<not> over_limit to \<and> to = fst (with_sensitive footed (sensitive_counted ts)) \<and>
       snd (with_sensitive footed (sensitive_files quote ts)) \<and>
       over_limit (fst (with_sensitive footed (sensitive_files quote ts)))"
  by (auto simp: fixed_parts_def split: prod.splits if_splits)

lemma index_of_append: "index_of a t = Some i \<Longrightarrow> index_of (a @ x) t = Some i"
proof (induction a arbitrary: i)
  case Nil
  then show ?case by (cases x) (auto simp: has_prefix_conv split: if_splits)
next
  case (Cons y a)
  show ?case
  proof (cases "has_prefix (y # a) t")
    case True
    then have "has_prefix ((y # a) @ x) t" by (metis append.assoc has_prefix_conv)
    with True show ?thesis using Cons.prems by simp
  next
    case False
    with Cons.prems obtain j where j: "index_of a t = Some j" "i = Suc j" by auto
    then have "has_prefix (drop j a) t" using index_of_Some by blast
    then have "length t \<le> length a" by (auto simp: has_prefix_conv dest!: arg_cong [where f = length])
    with False have "\<not> has_prefix (y # a @ x) t"
      by (cases t) (auto simp: has_prefix_def)
    with Cons.IH [OF j(1)] j(2) show ?thesis by simp
  qed
qed

lemma with_sensitive_append:
  assumes "contains a (nl @ reminder)"
  shows "with_sensitive (a @ x) l = (fst (with_sensitive a l) @ x, True)"
proof -
  obtain i where i: "index_of a (nl @ reminder) = Some i"
    using assms by (auto simp: contains_def)
  have "has_prefix (drop i a) (nl @ reminder)" using index_of_Some [OF i] by blast
  then have "Suc i \<le> length a"
    by (auto simp: has_prefix_conv nl_def dest!: arg_cong [where f = length])
  then show ?thesis
    using i index_of_append [OF i, of x] index_of_Some [OF i]
    by (simp add: with_sensitive_conv)
qed

lemma with_sensitive_keeps_reminder:
  assumes "contains a (nl @ reminder)"
  shows "contains (fst (with_sensitive a l)) (nl @ reminder)"
proof -
  obtain i where i: "index_of a (nl @ reminder) = Some i"
    using assms by (auto simp: contains_def)
  then obtain t where "drop i a = nl @ reminder @ t"
    using index_of_Some [OF i] by (auto simp: has_prefix_conv)
  then have "drop 1 (drop i a) = reminder @ t" by (simp add: nl_def)
  then have "drop (i + 1) a = reminder @ t" by simp
  then show ?thesis
    using i by (auto simp: with_sensitive_conv contains_iff)
      (metis append.assoc)+
qed


text \<open>A description as the agent opens it: its footer \<open>g\<close> after its reminder, and no other.\<close>

definition opened_as :: "string \<Rightarrow> string \<Rightarrow> string \<Rightarrow> string \<Rightarrow> bool" where
  "opened_as was a g z \<longleftrightarrow> was = a @ g @ z \<and> is_footer g \<and> \<not> contains z footer_open \<and> contains a (nl @ reminder)"

definition held :: "string \<Rightarrow> string" where
  "held f = (if f = '''' then footer_open @ nl @ footer_close else f)"

lemma held_is_footer: "f = '''' \<or> is_footer f \<Longrightarrow> is_footer (held f)"
proof -
  have "is_footer (footer_open @ nl @ footer_close)"
    unfolding is_footer_def by (rule exI [of _ nl]) (simp, code_simp)
  then show "f = '''' \<or> is_footer f \<Longrightarrow> is_footer (held f)" by (auto simp: held_def)
qed

lemma opened_with_footer: "opened_as was a g z \<Longrightarrow> with_footer was f = a @ held f @ z"
  using find_footer_at [of g z a] by (simp add: opened_as_def with_footer_def held_def)

lemma opened_with_sensitive:
  assumes "opened_as was a g z" and "is_footer f"
  shows "with_sensitive (a @ f @ z) l = (fst (with_sensitive a l) @ f @ z, True)"
    and "opened_as (fst (with_sensitive a l) @ f @ z) (fst (with_sensitive a l)) f z"
  using assms with_sensitive_append [of a "f @ z" l] with_sensitive_keeps_reminder [of a l]
  by (simp_all add: opened_as_def)

lemma no_cr_unix_lines: "CHR 0x0D \<notin> set s \<Longrightarrow> unix_lines s = s"
  by (induction s rule: unix_lines.induct) auto

lemma brought_in:
  assumes "opened_as was a g z" and f: "is_footer f"
    and lines: "is_sensitive_line (sensitive_files quote ts)" "is_sensitive_line (sensitive_counted ts)"
    and r: "fixed_parts quote was (a @ f @ z) ts over = (to, c)" and c: "c \<in> {Listed, Counted}"
    and own: "(to, c) \<noteq> over \<or> \<not> over_limit (fst (with_sensitive (a @ f @ z) (sensitive_counted ts)))"
  shows "\<not> over_limit to" and "\<exists>l. to = fst (with_sensitive a l) @ f @ z \<and> is_sensitive_line l"
    and "fixed_parts quote to to ts over' = ('''', AlreadyRight)"
proof -
  note ws = opened_with_sensitive [OF assms(1) f]
  have a: "contains a (nl @ reminder)" using assms(1) by (simp add: opened_as_def)
  from fixed_parts_cases [OF r] own c ws(1) obtain l
    where l: "\<not> over_limit to" "to = fst (with_sensitive a l) @ f @ z" "is_sensitive_line l"
    "l = sensitive_files quote ts \<or> l = sensitive_counted ts \<and>
         over_limit (fst (with_sensitive a (sensitive_files quote ts)) @ f @ z)"
    using lines by fastforce
  have "with_sensitive to m = (fst (with_sensitive a m) @ f @ z, True)" for m
    using sensitive_replaced [OF l(3), of a m] with_sensitive_keeps_reminder [OF a, of l]
    by (simp add: l(2) with_sensitive_append)
  then show "fixed_parts quote to to ts over' = ('''', AlreadyRight)"
    using l by (auto simp: fixed_parts_def Let_def)
  from l show "\<not> over_limit to" "\<exists>l. to = fst (with_sensitive a l) @ f @ z \<and> is_sensitive_line l"
    by blast+
qed

text \<open>Where the footer gave way to the line, it still does not fit beside it.\<close>

lemma footer_gave_way:
  assumes "opened_as was a g z" and f: "is_footer f" and l: "is_sensitive_line l"
    and r: "fixed_parts quote was (a @ f @ z) ts over = (to, c)" and c: "c \<in> {Listed, Counted}"
    and counted: "over_limit (fst (with_sensitive (a @ f @ z) (sensitive_counted ts)))"
  shows "fixed_parts quote to (fst (with_sensitive a l) @ f @ z) ts ('''', AlreadyRight) = ('''', AlreadyRight)"
proof -
  have a: "contains a (nl @ reminder)" using assms(1) by (simp add: opened_as_def)
  note o = opened_with_sensitive(1) [OF assms(1) f]
  have ws: "with_sensitive (fst (with_sensitive a l) @ f @ z) m = with_sensitive (a @ f @ z) m" for m
    using sensitive_replaced [OF l, of a m] with_sensitive_keeps_reminder [OF a, of l] o
    by (simp add: with_sensitive_append)
  have "over_limit (fst (with_sensitive a (sensitive_files quote ts)) @ f @ z) \<or>
      fst (with_sensitive a (sensitive_files quote ts)) @ f @ z = to"
    using fixed_parts_cases [OF r] c counted o by auto
  then show ?thesis using ws counted o by (auto simp: fixed_parts_def Let_def)
qed

text \<open>C37: An edit of a description settles: what it writes fits GitHub's limit, keeps everything but
  the sensitive line and the footer as it was, and leaves nothing to edit - reading it back finds
  both parts right, also where the files had to be counted rather than listed, and where the
  footer had to give way to the line.\<close>

theorem description_settles:
  assumes "opened_as (unix_lines body) a g z"
    and "\<forall>x. s = Some x \<longrightarrow> footer ft x = '''' \<or> is_footer (footer ft x)"
    and "is_sensitive_line (sensitive_files quote ts)" and "is_sensitive_line (sensitive_counted ts)"
    and "described ft quote body ts s = (to, c)" and "c = Listed \<or> c = Counted" and "CHR 0x0D \<notin> set to"
  shows "described ft quote to ts s = ('''', AlreadyRight) \<and> \<not> over_limit to \<and>
    (\<exists>l f. to = fst (with_sensitive a l) @ f @ z \<and> is_sensitive_line l \<and> is_footer f)"
proof -
  let ?was = "unix_lines body"
  have was: "?was = a @ g @ z" and g: "is_footer g" using assms(1) by (simp_all add: opened_as_def)
  have u: "unix_lines to = to" using no_cr_unix_lines [OF assms(7)] .
  have c: "c \<in> {Listed, Counted}" using assms(6) by blast
  note bi = brought_in [OF assms(1) _ assms(3,4) _ c]
  have none: ?thesis if r: "described ft quote body ts None = (to, c)" and s: "s = None"
  proof -
    have r': "fixed_parts quote ?was (a @ g @ z) ts ('''', OverLimit) = (to, c)"
      using r by (simp add: was [symmetric] Let_def)
    have "(to, c) \<noteq> ('''', OverLimit)" using c by auto
    with bi [OF g r'] g show ?thesis by (auto simp: s u Let_def)
  qed
  show ?thesis
  proof (cases s)
    case None
    with assms(5) none show ?thesis by simp
  next
    case (Some x)
    let ?f = "held (footer ft x)"
    have f: "is_footer ?f" using assms(2) Some held_is_footer by blast
    let ?over = "described ft quote body ts None"
    have r: "fixed_parts quote ?was (a @ ?f @ z) ts ?over = (to, c)"
      using assms(5) Some opened_with_footer [OF assms(1)] by (simp add: Let_def)
    show ?thesis
    proof (cases "(to, c) \<noteq> ?over \<or> \<not> over_limit (fst (with_sensitive (a @ ?f @ z) (sensitive_counted ts)))")
      case True
      note b = bi [OF f r True]
      from b(2) obtain l where l: "to = fst (with_sensitive a l) @ ?f @ z" "is_sensitive_line l" by blast
      have "with_footer to (footer ft x) = to"
        using opened_with_footer [OF opened_with_sensitive(2) [OF assms(1) f]] by (simp add: l)
      then have "described ft quote to ts s = ('''', AlreadyRight)"
        by (simp add: Some u Let_def b(3))
      with b(1) l f show ?thesis by blast
    next
      case False
      then have r0: "fixed_parts quote ?was (a @ g @ z) ts ('''', OverLimit) = (to, c)"
        by (simp add: was [symmetric] Let_def)
      have "(to, c) \<noteq> ('''', OverLimit)" using c by auto
      with bi [OF g r0] obtain l where b: "\<not> over_limit to" "to = fst (with_sensitive a l) @ g @ z"
        "is_sensitive_line l" "fixed_parts quote to to ts ('''', OverLimit) = ('''', AlreadyRight)"
        by blast
      have w: "with_footer to (footer ft x) = fst (with_sensitive a l) @ ?f @ z"
        using opened_with_footer [OF opened_with_sensitive(2) [OF assms(1) g]] by (simp add: b(2))
      have over: "over_limit (fst (with_sensitive (a @ ?f @ z) (sensitive_counted ts)))" using False by blast
      have "fixed_parts quote to (fst (with_sensitive a l) @ ?f @ z) ts ('''', AlreadyRight) = ('''', AlreadyRight)"
        by (rule footer_gave_way [OF assms(1) f b(3) r c over])
      then have "described ft quote to ts s = ('''', AlreadyRight)"
        by (simp add: Some u Let_def b(4) w)
      with b(1,2,3) g show ?thesis by blast
    qed
  qed
qed


definition plain_floats :: float_text where
  "plain_floats = \<lparr>ft_cost = (\<lambda>_. ''0''), ft_tenths = (\<lambda>_ _. ''0'')\<rparr>"

definition example_top :: string where
  "example_top = ''W'' @ nl @ nl @ reminder @ nl"

definition example_held :: string where
  "example_held = footer_open @ nl @ footer_close"

definition example_touched :: "touched list" where
  "example_touched = [\<lparr>to_label = ''keys'', to_files = [''a'']\<rparr>]"

lemma example_described:
  "described plain_floats id (example_top @ example_held @ nl) example_touched None =
     (''W'' @ nl @ nl @ sensitive_files id example_touched @ nl @ nl @ reminder @ nl @ example_held @ nl, Listed)"
  by code_simp

theorem description_settles_witness:
  "described plain_floats id
     (''W'' @ nl @ nl @ sensitive_files id example_touched @ nl @ nl @ reminder @ nl @ example_held @ nl)
     example_touched None = ('''', AlreadyRight)"
proof -
  have u: "unix_lines (example_top @ example_held @ nl) = example_top @ example_held @ nl" by code_simp
  have "is_footer example_held"
    using held_is_footer [of "''''"] by (simp add: held_def example_held_def)
  moreover have "\<not> contains nl footer_open" "contains example_top (nl @ reminder)" by code_simp+
  ultimately have o: "opened_as (unix_lines (example_top @ example_held @ nl)) example_top example_held nl"
    by (simp add: u opened_as_def)
  have l: "is_sensitive_line (sensitive_files id example_touched)"
    "is_sensitive_line (sensitive_counted example_touched)" by code_simp+
  have cr: "CHR 0x0D \<notin> set (''W'' @ nl @ nl @ sensitive_files id example_touched @ nl @ nl @ reminder @ nl @
      example_held @ nl)" by code_simp
  show ?thesis
    using description_settles [OF o _ l example_described _ cr] by simp
qed

end
