(* ===== verification/Steps.thy ===== *)
theory Steps
  imports Afk_Prelude
begin

text \<open>
  A transition as a step over a state: an error or an answer, with the state it leaves, and
  \<open>None\<close> for one that never ends. The code threads its files and the store through every call
  and returns early on an error; \<open>and_then\<close> is that. \<open>gives\<close> states what every answer of a step
  satisfies, whatever state it starts from, and \<open>keeps\<close> what of the state a step leaves alone;
  \<open>gives_rules\<close> and \<open>keeps_rules\<close> follow the shape of a step.
\<close>

type_synonym ('e, 's, 'a) step = "'s \<Rightarrow> (('e + 'a) \<times> 's) option"

definition give :: "'a \<Rightarrow> ('e, 's, 'a) step" where
  "give a s = Some (Inr a, s)"

definition halt :: "'e \<Rightarrow> ('e, 's, 'a) step" where
  "halt e s = Some (Inl e, s)"

definition and_then :: "('e, 's, 'a) step \<Rightarrow> ('a \<Rightarrow> ('e, 's, 'b) step) \<Rightarrow> ('e, 's, 'b) step" where
  "and_then m f s =
     (case m s of
        None \<Rightarrow> None
      | Some (Inl e, t) \<Rightarrow> Some (Inl e, t)
      | Some (Inr a, t) \<Rightarrow> f a t)"

definition look :: "('s \<Rightarrow> 'a) \<Rightarrow> ('e, 's, 'a) step" where
  "look f s = Some (Inr (f s), s)"

definition alter :: "('s \<Rightarrow> 's) \<Rightarrow> ('e, 's, unit) step" where
  "alter f s = Some (Inr (), f s)"

text \<open>An answer or an error computed elsewhere, and an error that may be there.\<close>

definition lift_sum :: "('x \<Rightarrow> 'e) \<Rightarrow> 'x + 'a \<Rightarrow> ('e, 's, 'a) step" where
  "lift_sum h x = (case x of Inl e \<Rightarrow> halt (h e) | Inr a \<Rightarrow> give a)"

definition unless_error :: "('x \<Rightarrow> 'e) \<Rightarrow> 'x option \<Rightarrow> ('e, 's, unit) step" where
  "unless_error h x = (case x of Some e \<Rightarrow> halt (h e) | None \<Rightarrow> give ())"

text \<open>An error of a step as a value, for the code that only logs it.\<close>

definition attempted :: "('e, 's, 'a) step \<Rightarrow> ('e, 's, 'e + 'a) step" where
  "attempted m s = (case m s of None \<Rightarrow> None | Some (x, t) \<Rightarrow> Some (Inr x, t))"

subsection \<open>Running a step\<close>

named_theorems step_simps

lemma give_iff [simp, step_simps]: "give a s = Some (Inr b, t) \<longleftrightarrow> b = a \<and> t = s"
  by (auto simp: give_def)

lemma halt_iff [simp, step_simps]: "halt e s \<noteq> Some (Inr b, t)"
  by (simp add: halt_def)

lemma look_iff [simp, step_simps]: "look f s = Some (Inr b, t) \<longleftrightarrow> b = f s \<and> t = s"
  by (auto simp: look_def)

lemma alter_iff [simp, step_simps]: "alter f s = Some (Inr u, t) \<longleftrightarrow> t = f s"
  by (auto simp: alter_def)

lemma and_then_iff [step_simps]:
  "and_then m f s = Some (Inr b, t) \<longleftrightarrow> (\<exists>a u. m s = Some (Inr a, u) \<and> f a u = Some (Inr b, t))"
  by (auto simp: and_then_def split: option.split sum.split)

lemma lift_sum_iff [simp, step_simps]: "lift_sum h x s = Some (Inr b, t) \<longleftrightarrow> x = Inr b \<and> t = s"
  by (auto simp: lift_sum_def split: sum.split)

lemma unless_error_iff [simp, step_simps]: "unless_error h x s = Some (Inr u, t) \<longleftrightarrow> x = None \<and> t = s"
  by (auto simp: unless_error_def split: option.split)

lemma attempted_iff [simp, step_simps]: "attempted m s = Some (Inr x, t) \<longleftrightarrow> m s = Some (x, t)"
  by (auto simp: attempted_def split: option.split)

lemma and_then_give [simp]: "and_then (give a) f = f a"
  by (simp add: fun_eq_iff and_then_def give_def)

lemma and_then_look [simp]: "and_then (look g) f s = f (g s) s"
  by (simp add: and_then_def look_def)

lemma and_then_alter [simp]: "and_then (alter g) f s = f () (g s)"
  by (simp add: and_then_def alter_def)

lemma and_then_halt [simp]: "and_then (halt e) f = halt e"
  by (simp add: fun_eq_iff and_then_def halt_def)

lemma lift_sum_simps [simp]: "lift_sum h (Inl e) = halt (h e)" "lift_sum h (Inr a) = give a"
  by (simp_all add: lift_sum_def)

lemma unless_error_simps [simp]: "unless_error h None = give ()" "unless_error h (Some e) = halt (h e)"
  by (simp_all add: unless_error_def)

lemma and_then_assoc: "and_then (and_then m f) g = and_then m (\<lambda>a. and_then (f a) g)"
  by (simp add: fun_eq_iff and_then_def split: option.split sum.split prod.split)

lemma and_then_runs: "m s = Some (Inr a, t) \<Longrightarrow> and_then m f s = f a t"
  by (simp add: and_then_def)

subsection \<open>What every answer satisfies\<close>

definition gives :: "('e, 's, 'a) step \<Rightarrow> ('a \<Rightarrow> bool) \<Rightarrow> bool" where
  "gives m Q \<longleftrightarrow> (\<forall>s a t. m s = Some (Inr a, t) \<longrightarrow> Q a)"

lemma givesD: "gives m Q \<Longrightarrow> m s = Some (Inr a, t) \<Longrightarrow> Q a"
  by (auto simp: gives_def)

named_theorems gives_rules

lemma gives_give [gives_rules]: "Q a \<Longrightarrow> gives (give a) Q"
  by (auto simp: gives_def)

lemma gives_halt [gives_rules]: "gives (halt e) Q"
  by (auto simp: gives_def)

lemma gives_and_then [gives_rules]: "(\<And>a. gives (f a) Q) \<Longrightarrow> gives (and_then m f) Q"
  unfolding gives_def and_then_iff by blast

lemma gives_and_then_from: "gives m P \<Longrightarrow> (\<And>a. P a \<Longrightarrow> gives (f a) Q) \<Longrightarrow> gives (and_then m f) Q"
  unfolding gives_def and_then_iff by blast

lemma gives_if [gives_rules]: "(b \<Longrightarrow> gives m Q) \<Longrightarrow> (\<not> b \<Longrightarrow> gives n Q) \<Longrightarrow> gives (if b then m else n) Q"
  by simp

lemma gives_option [gives_rules]:
  "(x = None \<Longrightarrow> gives m Q) \<Longrightarrow> (\<And>a. x = Some a \<Longrightarrow> gives (f a) Q) \<Longrightarrow> gives (case x of None \<Rightarrow> m | Some a \<Rightarrow> f a) Q"
  by (simp split: option.split)

lemma gives_sum [gives_rules]:
  "(\<And>a. x = Inl a \<Longrightarrow> gives (f a) Q) \<Longrightarrow> (\<And>b. x = Inr b \<Longrightarrow> gives (g b) Q) \<Longrightarrow>
     gives (case x of Inl a \<Rightarrow> f a | Inr b \<Rightarrow> g b) Q"
  by (simp split: sum.split)

lemma gives_prod [gives_rules]: "(\<And>a b. x = (a, b) \<Longrightarrow> gives (f a b) Q) \<Longrightarrow> gives (case x of (a, b) \<Rightarrow> f a b) Q"
  by (simp split: prod.split)

lemma gives_Let [gives_rules]: "gives (f x) Q \<Longrightarrow> gives (let y = x in f y) Q"
  by simp

lemma gives_mono: "gives m P \<Longrightarrow> (\<And>a. P a \<Longrightarrow> Q a) \<Longrightarrow> gives m Q"
  by (auto simp: gives_def)

subsection \<open>What of the state is left alone\<close>

definition keeps :: "('s \<Rightarrow> 'v) \<Rightarrow> ('e, 's, 'a) step \<Rightarrow> bool" where
  "keeps g m \<longleftrightarrow> (\<forall>s x t. m s = Some (x, t) \<longrightarrow> g t = g s)"

lemma keepsD: "keeps g m \<Longrightarrow> m s = Some (x, t) \<Longrightarrow> g t = g s"
  by (simp add: keeps_def)

named_theorems keeps_rules

lemma keeps_give [keeps_rules]: "keeps g (give a)"
  by (simp add: keeps_def give_def)

lemma keeps_halt [keeps_rules]: "keeps g (halt e)"
  by (simp add: keeps_def halt_def)

lemma keeps_look [keeps_rules]: "keeps g (look f)"
  by (simp add: keeps_def look_def)

lemma keeps_alter [keeps_rules]: "(\<And>s. g (f s) = g s) \<Longrightarrow> keeps g (alter f)"
  by (simp add: keeps_def alter_def)

lemma keeps_and_then [keeps_rules]: "keeps g m \<Longrightarrow> (\<And>a. keeps g (f a)) \<Longrightarrow> keeps g (and_then m f)"
  unfolding keeps_def and_then_def by (fastforce split: option.splits prod.splits sum.splits)

lemma keeps_lift_sum [keeps_rules]: "keeps g (lift_sum h x)"
  by (cases x) (simp_all add: keeps_rules)

lemma keeps_unless_error [keeps_rules]: "keeps g (unless_error h x)"
  by (cases x) (simp_all add: keeps_rules)

lemma keeps_attempted [keeps_rules]: "keeps g m \<Longrightarrow> keeps g (attempted m)"
  unfolding keeps_def attempted_def by (auto split: option.splits)

end
