(* ===== verification/Owed_Properties.thy ===== *)
theory Owed_Properties
  imports Owed
begin

text \<open>
  What \<^verbatim>\<open>Owe\<close> and \<^verbatim>\<open>Settle\<close> promise together: the read-back with its caches agrees with reading
  each item on its own, a job moves on exactly when everything it owes is there, what is missing
  is made again under keys nobody used, an allowance that ran out leaves a new one behind, and
  every record the book keeps is one it can read.
\<close>

subsection \<open>Reading back\<close>

definition shown :: "book \<Rightarrow> owed_tracker \<Rightarrow> owed_item \<Rightarrow> owed_error + bool" where
  "shown b tk it = fst (there b tk it (\<lambda>_. None, \<lambda>_. None))"

definition cache_ok :: "owed_tracker \<Rightarrow> read_cache \<Rightarrow> bool" where
  "cache_ok tk cache \<longleftrightarrow>
     (\<forall>n l. fst cache n = Some l \<longrightarrow> ot_comments tk n = Inr l) \<and>
     (\<forall>n l. snd cache n = Some l \<longrightarrow> ot_labels tk n = Inr l)"

lemma there_cached:
  assumes "cache_ok tk cache"
  shows "fst (there b tk it cache) = shown b tk it" "cache_ok tk (snd (there b tk it cache))"
  using assms by (cases cache; cases "ow_what it";
      auto simp: there_def shown_def cache_ok_def split: option.splits sum.splits)+

definition unread :: "book \<Rightarrow> owed_tracker \<Rightarrow> owed_item \<Rightarrow> owed_error option" where
  "unread b tk it = (case shown b tk it of Inl e \<Rightarrow> Some e | Inr _ \<Rightarrow> None)"

lemma missing_from_cached:
  "cache_ok tk cache \<Longrightarrow> missing_from b tk its cache =
     (case first_error (unread b tk) its of
        Some e \<Rightarrow> Inl e
      | None \<Rightarrow> Inr (filter (\<lambda>it. shown b tk it = Inr False) its))"
proof (induction its arbitrary: cache)
  case (Cons it its)
  obtain r cache' where t: "there b tk it cache = (r, cache')" by (metis surj_pair)
  with there_cached [OF Cons.prems, of b it] have r: "r = shown b tk it" and c: "cache_ok tk cache'"
    by simp_all
  show ?case
    using Cons.IH [OF c] by (simp add: t r unread_def split: sum.splits option.splits)
qed simp

text \<open>The read-back reads each subject once, whatever number of items is on it, and finds missing
  exactly what reading every item back on its own would: if one of those reads fails, the first
  of the failures is its answer, and otherwise the items not shown, in their order.\<close>

theorem missing_items_reference:
  "missing_items b tk its =
     (case first_error (unread b tk) its of
        Some e \<Rightarrow> Inl e
      | None \<Rightarrow> Inr (filter (\<lambda>it. shown b tk it = Inr False) its))"
  unfolding missing_items_def by (rule missing_from_cached) (simp add: cache_ok_def)

lemma first_error_None: "first_error f xs = None \<longleftrightarrow> (\<forall>x\<in>set xs. f x = None)"
  by (induction xs) (auto split: option.splits)

lemma missing_items_Inr:
  "missing_items b tk its = Inr ms \<Longrightarrow> ms = filter (\<lambda>it. shown b tk it = Inr False) its"
  by (auto simp: missing_items_reference split: option.splits)

subsection \<open>Making items again\<close>

definition allowance_spent :: "book \<Rightarrow> db \<Rightarrow> owed_item \<Rightarrow> bool" where
  "allowance_spent b d it \<longleftrightarrow>
     (\<forall>k. ow_from it \<le> k \<and> k < ow_from it + max 1 (bk_rounds b) \<longrightarrow>
        is_reserved d (round_key (ow_stem it) k))"

definition made_afresh :: "book \<Rightarrow> db \<Rightarrow> owed_item \<Rightarrow> effect \<Rightarrow> bool" where
  "made_afresh b d it e \<longleftrightarrow>
     (\<exists>k key. ow_from it \<le> k \<and> k < ow_from it + max 1 (bk_rounds b) \<and> key = round_key (ow_stem it) k \<and>
        \<not> is_reserved d key \<and> (\<forall>m. ow_from it \<le> m \<and> m < k \<longrightarrow> is_reserved d (round_key (ow_stem it) m)) \<and>
        e = item_effect b it key)"

lemma effect_round_world:
  assumes "w_faults w = []"
  shows "snd (effect_round stem start bound w) = w"
  using round_scan_nf [OF assms, of stem start "nat (if bound < 1 then 1 else bound)"]
  by (simp add: effect_round_def Let_def split: option.splits)

lemma effect_round_cases:
  assumes "w_faults w = []"
  obtains (made) k where "effect_round (ow_stem it) (ow_from it) (bk_rounds b) w =
      (RoundKey (round_key (ow_stem it) k), w)"
    and "made_afresh b (w_db w) it (item_effect b it (round_key (ow_stem it) k))"
  | (spent) "effect_round (ow_stem it) (ow_from it) (bk_rounds b) w =
      (Spent (ow_stem it) (max 1 (bk_rounds b)) (ow_from it + max 1 (bk_rounds b)), w)"
    and "allowance_spent b (w_db w) it"
proof -
  let ?r = "effect_round (ow_stem it) (ow_from it) (bk_rounds b) w"
  have w: "snd ?r = w" by (rule effect_round_world [OF assms])
  note first = round_first [OF assms refl, of "ow_from it" "bk_rounds b" "ow_stem it"]
  show ?thesis
  proof (cases "fst ?r")
    case (RoundKey key)
    with first obtain k where k: "ow_from it \<le> k" "k < ow_from it + max 1 (bk_rounds b)"
      "key = round_key (ow_stem it) k" "\<not> is_reserved (w_db w) key"
      "\<forall>m. ow_from it \<le> m \<and> m < k \<longrightarrow> is_reserved (w_db w) (round_key (ow_stem it) m)" by auto
    then have "made_afresh b (w_db w) it (item_effect b it (round_key (ow_stem it) k))"
      unfolding made_afresh_def by blast
    moreover have "?r = (RoundKey (round_key (ow_stem it) k), w)"
      using RoundKey w k(3) by (metis prod.collapse)
    ultimately show ?thesis by (rule made [rotated])
  next
    case (Spent s n nxt)
    with first have "s = ow_stem it" "n = max 1 (bk_rounds b)"
      "nxt = ow_from it + max 1 (bk_rounds b)" "allowance_spent b (w_db w) it"
      by (auto simp: allowance_spent_def)
    with Spent w show ?thesis by (metis spent prod.collapse)
  next
    case (RoundError e)
    with first show ?thesis by simp
  qed
qed
lemma spent_not_made: "made_afresh b d it e \<Longrightarrow> \<not> allowance_spent b d it"
  by (auto simp: made_afresh_def allowance_spent_def)

lemma effects_loop_made:
  assumes "w_faults w = []" and "list_all (\<lambda>it. \<not> allowance_spent b (w_db w) it) its"
  shows "\<exists>es. effects_loop b shared rs its w = (Inr (es, [], rs), w) \<and>
    list_all2 (made_afresh b (w_db w)) its es"
  using assms(2)
proof (induction its)
  case (Cons it its)
  then obtain es where es: "effects_loop b shared rs its w = (Inr (es, [], rs), w)"
    "list_all2 (made_afresh b (w_db w)) its es" by auto
  show ?case
  proof (cases rule: effect_round_cases [OF assms(1), of it b, case_names made spent])
    case (made k)
    with es show ?thesis by simp
  next
    case spent
    with Cons.prems show ?thesis by simp
  qed
qed simp

definition spent_round :: "book \<Rightarrow> db \<Rightarrow> owed_item list \<Rightarrow> owed_item \<Rightarrow> owed_item" where
  "spent_round b d its r =
     (case find (\<lambda>it. ow_stem it = ow_stem r \<and> allowance_spent b d it) its of
        None \<Rightarrow> r
      | Some it \<Rightarrow> r\<lparr>ow_from := ow_from it + max 1 (bk_rounds b)\<rparr>)"

lemma effects_loop_settling:
  assumes "w_faults w = []" and "distinct (map ow_stem its)"
  shows "\<exists>es. effects_loop b False rs its w =
    (Inr (es, map (\<lambda>it. (ow_stem it, max 1 (bk_rounds b))) (filter (allowance_spent b (w_db w)) its),
       map (spent_round b (w_db w) its) rs), w)"
  using assms(2)
proof (induction its arbitrary: rs)
  case Nil
  have "spent_round b (w_db w) [] = (\<lambda>r. r)" by (simp add: spent_round_def fun_eq_iff)
  then show ?case by simp
next
  case (Cons it its)
  show ?case
  proof (cases rule: effect_round_cases [OF assms(1), of it b, case_names made spent])
    case (made k)
    then have n: "\<not> allowance_spent b (w_db w) it" by (blast dest: spent_not_made)
    then have "spent_round b (w_db w) (it # its) = spent_round b (w_db w) its"
      by (simp add: spent_round_def fun_eq_iff)
    moreover obtain es where "effects_loop b False rs its w =
      (Inr (es, map (\<lambda>it. (ow_stem it, max 1 (bk_rounds b))) (filter (allowance_spent b (w_db w)) its),
       map (spent_round b (w_db w) its) rs), w)" using Cons by auto
    ultimately show ?thesis using made n by simp
  next
    case spent
    let ?nxt = "ow_from it + max 1 (bk_rounds b)"
    have no: "find (\<lambda>it'. ow_stem it' = ow_stem it \<and> allowance_spent b (w_db w) it') its = None"
      using Cons.prems by (auto simp: find_None image_iff)
    have "map (spent_round b (w_db w) its) (move_on (ow_stem it) ?nxt rs) =
        map (spent_round b (w_db w) (it # its)) rs"
      using spent(2) no by (auto simp: move_on_def spent_round_def)
    moreover obtain es where "effects_loop b False (move_on (ow_stem it) ?nxt rs) its w =
      (Inr (es, map (\<lambda>it. (ow_stem it, max 1 (bk_rounds b))) (filter (allowance_spent b (w_db w)) its),
       map (spent_round b (w_db w) its) (move_on (ow_stem it) ?nxt rs)), w)" using Cons by fastforce
    ultimately show ?thesis using spent by simp
  qed
qed

subsection \<open>What a read-back decides\<close>

text \<open>C32: A read-back that can read the tracker moves the job on, to where its decision said, exactly
  when every item owed is there; otherwise it keeps the job where it is, due at once, and makes
  each missing item again, one effect for each, in order, under the first key of the item's
  allowance that no commit has reserved. It fails only when a missing item's allowance is used up, or when
  the record cannot be removed.\<close>

theorem settle_decides:
  assumes "w_faults w = []" and "owed_load b (j_id j) sh = Inr (Some r)"
    and "missing_items b tk (or_items r) = Inr ms"
  shows "(case fst (settle b tk j now lost sh w) of
      Inr res \<Rightarrow>
        if ms = [] then list_all (\<lambda>it. shown b tk it = Inr True) (or_items r) \<and> res = owed_next now r
        else res_state res = j_state j \<and> res_run_at res = Some now \<and>
          list_all2 (made_afresh b (w_db w)) ms (res_effects res)
    | Inl e \<Rightarrow>
        if ms = [] then sh_remove_error sh \<noteq> None else list_ex (allowance_spent b (w_db w)) ms)"
proof (cases ms)
  case Nil
  then have "filter (\<lambda>it. shown b tk it = Inr False) (or_items r) = []"
    using missing_items_Inr [OF assms(3)] by simp
  moreover have "first_error (unread b tk) (or_items r) = None"
    using assms(3) by (auto simp: missing_items_reference split: option.splits)
  ultimately have "list_all (\<lambda>it. shown b tk it = Inr True) (or_items r)"
    by (auto simp: list_all_iff filter_empty_conv first_error_None unread_def split: sum.splits)
      (metis (full_types) sum.exhaust)
  with Nil show ?thesis
    by (simp add: settle_def assms(2,3) owed_remove_def split: option.split)
next
  case (Cons m rest)
  then have settle: "settle b tk j now lost sh w =
      (case owed_effects b False (j_id j) r ms sh w of
         (Inl e, sh', w') \<Rightarrow> (Inl e, sh', w')
       | (Inr es, sh', w') \<Rightarrow> (Inr \<lparr>res_state = j_state j, res_run_at = Some now, res_effects = es,
           res_exhausted = None\<rparr>, sh', w'))"
    by (simp add: settle_def assms(2,3))
  show ?thesis
  proof (cases "list_all (\<lambda>it. \<not> allowance_spent b (w_db w) it) ms")
    case True
    then obtain es where "effects_loop b False (or_items r) ms w = (Inr (es, [], or_items r), w)"
      "list_all2 (made_afresh b (w_db w)) ms es" using effects_loop_made [OF assms(1)] by blast
    then show ?thesis by (simp add: settle owed_effects_def Cons)
  next
    case False
    then have ex: "list_ex (allowance_spent b (w_db w)) ms" by (auto simp: list_all_iff list_ex_iff)
    have "list_all (\<lambda>it. \<not> allowance_spent b (w_db w) it) ms"
      if "effects_loop b False (or_items r) ms w = (Inr (es, [], rs), w')" for es rs w'
      using that
    proof (induction ms arbitrary: es rs w')
      case (Cons it its)
      then show ?case
        by (cases rule: effect_round_cases [OF assms(1), of it b, case_names made spent])
          (auto dest: spent_not_made split: sum.splits prod.splits)
    qed simp
    with False have "\<not> (\<exists>es rs w'. effects_loop b False (or_items r) ms w = (Inr (es, [], rs), w'))"
      by blast
    then have "\<not> (\<exists>es sh' w'. owed_effects b False (j_id j) r ms sh w = (Inr es, sh', w'))"
      by (auto simp: owed_effects_def split: sum.splits prod.splits if_splits)
    then have "\<exists>e. fst (settle b tk j now lost sh w) = Inl e"
      by (auto simp: settle split: sum.splits prod.splits)
    with ex Cons show ?thesis by auto
  qed
qed


subsection \<open>A new allowance\<close>

lemma item_error_from [simp]: "item_error (it\<lparr>ow_from := n\<rparr>) = item_error it"
  by (simp add: item_error_def cong: if_cong)

lemma there_from [simp]: "there b tk (it\<lparr>ow_from := n\<rparr>) cache = there b tk it cache"
  by (cases cache; cases "ow_what it"; simp add: there_def cong: option.case_cong sum.case_cong)

lemma shown_from [simp]: "shown b tk (it\<lparr>ow_from := n\<rparr>) = shown b tk it"
  by (simp add: shown_def)

lemma spent_of_same [simp]:
  "ow_stem (spent_round b d its r) = ow_stem r" "item_error (spent_round b d its r) = item_error r"
  "shown b tk (spent_round b d its r) = shown b tk r" "unread b tk (spent_round b d its r) = unread b tk r"
  by (simp_all add: spent_round_def unread_def split: option.split)

lemma first_error_map: "(\<And>x. f (g x) = f x) \<Longrightarrow> first_error f (map g xs) = first_error f xs"
  by (induction xs) (auto split: option.splits)

lemma missing_items_spent:
  "missing_items b tk (map (spent_round b d its) rs) =
     (case missing_items b tk rs of Inl e \<Rightarrow> Inl e | Inr ms \<Rightarrow> Inr (map (spent_round b d its) ms))"
  by (simp add: missing_items_reference first_error_map filter_map comp_def split: option.split)

lemma owed_load_Some:
  "owed_load b jid sh = Inr (Some r) \<longleftrightarrow>
     bk_dir b \<noteq> '''' \<and> sh_files sh jid = Some (Recorded r) \<and> or_next r \<noteq> '''' \<and> or_items r \<noteq> [] \<and>
     first_error item_error (or_items r) = None"
  by (auto simp: owed_load_def split: option.splits owed_file.splits if_splits)

lemma spent_of_member:
  assumes "distinct (map ow_stem its)" and "it \<in> set its"
  shows "spent_round b d its it =
    (if allowance_spent b d it then it\<lparr>ow_from := ow_from it + max 1 (bk_rounds b)\<rparr> else it)"
proof -
  have "find (\<lambda>i. ow_stem i = ow_stem it \<and> allowance_spent b d i) its =
      (if allowance_spent b d it then Some it else None)"
    using assms by (induction its) (auto simp: find_None image_iff)
  then show ?thesis by (simp add: spent_round_def)
qed

text \<open>When an item was made as often as its allowance has rounds and still is not there, the
  read-back fails, and by failing moves the allowance of each such item on: the record it leaves
  is the one it found but for that. The attempt after it - a retry, or an operator freeing the
  parked job - makes every missing item again, each under a key nobody used, rather than failing
  at once.\<close>

theorem spent_allowance_moves_on:
  assumes "w_faults w = []" and "owed_load b (j_id j) sh = Inr (Some r)"
    and "missing_items b tk (or_items r) = Inr ms" and "distinct (map ow_stem ms)"
    and "list_ex (allowance_spent b (w_db w)) ms" and "sh_write_error sh = None"
    and "list_all (\<lambda>it. \<not> is_reserved (w_db w)
      (round_key (ow_stem it) (ow_from it + max 1 (bk_rounds b)))) ms"
  shows "\<exists>sh' res. settle b tk j now lost sh w =
      (Inl (RoundsSpent (map (\<lambda>it. (ow_stem it, max 1 (bk_rounds b)))
         (filter (allowance_spent b (w_db w)) ms)) None), sh', w) \<and>
    settle b tk j later lost sh' w = (Inr res, sh', w) \<and>
    res_state res = j_state j \<and> res_run_at res = Some later \<and>
    map (\<lambda>e. \<not> is_reserved (w_db w) (e_key e)) (res_effects res) = map (\<lambda>_. True) ms"
proof -
  let ?d = "w_db w"
  define r' where "r' = r\<lparr>or_items := map (spent_round b ?d ms) (or_items r)\<rparr>"
  define sh' where "sh' = sh\<lparr>sh_files := (sh_files sh)(j_id j \<mapsto> Recorded r')\<rparr>"
  from assms(2) have dir: "bk_dir b \<noteq> ''''" by (simp add: owed_load_Some)
  obtain m rest where ms: "ms = m # rest" using assms(5) by (cases ms) auto
  obtain es where "effects_loop b False (or_items r) ms w =
    (Inr (es, map (\<lambda>it. (ow_stem it, max 1 (bk_rounds b))) (filter (allowance_spent b ?d) ms),
       or_items r'), w)"
    using effects_loop_settling [OF assms(1,4)] by (auto simp: r'_def)
  moreover have "filter (allowance_spent b ?d) ms \<noteq> []"
    using assms(5) by (auto simp: list_ex_iff filter_empty_conv)
  moreover have "r\<lparr>or_items := or_items r'\<rparr> = r'" by (simp add: r'_def)
  moreover have "owed_save b (j_id j) r' sh = (None, sh')"
    by (simp add: owed_save_def dir assms(6) sh'_def)
  ultimately have first: "owed_effects b False (j_id j) r ms sh w =
      (Inl (RoundsSpent (map (\<lambda>it. (ow_stem it, max 1 (bk_rounds b)))
         (filter (allowance_spent b ?d) ms)) None), sh', w)"
    by (simp add: owed_effects_def)
  then have one: "settle b tk j now lost sh w =
      (Inl (RoundsSpent (map (\<lambda>it. (ow_stem it, max 1 (bk_rounds b)))
         (filter (allowance_spent b ?d) ms)) None), sh', w)"
    by (simp add: settle_def assms(2,3) ms)
  have load: "owed_load b (j_id j) sh' = Inr (Some r')"
    using assms(2) by (simp add: owed_load_Some sh'_def r'_def first_error_map)
  have ms': "missing_items b tk (or_items r') = Inr (map (spent_round b ?d ms) ms)"
    by (simp add: r'_def missing_items_spent assms(3))
  have "\<not> allowance_spent b ?d (spent_round b ?d ms it)" if it: "it \<in> set ms" for it
  proof (cases "allowance_spent b ?d it")
    case True
    have "\<not> is_reserved ?d (round_key (ow_stem it) (ow_from it + max 1 (bk_rounds b)))"
      using assms(7) it by (simp add: list_all_iff)
    with True spent_of_member [OF assms(4) it, of b ?d] show ?thesis
      by (auto simp: allowance_spent_def intro!: exI [of _ "ow_from it + max 1 (bk_rounds b)"])
  next
    case False
    with spent_of_member [OF assms(4) it, of b ?d] show ?thesis by simp
  qed
  then have "list_all (\<lambda>it. \<not> allowance_spent b ?d it) (map (spent_round b ?d ms) ms)"
    by (simp add: list_all_iff)
  then obtain es' where es': "effects_loop b False (or_items r') (map (spent_round b ?d ms) ms) w =
      (Inr (es', [], or_items r'), w)"
    and fresh: "list_all2 (made_afresh b ?d) (map (spent_round b ?d ms) ms) es'"
    using effects_loop_made [OF assms(1)] by blast
  from fresh have "map (\<lambda>e. \<not> is_reserved ?d (e_key e)) es' = map (\<lambda>_. True) ms"
    by (auto simp: list_all2_conv_all_nth made_afresh_def item_effect_def intro!: nth_equalityI)
  moreover have "settle b tk j later lost sh' w = (Inr \<lparr>res_state = j_state j,
      res_run_at = Some later, res_effects = es', res_exhausted = None\<rparr>, sh', w)"
    using es' ms' by (simp add: settle_def load owed_effects_def ms)
  ultimately show ?thesis using one by (intro exI conjI) auto
qed


subsection \<open>Owing\<close>

lemma start_items_ok:
  assumes "w_faults w = []" and "db_ok (w_db w)" and "first_error item_error its = None"
  shows "\<exists>out. start_items its w = Some (Inr out, w) \<and>
    list_all2 (\<lambda>it it'. it' = it\<lparr>ow_from := ow_from it'\<rparr> \<and> 0 \<le> ow_from it' \<and>
      \<not> is_reserved (w_db w) (round_key (ow_stem it) (ow_from it')) \<and>
      (\<forall>k. 0 \<le> k \<and> k < ow_from it' \<longrightarrow> is_reserved (w_db w) (round_key (ow_stem it) k))) its out"
  using assms(3)
proof (induction its)
  case (Cons it its)
  then have e: "item_error it = None" and "first_error item_error its = None"
    by (auto split: option.splits)
  with Cons.IH obtain out where out: "start_items its w = Some (Inr out, w)"
    "list_all2 (\<lambda>it it'. it' = it\<lparr>ow_from := ow_from it'\<rparr> \<and> 0 \<le> ow_from it' \<and>
      \<not> is_reserved (w_db w) (round_key (ow_stem it) (ow_from it')) \<and>
      (\<forall>k. 0 \<le> k \<and> k < ow_from it' \<longrightarrow> is_reserved (w_db w) (round_key (ow_stem it) k))) its out"
    by auto
  obtain i where i: "0 \<le> i" "next_round (ow_stem it) w = Some ((i, None), w)"
    "\<not> is_reserved (w_db w) (round_key (ow_stem it) i)"
    "\<forall>k. 0 \<le> k \<and> k < i \<longrightarrow> is_reserved (w_db w) (round_key (ow_stem it) k)"
    using next_round_ends [OF assms(1,2)] by blast
  then have "start_items (it # its) w = Some (Inr (it\<lparr>ow_from := i\<rparr> # out), w)"
    by (simp add: e out(1))
  with i out(2) show ?case by simp
qed simp

lemma owe_recorded:
  assumes "w_faults w = []" and "db_ok (w_db w)" and "bk_dir b \<noteq> ''''" and "sh_write_error sh = None"
    and "or_next r \<noteq> ''''" and "or_items r \<noteq> []" and "first_error item_error (or_items r) = None"
  shows "\<exists>res sh' r'. owe b j now state r sh w = Some (Inr res, sh', w) \<and>
    res_state res = state \<and> res_run_at res = Some now \<and>
    owed_load b (j_id j) sh' = Inr (Some r') \<and> or_next r' = or_next r \<and> or_due r' = or_due r \<and>
    list_all2 (\<lambda>it it'. it' = it\<lparr>ow_from := ow_from it'\<rparr>) (or_items r) (or_items r') \<and>
    list_all2 (\<lambda>it e. \<exists>k\<ge>0. e_key e = round_key (ow_stem it) k \<and> \<not> is_reserved (w_db w) (e_key e) \<and>
      (\<forall>m. 0 \<le> m \<and> m < k \<longrightarrow> is_reserved (w_db w) (round_key (ow_stem it) m))) (or_items r) (res_effects res)"
proof -
  obtain its where its: "start_items (or_items r) w = Some (Inr its, w)"
    and ok: "list_all2 (\<lambda>it it'. it' = it\<lparr>ow_from := ow_from it'\<rparr> \<and> 0 \<le> ow_from it' \<and>
      \<not> is_reserved (w_db w) (round_key (ow_stem it) (ow_from it')) \<and>
      (\<forall>k. 0 \<le> k \<and> k < ow_from it' \<longrightarrow> is_reserved (w_db w) (round_key (ow_stem it) k))) (or_items r) its"
    using start_items_ok [OF assms(1,2,7)] by blast
  define r' where "r' = r\<lparr>or_items := its\<rparr>"
  define sh' where "sh' = sh\<lparr>sh_files := (sh_files sh)(j_id j \<mapsto> Recorded r')\<rparr>"
  have stems: "ow_stem it' = ow_stem it" "item_error it' = item_error it"
    if "it' = it\<lparr>ow_from := ow_from it'\<rparr>" for it it'
    using arg_cong [OF that, of ow_stem] arg_cong [OF that, of item_error] by simp_all
  have "list_all (\<lambda>it. \<not> allowance_spent b (w_db w) it) its"
    using ok by (induction rule: list_all2_induct)
      (auto simp: allowance_spent_def dest!: stems(1) intro!: exI [of _ "ow_from _"])
  then obtain es where es: "effects_loop b True its its w = (Inr (es, [], its), w)"
    and fresh: "list_all2 (made_afresh b (w_db w)) its es" using effects_loop_made [OF assms(1)] by blast
  have save: "owed_save b (j_id j) r' sh = (None, sh')"
    by (simp add: owed_save_def assms(3,4) sh'_def)
  have run: "owe b j now state r sh w = Some (Inr \<lparr>res_state = state, res_run_at = Some now,
      res_effects = es, res_exhausted = None\<rparr>, sh', w)"
    using es save by (simp add: owe_def assms(5,6) its owed_effects_def r'_def)
  have "its \<noteq> []" using ok assms(6) by auto
  moreover have "first_error item_error its = None"
    using ok assms(7) by (induction rule: list_all2_induct) (auto dest!: stems(2) split: option.splits)
  ultimately have load: "owed_load b (j_id j) sh' = Inr (Some r')"
    by (simp add: owed_load_Some sh'_def r'_def assms(3,5))
  have keys: "list_all2 (\<lambda>it e. \<exists>k\<ge>0. e_key e = round_key (ow_stem it) k \<and> \<not> is_reserved (w_db w) (e_key e) \<and>
      (\<forall>m. 0 \<le> m \<and> m < k \<longrightarrow> is_reserved (w_db w) (round_key (ow_stem it) m))) (or_items r) es"
    unfolding list_all2_conv_all_nth
  proof (intro conjI allI impI)
    show "length (or_items r) = length es" using ok fresh by (auto dest!: list_all2_lengthD)
    fix n assume n: "n < length (or_items r)"
    let ?it = "or_items r ! n" and ?it' = "its ! n"
    have o: "?it' = ?it\<lparr>ow_from := ow_from ?it'\<rparr>" "0 \<le> ow_from ?it'"
      "\<forall>k. 0 \<le> k \<and> k < ow_from ?it' \<longrightarrow> is_reserved (w_db w) (round_key (ow_stem ?it) k)"
      "\<not> is_reserved (w_db w) (round_key (ow_stem ?it) (ow_from ?it'))"
      using ok n by (auto simp: list_all2_conv_all_nth)
    have "made_afresh b (w_db w) ?it' (es ! n)" using fresh n ok by (auto simp: list_all2_conv_all_nth)
    then obtain k where k: "ow_from ?it' \<le> k" "\<not> is_reserved (w_db w) (round_key (ow_stem ?it) k)"
      "\<forall>m. ow_from ?it' \<le> m \<and> m < k \<longrightarrow> is_reserved (w_db w) (round_key (ow_stem ?it) m)"
      "es ! n = item_effect b ?it' (round_key (ow_stem ?it) k)"
      unfolding made_afresh_def stems(1) [OF o(1)] by blast
    have "k = ow_from ?it'" using k(1-3) o(4) by (metis order_le_less order_refl)
    show "\<exists>k\<ge>0. e_key (es ! n) = round_key (ow_stem ?it) k \<and> \<not> is_reserved (w_db w) (e_key (es ! n)) \<and>
      (\<forall>m. 0 \<le> m \<and> m < k \<longrightarrow> is_reserved (w_db w) (round_key (ow_stem ?it) m))"
      using k(2,4) o(2,3) \<open>k = ow_from ?it'\<close> by (intro exI [of _ k]) (simp add: item_effect_def)
  qed
  have "list_all2 (\<lambda>it it'. it' = it\<lparr>ow_from := ow_from it'\<rparr>) (or_items r) its"
    using ok by (rule list_all2_mono) blast
  with run load keys show ?thesis
    by (intro exI [of _ "\<lparr>res_state = state, res_run_at = Some now, res_effects = es,
      res_exhausted = None\<rparr>"] exI [of _ sh'] exI [of _ r']) (simp add: r'_def)
qed

text \<open>C33: A decision that owes the tracker something always comes to its read-back: looking for the
  keys ends, the job goes to the read-back state, due at once, and its effects are one for each
  item, in order, under the first key of the item's stem that no commit has reserved. The record
  is on disk by then, and is the one the read-back will find: the same items, and the same place
  to go next.\<close>

theorem owe_leaves_its_record:
  assumes "w_faults w = []" and "db_ok (w_db w)" and "bk_dir b \<noteq> ''''" and "sh_write_error sh = None"
    and "or_next r \<noteq> ''''" and "or_items r \<noteq> []" and "first_error item_error (or_items r) = None"
  shows "\<exists>res sh' r'. owe b j now state r sh w = Some (Inr res, sh', w) \<and>
    res_state res = state \<and> res_run_at res = Some now \<and>
    owed_load b (j_id j) sh' = Inr (Some r') \<and> or_next r' = or_next r \<and> or_due r' = or_due r \<and>
    list_all2 (\<lambda>it it'. it' = it\<lparr>ow_from := ow_from it'\<rparr>) (or_items r) (or_items r') \<and>
    list_all2 (\<lambda>it e. \<exists>k\<ge>0. e_key e = round_key (ow_stem it) k \<and> \<not> is_reserved (w_db w) (e_key e) \<and>
      (\<forall>m. 0 \<le> m \<and> m < k \<longrightarrow> is_reserved (w_db w) (round_key (ow_stem it) m))) (or_items r) (res_effects res)"
  by (rule owe_recorded [OF assms])

subsection \<open>Every record kept is readable\<close>

text \<open>What the shelf goes through: the two operations of any book, and writes and removals that
  start or stop failing.\<close>

inductive shelf_run :: "shelf \<Rightarrow> shelf \<Rightarrow> bool" where
  start: "shelf_run sh sh"
| owing: "shelf_run sh0 sh \<Longrightarrow> owe b j now state r sh w = Some (res, sh', w') \<Longrightarrow> shelf_run sh0 sh'"
| settling: "shelf_run sh0 sh \<Longrightarrow> settle b tk j now lost sh w = (res, sh', w') \<Longrightarrow> shelf_run sh0 sh'"
| weather: "shelf_run sh0 sh \<Longrightarrow> shelf_run sh0 (sh\<lparr>sh_write_error := e, sh_remove_error := e'\<rparr>)"

inductive_cases shelf_runE: "shelf_run sh0 sh"

definition record_ok :: "owed_record \<Rightarrow> bool" where
  "record_ok r \<longleftrightarrow> or_next r \<noteq> '''' \<and> or_items r \<noteq> [] \<and> first_error item_error (or_items r) = None"

definition shelf_ok :: "shelf \<Rightarrow> bool" where
  "shelf_ok sh \<longleftrightarrow> (\<forall>jid f. sh_files sh jid = Some f \<longrightarrow> (\<exists>r. f = Recorded r \<and> record_ok r))"

lemma save_ok: "shelf_ok sh \<Longrightarrow> record_ok r \<Longrightarrow> owed_save b jid r sh = (e, sh') \<Longrightarrow> shelf_ok sh'"
  by (auto simp: shelf_ok_def owed_save_def split: if_splits option.splits)

lemma move_on_ok [simp]: "first_error item_error (move_on stem n its) = first_error item_error its"
  unfolding move_on_def by (rule first_error_map) simp

lemma effects_loop_items:
  "effects_loop b shared rs its w = (Inr (es, errs, rs'), w') \<Longrightarrow>
     first_error item_error rs' = first_error item_error rs \<and> length rs' = length rs"
proof (induction b shared rs its w arbitrary: es errs rs' w' rule: effects_loop.induct)
  case (2 b shared rs it its w)
  then show ?case
    by (auto split: prod.splits sum.splits round_result.splits)
qed simp

lemma effects_ok:
  assumes "shelf_ok sh" and "record_ok r" and "owed_effects b shared jid r its sh w = (res, sh', w')"
  shows "shelf_ok sh'"
proof (cases "effects_loop b shared (or_items r) its w")
  case (Pair q w1)
  show ?thesis
  proof (cases q)
    case (Inl e)
    with Pair assms show ?thesis by (simp add: owed_effects_def)
  next
    case (Inr x)
    obtain es errs rs where x: "x = (es, errs, rs)" by (metis prod.collapse)
    with Pair Inr have "first_error item_error rs = first_error item_error (or_items r) \<and>
        length rs = length (or_items r)" using effects_loop_items by blast
    with assms(2) have "record_ok (r\<lparr>or_items := rs\<rparr>)" by (auto simp: record_ok_def)
    with Pair Inr x assms(1,3) show ?thesis
      by (auto simp: owed_effects_def split: if_splits prod.splits dest: save_ok)
  qed
qed

lemma start_items_length:
  "start_items its w = Some (Inr out, w') \<Longrightarrow>
     length out = length its \<and> first_error item_error out = None"
proof (induction its arbitrary: out w)
  case (Cons it its)
  then show ?case by (auto split: option.splits prod.splits sum.splits)
qed simp

lemma owe_ok:
  assumes "shelf_ok sh" and "owe b j now state r sh w = Some (res, sh', w')"
  shows "shelf_ok sh'"
proof (cases "or_next r = '''' \<or> or_items r = []")
  case True
  with assms show ?thesis by (auto simp: owe_def split: if_splits)
next
  case False
  show ?thesis
  proof (cases "\<exists>its w1. start_items (or_items r) w = Some (Inr its, w1)")
    case True
    then obtain its w1 where its: "start_items (or_items r) w = Some (Inr its, w1)" by blast
    let ?r = "r\<lparr>or_items := its\<rparr>"
    from start_items_length [OF its] False have r: "record_ok ?r" by (auto simp: record_ok_def)
    obtain e sh1 where save: "owed_save b (j_id j) ?r sh = (e, sh1)" by (metis surj_pair)
    then have sh1: "shelf_ok sh1" using save_ok assms(1) r by blast
    show ?thesis
    proof (cases e)
      case None
      then show ?thesis
        using assms(2) False its save effects_ok [OF sh1 r]
        by (auto simp: owe_def Let_def split: prod.splits sum.splits)
    next
      case (Some x)
      with assms(2) False its save sh1 show ?thesis by (auto simp: owe_def Let_def)
    qed
  next
    case no: False
    with assms False show ?thesis by (auto simp: owe_def split: option.splits prod.splits sum.splits)
  qed
qed

lemma settle_ok:
  assumes "shelf_ok sh" and "settle b tk j now lost sh w = (res, sh', w')"
  shows "shelf_ok sh'"
proof (cases "\<exists>r. owed_load b (j_id j) sh = Inr (Some r)")
  case True
  then obtain r where r: "owed_load b (j_id j) sh = Inr (Some r)" by blast
  then have ok: "record_ok r" by (auto simp: owed_load_Some record_ok_def)
  have gone: "shelf_ok sh1" if "owed_remove (j_id j) sh = (e, sh1)" for e sh1
    using that assms(1) by (auto simp: owed_remove_def shelf_ok_def split: option.splits if_splits)
  from assms(2) r gone effects_ok [OF assms(1) ok] show ?thesis
    using assms(1)
    by (auto simp: settle_def split: sum.splits list.splits prod.splits option.splits)
next
  case False
  with assms show ?thesis by (auto simp: settle_def split: sum.splits option.splits)
qed

lemma shelf_run_ok: "shelf_run sh0 sh \<Longrightarrow> shelf_ok sh0 \<Longrightarrow> shelf_ok sh"
proof (induction rule: shelf_run.induct)
  case (weather sh0 sh e e')
  then show ?case by (simp add: shelf_ok_def)
qed (blast dest: owe_ok settle_ok)+

text \<open>A record the books kept is one they can read: in a state directory that only they write to,
  whatever they are asked to owe, however often writing, removing, the store or the tracker fails
  in between, reading what a job owes back never finds it undecodable, incomplete or malformed.\<close>

theorem kept_records_load:
  assumes "shelf_run \<lparr>sh_files = (\<lambda>_. None), sh_write_error = e, sh_remove_error = e'\<rparr> sh"
    and "bk_dir b \<noteq> ''''"
  shows "\<exists>kept. owed_load b jid sh = Inr kept"
proof -
  have ok: "shelf_ok sh" by (rule shelf_run_ok [OF assms(1)]) (simp add: shelf_ok_def)
  show ?thesis
  proof (cases "sh_files sh jid")
    case None
    with assms(2) show ?thesis by (simp add: owed_load_def)
  next
    case (Some f)
    with ok obtain r where "f = Recorded r" "record_ok r" by (auto simp: shelf_ok_def)
    with Some assms(2) have "owed_load b jid sh = Inr (Some r)"
      by (simp add: owed_load_Some record_ok_def)
    then show ?thesis ..
  qed
qed

subsection \<open>Examples\<close>

definition example_owed_tracker :: "gh_comment list \<Rightarrow> owed_tracker" where
  "example_owed_tracker cs = \<lparr>ot_labels = (\<lambda>_. Inr [''ready'']), ot_comments = (\<lambda>_. Inr cs),
     ot_reactions = (\<lambda>_. Inr []), ot_issue_reactions = (\<lambda>_. Inr []),
     ot_review_reactions = (\<lambda>_. Inr []), ot_write = (\<lambda>_. None)\<rparr>"

definition example_book :: book where
  "example_book = \<lparr>bk_login = ''afk'', bk_rounds = 1, bk_dir = ''/var/afk'', bk_reviews = False,
     bk_later = (\<lambda>_. example_owed_tracker []), bk_text = (\<lambda>_. ''failed'')\<rparr>"

definition settling_job :: job where
  "settling_job = \<lparr>j_id = ''implement-issue-7'', j_kind = KindImplement,
     j_subject = \<lparr>sub_type = SubjectIssue, sub_number = 7\<rparr>, j_state = ''settling'', j_attempts = 0,
     j_stays = 0, j_next = Some 50, j_lease = None\<rparr>"

definition example_items :: "owed_item list" where
  "example_items = [said_item ''push'' 7 ''m'' ''m: done'', label_item ''label'' 7 ''ready'']"

definition example_record :: owed_record where
  "example_record = \<lparr>or_next = ''done'', or_due = False, or_items = example_items\<rparr>"

definition example_shelf :: shelf where
  "example_shelf = \<lparr>sh_files = [j_id settling_job \<mapsto> Recorded example_record], sh_write_error = None,
     sh_remove_error = None\<rparr>"

lemmas example_owed_defs = settling_job_def
  example_owed_tracker_def example_book_def example_items_def example_record_def example_shelf_def

lemma example_owed:
  "owed_load example_book (j_id settling_job) example_shelf = Inr (Some example_record)"
  "missing_items example_book (example_owed_tracker []) (or_items example_record) =
     Inr [said_item ''push'' 7 ''m'' ''m: done'']"
  "missing_items example_book (example_owed_tracker [\<lparr>cm_id = 1, cm_body = ''m: done'',
     cm_login = ''AFK'', cm_association = ''MEMBER'', cm_created_at = None\<rparr>]) (or_items example_record) = Inr []"
  by code_simp+

theorem settle_decides_witness:
  "\<exists>res. fst (settle example_book (example_owed_tracker []) settling_job 50 (owed_next 50 example_record) example_shelf
      \<lparr>w_db = empty_db, w_faults = [], w_done = []\<rparr>) = Inr res \<and>
    res_state res = ''settling'' \<and> length (res_effects res) = 1"
proof -
  have "\<not> allowance_spent example_book empty_db (said_item ''push'' 7 ''m'' ''m: done'')"
    by (auto simp: allowance_spent_def is_reserved_def empty_db_def example_owed_defs
        intro!: exI [of _ 0] simp: said_item_def blank_item_def)
  with settle_decides [OF _ example_owed(1,2), of "\<lparr>w_db = empty_db, w_faults = [], w_done = []\<rparr>" 50 "owed_next 50 example_record"]
  show ?thesis
    by (auto simp: settling_job_def split: sum.splits dest: list_all2_lengthD)
qed

theorem spent_allowance_moves_on_witness:
  "\<exists>sh' e. settle example_book (example_owed_tracker []) settling_job 50 (owed_next 50 example_record) example_shelf example_world =
      (Inl (RoundsSpent [(''push'', 1)] None), sh', example_world) \<and>
    fst (settle example_book (example_owed_tracker []) settling_job 60 (owed_next 50 example_record) sh' example_world) = Inr e"
proof -
  have d: "dec 0 = ''0''" "dec 1 = ''1''" by code_simp+
  have w: "w_faults example_world = []" by (simp add: example_world_def)
  have k0: "0 \<le> k \<and> k < 1 \<longleftrightarrow> k = 0" for k :: int by auto
  have s: "allowance_spent example_book (w_db example_world) (said_item ''push'' 7 ''m'' ''m: done'')"
    by (simp add: k0 allowance_spent_def is_reserved_def example_world_def example_owed_defs round_key_def
        said_item_def blank_item_def d)
  have n: "\<not> is_reserved (w_db example_world) (round_key ''push'' 1)"
    by (simp add: is_reserved_def example_world_def round_key_def d)
  have r: "max 1 (bk_rounds example_book) = 1" by (simp add: example_book_def)
  have i: "ow_stem (said_item ''push'' 7 ''m'' ''m: done'') = ''push''"
    "ow_from (said_item ''push'' 7 ''m'' ''m: done'') = 0"
    by (simp_all add: said_item_def blank_item_def)
  from spent_allowance_moves_on [OF w example_owed(1,2), of 50 "owed_next 50 example_record" 60] s n show ?thesis
    by (auto simp: r i example_shelf_def)
qed

definition first_world :: world where
  "first_world = \<lparr>w_db = empty_db, w_faults = [], w_done = []\<rparr>"

definition no_shelf :: shelf where
  "no_shelf = \<lparr>sh_files = (\<lambda>_. None), sh_write_error = None, sh_remove_error = None\<rparr>"

lemma example_owing:
  "w_faults first_world = []" "db_ok (w_db first_world)" "bk_dir example_book \<noteq> ''''"
  "sh_write_error no_shelf = None" "or_next example_record \<noteq> ''''" "or_items example_record \<noteq> []"
  "first_error item_error (or_items example_record) = None"
  by (simp add: first_world_def, simp add: first_world_def db_ok_def empty_db_def, code_simp+)

theorem owe_leaves_its_record_witness:
  "\<exists>res sh' r'. owe example_book settling_job 50 ''settling'' example_record no_shelf first_world =
      Some (Inr res, sh', first_world) \<and> length (res_effects res) = 2 \<and>
    owed_load example_book (j_id settling_job) sh' = Inr (Some r') \<and> or_next r' = ''done''"
  using owe_leaves_its_record [OF example_owing, of settling_job 50 "''settling''"]
  by (fastforce simp: example_record_def example_items_def dest: list_all2_lengthD)

theorem kept_records_load_witness:
  "\<exists>sh kept. sh_files sh (j_id settling_job) \<noteq> None \<and>
    owed_load example_book (j_id settling_job) sh = Inr kept"
proof -
  obtain res sh r' where o: "owe example_book settling_job 50 ''settling'' example_record no_shelf first_world =
      Some (Inr res, sh, first_world)"
    "owed_load example_book (j_id settling_job) sh = Inr (Some r')"
    using owe_recorded [OF example_owing, of settling_job 50 "''settling''"] by blast
  have "shelf_run no_shelf sh" by (rule shelf_run.owing [OF shelf_run.start o(1)])
  then have "\<exists>kept. owed_load example_book (j_id settling_job) sh = Inr kept"
    by (rule kept_records_load [where e = None and e' = None, OF _ example_owing(3), folded no_shelf_def])
  moreover have "sh_files sh (j_id settling_job) \<noteq> None" using o(2) by (auto simp: owed_load_Some)
  ultimately show ?thesis by blast
qed

subsection \<open>A kind that owes\<close>

text \<open>
  What a job kind promises of its states for owing to keep it: which results leave a job well
  placed, and which records a settled job may move on by.
\<close>

lemma save_shelf:
  "owed_save b jid r sh = (e, sh') \<Longrightarrow>
     sh_files sh' = sh_files sh \<or> sh_files sh' = (sh_files sh)(jid \<mapsto> Recorded r)"
  by (auto simp: owed_save_def split: if_splits option.splits)

lemma effects_shelf:
  assumes "owed_effects b shared jid r its sh w = (res, sh', w')"
  shows "sh_files sh' = sh_files sh \<or>
    (\<exists>rs. sh_files sh' = (sh_files sh)(jid \<mapsto> Recorded (r\<lparr>or_items := rs\<rparr>)))"
  using assms
  by (auto simp: owed_effects_def split: sum.splits prod.splits if_splits dest!: save_shelf)

locale owing_kind =
  fixes placed :: "result \<Rightarrow> bool" and record_ok :: "owed_record \<Rightarrow> bool" and in_kind :: "string \<Rightarrow> bool"
  assumes same_items: "record_ok r \<Longrightarrow> record_ok (r\<lparr>or_items := its\<rparr>)"
    and next_placed: "record_ok r \<Longrightarrow> placed (owed_next now r)"
    and round_placed: "in_kind st \<Longrightarrow>
      placed \<lparr>res_state = st, res_run_at = Some now, res_effects = es, res_exhausted = None\<rparr>"
begin

lemma owe_placed:
  assumes "record_ok r" and "in_kind st"
    and "\<forall>r. sh_files sh (j_id j) = Some (Recorded r) \<longrightarrow> record_ok r"
    and "owe b j now st r sh w = Some (res, sh', w')"
  shows "(\<forall>r. sh_files sh' (j_id j) = Some (Recorded r) \<longrightarrow> record_ok r) \<and>
    (\<forall>a. res = Inr a \<longrightarrow> placed a)"
proof -
  have upd: "record_ok (r\<lparr>or_items := its\<rparr>)" for its
    using assms(1) by (rule same_items)
  have pl: "placed \<lparr>res_state = st, res_run_at = Some now, res_effects = es, res_exhausted = None\<rparr>" for es
    using assms(2) by (rule round_placed)
  show ?thesis
  proof (cases "or_next r = '''' \<or> or_items r = []")
    case True
    with assms next_placed [OF assms(1)] show ?thesis by (auto simp: owe_def split: if_splits)
  next
    case False
    show ?thesis
    proof (cases "\<exists>its w1. start_items (or_items r) w = Some (Inr its, w1)")
      case no: False
      with assms False show ?thesis by (auto simp: owe_def split: option.splits prod.splits sum.splits)
    next
      case True
      then obtain its w1 where its: "start_items (or_items r) w = Some (Inr its, w1)" by blast
      let ?r = "r\<lparr>or_items := its\<rparr>"
      obtain e sh1 where save: "owed_save b (j_id j) ?r sh = (e, sh1)" by (metis surj_pair)
      have s1: "\<forall>r. sh_files sh1 (j_id j) = Some (Recorded r) \<longrightarrow> record_ok r"
        using save_shelf [OF save] assms(3) upd by auto
      show ?thesis
      proof (cases e)
        case (Some x)
        with assms(4) False its save s1 show ?thesis by (auto simp: owe_def Let_def)
      next
        case None
        obtain q sh2 w2 where ef: "owed_effects b True (j_id j) ?r its sh1 w1 = (q, sh2, w2)"
          by (metis surj_pair)
        have s2: "\<forall>r. sh_files sh2 (j_id j) = Some (Recorded r) \<longrightarrow> record_ok r"
          using effects_shelf [OF ef] s1 upd by (auto simp: fun_upd_def)
        show ?thesis
          using assms(4) False its save None ef s2 pl
          by (cases q) (auto simp: owe_def Let_def)
      qed
    qed
  qed
qed

lemma settle_placed:
  assumes "\<forall>r. sh_files sh (j_id j) = Some (Recorded r) \<longrightarrow> record_ok r"
    and "in_kind (j_state j)" and "placed lost"
    and "settle b tk j now lost sh w = (res, sh', w')"
  shows "(\<forall>r. sh_files sh' (j_id j) = Some (Recorded r) \<longrightarrow> record_ok r) \<and>
    (\<forall>a. res = Inr a \<longrightarrow> placed a)"
proof (cases "\<exists>r ms. owed_load b (j_id j) sh = Inr (Some r) \<and> missing_items b tk (or_items r) = Inr ms")
  case False
  with assms show ?thesis by (auto simp: settle_def split: sum.splits option.splits)
next
  case True
  then obtain r ms where r: "owed_load b (j_id j) sh = Inr (Some r)"
    and ms: "missing_items b tk (or_items r) = Inr ms" by blast
  then have ok: "record_ok r" using assms(1) by (auto simp: owed_load_Some)
  then have upd: "record_ok (r\<lparr>or_items := its\<rparr>)" for its by (rule same_items)
  show ?thesis
  proof (cases ms)
    case Nil
    with assms r ms next_placed [OF ok] show ?thesis
      by (auto simp: settle_def owed_remove_def split: option.splits)
  next
    case (Cons m rest)
    obtain q sh1 w1 where ef: "owed_effects b False (j_id j) r ms sh w = (q, sh1, w1)"
      by (metis surj_pair)
    have s: "\<forall>r. sh_files sh1 (j_id j) = Some (Recorded r) \<longrightarrow> record_ok r"
      using effects_shelf [OF ef] assms(1) upd by auto
    with assms(2,4) r ms Cons ef show ?thesis
      by (cases q) (auto simp: settle_def round_placed)
  qed
qed

end

end
