(* ===== verification/Review_Properties.thy ===== *)
theory Review_Properties
  imports Review Owed_Properties
begin

text \<open>
  What the review kind's transitions promise: the states are closed and a job at rest is at the
  start, the claim covers every request before anything can fail, a reply is kept until the
  tracker shows it and is posted a bounded number of times, and an edit of a posted review keeps
  its head counted as reviewed.
\<close>

subsection \<open>The states are closed\<close>

definition review_record_ok :: "owed_record \<Rightarrow> bool" where
  "review_record_ok r \<longleftrightarrow>
     (or_next r = review_start \<and> \<not> or_due r) \<or> (or_next r = review_reviewing \<and> or_due r)"

definition review_files_ok :: "job \<Rightarrow> review_files \<Rightarrow> bool" where
  "review_files_ok j fl \<longleftrightarrow>
     (\<forall>r. sh_files (vf_shelf fl) (j_id j) = Some (Recorded r) \<longrightarrow> review_record_ok r)"

definition review_states :: "string list" where
  "review_states = [review_start, review_claiming, review_reviewing, review_posting, review_verifying,
     review_deferred, review_handing_back]"

definition well_placed :: "result \<Rightarrow> bool" where
  "well_placed r \<longleftrightarrow> res_state r \<in> set review_states \<and> (res_run_at r = None \<longrightarrow> res_state r = review_start)"

lemmas review_state_defs = review_start_def review_claiming_def review_reviewing_def review_posting_def
  review_verifying_def review_deferred_def review_handing_back_def

lemma review_goes_placed: "st \<in> set review_states \<Longrightarrow> well_placed (review_goes st now)"
  by (simp add: well_placed_def review_goes_def)

lemma review_waits_placed: "\<not> is_zero (wt_until wt) \<Longrightarrow> well_placed (review_waits v wt)"
  by (auto simp: well_placed_def review_waits_def review_states_def is_zero_def)

lemma owed_next_placed: "review_record_ok r \<Longrightarrow> well_placed (owed_next now r)"
  by (auto simp: review_record_ok_def well_placed_def owed_next_def review_states_def)

interpretation review_kind: owing_kind well_placed review_record_ok "\<lambda>st. st \<in> set review_states"
  by unfold_locales (auto simp: review_record_ok_def well_placed_def owed_next_def review_states_def)

definition step_ok :: "job \<Rightarrow> review_step \<Rightarrow> bool" where
  "step_ok j s \<longleftrightarrow> (\<forall>res fl w. s = Some (res, fl, w) \<longrightarrow>
     review_files_ok j fl \<and> (\<forall>a. res = Inr a \<longrightarrow> well_placed a))"

lemma step_ok_simps [simp]:
  "step_ok j None"
  "step_ok j (Some (Inl e, fl, w)) = review_files_ok j fl"
  "step_ok j (Some (Inr a, fl, w)) \<longleftrightarrow> review_files_ok j fl \<and> well_placed a"
  by (auto simp: step_ok_def)

lemma same_shelf: "vf_shelf fl' = vf_shelf fl \<Longrightarrow> review_files_ok j fl' = review_files_ok j fl"
  by (simp add: review_files_ok_def)

lemma owes_ok:
  assumes "review_files_ok j fl" and "review_record_ok r" and "st \<in> set review_states"
  shows "step_ok j (review_owes v j now st r fl w)"
proof -
  have "\<forall>res sh w'. owe (review_book v) j now st r (vf_shelf fl) w = Some (res, sh, w') \<longrightarrow>
      (\<forall>r. sh_files sh (j_id j) = Some (Recorded r) \<longrightarrow> review_record_ok r) \<and>
      (\<forall>a. res = Inr a \<longrightarrow> well_placed a)"
    using review_kind.owe_placed [OF assms(2,3)] assms(1) unfolding review_files_ok_def by blast
  then show ?thesis
    by (auto simp: review_owes_def review_files_ok_def split: option.split sum.split)
qed

lemma settles_ok:
  assumes "review_files_ok j fl" and "j_state j \<in> set review_states" and "well_placed lost"
  shows "step_ok j (Some (review_settles v j now lost fl w))"
proof -
  have "\<forall>res sh w'. settle (review_book v) (vt_owed (ve_tracker v)) j now lost (vf_shelf fl) w = (res, sh, w') \<longrightarrow>
      (\<forall>r. sh_files sh (j_id j) = Some (Recorded r) \<longrightarrow> review_record_ok r) \<and>
      (\<forall>a. res = Inr a \<longrightarrow> well_placed a)"
    using review_kind.settle_placed [OF _ assms(2,3)] assms(1) unfolding review_files_ok_def by blast
  then show ?thesis
    by (auto simp: review_settles_def review_files_ok_def split: sum.split prod.split)
qed

lemma claim_records [simp]:
  "review_record_ok \<lparr>or_next = review_start, or_due = False, or_items = its\<rparr>"
  "review_record_ok \<lparr>or_next = review_reviewing, or_due = True, or_items = its\<rparr>"
  by (simp_all add: review_record_ok_def)

lemma in_states [simp]:
  "review_start \<in> set review_states" "review_claiming \<in> set review_states"
  "review_reviewing \<in> set review_states" "review_posting \<in> set review_states"
  "review_verifying \<in> set review_states" "review_deferred \<in> set review_states"
  "review_handing_back \<in> set review_states"
  by (simp_all add: review_states_def)

lemma small_files:
  "vf_shelf (snd (save_asked a fl)) = vf_shelf fl" "vf_shelf (snd (remove_spent fl)) = vf_shelf fl"
  "vf_shelf (snd (save_pending p fl)) = vf_shelf fl" "vf_shelf (snd (forget_review fl)) = vf_shelf fl"
  "vf_shelf (snd (count_spend v r y fl)) = vf_shelf fl"
  by (simp_all add: save_asked_def remove_spent_def save_pending_def forget_review_def count_spend_def
      Let_def split: option.split)

lemma small_files_eq:
  "save_asked a fl = (e, f) \<Longrightarrow> vf_shelf f = vf_shelf fl" "remove_spent fl = (e, f) \<Longrightarrow> vf_shelf f = vf_shelf fl"
  "save_pending p fl = (e, f) \<Longrightarrow> vf_shelf f = vf_shelf fl" "forget_review fl = (e, f) \<Longrightarrow> vf_shelf f = vf_shelf fl"
  "count_spend v r y fl = (s, f) \<Longrightarrow> vf_shelf f = vf_shelf fl"
  using small_files by (metis snd_conv)+

lemma files_ok_after:
  "save_asked a fl = (e, f) \<Longrightarrow> review_files_ok j fl \<Longrightarrow> review_files_ok j f"
  "remove_spent fl = (e, f) \<Longrightarrow> review_files_ok j fl \<Longrightarrow> review_files_ok j f"
  "save_pending p fl = (e, f) \<Longrightarrow> review_files_ok j fl \<Longrightarrow> review_files_ok j f"
  "forget_review fl = (e, f) \<Longrightarrow> review_files_ok j fl \<Longrightarrow> review_files_ok j f"
  "count_spend v r y fl = (s, f) \<Longrightarrow> review_files_ok j fl \<Longrightarrow> review_files_ok j f"
  by (auto dest!: small_files_eq simp: review_files_ok_def)

lemma count_spend_ok: "review_files_ok j fl \<Longrightarrow> review_files_ok j (snd (count_spend v r y fl))"
  by (simp add: review_files_ok_def small_files)

lemma claim_ok: "review_files_ok j fl \<Longrightarrow> step_ok j (review_claim v j now fl w)"
  by (auto simp: review_claim_def Let_def owes_ok split: sum.split option.split prod.split
      dest: files_ok_after intro!: owes_ok)

lemma keep_reply_ok: "review_files_ok j fl \<Longrightarrow> step_ok j (keep_reply v j now r since head a y fl w)"
  by (auto simp: keep_reply_def Let_def review_goes_placed split: sum.split option.split prod.split
      dest: files_ok_after)

lemma run_model_ok: "review_files_ok j fl \<Longrightarrow> step_ok j (run_model v j now r since head a written spec fl w)"
  by (auto simp: run_model_def Let_def review_goes_placed review_waits_placed keep_reply_ok count_spend_ok
      split: model_outcome.split)

lemma checked_out_ok: "review_files_ok j fl \<Longrightarrow> step_ok j (review_checked_out v j now r head fl w)"
  by (simp add: review_checked_out_def Let_def review_goes_placed run_model_ok split: sum.split)

lemma review_run_ok: "review_files_ok j fl \<Longrightarrow> step_ok j (review_run v j now fl w)"
  by (simp add: review_run_def checked_out_ok review_waits_placed split: sum.split option.split prod.split)

lemma hand_back_ok: "review_files_ok j fl \<Longrightarrow> step_ok j (review_hand_back v j now p k e fl w)"
  by (simp add: review_hand_back_def Let_def owes_ok)

lemma review_post_ok: "review_files_ok j fl \<Longrightarrow> step_ok j (review_post v j now fl w)"
  by (simp add: review_post_def Let_def review_goes_placed review_goes_def hand_back_ok well_placed_def
      split: sum.split option.split prod.split round_result.split)

lemma rest_placed [simp]:
  "well_placed \<lparr>res_state = review_start, res_run_at = None, res_effects = [], res_exhausted = None\<rparr>"
  by (simp add: well_placed_def)

lemma handed_back_ok:
  assumes "review_files_ok j fl" and "j_state j \<in> set review_states"
  shows "step_ok j (Some (review_handed_back_step v j now fl w))"
proof -
  obtain q f1 w1 where s: "review_settles v j now
      \<lparr>res_state = review_start, res_run_at = None, res_effects = [], res_exhausted = None\<rparr> fl w = (q, f1, w1)"
    by (metis surj_pair)
  with settles_ok [OF assms rest_placed, of v now w] have "step_ok j (Some (q, f1, w1))" by simp
  with s show ?thesis
    by (cases q) (auto simp: review_handed_back_step_def split: option.split prod.split dest: files_ok_after)
qed

lemma verify_ok: "review_files_ok j fl \<Longrightarrow> step_ok j (Some (review_verify v j now fl w))"
  by (auto simp: review_verify_def review_goes_placed split: sum.split option.split prod.split
      dest: files_ok_after)

lemma step_of_ok:
  assumes "review_files_ok j fl"
  shows "step_ok j (review_step_of v j now fl w)"
proof -
  have c: "step_ok j (Some (review_claimed v j now fl w))" if "j_state j = review_claiming"
    unfolding review_claimed_def using assms that
    by (intro settles_ok) (simp_all add: review_goes_placed)
  have h: "step_ok j (Some (review_handed_back_step v j now fl w))" if "j_state j = review_handing_back"
    using assms that by (intro handed_back_ok) simp_all
  show ?thesis
    using assms c h claim_ok review_run_ok review_post_ok verify_ok
    by (simp add: review_step_of_def Let_def review_resume_def review_goes_placed)
qed

text \<open>A run of the kind: any transitions of a job, in any state, time and environment, from files
  with nothing recorded; the runner moves the job or does not, and writes and removals may start
  or stop failing in between.\<close>

inductive review_run_to :: "string \<Rightarrow> review_files \<Rightarrow> bool" where
  begins: "sh_files (vf_shelf fl) jid = None \<Longrightarrow> review_run_to jid fl"
| steps: "review_run_to (j_id j) fl \<Longrightarrow> review_step_of v j now fl w = Some (res, fl', w') \<Longrightarrow>
    review_run_to (j_id j) fl'"
| faults: "review_run_to jid fl \<Longrightarrow> review_run_to jid
    (fl\<lparr>vf_write_error := e1, vf_remove_error := e2,
        vf_shelf := (vf_shelf fl)\<lparr>sh_write_error := e3, sh_remove_error := e4\<rparr>,
        vf_pending := p, vf_asked := a, vf_spent := s, vf_note := n\<rparr>)"

inductive_cases review_run_toE: "review_run_to jid fl"

lemma review_run_files_ok: "review_run_to jid fl \<Longrightarrow> j_id j = jid \<Longrightarrow> review_files_ok j fl"
proof (induction arbitrary: j rule: review_run_to.induct)
  case (steps j0 fl v now w res fl' w')
  have "review_files_ok j0 fl'"
    using step_of_ok [OF steps.IH [OF refl], of v now w] steps.hyps(2) by (simp add: step_ok_def)
  then show ?case using steps.prems by (simp add: review_files_ok_def)
qed (auto simp: review_files_ok_def)

text \<open>C34: The kind's states are closed: whatever a job's runs met before, a transition that decides
  leaves the job in a state one of the seven registered transitions moves from, and leaves it at
  rest only at the start, where the next request finds it.\<close>

theorem review_never_strands:
  assumes "review_run_to (j_id j) fl" and "review_step_of v j now fl w = Some (Inr res, fl', w')"
  shows "(\<exists>t\<in>set (review_transitions txt v fl' w'). t_from t = res_state res) \<and>
    (res_run_at res = None \<longrightarrow> res_state res = review_start)"
proof -
  have "well_placed res"
    using step_of_ok [OF review_run_files_ok [OF assms(1) refl], of v now w] assms(2)
    by (simp add: step_ok_def)
  then show ?thesis
    by (auto simp: well_placed_def review_states_def review_transitions_def)
qed


definition example_pull_request :: pull_request where
  "example_pull_request = \<lparr>pr_number = 7, pr_state = ''open'', pr_head_sha = ''c1'', pr_head_ref = ''b'',
     pr_head_repo = ''o/r'', pr_base_ref = ''main'', pr_base_sha = ''c0'', pr_login = ''ann'', pr_labels = [],
     pr_title = ''t'', pr_body = ''''\<rparr>"

definition example_ask :: gh_comment where
  "example_ask = \<lparr>cm_id = 4, cm_body = ''/review'', cm_login = ''ann'', cm_association = ''OWNER'',
     cm_created_at = None\<rparr>"

definition example_review_tracker :: "gh_comment list \<Rightarrow> review_tracker" where
  "example_review_tracker cs = \<lparr>vt_owed = example_owed_tracker cs, vt_pull_request = (\<lambda>_. Inr example_pull_request),
     vt_issue = (\<lambda>_. Inl NoKey), vt_compare = (\<lambda>_ _. Inr ''''), vt_reviews = (\<lambda>_. Inr []),
     vt_line_comments = (\<lambda>_ _. Inr [])\<rparr>"

definition example_review_env :: "gh_comment list \<Rightarrow> review_env" where
  "example_review_env cs = \<lparr>ve_tracker = example_review_tracker cs, ve_candidates = Inr [],
     ve_candidates_after = Inr [], ve_prices = None, ve_bound = 3, ve_rounds = 1, ve_label = ''needs-human'',
     ve_tier_wait = 60, ve_floor = '''', ve_fold_cut = 0, ve_repo = ''o/r'', ve_login = ''afk'',
     ve_float = \<lparr>ft_cost = (\<lambda>_. ''0.0000''), ft_tenths = (\<lambda>_ _. ''0.0'')\<rparr>, ve_workspace = None,
     ve_checkout = Inr ''c1'', ve_workspace_write = (\<lambda>_. None), ve_root = Inr (\<lambda>_. False),
     ve_model = (\<lambda>_. RanFailed ''''), ve_later = (\<lambda>_. example_owed_tracker cs),
     ve_later_post = example_owed_tracker cs, ve_text = (\<lambda>_. ''failed''), ve_exhausted = (\<lambda>_. ''exhausted'')\<rparr>"

definition no_files :: review_files where
  "no_files = \<lparr>vf_shelf = no_shelf, vf_pending = Absent, vf_asked = Absent, vf_spent = Absent, vf_note = None,
     vf_write_error = (\<lambda>_. None), vf_remove_error = (\<lambda>_. None)\<rparr>"

theorem review_never_strands_witness:
  "\<exists>res (t :: transition). review_step_of (example_review_env []) (settling_job\<lparr>j_state := review_verifying\<rparr>) 60 no_files first_world =
      Some (Inr res, no_files, first_world) \<and> t_from t = res_state res \<and> t_kind t = KindReview"
proof -
  let ?j = "settling_job\<lparr>j_state := review_verifying\<rparr>" and ?v = "example_review_env []"
  have s: "review_step_of ?v ?j 60 no_files first_world =
      Some (Inr (review_goes review_reviewing 60), no_files, first_world)"
    by (simp add: review_step_of_def review_verify_def load_pending_def review_state_defs no_files_def)
  have "review_run_to (j_id ?j) no_files"
    by (rule review_run_to.begins) (simp add: no_shelf_def no_files_def)
  from review_never_strands [OF this s, of "\<lambda>_. ''''"]
  obtain t where "t \<in> set (review_transitions (\<lambda>_. '''') ?v no_files first_world)"
    "t_from t = res_state (review_goes review_reviewing 60)" by blast
  moreover from this(1) have "t_kind t = KindReview" by (auto simp: review_transitions_def)
  ultimately show ?thesis using s by (intro exI conjI)
qed

subsection \<open>A posted review's head stays counted\<close>

lemma posted_summary_opens: "posted_summary s = Some (x, r) \<Longrightarrow> \<exists>t. s = CHR ''<'' # CHR ''s'' # t"
  by (auto simp: posted_summary_def summary_before_def cut_prefix_Some split: option.splits)

lemma followed_copies:
  "CHR ''<'' \<notin> set m \<Longrightarrow> \<exists>b'. followed_from b after (m @ z) = m @ followed_from b' after z"
proof (induction m arbitrary: b)
  case (Cons c m)
  then have no: "posted_summary (c # m @ z) = None"
    using posted_summary_opens [of "c # m @ z"] by (cases "posted_summary (c # m @ z)") auto
  obtain b' where "followed_from (c = CHR 0x0A) after (m @ z) = m @ followed_from b' after z"
    using Cons by fastforce
  with no show ?case by (subst followed_from.simps) auto
qed auto

lemma followed_at_mark:
  assumes "m = CHR ''<'' # CHR ''!'' # r" and "CHR ''<'' \<notin> set r"
  shows "\<exists>b'. followed_from b after (m @ z) = m @ followed_from b' after z"
proof -
  have no: "posted_summary (m @ z) = None"
    using posted_summary_opens [of "m @ z"] assms(1) by (cases "posted_summary (m @ z)") auto
  obtain b' where "followed_from False after ((CHR ''!'' # r) @ z) = (CHR ''!'' # r) @ followed_from b' after z"
    using followed_copies [of "CHR ''!'' # r" False after z] assms(2) by auto
  with no assms(1) show ?thesis by (subst followed_from.simps) auto
qed

lemma contains_skip:
  "CHR ''<'' \<notin> set x \<Longrightarrow> contains (x @ t) (CHR ''<'' # r) \<longleftrightarrow> contains t (CHR ''<'' # r)"
  by (induction x) (auto simp: contains_Cons has_prefix_def)

lemma no_mark_in_summary:
  assumes "CHR ''<'' \<notin> set x"
  shows "contains (summary_before @ x @ ''</code>'' @ summary_after @ t) (CHR ''<'' # CHR ''!'' # r) \<longleftrightarrow>
    contains t (CHR ''<'' # CHR ''!'' # r)"
  using assms
  by (simp add: summary_before_def summary_after_def contains_Cons has_prefix_def contains_skip)

lemma posted_summary_split:
  assumes "posted_summary s = Some (x, rest)"
  shows "s = summary_before @ x @ ''</code>'' @ summary_after @ rest \<and> CHR ''<'' \<notin> set x"
proof -
  obtain t where s: "s = summary_before @ t" and x: "x = takeWhile (\<lambda>c. c \<noteq> CHR ''<'') t"
    and d: "dropWhile (\<lambda>c. c \<noteq> CHR ''<'') t = (''</code>'' @ summary_after) @ rest"
    using assms by (auto simp: posted_summary_def cut_prefix_Some split: option.splits if_splits)
  have "t = x @ (''</code>'' @ summary_after) @ rest"
    using takeWhile_dropWhile_id [of "\<lambda>c. c \<noteq> CHR ''<''" t] d x by simp
  moreover have "CHR ''<'' \<notin> set x" using x by (auto dest: set_takeWhileD)
  ultimately show ?thesis by (simp add: s)
qed

lemma followed_keeps_mark:
  assumes m: "m = CHR ''<'' # CHR ''!'' # r" "CHR ''<'' \<notin> set r"
  shows "contains s m \<Longrightarrow> contains (followed_from b after s) m"
proof (induction b after s rule: followed_from.induct)
  case (1 b after s)
  show ?case
  proof (cases "has_prefix s m")
    case True
    then obtain z where "s = m @ z" by (auto simp: has_prefix_conv)
    then obtain b' where "followed_from b after s = m @ followed_from b' after z"
      using followed_at_mark [OF m] by blast
    then show ?thesis unfolding contains_iff by (metis append_Nil)
  next
    case False
    show ?thesis
    proof (cases "if b then posted_summary s else None")
      case None
      then show ?thesis
      proof (cases s)
        case Nil
        with "1.prems" m show ?thesis by (simp add: contains_def)
      next
        case (Cons c cs)
        with False "1.prems" have "contains cs m" by (simp add: contains_Cons)
        from 1(1) [OF None Cons this] have "contains (followed_from (c = CHR 0x0A) after cs) m" .
        with None Cons show ?thesis by (subst followed_from.simps) (auto simp: contains_Cons)
      qed
    next
      case (Some p)
      obtain x rest where p: "p = (x, rest)" by (cases p)
      with Some have ps: "posted_summary s = Some (x, rest)" by (auto split: if_splits)
      from "1.prems" posted_summary_split [OF ps] no_mark_in_summary [of x rest r]
      have "contains rest m" unfolding m(1) by simp
      from 1(2) [OF Some p [symmetric] this] have "contains (followed_from False after rest) m"
        by simp
      then obtain a z where "followed_from False after rest = a @ m @ z" by (auto simp: contains_iff)
      with Some p show ?thesis
        by (subst followed_from.simps) (auto simp: contains_iff intro: exI [of _ "review_summary x after @ a"])
    qed
  qed
qed

text \<open>A correction's edit of a posted review never takes its head back: whatever the summary is made
  to say followed the review, a head that counted as reviewed before the edit counts as reviewed
  after it, so no later request pays for a second review of it.\<close>

theorem followed_review_still_counts:
  assumes "CHR ''<'' \<notin> set head" and "reviewed cs login head"
  shows "reviewed (map (\<lambda>c. c\<lparr>cm_body := followed (cm_body c) (after c)\<rparr>) cs) login head"
proof -
  have m: "review_marker head = CHR ''<'' # CHR ''!'' # (''-- afk:review head='' @ head @ '' -->'')"
    "CHR ''<'' \<notin> set (''-- afk:review head='' @ head @ '' -->'')"
    using assms(1) by (simp_all add: review_marker_def)
  have keep: "contains (followed s t) (review_marker head)" if "contains s (review_marker head)" for s t
    unfolding followed_def by (rule followed_keeps_mark [OF m that])
  from assms(2) obtain c where "c \<in> set cs" "equal_fold (cm_login c) login"
    "contains (cm_body c) (review_marker head)"
    by (auto simp: reviewed_def find_review_def find_None_iff2 find_None_iff)
  then have "\<exists>c\<in>set (map (\<lambda>c. c\<lparr>cm_body := followed (cm_body c) (after c)\<rparr>) cs).
      equal_fold (cm_login c) login \<and> contains (cm_body c) (review_marker head)"
    using keep by (intro bexI [of _ "c\<lparr>cm_body := followed (cm_body c) (after c)\<rparr>"]) auto
  then show ?thesis by (auto simp: reviewed_def find_review_def find_None_iff)
qed

theorem followed_review_still_counts_witness:
  "reviewed [\<lparr>cm_id = 1, cm_body = followed (''<details>'' @ nl @ review_summary ''c1'' '''' @ nl @ review_marker ''c1'' @ nl)
      '', corrected'', cm_login = ''AFK'', cm_association = '''', cm_created_at = None\<rparr>] ''afk'' ''c1''"
proof -
  let ?c = "\<lparr>cm_id = 1, cm_body = ''<details>'' @ nl @ review_summary ''c1'' '''' @ nl @ review_marker ''c1'' @ nl,
    cm_login = ''AFK'', cm_association = '''', cm_created_at = None\<rparr>"
  have h: "CHR ''<'' \<notin> set ''c1''" by simp
  have "reviewed [?c] ''afk'' ''c1''" by code_simp
  from followed_review_still_counts [OF h this, of "\<lambda>_. '', corrected''"] show ?thesis by simp
qed


subsection \<open>The claim\<close>

lemma claim_comment_ok: "cm_id c \<noteq> 0 \<Longrightarrow> item_error (claim_comment c) = None"
  by (simp add: item_error_def claim_comment_def blank_item_def)

lemma said_item_ok:
  assumes "stem \<noteq> ''''" "0 < n" "marker \<noteq> ''''"
  shows "item_error (said_item stem n marker (marker @ body)) = None"
proof -
  have "contains (marker @ body) marker" unfolding contains_iff by (metis append_Nil)
  with assms show ?thesis by (simp add: item_error_def said_item_def blank_item_def)
qed

lemma already_ok: "0 < n \<Longrightarrow> item_error (already_reviewed n head c) = None"
  unfolding already_reviewed_def reply_item_def Let_def
  by (rule said_item_ok) (simp_all add: reply_marker_def)

lemma first_error_append:
  "first_error f (xs @ ys) = None \<longleftrightarrow> first_error f xs = None \<and> first_error f ys = None"
  by (induction xs) (auto split: option.splits)

lemma first_error_mapped: "list_all (\<lambda>x. f (g x) = None) xs \<Longrightarrow> first_error f (map g xs) = None"
  by (induction xs) auto

lemma unanswered_from:
  "unanswered_commands b tk cmds word = Inr out \<Longrightarrow> set out \<subseteq> set cmds"
proof (induction cmds arbitrary: out)
  case (Cons c cs)
  then show ?case by (fastforce split: if_splits sum.splits)
qed simp

lemma unanswered_subset: "unanswered b tk cs word = Inr out \<Longrightarrow> set out \<subseteq> set cs"
  by (auto simp: unanswered_def split: sum.splits owed_command.splits dest!: unanswered_from)

lemma claim_items_ok:
  "list_all (\<lambda>c. cm_id c \<noteq> 0) commands \<Longrightarrow> 0 < n \<Longrightarrow>
     first_error item_error (claim_items commands asked n reply) = None"
proof -
  assume ids: "list_all (\<lambda>c. cm_id c \<noteq> 0) commands" and n: "0 < n"
  have "first_error item_error (map claim_comment commands) = None"
    using ids claim_comment_ok by (intro first_error_mapped) (simp add: list_all_iff)
  moreover have "item_error (claim_pull_request n) = None"
    using n by (simp add: claim_pull_request_def blank_item_def item_error_def)
  moreover have "item_error (claim_comment (zero_comment\<lparr>cm_id := cm_id reply\<rparr>)) = None"
    if "cm_id reply \<noteq> 0" using that by (intro claim_comment_ok) simp
  ultimately show ?thesis by (simp add: claim_items_def first_error_append)
qed

lemma same_images:
  "list_all2 P xs ys \<Longrightarrow> (\<And>x y. P x y \<Longrightarrow> f y = f x) \<Longrightarrow> map f ys = map f xs"
  by (induction rule: list_all2_induct) auto

lemma review_owes_recorded:
  assumes "w_faults w = []" "db_ok (w_db w)" "sh_write_error (vf_shelf fl) = None" "or_next r \<noteq> ''''"
    and "or_items r \<noteq> []" "first_error item_error (or_items r) = None"
  shows "\<exists>res fl' r'. review_owes v j now st r fl w = Some (Inr res, fl', w) \<and> res_state res = st \<and>
    res_run_at res = Some now \<and> length (res_effects res) = length (or_items r) \<and>
    owed_load (review_book v) (j_id j) (vf_shelf fl') = Inr (Some r') \<and>
    or_next r' = or_next r \<and> or_due r' = or_due r \<and> map ow_stem (or_items r') = map ow_stem (or_items r)"
proof -
  have d: "bk_dir (review_book v) \<noteq> ''''" by (simp add: review_book_def)
  obtain res sh' r' where o: "owe (review_book v) j now st r (vf_shelf fl) w = Some (Inr res, sh', w)"
    "res_state res = st" "res_run_at res = Some now"
    "owed_load (review_book v) (j_id j) sh' = Inr (Some r')" "or_next r' = or_next r" "or_due r' = or_due r"
    "list_all2 (\<lambda>it it'. it' = it\<lparr>ow_from := ow_from it'\<rparr>) (or_items r) (or_items r')"
    "length (or_items r) = length (res_effects res)"
    using owe_recorded [OF assms(1,2) d assms(3-6), of j now st] list_all2_lengthD by blast
  have "ow_stem it' = ow_stem it" if "it' = it\<lparr>ow_from := ow_from it'\<rparr>" for it it' :: owed_item
    using arg_cong [OF that, of ow_stem] by simp
  then have "map ow_stem (or_items r') = map ow_stem (or_items r)"
    by (rule same_images [OF o(7)])
  with o(1-6,8) show ?thesis by (intro exI [of _ res] exI [of _ "fl\<lparr>vf_shelf := sh'\<rparr>"] exI [of _ r'])
      (simp add: review_owes_def)
qed

lemma claim_records_items:
  assumes "w_faults w = []" and "db_ok (w_db w)" and "sh_write_error (vf_shelf fl) = None"
    and "vf_write_error fl ''asked'' = None" and "vf_remove_error fl ''spent'' = None"
    and "n = sub_number (j_subject j)" and "0 < n" and "tk = vt_owed (ve_tracker v)"
    and "vt_pull_request (ve_tracker v) n = Inr pr" and "ot_comments tk n = Inr comments"
    and "list_all (\<lambda>c. cm_id c \<noteq> 0) comments"
    and "unanswered (review_book v) tk comments review_word = Inr commands"
    and "asked_by_job v pr = Inr asked" and "asked_by_revision v comments n (pr_head_sha pr) = Inr reply"
    and "claim_items commands asked n reply \<noteq> []"
  shows "\<exists>res fl' r. review_claim v j now fl w = Some (Inr res, fl', w) \<and>
    res_state res = review_claiming \<and> res_run_at res = Some now \<and>
    owed_load (review_book v) (j_id j) (vf_shelf fl') = Inr (Some r) \<and>
    map ow_stem (or_items r) = map ow_stem (claim_items commands asked n reply @
      (if pr_state pr = ''open'' \<and> reviewed comments (ve_login v) (pr_head_sha pr)
       then map (already_reviewed n (pr_head_sha pr)) commands else [])) \<and>
    (or_next r, or_due r) = (if pr_state pr = ''open'' \<and> \<not> reviewed comments (ve_login v) (pr_head_sha pr)
      then (review_reviewing, True) else (review_start, False))"
proof -
  let ?items = "claim_items commands asked n reply" and ?head = "pr_head_sha pr"
  let ?again = "map (already_reviewed n ?head) commands"
  have ids: "list_all (\<lambda>c. cm_id c \<noteq> 0) commands"
    using assms(11) unanswered_subset [OF assms(12)] by (auto simp: list_all_iff)
  have ok: "first_error item_error ?items = None" by (rule claim_items_ok [OF ids assms(7)])
  have ok2: "first_error item_error (?items @ ?again) = None"
    using ok assms(7) by (auto simp: first_error_append list_all_iff intro!: first_error_mapped already_ok)
  note reads = assms(8,9,10,12,13,14) assms(6)
  consider (shut) "pr_state pr \<noteq> ''open''"
    | (again) "pr_state pr = ''open''" "reviewed comments (ve_login v) ?head"
    | (new) "pr_state pr = ''open''" "\<not> reviewed comments (ve_login v) ?head" by blast
  then show ?thesis
  proof cases
    case shut
    have "review_claim v j now fl w = review_owes v j now review_claiming
        \<lparr>or_next = review_start, or_due = False, or_items = ?items\<rparr> fl w"
      using reads shut by (simp add: review_claim_def Let_def)
    with review_owes_recorded [OF assms(1-3), of "\<lparr>or_next = review_start, or_due = False, or_items = ?items\<rparr>" v j now review_claiming]
      ok assms(15) shut show ?thesis by (auto simp: review_start_def)
  next
    case again
    have "review_claim v j now fl w = review_owes v j now review_claiming
        \<lparr>or_next = review_start, or_due = False, or_items = ?items @ ?again\<rparr> fl w"
      using reads again by (simp add: review_claim_def Let_def)
    with review_owes_recorded [OF assms(1-3), of "\<lparr>or_next = review_start, or_due = False, or_items = ?items @ ?again\<rparr>" v j now review_claiming]
      ok2 assms(15) again show ?thesis by (auto simp: review_start_def)
  next
    case new
    define f where "f = (if asked \<or> cm_id reply \<noteq> 0
      then fl\<lparr>vf_asked := Kept (request_of v pr asked reply)\<rparr> else fl)\<lparr>vf_spent := Absent\<rparr>"
    have f: "review_claim v j now fl w = review_owes v j now review_claiming
        \<lparr>or_next = review_reviewing, or_due = True, or_items = ?items\<rparr> f w"
      using reads new assms(4,5)
      by (cases "asked \<or> cm_id reply \<noteq> 0")
        (simp_all add: review_claim_def Let_def save_asked_def remove_spent_def f_def)
    have sh: "sh_write_error (vf_shelf f) = None" using assms(3) by (simp add: f_def)
    with review_owes_recorded [OF assms(1,2) sh, of "\<lparr>or_next = review_reviewing, or_due = True, or_items = ?items\<rparr>" v j now review_claiming]
      f ok assms(15) new show ?thesis by (auto simp: review_reviewing_def review_start_def)
  qed
qed

lemma claim_stems:
  "map ow_stem (claim_items commands asked n reply @ (if b then map (already_reviewed m head) commands else [])) =
     map (\<lambda>c. ''claim-comment-'' @ dec (cm_id c)) commands @
     (if asked then [''claim-pr-'' @ dec n] else []) @
     (if cm_id reply \<noteq> 0 then [''claim-comment-'' @ dec (cm_id reply)] else []) @
     (if b then map (\<lambda>c. ''already-comment-'' @ dec (cm_id c)) commands else [])"
  by (simp add: claim_items_def claim_comment_def claim_pull_request_def blank_item_def
      already_reviewed_def reply_item_def said_item_def Let_def)

text \<open>A review's claim takes every request before anything else of the work can fail: once the
  tracker was read, the job goes to the read-back of its claims, and the record left for that
  read-back owes the agent's reaction on every unanswered command, on the pull request if the
  implement job asked and on the reply if the revise job did, and, on a head that has its review
  already, an answer to each command. From there the job goes on to the review exactly when the
  pull request is open and its head has none.\<close>

theorem claim_takes_every_request:
  assumes "w_faults w = []" and "db_ok (w_db w)" and "sh_write_error (vf_shelf fl) = None"
    and "vf_write_error fl ''asked'' = None" and "vf_remove_error fl ''spent'' = None"
    and "n = sub_number (j_subject j)" and "0 < n" and "tk = vt_owed (ve_tracker v)"
    and "vt_pull_request (ve_tracker v) n = Inr pr" and "ot_comments tk n = Inr comments"
    and "list_all (\<lambda>c. cm_id c \<noteq> 0) comments"
    and "unanswered (review_book v) tk comments review_word = Inr commands"
    and "asked_by_job v pr = Inr asked" and "asked_by_revision v comments n (pr_head_sha pr) = Inr reply"
    and "commands \<noteq> [] \<or> asked \<or> cm_id reply \<noteq> 0"
  shows "\<exists>res fl' r. review_claim v j now fl w = Some (Inr res, fl', w) \<and>
    res_state res = review_claiming \<and> res_run_at res = Some now \<and>
    owed_load (review_book v) (j_id j) (vf_shelf fl') = Inr (Some r) \<and>
    map ow_stem (or_items r) =
      map (\<lambda>c. ''claim-comment-'' @ dec (cm_id c)) commands @
      (if asked then [''claim-pr-'' @ dec n] else []) @
      (if cm_id reply \<noteq> 0 then [''claim-comment-'' @ dec (cm_id reply)] else []) @
      (if pr_state pr = ''open'' \<and> reviewed comments (ve_login v) (pr_head_sha pr)
       then map (\<lambda>c. ''already-comment-'' @ dec (cm_id c)) commands else []) \<and>
    (or_next r, or_due r) = (if pr_state pr = ''open'' \<and> \<not> reviewed comments (ve_login v) (pr_head_sha pr)
      then (review_reviewing, True) else (review_start, False))"
proof -
  have "claim_items commands asked n reply \<noteq> []" using assms(15) by (auto simp: claim_items_def)
  from claim_records_items [OF assms(1-14) this] show ?thesis unfolding claim_stems .
qed

theorem claim_takes_every_request_witness:
  "\<exists>res fl' r. review_claim (example_review_env [example_ask]) settling_job 50 no_files first_world =
      Some (Inr res, fl', first_world) \<and> res_state res = review_claiming \<and>
    owed_load (review_book (example_review_env [example_ask])) (j_id settling_job) (vf_shelf fl') = Inr (Some r) \<and>
    map ow_stem (or_items r) = [''claim-comment-4''] \<and> or_next r = review_reviewing"
proof -
  let ?v = "example_review_env [example_ask]"
  have u: "unanswered (review_book ?v) (vt_owed (ve_tracker ?v)) [example_ask] review_word = Inr [example_ask]"
    by code_simp
  have a: "asked_by_job ?v example_pull_request = Inr False" by code_simp
  have r: "asked_by_revision ?v [example_ask] 7 (pr_head_sha example_pull_request) = Inr zero_comment" by code_simp
  have i: "''claim-comment-'' @ dec (cm_id example_ask) = ''claim-comment-4''" "cm_id zero_comment = 0" by code_simp+
  have n: "\<not> reviewed [example_ask] (ve_login ?v) (pr_head_sha example_pull_request)"
    "pr_state example_pull_request = ''open''" by code_simp+
  have w: "w_faults first_world = []" "db_ok (w_db first_world)" using example_owing(1,2) .
  show ?thesis
    using claim_takes_every_request [OF w, of no_files 7 settling_job "vt_owed (ve_tracker ?v)" ?v
        example_pull_request "[example_ask]" "[example_ask]" False zero_comment 50] u a r i n
    by (auto simp: no_files_def no_shelf_def settling_job_def example_review_env_def example_review_tracker_def
        example_owed_tracker_def example_ask_def)
qed

end
