(* ===== verification/Bench.thy ===== *)
theory Bench
  imports Sessions Descriptions Diff_Size Steps Review_Properties
begin

text \<open>
  What \<^verbatim>\<open>implement\<close> and \<^verbatim>\<open>revise\<close> share below their transitions: the correction
  (\<^verbatim>\<open>internal/correction/correction.go\<close>), the progress and the parameters of a delivery
  (\<^verbatim>\<open>internal/delivery/delivery.go\<close>), the job's files and its workspace
  (\<^verbatim>\<open>internal/work/{workspace,push,git}.go\<close>, \<^verbatim>\<open>internal/statefile/statefile.go\<close>), and the calls
  that change them, as steps. A \<open>bench\<close> is what one job has on disk, with the store: whether its
  checkout is there, its progress, its request, what it owes, its note. What git, the tracker, the
  model and the file system answer is in the environment. What is logged is not modelled.
\<close>

subsection \<open>Corrections\<close>

record finding =
  fd_number :: int
  fd_axis :: string
  fd_text :: string

record correction =
  co_reviewed :: string
  co_review :: int
  co_findings :: "finding list"
  co_given :: bool
  co_failed :: string
  co_from :: int

definition correction_running :: "correction option \<Rightarrow> bool" where
  "correction_running c = (case c of None \<Rightarrow> False | Some c \<Rightarrow> co_failed c = '''')"

definition correction_push_from :: "correction option \<Rightarrow> string \<Rightarrow> int" where
  "correction_push_from c head =
     (case c of None \<Rightarrow> 0
      | Some x \<Rightarrow> if correction_running c \<or> head \<noteq> co_reviewed x then 0 else co_from x)"

datatype correction_step = Making | Session | PushBack | Edit

definition correction_over :: "correction option \<Rightarrow> string \<Rightarrow> correction_step" where
  "correction_over c pushed =
     (case c of None \<Rightarrow> Making
      | Some x \<Rightarrow>
          if correction_running c then Making
          else if pushed \<noteq> co_reviewed x then PushBack
          else Edit)"

definition correction_next :: "correction option \<Rightarrow> string \<Rightarrow> correction_step" where
  "correction_next c pushed =
     (case c of None \<Rightarrow> Making
      | Some x \<Rightarrow>
          if \<not> correction_running c then correction_over c pushed
          else if pushed = co_reviewed x then Session
          else Edit)"

subsection \<open>Progress, and a job's files\<close>

text \<open>\<open>dv_spent\<close> is \<^verbatim>\<open>Spent\<close> of \<^verbatim>\<open>work.Progress\<close>.\<close>

record delivery =
  dv_progress :: progress
  dv_correction :: "correction option"
  dv_spent :: spent

record ('p, 'q) bench =
  bn_exists :: bool
  bn_progress :: "'p kept_file"
  bn_request :: "'q kept_file"
  bn_shelf :: shelf
  bn_note :: "effect_note option"
  bn_world :: world

datatype delivery_error =
    DlOwed owed_error
  | DlTracker gh_error
  | DlStore store_error
  | DlFile string
  | DlIncomplete string
  | DlGit string
  | DlResolve resolve_error
  | DlSession session_error
  | DlHandoff handoff_error
  | DlRender string
  | DlRefused string
  | DlPanic

type_synonym ('p, 'q, 'a) bench_step = "(delivery_error, ('p, 'q) bench, 'a) step"

text \<open>The parameters, and what the world outside answers. \<open>dl_file_error\<close> is by file, and
  \<open>dl_git_file\<close> is what a session left in the checkout's \<^verbatim>\<open>.git\<close>. \<open>dl_workspace\<close> answers for the
  checkout when it is there; the \<open>_later\<close> members are what an effect finds.\<close>

record delivery_env =
  dl_login :: string
  dl_repo :: string
  dl_rounds :: int
  dl_tier :: session_tier
  dl_gate :: string
  dl_attempts :: int
  dl_back_label :: string
  dl_off_label :: string
  dl_ci :: ci
  dl_denylist :: "string list"
  dl_sensitive :: "sensitive_path list"
  dl_signal :: int
  dl_prices :: "(ref \<Rightarrow> price) option"
  dl_asker :: armer
  dl_float :: float_text
  dl_quote :: "string \<Rightarrow> string"
  dl_owed_text :: "owed_error \<Rightarrow> string"
  dl_gh_text :: "gh_error \<Rightarrow> string"
  dl_store_text :: "store_error list \<Rightarrow> string"
  dl_candidates :: candidate_list
  dl_candidates_after :: candidate_list
  dl_model :: "nat \<Rightarrow> run_request \<Rightarrow> run_reply \<times> model_error option"
  dl_tracker :: owed_tracker
  dl_tracker_later :: "owed_item \<Rightarrow> owed_tracker"
  dl_comments_later :: "gh_error + gh_comment list"
  dl_open_prs :: "gh_error + pull_request list"
  dl_open_later :: "gh_error + pull_request list"
  dl_issue :: "int \<Rightarrow> gh_error + gh_issue"
  dl_check_runs :: "string \<Rightarrow> check_run list io"
  dl_required :: "string \<Rightarrow> string list io"
  dl_edit_pr :: "int \<Rightarrow> string \<Rightarrow> gh_error option"
  dl_edit_comment :: "int \<Rightarrow> string \<Rightarrow> gh_error option"
  dl_label_error :: "string option"
  dl_ask_faults :: "bool list"
  dl_remote :: "string \<Rightarrow> string io"
  dl_push :: "string \<Rightarrow> string \<Rightarrow> string \<Rightarrow> string option"
  dl_workspace :: workspace
  dl_reset :: "string \<Rightarrow> string option"
  dl_restore :: "string \<Rightarrow> string \<Rightarrow> string option"
  dl_relay :: "string \<Rightarrow> string io"
  dl_ancestor :: "string \<Rightarrow> string \<Rightarrow> bool io"
  dl_touched :: "string \<Rightarrow> string \<Rightarrow> string io"
  dl_changed :: "string \<Rightarrow> string \<Rightarrow> string io"
  dl_deleted :: "string \<Rightarrow> string \<Rightarrow> string option"
  dl_numstat :: "string \<Rightarrow> string \<Rightarrow> string option"
  dl_attr :: "string list \<Rightarrow> string option"
  dl_grep :: "string list \<Rightarrow> grep_result"
  dl_log :: "string \<Rightarrow> string \<Rightarrow> string io"
  dl_root :: "string + (string \<Rightarrow> bool)"
  dl_git_file :: "string \<Rightarrow> string io"
  dl_git_write :: "string \<Rightarrow> string option"
  dl_git_remove :: "string \<Rightarrow> string option"
  dl_file_error :: "string \<Rightarrow> string option"
  dl_note_saved :: bool
  dl_note_removed :: bool

subsection \<open>The files\<close>

definition load_progress :: "string \<Rightarrow> ('a delivery_scheme, 'q, 'a delivery_scheme option) bench_step" where
  "load_progress jid =
     and_then (look bn_progress) (\<lambda>f.
     case f of
       Absent \<Rightarrow> give None
     | Unreadable e \<Rightarrow> halt (DlFile e)
     | Kept p \<Rightarrow> if progress_complete (dv_progress p) then give (Some p) else halt (DlIncomplete jid))"

definition save_progress :: "delivery_env \<Rightarrow> 'a delivery_scheme \<Rightarrow> ('a delivery_scheme, 'q, unit) bench_step" where
  "save_progress v p =
     and_then (unless_error DlFile (dl_file_error v ''progress'')) (\<lambda>_.
     alter (\<lambda>s. s\<lparr>bn_progress := Kept p\<rparr>))"

text \<open>A job with no state directory is an error of its workspace.\<close>

definition discard :: "delivery_env \<Rightarrow> ('p, 'q, unit) bench_step" where
  "discard v =
     and_then (unless_error DlFile (dl_file_error v ''workspaces'')) (\<lambda>_.
     and_then (alter (\<lambda>s. s\<lparr>bn_exists := False\<rparr>)) (\<lambda>_.
     unless_error DlFile (dl_file_error v ''relays'')))"

definition clear_job :: "delivery_env \<Rightarrow> ('p, 'q, unit) bench_step" where
  "clear_job v =
     and_then (discard v) (\<lambda>_.
     and_then (unless_error DlFile (dl_file_error v ''remove progress'')) (\<lambda>_.
     and_then (alter (\<lambda>s. s\<lparr>bn_progress := Absent\<rparr>)) (\<lambda>_.
     and_then (unless_error DlFile (dl_file_error v ''remove notes'')) (\<lambda>_.
     alter (\<lambda>s. s\<lparr>bn_note := None\<rparr>)))))"

subsection \<open>The store\<close>

definition on_world :: "(world \<Rightarrow> 'x \<times> world) \<Rightarrow> ('p, 'q, 'x) bench_step" where
  "on_world f s = (case f (bn_world s) of (x, w) \<Rightarrow> Some (Inr x, s\<lparr>bn_world := w\<rparr>))"

text \<open>The next round's key, or how many rounds were spent.\<close>

definition next_key :: "delivery_env \<Rightarrow> string \<Rightarrow> int \<Rightarrow> ('p, 'q, int + string) bench_step" where
  "next_key v stem start =
     and_then (on_world (effect_round stem start (dl_rounds v))) (\<lambda>r.
     case r of
       RoundKey key \<Rightarrow> give (Inr key)
     | Spent _ n _ \<Rightarrow> give (Inl n)
     | RoundError e \<Rightarrow> halt (DlStore e))"

definition pushed_from :: "string \<Rightarrow> string \<Rightarrow> ('p, 'q, int) bench_step" where
  "pushed_from branch head s =
     (case push_from branch head (bn_world s) of
        None \<Rightarrow> None
      | Some ((n, Some e), w) \<Rightarrow> Some (Inl (DlStore e), s\<lparr>bn_world := w\<rparr>)
      | Some ((n, None), w) \<Rightarrow> Some (Inr n, s\<lparr>bn_world := w\<rparr>))"

definition note_of :: "string \<Rightarrow> ('p, 'q, string) bench_step" where
  "note_of stem = look (\<lambda>s. noted (bn_note s) stem)"

text \<open>An effect that keeps its last error beside the job.\<close>

definition noting_effect :: "delivery_env \<Rightarrow> string \<Rightarrow> string \<Rightarrow> string option \<Rightarrow> ('p, 'q, effect) bench_step" where
  "noting_effect v key stem err =
     and_then (look bn_note) (\<lambda>note.
     give (Effect key (Some (\<lambda>d. (fst (noting (dl_note_saved v) (dl_note_removed v) stem err note), d)))))"

subsection \<open>What is owed\<close>

definition delivery_book :: "delivery_env \<Rightarrow> bool \<Rightarrow> book" where
  "delivery_book v reviews = \<lparr>bk_login = dl_login v, bk_rounds = dl_rounds v, bk_dir = ''owed'',
     bk_reviews = reviews, bk_later = dl_tracker_later v, bk_text = dl_owed_text v\<rparr>"

definition owes :: "book \<Rightarrow> job \<Rightarrow> instant \<Rightarrow> string \<Rightarrow> owed_record \<Rightarrow> ('p, 'q, result) bench_step" where
  "owes b j now st r s =
     (case owe b j now st r (bn_shelf s) (bn_world s) of
        None \<Rightarrow> None
      | Some (x, sh, w) \<Rightarrow> Some (map_sum DlOwed id x, s\<lparr>bn_shelf := sh, bn_world := w\<rparr>))"

definition settles :: "book \<Rightarrow> owed_tracker \<Rightarrow> job \<Rightarrow> instant \<Rightarrow> result \<Rightarrow> ('p, 'q, result) bench_step" where
  "settles b tk j now lost s =
     (case settle b tk j now lost (bn_shelf s) (bn_world s) of
        (x, sh, w) \<Rightarrow> Some (map_sum DlOwed id x, s\<lparr>bn_shelf := sh, bn_world := w\<rparr>))"

definition hands_back :: "delivery_env \<Rightarrow> book \<Rightarrow> job \<Rightarrow> instant \<Rightarrow> hand_back \<Rightarrow> ('p, 'q, result) bench_step" where
  "hands_back v b j now hb =
     and_then (clear_job v) (\<lambda>_.
     owes b j now (hb_handing_back hb) (hand_back_record (dl_float v) hb))"

subsection \<open>The push\<close>

text \<open>\<open>Inl\<close> is a push that never landed: the rounds it was made, and why the last one failed.\<close>

definition push_round_of :: "delivery_env \<Rightarrow> progress \<Rightarrow> string \<Rightarrow> int \<Rightarrow> ('p, 'q, (int \<times> string) + effect) bench_step" where
  "push_round_of v p head start =
     (let stem = push_stem (pg_branch p) head in
      and_then (next_key v stem start) (\<lambda>k.
      case k of
        Inl n \<Rightarrow> and_then (note_of stem) (\<lambda>note. give (Inl (n, note)))
      | Inr key \<Rightarrow>
          and_then (noting_effect v key stem (dl_push v head (pg_branch p) (pg_pushed p))) (\<lambda>e. give (Inr e))))"

definition unlanded_said :: "int \<Rightarrow> string \<Rightarrow> string \<Rightarrow> string" where
  "unlanded_said n head branch = ''The push of '' @ tick (git_short head) @ '' to '' @ tick branch @ '' was made '' @
     dec n @ '' times and never landed.''"

definition where_moved :: "string \<Rightarrow> string \<Rightarrow> string" where
  "where_moved at_head lease =
     (if at_head = '''' then ''it has been deleted''
      else if lease = '''' then ''it is at '' @ tick (git_short at_head) @ '', which the agent did not push''
      else ''it is at '' @ tick (git_short at_head) @ '', not at '' @ tick (git_short lease) @ '' where the agent left it'')"

definition touched_paths :: "string io \<Rightarrow> string list io" where
  "touched_paths out =
     map_sum id (\<lambda>s. filter (\<lambda>p. p \<noteq> '''') (map trim_space (split_on (CHR 0x00) s))) out"

definition denied :: "string list \<Rightarrow> string list \<Rightarrow> string list" where
  "denied denylist paths = matching denylist paths"

definition measured :: "delivery_env \<Rightarrow> string \<Rightarrow> string \<Rightarrow> ('p, 'q, count) bench_step" where
  "measured v base head =
     (case measure_diff (dl_deleted v base head) (dl_numstat v base head) (dl_attr v) (dl_grep v) head of
        None \<Rightarrow> halt (DlGit ''the diff could not be measured'')
      | Some c \<Rightarrow> give c)"

subsection \<open>The hand-off\<close>

definition handoff_of :: "delivery_env \<Rightarrow> effect_note option \<Rightarrow> handoff_deps" where
  "handoff_of v note = \<lparr>ha_remote = dl_remote v, ha_comments = ot_comments (dl_tracker v), ha_login = dl_login v,
     ha_asker = dl_asker v, ha_label = dl_off_label v, ha_wait = ci_wait (dl_ci v), ha_rounds = dl_rounds v,
     ha_note = note, ha_note_saved = dl_note_saved v, ha_note_removed = dl_note_removed v,
     ha_label_error = dl_label_error v, ha_ask_faults = dl_ask_faults v, ha_store_text = dl_store_text v\<rparr>"

definition handing :: "delivery_env \<Rightarrow> (handoff_deps \<Rightarrow> world \<Rightarrow> (handoff_error + 'x) \<times> world) \<Rightarrow> ('p, 'q, 'x) bench_step" where
  "handing v f =
     and_then (look bn_note) (\<lambda>note.
     and_then (on_world (f (handoff_of v note))) (lift_sum DlHandoff))"

subsection \<open>The watch on CI\<close>

definition watched :: "delivery_env \<Rightarrow> instant \<Rightarrow> progress \<Rightarrow> ('p, 'q, ci_result \<times> progress) bench_step" where
  "watched v now p =
     (case watch (dl_ci v) (dl_remote v (pg_branch p)) (dl_check_runs v (pg_pushed p)) (dl_required v (pg_into p)) now p of
        (Inl e, q) \<Rightarrow> halt (DlGit e)
      | (Inr r, q) \<Rightarrow> give (r, q))"

definition landed :: "delivery_env \<Rightarrow> instant \<Rightarrow> progress \<Rightarrow> ('p, 'q, landing \<times> string \<times> progress) bench_step" where
  "landed v now p =
     (case land (dl_remote v (pg_branch p)) now p of
        (Inl e, q) \<Rightarrow> halt (DlGit e)
      | (Inr (l, at_head), q) \<Rightarrow> give (l, at_head, q))"

text \<open>The work as it fails a correction: the checkout put back, and the rounds of the push back.\<close>

definition correction_fail :: "delivery_env \<Rightarrow> string \<Rightarrow> correction \<Rightarrow> string \<Rightarrow> ('p, 'q, correction) bench_step" where
  "correction_fail v branch c why =
     and_then (unless_error DlGit (dl_restore v branch (co_reviewed c))) (\<lambda>_.
     and_then (pushed_from branch (co_reviewed c)) (\<lambda>n.
     give (c\<lparr>co_failed := why, co_from := n\<rparr>)))"

subsection \<open>An environment where everything answers\<close>

definition quiet_env :: delivery_env where
  "quiet_env = \<lparr>dl_login = ''afk'', dl_repo = ''o/r'', dl_rounds = 2, dl_tier = example_tier, dl_gate = ''make'',
     dl_attempts = 3, dl_back_label = ''needs-human'', dl_off_label = ''ready'', dl_ci = example_ci, dl_denylist = [],
     dl_sensitive = [], dl_signal = 400, dl_prices = None, dl_asker = \<lparr>ar_holder = ''handoff'', ar_ttl = 60\<rparr>,
     dl_float = plain_floats, dl_quote = id, dl_owed_text = (\<lambda>_. ''failed''), dl_gh_text = (\<lambda>_. ''failed''),
     dl_store_text = (\<lambda>_. ''failed''), dl_candidates = Inr [Ref ''p'' ''m''], dl_candidates_after = Inr [],
     dl_model = (\<lambda>_ _. (no_reply\<lparr>oc_session := ''s1''\<rparr>, None)), dl_tracker = example_owed_tracker [],
     dl_tracker_later = (\<lambda>_. example_owed_tracker []), dl_comments_later = Inr [], dl_open_prs = Inr [],
     dl_open_later = Inr [], dl_issue = (\<lambda>_. Inl NoKey), dl_check_runs = (\<lambda>_. Inr []), dl_required = (\<lambda>_. Inr []),
     dl_edit_pr = (\<lambda>_ _. None), dl_edit_comment = (\<lambda>_ _. None), dl_label_error = None, dl_ask_faults = [],
     dl_remote = (\<lambda>_. Inr ''''), dl_push = (\<lambda>_ _ _. None), dl_workspace = example_workspace,
     dl_reset = (\<lambda>_. None), dl_restore = (\<lambda>_ _. None), dl_relay = (\<lambda>_. Inr ''h1''), dl_ancestor = (\<lambda>_ _. Inr True),
     dl_touched = (\<lambda>_ _. Inr ''a.go''), dl_changed = (\<lambda>_ _. Inr ''''), dl_deleted = (\<lambda>_ _. Some ''''),
     dl_numstat = (\<lambda>_ _. Some ''''), dl_attr = (\<lambda>_. Some ''''), dl_grep = (\<lambda>_. GrepNothing), dl_log = (\<lambda>_ _. Inr ''''),
     dl_root = Inr (\<lambda>_. False), dl_git_file = (\<lambda>_. Inr ''''), dl_git_write = (\<lambda>_. None), dl_git_remove = (\<lambda>_. None),
     dl_file_error = (\<lambda>_. None), dl_note_saved = True, dl_note_removed = True\<rparr>"

definition example_bench :: "'p \<Rightarrow> ('p, 'q) bench" where
  "example_bench p = \<lparr>bn_exists = True, bn_progress = Kept p, bn_request = Absent, bn_shelf = no_shelf, bn_note = None,
     bn_world = first_world\<rparr>"

end
