(* ===== verification/Delivery.thy ===== *)
theory Delivery
  imports Bench
begin

text \<open>
  The machine \<^verbatim>\<open>implement\<close> and \<^verbatim>\<open>revise\<close> share, \<^verbatim>\<open>internal/delivery/machine.go\<close>: the states,
  where a correction sends a job, a stop, which fails a correction or hands back, and the gate
  transition. A kind is a record of its own steps, as in the code; \<open>None\<close> is a nil member.
\<close>

subsection \<open>Kinds\<close>

definition Start_state :: string where "Start_state = ''start''"
definition Gating :: string where "Gating = ''gating''"
definition Pushing :: string where "Pushing = ''pushing''"
definition Watching :: string where "Watching = ''watching''"
definition Reviewing :: string where "Reviewing = ''reviewing''"
definition HandingOff :: string where "HandingOff = ''handing-off''"
definition HandingBack :: string where "HandingBack = ''handing-back''"
definition Deferred :: string where "Deferred = ''deferred''"

record ('a, 'q) delivery_kind =
  kd_job :: kind
  kd_session :: string
  kd_hand_back :: "(job \<Rightarrow> instant \<Rightarrow> 'a delivery_scheme \<Rightarrow> string \<Rightarrow> string \<Rightarrow> ('a delivery_scheme, 'q, result) bench_step) option"
  kd_gone :: "(job \<Rightarrow> instant \<Rightarrow> ('a delivery_scheme, 'q, result) bench_step) option"
  kd_lost :: "(job \<Rightarrow> instant \<Rightarrow> ('a delivery_scheme, 'q, result) bench_step) option"
  kd_nothing :: "('a delivery_scheme \<Rightarrow> bool \<Rightarrow> string) option"
  kd_anchor :: "('a delivery_scheme \<Rightarrow> string) option"
  kd_rewrote :: "('a delivery_scheme \<Rightarrow> string) option"
  kd_gaps :: "(job \<Rightarrow> instant \<Rightarrow> 'a delivery_scheme \<Rightarrow> ('a delivery_scheme, 'q, result option) bench_step) option"

definition states_for :: "string \<Rightarrow> string list" where
  "states_for session = [Start_state, session, Gating, Deferred, Pushing, Watching, Reviewing,
     HandingOff, HandingBack]"

definition machine_states :: "('a, 'q) delivery_kind \<Rightarrow> string list" where
  "machine_states k = states_for (kd_session k)"

definition gate_missing :: "('a, 'q) delivery_kind \<Rightarrow> bool \<Rightarrow> string list" where
  "gate_missing k params =
     map fst (filter (\<lambda>(member, have_it). \<not> have_it)
       [(''Job'', kd_job k \<noteq> ''''), (''Session'', kd_session k \<noteq> ''''), (''Params'', params),
        (''HandBack'', kd_hand_back k \<noteq> None), (''Gone'', kd_gone k \<noteq> None),
        (''Lost'', kd_lost k \<noteq> None), (''Nothing'', kd_nothing k \<noteq> None),
        (''Rewrote'', kd_anchor k = None \<or> kd_rewrote k \<noteq> None)])"

text \<open>A nil member called is a panic.\<close>

definition kind_member :: "'m option \<Rightarrow> ('m \<Rightarrow> ('p, 'q, 'x) bench_step) \<Rightarrow> ('p, 'q, 'x) bench_step" where
  "kind_member f g = (case f of None \<Rightarrow> halt DlPanic | Some x \<Rightarrow> g x)"

definition goes_to :: "string \<Rightarrow> instant \<Rightarrow> result" where
  "goes_to st now = \<lparr>res_state = st, res_run_at = Some now, res_effects = [], res_exhausted = None\<rparr>"

text \<open>A kind's transitions: each its name, the state it starts from, its resource tokens and its run,
  which the runner finds by the job's state.\<close>

definition heavy_build :: string where "heavy_build = ''heavy-build''"

type_synonym ('v, 'p, 'q) kind_transition =
  "string \<times> string \<times> string list \<times> ('v \<Rightarrow> job \<Rightarrow> instant \<Rightarrow> ('p, 'q, result) bench_step)"

definition step_from :: "('v, 'p, 'q) kind_transition list \<Rightarrow> 'v \<Rightarrow> job \<Rightarrow> instant \<Rightarrow> ('p, 'q, result) bench_step" where
  "step_from ts v j now =
     (case find (\<lambda>(name, st, tokens, f). st = j_state j) ts of
        None \<Rightarrow> halt (DlRefused (''no transition from '' @ j_state j))
      | Some (name, st, tokens, f) \<Rightarrow> f v j now)"

definition goes_with :: "string \<Rightarrow> instant \<Rightarrow> effect list \<Rightarrow> result" where
  "goes_with st now es = (goes_to st now)\<lparr>res_effects := es\<rparr>"

definition waits_until :: "string \<Rightarrow> gotime \<Rightarrow> effect list \<Rightarrow> result" where
  "waits_until st t es = \<lparr>res_state = st, res_run_at = t, res_effects = es, res_exhausted = None\<rparr>"

text \<open>A result at rest.\<close>

definition rests_in :: "string \<Rightarrow> result" where
  "rests_in st = \<lparr>res_state = st, res_run_at = None, res_effects = [], res_exhausted = None\<rparr>"

subsection \<open>Stops\<close>

definition step_state :: "string \<Rightarrow> correction_step \<Rightarrow> string" where
  "step_state session s =
     (case s of Session \<Rightarrow> session | PushBack \<Rightarrow> Pushing | _ \<Rightarrow> Reviewing)"

text \<open>A failed correction met again: where it goes, and whether it goes anywhere.\<close>

definition machine_over :: "string \<Rightarrow> instant \<Rightarrow> 'a delivery_scheme \<Rightarrow> result \<times> bool" where
  "machine_over session now p =
     (let step = correction_over (dv_correction p) (pg_pushed (dv_progress p))
      in (goes_to (step_state session step) now, step \<noteq> Making))"

definition correction_rewrote :: "correction \<Rightarrow> string" where
  "correction_rewrote c = ''The correction rewrote '' @ tick (git_short (co_reviewed c)) @
     '', the head the review read, which a correction never does.''"

definition kind_anchor :: "('a, 'q) delivery_kind \<Rightarrow> 'a delivery_scheme \<Rightarrow> string" where
  "kind_anchor k p = (case kd_anchor k of None \<Rightarrow> '''' | Some f \<Rightarrow> f p)"

definition kept_head :: "('a, 'q) delivery_kind \<Rightarrow> 'a delivery_scheme \<Rightarrow> string" where
  "kept_head k p =
     (case dv_correction p of
        Some c \<Rightarrow> if correction_running (Some c) then co_reviewed c else kind_anchor k p
      | None \<Rightarrow> kind_anchor k p)"

definition kind_rewrote :: "('a, 'q) delivery_kind \<Rightarrow> 'a delivery_scheme \<Rightarrow> string" where
  "kind_rewrote k p = (case kd_rewrote k of None \<Rightarrow> '''' | Some f \<Rightarrow> f p)"

definition rewrote_reason :: "('a, 'q) delivery_kind \<Rightarrow> 'a delivery_scheme \<Rightarrow> string" where
  "rewrote_reason k p =
     (case dv_correction p of
        Some c \<Rightarrow> if correction_running (Some c) then correction_rewrote c else kind_rewrote k p
      | None \<Rightarrow> kind_rewrote k p)"

definition fail_correction :: "delivery_env \<Rightarrow> string \<Rightarrow> ('a delivery_scheme, 'q, result) bench_step \<Rightarrow>
    instant \<Rightarrow> 'a delivery_scheme \<Rightarrow> correction \<Rightarrow> string \<Rightarrow> ('a delivery_scheme, 'q, result) bench_step" where
  "fail_correction v session lost now p c why =
     and_then (look bn_exists) (\<lambda>there.
     if \<not> there then lost
     else and_then (correction_fail v (pg_branch (dv_progress p)) c why) (\<lambda>c.
       let p = p\<lparr>dv_correction := Some c, dv_progress := (dv_progress p)\<lparr>pg_failure := '''', pg_why := ''''\<rparr>\<rparr>
       in and_then (save_progress v p) (\<lambda>_. give (fst (machine_over session now p)))))"

definition machine_stop :: "('a, 'q) delivery_kind \<Rightarrow> delivery_env \<Rightarrow> job \<Rightarrow> instant \<Rightarrow> 'a delivery_scheme \<Rightarrow>
    string \<Rightarrow> string \<Rightarrow> ('a delivery_scheme, 'q, result) bench_step" where
  "machine_stop k v j now p reason output =
     (let back = kind_member (kd_hand_back k) (\<lambda>f. f j now p reason output) in
      case dv_correction p of
        Some c \<Rightarrow>
          if correction_running (Some c)
          then fail_correction v (kd_session k) (kind_member (kd_lost k) (\<lambda>f. f j now)) now p c reason
          else back
      | None \<Rightarrow> back)"

subsection \<open>The gate\<close>

definition rewritten :: "('a, 'q) delivery_kind \<Rightarrow> delivery_env \<Rightarrow> 'a delivery_scheme \<Rightarrow> bool io" where
  "rewritten k v p =
     (let kept = kept_head k p in
      if kept = '''' then Inr False
      else (case ws_branch (dl_workspace v) of
          Inl _ \<Rightarrow> Inr False
        | Inr branch \<Rightarrow>
            if branch \<noteq> pg_branch (dv_progress p) then Inr False
            else map_sum id Not (dl_ancestor v kept ''HEAD'')))"

definition switched_reason :: "progress \<Rightarrow> string \<Rightarrow> string" where
  "switched_reason s branch = ''The session left '' @ tick (pg_branch s) @ '' for '' @ tick branch @
     '', and the prompt said not to change branches.''"

definition uncorrected_reason :: "progress \<Rightarrow> string" where
  "uncorrected_reason s = ''The session committed nothing on top of '' @ tick (git_short (pg_pushed s)) @
     '', the head the review read, so nothing was corrected.''"

definition gate_spent_reason :: "progress \<Rightarrow> string" where
  "gate_spent_reason s = ''The local gate still failed after '' @ dec (pg_attempts s) @ '' attempts. '' @ pg_why s"

definition gate_empty :: "('a, 'q) delivery_kind \<Rightarrow> delivery_env \<Rightarrow> job \<Rightarrow> instant \<Rightarrow> 'a delivery_scheme \<Rightarrow>
    ('a delivery_scheme, 'q, result) bench_step" where
  "gate_empty k v j now p =
     (if correction_running (dv_correction p)
      then machine_stop k v j now p (uncorrected_reason (dv_progress p)) ''''
      else
        let fix_made = (pg_pushed (dv_progress p) \<noteq> kind_anchor k p)
        in and_then (case (if fix_made then None else kd_gaps k) of None \<Rightarrow> give None | Some gaps \<Rightarrow> gaps j now p) (\<lambda>r.
           case r of
             Some r \<Rightarrow> give r
           | None \<Rightarrow> machine_stop k v j now p (case kd_nothing k of None \<Rightarrow> '''' | Some f \<Rightarrow> f p fix_made) ''''))"

definition gate_decides :: "('a, 'q) delivery_kind \<Rightarrow> delivery_env \<Rightarrow> job \<Rightarrow> instant \<Rightarrow> 'a delivery_scheme \<Rightarrow>
    gate_result \<Rightarrow> ('a delivery_scheme, 'q, result) bench_step" where
  "gate_decides k v j now p r =
     (case gr_state r of
        GatePassed \<Rightarrow> and_then (save_progress v p) (\<lambda>_. give (goes_to Pushing now))
      | GateSwitched \<Rightarrow> machine_stop k v j now p (switched_reason (dv_progress p) (gr_branch r)) ''''
      | GateEmpty \<Rightarrow> gate_empty k v j now p
      | GateExhausted \<Rightarrow> machine_stop k v j now p (gate_spent_reason (dv_progress p)) (gr_output r)
      | GateDirty \<Rightarrow> machine_stop k v j now p (pg_why (dv_progress p)) (gr_output r)
      | _ \<Rightarrow> and_then (save_progress v p) (\<lambda>_. give (goes_to (kd_session k) now)))"

definition gate_checks :: "('a, 'q) delivery_kind \<Rightarrow> delivery_env \<Rightarrow> job \<Rightarrow> instant \<Rightarrow> 'a delivery_scheme \<Rightarrow>
    ('a delivery_scheme, 'q, result) bench_step" where
  "gate_checks k v j now p =
     and_then (lift_sum DlGit (rewritten k v p)) (\<lambda>broken.
     if broken then machine_stop k v j now p (rewrote_reason k p) ''''
     else and_then (look bn_exists) (\<lambda>there.
       case check_gate (dl_workspace v\<lparr>ws_exists := there\<rparr>) (dv_progress p) (dl_gate v) (dl_attempts v) of
         (Inl e, q) \<Rightarrow> halt (DlGit e)
       | (Inr r, q) \<Rightarrow> gate_decides k v j now (p\<lparr>dv_progress := q\<rparr>) r))"

definition machine_gate :: "('a, 'q) delivery_kind \<Rightarrow> delivery_env \<Rightarrow> job \<Rightarrow> instant \<Rightarrow>
    ('a delivery_scheme, 'q, result) bench_step" where
  "machine_gate k v j now =
     and_then (load_progress (j_id j)) (\<lambda>found.
     and_then (look bn_exists) (\<lambda>there.
     case (if there then found else None) of
       None \<Rightarrow> kind_member (kd_gone k) (\<lambda>f. f j now)
     | Some p \<Rightarrow>
         if snd (machine_over (kd_session k) now p) then give (fst (machine_over (kd_session k) now p))
         else gate_checks k v j now p))"

subsection \<open>A failed correction comes home\<close>

lemma correction_running_Some [simp]: "correction_running (Some c) \<longleftrightarrow> co_failed c = ''''"
  by (simp add: correction_running_def)

lemma load_progress_runs:
  "bn_progress s = Kept p \<Longrightarrow> progress_complete (dv_progress p) \<Longrightarrow> load_progress jid s = Some (Inr (Some p), s)"
  by (simp add: load_progress_def give_def)

lemma save_progress_iff [step_simps]:
  "save_progress v p s = Some (Inr u, t) \<longleftrightarrow> dl_file_error v ''progress'' = None \<and> t = s\<lparr>bn_progress := Kept p\<rparr>"
  by (auto simp: save_progress_def step_simps)

lemma pushed_from_keeps: "pushed_from b h s = Some (x, t) \<Longrightarrow> bn_progress t = bn_progress s \<and> bn_exists t = bn_exists s"
  by (auto simp: pushed_from_def split: option.splits prod.splits)

definition failed_at :: "correction \<Rightarrow> 'a delivery_scheme \<Rightarrow> string" where
  "failed_at c p = (if pg_pushed (dv_progress p) \<noteq> co_reviewed c then Pushing else Reviewing)"

lemma machine_over_failed:
  "dv_correction p = Some c \<Longrightarrow> co_failed c \<noteq> '''' \<Longrightarrow>
     machine_over session now p = (goes_to (failed_at c p) now, True)"
  by (simp add: machine_over_def correction_over_def step_state_def failed_at_def)

lemma machine_over_running: "dv_correction p = Some c \<Longrightarrow> co_failed c = '''' \<Longrightarrow> \<not> snd (machine_over session now p)"
  by (simp add: machine_over_def correction_over_def)

lemma fail_correction_runs:
  assumes "bn_exists s" "dl_restore v (pg_branch (dv_progress p)) (co_reviewed c) = None"
    "pushed_from (pg_branch (dv_progress p)) (co_reviewed c) s = Some (Inr n, u)" "dl_file_error v ''progress'' = None"
    and p': "p' = p\<lparr>dv_correction := Some (c\<lparr>co_failed := why, co_from := n\<rparr>),
      dv_progress := (dv_progress p)\<lparr>pg_failure := '''', pg_why := ''''\<rparr>\<rparr>"
  shows "fail_correction v session lost now p c why s =
    Some (Inr (fst (machine_over session now p')), u\<lparr>bn_progress := Kept p'\<rparr>)"
  unfolding p' using assms(1-4)
  by (simp add: fail_correction_def correction_fail_def and_then_assoc and_then_runs save_progress_def Let_def give_def)

lemma fail_correction_saves:
  assumes "fail_correction v session lost now p c why s = Some (Inr r, t)" "bn_exists s" "why \<noteq> ''''"
  shows "\<exists>n p'. bn_progress t = Kept p' \<and> dv_correction p' = Some (c\<lparr>co_failed := why, co_from := n\<rparr>) \<and>
    pg_pushed (dv_progress p') = pg_pushed (dv_progress p) \<and> bn_exists t \<and> r = goes_to (failed_at c p) now \<and>
    (progress_complete (dv_progress p) \<longrightarrow> progress_complete (dv_progress p'))"
proof -
  define failing where "failing = (\<lambda>n. p\<lparr>dv_correction := Some (c\<lparr>co_failed := why, co_from := n\<rparr>),
      dv_progress := (dv_progress p)\<lparr>pg_failure := '''', pg_why := ''''\<rparr>\<rparr>)"
  obtain n u where f: "pushed_from (pg_branch (dv_progress p)) (co_reviewed c) s = Some (Inr n, u)"
    and t: "t = u\<lparr>bn_progress := Kept (failing n)\<rparr>" and r: "r = fst (machine_over session now (failing n))"
    using assms(1,2) by (auto simp: fail_correction_def correction_fail_def Let_def step_simps failing_def)
  let ?p = "failing n"
  have "machine_over session now ?p = (goes_to (failed_at (c\<lparr>co_failed := why, co_from := n\<rparr>) ?p) now, True)"
    by (rule machine_over_failed) (simp_all add: assms(3) failing_def)
  then show ?thesis
    using r t pushed_from_keeps [OF f] assms(2)
    by (intro exI [of _ n] exI [of _ ?p]) (simp add: failed_at_def progress_complete_def failing_def)
qed

lemma check_gate_keeps:
  assumes "check_gate ws p command attempts = (Inr r, p')"
  shows "pg_pushed p' = pg_pushed p" and "gr_state r \<noteq> GateDirty" and "progress_complete p' = progress_complete p"
  using assms
  by (auto simp: check_gate_def gate_of_def count_failure_def run_gate_def Let_def progress_complete_def
      split: sum.splits if_splits process_end.splits bool.splits)

lemma reasons_ne [simp]:
  "correction_rewrote c \<noteq> ''''" "switched_reason s b \<noteq> ''''" "uncorrected_reason s \<noteq> ''''"
  "gate_spent_reason s \<noteq> ''''"
  by (simp_all add: correction_rewrote_def switched_reason_def uncorrected_reason_def gate_spent_reason_def)

lemma machine_stop_running:
  "dv_correction p = Some c \<Longrightarrow> co_failed c = '''' \<Longrightarrow>
     machine_stop k v j now p reason output =
       fail_correction v (kd_session k) (kind_member (kd_lost k) (\<lambda>f. f j now)) now p c reason"
  by (simp add: machine_stop_def)

text \<open>While a correction is being made, the gate saves the work as it stands or fails the correction;
  a hand-back is not among its answers.\<close>

lemma gate_while_correcting:
  assumes c: "dv_correction p = Some c" "co_failed c = ''''"
    and s: "gate_checks k v j now p s = Some (Inr r, t)"
  obtains (saves) q where "bn_progress t = Kept q" "dv_correction q = dv_correction p"
  | (fails) q why where "fail_correction v (kd_session k) (kind_member (kd_lost k) (\<lambda>f. f j now)) now q c why s = Some (Inr r, t)"
      "why \<noteq> ''''" "pg_pushed (dv_progress q) = pg_pushed (dv_progress p)"
      "progress_complete (dv_progress q) = progress_complete (dv_progress p)"
proof -
  from s obtain b where b: "rewritten k v p = Inr b" by (auto simp: gate_checks_def step_simps)
  show thesis
  proof (cases b)
    case True
    with b s c have "fail_correction v (kd_session k) (kind_member (kd_lost k) (\<lambda>f. f j now)) now p c (correction_rewrote c) s =
        Some (Inr r, t)"
      by (simp add: gate_checks_def machine_stop_running rewrote_reason_def)
    then show ?thesis by (rule fails) simp_all
  next
    case False
    obtain x q where ch: "check_gate (dl_workspace v\<lparr>ws_exists := bn_exists s\<rparr>) (dv_progress p) (dl_gate v)
        (dl_attempts v) = (x, q)" by fastforce
    with False b s obtain y where x: "x = Inr y" and d: "gate_decides k v j now (p\<lparr>dv_progress := q\<rparr>) y s = Some (Inr r, t)"
      by (cases x) (auto simp: gate_checks_def)
    note kept = check_gate_keeps [OF ch [unfolded x]]
    have q: "dv_correction (p\<lparr>dv_progress := q\<rparr>) = Some c" using c by simp
    from d c kept show ?thesis
      by (cases "gr_state y")
        (auto simp: gate_decides_def gate_empty_def machine_stop_running [OF q c(2)] step_simps
          intro: saves fails [of "p\<lparr>dv_progress := q\<rparr>"])
  qed
qed

lemma machine_gate_opens:
  "bn_progress s = Kept p \<Longrightarrow> progress_complete (dv_progress p) \<Longrightarrow> bn_exists s \<Longrightarrow>
     machine_gate k v j now s =
       (if snd (machine_over (kd_session k) now p) then give (fst (machine_over (kd_session k) now p))
        else gate_checks k v j now p) s"
  unfolding machine_gate_def by (subst and_then_runs [OF load_progress_runs]) simp_all



subsection \<open>A correction that fails its gate\<close>

definition correcting :: correction where
  "correcting = \<lparr>co_reviewed = ''h0'', co_review = 44,
     co_findings = [\<lparr>fd_number = 1, fd_axis = ''Correctness'', fd_text = ''1. A nil map.''\<rparr>], co_given = True,
     co_failed = '''', co_from = 0\<rparr>"

definition corrected_delivery :: delivery where
  "corrected_delivery = \<lparr>dv_progress = example_progress, dv_correction = Some correcting, dv_spent = []\<rparr>"

definition plain_kind :: "(unit, unit) delivery_kind" where
  "plain_kind = \<lparr>kd_job = KindImplement, kd_session = ''working'',
     kd_hand_back = Some (\<lambda>j now p reason output. give (goes_to HandingBack now)),
     kd_gone = Some (\<lambda>j now. give (goes_to Start_state now)), kd_lost = Some (\<lambda>j now. give (goes_to HandingBack now)),
     kd_nothing = Some (\<lambda>p f. ''Nothing was committed.''), kd_anchor = None, kd_rewrote = None, kd_gaps = None\<rparr>"


end
