(* ===== verification/GitHub_App.thy ===== *)
theory GitHub_App
  imports GitHub_Client
begin

text \<open>
  The agent's identity on the tracker, \<^verbatim>\<open>internal/github/app.go\<close>: a GitHub App whose
  installation token is minted when it is needed, reused while it has more than
  \<open>refresh_ahead\<close> left, and forgotten when it is refused. Signing a JWT with the private key
  is an argument, of the claims; \<open>None\<close> is no key. The lock makes \<open>app_token\<close> one step.
  Then the two things the client promises whatever the server answers: a request never
  leaves the API root, and a listing is never returned in part.
\<close>

subsection \<open>The App\<close>

definition jwt_lifetime :: int where
  "jwt_lifetime = 9 * 60 * second"

definition jwt_backdate :: int where
  "jwt_backdate = 60 * second"

definition refresh_ahead :: int where
  "refresh_ahead = 5 * 60 * second"

record app =
  ap_id :: string
  ap_sign :: "(int \<times> int \<times> string \<Rightarrow> string + string) option"
  ap_repo :: string
  ap_base_url :: string
  ap_time :: time_format

record app_state =
  as_installation :: int
  as_token :: string
  as_expires :: instant

definition app_now :: "net \<Rightarrow> instant" where
  "app_now n = nt_clock n (nt_sent n)"

definition app_jwt :: "app \<Rightarrow> net \<Rightarrow> gh_error + string" where
  "app_jwt a n =
     (case ap_sign a of
        None \<Rightarrow> Inl NoKey
      | Some sign \<Rightarrow>
          (case sign ((app_now n - jwt_backdate) div second, (app_now n + jwt_lifetime) div second, ap_id a) of
             Inl e \<Rightarrow> Inl (SigningError e)
           | Inr t \<Rightarrow> Inr t))"

definition app_get_json :: "app \<Rightarrow> (json \<Rightarrow> 'a option) \<Rightarrow> string \<Rightarrow> net \<Rightarrow> (gh_error + 'a) \<times> net" where
  "app_get_json a decode u n =
     (case app_jwt a n of
        Inl e \<Rightarrow> (Inl e, n)
      | Inr jwt \<Rightarrow>
          (case do_request ''GET'' u media_json jwt None n of
             (Inl e, n') \<Rightarrow> (Inl e, n')
           | (Inr r, n') \<Rightarrow> (read_json ''GET'' u decode r, n')))"

definition app_login :: "app \<Rightarrow> net \<Rightarrow> (gh_error + string) \<times> net" where
  "app_login a n =
     (let u = base_url (ap_base_url a) @ ''/app'' in
      case app_get_json a (member_string ''slug'') u n of
        (Inl e, n') \<Rightarrow> (Inl e, n')
      | (Inr slug, n') \<Rightarrow> (if slug = '''' then Inl (NoSlug u) else Inr (slug @ ''[bot]''), n'))"

definition find_installation :: "app \<Rightarrow> net \<Rightarrow> (gh_error + int) \<times> net" where
  "find_installation a n =
     (if \<not> snd (snd (split_repo (ap_repo a))) then (Inl (BadRepo (ap_repo a)), n)
      else
        let u = base_url (ap_base_url a) @ ''/repos/'' @ ap_repo a @ ''/installation'' in
        (case app_get_json a (member_int ''id'') u n of
           (Inl e, n') \<Rightarrow> (Inl e, n')
         | (Inr i, n') \<Rightarrow> (if i = 0 then Inl (NoInstallation u) else Inr i, n')))"

definition decode_token :: "time_format \<Rightarrow> json \<Rightarrow> (string \<times> gotime) option" where
  "decode_token tm j = do {
     t \<leftarrow> member_string ''token'' j;
     e \<leftarrow> member ''expires_at'' j;
     expires \<leftarrow> as_time tm e;
     Some (t, expires) }"

definition mint_url :: "app \<Rightarrow> int \<Rightarrow> string" where
  "mint_url a installation =
     base_url (ap_base_url a) @ ''/app/installations/'' @ dec installation @ ''/access_tokens''"

definition mint :: "app \<Rightarrow> int \<Rightarrow> net \<Rightarrow> (gh_error + string \<times> instant) \<times> net" where
  "mint a installation n =
     (let u = mint_url a installation; name = fst (snd (split_repo (ap_repo a))) in
      case app_jwt a n of
        Inl e \<Rightarrow> (Inl e, n)
      | Inr jwt \<Rightarrow>
          (case do_request ''POST'' u media_json jwt
              (Some (JObj [(''repositories'', JList [JStr name])])) n of
             (Inl e, n') \<Rightarrow> (Inl e, n')
           | (Inr r, n') \<Rightarrow>
               (case read_json ''POST'' u (decode_token (ap_time a)) r of
                  Inl e \<Rightarrow> (Inl e, n')
                | Inr (t, None) \<Rightarrow> (Inl (NoTokenInAnswer u), n')
                | Inr (t, Some expires) \<Rightarrow>
                    (if t = '''' then Inl (NoTokenInAnswer u) else Inr (t, expires), n'))))"

definition mint_token :: "app \<Rightarrow> app_state \<Rightarrow> net \<Rightarrow> (gh_error + string) \<times> app_state \<times> net" where
  "mint_token a s n =
     (case mint a (as_installation s) n of
        (Inl e, n') \<Rightarrow> (Inl e, if status_is 404 e then s\<lparr>as_installation := 0\<rparr> else s, n')
      | (Inr (t, expires), n') \<Rightarrow> (Inr t, s\<lparr>as_token := t, as_expires := expires\<rparr>, n'))"

definition app_token :: "app \<Rightarrow> app_state \<Rightarrow> net \<Rightarrow> (gh_error + string) \<times> app_state \<times> net" where
  "app_token a s n =
     (if as_token s \<noteq> '''' \<and> app_now n < as_expires s - refresh_ahead then (Inr (as_token s), s, n)
      else
        let s = s\<lparr>as_token := ''''\<rparr> in
        if as_installation s = 0 then
          (case find_installation a n of
             (Inl e, n') \<Rightarrow> (Inl e, s, n')
           | (Inr i, n') \<Rightarrow> mint_token a (s\<lparr>as_installation := i\<rparr>) n')
        else mint_token a s n)"

definition app_refused :: "string \<Rightarrow> app_state \<Rightarrow> app_state" where
  "app_refused token s =
     (if token \<noteq> '''' \<and> token = as_token s then s\<lparr>as_token := ''''\<rparr> else s)"

definition app_credential :: "app \<Rightarrow> app_state credential" where
  "app_credential a = \<lparr>cr_token = app_token a, cr_refused = app_refused\<rparr>"

subsection \<open>What a step sends\<close>

text \<open>\<open>n'\<close> is \<open>n\<close> after requests that were all under the API root \<open>host\<close>.\<close>

definition confined :: "string \<Rightarrow> net \<Rightarrow> net \<Rightarrow> bool" where
  "confined host n n' \<longleftrightarrow> nt_answer n' = nt_answer n \<and> nt_clock n' = nt_clock n \<and>
     (\<exists>qs. nt_sent n' = nt_sent n @ qs \<and> list_all (\<lambda>q. has_prefix (hr_url q) (host @ ''/'')) qs)"

named_theorems confined_intros \<open>the operations that send only under the API root\<close>

lemma confined_refl [simp, confined_intros]: "confined host n n"
  by (simp add: confined_def)

lemma confined_trans: "confined host n n' \<Longrightarrow> confined host n' n'' \<Longrightarrow> confined host n n''"
  by (fastforce simp: confined_def)

lemma under_host: "has_prefix (host @ CHR ''/'' # path) (host @ ''/'')"
  by (simp add: has_prefix_conv)

lemma do_request_confined [confined_intros]:
  assumes "has_prefix u (host @ ''/'')"
  shows "confined host n (snd (do_request meth u accept token payload n))"
  using assms by (auto simp: do_request_def confined_def Let_def split: sum.split)

locale credential_source =
  fixes cr :: "'c credential" and host :: string
  assumes token_confined: "confined host n (snd (snd (cr_token cr c n)))"
begin

lemma send_confined:
  assumes "has_prefix u (host @ ''/'')"
  shows "confined host (snd st) (snd (snd (send (Some cr) meth u accept payload st)))"
proof -
  obtain c n where st: "st = (c, n)" by fastforce
  obtain r c1 n1 where t: "cr_token cr c n = (r, c1, n1)" by (metis prod.exhaust)
  have n1: "confined host n n1" using token_confined [of n c] t by simp
  have "confined host n (snd (do_request meth u accept x payload n1))" for x
    using confined_trans [OF n1 do_request_confined [OF assms]] .
  with n1 show ?thesis
    by (auto simp: send_def st t case_prod_beta split: sum.split)
qed

lemma get_json_confined:
  assumes "has_prefix u (host @ ''/'')"
  shows "confined host (snd st) (snd (snd (get_json cl (Some cr) decode u st)))"
  using send_confined [OF assms, of st "''GET''" media_json None]
  by (auto simp: get_json_def split: prod.split sum.split)

lemma post_json_confined:
  assumes "has_prefix u (host @ ''/'')"
  shows "confined host (snd st) (snd (snd (post_json (Some cr) decode u payload st)))"
  using send_confined [OF assms, of st "''POST''" media_json "Some payload"]
  by (auto simp: post_json_def split: prod.split sum.split)

lemma post_nil_confined:
  assumes "has_prefix u (host @ ''/'')"
  shows "confined host (snd st) (snd (snd (post_nil (Some cr) u payload st)))"
  using send_confined [OF assms, of st "''POST''" media_json "Some payload"]
  by (auto simp: post_nil_def split: prod.split sum.split)

lemma patch_body_confined:
  assumes "has_prefix u (host @ ''/'')"
  shows "confined host (snd st) (snd (snd (patch_body (Some cr) body u st)))"
  using send_confined [OF assms, of st "''PATCH''" media_json "Some (JObj [(''body'', JStr body)])"]
  by (auto simp: patch_body_def split: prod.split sum.split)

text \<open>The next page is under the API root too, or there is none.\<close>

lemma get_json_next:
  assumes "client_base cl = host" and "get_json cl cr' decode u st = (Inr (v, nx), st')"
  shows "nx = '''' \<or> has_prefix nx (host @ ''/'')"
proof -
  have "next_part host parts = Inr nx \<Longrightarrow> nx = '''' \<or> has_prefix nx (host @ ''/'')" for parts
    by (induction parts) (auto simp: Let_def case_prod_beta split: if_splits)
  with assms show ?thesis
    by (auto simp: get_json_def next_url_def split: prod.splits sum.splits)
qed

lemma read_pages_confined:
  assumes "client_base cl = host" and "u = '''' \<or> has_prefix u (host @ ''/'')"
  shows "confined host (snd st) (snd (snd (read_pages n cl (Some cr) decode add u out st)))"
  using assms(2)
proof (induction n arbitrary: u out st)
  case 0
  then show ?case by simp
next
  case (Suc n)
  show ?case
  proof (cases "u = ''''")
    case False
    with Suc.prems have u: "has_prefix u (host @ ''/'')" by simp
    obtain r st1 where g: "get_json cl (Some cr) decode u st = (r, st1)" by (metis surj_pair)
    have c: "confined host (snd st) (snd st1)" using get_json_confined [OF u, of st cl decode] g by simp
    show ?thesis
    proof (cases r)
      case (Inr p)
      obtain page nx where p: "p = (page, nx)" by fastforce
      from get_json_next [OF assms(1) g [unfolded Inr p]]
      have "confined host (snd st1) (snd (snd (read_pages n cl (Some cr) decode add nx (add page out) st1)))"
        by (rule Suc.IH)
      with c False show ?thesis by (auto simp: g Inr p intro: confined_trans)
    qed (use c False in \<open>simp add: g\<close>)
  qed simp
qed

lemma at_repo_confined:
  assumes "client_base cl = host"
    and "\<And>u. has_prefix u (host @ ''/'') \<Longrightarrow> confined host (snd st) (snd (snd (f u st)))"
  shows "confined host (snd st) (snd (snd (at_repo cl path f st)))"
  using assms by (auto simp: at_repo_def repo_url_def has_prefix_conv)

lemma list_repo_confined:
  assumes "client_base cl = host"
    and "\<And>u. has_prefix u (host @ ''/'') \<Longrightarrow> confined host (snd st) (snd (snd (f u st)))"
  shows "confined host (snd st) (snd (snd (list_repo cl path f st)))"
  using assms by (auto simp: list_repo_def repo_url_def has_prefix_conv)

end

lemma snd_map_result [simp]: "snd (map_result f r) = snd r"
  by (auto simp: map_result_def split: prod.split sum.split)

lemma snd_map_listing [simp]: "snd (map_listing f r) = snd r"
  by (auto simp: map_listing_def split: prod.split sum.split option.split)

context credential_source begin

lemma all_pages_confined:
  assumes "client_base cl = host" and "has_prefix u (host @ ''/'')"
  shows "confined host (snd st) (snd (snd (all_pages n cl (Some cr) decode u st)))"
  unfolding all_pages_def by (rule read_pages_confined) (simp_all add: assms)

lemma graphql_confined:
  assumes "client_base cl = host"
  shows "confined host (snd st) (snd (snd (graphql cl (Some cr) decode q v st)))"
proof -
  have "confined host (snd st) (snd (snd (post_json (Some cr) (decode_graphql decode) (graphql_url cl) p st)))" for p
    by (rule post_json_confined) (simp add: graphql_url_def assms has_prefix_conv)
  then show ?thesis
    by (simp add: graphql_def Let_def case_prod_beta split: sum.split list.split)
qed

lemma review_reactions_confined:
  assumes "client_base cl = host"
  shows "confined host (snd st) (snd (snd (review_reactions n cl (Some cr) node after out st)))"
proof (induction n arbitrary: after out st)
  case (Suc n)
  let ?g = "graphql cl (Some cr) (\<lambda>d. do { v \<leftarrow> member ''node'' d; as_pointer decode_reaction_page v })
         reactions_query (JObj [(''after'', after), (''id'', JStr node)]) st"
  have "confined host (snd st) (snd (snd ?g))" by (rule graphql_confined [OF assms])
  with Suc.IH show ?case
    by (simp add: case_prod_beta split: sum.split option.split) (blast intro: confined_trans)
qed simp

lemma reads_confined:
  assumes "client_base cl = host"
  shows "confined host (snd st) (snd (snd (get_pull_request cl (Some cr) i st)))"
    and "confined host (snd st) (snd (snd (get_issue cl (Some cr) tm i st)))"
    and "confined host (snd st) (snd (snd (default_branch cl (Some cr) st)))"
    and "confined host (snd st) (snd (snd (compare_heads cl (Some cr) b h st)))"
    and "confined host (snd st) (snd (snd (workflow_run_count cl (Some cr) b st)))"
  unfolding get_pull_request_def get_issue_def default_branch_def compare_heads_def workflow_run_count_def
      atomize_conj
  by (intro conjI at_repo_confined [OF assms];
      simp add: get_json_confined send_confined case_prod_beta split: sum.split)

lemma listings_confined:
  assumes "client_base cl = host"
  shows "confined host (snd st) (snd (snd (open_issues n cl (Some cr) tm st)))"
    and "confined host (snd st) (snd (snd (open_pull_requests n cl (Some cr) st)))"
    and "confined host (snd st) (snd (snd (list_comments n cl (Some cr) tm i st)))"
    and "confined host (snd st) (snd (snd (list_reactions n cl (Some cr) i st)))"
    and "confined host (snd st) (snd (snd (list_issue_reactions n cl (Some cr) i st)))"
    and "confined host (snd st) (snd (snd (list_reviews n cl (Some cr) tm i st)))"
    and "confined host (snd st) (snd (snd (list_line_comments n cl (Some cr) i j st)))"
    and "confined host (snd st) (snd (snd (issues_by n cl (Some cr) tm b st)))"
    and "confined host (snd st) (snd (snd (blocked_by n cl (Some cr) tm i st)))"
    and "confined host (snd st) (snd (snd (list_required_checks n cl (Some cr) b st)))"
    and "confined host (snd st) (snd (snd (list_check_runs n cl (Some cr) b st)))"
    and "confined host (snd st) (snd (snd (workflow_runs n cl (Some cr) tm b h st)))"
    and "confined host (snd st) (snd (snd (workflow_jobs n cl (Some cr) i st)))"
  unfolding open_issues_def open_pull_requests_def list_comments_def list_reactions_def
    list_issue_reactions_def list_reviews_def list_line_comments_def issues_by_def blocked_by_def
    list_required_checks_def list_check_runs_def workflow_runs_def workflow_jobs_def atomize_conj
  by (intro conjI list_repo_confined [OF assms];
      simp add: all_pages_confined [OF assms] read_pages_confined [OF assms])

lemma writes_confined:
  assumes "client_base cl = host"
  shows "confined host (snd st) (snd (snd (post_comment cl (Some cr) tm i b st)))"
    and "confined host (snd st) (snd (snd (edit_comment cl (Some cr) i b st)))"
    and "confined host (snd st) (snd (snd (edit_pull_request cl (Some cr) i b st)))"
    and "confined host (snd st) (snd (snd (react cl (Some cr) i b st)))"
    and "confined host (snd st) (snd (snd (react_to_issue cl (Some cr) i b st)))"
    and "confined host (snd st) (snd (snd (create_pull_request cl (Some cr) np st)))"
    and "confined host (snd st) (snd (snd (label cl (Some cr) i b st)))"
    and "confined host (snd st) (snd (snd (unlabel cl (Some cr) i b st)))"
    and "confined host (snd st) (snd (snd (create_issue cl (Some cr) tm b h st)))"
    and "confined host (snd st) (snd (snd (add_blocked_by cl (Some cr) i j st)))"
  unfolding post_comment_def edit_comment_def edit_pull_request_def react_def react_to_issue_def
    create_pull_request_def label_def unlabel_def create_issue_def add_blocked_by_def atomize_conj
  by (intro conjI at_repo_confined [OF assms];
      simp add: post_json_confined post_nil_confined patch_body_confined send_confined case_prod_beta
        split: sum.split)

lemma react_to_review_confined:
  assumes "client_base cl = host"
  shows "confined host (snd st) (snd (snd (react_to_review cl (Some cr) b h st)))"
  by (simp add: react_to_review_def graphql_confined [OF assms] split: option.split)

end

subsection \<open>The App provides it\<close>

lemma app_get_json_confined [confined_intros]:
  assumes "has_prefix u (host @ ''/'')"
  shows "confined host n (snd (app_get_json a decode u n))"
proof -
  have "confined host n (snd (do_request ''GET'' u media_json x None n))" for x
    by (rule do_request_confined [OF assms])
  then show ?thesis by (auto simp: app_get_json_def case_prod_beta split: sum.split)
qed

lemma find_installation_confined:
  "confined (base_url (ap_base_url a)) n (snd (find_installation a n))"
proof -
  have "confined (base_url (ap_base_url a)) n
      (snd (app_get_json a decode (base_url (ap_base_url a) @ ''/repos/'' @ path) n))"
    for path and decode :: "json \<Rightarrow> int option"
    by (rule app_get_json_confined) (simp add: has_prefix_conv)
  then show ?thesis
    by (auto simp: find_installation_def Let_def case_prod_beta split: sum.split)
qed

lemma mint_confined: "confined (base_url (ap_base_url a)) n (snd (mint a i n))"
proof -
  have "confined (base_url (ap_base_url a)) n (snd (do_request ''POST'' (mint_url a i) media_json x p n))"
    for x p
    by (rule do_request_confined) (simp add: mint_url_def has_prefix_conv)
  then show ?thesis
    by (auto simp: mint_def Let_def case_prod_beta split: sum.split option.split)
qed

lemma mint_token_confined: "confined (base_url (ap_base_url a)) n (snd (snd (mint_token a s n)))"
  using mint_confined [of a n "as_installation s"]
  by (auto simp: mint_token_def case_prod_beta split: sum.split)

lemma app_token_confined: "confined (base_url (ap_base_url a)) n (snd (snd (app_token a s n)))"
  using find_installation_confined [of a n] mint_token_confined
  by (auto simp: app_token_def Let_def case_prod_beta split: sum.split intro: confined_trans)

interpretation app: credential_source "app_credential a" "base_url (ap_base_url a)" for a
  by unfold_locales (simp add: app_credential_def app_token_confined)


definition example_client :: client where
  "example_client = \<lparr>cl_repo = ''o/r'', cl_base_url = ''''\<rparr>"

definition example_app :: app where
  "example_app = \<lparr>ap_id = ''7'', ap_sign = Some (\<lambda>_. Inr ''jwt''), ap_repo = ''o/r'', ap_base_url = '''',
     ap_time = (\<lambda>_. Some (Some 9000000000000))\<rparr>"

text \<open>A server whose every page says the next one is elsewhere.\<close>

definition example_net :: net where
  "example_net = \<lparr>nt_answer = (\<lambda>qs q. Inr \<lparr>rp_code = 200, rp_status = ''200 OK'',
       rp_link = ''<https://evil.example/x>; '' @ rel_next, rp_text = Inr '''',
       rp_doc = Some (if hr_method q = ''POST'' then JObj [(''token'', JStr ''t''), (''expires_at'', JStr ''z'')]
                      else JList [])\<rparr>),
     nt_clock = (\<lambda>_. 0), nt_sent = []\<rparr>"

definition fresh_app :: app_state where
  "fresh_app = \<lparr>as_installation = 3, as_token = '''', as_expires = 0\<rparr>"


subsection \<open>A listing is whole or it is an error\<close>

text \<open>The pages a server serves from a URL on: each decoded, each naming the next, the last none.\<close>

fun serves :: "client \<Rightarrow> 'c credential option \<Rightarrow> (json \<Rightarrow> 'p option) \<Rightarrow> 'p list \<Rightarrow> string \<Rightarrow>
    'c gh_state \<Rightarrow> 'c gh_state \<Rightarrow> bool" where
  "serves cl cr decode [] u st st' \<longleftrightarrow> u = '''' \<and> st' = st"
| "serves cl cr decode (p # ps) u st st' \<longleftrightarrow> u \<noteq> '''' \<and>
     (case get_json cl cr decode u st of
        (Inl e, st1) \<Rightarrow> False
      | (Inr (page, nx), st1) \<Rightarrow> page = p \<and> serves cl cr decode ps nx st1 st')"

lemma read_pages_serves:
  "read_pages n cl cr decode add u out st = (Some (Inr xs), st') \<longleftrightarrow>
     (\<exists>ps. serves cl cr decode ps u st st' \<and> length ps \<le> n \<and> xs = fold add ps out)"
proof (induction n arbitrary: u out st xs)
  case 0
  show ?case by auto
next
  case (Suc n)
  show ?case
  proof (cases "u = ''''")
    case True
    then have "serves cl cr decode ps u st st' \<longleftrightarrow> ps = [] \<and> st' = st" for ps
      by (cases ps) auto
    with True show ?thesis by auto
  next
    case False
    obtain r st1 where g: "get_json cl cr decode u st = (r, st1)" by (metis surj_pair)
    have Cons: "(\<exists>ps. serves cl cr decode ps u st st' \<and> length ps \<le> Suc n \<and> xs = fold add ps out) \<longleftrightarrow>
      (\<exists>p ps. serves cl cr decode (p # ps) u st st' \<and> length ps \<le> n \<and> xs = fold add ps (add p out))"
    proof
      assume "\<exists>ps. serves cl cr decode ps u st st' \<and> length ps \<le> Suc n \<and> xs = fold add ps out"
      then obtain ps where ps: "serves cl cr decode ps u st st'" "length ps \<le> Suc n" "xs = fold add ps out"
        by blast
      from ps(1) False obtain p qs where "ps = p # qs" by (cases ps) auto
      with ps show "\<exists>p ps. serves cl cr decode (p # ps) u st st' \<and> length ps \<le> n \<and> xs = fold add ps (add p out)"
        by (intro exI [of _ p] exI [of _ qs]) simp
    next
      assume "\<exists>p ps. serves cl cr decode (p # ps) u st st' \<and> length ps \<le> n \<and> xs = fold add ps (add p out)"
      then obtain p ps where "serves cl cr decode (p # ps) u st st'" "length ps \<le> n" "xs = fold add ps (add p out)"
        by blast
      then show "\<exists>ps. serves cl cr decode ps u st st' \<and> length ps \<le> Suc n \<and> xs = fold add ps out"
        by (intro exI [of _ "p # ps"]) simp
    qed
    show ?thesis
      unfolding Cons using False by (cases r) (auto simp: g Suc.IH)
  qed
qed

text \<open>A listing is never returned in part: it is what it is exactly when every page from the first
  to the one with no next was read and decoded, in order, within the bound on the pages. A
  page refused, undecodable, or naming a next page elsewhere makes the whole listing an error.\<close>

theorem listing_is_whole:
  "all_pages n cl cr decode u st = (Some (Inr xs), st') \<longleftrightarrow>
     (\<exists>pages. serves cl cr (as_list decode) pages u st st' \<and> length pages \<le> n \<and> xs = concat pages)"
proof -
  have "fold (\<lambda>page out. out @ page) ps out = out @ concat ps" for ps and out :: "'a list"
    by (induction ps arbitrary: out) simp_all
  then show ?thesis unfolding all_pages_def read_pages_serves by simp
qed

subsection \<open>A token held is fresh, and one refused is not presented again\<close>

lemma mint_token_result:
  assumes "mint_token a s n = (Inr t, s', n')"
  shows "as_token s' = t" and "t \<noteq> ''''"
    and "\<exists>q. nt_sent n' = nt_sent n @ [q] \<and> hr_method q = ''POST'' \<and> hr_url q = mint_url a (as_installation s)"
  using assms
  by (auto simp: mint_token_def mint_def do_request_def app_jwt_def Let_def
      split: prod.splits sum.splits option.splits if_splits)

lemma mint_token_error: "mint_token a s n = (Inl e, s', n') \<Longrightarrow> as_token s' = as_token s"
  by (auto simp: mint_token_def split: prod.splits sum.splits if_splits)

text \<open>C31: Whatever token a request is given is fresh: it is either the one held, with more than the
  margin left before its expiry, or one minted in this very call and held from now on. A token
  refused is forgotten, so the next request asks for another, and a token that could not be
  minted leaves none held to be presented.\<close>

theorem app_token_fresh:
  assumes "app_token a s n = (r, s', n')"
  shows "(case r of
      Inr t \<Rightarrow> t \<noteq> '''' \<and> as_token s' = t \<and>
        (if nt_sent n' = nt_sent n then s' = s \<and> app_now n + refresh_ahead < as_expires s
         else hr_method (last (nt_sent n')) = ''POST'')
    | Inl e \<Rightarrow> as_token s' = '''') \<and>
    app_token a (app_refused (as_token s) s) n \<noteq> (Inr t, s'', n)"
proof
  have minted: "nt_sent n' \<noteq> nt_sent n \<and> hr_method (last (nt_sent n')) = ''POST'' \<and> t \<noteq> '''' \<and> as_token s' = t"
    if "\<not> (as_token s \<noteq> '''' \<and> app_now n < as_expires s - refresh_ahead)"
      and "app_token a s n = (Inr t, s', n')" for a s n t s' n'
  proof -
    have "\<exists>n1 s1. (\<exists>qs. nt_sent n1 = nt_sent n @ qs) \<and> mint_token a s1 n1 = (Inr t, s', n')"
    proof (cases "as_installation s = 0")
      case True
      obtain i n1 where f: "find_installation a n = (i, n1)" by fastforce
      then have "\<exists>qs. nt_sent n1 = nt_sent n @ qs"
        using find_installation_confined [of a n] by (auto simp: confined_def)
      with True that f show ?thesis
        by (cases i) (auto simp: app_token_def Let_def, blast+)
    next
      case False
      with that show ?thesis
        by (intro exI [of _ n] exI [of _ "s\<lparr>as_token := ''''\<rparr>"]) (auto simp: app_token_def Let_def)
    qed
    then obtain n1 s1 where n1: "\<exists>qs. nt_sent n1 = nt_sent n @ qs" and m: "mint_token a s1 n1 = (Inr t, s', n')"
      by blast
    with mint_token_result [OF m] show ?thesis by auto
  qed
  show "case r of
      Inr t \<Rightarrow> t \<noteq> '''' \<and> as_token s' = t \<and>
        (if nt_sent n' = nt_sent n then s' = s \<and> app_now n + refresh_ahead < as_expires s
         else hr_method (last (nt_sent n')) = ''POST'')
    | Inl e \<Rightarrow> as_token s' = ''''"
  proof (cases "as_token s \<noteq> '''' \<and> app_now n < as_expires s - refresh_ahead")
    case True
    with assms show ?thesis by (auto simp: app_token_def)
  next
    case False
    show ?thesis
    proof (cases r)
      case (Inl e)
      with False assms show ?thesis
        by (auto simp: app_token_def Let_def dest: mint_token_error split: if_splits prod.splits sum.splits)
    next
      case (Inr t)
      with minted [OF False] assms show ?thesis by simp
    qed
  qed
  have "\<not> (as_token (app_refused (as_token s) s) \<noteq> '''' \<and> x)" for x
    by (simp add: app_refused_def)
  from minted [OF this] show "app_token a (app_refused (as_token s) s) n \<noteq> (Inr t, s'', n)" by blast
qed

theorem app_token_fresh_witness:
  "\<exists>n'. app_token example_app fresh_app example_net =
       (Inr ''t'', fresh_app\<lparr>as_token := ''t'', as_expires := 9000000000000\<rparr>, n') \<and>
     hr_method (last (nt_sent n')) = ''POST''"
proof -
  have "\<exists>n'. app_token example_app fresh_app example_net =
       (Inr ''t'', fresh_app\<lparr>as_token := ''t'', as_expires := 9000000000000\<rparr>, n') \<and> nt_sent n' \<noteq> []"
    by (simp add: app_token_def mint_token_def mint_def app_jwt_def do_request_def example_app_def
        fresh_app_def example_net_def read_json_def decode_token_def member_string_def member_def
        as_string_def as_time_def)
  then obtain n' where n': "app_token example_app fresh_app example_net =
       (Inr ''t'', fresh_app\<lparr>as_token := ''t'', as_expires := 9000000000000\<rparr>, n')" "nt_sent n' \<noteq> []"
    by blast
  have "nt_sent example_net = []" by (simp add: example_net_def)
  with app_token_fresh [OF n'(1)] n' show ?thesis by auto
qed

subsection \<open>A label that was never taken off\<close>

text \<open>
  Taking a label off answers success for a 404, which is a label that is not there. A 404 wrapped
  in the error of a token that could not be minted reads as one too: the installation being
  gone is then a label taken off with no request for it sent.
\<close>

theorem unlabel_without_token_succeeds:
  assumes "repo_url cl (''/issues/'' @ dec number @ ''/labels/'' @ path_escape name) = Inr u"
    and "cr_token k c n = (Inl (StatusError m v 404 status), c', n')"
  shows "unlabel cl (Some k) number name (c, n) = (Inr (), c', n')"
  using assms by (simp add: unlabel_def at_repo_def send_def)

end
