(* ===== verification/Intake_Properties.thy ===== *)
theory Intake_Properties
  imports Intake "HOL-Library.Sublist"
begin

text \<open>
  What a pass of the intake guarantees: each unanswered command of an account with write access
  is armed once and nothing else is, the review queue's limit holds what is taken, and a
  subject is left unread only once it was read twice unchanged.
\<close>

subsection \<open>Keys, call by call\<close>

lemma call_keys:
  assumes "call f w = (r, w')" and "\<And>d. db_idempotency (snd (f d)) = db_idempotency d"
  shows "is_reserved (w_db w') = is_reserved (w_db w)"
proof -
  have "db_idempotency (w_db w') = db_idempotency (w_db w)"
    using call_outcome [OF assms(1)] assms(2) [of "w_db w"] by (elim conjE disjE) simp_all
  then show ?thesis by (simp add: is_reserved_def fun_eq_iff)
qed

lemma commit_call_keys:
  assumes "call (commit c) w = (r, w')"
  shows "is_reserved (w_db w') k \<longleftrightarrow> is_reserved (w_db w) k \<or> r = Inr () \<and> k \<in> set (c_keys c)"
  using call_outcome [OF assms] reserved_commit [of c "w_db w" k] by (elim conjE disjE) simp_all

text \<open>A restart reserves its key when it arms the job, and nothing otherwise, whatever faults the
  store has.\<close>

lemma arm_keys:
  assumes "arm a job start now keys armable w = (r, w')"
  shows "is_reserved (w_db w') x \<longleftrightarrow> is_reserved (w_db w) x \<or> x \<in> set keys \<and> (\<exists>j. r = Inr (Some j))"
proof (cases "armable job")
  case False
  with assms show ?thesis by (auto simp: arm_def)
next
  case True
  obtain q w1 where acq: "call (acquire (j_id job) (ar_holder a) now (ar_ttl a)) w = (q, w1)" by fastforce
  have w1: "is_reserved (w_db w1) = is_reserved (w_db w)" by (rule call_keys [OF acq]) simp
  show ?thesis
  proof (cases "\<exists>j. q = Inr (Some j) \<and> armable j")
    case False
    have rel: "call (release (j_id j) (ar_holder a)) w1 = (u, w2) \<Longrightarrow>
        is_reserved (w_db w2) = is_reserved (w_db w1)" for j u w2
      by (erule call_keys) simp
    from False True assms w1 show ?thesis
      by (auto simp: arm_def acq split: sum.splits option.splits prod.splits dest!: rel)
  next
    case j: True
    then obtain j where j: "q = Inr (Some j)" "armable j" by blast
    obtain u w2 where com: "call (commit (arm_commit a j start now keys)) w1 = (u, w2)" by fastforce
    have rel: "call (release (j_id j) (ar_holder a)) w2 = (v, w3) \<Longrightarrow>
        is_reserved (w_db w3) = is_reserved (w_db w2)" for v w3
      by (erule call_keys) simp
    have k: "c_keys (arm_commit a j start now keys) = keys" by (simp add: arm_commit_def)
    show ?thesis
    proof (cases u)
      case (Inl e)
      with True j assms w1 commit_call_keys [OF com, of x] show ?thesis
        by (auto simp: arm_def acq com split: sum.splits prod.splits dest!: rel)
    next
      case (Inr v)
      with True j assms w1 commit_call_keys [OF com, of x] k show ?thesis
        by (auto simp: arm_def acq com)
    qed
  qed
qed

lemma restart_keys:
  assumes "restart a k s start now key w = (r, w')"
  shows "is_reserved (w_db w') x \<longleftrightarrow> is_reserved (w_db w) x \<or> x = key \<and> (\<exists>j. r = Inr (Some j))"
proof -
  obtain q w1 where e: "call (ensure k s start None) w = (q, w1)" by fastforce
  have "is_reserved (w_db w1) = is_reserved (w_db w)" by (rule call_keys [OF e]) simp
  with assms show ?thesis
    by (auto simp: restart_def e split: sum.splits dest!: arm_keys [of _ _ _ _ _ _ _ _ _ x])
qed

subsection \<open>What a step arms\<close>

text \<open>\<open>n\<close> jobs were made, each for an ask of \<open>A\<close> that is unanswered and whose key was free, and the
  keys reserved since are theirs, one each.\<close>

definition armed_by :: "asked_command set \<Rightarrow> nat \<Rightarrow> world \<Rightarrow> world \<Rightarrow> bool" where
  "armed_by A n w w' \<longleftrightarrow>
     (\<exists>ks. length ks = n \<and> distinct ks \<and>
        (\<forall>k\<in>set ks. \<not> is_reserved (w_db w) k \<and> (\<exists>a\<in>A. ak_key a = k \<and> ak_answered a = Inr False)) \<and>
        (\<forall>k. is_reserved (w_db w') k \<longleftrightarrow> is_reserved (w_db w) k \<or> k \<in> set ks))"

lemma armed_by_refl [simp]: "armed_by A 0 w w"
  by (simp add: armed_by_def)

lemma armed_by_same: "is_reserved (w_db w') = is_reserved (w_db w) \<Longrightarrow> armed_by A 0 w w'"
  by (simp add: armed_by_def)

lemma armed_by_mono:
  assumes "armed_by A n w w'" and "A \<subseteq> B"
  shows "armed_by B n w w'"
proof -
  from assms(1) obtain ks where
    "length ks = n" "distinct ks" "\<forall>k. is_reserved (w_db w') k \<longleftrightarrow> is_reserved (w_db w) k \<or> k \<in> set ks"
    and ks: "\<forall>k\<in>set ks. \<not> is_reserved (w_db w) k \<and> (\<exists>a\<in>A. ak_key a = k \<and> ak_answered a = Inr False)"
    unfolding armed_by_def by blast
  moreover have "\<forall>k\<in>set ks. \<not> is_reserved (w_db w) k \<and> (\<exists>a\<in>B. ak_key a = k \<and> ak_answered a = Inr False)"
    using ks assms(2) by fast
  ultimately show ?thesis unfolding armed_by_def by (intro exI [of _ ks] conjI)
qed

lemma armed_by_trans:
  assumes "armed_by A m w w1" and "armed_by A n w1 w2"
  shows "armed_by A (m + n) w w2"
proof -
  from assms obtain ks ls where
    ks: "length ks = m" "distinct ks" "\<forall>k\<in>set ks. \<not> is_reserved (w_db w) k \<and> (\<exists>a\<in>A. ak_key a = k \<and> ak_answered a = Inr False)"
      "\<forall>k. is_reserved (w_db w1) k \<longleftrightarrow> is_reserved (w_db w) k \<or> k \<in> set ks"
    and ls: "length ls = n" "distinct ls" "\<forall>k\<in>set ls. \<not> is_reserved (w_db w1) k \<and> (\<exists>a\<in>A. ak_key a = k \<and> ak_answered a = Inr False)"
      "\<forall>k. is_reserved (w_db w2) k \<longleftrightarrow> is_reserved (w_db w1) k \<or> k \<in> set ls"
    unfolding armed_by_def by blast
  show ?thesis
    unfolding armed_by_def
  proof (intro exI [of _ "ks @ ls"] conjI)
    show "distinct (ks @ ls)" using ks(2,4) ls(2,3) by auto
    show "\<forall>k\<in>set (ks @ ls). \<not> is_reserved (w_db w) k \<and> (\<exists>a\<in>A. ak_key a = k \<and> ak_answered a = Inr False)"
      using ks(3,4) ls(3) by auto
    show "\<forall>k. is_reserved (w_db w2) k \<longleftrightarrow> is_reserved (w_db w) k \<or> k \<in> set (ks @ ls)"
      using ks(4) ls(4) by auto
  qed (use ks(1) ls(1) in simp)
qed

lemma arm_unanswered_armed:
  assumes "arm_unanswered i (ak_command a) s (ak_key a) (ak_answered a) w = ((jobs, stl, err), w')"
  shows "armed_by {a} (length jobs) w w'"
proof -
  obtain q w1 where q: "call (reserved (ak_key a)) w = (q, w1)" by fastforce
  have w1: "is_reserved (w_db w1) = is_reserved (w_db w)" by (rule call_keys [OF q]) simp
  have free: "q = Inr False \<Longrightarrow> \<not> is_reserved (w_db w) (ak_key a)"
    using call_outcome [OF q] by auto
  show ?thesis
  proof (cases "q = Inr False \<and> ak_answered a = Inr False")
    case True
    obtain r w2 where r: "intake_arm i (ak_command a) s (ak_key a) w1 = (r, w2)" by fastforce
    note keys = restart_keys [OF r [unfolded intake_arm_def]]
    show ?thesis
    proof (cases "\<exists>j. r = Inr (Some j)")
      case j: True
      with True assms q r have "w' = w2" "length jobs = 1"
        by (auto simp: arm_unanswered_def)
      moreover have "is_reserved (w_db w2) k \<longleftrightarrow> is_reserved (w_db w) k \<or> k = ak_key a" for k
        using keys [of k] j unfolding w1 by blast
      moreover have "\<not> is_reserved (w_db w) (ak_key a)" using free True by blast
      ultimately show ?thesis
        using True unfolding armed_by_def by (intro exI [of _ "[ak_key a]"]) simp
    next
      case False
      with True assms q r have "w' = w2" "jobs = []"
        by (auto simp: arm_unanswered_def split: sum.splits option.splits)
      moreover have "is_reserved (w_db w2) k \<longleftrightarrow> is_reserved (w_db w) k" for k
        using keys [of k] False unfolding w1 by blast
      ultimately show ?thesis by (simp add: armed_by_same fun_eq_iff)
    qed
  next
    case False
    with assms q have "w' = w1" "jobs = []"
      by (auto simp: arm_unanswered_def split: sum.splits bool.splits)
    with w1 show ?thesis by (simp add: armed_by_same)
  qed
qed

lemma arm_unanswered_error: 
  "arm_unanswered i cd s key ans w = ((jobs, stl, Some e), w') \<Longrightarrow> jobs = []"
  by (auto simp: arm_unanswered_def split: prod.splits sum.splits bool.splits option.splits)

lemma arm_asks_armed:
  assumes "arm_asks i s as made fin w = ((made', fin', err), w')"
  shows "\<exists>jobs. made' = made @ jobs \<and> armed_by (set as) (length jobs) w w'"
  using assms
proof (induction i s as made fin w rule: arm_asks.induct)
  case (1 i s made fin w)
  then show ?case by simp
next
  case (2 i s a as made fin w)
  obtain jobs stl e w1 where a: "arm_unanswered i (ak_command a) s (ak_key a) (ak_answered a) w = ((jobs, stl, e), w1)"
    by (metis prod.collapse)
  have h: "armed_by (set (a # as)) (length jobs) w w1"
    by (rule armed_by_mono [OF arm_unanswered_armed [OF a]]) simp
  show ?case
  proof (cases e)
    case (Some x)
    with 2 a h arm_unanswered_error show ?thesis by fastforce
  next
    case None
    with 2 a obtain more where m: "made' = (made @ jobs) @ more" "armed_by (set as) (length more) w1 w'"
      by fastforce
    have "armed_by (set (a # as)) (length more) w1 w'"
      by (rule armed_by_mono [OF m(2)]) auto
    from armed_by_trans [OF h this] m(1) show ?thesis by (intro exI [of _ "jobs @ more"]) simp
  qed
qed

text \<open>The asks of a subject, as far as the tracker serves them.\<close>

definition subject_asks :: "intake \<Rightarrow> tracker \<Rightarrow> subject \<Rightarrow> asked_command set" where
  "subject_asks i tk s =
     (case tk_comments tk (sub_number s) of Inl e \<Rightarrow> {}
      | Inr cs \<Rightarrow> set (comment_asks i tk (sub_type s) cs)) \<union>
     (if sub_type s \<noteq> SubjectPR then {}
      else (case tk_reviews tk (sub_number s) of Inl e \<Rightarrow> {} | Inr rs \<Rightarrow> set (review_asks i tk rs)))"

lemma read_subject_armed:
  assumes "read_subject i tk s w = ((made, fin, err), w')"
  shows "armed_by (subject_asks i tk s) (length made) w w'"
proof (cases "tk_comments tk (sub_number s)")
  case (Inl e)
  with assms show ?thesis by (auto simp: read_subject_def)
next
  case (Inr cs)
  obtain m1 f1 e1 w1 where a: "arm_asks i s (comment_asks i tk (sub_type s) cs) [] True w = ((m1, f1, e1), w1)"
    by (metis prod.collapse)
  have h: "armed_by (subject_asks i tk s) (length m1) w w1"
    using arm_asks_armed [OF a] Inr by (auto simp: subject_asks_def elim!: armed_by_mono)
  show ?thesis
  proof (cases "\<exists>rs. e1 = None \<and> sub_type s = SubjectPR \<and> by_review i \<and> tk_reviews tk (sub_number s) = Inr rs")
    case True
    then obtain rs where rs: "e1 = None" "sub_type s = SubjectPR" "by_review i" "tk_reviews tk (sub_number s) = Inr rs"
      by blast
    with assms Inr a have "arm_asks i s (review_asks i tk rs) m1 f1 w1 = ((made, fin, err), w')"
      by (simp add: read_subject_def)
    from arm_asks_armed [OF this] obtain more where
      m: "made = m1 @ more" "armed_by (set (review_asks i tk rs)) (length more) w1 w'" by blast
    have "armed_by (subject_asks i tk s) (length more) w1 w'"
      by (rule armed_by_mono [OF m(2)]) (auto simp: subject_asks_def rs)
    from armed_by_trans [OF h this] m(1) show ?thesis by simp
  next
    case False
    with assms Inr a have "made = m1" "w' = w1"
      by (auto simp: read_subject_def split: option.splits if_splits sum.splits)
    with h show ?thesis by simp
  qed
qed

lemma read_open_armed:
  assumes "read_open i tk seen listing nxt w = ((made, errs, nxt'), w')"
  shows "armed_by (\<Union>is\<in>set listing. subject_asks i tk (issue_subject is)) (length made) w w'"
  using assms
proof (induction i tk seen listing nxt w arbitrary: made errs nxt' w' rule: read_open.induct)
  case (1 i tk seen nxt w)
  then show ?case by simp
next
  case (2 i tk seen "is" rest nxt w)
  let ?A = "\<Union>is\<in>set (is # rest). subject_asks i tk (issue_subject is)"
  have sub: "(\<Union>is\<in>set rest. subject_asks i tk (issue_subject is)) \<subseteq> ?A" by auto
  show ?case
  proof (cases "settled_before seen is")
    case True
    then have "read_open i tk seen rest (nxt(is_number is := seen (is_number is))) w = ((made, errs, nxt'), w')"
      using "2.prems" by simp
    from armed_by_mono [OF "2.IH"(1) [OF True this] sub] show ?thesis .
  next
    case False
    obtain jobs fin err w1 where r: "read_subject i tk (issue_subject is) w = ((jobs, fin, err), w1)"
      by (metis prod.collapse)
    let ?nxt = "if fin \<and> err = None
                     then nxt(is_number is \<mapsto> \<lparr>rg_at = is_updated_at is, rg_settled = unchanged seen is\<rparr>)
                     else nxt"
    obtain m2 es2 n2 w2 where o: "read_open i tk seen rest ?nxt w1 = ((m2, es2, n2), w2)"
      by (metis prod.collapse)
    have h: "armed_by ?A (length jobs) w w1"
      by (rule armed_by_mono [OF read_subject_armed [OF r]]) simp
    have "armed_by ?A (length m2) w1 w2"
      using "2.IH"(2) [OF False r [symmetric] refl refl refl refl o] armed_by_mono [OF _ sub] by blast
    from armed_by_trans [OF h this] show ?thesis
      using "2.prems" False r o by (auto simp: Let_def)
  qed
qed

text \<open>The key of a command on an open subject that nobody has answered: written by an account with
  write access that is not the agent's, on the kind of subject it is registered for.\<close>

definition open_command :: "intake \<Rightarrow> tracker \<Rightarrow> gh_issue list \<Rightarrow> string \<Rightarrow> bool" where
  "open_command i tk listing k \<longleftrightarrow>
     (\<exists>is\<in>set listing. \<exists>cd\<in>set (in_commands i). cd_on cd = sub_type (issue_subject is) \<and>
       ((\<exists>cs c rs. tk_comments tk (is_number is) = Inr cs \<and> c \<in> set cs \<and> k = comment_key (cm_id c) \<and>
          is_command c (in_login i) (cd_word cd) \<and>
          tk_reactions tk (cm_id c) = Inr rs \<and> \<not> claimed rs (in_login i)) \<or>
        (\<exists>vs v rs. cd_by_review cd \<and> tk_reviews tk (is_number is) = Inr vs \<and> v \<in> set vs \<and>
          k = review_key (rv_id v) \<and> is_command_by_review v (in_login i) (cd_word cd) \<and>
          tk_review_reactions tk (rv_node_id v) = Inr rs \<and> \<not> claimed rs (in_login i))))"

lemma find_Some_conv: "find P xs = Some x \<Longrightarrow> x \<in> set xs \<and> P x"
  by (induction xs) (auto split: if_splits)

lemma asks_are_commands:
  assumes "a \<in> subject_asks i tk (issue_subject is)" and "ak_answered a = Inr False" and "is \<in> set listing"
  shows "open_command i tk listing (ak_key a)"
proof -
  have n: "sub_number (issue_subject is) = is_number is" by (simp add: issue_subject_def)
  from assms(1) consider
    (comment) cs c cd where "tk_comments tk (is_number is) = Inr cs" "c \<in> set cs"
      "find_command i c (sub_type (issue_subject is)) = Some cd"
      "a = \<lparr>ak_command = cd, ak_key = comment_key (cm_id c), ak_answered = answered i (tk_reactions tk (cm_id c))\<rparr>"
  | (review) vs v cd where "sub_type (issue_subject is) = SubjectPR" "tk_reviews tk (is_number is) = Inr vs"
      "v \<in> set vs" "find_command_by_review i v = Some cd"
      "a = \<lparr>ak_command = cd, ak_key = review_key (rv_id v),
        ak_answered = answered i (tk_review_reactions tk (rv_node_id v))\<rparr>"
    by (auto simp: subject_asks_def n comment_asks_def review_asks_def List.map_filter_def
        split: sum.splits if_splits)
  then show ?thesis
  proof cases
    case comment
    from find_Some_conv [OF comment(3) [unfolded find_command_def]]
    have cd: "cd \<in> set (in_commands i)" "cd_on cd = sub_type (issue_subject is)"
      "is_command c (in_login i) (cd_word cd)" by simp_all
    from assms(2) comment(4) obtain rs where "tk_reactions tk (cm_id c) = Inr rs" "\<not> claimed rs (in_login i)"
      by (auto simp: answered_def split: sum.splits)
    with comment(1,2,4) cd show ?thesis unfolding open_command_def
      by (intro bexI [OF _ assms(3)] bexI [OF _ cd(1)] conjI disjI1 exI [of _ cs] exI [of _ c] exI [of _ rs])
        simp_all
  next
    case review
    from find_Some_conv [OF review(4) [unfolded find_command_by_review_def]]
    have cd: "cd \<in> set (in_commands i)" "cd_on cd = SubjectPR" "cd_by_review cd"
      "is_command_by_review v (in_login i) (cd_word cd)" by simp_all
    from assms(2) review(5) obtain rs where
      "tk_review_reactions tk (rv_node_id v) = Inr rs" "\<not> claimed rs (in_login i)"
      by (auto simp: answered_def split: sum.splits)
    with review(1,2,3,5) cd show ?thesis unfolding open_command_def
      by (intro bexI [OF _ assms(3)] bexI [OF _ cd(1)] conjI disjI2 exI [of _ vs] exI [of _ v] exI [of _ rs])
        simp_all
  qed
qed

subsection \<open>What taking makes\<close>

lemma sorted_if_subseq:
  fixes xs :: "int list"
  shows "subseq xs ys \<Longrightarrow> sorted ys \<Longrightarrow> sorted xs"
proof (induction rule: list_emb.induct)
  case (list_emb_Cons2 x y xs ys)
  then show ?case by (auto dest: list_emb_set [OF list_emb_Cons2.hyps(2)])
qed auto

lemma takeable_keys:
  assumes "takeable i tk n w = (r, w')"
  shows "is_reserved (w_db w') = is_reserved (w_db w)"
proof -
  obtain q w1 where q: "call (store_job (job_ID (un_kind (in_unattended i)) (take_subject n))) w = (q, w1)"
    by fastforce
  have "is_reserved (w_db w1) = is_reserved (w_db w)" by (rule call_keys [OF q]) simp
  moreover have "w' = w1"
    using assms by (auto simp: takeable_def q split: sum.splits store_error.splits)
  ultimately show ?thesis by simp
qed

lemma takeable_True:
  assumes "takeable i tk n w = (Inr True, w')"
  shows "view (w_db w') (job_ID (un_kind (in_unattended i)) (take_subject n)) = None"
    and "issue_taken i tk n = Inr False"
proof -
  let ?id = "job_ID (un_kind (in_unattended i)) (take_subject n)"
  obtain q w1 where q: "call (store_job ?id) w = (q, w1)" by fastforce
  with assms obtain x where x: "q = Inl (ErrNoJob x)" "w' = w1" "issue_taken i tk n = Inr False"
    by (auto simp: takeable_def split: sum.splits store_error.splits)
  then show "issue_taken i tk n = Inr False" by simp
  from call_outcome [OF q] x have "fst (store_job ?id (w_db w)) = Inl (ErrNoJob x)" "w_db w1 = w_db w"
    by auto
  with x show "view (w_db w') ?id = None" by (auto split: option.splits)
qed

lemma take_ensure_keys:
  "take_ensure i n w = (r, w') \<Longrightarrow> is_reserved (w_db w') = is_reserved (w_db w)"
  unfolding take_ensure_def by (erule call_keys) simp

lemma take_ensure_new:
  assumes "take_ensure i n w = (Inr j, w')"
    and "view (w_db w) (job_ID (un_kind (in_unattended i)) (take_subject n)) = None"
  shows "j = new_job (un_kind (in_unattended i)) (take_subject n) (un_start (in_unattended i))
    (Some (in_now_take i n))"
proof -
  let ?k = "un_kind (in_unattended i)" and ?s = "take_subject n"
  from call_Inr [OF assms(1) [unfolded take_ensure_def]] have
    r: "fst (ensure ?k ?s (un_start (in_unattended i)) (Some (in_now_take i n)) (w_db w)) = Inr j" by blast
  then have "kind_valid ?k" "subject_type_valid (sub_type ?s)"
    by (auto simp: ensure_def split: if_splits)
  from r [unfolded ensure_result [OF this] assms(2)] show ?thesis by simp
qed

definition taken_job :: "intake \<Rightarrow> int \<Rightarrow> job" where
  "taken_job i n = new_job (un_kind (in_unattended i)) (take_subject n) (un_start (in_unattended i))
     (Some (in_now_take i n))"

lemma take_each_spec:
  assumes "take_each i tk el room w = ((made, errs, held), w')" and "0 \<le> room"
  shows "is_reserved (w_db w') = is_reserved (w_db w) \<and> int (length made) \<le> room \<and>
    (held \<longrightarrow> int (length made) = room) \<and>
    (\<exists>ns. subseq ns (map is_number el) \<and> made = map (taken_job i) ns \<and>
       (\<forall>n\<in>set ns. issue_taken i tk n = Inr False))"
  using assms
proof (induction i tk el room w arbitrary: made errs held w' rule: take_each.induct)
  case (1 i tk room w)
  then show ?case by auto
next
  case (2 i tk "is" rest room w)
  let ?n = "is_number is"
  obtain r w1 where t: "takeable i tk ?n w = (r, w1)" by fastforce
  note k1 = takeable_keys [OF t]
  consider (err) e where "r = Inl e" | (no) "r = Inr False" | (full) "r = Inr True" "room = 0"
    | (room) "r = Inr True" "room \<noteq> 0" by (cases r) auto
  then show ?case
  proof cases
    case err
    obtain m2 e2 h2 w2 where o: "take_each i tk rest room w1 = ((m2, e2, h2), w2)" by (metis prod.collapse)
    from "2.prems" err t o have eqs: "made = m2" "held = h2" "w' = w2" by auto
    from "2.IH"(1) [OF t [symmetric] err o "2.prems"(2)] show ?thesis
      unfolding eqs k1 by (auto intro: list_emb_Cons)
  next
    case no
    with "2.prems" t have o: "take_each i tk rest room w1 = ((made, errs, held), w')" by simp
    from "2.IH"(4) [OF t [symmetric] no refl o "2.prems"(2)] show ?thesis
      unfolding k1 by (auto intro: list_emb_Cons)
  next
    case full
    with "2.prems" t have "made = []" "held" "w' = w1" by auto
    with k1 full show ?thesis by auto
  next
    case room
    obtain q w2 where e: "take_ensure i ?n w1 = (q, w2)" by fastforce
    note k2 = take_ensure_keys [OF e]
    show ?thesis
    proof (cases q)
      case (Inl x)
      obtain m2 e2 h2 w3 where o: "take_each i tk rest room w2 = ((m2, e2, h2), w3)" by (metis prod.collapse)
      from "2.prems" room t e Inl o have eqs: "made = m2" "held = h2" "w' = w3" by auto
      from "2.IH"(2) [OF t [symmetric] room(1) refl room(2) e [symmetric] Inl o "2.prems"(2)] show ?thesis
        unfolding eqs k1 [symmetric] k2 [symmetric] by (auto intro: list_emb_Cons)
    next
      case (Inr j)
      obtain m2 e2 h2 w3 where o: "take_each i tk rest (room - 1) w2 = ((m2, e2, h2), w3)" by (metis prod.collapse)
      from "2.prems" room t e Inr o have eqs: "made = j # m2" "held = h2" "w' = w3" by auto
      from room(2) "2.prems"(2) have "0 \<le> room - 1" by simp
      from "2.IH"(3) [OF t [symmetric] room(1) refl room(2) e [symmetric] Inr o this]
      obtain ns where ih: "is_reserved (w_db w3) = is_reserved (w_db w2)" "int (length m2) \<le> room - 1"
        "h2 \<longrightarrow> int (length m2) = room - 1" "subseq ns (map is_number rest)" "m2 = map (taken_job i) ns"
        "\<forall>n\<in>set ns. issue_taken i tk n = Inr False" by blast
      have "j = taken_job i ?n"
        using take_ensure_new [OF e [unfolded Inr]] takeable_True(1) [OF t [unfolded room(1)]]
        by (simp add: taken_job_def)
      with ih takeable_True(2) [OF t [unfolded room(1)]] show ?thesis
        unfolding eqs k1 [symmetric] k2 [symmetric]
        by (intro conjI exI [of _ "?n # ns"]) auto
    qed
  qed
qed

lemma intake_take_keys:
  assumes "intake_take i tk listing st w = ((taken, errs, log), st', w')"
  shows "is_reserved (w_db w') = is_reserved (w_db w)"
proof (cases "un_label (in_unattended i) = ''''")
  case True
  with assms show ?thesis by (simp add: intake_take_def)
next
  case False
  show ?thesis
  proof (cases "0 < qu_limit (un_queue (in_unattended i)) \<and> eligible i listing \<noteq> []")
    case True
    obtain q w1 where q: "queue_length i tk w = (q, w1)" by fastforce
    obtain jr wj where j: "call store_jobs w = (jr, wj)" by fastforce
    have "is_reserved (w_db wj) = is_reserved (w_db w)"
      by (rule call_keys [OF j]) (simp add: store_jobs_def)
    moreover from q j have "w1 = wj" by (auto simp: queue_length_def split: sum.splits)
    ultimately have k1: "is_reserved (w_db w1) = is_reserved (w_db w)" by simp
    show ?thesis
    proof (cases q)
      case (Inl e)
      with assms False True q k1 show ?thesis by (auto simp: intake_take_def Let_def)
    next
      case (Inr n)
      obtain m e h w2 where t: "take_each i tk (eligible i listing)
          (max (qu_limit (un_queue (in_unattended i)) - n) 0) w1 = ((m, e, h), w2)" by (metis prod.collapse)
      with assms False True q Inr have "w' = w2"
        by (auto simp: intake_take_def Let_def split: if_splits prod.splits)
      with take_each_spec [OF t] k1 show ?thesis by simp
    qed
  next
    case no: False
    obtain m e h w2 where t: "take_each i tk (eligible i listing) (int (length (eligible i listing))) w = ((m, e, h), w2)"
      by (metis prod.collapse)
    with assms False no have "w' = w2" by (auto simp: intake_take_def Let_def)
    with take_each_spec [OF t] show ?thesis by simp
  qed
qed


text \<open>C29: The review queue's limit holds what is taken: a pass takes no more eligible issues than the
  queue, counted afresh, has room for, and none when it cannot be counted. What it takes is
  in order of number, each an open issue carrying the label with no open blocker, no job of
  its own yet and no claim of the agent's, and each job is new, in the start state, due now.\<close>

theorem taking_respects_limit:
  assumes "intake_take i tk listing st w = ((taken, errs, log), st', w')"
    and "un_label (in_unattended i) \<noteq> ''''" and "0 < qu_limit (un_queue (in_unattended i))"
  shows "(case fst (queue_length i tk w) of
      Inl e \<Rightarrow> taken = []
    | Inr queue \<Rightarrow> int (length taken) \<le> max (qu_limit (un_queue (in_unattended i)) - queue) 0) \<and>
    (\<exists>ns. taken = map (taken_job i) ns \<and> subseq ns (map is_number (eligible i listing)) \<and>
       sorted ns \<and> (\<forall>n\<in>set ns. issue_taken i tk n = Inr False))"
proof (cases "eligible i listing = []")
  case True
  with assms have "taken = []" by (auto simp: intake_take_def Let_def)
  then show ?thesis by (auto split: sum.split)
next
  case el: False
  let ?limit = "qu_limit (un_queue (in_unattended i))"
  obtain q w1 where q: "queue_length i tk w = (q, w1)" by fastforce
  show ?thesis
  proof (cases q)
    case (Inl e)
    with assms el q have "taken = []" by (auto simp: intake_take_def Let_def)
    with q Inl show ?thesis by auto
  next
    case (Inr n)
    obtain m e h w2 where t: "take_each i tk (eligible i listing) (max (?limit - n) 0) w1 = ((m, e, h), w2)"
      by (metis prod.collapse)
    with assms el q Inr have eq: "taken = m"
      by (auto simp: intake_take_def Let_def split: if_splits prod.splits)
    have "0 \<le> max (?limit - n) 0" by simp
    from take_each_spec [OF t this] obtain ns where ns: "int (length m) \<le> max (?limit - n) 0"
      "subseq ns (map is_number (eligible i listing))" "m = map (taken_job i) ns"
      "\<forall>n\<in>set ns. issue_taken i tk n = Inr False" by blast
    have "sorted (map is_number (eligible i listing))" by (simp add: eligible_def)
    with ns(2) have "sorted ns" by (rule sorted_if_subseq)
    with ns q Inr eq show ?thesis by auto
  qed
qed

subsection \<open>Settling takes two reads\<close>

lemma read_open_settles:
  assumes "read_open i tk seen listing nxt w = ((made, errs, nxt'), w')"
    and "nxt' n = Some r" and "rg_settled r" and "nxt n \<noteq> Some r"
  shows "\<exists>r0. seen n = Some r0 \<and> rg_at r0 = rg_at r \<and> rg_at r \<noteq> None"
  using assms
proof (induction i tk seen listing nxt w arbitrary: made errs nxt' w' rule: read_open.induct)
  case (1 i tk seen nxt w)
  then show ?case by simp
next
  case (2 i tk seen "is" rest nxt w)
  show ?case
  proof (cases "settled_before seen is")
    case True
    let ?nxt = "nxt(is_number is := seen (is_number is))"
    have o: "read_open i tk seen rest ?nxt w = ((made, errs, nxt'), w')"
      using True "2.prems"(1) by simp
    show ?thesis
    proof (cases "?nxt n = Some r")
      case False
      from "2.IH"(1) [OF True o "2.prems"(2,3) False] show ?thesis .
    next
      case here: True
      with "2.prems"(4) have "n = is_number is" "seen n = Some r" by (auto split: if_splits)
      with True show ?thesis by (auto simp: settled_before_def unchanged_def not_zero_conv)
    qed
  next
    case False
    obtain jobs fin err w1 where r: "read_subject i tk (issue_subject is) w = ((jobs, fin, err), w1)"
      by (metis prod.collapse)
    let ?nxt = "if fin \<and> err = None
                     then nxt(is_number is \<mapsto> \<lparr>rg_at = is_updated_at is, rg_settled = unchanged seen is\<rparr>)
                     else nxt"
    obtain m2 es2 n2 w2 where o: "read_open i tk seen rest ?nxt w1 = ((m2, es2, n2), w2)"
      by (metis prod.collapse)
    with "2.prems"(1) False r have n2: "n2 = nxt'" by (auto simp: Let_def)
    show ?thesis
    proof (cases "?nxt n = Some r")
      case False
      from "2.IH"(2) [OF \<open>\<not> settled_before seen is\<close> r [symmetric] refl refl refl refl o [unfolded n2]
          "2.prems"(2,3) this] show ?thesis .
    next
      case here: True
      with "2.prems"(3,4) have "n = is_number is" "r = \<lparr>rg_at = is_updated_at is, rg_settled = unchanged seen is\<rparr>"
        "unchanged seen is" by (auto split: if_splits)
      then show ?thesis by (auto simp: unchanged_def not_zero_conv split: option.splits)
    qed
  qed
qed

text \<open>A subject is left unread only once it has been read twice unchanged: what a pass
  remembers as settled, it had read before at the same updated_at, which is a time and not
  the zero time. So a first pass, which remembers nothing, settles nothing.\<close>

theorem settling_takes_two_reads:
  assumes "open_pass i tk listing st w = ((made, errs), st', w')"
    and "it_seen st' n = Some r" and "rg_settled r"
  shows "\<exists>r0. it_seen st n = Some r0 \<and> rg_at r0 = rg_at r \<and> rg_at r \<noteq> None"
proof -
  obtain m e nx w1 where o: "read_open i tk (it_seen st) listing Map.empty w = ((m, e, nx), w1)"
    by (metis prod.collapse)
  with assms(1,2) have "nx n = Some r" by (auto simp: open_pass_def)
  from read_open_settles [OF o this assms(3)] show ?thesis by simp
qed

subsection \<open>One pass, twice\<close>

definition example_issue :: "int \<Rightarrow> bool \<Rightarrow> gh_issue" where
  "example_issue n p = \<lparr>is_number = n, is_id = n, is_state = ''open'', is_title = '''', is_body = '''',
     is_pull_request = p, is_labels = (if p then [''ready''] else [''Eligible'']),
     is_author = (if p then ''afk[bot]'' else ''op''),
     is_blocked_by = 0, is_dependencies_read = True, is_updated_at = Some 5\<rparr>"

definition example_tracker :: tracker where
  "example_tracker =
     \<lparr>tk_open = Inr [example_issue 12 True, example_issue 9 False, example_issue 4 False],
      tk_open_again = Inr [example_issue 12 True, example_issue 9 False, example_issue 4 False],
      tk_comments = (\<lambda>n. Inr (if n = 12 then
        [\<lparr>cm_id = 71, cm_body = ''/review now'', cm_login = ''op'', cm_association = ''OWNER'', cm_created_at = Some 5\<rparr>,
         \<lparr>cm_id = 72, cm_body = ''/review'', cm_login = ''stranger'', cm_association = ''NONE'', cm_created_at = Some 5\<rparr>]
        else [])),
      tk_reactions = (\<lambda>_. Inr []), tk_issue_reactions = (\<lambda>_. Inr []),
      tk_reviews = (\<lambda>_. Inr []), tk_review_reactions = (\<lambda>_. Inr [])\<rparr>"

definition example_intake :: intake where
  "example_intake =
     \<lparr>in_tracker = Some example_tracker, in_store = True,
      in_commands = [\<lparr>cd_word = ''/review'', cd_on = SubjectPR, cd_kind = KindReview, cd_start = ''start'', cd_by_review = False\<rparr>],
      in_unattended = \<lparr>un_label = ''eligible'', un_kind = KindImplement, un_start = ''start'',
        un_queue = \<lparr>qu_limit = 2, qu_label = ''ready'', qu_revise = KindRevise\<rparr>\<rparr>,
      in_login = ''afk[bot]'', in_holder = ''intake'', in_ttl = 60,
      in_now_arm = (\<lambda>_. 7), in_now_queue = 7, in_now_take = (\<lambda>_. 7)\<rparr>"

definition intake_start :: intake_state where
  "intake_start = \<lparr>it_seen = Map.empty, it_blind = [], it_holding = False\<rparr>"

definition intake_world :: world where
  "intake_world = \<lparr>w_db = empty_db, w_faults = [], w_done = []\<rparr>"

text \<open>The command is armed, the oldest eligible issue is taken, and the next is held back.\<close>

lemma example_pass:
  "map j_id (fst (fst (pass example_intake intake_start intake_world))) = [''review-pr-12'', ''implement-issue-4'']"
  "length (snd (snd (fst (pass example_intake intake_start intake_world)))) = 1"
  by code_simp+


theorem taking_respects_limit_witness:
  "length (fst (fst (intake_take example_intake example_tracker
     [example_issue 9 False, example_issue 4 False] intake_start intake_world))) \<le> 1"
proof -
  let ?t = "intake_take example_intake example_tracker
     [example_issue 9 False, example_issue 4 False] intake_start intake_world"
  obtain taken errs log st' w' where t: "?t = ((taken, errs, log), st', w')" by (metis prod.collapse)
  have "un_label (in_unattended example_intake) \<noteq> ''''"
    and limit: "qu_limit (un_queue (in_unattended example_intake)) = 2"
    by (simp_all add: example_intake_def)
  moreover have "fst (queue_length example_intake example_tracker intake_world) = Inr 1" by code_simp
  ultimately have "int (length taken) \<le> 1"
    using taking_respects_limit [OF t] by simp
  then show ?thesis by (simp add: t)
qed

theorem settling_takes_two_reads_witness:
  "\<exists>r. it_seen (fst (snd (open_pass example_intake example_tracker [example_issue 12 True]
       (intake_start\<lparr>it_seen := [12 \<mapsto> \<lparr>rg_at = Some 5, rg_settled = False\<rparr>]\<rparr>) intake_world))) 12 = Some r \<and>
     rg_settled r \<and> rg_at r = Some 5"
proof -
  let ?st = "intake_start\<lparr>it_seen := [12 \<mapsto> \<lparr>rg_at = Some 5, rg_settled = False\<rparr>]\<rparr>"
  let ?p = "open_pass example_intake example_tracker [example_issue 12 True] ?st intake_world"
  obtain made errs st' w' where p: "?p = ((made, errs), st', w')" by (metis prod.collapse)
  have "map_option rg_settled (it_seen (fst (snd ?p)) 12) = Some True" by code_simp
  then obtain r where r: "it_seen st' 12 = Some r" "rg_settled r" by (auto simp: p)
  from settling_takes_two_reads [OF p r] r show ?thesis
    by (auto simp: p)
qed

end
