(* ===== verification/Corrections.thy ===== *)
theory Corrections
  imports Delivery Review_Properties Descriptions "HOL-Library.Sublist"
begin

text \<open>
  The correction of an advisory review's findings, \<^verbatim>\<open>internal/correction/correction.go\<close> but for
  what \<^verbatim>\<open>Delivery\<close> holds of it: which findings are correctable, read from the review as posted
  (\<open>correctable_findings\<close>), which commit corrected which, read from the commits' trailers
  (\<open>corrected_commits\<close>), and the review edited for how the correction ended (\<open>amended\<close>), as an
  effect that reads it again (\<open>edit_review\<close>). What is logged is not modelled.
\<close>

subsection \<open>Patterns\<close>

text \<open>A pattern of lower-case letters matched as \<^verbatim>\<open>(?i)\<close> has it, the long s folding to s.\<close>

fun match_ci :: "string \<Rightarrow> string \<Rightarrow> string option" where
  "match_ci [] s = Some s"
| "match_ci (p # ps) s =
     (case s of
        [] \<Rightarrow> None
      | c # cs \<Rightarrow>
          if fold_char c = fold_char p then match_ci ps cs
          else if p = CHR ''s'' \<and> c = CHR 0xC5 \<and> has_prefix cs [CHR 0xBF] then match_ci ps (tl cs)
          else None)"

definition skip_spaces :: "string \<Rightarrow> string option" where
  "skip_spaces s = (case s of [] \<Rightarrow> None | c # cs \<Rightarrow> if regex_space c then Some (dropWhile regex_space cs) else None)"

definition word_ends :: "string \<Rightarrow> bool" where
  "word_ends s \<longleftrightarrow> (case s of [] \<Rightarrow> True | c # cs \<Rightarrow> \<not> word_char c)"

definition skip_stars :: "string \<Rightarrow> string" where
  "skip_stars s = (if has_prefix s ''**'' then drop 2 s else s)"

text \<open>The number a finding's line starts with, if it starts one.\<close>

definition numbered_line :: "string \<Rightarrow> int option" where
  "numbered_line line =
     (let s = skip_stars line; ds = takeWhile is_digit s; t = dropWhile is_digit s
      in if ds = '''' \<or> \<not> has_prefix t ''.'' then None
         else (case skip_stars (drop 1 t) of
             [] \<Rightarrow> None
           | c # cs \<Rightarrow> if regex_space c then Some (fst (atoi_digits ds)) else None))"

definition question_line :: "string \<Rightarrow> bool" where
  "question_line line =
     (let s = skip_stars line; t = drop 1 s
      in has_prefix s ''Q'' \<and> takeWhile is_digit t \<noteq> '''' \<and> word_ends (dropWhile is_digit t))"

subsection \<open>A review's findings\<close>

definition correctable_axis :: "string \<Rightarrow> bool" where
  "correctable_axis heading \<longleftrightarrow> equal_fold heading ''Correctness'' \<or> equal_fold heading ''Standards''"

definition fence_of :: "string \<Rightarrow> string" where
  "fence_of t = (if has_prefix t ''```'' \<or> has_prefix t ''~~~'' then takeWhile (\<lambda>c. c = List.hd t) t else '''')"

definition closes_fence :: "string \<Rightarrow> string \<Rightarrow> bool" where
  "closes_fence fence t =
     (let r = fence_of t in r \<noteq> '''' \<and> List.hd r = List.hd fence \<and> length fence \<le> length r \<and>
        trim_space (drop (length r) t) = '''')"

record block =
  bl_number :: int
  bl_axis :: string
  bl_start :: nat
  bl_end :: nat

text \<open>The blocks before the open one, the open one, and where the review_reading is.\<close>

record review_reading =
  rd_blocks :: "block list"
  rd_open :: "block option"
  rd_axis :: string
  rd_fence :: string
  rd_depth :: int

fun trim_blank :: "string list \<Rightarrow> nat \<Rightarrow> nat \<Rightarrow> nat" where
  "trim_blank lines start 0 = 0"
| "trim_blank lines start (Suc pos) =
     (if start + 1 < Suc pos \<and> trim_space (lines ! pos) = '''' then trim_blank lines start pos else Suc pos)"

definition end_block :: "string list \<Rightarrow> nat \<Rightarrow> review_reading \<Rightarrow> review_reading" where
  "end_block lines pos s =
     (case rd_open s of
        None \<Rightarrow> s
      | Some b \<Rightarrow> s\<lparr>rd_blocks := rd_blocks s @ [b\<lparr>bl_end := trim_blank lines (bl_start b) pos\<rparr>], rd_open := None\<rparr>)"

definition in_finding :: "string list \<Rightarrow> nat \<Rightarrow> string \<Rightarrow> review_reading \<Rightarrow> review_reading" where
  "in_finding lines i t s0 =
     (let d1 = (if has_prefix t ''<details'' then rd_depth s0 + 1 else rd_depth s0);
          d2 = (if has_suffix t ''</details>'' \<and> (t = ''</details>'' \<or> has_prefix t ''<details'') then d1 - 1 else d1);
          s = s0\<lparr>rd_depth := d2\<rparr>
      in if d2 < 0 then (end_block lines i s)\<lparr>rd_axis := ''''\<rparr> else s)"

definition read_line :: "string list \<Rightarrow> nat \<Rightarrow> string \<Rightarrow> review_reading \<Rightarrow> review_reading" where
  "read_line lines i line s =
     (let t = trim_space line in
      if rd_fence s \<noteq> '''' then (if closes_fence (rd_fence s) t then s\<lparr>rd_fence := ''''\<rparr> else s)
      else if fence_of t \<noteq> '''' then s\<lparr>rd_fence := fence_of t\<rparr>
      else (case cut_prefix line ''## '' of
          Some h \<Rightarrow> (end_block lines i s)\<lparr>rd_axis := trim_space h\<rparr>
        | None \<Rightarrow>
            if line = footer_open \<or> question_line line then end_block lines i s
            else (case numbered_line line of
                Some n \<Rightarrow> (end_block lines i s)\<lparr>rd_open := Some \<lparr>bl_number = n, bl_axis = rd_axis s, bl_start = i,
                    bl_end = length lines\<rparr>, rd_depth := 0\<rparr>
              | None \<Rightarrow> if rd_open s \<noteq> None then in_finding lines i t s else s)))"

fun read_lines :: "string list \<Rightarrow> nat \<Rightarrow> string list \<Rightarrow> review_reading \<Rightarrow> review_reading" where
  "read_lines lines i [] s = end_block lines (length lines) s"
| "read_lines lines i (l # ls) s = read_lines lines (Suc i) ls (read_line lines i l s)"

definition review_lines :: "string \<Rightarrow> string list" where
  "review_lines body = split_on (CHR 0x0A) (unix_lines body)"

definition review_blocks :: "string \<Rightarrow> block list" where
  "review_blocks body =
     (let lines = review_lines body in
      rd_blocks (read_lines lines 0 lines
        \<lparr>rd_blocks = [], rd_open = None, rd_axis = '''', rd_fence = '''', rd_depth = 0\<rparr>))"

definition lines_of :: "string list \<Rightarrow> nat \<Rightarrow> nat \<Rightarrow> string list" where
  "lines_of lines from_line to_line = drop from_line (take to_line lines)"

definition correctable_findings :: "string \<Rightarrow> finding list" where
  "correctable_findings body =
     map (\<lambda>b. \<lparr>fd_number = bl_number b, fd_axis = bl_axis b,
             fd_text = join (lines_of (review_lines body) (bl_start b) (bl_end b)) nl\<rparr>)
       (filter (\<lambda>b. correctable_axis (bl_axis b)) (review_blocks body))"

definition begin_correction :: "gh_comment \<Rightarrow> string \<Rightarrow> correction option" where
  "begin_correction r head =
     (let found = correctable_findings (cm_body r) in
      if found = [] then None
      else Some \<lparr>co_reviewed = head, co_review = cm_id r, co_findings = found, co_given = False,
        co_failed = '''', co_from = 0\<rparr>)"

definition findings_file :: "correction \<Rightarrow> string" where
  "findings_file c =
     ''# The findings to correct'' @ nl @ nl @ ''From the advisory review of '' @ tick (co_reviewed c) @
     '', numbered as it numbers them.'' @ nl @
     concat (map (\<lambda>f. nl @ ''## advisory '' @ dec (fd_number f) @ '' ('' @ fd_axis f @ '')'' @ nl @ nl @ fd_text f @ nl)
       (co_findings c))"

subsection \<open>Which commit corrected which finding\<close>

definition trailer_of :: "string \<Rightarrow> string option" where
  "trailer_of line =
     (case match_ci ''corrects:'' line of
        None \<Rightarrow> None
      | Some r \<Rightarrow> if r = '''' then None else Some (dropWhile (\<lambda>c. c = CHR '' '' \<or> c = CHR 0x09) r))"

definition advisory_here :: "string \<Rightarrow> (string \<times> string) option" where
  "advisory_here s =
     (case Option.bind (match_ci ''advisory'' s) skip_spaces of
        None \<Rightarrow> None
      | Some t \<Rightarrow>
          if takeWhile is_digit t \<noteq> '''' \<and> word_ends (dropWhile is_digit t)
          then Some (takeWhile is_digit t, dropWhile is_digit t) else None)"

lemma match_ci_shorter: "match_ci p s = Some r \<Longrightarrow> length r + length p \<le> length s"
proof (induction p s arbitrary: r rule: match_ci.induct)
  case (2 p ps s)
  show ?case
  proof (cases s)
    case (Cons c cs)
    show ?thesis
    proof (cases "fold_char c = fold_char p")
      case True
      with 2 Cons show ?thesis by fastforce
    next
      case False
      with "2.prems" Cons have m: "match_ci ps (tl cs) = Some r" and p: "p = CHR ''s'' \<and> c = CHR 0xC5 \<and> has_prefix cs [CHR 0xBF]"
        by (auto split: if_splits)
      have "length r + length ps \<le> length (tl cs)" using "2.IH"(2) [OF Cons False p m] .
      then show ?thesis by (simp add: Cons)
    qed
  qed (use 2 in simp)
qed simp

lemma advisory_here_shorter:
  assumes "advisory_here s = Some (ds, rest)"
  shows "length rest < length s"
proof -
  obtain q t where q: "match_ci ''advisory'' s = Some q" and t: "skip_spaces q = Some t"
    and r: "rest = dropWhile is_digit t"
    using assms by (auto simp: advisory_here_def bind_eq_Some_conv split: option.splits if_splits)
  have "length rest \<le> length t" unfolding r by (rule length_dropWhile_le)
  also have "length t \<le> length q"
    using t length_dropWhile_le [of regex_space "tl q"]
    by (cases q) (auto simp: skip_spaces_def split: if_splits)
  finally show ?thesis using match_ci_shorter [OF q] by simp
qed

function find_advisory :: "bool \<Rightarrow> string \<Rightarrow> string list" where
  "find_advisory inside s =
     (case (if inside then None else advisory_here s) of
        Some (ds, rest) \<Rightarrow> ds # find_advisory True rest
      | None \<Rightarrow> (case s of [] \<Rightarrow> [] | x # xs \<Rightarrow> find_advisory (word_char x) xs))"
  by pat_completeness auto
termination
  by (relation "measure (\<lambda>(i, s). length s)") (auto dest: advisory_here_shorter split: if_splits)

declare find_advisory.simps [simp del]

text \<open>What one record of the log names, newest record first; a finding keeps its first commit.\<close>

definition record_commits :: "string \<Rightarrow> (int \<times> string) list" where
  "record_commits rec =
     (case cut (trim_space rec) (CHR 0x00) of
        (sha, msg, ok) \<Rightarrow>
          if \<not> ok then []
          else map (\<lambda>ds. (fst (atoi_digits ds), sha))
            (concat (map (\<lambda>l. case trailer_of l of None \<Rightarrow> [] | Some t \<Rightarrow> find_advisory False t)
               (split_on (CHR 0x0A) msg))))"

definition corrected_commits :: "string io \<Rightarrow> (int \<rightharpoonup> string) io" where
  "corrected_commits out =
     (case out of Inl e \<Rightarrow> Inl e
      | Inr s \<Rightarrow> Inr (map_of (concat (map record_commits (split_on (CHR 0x01) s)))))"

subsection \<open>The review edited\<close>

definition correction_marker :: "correction \<Rightarrow> string \<Rightarrow> string" where
  "correction_marker c head =
     (if co_failed c \<noteq> '''' then ''<!-- afk:correction reviewed='' @ co_reviewed c @ '' failed -->''
      else ''<!-- afk:correction reviewed='' @ co_reviewed c @ '' head='' @ head @ '' -->'')"

definition commit_link :: "string \<Rightarrow> string \<Rightarrow> string" where
  "commit_link repo sha =
     (if repo = '''' then ''<code>'' @ git_short sha @ ''</code>''
      else ''<a href='' @ [CHR 0x22] @ ''https://github.com/'' @ repo @ ''/commit/'' @ sha @ [CHR 0x22] @ ''><code>'' @
        git_short sha @ ''</code></a>'')"

definition compare_link :: "string \<Rightarrow> string \<Rightarrow> string \<Rightarrow> string" where
  "compare_link repo a b =
     (if repo = '''' then tick (git_short a @ ''..'' @ git_short b)
      else ''[the correction](https://github.com/'' @ repo @ ''/compare/'' @ a @ ''...'' @ b @ '')'')"

definition amend_block :: "correction \<Rightarrow> (int \<rightharpoonup> string) \<Rightarrow> string \<Rightarrow> string list \<Rightarrow> block \<Rightarrow> string list \<times> bool" where
  "amend_block c commits repo lines b =
     (let finding = lines_of lines (bl_start b) (bl_end b);
          sha = (case commits (bl_number b) of None \<Rightarrow> '''' | Some s \<Rightarrow> s)
      in if co_failed c \<noteq> ''''
         then (finding @ ['''', ''_Correction attempted, failed: this is advice._''], False)
         else if sha \<noteq> ''''
         then ([''<details><summary>'' @ dec (bl_number b) @ ''. Corrected in '' @ commit_link repo sha @ ''.</summary>'', '''']
               @ finding @ ['''', ''</details>''], True)
         else (finding @ ['''', ''_Correction attempted: no commit corrected this, so it is advice._''], False))"

fun amend_blocks :: "correction \<Rightarrow> (int \<rightharpoonup> string) \<Rightarrow> string \<Rightarrow> string list \<Rightarrow> nat \<Rightarrow> block list \<Rightarrow> string list \<times> bool" where
  "amend_blocks c commits repo lines pos [] = (drop pos lines, False)"
| "amend_blocks c commits repo lines pos (b # bs) =
     (if bl_number b \<notin> fd_number ` set (co_findings c) \<or> \<not> correctable_axis (bl_axis b)
      then amend_blocks c commits repo lines pos bs
      else (let (out, linked) = amend_block c commits repo lines b;
                (rest, linked') = amend_blocks c commits repo lines (bl_end b) bs
            in (lines_of lines pos (bl_start b) @ out @ rest, linked \<or> linked')))"

definition amended_said :: "correction \<Rightarrow> string \<Rightarrow> string \<Rightarrow> bool \<Rightarrow> string" where
  "amended_said c head repo linked =
     (let r = tick (git_short (co_reviewed c)); h = tick (git_short head) in
      if co_failed c \<noteq> ''''
      then ''A correction of its Correctness and Standards findings was attempted and failed: '' @ trim_space (co_failed c) @
        '' The pull request is back at '' @ r @ '', as reviewed, so those findings are advice.''
      else if linked
      then ''Reviewed at '' @ r @ ''; corrected to '' @ h @ '' by '' @ compare_link repo (co_reviewed c) head @
        '' of its Correctness and Standards findings, checked by their reproductions and CI, not re-reviewed. The citations are at '' @ r @ ''.''
      else ''Reviewed at '' @ r @ ''; pushed to '' @ h @ '' by '' @ compare_link repo (co_reviewed c) head @
        '' of its Correctness and Standards findings, checked by CI, not re-reviewed, but no commit of it named a finding it corrected, so those findings are advice. The citations are at '' @ r @ ''.'')"

definition amended :: "string \<Rightarrow> correction \<Rightarrow> string \<Rightarrow> (int \<rightharpoonup> string) \<Rightarrow> string \<Rightarrow> string" where
  "amended body c head commits repo =
     (let (out, linked) = amend_blocks c commits repo (review_lines body) 0 (review_blocks body);
          edited0 = join out nl;
          code = ''<code>'' @ git_short head @ ''</code>'';
          edited = (if co_failed c \<noteq> '''' then edited0
            else if linked then followed edited0 (''; corrected to '' @ code @ '', checked by reproductions and CI, not re-reviewed'')
            else followed edited0 (''; pushed to '' @ code @ '' by a correction that named no finding, so the findings are advice''));
          added = correction_marker c head @ nl @ amended_said c head repo linked @ nl;
          mark = review_marker (co_reviewed c)
      in if contains edited mark then replace_first edited mark (mark @ nl @ added) else added @ nl @ edited)"

text \<open>The correction's own review among comments.\<close>

definition own_review :: "string \<Rightarrow> gh_comment list \<Rightarrow> correction \<Rightarrow> gh_comment option" where
  "own_review login cs c =
     find (\<lambda>cm. cm_id cm = co_review c \<and> equal_fold (cm_login cm) login \<and>
       contains (cm_body cm) (review_marker (co_reviewed c))) cs"

definition correction_stem :: "int \<Rightarrow> correction \<Rightarrow> string \<Rightarrow> string" where
  "correction_stem n c head = ''correction-pr-'' @ dec n @ ''-'' @ co_reviewed c @ ''-'' @ head"

text \<open>What the editor reads: the comments now, and as the effect finds them, what an edit answers,
  and the log of the relay.\<close>

record editor =
  ed_login :: string
  ed_repo :: string
  ed_rounds :: int
  ed_comments :: "gh_error + gh_comment list"
  ed_later :: "gh_error + gh_comment list"
  ed_edit :: "int \<Rightarrow> string \<Rightarrow> gh_error option"
  ed_log :: "string io"
  ed_text :: "gh_error \<Rightarrow> string"

datatype edit_error = EditLog string | EditTracker gh_error | EditStore store_error

text \<open>The edit made, if one is, and the error it ends with.\<close>

definition perform_review_edit :: "editor \<Rightarrow> correction \<Rightarrow> string \<Rightarrow> (int \<rightharpoonup> string) \<Rightarrow>
    (int \<times> string) option \<times> gh_error option" where
  "perform_review_edit ed c head commits =
     (case ed_later ed of
        Inl e \<Rightarrow> (None, Some e)
      | Inr cs \<Rightarrow>
          (case own_review (ed_login ed) cs c of
             None \<Rightarrow> (None, None)
           | Some r \<Rightarrow>
               if contains (cm_body r) (correction_marker c head) then (None, None)
               else (let body = amended (cm_body r) c head commits (ed_repo ed)
                     in (Some (cm_id r, body), ed_edit ed (cm_id r) body))))"

definition edit_review :: "editor \<Rightarrow> int \<Rightarrow> correction \<Rightarrow> string \<Rightarrow> world \<Rightarrow> (edit_error + effect option) \<times> world" where
  "edit_review ed n c head w =
     (case (if co_failed c = '''' then corrected_commits (ed_log ed) else Inr Map.empty) of
        Inl e \<Rightarrow> (Inl (EditLog e), w)
      | Inr commits \<Rightarrow>
          (case ed_comments ed of
             Inl e \<Rightarrow> (Inl (EditTracker e), w)
           | Inr cs \<Rightarrow>
               (case own_review (ed_login ed) cs c of
                  None \<Rightarrow> (Inr None, w)
                | Some r \<Rightarrow>
                    if contains (cm_body r) (correction_marker c head) then (Inr None, w)
                    else (case effect_round (correction_stem n c head) 0 (ed_rounds ed) w of
                        (Spent _ _ _, w) \<Rightarrow> (Inr None, w)
                      | (RoundError e, w) \<Rightarrow> (Inl (EditStore e), w)
                      | (RoundKey key, w) \<Rightarrow>
                          (Inr (Some (Effect key (Some (\<lambda>d.
                             (map_option (ed_text ed) (snd (perform_review_edit ed c head commits)), d))))), w)))))"

text \<open>The edit of a review, as both kinds make it.\<close>

definition editor_of :: "delivery_env \<Rightarrow> int \<Rightarrow> string \<Rightarrow> string \<Rightarrow> editor" where
  "editor_of d n a b = \<lparr>ed_login = dl_login d, ed_repo = dl_repo d, ed_rounds = dl_rounds d,
     ed_comments = ot_comments (dl_tracker d) n, ed_later = dl_comments_later d, ed_edit = dl_edit_comment d,
     ed_log = dl_log d a b, ed_text = dl_gh_text d\<rparr>"

definition edit_failed :: "edit_error \<Rightarrow> delivery_error" where
  "edit_failed e = (case e of EditLog s \<Rightarrow> DlGit s | EditTracker x \<Rightarrow> DlTracker x | EditStore x \<Rightarrow> DlStore x)"

subsection \<open>What the reading and the edit keep\<close>

text \<open>Blocks in order, none empty and none over another, between two lines.\<close>

fun spans :: "nat \<Rightarrow> block list \<Rightarrow> nat \<Rightarrow> bool" where
  "spans a [] z \<longleftrightarrow> a \<le> z"
| "spans a (b # bs) z \<longleftrightarrow> a \<le> bl_start b \<and> bl_start b < bl_end b \<and> spans (bl_end b) bs z"

lemma spans_snoc: "spans a (bs @ [b]) z \<longleftrightarrow> spans a bs (bl_start b) \<and> bl_start b < bl_end b \<and> bl_end b \<le> z"
  by (induction a bs z rule: spans.induct) auto

lemma spans_later: "spans a bs z \<Longrightarrow> z \<le> z' \<Longrightarrow> spans a bs z'"
  by (induction a bs z rule: spans.induct) auto

lemma trim_blank_bounds: "trim_blank lines start i \<le> i \<and> (start < i \<longrightarrow> start < trim_blank lines start i)"
  by (induction lines start i rule: trim_blank.induct) (auto intro: le_SucI)

definition in_order :: "nat \<Rightarrow> review_reading \<Rightarrow> bool" where
  "in_order i s \<longleftrightarrow>
     (case rd_open s of
        None \<Rightarrow> spans 0 (rd_blocks s) i
      | Some b \<Rightarrow> spans 0 (rd_blocks s) (bl_start b) \<and> bl_start b < i)"

lemma end_block_in_order: "in_order i s \<Longrightarrow> spans 0 (rd_blocks (end_block lines i s)) i \<and> rd_open (end_block lines i s) = None"
  using trim_blank_bounds [of lines _ i]
  by (auto simp: in_order_def end_block_def spans_snoc split: option.splits)

lemma in_order_later: "in_order i s \<Longrightarrow> in_order (Suc i) s"
  by (auto simp: in_order_def intro: spans_later split: option.splits)

lemma in_order_update [simp]:
  "in_order i (s\<lparr>rd_axis := x\<rparr>) = in_order i s"
  "in_order i (s\<lparr>rd_fence := y\<rparr>) = in_order i s"
  "in_order i (s\<lparr>rd_depth := z\<rparr>) = in_order i s"
  by (auto simp: in_order_def split: option.split)

lemma end_block_axis [simp]: "in_order i s \<Longrightarrow> in_order i (end_block lines i s)"
  using end_block_in_order [of i s lines] by (simp add: in_order_def)

lemma in_finding_in_order: "in_order i s \<Longrightarrow> in_order i (in_finding lines i t s)"
  by (simp add: in_finding_def Let_def)

lemma in_order_begun:
  assumes "in_order i s" "bl_start b = i"
  shows "in_order (Suc i) ((end_block lines i s)\<lparr>rd_open := Some b\<rparr>)"
  using end_block_in_order [OF assms(1), of lines] assms(2) by (simp add: in_order_def)

lemma read_line_in_order: "in_order i s \<Longrightarrow> in_order (Suc i) (read_line lines i l s)"
  by (auto simp: read_line_def Let_def in_order_later in_order_begun in_finding_in_order split: option.split)

lemma read_lines_in_order:
  "in_order i s \<Longrightarrow> i + length ls = length lines \<Longrightarrow> spans 0 (rd_blocks (read_lines lines i ls s)) (length lines)"
proof (induction ls arbitrary: i s)
  case Nil
  then show ?case using end_block_in_order [of i s lines] by simp
next
  case (Cons l ls)
  show ?case unfolding read_lines.simps
    by (rule Cons.IH) (use Cons.prems read_line_in_order in auto)
qed

lemma review_blocks_in_order: "spans 0 (review_blocks body) (length (review_lines body))"
  unfolding review_blocks_def Let_def by (rule read_lines_in_order) (simp_all add: in_order_def)

lemma subseq_between: "subseq ys (xs @ ys @ zs)"
  by (metis append_Nil append_Nil2 list_emb_Nil list_emb_append_mono subseq_order.order_refl)

lemma amend_block_keeps: "subseq (lines_of lines (bl_start b) (bl_end b)) (fst (amend_block c commits repo lines b))"
  using subseq_between [of "lines_of lines (bl_start b) (bl_end b)" "[]"]
    subseq_between [of "lines_of lines (bl_start b) (bl_end b)" "[_, _]"]
  by (simp add: amend_block_def Let_def)

lemma lines_of_split: "a \<le> b \<Longrightarrow> b \<le> length xs \<Longrightarrow> drop a xs = lines_of xs a b @ drop b xs"
  unfolding lines_of_def by (metis append_take_drop_id drop_append length_take min.absorb2 diff_is_0_eq drop0)

lemma spans_earlier: "spans a bs z \<Longrightarrow> a' \<le> a \<Longrightarrow> spans a' bs z"
  by (cases bs) auto

lemma spans_within: "spans a bs z \<Longrightarrow> a \<le> z"
  by (induction a bs z rule: spans.induct) auto

lemma amend_blocks_keeps:
  "spans pos bs (length lines) \<Longrightarrow> subseq (drop pos lines) (fst (amend_blocks c commits repo lines pos bs))"
proof (induction bs arbitrary: pos)
  case (Cons b bs)
  then have sp: "pos \<le> bl_start b" "bl_start b < bl_end b" "spans (bl_end b) bs (length lines)" by auto
  have le: "bl_end b \<le> length lines" using sp(3) by (rule spans_within)
  have whole: "drop pos lines = lines_of lines pos (bl_start b) @ lines_of lines (bl_start b) (bl_end b) @ drop (bl_end b) lines"
    using sp le lines_of_split [of pos "bl_start b" lines] lines_of_split [of "bl_start b" "bl_end b" lines] by simp
  show ?case
  proof (cases "bl_number b \<notin> fd_number ` set (co_findings c) \<or> \<not> correctable_axis (bl_axis b)")
    case True
    then show ?thesis using Cons.IH [OF spans_earlier [OF sp(3)], of pos] sp by simp
  next
    case False
    have "subseq (drop (bl_end b) lines) (fst (amend_blocks c commits repo lines (bl_end b) bs))"
      using Cons.IH [OF sp(3)] .
    from list_emb_append_mono [OF amend_block_keeps [of lines b c commits repo] this]
    show ?thesis unfolding whole using False by (simp add: case_prod_unfold Let_def subseq_append')
  qed
qed simp

text \<open>Every line of the review is still in the edited one, in the review's order.\<close>

lemma amended_keeps_the_lines:
  "subseq (review_lines body) (fst (amend_blocks c commits repo (review_lines body) 0 (review_blocks body)))"
  using amend_blocks_keeps [OF review_blocks_in_order, of body] by simp

text \<open>A mark on one line is still there, whatever the edit adds.\<close>

lemma unix_lines_keeps_prefix: "CHR 0x0D \<notin> set m \<Longrightarrow> has_prefix s m \<Longrightarrow> has_prefix (unix_lines s) m"
proof (induction m arbitrary: s)
  case (Cons c m)
  then obtain t where s: "s = c # t" "has_prefix t m" by (cases s) (auto simp: has_prefix_def)
  have "unix_lines s = c # unix_lines t" using Cons.prems(1) s(1) by (cases t) auto
  then show ?case using Cons.IH [of t] Cons.prems(1) s(2) by (simp add: has_prefix_def)
qed (simp add: has_prefix_def)

lemma has_prefix_contains: "has_prefix s m \<Longrightarrow> contains s m"
  by (metis contains_iff has_prefix_conv append_Nil)

lemma unix_lines_keeps:
  assumes m: "CHR 0x0D \<notin> set m" "m \<noteq> ''''" "CHR 0x0A \<notin> set m"
  shows "contains s m \<Longrightarrow> contains (unix_lines s) m"
proof (induction s rule: unix_lines.induct)
  case (1 x y s)
  show ?case
  proof (cases "has_prefix (x # y # s) m")
    case True
    then show ?thesis using unix_lines_keeps_prefix [OF m(1)] has_prefix_contains by blast
  next
    case False
    then have y: "contains (y # s) m" using 1(3) contains_Cons by blast
    show ?thesis
    proof (cases "x = CHR 0x0D \<and> y = CHR 0x0A")
      case True
      then have "\<not> has_prefix (y # s) m" using m(2,3) by (cases m) (auto simp: has_prefix_def)
      then show ?thesis using 1(1) [OF True] y True by (simp add: contains_Cons)
    next
      case False
      then show ?thesis using 1(2) [OF False y] by (auto simp: contains_Cons)
    qed
  qed
qed simp_all

lemma has_prefix_over_sep: "c \<notin> set m \<Longrightarrow> has_prefix (s @ c # t) m \<Longrightarrow> has_prefix s m"
proof (induction m arbitrary: s)
  case (Cons d m)
  then show ?case by (cases s) (auto simp: has_prefix_def)
qed (simp add: has_prefix_def)

lemma contains_append1: "contains s m \<Longrightarrow> contains (s @ t) m"
  unfolding contains_iff by (metis append_assoc)

lemma contains_append2: "contains t m \<Longrightarrow> contains (s @ t) m"
  unfolding contains_iff by (metis append_assoc)

lemma contains_over_sep:
  assumes "contains (s @ [c] @ t) m" "c \<notin> set m"
  shows "contains s m \<or> contains t m"
  using assms
proof (induction s)
  case Nil
  show ?case
  proof (cases m)
    case Nil
    then show ?thesis by (simp add: contains_iff)
  qed (use Nil in \<open>simp add: contains_Cons [of c t] has_prefix_def\<close>)
next
  case (Cons x s)
  have "has_prefix (x # s) m" if "has_prefix (x # s @ [c] @ t) m"
    using has_prefix_over_sep [OF Cons.prems(2), of "x # s" t] that by simp
  with Cons show ?case unfolding append_Cons contains_Cons by blast
qed

lemma contains_join:
  assumes "c \<notin> set m" "m \<noteq> ''''"
  shows "contains (join ls [c]) m \<longleftrightarrow> (\<exists>l\<in>set ls. contains l m)"
proof (induction ls "[c]" rule: join.induct)
  case 1
  then show ?case using assms by (simp add: contains_iff)
next
  case (3 s t ts)
  have "contains (s @ [c] @ r) m \<longleftrightarrow> contains s m \<or> contains r m" for r
    using contains_over_sep [OF _ assms(1), of s r] contains_append1 [of s m "[c] @ r"] contains_append2 [of "r" m "s @ [c]"]
    by auto
  with 3 show ?case by simp
qed simp

lemma subseq_set: "subseq xs ys \<Longrightarrow> set xs \<subseteq> set ys"
  by (auto elim: list_emb_set)

lemma replace_first_puts: "contains s m \<Longrightarrow> \<exists>a b. replace_first s m x = a @ x @ b"
  by (auto simp: replace_first_def contains_def split: option.split)

lemma amended_keeps_marker:
  assumes "CHR ''<'' \<notin> set (co_reviewed c)" "CHR 0x0A \<notin> set (co_reviewed c)" "CHR 0x0D \<notin> set (co_reviewed c)"
    and "contains body (review_marker (co_reviewed c))"
  shows "contains (amended body c head commits repo) (review_marker (co_reviewed c))"
proof -
  let ?m = "review_marker (co_reviewed c)" and ?ls = "review_lines body"
  have m: "?m \<noteq> ''''" "CHR 0x0A \<notin> set ?m" "CHR 0x0D \<notin> set ?m"
    "?m = CHR ''<'' # CHR ''!'' # (''-- afk:review head='' @ co_reviewed c @ '' -->'')"
    "CHR ''<'' \<notin> set (''-- afk:review head='' @ co_reviewed c @ '' -->'')"
    using assms(1-3) by (simp_all add: review_marker_def)
  obtain l where l: "l \<in> set ?ls" "contains l ?m"
    using unix_lines_keeps [OF m(3,1,2) assms(4)] contains_join [OF m(2,1), of ?ls]
    by (auto simp: review_lines_def join_split_on nl_def)
  then have "contains (join (fst (amend_blocks c commits repo ?ls 0 (review_blocks body))) [CHR 0x0A]) ?m"
    using contains_join [OF m(2,1)] subseq_set [OF amended_keeps_the_lines [of body c commits repo]] by blast
  then have e: "contains (join (fst (amend_blocks c commits repo ?ls 0 (review_blocks body))) nl) ?m"
    by (simp add: nl_def)
  have at_mark: "contains (replace_first s ?m (?m @ x)) ?m" if s: "contains s ?m" for s x
    using replace_first_puts [OF s, of "?m @ x"] by (metis contains_iff append_assoc)
  show ?thesis
    unfolding amended_def Let_def case_prod_unfold
    using e followed_keeps_mark [OF m(4,5) e, of True] by (auto simp: followed_def at_mark)
qed

lemma amended_carries_marker: "contains (amended body c head commits repo) (correction_marker c head)"
proof -
  have at_mark: "contains (replace_first s m (m @ nl @ x @ y)) x" if s: "contains s m" for s m x y
    using replace_first_puts [OF s, of "m @ nl @ x @ y"] by (metis contains_iff append_assoc)
  have first: "contains (x @ y) x" for x y :: string by (rule has_prefix_contains) simp
  have "\<exists>edited x. amended body c head commits repo =
      (if contains edited (review_marker (co_reviewed c))
       then replace_first edited (review_marker (co_reviewed c)) (review_marker (co_reviewed c) @ nl @ correction_marker c head @ nl @ x @ nl)
       else correction_marker c head @ nl @ x @ nl @ nl @ edited)"
    unfolding amended_def Let_def case_prod_unfold append_assoc by (intro exI) (rule refl)
  then show ?thesis using at_mark first by auto
qed

text \<open>The edit of an advisory review for how its correction ended is made once and takes nothing of
  it away: the comment as edited carries the marker of how the correction ended, so the effect
  performed again edits nothing, whatever else was posted in between; it still carries the review's
  own marker, so the head it read still counts as reviewed; and the lines the findings are amended
  into hold every line the review had, in the same order.\<close>

theorem review_edited_once:
  assumes "CHR ''<'' \<notin> set (co_reviewed c)" "CHR 0x0A \<notin> set (co_reviewed c)" "CHR 0x0D \<notin> set (co_reviewed c)"
    and "ed_later ed = Inr cs" and "perform_review_edit ed c head commits = (Some (k, body), None)"
  shows "perform_review_edit (ed\<lparr>ed_later := Inr (map (\<lambda>m. if cm_id m = k then m\<lparr>cm_body := body\<rparr> else m) cs)\<rparr>) c head commits
      = (None, None)
    \<and> (\<exists>r\<in>set cs. cm_id r = k \<and> contains body (review_marker (co_reviewed c)) \<and> contains body (correction_marker c head)
        \<and> subseq (review_lines (cm_body r)) (fst (amend_blocks c commits (ed_repo ed) (review_lines (cm_body r)) 0
            (review_blocks (cm_body r)))))"
proof -
  let ?m = "review_marker (co_reviewed c)" and ?done = "correction_marker c head"
  let ?cs = "map (\<lambda>m. if cm_id m = k then m\<lparr>cm_body := body\<rparr> else m) cs"
  obtain r where r: "own_review (ed_login ed) cs c = Some r" "k = cm_id r" "body = amended (cm_body r) c head commits (ed_repo ed)"
    using assms(4,5) by (auto simp: perform_review_edit_def Let_def split: option.splits if_splits)
  then have own: "r \<in> set cs" "cm_id r = co_review c" "contains (cm_body r) ?m"
    by (auto simp: own_review_def find_Some_iff)
  have b: "contains body ?m" "contains body ?done"
    unfolding r(3) using amended_keeps_marker [OF assms(1-3) own(3)] amended_carries_marker by blast+
  have "contains (cm_body x) ?done" if x: "own_review (ed_login ed) ?cs c = Some x" for x
  proof -
    from x obtain y where "y \<in> set cs" "x = (if cm_id y = k then y\<lparr>cm_body := body\<rparr> else y)" "cm_id x = k"
      using r(2) own(2) by (fastforce simp: own_review_def find_Some_iff in_set_conv_nth)
    then show ?thesis using b(2) by (auto split: if_splits)
  qed
  then have "perform_review_edit (ed\<lparr>ed_later := Inr ?cs\<rparr>) c head commits = (None, None)"
    by (simp add: perform_review_edit_def split: option.split)
  then show ?thesis using own(1) r(2) b amended_keeps_the_lines by blast
qed

definition example_review :: gh_comment where
  "example_review = \<lparr>cm_id = 7, cm_body = review_marker ''c1'' @ nl @ ''## Correctness'' @ nl @ ''1. A leak.'' @ nl @ ''It is never closed.'',
    cm_login = ''afk'', cm_association = '''', cm_created_at = None\<rparr>"

definition example_correction :: correction where
  "example_correction = \<lparr>co_reviewed = ''c1'', co_review = 7,
    co_findings = [\<lparr>fd_number = 1, fd_axis = ''Correctness'', fd_text = ''1. A leak.''\<rparr>], co_given = True, co_failed = '''', co_from = 0\<rparr>"

definition example_editor :: editor where
  "example_editor = \<lparr>ed_login = ''afk'', ed_repo = '''', ed_rounds = 2, ed_comments = Inr [example_review],
    ed_later = Inr [example_review], ed_edit = (\<lambda>_ _. None), ed_log = Inr '''', ed_text = (\<lambda>_. '''')\<rparr>"

theorem review_edited_once_witness:
  "\<exists>body. perform_review_edit example_editor example_correction ''c2'' [1 \<mapsto> ''c2''] = (Some (7, body), None)
    \<and> perform_review_edit (example_editor\<lparr>ed_later := Inr [example_review\<lparr>cm_body := body\<rparr>]\<rparr>) example_correction ''c2''
        [1 \<mapsto> ''c2''] = (None, None)"
proof -
  let ?p = "perform_review_edit example_editor example_correction ''c2'' [1 \<mapsto> ''c2'']"
  have c: "CHR ''<'' \<notin> set (co_reviewed example_correction)" "CHR 0x0A \<notin> set (co_reviewed example_correction)"
    "CHR 0x0D \<notin> set (co_reviewed example_correction)" "ed_later example_editor = Inr [example_review]"
    by (simp_all add: example_correction_def example_editor_def)
  have own: "own_review ''afk'' [example_review] example_correction = Some example_review"
    "\<not> contains (cm_body example_review) (correction_marker example_correction ''c2'')"
    by code_simp+
  obtain body where p: "?p = (Some (7, body), None)"
    using own by (simp add: perform_review_edit_def Let_def example_editor_def) (simp add: example_review_def)
  from review_edited_once [OF c p] p show ?thesis by (auto simp: example_review_def)
qed

end
