(* ===== verification/Implement_Text.thy ===== *)
theory Implement_Text
  imports Corrections Sessions
begin

text \<open>
  What the implement kind says and reads: the names of its branches
  (\<^verbatim>\<open>internal/implement/{implement,git}.go\<close>), the instructions of a command (\<^verbatim>\<open>work.go\<close>), the
  description of its pull request and the session's part of it (\<^verbatim>\<open>description.go\<close>), the first
  piece of an issue and the issue for its rest (\<^verbatim>\<open>piece.go\<close>), and a session's questions cut to fit
  a comment (\<^verbatim>\<open>gaps.go\<close>). Strings are bytes; a character is a rune as \<^verbatim>\<open>unicode/utf8\<close> has it.
\<close>

subsection \<open>Branches\<close>

definition all_digits :: "string \<Rightarrow> bool" where
  "all_digits s \<longleftrightarrow> s \<noteq> '''' \<and> list_all is_digit s"

definition branch_issue :: "string \<Rightarrow> string \<Rightarrow> int option" where
  "branch_issue pfx branch =
     (case cut_prefix branch pfx of
        None \<Rightarrow> None
      | Some rest \<Rightarrow>
          if pfx = '''' then None
          else (case cut rest (CHR ''-'') of
              (issue, k, ok) \<Rightarrow>
                if \<not> ok \<or> \<not> all_digits issue \<or> \<not> all_digits k then None
                else (case parse_int64 issue of
                    None \<Rightarrow> None
                  | Some n \<Rightarrow> if n < 1 then None else Some n)))"

definition whole_branch :: "string \<Rightarrow> string" where
  "whole_branch branch = branch @ ''-whole''"

definition branch_name :: "string \<Rightarrow> int \<Rightarrow> int \<Rightarrow> string" where
  "branch_name pfx issue k = pfx @ dec issue @ ''-'' @ dec k"

text \<open>The first number from \<open>k\<close> whose branch is free; \<open>None\<close> is a loop that never ends.\<close>

partial_function (option) free_from :: "string list \<Rightarrow> string \<Rightarrow> int \<Rightarrow> int \<Rightarrow> string option" where
  "free_from taken pfx issue k =
     (let branch = branch_name pfx issue k in
      if branch \<notin> set taken \<and> whole_branch branch \<notin> set taken then Some branch
      else free_from taken pfx issue (k + 1))"

definition taken_branches :: "string \<Rightarrow> string list" where
  "taken_branches heads = concat (map (\<lambda>line. case cut line (CHR 0x09) of
       (a, ref, ok) \<Rightarrow>
         if ok then [(case cut_prefix ref ''refs/heads/'' of None \<Rightarrow> ref | Some b \<Rightarrow> b)] else [])
     (split_on (CHR 0x0A) heads))"

text \<open>What preparing a checkout meets: the clone's default branch, the remote's heads, and the two
  commands run in it.\<close>

record prepare_env =
  pe_clone :: "string io"
  pe_heads :: "string io"
  pe_switch :: "string \<Rightarrow> string option"
  pe_rev_head :: "string io"

definition prepare :: "prepare_env \<Rightarrow> string \<Rightarrow> int \<Rightarrow> ((string \<times> string \<times> string) io) option" where
  "prepare v pfx issue =
     (case pe_clone v of
        Inl e \<Rightarrow> Some (Inl e)
      | Inr into \<Rightarrow>
          (case pe_heads v of
             Inl e \<Rightarrow> Some (Inl e)
           | Inr heads \<Rightarrow>
               (case free_from (taken_branches heads) pfx issue 1 of
                  None \<Rightarrow> None
                | Some branch \<Rightarrow>
                    (case pe_switch v branch of
                       Some e \<Rightarrow> Some (Inl e)
                     | None \<Rightarrow>
                         (case pe_rev_head v of
                            Inl e \<Rightarrow> Some (Inl e)
                          | Inr base \<Rightarrow> Some (Inr (branch, base, into)))))))"

subsection \<open>Markers\<close>

definition implement_word :: string where
  "implement_word = ''/implement''"

definition implement_marker :: "int \<Rightarrow> string" where
  "implement_marker n = ''<!-- afk:implement issue='' @ dec n @ '' -->''"

definition issue_hand_back_marker :: "int \<Rightarrow> string \<Rightarrow> string \<Rightarrow> string" where
  "issue_hand_back_marker n branch key =
     ''<!-- afk:hand-back issue='' @ dec n @ '' branch='' @ branch @ '' key='' @ key @ '' -->''"

definition rest_marker :: "int \<Rightarrow> string \<Rightarrow> string" where
  "rest_marker n branch = ''<!-- afk:rest issue='' @ dec n @ '' branch='' @ branch @ '' -->''"

subsection \<open>A command's instructions\<close>

definition instructions_of :: "gh_comment \<Rightarrow> string" where
  "instructions_of c =
     (let body = trim_space (cm_body c) in
      case index_of body implement_word of
        None \<Rightarrow> ''''
      | Some i \<Rightarrow> trim_space (drop (i + length implement_word) body))"

definition skip_quote :: "string \<Rightarrow> string" where
  "skip_quote s = (if has_prefix s [CHR 0x27] then drop 1 s
     else if has_prefix s [CHR 0xE2, CHR 0x80, CHR 0x99] then drop 3 s else s)"

definition whole_here :: "string \<Rightarrow> bool" where
  "whole_here s =
     (case match_ci ''do'' s of
        None \<Rightarrow> False
      | Some r \<Rightarrow>
          (let not_word = (case match_ci ''n'' r of
                   Some q \<Rightarrow> match_ci ''t'' (skip_quote q)
                 | None \<Rightarrow> Option.bind (skip_spaces r) (match_ci ''not''))
           in case Option.bind (Option.bind not_word skip_spaces) (match_ci ''split'') of
                None \<Rightarrow> False
              | Some e \<Rightarrow> (case e of [] \<Rightarrow> True | c # cs \<Rightarrow> \<not> word_char c)))"

fun whole_words :: "bool \<Rightarrow> string \<Rightarrow> bool" where
  "whole_words after_word [] = False"
| "whole_words after_word (c # cs) =
     (\<not> after_word \<and> whole_here (c # cs) \<or> whole_words (word_char c) cs)"

definition whole_asked :: "string \<Rightarrow> bool" where
  "whole_asked instructions = whole_words False instructions"

subsection \<open>The session's part of a description\<close>

definition title_limit :: nat where
  "title_limit = 256"

definition sections :: "string list" where
  "sections = [''Start here'', ''Summary'', ''Evidence'', ''Where the ticket didn't decide'', ''Not verified'',
     ''Merge danger'', ''Recipe'']"

definition byte_order_mark :: string where
  "byte_order_mark = [CHR 0xEF, CHR 0xBB, CHR 0xBF]"

definition trim_mark :: "string \<Rightarrow> string" where
  "trim_mark s = (case cut_prefix s byte_order_mark of None \<Rightarrow> s | Some r \<Rightarrow> r)"

definition nothing_said :: "string list \<Rightarrow> bool" where
  "nothing_said body =
     (let s0 = trim_space (join body nl);
          s = (if has_suffix s0 ''.'' then butlast s0 else s0)
      in s = '''' \<or> equal_fold s ''none'' \<or> equal_fold s ''n/a'')"

text \<open>The remainder and the unmet criteria, as their files are read; \<open>Inl\<close> is a file not read.\<close>

definition read_said :: "string io \<Rightarrow> string io" where
  "read_said file =
     (case file of
        Inl e \<Rightarrow> Inl e
      | Inr t \<Rightarrow> if nothing_said [t] then Inr '''' else Inr (trim_space (trim_mark t)))"

definition read_questions :: "string io \<Rightarrow> string io" where
  "read_questions file = (case file of Inl e \<Rightarrow> Inl e | Inr t \<Rightarrow> Inr (trim_space (trim_mark t)))"

definition opens_heading :: "string \<Rightarrow> bool" where
  "opens_heading line =
     (let rest = dropWhile (\<lambda>c. c = CHR ''#'') line; n = length line - length rest
      in 1 \<le> n \<and> n \<le> 6 \<and> (case rest of [] \<Rightarrow> True | c # cs \<Rightarrow> c = CHR '' '' \<or> c = CHR 0x09))"

fun straight_quotes :: "string \<Rightarrow> string" where
  "straight_quotes (a # b # c # s) =
     (if a = CHR 0xE2 \<and> b = CHR 0x80 \<and> c = CHR 0x99 then CHR 0x27 # straight_quotes s
      else a # straight_quotes (b # c # s))"
| "straight_quotes s = s"

definition section_named :: "string \<Rightarrow> string" where
  "section_named heading =
     (let t = trim_space heading;
          h = straight_quotes (if has_suffix t '':'' then butlast t else t)
      in case find (equal_fold h) sections of None \<Rightarrow> '''' | Some s \<Rightarrow> s)"

text \<open>The sections found, the one being read and its lines, and whether a fence is open.\<close>

record part_state =
  ps_found :: "string \<Rightarrow> string"
  ps_heading :: string
  ps_body :: "string list"
  ps_fenced :: bool

definition part_flush :: "part_state \<Rightarrow> part_state" where
  "part_flush s =
     (let h = ps_heading s in
      if h \<noteq> '''' \<and> ps_found s h = '''' \<and> \<not> nothing_said (ps_body s)
      then s\<lparr>ps_found := (ps_found s)(h := trim_space (join (ps_body s) nl)), ps_body := []\<rparr>
      else s\<lparr>ps_body := []\<rparr>)"

definition part_line :: "string \<Rightarrow> part_state \<Rightarrow> part_state" where
  "part_line line s0 =
     (let s = (if has_prefix (trim_space line) ''```'' then s0\<lparr>ps_fenced := \<not> ps_fenced s0\<rparr> else s0)
      in case (if ps_fenced s then None else cut_prefix line ''## '') of
           Some name \<Rightarrow> (part_flush s)\<lparr>ps_heading := section_named name\<rparr>
         | None \<Rightarrow> s\<lparr>ps_body := ps_body s @ [line]\<rparr>)"

definition sections_found :: "string list \<Rightarrow> string \<Rightarrow> string" where
  "sections_found ls = ps_found (part_flush (fold part_line ls
     \<lparr>ps_found = (\<lambda>_. ''''), ps_heading = '''', ps_body = [], ps_fenced = False\<rparr>))"

definition session_part :: "string \<Rightarrow> string \<times> string" where
  "session_part txt =
     (let lines = split_on (CHR 0x0A) (unix_lines (trim_mark txt));
          line1 = trim_space (List.hd lines);
          titled = (\<not> opens_heading line1 \<and> \<not> has_prefix line1 ''```'');
          title = (if titled \<and> rune_count line1 \<le> title_limit then line1 else '''');
          found = sections_found (if titled then tl lines else lines)
      in if found (List.hd sections) = '''' then (title, '''')
         else (title, concat (map (\<lambda>s. if found s = '''' then ''''
             else nl @ ''## '' @ s @ nl @ nl @ found s @ nl) sections)))"

subsection \<open>The description\<close>

definition link_line :: "int \<Rightarrow> bool \<Rightarrow> bool \<Rightarrow> int \<Rightarrow> string" where
  "link_line n piece unmet rest =
     (if piece then ''Part of #'' @ dec n @ ''. The rest is #'' @ dec rest @ ''.''
      else if unmet then ''Refs #'' @ dec n
      else ''Closes #'' @ dec n)"

definition unmet_note :: "int \<Rightarrow> bool \<Rightarrow> string \<Rightarrow> string" where
  "unmet_note n piece unmet =
     (if piece
      then ''**Not verified:** the session says these of the issue's acceptance criteria need more than this work to meet - a deploy, or a run by hand - so they are still to check:''
      else ''**Not verified:** merging this leaves #'' @ dec n @ '' open. The session says these of its acceptance criteria need more than this work to meet - a deploy, or a run by hand - so they are still to check:'') @
     nl @ nl @ unmet"

definition unblocked_note :: "int \<Rightarrow> int \<Rightarrow> string" where
  "unblocked_note n rest = ''#'' @ dec rest @ '' could not be made blocked by #'' @ dec n @
     '': add the dependency by hand if it should wait for this issue.''"

definition description_text :: "int \<Rightarrow> string \<Rightarrow> string \<Rightarrow> string \<Rightarrow> string \<Rightarrow> string \<Rightarrow> string" where
  "description_text n link procedure line session f =
     implement_marker n @ nl @ link @ nl @ nl @
     (if line \<noteq> '''' then line @ nl @ nl else '''') @
     reminder @ '' ('' @
     (if procedure \<noteq> '''' then ''[procedure]('' @ procedure @ '')'' else ''the agent has no link to the procedure'') @
     ''): read #'' @ dec n @ '' first, then this, then the diff'' @
     (if session \<noteq> '''' then '' from **Start here**'' else '''') @
     ''. Do your own reading before you open the advisory review. End by merging, sending back in your own words, or closing with one line why.'' @
     nl @ session @ nl @ f @ nl"

subsection \<open>The rest of a first piece\<close>

text \<open>The first \<open>n\<close> runes, as a slice of runes is written back: a byte that starts no rune is the
  replacement character.\<close>

fun take_runes :: "nat \<Rightarrow> string \<Rightarrow> string" where
  "take_runes 0 s = []"
| "take_runes (Suc n) s =
     (if s = [] then []
      else (if rune_width s = 1 \<and> \<not> byte_in 0 0x7F (List.hd s) then [CHR 0xEF, CHR 0xBF, CHR 0xBD]
            else take (rune_width s) s) @ take_runes n (drop (rune_width s) s))"

definition rest_title :: "int \<Rightarrow> string \<Rightarrow> string" where
  "rest_title n title =
     (let t = ''The rest of #'' @ dec n @ '': '' @ title in
      if rune_count t \<le> title_limit then t
      else take_runes (title_limit - 1) t @ [CHR 0xE2, CHR 0x80, CHR 0xA6])"

definition rest_text :: "string \<Rightarrow> int \<Rightarrow> string \<Rightarrow> string \<Rightarrow> string \<Rightarrow> string" where
  "rest_text marker n branch uncut remainder0 =
     (let remainder = (if remainder0 = '''' then ''The session that made '' @ tick branch @
            '' did not say what is left: #'' @ dec n @ '' is the whole job, and '' @ tick branch @
            '' the part of it done.'' else remainder0);
          kept = (if uncut \<noteq> '''' then '' The work as it was before it was cut to that piece is on '' @
            tick (whole_branch branch) @ '', at '' @ tick (git_short uncut) @
            '': some of what is left may be written there already.'' else '''')
      in marker @ nl @ ''What is left of #'' @ dec n @ '' once '' @ tick branch @ '', its first piece, is in.'' @
         kept @ nl @ nl @ remainder @ nl @ nl @ ''It is blocked by #'' @ dec n @
         '', which the first piece does not close, and it is not labelled for the agent: whether and when it is worked is yours to decide.'' @ nl)"

definition rest_body :: "string \<Rightarrow> int \<Rightarrow> string \<Rightarrow> string \<Rightarrow> string \<Rightarrow> string" where
  "rest_body marker n branch uncut remainder =
     (let b = rest_text marker n branch uncut remainder
      in if over_limit b then rest_text marker n branch uncut '''' else b)"

subsection \<open>Questions cut to fit a comment\<close>

definition cut_note :: string where
  "cut_note = nl @ nl @ ''(Cut here: the rest of the session's questions are over what GitHub takes in a comment.)''"

text \<open>\<^verbatim>\<open>strings.SplitAfter(text, "\n")\<close>.\<close>

fun split_after :: "string \<Rightarrow> string list" where
  "split_after [] = ['''']"
| "split_after (c # cs) =
     (if c = CHR 0x0A then [c] # split_after cs
      else (case split_after cs of [] \<Rightarrow> [[c]] | l # ls \<Rightarrow> (c # l) # ls))"

fun whole_lines :: "int \<Rightarrow> int \<Rightarrow> string list \<Rightarrow> string" where
  "whole_lines limit used [] = ''''"
| "whole_lines limit used (l # ls) =
     (let n = int (rune_count l) in
      if limit < used + n then '''' else l @ whole_lines limit (used + n) ls)"

definition cut_text :: "string \<Rightarrow> int \<Rightarrow> string" where
  "cut_text txt limit =
     (let limit = limit - (int (rune_count cut_note) + 2)
      in trim_right (whole_lines limit 0 (split_after txt)) (CHR 0x0A) @ cut_note)"


subsection \<open>A branch names its issue\<close>

lemma cut_at: "c \<notin> set a \<Longrightarrow> cut (a @ c # b) c = (a, b, True)"
  by (induction a) auto

lemma digit_not_dash: "list_all is_digit s \<Longrightarrow> CHR ''-'' \<notin> set s"
  by (induction s) (auto simp: is_digit_def)

lemma issue_of_shape:
  assumes "pfx \<noteq> ''''" and "0 \<le> n"
  shows "branch_issue pfx (pfx @ dec n @ ''-'' @ r) =
    (if all_digits r then (case parse_int64 (dec n) of None \<Rightarrow> None | Some n \<Rightarrow> if n < 1 then None else Some n) else None)"
proof -
  have d: "list_all is_digit (dec n)" "dec n \<noteq> ''''" using dec_digits [OF assms(2)] by auto
  have "cut_prefix (pfx @ dec n @ ''-'' @ r) pfx = Some (dec n @ CHR ''-'' # r)"
    by (simp add: cut_prefix_Some)
  moreover have "cut (dec n @ CHR ''-'' # r) (CHR ''-'') = (dec n, r, True)"
    by (rule cut_at [OF digit_not_dash [OF d(1)]])
  ultimately show ?thesis using d assms(1) by (simp add: branch_issue_def all_digits_def)
qed

text \<open>A branch the agent pushes for an issue is read back as that issue's, for any number that
  fits an integer, and the branch its whole work is kept on is never taken for one: a pull request
  opened from it is a human's.\<close>

theorem branch_names_its_issue:
  assumes "pfx \<noteq> ''''" and "1 \<le> n" and "n < 2 ^ 63" and "0 \<le> k"
  shows "branch_issue pfx (branch_name pfx n k) = Some n \<and>
    branch_issue pfx (whole_branch (branch_name pfx n k)) = None"
proof -
  have "all_digits (dec k)" using dec_digits [OF assms(4)] by (auto simp: all_digits_def)
  moreover have "\<not> all_digits (dec k @ ''-whole'')" by (auto simp: all_digits_def is_digit_def)
  moreover have "parse_int64 (dec n) = Some n" using assms by (intro parse_dec) auto
  ultimately show ?thesis
    using issue_of_shape [OF assms(1), of n "dec k"] issue_of_shape [OF assms(1), of n "dec k @ ''-whole''"] assms(2)
    by (simp add: branch_name_def whole_branch_def)
qed

theorem branch_names_its_issue_witness: "branch_issue ''afk/'' (branch_name ''afk/'' 12 3) = Some 12"
  using branch_names_its_issue [of "''afk/''" 12 3] by simp

subsection \<open>A new branch is always found\<close>

lemma free_from_reaches:
  assumes "branch_name pfx n (k + int m) \<notin> set taken \<and> whole_branch (branch_name pfx n (k + int m)) \<notin> set taken"
    and "\<forall>j. k \<le> j \<and> j < k + int m \<longrightarrow> branch_name pfx n j \<in> set taken \<or> whole_branch (branch_name pfx n j) \<in> set taken"
  shows "free_from taken pfx n k = Some (branch_name pfx n (k + int m))"
  using assms
proof (induction m arbitrary: k)
  case 0
  then show ?case by (subst free_from.simps) (simp add: Let_def)
next
  case (Suc m)
  have a: "k + int (Suc m) = (k + 1) + int m" by simp
  have "\<not> (branch_name pfx n k \<notin> set taken \<and> whole_branch (branch_name pfx n k) \<notin> set taken)"
    using Suc.prems(2) by (auto dest: spec [of _ k])
  moreover have "free_from taken pfx n (k + 1) = Some (branch_name pfx n (k + 1 + int m))"
    using Suc.prems unfolding a by (intro Suc.IH) auto
  ultimately show ?case unfolding a by (subst free_from.simps) (auto simp: Let_def)
qed

text \<open>Preparing a checkout always ends, however many branches the remote has: the branch it takes
  is the first of the issue's that is not on the remote and whose whole is not either, so a
  branch the agent has pushed is never reused.\<close>

theorem new_branch_found:
  "\<exists>k\<ge>1. free_from taken pfx n 1 = Some (branch_name pfx n k) \<and>
     branch_name pfx n k \<notin> set taken \<and> whole_branch (branch_name pfx n k) \<notin> set taken \<and>
     (\<forall>j. 1 \<le> j \<and> j < k \<longrightarrow> branch_name pfx n j \<in> set taken \<or> whole_branch (branch_name pfx n j) \<in> set taken)"
proof -
  let ?free = "\<lambda>m. branch_name pfx n (1 + int m) \<notin> set taken \<and> whole_branch (branch_name pfx n (1 + int m)) \<notin> set taken"
  have inj1: "inj (\<lambda>m. branch_name pfx n (1 + int m))"
    by (rule injI) (simp add: branch_name_def)
  have inj2: "inj (\<lambda>m. whole_branch (branch_name pfx n (1 + int m)))"
    by (rule injI) (simp add: branch_name_def whole_branch_def)
  have "\<exists>m. ?free m"
  proof (rule ccontr)
    assume "\<nexists>m. ?free m"
    then have "UNIV = {m. branch_name pfx n (1 + int m) \<in> set taken} \<union>
        {m. whole_branch (branch_name pfx n (1 + int m)) \<in> set taken}" by auto
    moreover have "finite {m. branch_name pfx n (1 + int m) \<in> set taken}"
      using finite_vimageI [OF finite_set inj1, of taken] by (simp add: vimage_def)
    moreover have "finite {m. whole_branch (branch_name pfx n (1 + int m)) \<in> set taken}"
      using finite_vimageI [OF finite_set inj2, of taken] by (simp add: vimage_def)
    ultimately show False by (metis finite_UnI infinite_UNIV_nat)
  qed
  then obtain m where m: "?free m" and least: "\<forall>i<m. \<not> ?free i"
    using exists_least_iff [of ?free, THEN iffD1] by blast
  have below: "branch_name pfx n j \<in> set taken \<or> whole_branch (branch_name pfx n j) \<in> set taken"
    if "1 \<le> j" "j < 1 + int m" for j
  proof -
    have "nat (j - 1) < m" "1 + int (nat (j - 1)) = j" using that by auto
    with least show ?thesis by metis
  qed
  from free_from_reaches [of pfx n 1 m taken] m below show ?thesis
    by (intro exI [of _ "1 + int m"]) auto
qed

subsection \<open>A description's link line is read back\<close>

lemma number_after_dec:
  assumes "0 \<le> n" and "r = '''' \<or> \<not> is_digit (List.hd r)"
  shows "number_after p (p @ dec n @ r) = Some (dec n, r)"
proof -
  have "list_all is_digit (dec n)" "dec n \<noteq> ''''" using dec_digits [OF assms(1)] by auto
  then have "takeWhile is_digit (dec n @ r) = dec n \<and> dropWhile is_digit (dec n @ r) = r"
  proof (cases r)
    case Nil
    with \<open>list_all is_digit (dec n)\<close> show ?thesis by (simp add: list_all_iff takeWhile_eq_all_conv)
  next
    case (Cons c s)
    with span_digits [of "dec n" c s] \<open>list_all is_digit (dec n)\<close> assms(2) show ?thesis by simp
  qed
  with \<open>dec n \<noteq> ''''\<close> show ?thesis by (simp add: number_after_def cut_prefix_def)
qed

lemma after_implement_marker:
  assumes "0 \<le> n"
  shows "after_marker (implement_marker n @ nl @ r) = Some r"
    and "find_implement_marker (implement_marker n @ nl @ r) = (if n < 2 ^ 63 then Some n else Some (2 ^ 63 - 1))"
proof -
  let ?t = "'' -->'' @ nl @ r"
  have m: "implement_marker n @ nl @ r = ''<!-- afk:implement issue='' @ dec n @ ?t"
    by (simp add: implement_marker_def)
  have "number_after ''<!-- afk:implement issue='' (''<!-- afk:implement issue='' @ dec n @ ?t) = Some (dec n, ?t)"
    by (rule number_after_dec [OF assms]) (simp add: is_digit_def)
  moreover have "fst (atoi_digits (dec n)) = (if n < 2 ^ 63 then n else 2 ^ 63 - 1)"
    using undec_dec_nat [of "nat n"] assms by (simp add: atoi_digits_def parse_int64_def Let_def dec_def)
  ultimately show "find_implement_marker (implement_marker n @ nl @ r) = (if n < 2 ^ 63 then Some n else Some (2 ^ 63 - 1))"
    unfolding m by (simp add: has_prefix_def)
  have "list_all is_digit (dec n)" "dec n \<noteq> ''''" using dec_digits [OF assms] by auto
  then show "after_marker (implement_marker n @ nl @ r) = Some r"
    unfolding m by (simp add: after_marker_def cut_prefix_def list_all_iff takeWhile_append dropWhile_append is_digit_def nl_def has_prefix_def)
qed

text \<open>The three lines a description's link can be, after its marker.\<close>

lemma line_ends_nl: "line_ends (nl @ t)"
  by (simp add: line_ends_def has_prefix_def nl_def Let_def)

lemma atoi_dec: "0 \<le> n \<Longrightarrow> n < 2 ^ 63 \<Longrightarrow> atoi_digits (dec n) = (n, True)"
  using parse_dec by (simp add: atoi_digits_def)

lemma read_piece:
  fixes t defines "l \<equiv> \<lambda>n rest. ''Part of #'' @ dec n @ ''. The rest is #'' @ dec rest @ ''.'' @ nl @ t"
  assumes "0 \<le> n" and "n < 2 ^ 63" and "0 \<le> rest" and "rest < 2 ^ 63"
  shows "part_of (implement_marker n @ nl @ l n rest) = (n, rest, True)" and "refs_of (implement_marker n @ nl @ l n rest) = (0, False)"
proof -
  note am = after_implement_marker [OF assms(2), of "l n rest"]
  have n1: "number_after ''Part of #'' (l n rest) = Some (dec n, ''. The rest is #'' @ dec rest @ ''.'' @ nl @ t)"
    unfolding l_def by (rule number_after_dec [OF assms(2)]) (simp add: is_digit_def)
  have n2: "number_after ''. The rest is #'' (''. The rest is #'' @ dec rest @ ''.'' @ nl @ t) = Some (dec rest, ''.'' @ nl @ t)"
    by (rule number_after_dec [OF assms(4)]) (simp add: is_digit_def)
  show "part_of (implement_marker n @ nl @ l n rest) = (n, rest, True)"
    unfolding part_of_def am(1) option.simps n1 n2 prod.simps using line_ends_nl assms by (simp add: atoi_dec has_prefix_def)
  have n3: "number_after ''Refs #'' (l n rest) = None"
    by (simp add: l_def number_after_def cut_prefix_def has_prefix_def)
  show "refs_of (implement_marker n @ nl @ l n rest) = (0, False)"
    unfolding refs_of_def am(1) option.simps n3 by simp
qed

lemma read_refs:
  assumes "0 \<le> n" and "n < 2 ^ 63"
  shows "part_of (implement_marker n @ nl @ ''Refs #'' @ dec n @ nl @ t) = (0, 0, False)"
    and "refs_of (implement_marker n @ nl @ ''Refs #'' @ dec n @ nl @ t) = (n, True)"
proof -
  note am = after_implement_marker [OF assms(1), of "''Refs #'' @ dec n @ nl @ t"]
  have n1: "number_after ''Refs #'' (''Refs #'' @ dec n @ nl @ t) = Some (dec n, nl @ t)"
    by (rule number_after_dec [OF assms(1)]) (simp add: nl_def is_digit_def)
  have n2: "number_after ''Part of #'' (''Refs #'' @ x) = None" for x
    by (simp add: number_after_def cut_prefix_def has_prefix_def)
  show "part_of (implement_marker n @ nl @ ''Refs #'' @ dec n @ nl @ t) = (0, 0, False)"
    unfolding part_of_def am(1) option.simps n2 by simp
  show "refs_of (implement_marker n @ nl @ ''Refs #'' @ dec n @ nl @ t) = (n, True)"
    unfolding refs_of_def am(1) option.simps n1 prod.simps using line_ends_nl assms by (simp add: atoi_dec)
qed

lemma read_closes:
  assumes "0 \<le> n"
  shows "part_of (implement_marker n @ nl @ ''Closes #'' @ x) = (0, 0, False)" and "refs_of (implement_marker n @ nl @ ''Closes #'' @ x) = (0, False)"
proof -
  have n1: "number_after ''Refs #'' (''Closes #'' @ x) = None" "number_after ''Part of #'' (''Closes #'' @ x) = None"
    by (simp_all add: number_after_def cut_prefix_def has_prefix_def)
  show "part_of (implement_marker n @ nl @ ''Closes #'' @ x) = (0, 0, False)" "refs_of (implement_marker n @ nl @ ''Closes #'' @ x) = (0, False)"
    unfolding part_of_def refs_of_def after_implement_marker(1) [OF assms] option.simps n1 by simp_all
qed


end
