(* ===== verification/Implement.thy ===== *)
theory Implement
  imports Implement_Text Delivery
begin

text \<open>
  The implement job kind, \<^verbatim>\<open>internal/implement/\<close>: an issue taken, worked on by a model in a
  checkout of its own, gated, pushed, opened as a pull request, watched through CI and its advisory
  review, and handed off or handed back. Eleven transitions over eleven states, each a step on the
  job's bench; the gate is the machine of \<^verbatim>\<open>Delivery\<close>. The templates of the prompts are given what
  the code gives them, and what package \<^verbatim>\<open>premise\<close> fetches is a parameter.
\<close>

subsection \<open>The kind\<close>

definition Claiming :: string where "Claiming = ''claiming''"
definition Implementing :: string where "Implementing = ''implementing''"
definition Opening :: string where "Opening = ''opening''"

record imp_delivery = delivery +
  ip_description :: string
  ip_lines :: int
  ip_tests :: int
  ip_sensitive :: "touched list"
  ip_cut :: bool
  ip_cutting :: bool
  ip_uncut :: string
  ip_remainder :: string
  ip_unmet :: string
  ip_premises :: bool
  ip_rest :: int
  ip_blocked :: bool
  ip_unblocked :: bool

datatype imp_template = WholePrompt | RetryPrompt | CutPrompt | CorrectPrompt

record prompt_values =
  pm_number :: int
  pm_branch :: string
  pm_gate :: string
  pm_failed :: bool
  pm_why :: string
  pm_whole :: bool
  pm_signal :: int
  pm_opened :: bool
  pm_cutting :: bool
  pm_lines :: int
  pm_tests :: int
  pm_kept :: string
  pm_correcting :: bool
  pm_reviewed :: string
  pm_premises :: bool

record imp_env =
  ie_params :: delivery_env
  ie_prefix :: string
  ie_procedure :: string
  ie_render :: "imp_template \<Rightarrow> prompt_values \<Rightarrow> string io"
  ie_premises :: "string \<Rightarrow> bool io"
  ie_prepare :: prepare_env
  ie_nonce :: "string io"
  ie_issues :: "gh_error + gh_issue list"
  ie_issues_later :: "gh_error + gh_issue list"
  ie_blockers :: "int \<Rightarrow> gh_error + gh_issue list"
  ie_blockers_later :: "int \<Rightarrow> gh_error + gh_issue list"
  ie_create_pr :: "new_pull_request \<Rightarrow> gh_error option"
  ie_create_issue :: "string \<Rightarrow> string \<Rightarrow> gh_error option"
  ie_block :: "int \<Rightarrow> int \<Rightarrow> gh_error option"

type_synonym 'a imp_step = "(imp_delivery, int, 'a) bench_step"

definition imp_book :: "imp_env \<Rightarrow> book" where
  "imp_book v = delivery_book (ie_params v) False"

subsection \<open>The agent's pull requests\<close>

definition find_open :: "string \<Rightarrow> (pull_request \<Rightarrow> bool) \<Rightarrow> pull_request list \<Rightarrow> pull_request option" where
  "find_open login match prs = find (\<lambda>pr. equal_fold (pr_login pr) login \<and> match pr) prs"

definition opened :: "delivery_env \<Rightarrow> (pull_request \<Rightarrow> bool) \<Rightarrow> ('p, 'q, pull_request option) bench_step" where
  "opened v match = lift_sum DlTracker (map_sum id (find_open (dl_login v) match) (dl_open_prs v))"

definition for_issue :: "imp_env \<Rightarrow> int \<Rightarrow> pull_request \<Rightarrow> bool" where
  "for_issue v n pr \<longleftrightarrow> branch_issue (ie_prefix v) (pr_head_ref pr) = Some n"

definition from_branch :: "string \<Rightarrow> pull_request \<Rightarrow> bool" where
  "from_branch branch pr \<longleftrightarrow> pr_head_ref pr = branch"

subsection \<open>Instructions\<close>

definition imp_instructions :: "imp_env \<Rightarrow> int \<Rightarrow> string imp_step" where
  "imp_instructions v n =
     and_then (look bn_request) (\<lambda>f.
     case f of
       Absent \<Rightarrow> give ''''
     | Unreadable e \<Rightarrow> halt (DlFile e)
     | Kept a \<Rightarrow>
         if a = 0 then give ''''
         else and_then (lift_sum DlTracker (ot_comments (dl_tracker (ie_params v)) n)) (\<lambda>cs.
           give (case find (\<lambda>c. cm_id c = a) cs of None \<Rightarrow> '''' | Some c \<Rightarrow> instructions_of c)))"

definition save_request :: "imp_env \<Rightarrow> gh_comment list \<Rightarrow> unit imp_step" where
  "save_request v commands =
     and_then (unless_error DlFile (dl_file_error (ie_params v) ''requests'')) (\<lambda>_.
     alter (\<lambda>s. s\<lparr>bn_request := Kept (if commands = [] then 0 else cm_id (last commands))\<rparr>))"

subsection \<open>Claiming\<close>

definition already_open :: "int \<Rightarrow> pull_request \<Rightarrow> gh_comment \<Rightarrow> owed_item" where
  "already_open n pr c = reply_item (''open-pr-comment-'' @ dec (cm_id c)) n c
     (''Already implemented in #'' @ dec (pr_number pr) @ '', which is still open. Comment on that pull request, or close it and '' @
      tick implement_word @ '' again to start over.'')"

definition imp_claim :: "imp_env \<Rightarrow> job \<Rightarrow> instant \<Rightarrow> result imp_step" where
  "imp_claim v j now =
     (let n = sub_number (j_subject j); d = ie_params v; tk = dl_tracker d; b = imp_book v in
      and_then (lift_sum DlTracker (dl_issue d n)) (\<lambda>is1.
      if is_pull_request is1 then halt (DlRefused (''#'' @ dec n @ '' is a pull request, not an issue''))
      else
      and_then (lift_sum DlTracker (ot_comments tk n)) (\<lambda>comments.
      and_then (lift_sum DlOwed (unanswered b tk comments implement_word)) (\<lambda>commands.
      let items = map claim_comment commands in
      if is_state is1 \<noteq> ''open''
      then owes b j now Claiming \<lparr>or_next = Start_state, or_due = False, or_items = items\<rparr>
      else
      let items = items @ [claim_issue n] in
      and_then (opened d (for_issue v n)) (\<lambda>pr.
      case pr of
        Some pr \<Rightarrow> owes b j now Claiming \<lparr>or_next = Start_state, or_due = False,
            or_items = items @ map (already_open n pr) commands\<rparr>
      | None \<Rightarrow>
          and_then (clear_job d) (\<lambda>_.
          and_then (save_request v commands) (\<lambda>_.
          owes b j now Claiming \<lparr>or_next = Implementing, or_due = True, or_items = items\<rparr>)))))))"

definition imp_claimed :: "imp_env \<Rightarrow> job \<Rightarrow> instant \<Rightarrow> result imp_step" where
  "imp_claimed v j now = settles (imp_book v) (dl_tracker (ie_params v)) j now (goes_to Start_state now)"

definition imp_handed_back :: "imp_env \<Rightarrow> job \<Rightarrow> instant \<Rightarrow> result imp_step" where
  "imp_handed_back v j now =
     and_then (clear_job (ie_params v)) (\<lambda>_.
     settles (imp_book v) (dl_tracker (ie_params v)) j now (rests_in Start_state))"

subsection \<open>Handing back\<close>

definition imp_owe_issue :: "imp_env \<Rightarrow> job \<Rightarrow> instant \<Rightarrow> imp_delivery \<Rightarrow> string \<Rightarrow> result imp_step" where
  "imp_owe_issue v j now p body =
     (let n = sub_number (j_subject j); key = pg_nonce (dv_progress p);
          marker = issue_hand_back_marker n (pg_branch (dv_progress p)) key in
      and_then (discard (ie_params v)) (\<lambda>_.
      owes (imp_book v) j now HandingBack \<lparr>or_next = Start_state, or_due = False, or_items =
        [said_item (''hand-back-issue-'' @ dec n @ ''-'' @ key) n marker body,
         label_item (''hand-back-label-issue-'' @ dec n @ ''-'' @ key) n (dl_back_label (ie_params v))]\<rparr>))"

definition what_next :: "imp_delivery \<Rightarrow> string" where
  "what_next p =
     (let q = dv_progress p; branch = tick (pg_branch q); whole = tick (whole_branch (pg_branch q));
          pushed = tick (git_short (pg_pushed q)); uncut = tick (git_short (ip_uncut p)) in
      if pg_pushed q \<noteq> '''' \<and> ip_uncut p \<noteq> ''''
      then branch @ '' is on the remote at '' @ pushed @ '', cut to a first piece, and '' @ whole @ '' at '' @ uncut @
        '' is the work as it was before the cut, with no pull request for either. Open one from either by hand, or '' @
        tick implement_word @ '' again to start over on a new branch.''
      else if pg_pushed q \<noteq> ''''
      then branch @ '' is on the remote at '' @ pushed @ '', with no pull request. Open one by hand, or '' @
        tick implement_word @ '' again to start over on a new branch.''
      else if ip_uncut p \<noteq> ''''
      then ''The cut was not pushed. '' @ whole @ '' is on the remote at '' @ uncut @
        '', the work as it was before it went back to be cut, with no pull request. Open one from it by hand, or '' @
        tick implement_word @ '' again to start over on a new branch.''
      else ''Nothing was pushed. Reshape the issue and '' @ tick implement_word @ '' again, or take it by hand.'')"

definition imp_hand_back_issue :: "imp_env \<Rightarrow> job \<Rightarrow> instant \<Rightarrow> imp_delivery \<Rightarrow> string \<Rightarrow> string \<Rightarrow> result imp_step" where
  "imp_hand_back_issue v j now p reason output =
     (let n = sub_number (j_subject j);
          marker = issue_hand_back_marker n (pg_branch (dv_progress p)) (pg_nonce (dv_progress p)) in
      imp_owe_issue v j now p (hand_back_body (dl_float (ie_params v)) marker ''''
        (''I stopped without opening a pull request. '' @ reason) '''' output (what_next p) (dv_spent p)))"

definition imp_hand_back_pr :: "imp_env \<Rightarrow> job \<Rightarrow> instant \<Rightarrow> string \<Rightarrow> spent \<Rightarrow> int \<Rightarrow> string \<Rightarrow> string \<Rightarrow> string \<Rightarrow>
    result imp_step" where
  "imp_hand_back_pr v j now branch s pr key reason output =
     (let n = sub_number (j_subject j) in
      hands_back (ie_params v) (imp_book v) j now
        \<lparr>hb_label = dl_back_label (ie_params v), hb_number = pr, hb_key = key,
         hb_marker = issue_hand_back_marker n branch key, hb_also = '''',
         hb_stopped = ''I stopped before handing this pull request off. '' @ reason,
         hb_next = ''The pull request stays open: finish the branch by hand, or close it and '' @ tick implement_word @
           '' again on #'' @ dec n @ ''.'',
         hb_detail = '''', hb_output = output, hb_spent = s, hb_handing_back = HandingBack, hb_rest = Start_state\<rparr>)"

definition hand_back_of :: "imp_env \<Rightarrow> job \<Rightarrow> instant \<Rightarrow> imp_delivery \<Rightarrow> int \<Rightarrow> string \<Rightarrow> string \<Rightarrow> result imp_step" where
  "hand_back_of v j now p pr reason output =
     imp_hand_back_pr v j now (pg_branch (dv_progress p)) (dv_spent p) pr (pg_nonce (dv_progress p)) reason output"

definition imp_hand_back :: "imp_env \<Rightarrow> job \<Rightarrow> instant \<Rightarrow> imp_delivery \<Rightarrow> string \<Rightarrow> string \<Rightarrow> result imp_step" where
  "imp_hand_back v j now p reason output =
     (if pg_pushed (dv_progress p) \<noteq> ''''
      then and_then (opened (ie_params v) (from_branch (pg_branch (dv_progress p)))) (\<lambda>pr.
        case pr of
          None \<Rightarrow> and_then (clear_job (ie_params v)) (\<lambda>_. give (rests_in Start_state))
        | Some pr \<Rightarrow> hand_back_of v j now p (pr_number pr) reason output)
      else imp_hand_back_issue v j now p reason output)"

text \<open>Work past its push whose record is gone.\<close>

definition lost_reason :: string where
  "lost_reason = ''The agent lost its record of the work - its state directory was wiped - so it cannot watch CI or fix what CI finds.''"

definition imp_lost :: "imp_env \<Rightarrow> job \<Rightarrow> instant \<Rightarrow> result imp_step" where
  "imp_lost v j now =
     and_then (attempted (opened (ie_params v) (for_issue v (sub_number (j_subject j))))) (\<lambda>x.
     case x of
       Inl e \<Rightarrow> and_then (attempted (clear_job (ie_params v))) (\<lambda>_. halt e)
     | Inr None \<Rightarrow> and_then (clear_job (ie_params v)) (\<lambda>_. give (rests_in Start_state))
     | Inr (Some pr) \<Rightarrow> imp_hand_back_pr v j now (pr_head_ref pr) [] (pr_number pr) (''lost-'' @ pr_head_sha pr) lost_reason '''')"

definition imp_fail_correction :: "imp_env \<Rightarrow> job \<Rightarrow> instant \<Rightarrow> imp_delivery \<Rightarrow> correction \<Rightarrow> string \<Rightarrow> result imp_step" where
  "imp_fail_correction v j now p c why = fail_correction (ie_params v) Implementing (imp_lost v j now) now p c why"

definition imp_stop :: "imp_env \<Rightarrow> job \<Rightarrow> instant \<Rightarrow> imp_delivery \<Rightarrow> string \<Rightarrow> string \<Rightarrow> result imp_step" where
  "imp_stop v j now p reason output =
     (case dv_correction p of
        Some c \<Rightarrow> if correction_running (Some c) then imp_fail_correction v j now p c reason
                  else imp_hand_back v j now p reason output
      | None \<Rightarrow> imp_hand_back v j now p reason output)"

text \<open>A session's questions, cut to fit.\<close>

definition gaps_stopped :: string where
  "gaps_stopped = ''I stopped without opening a pull request. The session checked the issue before its first edit and found gaps it could not settle with nobody to ask, so it changed nothing. Its questions, each with its recommended answer:''"

definition gaps_next :: string where
  "gaps_next = ''Nothing was pushed. Answer with '' @ tick (implement_word @ '' <answers>'') @
     '', and the next session reads your answers as the more recent word than the issue. Or edit the issue and '' @
     tick implement_word @ '' again, or take it by hand.''"

definition gaps_body :: "float_text \<Rightarrow> string \<Rightarrow> spent \<Rightarrow> string \<Rightarrow> string" where
  "gaps_body ft marker s q = hand_back_body ft marker '''' gaps_stopped q '''' gaps_next s"

definition fitted_questions :: "float_text \<Rightarrow> string \<Rightarrow> spent \<Rightarrow> string \<Rightarrow> string" where
  "fitted_questions ft marker s q =
     (if over_limit (gaps_body ft marker s q)
      then cut_text q (65536 - int (rune_count (gaps_body ft marker s ''''))) else q)"

definition imp_gaps :: "imp_env \<Rightarrow> job \<Rightarrow> instant \<Rightarrow> imp_delivery \<Rightarrow> result option imp_step" where
  "imp_gaps v j now p =
     (let d = ie_params v;
          q = (case read_questions (dl_git_file d ''afk-questions.md'') of Inl e \<Rightarrow> '''' | Inr q \<Rightarrow> q);
          marker = issue_hand_back_marker (sub_number (j_subject j)) (pg_branch (dv_progress p)) (pg_nonce (dv_progress p)) in
      if q = '''' then give None
      else and_then (imp_owe_issue v j now p
          (gaps_body (dl_float d) marker (dv_spent p) (fitted_questions (dl_float d) marker (dv_spent p) q))) (\<lambda>r.
        give (Some r)))"

subsection \<open>The workspace\<close>

definition fresh_progress :: "string \<Rightarrow> string \<Rightarrow> string \<Rightarrow> string \<Rightarrow> imp_delivery" where
  "fresh_progress nonce branch base into =
     \<lparr>dv_progress = \<lparr>pg_nonce = nonce, pg_branch = branch, pg_base = base, pg_into = into, pg_head = '''', pg_pushed = '''',
        pg_pushed_at = 0, pg_session = '''', pg_last_input = 0, pg_attempts = 0, pg_failure = '''', pg_why = '''',
        pg_fixes = 0, pg_fixed_head = ''''\<rparr>,
      dv_correction = None, dv_spent = [], ip_description = '''', ip_lines = 0, ip_tests = 0, ip_sensitive = [],
      ip_cut = False, ip_cutting = False, ip_uncut = '''', ip_remainder = '''', ip_unmet = '''', ip_premises = False,
      ip_rest = 0, ip_blocked = False, ip_unblocked = False\<rparr>"

text \<open>A checkout is there from the clone on, whatever becomes of the rest.\<close>

definition prepared :: "imp_env \<Rightarrow> int \<Rightarrow> (string \<times> string \<times> string) imp_step" where
  "prepared v n s =
     (let t = (case pe_clone (ie_prepare v) of Inl e \<Rightarrow> s | Inr into \<Rightarrow> s\<lparr>bn_exists := True\<rparr>) in
      case prepare (ie_prepare v) (ie_prefix v) n of
        None \<Rightarrow> None
      | Some x \<Rightarrow> Some (map_sum DlGit id x, t))"

definition fresh_workspace :: "imp_env \<Rightarrow> int \<Rightarrow> imp_delivery imp_step" where
  "fresh_workspace v n =
     (let d = ie_params v in
      and_then (clear_job d) (\<lambda>_.
      and_then (unless_error DlFile (dl_file_error d ''make workspace'')) (\<lambda>_.
      and_then (prepared v n) (\<lambda>(branch, base, into).
      and_then (lift_sum DlFile (ie_nonce v)) (\<lambda>nonce.
      let p = fresh_progress nonce branch base into in
      and_then (save_progress d p) (\<lambda>_. give p))))))"

text \<open>\<open>None\<close> is work pushed whose workspace or progress is gone.\<close>

definition imp_workspace :: "imp_env \<Rightarrow> job \<Rightarrow> imp_delivery option imp_step" where
  "imp_workspace v j =
     (let n = sub_number (j_subject j); d = ie_params v in
      and_then (load_progress (j_id j)) (\<lambda>found.
      and_then (look bn_exists) (\<lambda>there.
      case found of
        Some p \<Rightarrow>
          if there \<and> ws_branch (dl_workspace d) = Inr (pg_branch (dv_progress p)) then give (Some p)
          else if pg_pushed (dv_progress p) \<noteq> '''' then give None
          else and_then (fresh_workspace v n) (\<lambda>p. give (Some p))
      | None \<Rightarrow>
          and_then (opened d (for_issue v n)) (\<lambda>pr.
          if pr \<noteq> None then give None
          else and_then (fresh_workspace v n) (\<lambda>p. give (Some p))))))"

text \<open>The first error of removing what an unfinished session left.\<close>

definition session_files :: "string list" where
  "session_files = [''afk-description.md'', ''afk-remainder.md'', ''afk-unmet.md'', ''afk-questions.md'']"

definition imp_reset :: "imp_env \<Rightarrow> imp_delivery \<Rightarrow> unit imp_step" where
  "imp_reset v p =
     (let q = dv_progress p; d = ie_params v in
      if pg_session q = '''' \<and> pg_failure q = '''' \<and> \<not> ip_cut p
      then and_then (unless_error DlGit (dl_reset d (if pg_pushed q \<noteq> '''' then pg_pushed q else pg_base q))) (\<lambda>_.
        unless_error DlFile (first_error (dl_git_remove d) session_files))
      else give ())"

subsection \<open>The session\<close>

definition issue_file :: "gh_issue \<Rightarrow> string \<Rightarrow> string" where
  "issue_file is1 instructions =
     ''# Issue #'' @ dec (is_number is1) @ '': '' @ is_title is1 @ nl @ nl @
     (if trim_space (is_body is1) = '''' then ''(no description)'' @ nl else is_body is1 @ nl) @
     (if instructions \<noteq> '''' then nl @ ''# Instructions from the person who asked'' @ nl @ nl @ instructions @ nl else '''')"

definition imp_spec :: "imp_env \<Rightarrow> int \<Rightarrow> (string \<times> string) imp_step" where
  "imp_spec v n =
     and_then (lift_sum DlTracker (dl_issue (ie_params v) n)) (\<lambda>is1.
     and_then (imp_instructions v n) (\<lambda>instructions.
     and_then (unless_error DlFile (dl_git_write (ie_params v) ''afk-issue.md'')) (\<lambda>_.
     give (instructions, is_body is1))))"

definition prompt_of :: "imp_env \<Rightarrow> int \<Rightarrow> imp_delivery \<Rightarrow> bool \<Rightarrow> prompt_values" where
  "prompt_of v n p whole = (let q = dv_progress p in
     \<lparr>pm_number = n, pm_branch = pg_branch q, pm_gate = dl_gate (ie_params v), pm_failed = (pg_failure q \<noteq> ''''),
      pm_why = pg_why q, pm_whole = whole, pm_signal = dl_signal (ie_params v), pm_opened = (pg_pushed q \<noteq> ''''),
      pm_cutting = ip_cutting p, pm_lines = ip_lines p, pm_tests = ip_tests p, pm_kept = whole_branch (pg_branch q),
      pm_correcting = correction_running (dv_correction p),
      pm_reviewed = (case dv_correction p of None \<Rightarrow> '''' | Some c \<Rightarrow> co_reviewed c), pm_premises = ip_premises p\<rparr>)"

text \<open>Only a failure, a cut or a correction not yet given continues a session.\<close>

definition correcting_now :: "imp_delivery \<Rightarrow> bool" where
  "correcting_now p \<longleftrightarrow> (case dv_correction p of None \<Rightarrow> False | Some c \<Rightarrow> co_failed c = '''' \<and> \<not> co_given c)"

definition continues_session :: "imp_delivery \<Rightarrow> bool" where
  "continues_session p \<longleftrightarrow> pg_session (dv_progress p) \<noteq> '''' \<and>
     (pg_failure (dv_progress p) \<noteq> '''' \<or> ip_cutting p \<or> correcting_now p)"

definition template_for :: "imp_delivery \<Rightarrow> imp_template" where
  "template_for p =
     (if \<not> continues_session p then WholePrompt
      else if ip_cutting p then CutPrompt
      else if correcting_now p then CorrectPrompt
      else RetryPrompt)"

definition forgotten :: "imp_delivery \<Rightarrow> imp_delivery" where
  "forgotten p = p\<lparr>dv_progress := (dv_progress p)\<lparr>pg_session := '''', pg_last_input := 0\<rparr>\<rparr>"

text \<open>A run: its answer, and the progress with the session forgotten if it was.\<close>

definition imp_tier_run :: "imp_env \<Rightarrow> job \<Rightarrow> instant \<Rightarrow> ref \<Rightarrow> imp_delivery \<Rightarrow> bool \<Rightarrow> (tier_ran \<times> run_request \<times> imp_delivery) imp_step" where
  "imp_tier_run v j now r p whole =
     (let n = sub_number (j_subject j); d = ie_params v; q = dv_progress p in
      and_then (lift_sum DlRender (ie_render v (template_for p) (prompt_of v n p whole))) (\<lambda>txt.
      let req = \<lparr>rr_model = r, rr_dir = j_id j, rr_prompt = txt,
            rr_session = (if continues_session p then pg_session q else ''''), rr_cost = True\<rparr>;
          fresh = (\<lambda>_ :: nat. case dl_file_error d ''progress'' of Some e \<Rightarrow> Inl e
            | None \<Rightarrow> ie_render v WholePrompt (prompt_of v n (forgotten p) whole));
          u = tier_run (dl_tier d) (dl_candidates_after d) j now (dl_model d) req (pg_last_input q) fresh Implementing Deferred;
          p' = (if tu_forgot u = 0 then p else forgotten p) in
      and_then (if tu_forgot u = 0 \<or> dl_file_error d ''progress'' \<noteq> None then give () else save_progress d p') (\<lambda>_.
      case tu_error u of
        Some e \<Rightarrow> halt (DlSession e)
      | None \<Rightarrow> give (u, req, p'))))"

definition with_spent :: "imp_env \<Rightarrow> ref \<Rightarrow> run_reply \<Rightarrow> imp_delivery \<Rightarrow> imp_delivery" where
  "with_spent v r a p = p\<lparr>dv_spent := spend_add (dl_prices (ie_params v)) r a (dv_spent p)\<rparr>"

text \<open>A failed run: the size its session grew to, and what it spent, kept if they can be.\<close>

definition run_failed_with :: "imp_env \<Rightarrow> tier_ran \<Rightarrow> run_request \<Rightarrow> imp_delivery \<Rightarrow> result imp_step" where
  "run_failed_with v u req p =
     (let q = dv_progress p;
          p = (if rr_session req \<noteq> '''' \<and> pg_session q \<noteq> '''' \<and> 0 < oc_last_input (tu_reply u)
               then p\<lparr>dv_progress := q\<lparr>pg_last_input := oc_last_input (tu_reply u)\<rparr>\<rparr> else p) in
      and_then (attempted (save_progress (ie_params v) p)) (\<lambda>_. give (tu_result u)))"

definition given_to :: "correction option \<Rightarrow> correction option" where
  "given_to c = (case c of None \<Rightarrow> None | Some x \<Rightarrow> if co_failed x = '''' then Some (x\<lparr>co_given := True\<rparr>) else Some x)"

definition or_nothing :: "string io \<Rightarrow> string" where
  "or_nothing x = (case x of Inl e \<Rightarrow> '''' | Inr s \<Rightarrow> s)"

text \<open>The session as it left the work.\<close>

definition session_left :: "imp_env \<Rightarrow> bool \<Rightarrow> run_reply \<Rightarrow> imp_delivery \<Rightarrow> imp_delivery" where
  "session_left v whole a p =
     (let d = ie_params v;
          p = p\<lparr>dv_progress := (dv_progress p)\<lparr>pg_session := oc_session a, pg_last_input := oc_last_input a\<rparr>,
                ip_cutting := False, dv_correction := given_to (dv_correction p)\<rparr>;
          p = (if pg_pushed (dv_progress p) = ''''
               then p\<lparr>ip_remainder := (if whole then '''' else or_nothing (read_said (dl_git_file d ''afk-remainder.md''))),
                      ip_unmet := or_nothing (read_said (dl_git_file d ''afk-unmet.md''))\<rparr>
               else p)
      in p\<lparr>ip_description := or_nothing (dl_git_file d ''afk-description.md'')\<rparr>)"

text \<open>What is written into the checkout before the session: the failure, and the findings.\<close>

definition imp_given :: "imp_env \<Rightarrow> imp_delivery \<Rightarrow> unit imp_step" where
  "imp_given v p =
     (let d = ie_params v in
      and_then (unless_error DlFile (if pg_failure (dv_progress p) \<noteq> '''' then dl_git_write d ''afk-gate.log'' else None)) (\<lambda>_.
      unless_error DlFile (if correction_running (dv_correction p) then dl_git_write d ''afk-findings.md'' else None)))"

definition imp_session :: "imp_env \<Rightarrow> job \<Rightarrow> instant \<Rightarrow> ref \<Rightarrow> imp_delivery \<Rightarrow> result imp_step" where
  "imp_session v j now r p =
     and_then (imp_reset v p) (\<lambda>_.
     and_then (imp_spec v (sub_number (j_subject j))) (\<lambda>(instructions, body).
     and_then (lift_sum DlFile (ie_premises v body)) (\<lambda>premises.
     let p = p\<lparr>ip_premises := premises\<rparr>; whole = whole_asked instructions in
     and_then (imp_given v p) (\<lambda>_.
     and_then (imp_tier_run v j now r p whole) (\<lambda>(u, req, p).
     let p = with_spent v r (tu_reply u) p in
     if \<not> tu_ok u then run_failed_with v u req p
     else and_then (save_progress (ie_params v) (session_left v whole (tu_reply u) p)) (\<lambda>_.
       give (goes_to Gating now)))))))"

definition imp_run :: "imp_env \<Rightarrow> job \<Rightarrow> instant \<Rightarrow> result imp_step" where
  "imp_run v j now =
     (let d = ie_params v in
      and_then (lift_sum DlResolve (tier_choose (dl_tier d) (dl_candidates d) j now Deferred)) (\<lambda>x.
      case x of
        Inr res \<Rightarrow> give res
      | Inl r \<Rightarrow>
          and_then (imp_workspace v j) (\<lambda>found.
          case found of
            None \<Rightarrow> imp_lost v j now
          | Some p \<Rightarrow> imp_session v j now r p)))"

subsection \<open>The gate\<close>

definition imp_nothing :: "imp_delivery \<Rightarrow> bool \<Rightarrow> string" where
  "imp_nothing p fix_made =
     (if fix_made then ''The session committed nothing since '' @ tick (git_short (pg_pushed (dv_progress p))) @
        '', the agent's last push, so there is no fix to push.''
      else ''The session finished without committing anything, so there is nothing to push.'')"

definition imp_gone :: "imp_env \<Rightarrow> job \<Rightarrow> instant \<Rightarrow> result imp_step" where
  "imp_gone v j now = and_then (clear_job (ie_params v)) (\<lambda>_. give (goes_to Implementing now))"

definition imp_kind :: "imp_env \<Rightarrow> (unit imp_delivery_ext, int) delivery_kind" where
  "imp_kind v = \<lparr>kd_job = KindImplement, kd_session = Implementing, kd_hand_back = Some (imp_hand_back v),
     kd_gone = Some (imp_gone v), kd_lost = Some (imp_lost v), kd_nothing = Some imp_nothing, kd_anchor = None,
     kd_rewrote = None, kd_gaps = Some (imp_gaps v)\<rparr>"

definition imp_resume :: "imp_env \<Rightarrow> job \<Rightarrow> instant \<Rightarrow> result imp_step" where
  "imp_resume v j now = give (goes_to Implementing now)"

subsection \<open>The push\<close>

definition denied_reason :: "string list \<Rightarrow> string" where
  "denied_reason bad = ''The work touches '' @ quoted_paths bad @ '', which the denylist does not let the agent push.''"

definition imp_whole :: "imp_env \<Rightarrow> job \<Rightarrow> bool imp_step" where
  "imp_whole v j = and_then (imp_instructions v (sub_number (j_subject j))) (\<lambda>i. give (whole_asked i))"

definition whole_stem :: "string \<Rightarrow> string \<Rightarrow> string" where
  "whole_stem branch head = ''whole-'' @ branch @ ''-'' @ head"

definition imp_keep_whole :: "imp_env \<Rightarrow> instant \<Rightarrow> imp_delivery \<Rightarrow> string \<Rightarrow> result option imp_step" where
  "imp_keep_whole v now p head =
     (let d = ie_params v; branch = pg_branch (dv_progress p); whole = whole_branch branch in
      and_then (lift_sum DlGit (dl_remote d whole)) (\<lambda>at_head.
      if at_head = head
      then and_then (save_progress d (p\<lparr>ip_uncut := head, ip_cut := True, ip_cutting := True,
             dv_progress := (dv_progress p)\<lparr>pg_attempts := 0\<rparr>\<rparr>)) (\<lambda>_. give (Some (goes_to Implementing now)))
      else if at_head \<noteq> '''' then give None
      else and_then (next_key d (whole_stem branch head) 0) (\<lambda>k.
        case k of
          Inl n \<Rightarrow> give None
        | Inr key \<Rightarrow> give (Some (goes_with Pushing now [Effect key (Some (\<lambda>b. (dl_push d head whole '''', b)))])))))"

text \<open>The commit the push would send, checked: \<open>Some\<close> is where the job goes instead.\<close>

definition imp_vet :: "imp_env \<Rightarrow> job \<Rightarrow> instant \<Rightarrow> imp_delivery \<Rightarrow> string \<Rightarrow> result option imp_step" where
  "imp_vet v j now p head =
     (let d = ie_params v; q = dv_progress p in
      and_then (case dv_correction p of
          Some c \<Rightarrow>
            if correction_running (Some c)
            then and_then (lift_sum DlGit (dl_ancestor d (co_reviewed c) head)) (\<lambda>kept.
              if kept then give None
              else and_then (imp_stop v j now p (correction_rewrote c) '''') (\<lambda>r. give (Some r)))
            else give None
        | None \<Rightarrow> give None) (\<lambda>stopped.
      case stopped of
        Some r \<Rightarrow> give (Some r)
      | None \<Rightarrow>
          and_then (lift_sum DlGit (touched_paths (dl_touched d (pg_base q) head))) (\<lambda>paths.
          let bad = denied (dl_denylist d) paths in
          if bad = [] then give None
          else and_then (imp_stop v j now p (denied_reason bad) '''') (\<lambda>r. give (Some r)))))"

text \<open>Work over the size signal before its first push goes back to be cut, once.\<close>

definition imp_cuts :: "imp_env \<Rightarrow> job \<Rightarrow> instant \<Rightarrow> imp_delivery \<Rightarrow> string \<Rightarrow> count \<Rightarrow> result option imp_step" where
  "imp_cuts v j now p head c =
     (if over_signal c (dl_signal (ie_params v)) \<and> \<not> ip_cut p \<and> pg_pushed (dv_progress p) = ''''
      then and_then (imp_whole v j) (\<lambda>whole.
        if whole then give None else imp_keep_whole v now p head)
      else give None)"

definition imp_sensitive :: "imp_env \<Rightarrow> imp_delivery \<Rightarrow> string \<Rightarrow> touched list imp_step" where
  "imp_sensitive v p head =
     (let d = ie_params v in
      if dl_sensitive d = [] then give []
      else and_then (lift_sum DlGit (changed_paths (dl_changed d (pg_base (dv_progress p)) head))) (\<lambda>paths.
        give (touches (dl_sensitive d) paths)))"

definition imp_pushes :: "imp_env \<Rightarrow> job \<Rightarrow> instant \<Rightarrow> imp_delivery \<Rightarrow> string \<Rightarrow> result imp_step" where
  "imp_pushes v j now p head =
     (let d = ie_params v in
      and_then (push_round_of d (dv_progress p) head (correction_push_from (dv_correction p) head)) (\<lambda>k.
      case k of
        Inl (n, note) \<Rightarrow> imp_stop v j now p (unlanded_said n head (pg_branch (dv_progress p))) note
      | Inr e \<Rightarrow>
          and_then (save_progress d (p\<lparr>dv_progress := (dv_progress p)\<lparr>pg_head := head\<rparr>\<rparr>)) (\<lambda>_.
          give (goes_with Opening now [e]))))"

definition imp_push_work :: "imp_env \<Rightarrow> job \<Rightarrow> instant \<Rightarrow> imp_delivery \<Rightarrow> result imp_step" where
  "imp_push_work v j now p =
     (let d = ie_params v in
      and_then (lift_sum DlGit (dl_relay d (pg_branch (dv_progress p)))) (\<lambda>head.
      and_then (imp_vet v j now p head) (\<lambda>stopped.
      case stopped of
        Some r \<Rightarrow> give r
      | None \<Rightarrow>
          and_then (measured d (pg_base (dv_progress p)) head) (\<lambda>c.
          let p = p\<lparr>ip_lines := ct_lines c, ip_tests := ct_tests c\<rparr> in
          and_then (imp_cuts v j now p head c) (\<lambda>sent_back.
          case sent_back of
            Some r \<Rightarrow> give r
          | None \<Rightarrow>
              and_then (imp_sensitive v p head) (\<lambda>ts.
              imp_pushes v j now (p\<lparr>ip_sensitive := ts\<rparr>) head))))))"

definition imp_push :: "imp_env \<Rightarrow> job \<Rightarrow> instant \<Rightarrow> result imp_step" where
  "imp_push v j now =
     and_then (load_progress (j_id j)) (\<lambda>found.
     and_then (look bn_exists) (\<lambda>there.
     case (if there then found else None) of
       None \<Rightarrow> imp_gone v j now
     | Some p \<Rightarrow>
         if ip_cutting p then give (goes_to Implementing now)
         else (let (r, ok) = machine_over Implementing now p in
           if ok \<and> res_state r \<noteq> Pushing then give r else imp_push_work v j now p)))"

subsection \<open>The rest of a first piece\<close>

definition is_piece :: "imp_delivery \<Rightarrow> bool" where
  "is_piece p \<longleftrightarrow> ip_cut p \<or> ip_remainder p \<noteq> ''''"

definition filed :: "string \<Rightarrow> string \<Rightarrow> gh_issue list \<Rightarrow> int" where
  "filed login marker issues =
     (case find (\<lambda>i. \<not> is_pull_request i \<and> equal_fold (is_author i) login \<and> contains (is_body i) marker) issues of
        None \<Rightarrow> 0 | Some i \<Rightarrow> is_number i)"

definition blocked_already :: "gh_issue list \<Rightarrow> int \<Rightarrow> bool" where
  "blocked_already blockers n \<longleftrightarrow> list_ex (\<lambda>b. is_number b = n) blockers"

definition perform_file :: "imp_env \<Rightarrow> string \<Rightarrow> string \<Rightarrow> string \<Rightarrow> string option" where
  "perform_file v marker title body =
     (let d = ie_params v in
      case ie_issues_later v of
        Inl e \<Rightarrow> Some (dl_gh_text d e)
      | Inr l \<Rightarrow> if filed (dl_login d) marker l \<noteq> 0 then None else map_option (dl_gh_text d) (ie_create_issue v title body))"

definition perform_block :: "imp_env \<Rightarrow> int \<Rightarrow> int \<Rightarrow> int \<Rightarrow> string option" where
  "perform_block v rest n blocker =
     (let d = ie_params v in
      case ie_blockers_later v rest of
        Inl e \<Rightarrow> Some (dl_gh_text d e)
      | Inr l \<Rightarrow> if blocked_already l n then None else map_option (dl_gh_text d) (ie_block v rest blocker))"

text \<open>\<open>Inl\<close> is where the job goes for it, \<open>Inr\<close> the progress once the rest is filed.\<close>

definition imp_file_rest :: "imp_env \<Rightarrow> job \<Rightarrow> instant \<Rightarrow> imp_delivery \<Rightarrow> (result + imp_delivery) imp_step" where
  "imp_file_rest v j now p =
     (let n = sub_number (j_subject j); d = ie_params v; q = dv_progress p; marker = rest_marker n (pg_branch q) in
      if ip_rest p \<noteq> 0 then give (Inr p)
      else
      and_then (lift_sum DlTracker (ie_issues v)) (\<lambda>issues.
      let found = filed (dl_login d) marker issues in
      if found \<noteq> 0
      then (let p = p\<lparr>ip_rest := found\<rparr> in and_then (save_progress d p) (\<lambda>_. give (Inr p)))
      else
      let stem = ''rest-'' @ pg_branch q @ ''-'' @ pg_nonce q in
      and_then (next_key d stem 0) (\<lambda>k.
      case k of
        Inl rounds \<Rightarrow>
          and_then (note_of stem) (\<lambda>note.
          and_then (imp_hand_back_issue v j now p (''The work is the first piece of #'' @ dec n @
            '', and the issue for what is left of it was filed '' @ dec rounds @ '' times and never appeared.'') note) (\<lambda>r.
          give (Inl r)))
      | Inr key \<Rightarrow>
          and_then (lift_sum DlTracker (dl_issue d n)) (\<lambda>is1.
          and_then (noting_effect d key stem (perform_file v marker (rest_title n (is_title is1))
            (rest_body marker n (pg_branch q) (ip_uncut p) (ip_remainder p)))) (\<lambda>e.
          give (Inl (goes_with Opening now [e])))))))"

definition imp_block_rest :: "imp_env \<Rightarrow> job \<Rightarrow> instant \<Rightarrow> imp_delivery \<Rightarrow> (result + imp_delivery) imp_step" where
  "imp_block_rest v j now p =
     (let n = sub_number (j_subject j); d = ie_params v;
          save = (\<lambda>blocked. let p = p\<lparr>ip_blocked := blocked, ip_unblocked := \<not> blocked\<rparr> in
            and_then (save_progress d p) (\<lambda>_. give (Inr p))) in
      if ip_blocked p \<or> ip_unblocked p then give (Inr p)
      else
      and_then (lift_sum DlTracker (ie_blockers v (ip_rest p))) (\<lambda>blockers.
      if blocked_already blockers n then save True
      else
      and_then (next_key d (''rest-blocked-'' @ dec (ip_rest p) @ ''-by-'' @ dec n) 0) (\<lambda>k.
      case k of
        Inl rounds \<Rightarrow> save False
      | Inr key \<Rightarrow>
          and_then (lift_sum DlTracker (dl_issue d n)) (\<lambda>is1.
          give (Inl (goes_with Opening now
            [Effect key (Some (\<lambda>b. (perform_block v (ip_rest p) n (is_id is1), b)))]))))))"

definition imp_rest :: "imp_env \<Rightarrow> job \<Rightarrow> instant \<Rightarrow> imp_delivery \<Rightarrow> (result + imp_delivery) imp_step" where
  "imp_rest v j now p =
     and_then (imp_file_rest v j now p) (\<lambda>x.
     case x of Inl r \<Rightarrow> give (Inl r) | Inr p \<Rightarrow> imp_block_rest v j now p)"

subsection \<open>The pull request\<close>

definition imp_redescribe :: "imp_env \<Rightarrow> instant \<Rightarrow> imp_delivery \<Rightarrow> pull_request \<Rightarrow> result imp_step" where
  "imp_redescribe v now p pr =
     (let d = ie_params v; q = dv_progress p;
          reread = map_sum (dl_gh_text d) (\<lambda>prs. case find_open (dl_login d) (from_branch (pg_branch q)) prs of
              None \<Rightarrow> ('''', False) | Some pr \<Rightarrow> (pr_body pr, True)) (dl_open_later d);
          edit = (\<lambda>body. map_option (dl_gh_text d) (dl_edit_pr d (pr_number pr) body)) in
      and_then (on_world (redescribe (dl_float d) (dl_quote d) (dl_rounds d) reread edit (pr_body pr) (pg_branch q)
        (pg_head q) (ip_sensitive p) (Some (dv_spent p)))) (\<lambda>x.
      and_then (lift_sum DlStore x) (\<lambda>e.
      give (case e of None \<Rightarrow> goes_to Watching now | Some e \<Rightarrow> goes_with Opening now [e]))))"

definition over_reason :: "imp_env \<Rightarrow> imp_delivery \<Rightarrow> string" where
  "over_reason v p =
     ''The work is '' @ dec (ip_lines p) @ '' changed lines, and '' @ dec (ip_tests p) @
     '' changed lines of tests, which is over the size signal of '' @ dec (dl_signal (ie_params v)) @
     '': more than one concern, or more than one sitting's review. '' @
     (if ip_cut p
      then ''It went back to the session once to be cut to a first coherent piece, and is still over: the session found no piece, or cut too little. The branch is what the cut left, and '' @
        tick (whole_branch (pg_branch (dv_progress p))) @
        '' the work before it, both kept: to have either as one pull request, open one from it by hand.''
      else ''The branch is the work, kept: to have it as one pull request, open one from it by hand.'') @
     '' To have it in pieces, split the issue.''"

text \<open>The link line, with what is to be said under it.\<close>

definition imp_link :: "int \<Rightarrow> imp_delivery \<Rightarrow> string" where
  "imp_link n p =
     link_line n (is_piece p) (ip_unmet p \<noteq> '''') (ip_rest p) @
     (if ip_unblocked p then nl @ nl @ unblocked_note n (ip_rest p) else '''') @
     (if ip_unmet p \<noteq> '''' then nl @ nl @ unmet_note n (is_piece p) (ip_unmet p) else '''')"

definition imp_body :: "imp_env \<Rightarrow> int \<Rightarrow> imp_delivery \<Rightarrow> string \<Rightarrow> string" where
  "imp_body v n p session =
     (let d = ie_params v; f = held_footer (dl_float d) (dv_spent p); ts = ip_sensitive p;
          say = (\<lambda>line session. description_text n (imp_link n p) (ie_procedure v) line session f);
          listed = say (sensitive_files (dl_quote d) ts) session;
          counted = (if over_limit listed \<and> ts \<noteq> [] then say (sensitive_counted ts) session else listed)
      in if over_limit counted then say (sensitive_counted ts) '''' else counted)"

definition perform_open :: "imp_env \<Rightarrow> string \<Rightarrow> new_pull_request \<Rightarrow> string option" where
  "perform_open v branch np =
     (let d = ie_params v in
      case dl_open_later d of
        Inl e \<Rightarrow> Some (dl_gh_text d e)
      | Inr prs \<Rightarrow>
          if find_open (dl_login d) (from_branch branch) prs \<noteq> None then None
          else map_option (dl_gh_text d) (ie_create_pr v np))"

definition imp_new_pr :: "imp_env \<Rightarrow> job \<Rightarrow> instant \<Rightarrow> imp_delivery \<Rightarrow> result imp_step" where
  "imp_new_pr v j now p =
     (let n = sub_number (j_subject j); d = ie_params v; q = dv_progress p;
          stem = ''pull-request-'' @ pg_branch q @ ''-'' @ pg_nonce q in
      and_then (next_key d stem 0) (\<lambda>k.
      case k of
        Inl rounds \<Rightarrow>
          and_then (note_of stem) (\<lambda>note.
          imp_hand_back_issue v j now p (''Its pull request was asked for '' @ dec rounds @ '' times and never opened.'') note)
      | Inr key \<Rightarrow>
          and_then (lift_sum DlTracker (dl_issue d n)) (\<lambda>is1.
          and_then (look bn_exists) (\<lambda>there.
          let (title0, session0) = session_part (ip_description p);
              title = (if \<not> is_piece p \<or> title0 = '''' then is_title is1 else title0) in
          and_then (if session0 \<noteq> '''' \<and> there
              then lift_sum DlFile (permalinks (dl_root d) (dl_repo d) (pg_head q) session0) else give session0) (\<lambda>session.
          and_then (noting_effect d key stem (perform_open v (pg_branch q)
            \<lparr>np_title = title, np_head = pg_branch q, np_base = pg_into q, np_body = imp_body v n p session\<rparr>)) (\<lambda>e.
          give (goes_with Opening now [e])))))))"

definition imp_opens :: "imp_env \<Rightarrow> job \<Rightarrow> instant \<Rightarrow> imp_delivery \<Rightarrow> result imp_step" where
  "imp_opens v j now p =
     (let d = ie_params v in
      and_then (if over_signal \<lparr>ct_lines = ip_lines p, ct_tests = ip_tests p\<rparr> (dl_signal d)
          then and_then (imp_whole v j) (\<lambda>whole. give (\<not> whole)) else give False) (\<lambda>too_big.
      if too_big then imp_hand_back_issue v j now p (over_reason v p) ''''
      else
      and_then (if is_piece p then imp_rest v j now p else give (Inr p)) (\<lambda>x.
      case x of
        Inl r \<Rightarrow> give r
      | Inr p \<Rightarrow> imp_new_pr v j now p)))"

definition push_moved_reason :: "progress \<Rightarrow> string \<Rightarrow> string" where
  "push_moved_reason q at_head =
     ''Someone else changed '' @ tick (pg_branch q) @ '' before the agent's push of '' @ tick (git_short (pg_head q)) @
     '' landed: '' @ where_moved at_head (pg_pushed q) @ '', and the agent does not push over anyone else's work.''"

definition imp_open_pr :: "imp_env \<Rightarrow> job \<Rightarrow> instant \<Rightarrow> result imp_step" where
  "imp_open_pr v j now =
     (let n = sub_number (j_subject j); d = ie_params v in
      and_then (load_progress (j_id j)) (\<lambda>found.
      case found of
        None \<Rightarrow>
          and_then (opened d (for_issue v n)) (\<lambda>pr.
          if pr \<noteq> None then give (goes_to Watching now) else imp_gone v j now)
      | Some p \<Rightarrow>
          and_then (landed d now (dv_progress p)) (\<lambda>(l, at_head, q).
          let p = p\<lparr>dv_progress := q\<rparr> in
          case l of
            Moved \<Rightarrow>
              and_then (note_of (push_stem (pg_branch q) (pg_head q))) (\<lambda>note.
              imp_hand_back v j now p (push_moved_reason q at_head) note)
          | NotLanded \<Rightarrow> give (goes_to Pushing now)
          | Landed \<Rightarrow>
              and_then (save_progress d p) (\<lambda>_.
              and_then (opened d (from_branch (pg_branch q))) (\<lambda>pr.
              case pr of
                Some pr \<Rightarrow> imp_redescribe v now p pr
              | None \<Rightarrow> imp_opens v j now p)))))"

subsection \<open>After the pull request\<close>

text \<open>What each of these transitions begins with: the progress and the open pull request.\<close>

definition with_open :: "imp_env \<Rightarrow> job \<Rightarrow> instant \<Rightarrow> (imp_delivery \<Rightarrow> pull_request \<Rightarrow> result imp_step) \<Rightarrow> result imp_step" where
  "with_open v j now f =
     and_then (load_progress (j_id j)) (\<lambda>found.
     case found of
       None \<Rightarrow> imp_lost v j now
     | Some p \<Rightarrow>
         and_then (opened (ie_params v) (from_branch (pg_branch (dv_progress p)))) (\<lambda>pr.
         case pr of
           None \<Rightarrow> and_then (clear_job (ie_params v)) (\<lambda>_. give (rests_in Start_state))
         | Some pr \<Rightarrow> f p pr))"

definition imp_watches :: "imp_env \<Rightarrow> job \<Rightarrow> instant \<Rightarrow> imp_delivery \<Rightarrow> pull_request \<Rightarrow> result imp_step" where
  "imp_watches v j now p pr =
     (let (r, ok) = machine_over Implementing now p in
      if ok then give r
      else and_then (watched (ie_params v) now (dv_progress p)) (\<lambda>(w, q).
        let p = p\<lparr>dv_progress := q\<rparr> in
        case cx_state w of
          CIPending \<Rightarrow> give (waits_until Watching (cx_run_at w) [])
        | CIGreen \<Rightarrow> give (goes_to Reviewing now)
        | CIHandBack \<Rightarrow>
            (case dv_correction p of
               Some c \<Rightarrow> if co_failed c = '''' \<and> \<not> cx_moved w then imp_fail_correction v j now p c (cx_reason w)
                         else hand_back_of v j now p (pr_number pr) (cx_reason w) (cx_output w)
             | None \<Rightarrow> hand_back_of v j now p (pr_number pr) (cx_reason w) (cx_output w))
        | CIRed \<Rightarrow> and_then (save_progress (ie_params v) p) (\<lambda>_. give (goes_to Implementing now))))"

definition imp_watch :: "imp_env \<Rightarrow> job \<Rightarrow> instant \<Rightarrow> result imp_step" where
  "imp_watch v j now = with_open v j now (imp_watches v j now)"

definition imp_correct :: "imp_env \<Rightarrow> instant \<Rightarrow> imp_delivery \<Rightarrow> correction \<Rightarrow> result imp_step" where
  "imp_correct v now p c =
     and_then (save_progress (ie_params v) (p\<lparr>dv_correction := Some c, dv_progress := (dv_progress p)\<lparr>pg_attempts := 0,
       pg_fixes := 0, pg_fixed_head := '''', pg_failure := '''', pg_why := ''''\<rparr>\<rparr>)) (\<lambda>_.
     give (goes_to Implementing now))"

definition imp_corrected :: "imp_env \<Rightarrow> job \<Rightarrow> instant \<Rightarrow> imp_delivery \<Rightarrow> correction \<Rightarrow> int \<Rightarrow> result imp_step" where
  "imp_corrected v j now p c pr =
     (let d = ie_params v; q = dv_progress p; s = correction_next (Some c) (pg_pushed q) in
      if s \<noteq> Edit then give (goes_to (step_state Implementing s) now)
      else
      and_then (handing d (\<lambda>h w. (kept_pushed h q, w))) (\<lambda>r.
      if ho_state r = HoHandBack then hand_back_of v j now p pr (ho_reason r) (ho_output r)
      else
      and_then (on_world (edit_review (editor_of d pr (co_reviewed c) (pg_pushed q)) pr c (pg_pushed q))) (\<lambda>x.
      and_then (lift_sum edit_failed x) (\<lambda>e.
      give (case e of None \<Rightarrow> goes_to HandingOff now | Some e \<Rightarrow> goes_with Reviewing now [e])))))"

definition imp_awaits :: "imp_env \<Rightarrow> job \<Rightarrow> instant \<Rightarrow> imp_delivery \<Rightarrow> pull_request \<Rightarrow> result imp_step" where
  "imp_awaits v j now p pr =
     (let d = ie_params v; q = dv_progress p in
      case dv_correction p of
        Some c \<Rightarrow> imp_corrected v j now p c (pr_number pr)
      | None \<Rightarrow>
          and_then (handing d (\<lambda>h. await_review h now (pr_number pr) q)) (\<lambda>r.
          case ho_state r of
            HoDone \<Rightarrow>
              (case begin_correction (ho_review r) (pg_pushed q) of
                 Some c \<Rightarrow> imp_correct v now p c
               | None \<Rightarrow> give (goes_to HandingOff now))
          | HoHandedBack \<Rightarrow> and_then (clear_job d) (\<lambda>_. give (rests_in Start_state))
          | HoHandBack \<Rightarrow> hand_back_of v j now p (pr_number pr) (ho_reason r) (ho_output r)
          | HoPending \<Rightarrow> give (waits_until Reviewing (ho_run_at r) (ho_effects r))))"

definition imp_await_review :: "imp_env \<Rightarrow> job \<Rightarrow> instant \<Rightarrow> result imp_step" where
  "imp_await_review v j now = with_open v j now (imp_awaits v j now)"

definition imp_hands_off :: "imp_env \<Rightarrow> job \<Rightarrow> instant \<Rightarrow> imp_delivery \<Rightarrow> pull_request \<Rightarrow> result imp_step" where
  "imp_hands_off v j now p pr =
     (let d = ie_params v; q = dv_progress p in
      and_then (handing d (\<lambda>h. hand_off h now pr (pg_pushed q)
        (''hand-off-pr-'' @ dec (pr_number pr) @ ''-'' @ pg_pushed q))) (\<lambda>r.
      case ho_state r of
        HoDone \<Rightarrow> and_then (clear_job d) (\<lambda>_. give (rests_in Start_state))
      | HoHandBack \<Rightarrow> hand_back_of v j now p (pr_number pr) (ho_reason r) (ho_output r)
      | _ \<Rightarrow> give (waits_until HandingOff (ho_run_at r) (ho_effects r))))"

definition imp_hand_off :: "imp_env \<Rightarrow> job \<Rightarrow> instant \<Rightarrow> result imp_step" where
  "imp_hand_off v j now = with_open v j now (imp_hands_off v j now)"

subsection \<open>The transitions\<close>

definition imp_transitions :: "(imp_env, imp_delivery, int) kind_transition list" where
  "imp_transitions =
     [(''implement'', Start_state, [], imp_claim),
      (''implement-claimed'', Claiming, [], imp_claimed),
      (''implement-run'', Implementing, [heavy_build], imp_run),
      (''implement-gate'', Gating, [heavy_build], \<lambda>v. machine_gate (imp_kind v) (ie_params v)),
      (''implement-push'', Pushing, [], imp_push),
      (''implement-open'', Opening, [], imp_open_pr),
      (''implement-watch'', Watching, [], imp_watch),
      (''implement-review'', Reviewing, [], imp_await_review),
      (''implement-hand-off'', HandingOff, [], imp_hand_off),
      (''implement-handed-back'', HandingBack, [], imp_handed_back),
      (''implement-resume'', Deferred, [], imp_resume)]"

definition imp_states :: "string list" where
  "imp_states = states_for Implementing @ [Claiming, Opening]"

definition imp_step_of :: "imp_env \<Rightarrow> job \<Rightarrow> instant \<Rightarrow> result imp_step" where
  "imp_step_of = step_from imp_transitions"

end
