(* ===== verification/Bench_States.thy ===== *)
theory Bench_States
  imports Delivery
begin

text \<open>
  What every kind on the bench keeps, whatever its answers: \<open>safe I m Q\<close> says that a step keeps
  \<open>I\<close> on every outcome, errors included, and that its answers satisfy \<open>Q\<close>. The shelf of what a
  job owes only names states of its kind, so a kind whose steps keep that never leaves a job where
  none of its transitions moves from, or at rest anywhere but the start. The gate of
  \<^verbatim>\<open>internal/delivery/machine.go\<close> keeps it for every kind that supplies it with steps that do.
\<close>

subsection \<open>Steps that keep an invariant\<close>

definition safe :: "('s \<Rightarrow> bool) \<Rightarrow> ('e, 's, 'a) step \<Rightarrow> ('a \<Rightarrow> bool) \<Rightarrow> bool" where
  "safe I m Q \<longleftrightarrow> (\<forall>s x t. I s \<longrightarrow> m s = Some (x, t) \<longrightarrow> I t \<and> (\<forall>a. x = Inr a \<longrightarrow> Q a))"

lemma safeI: "(\<And>s x t. I s \<Longrightarrow> m s = Some (x, t) \<Longrightarrow> I t \<and> (\<forall>a. x = Inr a \<longrightarrow> Q a)) \<Longrightarrow> safe I m Q"
  by (simp add: safe_def)

lemma safeD: "safe I m Q \<Longrightarrow> I s \<Longrightarrow> m s = Some (x, t) \<Longrightarrow> I t"
  "safe I m Q \<Longrightarrow> I s \<Longrightarrow> m s = Some (Inr a, t) \<Longrightarrow> Q a"
  by (auto simp: safe_def)

named_theorems safe_rules

lemma safe_give [safe_rules]: "Q a \<Longrightarrow> safe I (give a) Q"
  by (auto simp: safe_def give_def)

lemma safe_halt [safe_rules]: "safe I (halt e) Q"
  by (auto simp: safe_def halt_def)

lemma safe_and_then: "safe I m P \<Longrightarrow> (\<And>a. P a \<Longrightarrow> safe I (f a) Q) \<Longrightarrow> safe I (and_then m f) Q"
proof (rule safeI)
  fix s t x
  assume m: "safe I m P" and f: "\<And>a. P a \<Longrightarrow> safe I (f a) Q" and s: "I s" "and_then m f s = Some (x, t)"
  from s(2) obtain y u where y: "m s = Some (y, u)" by (auto simp: and_then_def split: option.splits)
  note u = safeD(1) [OF m s(1) y]
  show "I t \<and> (\<forall>a. x = Inr a \<longrightarrow> Q a)"
  proof (cases y)
    case (Inl e)
    with s(2) y u show ?thesis by (auto simp: and_then_def)
  next
    case (Inr a)
    with s(2) y have "f a u = Some (x, t)" by (simp add: and_then_def)
    moreover have "safe I (f a) Q" using f safeD(2) [OF m s(1)] y Inr by blast
    ultimately show ?thesis using u by (auto simp: safe_def)
  qed
qed

lemma safe_mono: "safe I m P \<Longrightarrow> (\<And>a. P a \<Longrightarrow> Q a) \<Longrightarrow> safe I m Q"
  by (auto simp: safe_def)

lemma safe_keeps: "keeps g m \<Longrightarrow> (\<And>s t. g t = g s \<Longrightarrow> I s \<Longrightarrow> I t) \<Longrightarrow> gives m Q \<Longrightarrow> safe I m Q"
  by (rule safeI) (metis keepsD givesD)

lemma safe_look_then [safe_rules]: "(\<And>s. I s \<Longrightarrow> safe I (f (g s)) Q) \<Longrightarrow> safe I (and_then (look g) f) Q"
  by (rule safeI) (metis and_then_look safeD)

lemma safe_alter: "(\<And>s. I s \<Longrightarrow> I (g s)) \<Longrightarrow> safe I (alter g) (\<lambda>_. True)"
  by (auto simp: safe_def alter_def)

lemma safe_lift_then [safe_rules]: "(\<And>a. x = Inr a \<Longrightarrow> safe I (f a) Q) \<Longrightarrow> safe I (and_then (lift_sum h x) f) Q"
  by (cases x) (simp_all add: safe_halt)

lemma safe_unless_then [safe_rules]: "safe I (f ()) Q \<Longrightarrow> safe I (and_then (unless_error h x) f) Q"
  by (cases x) (simp_all add: safe_halt)

lemma safe_unless [safe_rules]: "safe I (unless_error h x) (\<lambda>_. True)"
  by (cases x) (simp_all add: safe_halt safe_give)

lemma safe_attempted: "safe I m (\<lambda>_. True) \<Longrightarrow> safe I (attempted m) (\<lambda>_. True)"
  by (auto simp: safe_def attempted_def split: option.splits)

lemma safe_attempted_answer: "safe I m P \<Longrightarrow> safe I (attempted m) (\<lambda>x. \<forall>a. x = Inr a \<longrightarrow> P a)"
  by (auto simp: safe_def attempted_def split: option.splits)

lemma safe_attempted_then [safe_rules]:
  "safe I m P \<Longrightarrow> (\<And>e. safe I (f (Inl e)) Q) \<Longrightarrow> (\<And>a. P a \<Longrightarrow> safe I (f (Inr a)) Q) \<Longrightarrow>
     safe I (and_then (attempted m) f) Q"
  using safe_and_then [OF safe_attempted_answer, of I m P f Q] by (metis sum.exhaust)

lemma safe_if [safe_rules]: "(b \<Longrightarrow> safe I m Q) \<Longrightarrow> (\<not> b \<Longrightarrow> safe I n Q) \<Longrightarrow> safe I (if b then m else n) Q"
  by simp

lemma safe_option [safe_rules]:
  "(x = None \<Longrightarrow> safe I m Q) \<Longrightarrow> (\<And>a. x = Some a \<Longrightarrow> safe I (f a) Q) \<Longrightarrow>
     safe I (case x of None \<Rightarrow> m | Some a \<Rightarrow> f a) Q"
  by (simp split: option.split)

lemma safe_sum [safe_rules]:
  "(\<And>a. x = Inl a \<Longrightarrow> safe I (f a) Q) \<Longrightarrow> (\<And>b. x = Inr b \<Longrightarrow> safe I (g b) Q) \<Longrightarrow>
     safe I (case x of Inl a \<Rightarrow> f a | Inr b \<Rightarrow> g b) Q"
  by (simp split: sum.split)

lemma safe_prod [safe_rules]: "(\<And>a b. x = (a, b) \<Longrightarrow> safe I (f a b) Q) \<Longrightarrow> safe I (case x of (a, b) \<Rightarrow> f a b) Q"
  by (simp split: prod.split)

lemma safe_Let [safe_rules]: "(\<And>y. y = x \<Longrightarrow> safe I (f y) Q) \<Longrightarrow> safe I (let y = x in f y) Q"
  by simp

subsection \<open>The states of a kind\<close>

definition placed_in :: "string list \<Rightarrow> result \<Rightarrow> bool" where
  "placed_in sts r \<longleftrightarrow> res_state r \<in> set sts \<and> (res_run_at r = None \<longrightarrow> res_state r = Start_state)"

definition record_in :: "string list \<Rightarrow> owed_record \<Rightarrow> bool" where
  "record_in sts r \<longleftrightarrow> or_next r \<in> set sts \<and> (\<not> or_due r \<longrightarrow> or_next r = Start_state)"

definition shelf_in :: "string list \<Rightarrow> string \<Rightarrow> ('p, 'q) bench \<Rightarrow> bool" where
  "shelf_in sts jid s \<longleftrightarrow> (\<forall>r. sh_files (bn_shelf s) jid = Some (Recorded r) \<longrightarrow> record_in sts r)"

interpretation placed_kind: owing_kind "placed_in sts" "record_in sts" "\<lambda>st. st \<in> set sts" for sts
  by unfold_locales (auto simp: placed_in_def record_in_def owed_next_def)

lemma map_sum_Inr [simp]: "map_sum f id x = Inr a \<longleftrightarrow> x = Inr a"
  by (cases x) simp_all

lemma goes_placed [simp]: "placed_in sts (goes_to st now) \<longleftrightarrow> st \<in> set sts"
  by (simp add: placed_in_def goes_to_def)

lemma rests_placed [simp]: "placed_in sts (rests_in st) \<longleftrightarrow> st \<in> set sts \<and> st = Start_state"
  by (simp add: placed_in_def rests_in_def)

lemma shelf_in_cong: "bn_shelf t = bn_shelf s \<Longrightarrow> shelf_in sts jid s \<Longrightarrow> shelf_in sts jid t"
  by (simp add: shelf_in_def)

text \<open>A step that leaves the shelf alone.\<close>

lemma safe_shelf: "keeps bn_shelf m \<Longrightarrow> safe (shelf_in sts jid) m (\<lambda>_. True)"
  by (rule safe_keeps [of bn_shelf]) (simp_all add: shelf_in_def gives_def)

lemma safe_shelf_then:
  "keeps bn_shelf m \<Longrightarrow> (\<And>a. safe (shelf_in sts jid) (f a) Q) \<Longrightarrow> safe (shelf_in sts jid) (and_then m f) Q"
  by (rule safe_and_then [OF safe_shelf])

lemma keeps_on_world [keeps_rules]: "keeps bn_shelf (on_world f)"
  by (auto simp: keeps_def on_world_def split: prod.splits)

lemma keeps_small_steps [keeps_rules]:
  "keeps bn_shelf (load_progress jid)" "keeps bn_shelf (save_progress v p)" "keeps bn_shelf (discard v)"
  "keeps bn_shelf (clear_job v)" "keeps bn_shelf (next_key v stem start)" "keeps bn_shelf (note_of stem)"
  "keeps bn_shelf (noting_effect v key stem err)"
  unfolding load_progress_def save_progress_def discard_def clear_job_def next_key_def note_of_def noting_effect_def
  by (intro keeps_rules; auto simp: keeps_rules split: kept_file.split round_result.split)+

lemma keeps_pushed_from [keeps_rules]: "keeps bn_shelf (pushed_from branch head)"
  by (auto simp: keeps_def pushed_from_def split: option.splits prod.splits)

lemma keeps_case_rules [keeps_rules]:
  "keeps g m \<Longrightarrow> (\<And>a. keeps g (f a)) \<Longrightarrow> keeps g (case x of None \<Rightarrow> m | Some a \<Rightarrow> f a)"
  "(\<And>a. keeps g (h a)) \<Longrightarrow> (\<And>a. keeps g (k a)) \<Longrightarrow> keeps g (case y of Inl a \<Rightarrow> h a | Inr a \<Rightarrow> k a)"
  "(\<And>a b. keeps g (l a b)) \<Longrightarrow> keeps g (case z of (a, b) \<Rightarrow> l a b)"
  "keeps g m \<Longrightarrow> keeps g n \<Longrightarrow> keeps g (if b then m else n)"
  by (auto split: option.split sum.split prod.split)

lemma keeps_steps [keeps_rules]:
  "keeps bn_shelf (push_round_of v q head start)" "keeps bn_shelf (correction_fail v branch c why)"
  "keeps bn_shelf (handing v hf)"
  unfolding push_round_of_def correction_fail_def handing_def Let_def
  by (intro keeps_rules; auto simp: keeps_rules split: sum.split)+

lemma keeps_answers [keeps_rules]:
  "keeps g (watched v now q)" "keeps g (landed v now q)" "keeps g (measured v base head)"
  by (auto simp: keeps_def watched_def landed_def measured_def give_def halt_def
      split: prod.splits sum.splits option.splits)

lemma safe_owes:
  assumes "record_in sts r" and "st \<in> set sts"
  shows "safe (shelf_in sts (j_id j)) (owes b j now st r) (placed_in sts)"
  unfolding safe_def
proof (intro allI impI)
  fix s t :: "('p, 'q) bench" and x
  assume i: "shelf_in sts (j_id j) s" and m: "owes b j now st r s = Some (x, t)"
  then obtain y sh w where o: "owe b j now st r (bn_shelf s) (bn_world s) = Some (y, sh, w)"
    and x: "x = map_sum DlOwed id y" and t: "t = s\<lparr>bn_shelf := sh, bn_world := w\<rparr>"
    by (auto simp: owes_def split: option.splits)
  from placed_kind.owe_placed [OF assms i [unfolded shelf_in_def] o]
  show "shelf_in sts (j_id j) t \<and> (\<forall>a. x = Inr a \<longrightarrow> placed_in sts a)"
    unfolding x t by (cases y) (simp_all add: shelf_in_def)
qed

lemma safe_settles:
  assumes "j_state j \<in> set sts" and "placed_in sts lost"
  shows "safe (shelf_in sts (j_id j)) (settles b tk j now lost) (placed_in sts)"
  unfolding safe_def
proof (intro allI impI)
  fix s t :: "('p, 'q) bench" and x
  assume i: "shelf_in sts (j_id j) s" and m: "settles b tk j now lost s = Some (x, t)"
  then obtain y sh w where o: "settle b tk j now lost (bn_shelf s) (bn_world s) = (y, sh, w)"
    and x: "x = map_sum DlOwed id y" and t: "t = s\<lparr>bn_shelf := sh, bn_world := w\<rparr>"
    by (auto simp: settles_def split: prod.splits)
  from placed_kind.settle_placed [OF i [unfolded shelf_in_def] assms o]
  show "shelf_in sts (j_id j) t \<and> (\<forall>a. x = Inr a \<longrightarrow> placed_in sts a)"
    unfolding x t by (cases y) (simp_all add: shelf_in_def)
qed

lemma safe_hands_back:
  assumes "hb_handing_back hb \<in> set sts" and "hb_rest hb = Start_state" and "Start_state \<in> set sts"
  shows "safe (shelf_in sts (j_id j)) (hands_back v b j now hb) (placed_in sts)"
  unfolding hands_back_def
  by (intro safe_shelf_then safe_owes keeps_rules)
    (simp_all add: assms hand_back_record_def record_in_def Let_def)

lemma states_in: "set (machine_states k) \<subseteq> set sts \<Longrightarrow>
    Start_state \<in> set sts \<and> kd_session k \<in> set sts \<and> Gating \<in> set sts \<and> Deferred \<in> set sts \<and> Pushing \<in> set sts \<and>
    Watching \<in> set sts \<and> Reviewing \<in> set sts \<and> HandingOff \<in> set sts \<and> HandingBack \<in> set sts"
  by (simp add: machine_states_def states_for_def)

lemma over_placed:
  "session \<in> set sts \<Longrightarrow> Pushing \<in> set sts \<Longrightarrow> Reviewing \<in> set sts \<Longrightarrow>
     placed_in sts (fst (machine_over session now p))"
  by (simp add: machine_over_def Let_def step_state_def split: correction_step.split)

lemma safe_fail_correction:
  assumes "session \<in> set sts" "Pushing \<in> set sts" "Reviewing \<in> set sts"
    and "safe (shelf_in sts jid) lost (placed_in sts)"
  shows "safe (shelf_in sts jid) (fail_correction v session lost now p c why) (placed_in sts)"
  unfolding fail_correction_def Let_def
  by (intro safe_look_then safe_if safe_shelf_then keeps_rules safe_give over_placed assms)

subsection \<open>The gate keeps every kind\<close>

locale kept_kind =
  fixes k :: "('a, 'q) delivery_kind" and sts :: "string list"
  assumes states: "set (machine_states k) \<subseteq> set sts"
    and hand_back_safe: "kd_hand_back k = Some f \<Longrightarrow>
      safe (shelf_in sts (j_id j)) (f j now p reason output) (placed_in sts)"
    and gone_safe: "kd_gone k = Some g \<Longrightarrow> safe (shelf_in sts (j_id j)) (g j now) (placed_in sts)"
    and lost_safe: "kd_lost k = Some l \<Longrightarrow> safe (shelf_in sts (j_id j)) (l j now) (placed_in sts)"
    and gaps_safe: "kd_gaps k = Some q \<Longrightarrow>
      safe (shelf_in sts (j_id j)) (q j now p) (\<lambda>x. \<forall>r. x = Some r \<longrightarrow> placed_in sts r)"
begin

lemma members_safe:
  "safe (shelf_in sts (j_id j)) (kind_member (kd_hand_back k) (\<lambda>f. f j now p reason output)) (placed_in sts)"
  "safe (shelf_in sts (j_id j)) (kind_member (kd_gone k) (\<lambda>f. f j now)) (placed_in sts)"
  "safe (shelf_in sts (j_id j)) (kind_member (kd_lost k) (\<lambda>f. f j now)) (placed_in sts)"
  "safe (shelf_in sts (j_id j)) (case kd_gaps k of None \<Rightarrow> give None | Some gaps \<Rightarrow> gaps j now p)
     (\<lambda>x. \<forall>r. x = Some r \<longrightarrow> placed_in sts r)"
  unfolding kind_member_def
  using hand_back_safe gone_safe lost_safe gaps_safe
  by (auto simp: safe_halt safe_give split: option.split)

lemma stop_safe: "safe (shelf_in sts (j_id j)) (machine_stop k v j now p reason output) (placed_in sts)"
  unfolding machine_stop_def Let_def
  using states_in [OF states]
  by (intro safe_option safe_if members_safe safe_fail_correction) simp_all

lemma empty_safe: "safe (shelf_in sts (j_id j)) (gate_empty k v j now p) (placed_in sts)"
proof -
  have g: "safe (shelf_in sts (j_id j)) (case (if fix_made then None else kd_gaps k) of None \<Rightarrow> give None
      | Some gaps \<Rightarrow> gaps j now p) (\<lambda>x. \<forall>r. x = Some r \<longrightarrow> placed_in sts r)" for fix_made
    using members_safe(4) [of j now p] by (cases fix_made) (simp_all add: safe_give)
  show ?thesis
    unfolding gate_empty_def Let_def
    by (intro safe_if stop_safe safe_and_then [OF g] safe_option safe_give) simp
qed

lemma decides_safe: "safe (shelf_in sts (j_id j)) (gate_decides k v j now p r) (placed_in sts)"
  unfolding gate_decides_def
  using states_in [OF states]
  by (cases "gr_state r") (auto intro!: safe_shelf_then keeps_rules safe_give stop_safe empty_safe)

lemma gate_safe: "safe (shelf_in sts (j_id j)) (machine_gate k v j now) (placed_in sts)"
proof -
  have "safe (shelf_in sts (j_id j)) (gate_checks k v j now p) (placed_in sts)" for p
    unfolding gate_checks_def
    by (auto intro!: safe_rules stop_safe decides_safe)
  then show ?thesis
    unfolding machine_gate_def
    using states_in [OF states]
    by (intro safe_shelf_then keeps_rules safe_look_then safe_option safe_if members_safe safe_give over_placed)
      simp_all
qed

end

subsection \<open>Runs of a kind\<close>

text \<open>A job's runs under the steps of a kind, from a bench that owes nothing: each step leaves the
  bench as it does, whatever it answers, and between two steps effects, faults and restarts change
  everything but the records the job owes.\<close>

inductive bench_run_to :: "(job \<Rightarrow> ('p, 'q, result) bench_step \<Rightarrow> bool) \<Rightarrow> string \<Rightarrow> ('p, 'q) bench \<Rightarrow> bool"
  for moves :: "job \<Rightarrow> ('p, 'q, result) bench_step \<Rightarrow> bool" and jid :: string where
  begins: "sh_files (bn_shelf s) jid = None \<Longrightarrow> bench_run_to moves jid s"
| steps: "bench_run_to moves jid s \<Longrightarrow> moves j m \<Longrightarrow> j_id j = jid \<Longrightarrow> m s = Some (x, t) \<Longrightarrow>
    bench_run_to moves jid t"
| outside: "bench_run_to moves jid s \<Longrightarrow> sh_files (bn_shelf t) jid = sh_files (bn_shelf s) jid \<Longrightarrow>
    bench_run_to moves jid t"

inductive_cases bench_run_toE: "bench_run_to moves jid s"

lemma bench_run_shelf:
  assumes "bench_run_to moves jid s"
    and "\<And>j m. moves j m \<Longrightarrow> safe (shelf_in sts (j_id j)) m (placed_in sts)"
  shows "shelf_in sts jid s"
  using assms(1)
proof (induction rule: bench_run_to.induct)
  case (steps s j m x t)
  with safeD(1) [OF assms(2) [OF steps.hyps(2)]] show ?case by blast
qed (simp_all add: shelf_in_def)

subsection \<open>Deferrals and waits\<close>

lemma choose_placed:
  assumes "tier_choose t cands j now deferred = Inr (Inr res)" and "deferred \<in> set sts"
  shows "placed_in sts res"
proof -
  obtain r wt e where c: "choose_model cands (j_stays j) (tr_bound t) now (tr_wait t) = (r, wt, e)"
    by (metis prod_cases3)
  with assms show ?thesis
    by (auto simp: tier_choose_def tier_waits_def placed_in_def is_zero_def split: option.splits if_splits)
qed

lemma tier_run_cases:
  "(\<And>x asked n. P (tier_ends t cands j now stay deferred x asked n)) \<Longrightarrow> (\<And>e asked n. P (tier_failed e asked n)) \<Longrightarrow>
     P (tier_run t cands j now m q li fresh stay deferred)"
  unfolding tier_run_def Let_def by (simp del: split_paired_All split: sum.split prod.split option.split model_error.split)

lemma tier_run_placed:
  assumes "\<not> tu_ok (tier_run t cands j now m q li fresh stay deferred)"
    and "tu_error (tier_run t cands j now m q li fresh stay deferred) = None"
    and "stay \<in> set sts" and "deferred \<in> set sts"
  shows "placed_in sts (tu_result (tier_run t cands j now m q li fresh stay deferred))"
proof -
  have e: "placed_in sts (tu_result (tier_ends t cands j now stay deferred x asked n))"
    if "\<not> tu_ok (tier_ends t cands j now stay deferred x asked n)"
      "tu_error (tier_ends t cands j now stay deferred x asked n) = None" for x asked n
    using tier_ends_cases [OF refl, of t cands j now stay deferred "fst x" "snd x" asked n] that assms(3,4)
    by (auto simp: placed_in_def)
  show ?thesis
    using assms(1,2) by (induction rule: tier_run_cases) (simp_all add: e)
qed

lemma watched_pending: "gives (watched v now p) (\<lambda>(w, q). cx_state w = CIPending \<longrightarrow> cx_run_at w \<noteq> None)"
  by (auto simp: gives_def watched_def watch_def watch_runs_def read_runs_eq Let_def ci_of_def ci_hand_back_def
      split: sum.splits prod.splits if_splits)

lemma handing_answers: "gives (handing v f) (\<lambda>r. \<exists>h w w'. f h w = (Inr r, w'))"
  by (fastforce simp: gives_def handing_def on_world_def step_simps split: prod.splits)

lemma ask_again_waits: "ask_again d now n p w = (Inr r, w') \<Longrightarrow> ho_state r = HoPending \<Longrightarrow> ho_run_at r \<noteq> None"
  by (auto simp: ask_again_def ho_of_def ho_back_def Let_def split: prod.splits round_result.splits)

lemma await_waits:
  "await_review d now n p w = (Inr r, w') \<Longrightarrow> ho_state r = HoPending \<Longrightarrow> ho_run_at r \<noteq> None"
  by (auto simp: await_review_def kept_pushed_def ho_of_def ho_back_def dest: ask_again_waits
      split: sum.splits option.splits prod.splits store_error.splits if_splits)

lemma hand_off_waits:
  "hand_off d now pr pushed stem w = (Inr r, w') \<Longrightarrow>
     ho_state r \<in> {HoDone, HoHandBack, HoPending} \<and> (ho_state r = HoPending \<longrightarrow> ho_run_at r \<noteq> None)"
  by (auto simp: hand_off_def ho_of_def ho_back_def Let_def split: prod.splits round_result.splits if_splits)

lemma goes_with_placed [simp]: "placed_in sts (goes_with st now es) \<longleftrightarrow> st \<in> set sts"
  by (simp add: placed_in_def goes_with_def goes_to_def)

lemma waits_placed: "st \<in> set sts \<Longrightarrow> t \<noteq> None \<Longrightarrow> placed_in sts (waits_until st t es)"
  by (auto simp: placed_in_def waits_until_def)

lemma watched_safe:
  "safe (shelf_in sts jid) (watched d now q) (\<lambda>(w, q). cx_state w = CIPending \<longrightarrow> cx_run_at w \<noteq> None)"
  by (rule safe_keeps [OF keeps_answers(1) _ watched_pending, of bn_shelf]) (simp add: shelf_in_def)

lemma handing_safe:
  assumes "\<And>h w r w'. f h w = (Inr r, w') \<Longrightarrow> Q r"
  shows "safe (shelf_in sts jid) (handing d f) Q"
  by (rule safe_keeps [of bn_shelf])
    (auto intro!: keeps_rules intro: gives_mono [OF handing_answers] simp: shelf_in_def dest: assms)

lemma await_safe:
  "safe (shelf_in sts jid) (handing d (\<lambda>h. await_review h now n q))
     (\<lambda>r. ho_state r = HoPending \<longrightarrow> ho_run_at r \<noteq> None)"
  by (rule handing_safe) (use await_waits in blast)

lemma hand_off_safe:
  "safe (shelf_in sts jid) (handing d (\<lambda>h. hand_off h now pr a b))
     (\<lambda>r. ho_state r \<in> {HoDone, HoHandBack, HoPending} \<and> (ho_state r = HoPending \<longrightarrow> ho_run_at r \<noteq> None))"
  by (rule handing_safe) (use hand_off_waits in blast)

subsection \<open>The transition found by the job's state\<close>

lemma step_from_safe:
  assumes "list_all (\<lambda>(name, st, tokens, f). j_state j = st \<longrightarrow> safe I (f v j now) Q) ts"
  shows "safe I (step_from ts v j now) Q"
proof (cases "find (\<lambda>(name, st, tokens, f). st = j_state j) ts")
  case (Some x)
  then have "x \<in> set ts" "fst (snd x) = j_state j"
    by (auto simp: find_Some_iff case_prod_beta)
  with assms have "safe I (snd (snd (snd x)) v j now) Q"
    by (auto simp: list_all_iff case_prod_beta)
  with Some show ?thesis by (simp add: step_from_def case_prod_beta)
qed (simp add: step_from_def safe_halt)

subsection \<open>Results that ask for nothing\<close>

text \<open>A result that asks for nothing, or that hands the work back.\<close>

definition asks_nothing :: "result \<Rightarrow> bool" where
  "asks_nothing r \<longleftrightarrow> res_effects r = [] \<or> res_state r = HandingBack"

interpretation quiet_kind: owing_kind asks_nothing "\<lambda>_. True" "\<lambda>st. st = HandingBack"
  by unfold_locales (simp_all add: asks_nothing_def owed_next_def)

lemma asks_nothing_simps [simp]:
  "asks_nothing (goes_to st now)" "asks_nothing (rests_in st)" "asks_nothing (fst (machine_over session now p))"
  by (simp_all add: asks_nothing_def goes_to_def rests_in_def machine_over_def Let_def)

lemma owes_quiet: "gives (owes b j now HandingBack r) asks_nothing"
  unfolding gives_def owes_def
proof (intro allI impI)
  fix s t :: "('p, 'q) bench" and a
  assume "(case owe b j now HandingBack r (bn_shelf s) (bn_world s) of None \<Rightarrow> None
      | Some (x, sh, w) \<Rightarrow> Some (map_sum DlOwed id x, s\<lparr>bn_shelf := sh, bn_world := w\<rparr>)) = Some (Inr a, t)"
  then obtain sh w where "owe b j now HandingBack r (bn_shelf s) (bn_world s) = Some (Inr a, sh, w)"
    by (auto split: option.splits sum.splits)
  from quiet_kind.owe_placed [OF _ _ _ this] show "asks_nothing a" by simp
qed



text \<open>The effect of a round of a push: the push itself, noting its last error.\<close>

lemma push_round_effect:
  assumes "push_round_of v p head start s = Some (Inr (Inr e), t)"
  shows "\<exists>key nt. e = Effect key (Some (\<lambda>b. (fst (noting (dl_note_saved v) (dl_note_removed v)
    (push_stem (pg_branch p) head) (dl_push v head (pg_branch p) (pg_pushed p)) nt), b)))"
proof -
  from assms obtain k u where "next_key v (push_stem (pg_branch p) head) start s = Some (Inr k, u)"
    and k: "(case k of Inl n \<Rightarrow> and_then (note_of (push_stem (pg_branch p) head)) (\<lambda>note. give (Inl (n, note)))
      | Inr key \<Rightarrow> and_then (noting_effect v key (push_stem (pg_branch p) head)
          (dl_push v head (pg_branch p) (pg_pushed p))) (\<lambda>e. give (Inr e))) u = Some (Inr (Inr e), t)"
    by (auto simp: push_round_of_def Let_def step_simps)
  from k show ?thesis
    by (cases k) (auto simp: noting_effect_def step_simps)
qed

subsection \<open>A first push\<close>

lemma first_key: "effect_round stem 0 2 first_world = (RoundKey (round_key stem 0), first_world)"
  by (simp add: effect_round_def first_world_def call_reserved_nf numeral_2_eq_2 empty_db_def is_reserved_def)

end
