(* ===== verification/Implement_Properties.thy ===== *)
theory Implement_Properties
  imports Implement Bench_States
begin

text \<open>
  What the implement kind promises across its transitions: its states are closed whatever its runs
  met, and nothing is ever pushed but a commit whose paths the denylist was checked against.
\<close>

subsection \<open>The kind's states\<close>

lemma imp_states_set: "set imp_states = {Start_state, Implementing, Gating, Deferred, Pushing, Watching, Reviewing,
    HandingOff, HandingBack, Claiming, Opening}"
  by (auto simp: imp_states_def states_for_def)

lemma imp_in [simp]:
  "Start_state \<in> set imp_states" "Implementing \<in> set imp_states" "Gating \<in> set imp_states" "Deferred \<in> set imp_states"
  "Pushing \<in> set imp_states" "Watching \<in> set imp_states" "Reviewing \<in> set imp_states" "HandingOff \<in> set imp_states"
  "HandingBack \<in> set imp_states" "Claiming \<in> set imp_states" "Opening \<in> set imp_states"
  by (simp_all add: imp_states_set)

abbreviation imp_safe :: "job \<Rightarrow> result imp_step \<Rightarrow> bool" where
  "imp_safe j m \<equiv> safe (shelf_in imp_states (j_id j)) m (placed_in imp_states)"

abbreviation imp_may :: "job \<Rightarrow> result option imp_step \<Rightarrow> bool" where
  "imp_may j m \<equiv> safe (shelf_in imp_states (j_id j)) m (\<lambda>x. \<forall>r. x = Some r \<longrightarrow> placed_in imp_states r)"

lemma records_in [simp]:
  "record_in imp_states \<lparr>or_next = Start_state, or_due = False, or_items = its\<rparr>"
  "record_in imp_states \<lparr>or_next = Implementing, or_due = True, or_items = its\<rparr>"
  by (simp_all add: record_in_def)

lemma keeps_imp [keeps_rules]:
  "keeps bn_shelf (opened d match)" "keeps bn_shelf (imp_instructions v n)" "keeps bn_shelf (save_request v cs)"
  "keeps bn_shelf (imp_whole v j)" "keeps bn_shelf (imp_sensitive v p head)" "keeps bn_shelf (imp_reset v p)"
  "keeps bn_shelf (imp_given v p)" "keeps bn_shelf (imp_spec v n)"
  unfolding opened_def imp_instructions_def save_request_def imp_whole_def imp_sensitive_def imp_reset_def
    imp_given_def imp_spec_def Let_def
  by (intro keeps_rules; auto intro!: keeps_rules split: kept_file.split)+

lemma keeps_prepared [keeps_rules]: "keeps bn_shelf (prepared v n)"
  by (auto simp: keeps_def prepared_def Let_def split: option.splits sum.splits)

lemma keeps_workspace [keeps_rules]: "keeps bn_shelf (fresh_workspace v n)" "keeps bn_shelf (imp_workspace v j)"
  unfolding fresh_workspace_def imp_workspace_def Let_def by (intro keeps_rules)+

subsection \<open>Handing back\<close>

lemma owe_issue_safe: "imp_safe j (imp_owe_issue v j now p body)"
  unfolding imp_owe_issue_def Let_def by (intro safe_shelf_then keeps_rules safe_owes) simp_all

lemma hand_back_issue_safe: "imp_safe j (imp_hand_back_issue v j now p reason output)"
  unfolding imp_hand_back_issue_def Let_def by (rule owe_issue_safe)

lemma hand_back_pr_safe: "imp_safe j (imp_hand_back_pr v j now branch s pr key reason output)"
  unfolding imp_hand_back_pr_def Let_def by (rule safe_hands_back) simp_all

lemma hand_back_of_safe: "imp_safe j (hand_back_of v j now p pr reason output)"
  unfolding hand_back_of_def by (rule hand_back_pr_safe)

lemma cleared_rest_safe: "imp_safe j (and_then (clear_job d) (\<lambda>_. give (rests_in Start_state)))"
  by (intro safe_shelf_then keeps_rules safe_give) simp

lemma gone_is_safe: "imp_safe j (imp_gone v j now)"
  unfolding imp_gone_def by (intro safe_shelf_then keeps_rules safe_give) simp

lemma hand_back_is_safe: "imp_safe j (imp_hand_back v j now p reason output)"
  unfolding imp_hand_back_def
  by (intro safe_if safe_shelf_then keeps_rules safe_option cleared_rest_safe hand_back_of_safe hand_back_issue_safe)

lemma lost_is_safe: "imp_safe j (imp_lost v j now)"
proof -
  have c: "safe (shelf_in imp_states (j_id j)) (and_then (attempted m) (\<lambda>_. halt e)) (placed_in imp_states)"
    if "keeps bn_shelf m" for m :: "unit imp_step" and e
    by (intro safe_shelf_then keeps_attempted that safe_halt)
  show ?thesis
    unfolding imp_lost_def
    by (intro safe_shelf_then keeps_rules safe_sum safe_option c cleared_rest_safe hand_back_pr_safe)
qed

lemma imp_fail_safe: "imp_safe j (imp_fail_correction v j now p c why)"
  unfolding imp_fail_correction_def by (intro safe_fail_correction lost_is_safe) simp_all

lemma imp_stop_safe: "imp_safe j (imp_stop v j now p reason output)"
  unfolding imp_stop_def by (intro safe_option safe_if imp_fail_safe hand_back_is_safe)

lemma imp_gaps_safe: "imp_may j (imp_gaps v j now p)"
  unfolding imp_gaps_def Let_def
  by (intro safe_if safe_give safe_and_then [OF owe_issue_safe]) auto

interpretation imp_gate: kept_kind "imp_kind v" imp_states for v
  by unfold_locales
    (auto simp: imp_kind_def machine_states_def imp_states_set states_for_def hand_back_is_safe gone_is_safe lost_is_safe imp_gaps_safe)

subsection \<open>Every transition keeps the states\<close>

lemma claim_safe: "imp_safe j (imp_claim v j now)"
  unfolding imp_claim_def Let_def
  by (intro safe_rules safe_shelf_then keeps_rules safe_owes) simp_all

lemma claimed_safe: "j_state j = Claiming \<Longrightarrow> imp_safe j (imp_claimed v j now)"
  unfolding imp_claimed_def by (rule safe_settles) simp_all

lemma handed_back_safe: "j_state j = HandingBack \<Longrightarrow> imp_safe j (imp_handed_back v j now)"
  unfolding imp_handed_back_def by (intro safe_shelf_then keeps_rules safe_settles) simp_all

lemma tier_run_safe:
  "safe (shelf_in imp_states (j_id j)) (imp_tier_run v j now r p whole)
     (\<lambda>(u, req, p'). \<not> tu_ok u \<longrightarrow> placed_in imp_states (tu_result u))"
  unfolding imp_tier_run_def Let_def
  by (intro safe_lift_then safe_shelf_then keeps_rules safe_option safe_halt safe_give)
    (auto intro!: tier_run_placed)

lemma session_safe: "imp_safe j (imp_session v j now r p)"
  unfolding imp_session_def Let_def run_failed_with_def
  by (intro safe_shelf_then keeps_rules safe_prod safe_lift_then safe_and_then [OF tier_run_safe] safe_if safe_give)
    auto

lemma run_is_safe: "imp_safe j (imp_run v j now)"
  unfolding imp_run_def Let_def
  by (intro safe_lift_then safe_sum safe_shelf_then keeps_rules safe_option session_safe lost_is_safe safe_give)
    (auto intro!: choose_placed)

lemma keep_whole_safe: "imp_may j (imp_keep_whole v now p head)"
  unfolding imp_keep_whole_def Let_def
  by (intro safe_lift_then safe_if safe_sum safe_shelf_then keeps_rules safe_give) auto

lemma vet_safe: "imp_may j (imp_vet v j now p head)"
proof -
  have s: "imp_may j (and_then (imp_stop v j now p reason out) (\<lambda>r. give (Some r)))" for reason out
    by (intro safe_and_then [OF imp_stop_safe] safe_give) simp
  show ?thesis
    unfolding imp_vet_def Let_def
    by (rule safe_and_then [of _ _ "\<lambda>x. \<forall>r. x = Some r \<longrightarrow> placed_in imp_states r"];
      intro safe_option safe_if safe_lift_then s safe_give) auto
qed

lemma cuts_safe: "imp_may j (imp_cuts v j now p head c)"
  unfolding imp_cuts_def
  by (intro safe_if safe_shelf_then keeps_rules keep_whole_safe safe_give) auto

lemma pushes_safe: "imp_safe j (imp_pushes v j now p head)"
  unfolding imp_pushes_def Let_def
  by (intro safe_shelf_then keeps_rules safe_sum safe_prod imp_stop_safe safe_give) auto

lemma push_work_safe: "imp_safe j (imp_push_work v j now p)"
  unfolding imp_push_work_def Let_def
  by (intro safe_lift_then safe_and_then [OF vet_safe] safe_and_then [OF cuts_safe] safe_option safe_shelf_then
      keeps_rules pushes_safe safe_give) auto

lemma push_safe: "imp_safe j (imp_push v j now)"
proof -
  have "placed_in imp_states r" if "machine_over Implementing now p = (r, ok)" for p r ok
    using over_placed [of Implementing imp_states now p] that by simp
  then show ?thesis
    unfolding imp_push_def Let_def
    by (intro safe_shelf_then safe_look_then keeps_rules safe_option safe_if safe_prod push_work_safe
        gone_is_safe safe_give) auto
qed

abbreviation imp_rests :: "job \<Rightarrow> (result + imp_delivery) imp_step \<Rightarrow> bool" where
  "imp_rests j m \<equiv> safe (shelf_in imp_states (j_id j)) m (\<lambda>x. \<forall>r. x = Inl r \<longrightarrow> placed_in imp_states r)"

lemma file_rest_safe: "imp_rests j (imp_file_rest v j now p)"
  unfolding imp_file_rest_def Let_def
  by (intro safe_if safe_lift_then safe_shelf_then keeps_rules safe_sum safe_and_then [OF hand_back_issue_safe]
      safe_give) auto

lemma block_rest_safe: "imp_rests j (imp_block_rest v j now p)"
  unfolding imp_block_rest_def Let_def
  by (intro safe_if safe_lift_then safe_shelf_then keeps_rules safe_sum safe_give) auto

lemma rest_safe: "imp_rests j (imp_rest v j now p)"
  unfolding imp_rest_def
  by (intro safe_and_then [OF file_rest_safe] safe_sum block_rest_safe safe_give) auto

lemma redescribe_safe: "imp_safe j (imp_redescribe v now p pr)"
  unfolding imp_redescribe_def Let_def
  by (intro safe_shelf_then keeps_rules safe_lift_then safe_give) (auto split: option.split)

lemma new_pr_safe: "imp_safe j (imp_new_pr v j now p)"
  unfolding imp_new_pr_def Let_def
  by (intro safe_shelf_then safe_look_then keeps_rules safe_sum safe_lift_then safe_prod hand_back_issue_safe
      safe_give) auto

lemma opens_safe: "imp_safe j (imp_opens v j now p)"
  unfolding imp_opens_def Let_def
  by (intro safe_shelf_then keeps_rules safe_if safe_sum hand_back_issue_safe new_pr_safe safe_give
      safe_and_then [of _ _ "\<lambda>x. \<forall>r. x = Inl r \<longrightarrow> placed_in imp_states r"] rest_safe) auto

lemma open_pr_safe: "imp_safe j (imp_open_pr v j now)"
  unfolding imp_open_pr_def Let_def
  by (intro safe_shelf_then keeps_rules safe_option safe_if safe_prod hand_back_is_safe redescribe_safe
      opens_safe gone_is_safe safe_give)
    (auto intro!: safe_shelf_then keeps_rules safe_option hand_back_is_safe redescribe_safe opens_safe safe_give
      split: landing.split)

lemma with_open_safe: "(\<And>p pr. imp_safe j (f p pr)) \<Longrightarrow> imp_safe j (with_open v j now f)"
  unfolding with_open_def
  by (intro safe_shelf_then keeps_rules safe_option lost_is_safe cleared_rest_safe)

lemma watches_safe: "imp_safe j (imp_watches v j now p pr)"
proof -
  have o: "placed_in imp_states r" if "machine_over Implementing now p = (r, ok)" for r ok
    using over_placed [of Implementing imp_states now p] that by simp
  have r: "imp_safe j (and_then (save_progress d q) (\<lambda>_. give (goes_to Implementing now)))" for d q
    by (intro safe_shelf_then keeps_rules safe_give) simp
  show ?thesis
    unfolding imp_watches_def Let_def
    by (intro safe_prod safe_if safe_and_then [OF watched_safe])
      (auto intro!: safe_give hand_back_of_safe imp_fail_safe waits_placed r dest: o
        split: ci_state.split option.split)
qed

lemma corrected_safe: "imp_safe j (imp_corrected v j now p c pr)"
proof -
  have "step_state Implementing s \<in> set imp_states" for s
    by (cases s) (simp_all add: step_state_def)
  then show ?thesis
    unfolding imp_corrected_def Let_def
    by (intro safe_if safe_shelf_then keeps_rules safe_lift_then hand_back_of_safe safe_give)
      (auto split: option.split)
qed

lemma awaits_safe: "imp_safe j (imp_awaits v j now p pr)"
proof -
  have c: "imp_safe j (imp_correct v now p c)" for c
    unfolding imp_correct_def by (intro safe_shelf_then keeps_rules safe_give) simp
  show ?thesis
    unfolding imp_awaits_def Let_def
    by (intro safe_option corrected_safe safe_and_then [OF await_safe])
      (auto intro!: safe_give hand_back_of_safe cleared_rest_safe waits_placed c
        split: handoff_state.split option.split)
qed

lemma hands_off_safe: "imp_safe j (imp_hands_off v j now p pr)"
  unfolding imp_hands_off_def Let_def
  by (intro safe_and_then [OF hand_off_safe])
    (auto intro!: safe_give hand_back_of_safe cleared_rest_safe waits_placed split: handoff_state.split)

subsection \<open>Nothing is stranded\<close>

definition imp_moves :: "job \<Rightarrow> result imp_step \<Rightarrow> bool" where
  "imp_moves j m \<longleftrightarrow> (\<exists>v now. m = imp_step_of v j now)"

lemma transitions_safe:
  "list_all (\<lambda>(name, st, tokens, f). j_state j = st \<longrightarrow> imp_safe j (f v j now)) imp_transitions"
proof -
  have w: "imp_safe j (imp_watch v j now)" "imp_safe j (imp_await_review v j now)" "imp_safe j (imp_hand_off v j now)"
    unfolding imp_watch_def imp_await_review_def imp_hand_off_def
    by (intro with_open_safe watches_safe awaits_safe hands_off_safe)+
  have r: "imp_safe j (imp_resume v j now)"
    unfolding imp_resume_def by (intro safe_give) simp
  show ?thesis
    unfolding imp_transitions_def list.pred_inject list_all_Nil_iff prod.case
    by (intro conjI impI TrueI claim_safe claimed_safe run_is_safe imp_gate.gate_safe push_safe open_pr_safe w
        handed_back_safe r)
qed

lemma step_of_safe: "imp_safe j (imp_step_of v j now)"
  unfolding imp_step_of_def by (rule step_from_safe [OF transitions_safe])

lemma states_have_transitions: "set imp_states \<subseteq> set (map (\<lambda>(name, st, tokens, f). st) imp_transitions)"
  unfolding imp_states_set imp_transitions_def list.map prod.case list.set by blast

text \<open>C22: An implement job is never stranded: whatever its runs, their effects, faults and restarts
  left on its bench, a transition that decides moves the job to a state one of the eleven
  transitions starts from, and leaves it at rest only at the start, where the next command finds it.\<close>

theorem implement_never_strands:
  assumes "bench_run_to imp_moves (j_id j) s" and "imp_step_of v j now s = Some (Inr r, t)"
  shows "(\<exists>name tokens f. (name, res_state r, tokens, f) \<in> set imp_transitions) \<and>
    (res_run_at r = None \<longrightarrow> res_state r = Start_state)"
proof -
  have "shelf_in imp_states (j_id j) s"
    using assms(1) by (rule bench_run_shelf) (auto simp: imp_moves_def step_of_safe)
  then have "placed_in imp_states r" using assms(2) by (rule safeD(2) [OF step_of_safe])
  then show ?thesis using states_have_transitions by (force simp: placed_in_def)
qed

subsection \<open>A push is vetted\<close>

lemma stop_quiet: "gives (imp_stop v j now p reason output) asks_nothing"
proof -
  have i: "gives (imp_hand_back_issue v j now p reason out) asks_nothing" for p reason out
    unfolding imp_hand_back_issue_def imp_owe_issue_def Let_def by (intro gives_and_then owes_quiet)
  have pr: "gives (imp_hand_back_pr v j now b sp n key reason out) asks_nothing" for b sp n key reason out
    unfolding imp_hand_back_pr_def hands_back_def Let_def hand_back.simps by (intro gives_and_then owes_quiet)
  have l: "gives (imp_lost v j now) asks_nothing"
    unfolding imp_lost_def by (intro gives_and_then gives_sum gives_option gives_halt gives_give pr) simp
  have b: "gives (imp_hand_back v j now p reason output) asks_nothing"
    unfolding imp_hand_back_def hand_back_of_def
    by (intro gives_if gives_and_then gives_option gives_give pr i) simp
  show ?thesis
    unfolding imp_stop_def imp_fail_correction_def fail_correction_def correction_fail_def Let_def
    by (intro gives_option gives_if b gives_and_then gives_give l) simp_all
qed

text \<open>The commit is the relay's, the paths of exactly that commit are not on the denylist, and a
  correction that is being made kept the head its review read.\<close>

definition vetted :: "imp_env \<Rightarrow> imp_delivery \<Rightarrow> string \<Rightarrow> bool" where
  "vetted v p head \<longleftrightarrow> (let d = ie_params v; q = dv_progress p in
     dl_relay d (pg_branch q) = Inr head \<and>
     (\<exists>paths. touched_paths (dl_touched d (pg_base q) head) = Inr paths \<and> denied (dl_denylist d) paths = []) \<and>
     (\<forall>c. dv_correction p = Some c \<and> co_failed c = '''' \<longrightarrow> dl_ancestor d (co_reviewed c) head = Inr True))"

lemma vet_stops: "gives (imp_vet v j now p head) (\<lambda>x. \<forall>r. x = Some r \<longrightarrow> asks_nothing r)"
proof -
  have s: "gives (and_then (imp_stop v j now p reason out) (\<lambda>r. give (Some r))) (\<lambda>x. \<forall>r. x = Some r \<longrightarrow> asks_nothing r)"
    for reason out
    by (intro gives_and_then_from [OF stop_quiet] gives_give) simp
  show ?thesis
    unfolding imp_vet_def Let_def
    by (rule gives_and_then_from [of _ "\<lambda>x. \<forall>r. x = Some r \<longrightarrow> asks_nothing r"];
      intro gives_option gives_if gives_and_then s gives_give) auto
qed

lemma vet_passes:
  assumes "imp_vet v j now p head s = Some (Inr None, t)" and "dl_relay (ie_params v) (pg_branch (dv_progress p)) = Inr head"
  shows "vetted v p head \<and> t = s"
  using assms
  by (auto simp: imp_vet_def vetted_def Let_def step_simps split: option.splits if_splits)

lemma keep_whole_sends:
  assumes "imp_keep_whole v now p head s = Some (Inr (Some r), t)" and "\<not> asks_nothing r"
  shows "\<exists>key. r = goes_with Pushing now
      [Effect key (Some (\<lambda>b. (dl_push (ie_params v) head (whole_branch (pg_branch (dv_progress p))) '''', b)))] \<and>
    dl_remote (ie_params v) (whole_branch (pg_branch (dv_progress p))) = Inr ''''"
  using assms by (auto simp: imp_keep_whole_def Let_def step_simps split: if_splits sum.splits) (metis sum.exhaust)

lemma pushes_sends:
  assumes "imp_pushes v j now p head s = Some (Inr r, t)" and "\<not> asks_nothing r"
  shows "\<exists>key note. r = goes_with Opening now [Effect key (Some (\<lambda>b. (fst (noting (dl_note_saved (ie_params v))
      (dl_note_removed (ie_params v)) (push_stem (pg_branch (dv_progress p)) head)
      (dl_push (ie_params v) head (pg_branch (dv_progress p)) (pg_pushed (dv_progress p))) note), b)))] \<and>
    bn_progress t = Kept (p\<lparr>dv_progress := (dv_progress p)\<lparr>pg_head := head\<rparr>\<rparr>)"
proof -
  obtain k u where k: "push_round_of (ie_params v) (dv_progress p) head (correction_push_from (dv_correction p) head) s =
      Some (Inr k, u)"
    and r: "(case k of Inl (n, note) \<Rightarrow> imp_stop v j now p (unlanded_said n head (pg_branch (dv_progress p))) note
      | Inr e \<Rightarrow> and_then (save_progress (ie_params v) (p\<lparr>dv_progress := (dv_progress p)\<lparr>pg_head := head\<rparr>\<rparr>)) (\<lambda>_.
          give (goes_with Opening now [e]))) u = Some (Inr r, t)"
    using assms(1) by (auto simp: imp_pushes_def Let_def step_simps)
  show ?thesis
  proof (cases k)
    case (Inl x)
    with r assms(2) givesD [OF stop_quiet] show ?thesis by (auto split: prod.splits)
  next
    case (Inr e)
    with k obtain key where e: "e = Effect key (Some (\<lambda>b. (fst (noting (dl_note_saved (ie_params v))
        (dl_note_removed (ie_params v)) (push_stem (pg_branch (dv_progress p)) head)
        (dl_push (ie_params v) head (pg_branch (dv_progress p)) (pg_pushed (dv_progress p))) (bn_note u)), b)))"
      by (simp add: push_round_of_def noting_effect_def Let_def step_simps split: sum.splits) (metis sum.exhaust)
    with r Inr show ?thesis by (auto simp: step_simps)
  qed
qed

lemma push_work_sends:
  assumes "imp_push_work v j now p s = Some (Inr r, t)" and "\<not> asks_nothing r"
  shows "\<exists>head key f. vetted v p head \<and> res_effects r = [Effect key (Some f)] \<and>
    (res_state r = Opening \<and> (\<exists>q. bn_progress t = Kept q \<and> dv_progress q = (dv_progress p)\<lparr>pg_head := head\<rparr>) \<and>
       (\<exists>note. f = (\<lambda>b. (fst (noting (dl_note_saved (ie_params v)) (dl_note_removed (ie_params v))
         (push_stem (pg_branch (dv_progress p)) head)
         (dl_push (ie_params v) head (pg_branch (dv_progress p)) (pg_pushed (dv_progress p))) note), b))) \<or>
     res_state r = Pushing \<and> \<not> ip_cut p \<and> pg_pushed (dv_progress p) = '''' \<and>
       dl_remote (ie_params v) (whole_branch (pg_branch (dv_progress p))) = Inr '''' \<and>
       f = (\<lambda>b. (dl_push (ie_params v) head (whole_branch (pg_branch (dv_progress p))) '''', b)))"
proof -
  obtain head x u where h: "dl_relay (ie_params v) (pg_branch (dv_progress p)) = Inr head"
    and vet: "imp_vet v j now p head s = Some (Inr x, u)"
    and r: "(case x of Some r \<Rightarrow> give r | None \<Rightarrow>
        and_then (measured (ie_params v) (pg_base (dv_progress p)) head) (\<lambda>c.
        and_then (imp_cuts v j now (p\<lparr>ip_lines := ct_lines c, ip_tests := ct_tests c\<rparr>) head c) (\<lambda>sent_back.
        case sent_back of
          Some r \<Rightarrow> give r
        | None \<Rightarrow> and_then (imp_sensitive v (p\<lparr>ip_lines := ct_lines c, ip_tests := ct_tests c\<rparr>) head) (\<lambda>ts.
            imp_pushes v j now (p\<lparr>ip_lines := ct_lines c, ip_tests := ct_tests c, ip_sensitive := ts\<rparr>) head)))) u =
      Some (Inr r, t)"
    using assms(1) by (auto simp: imp_push_work_def Let_def step_simps)
  with assms(2) givesD [OF vet_stops vet] have x: "x = None" by (cases x) auto
  with vet h have v: "vetted v p head" by (simp add: vet_passes)
  from r x obtain c y u1 u2 where
    y: "imp_cuts v j now (p\<lparr>ip_lines := ct_lines c, ip_tests := ct_tests c\<rparr>) head c u1 = Some (Inr y, u2)"
    and r: "(case y of Some r \<Rightarrow> give r
        | None \<Rightarrow> and_then (imp_sensitive v (p\<lparr>ip_lines := ct_lines c, ip_tests := ct_tests c\<rparr>) head) (\<lambda>ts.
            imp_pushes v j now (p\<lparr>ip_lines := ct_lines c, ip_tests := ct_tests c, ip_sensitive := ts\<rparr>) head)) u2 =
      Some (Inr r, t)"
    by (auto simp: step_simps)
  show ?thesis
  proof (cases y)
    case None
    with r obtain ts u3 where
      "imp_pushes v j now (p\<lparr>ip_lines := ct_lines c, ip_tests := ct_tests c, ip_sensitive := ts\<rparr>) head u3 = Some (Inr r, t)"
      by (auto simp: step_simps)
    from pushes_sends [OF this assms(2)] obtain key nt where
      e: "r = goes_with Opening now [Effect key (Some (\<lambda>b. (fst (noting (dl_note_saved (ie_params v))
        (dl_note_removed (ie_params v)) (push_stem (pg_branch (dv_progress p)) head)
        (dl_push (ie_params v) head (pg_branch (dv_progress p)) (pg_pushed (dv_progress p))) nt), b)))]"
      and t: "\<exists>q. bn_progress t = Kept q \<and> dv_progress q = (dv_progress p)\<lparr>pg_head := head\<rparr>"
      by auto
    show ?thesis
      unfolding e
      by (insert v t, rule exI [of _ head], rule exI [of _ key], rule exI) (simp add: goes_with_def goes_to_def, blast)
  next
    case (Some a)
    with r y have "ip_cut p = False" "pg_pushed (dv_progress p) = ''''"
      "\<exists>u4. imp_keep_whole v now (p\<lparr>ip_lines := ct_lines c, ip_tests := ct_tests c\<rparr>) head u4 = Some (Inr (Some r), u2)"
      by (auto simp: imp_cuts_def step_simps split: if_splits)
    then obtain u4 where
      "imp_keep_whole v now (p\<lparr>ip_lines := ct_lines c, ip_tests := ct_tests c\<rparr>) head u4 = Some (Inr (Some r), u2)"
      by blast
    from keep_whole_sends [OF this assms(2)] obtain key where
      e: "r = goes_with Pushing now [Effect key (Some (\<lambda>b. (dl_push (ie_params v) head
        (whole_branch (pg_branch (dv_progress p))) '''', b)))]"
      and w: "dl_remote (ie_params v) (whole_branch (pg_branch (dv_progress p))) = Inr ''''"
      by auto
    show ?thesis
      unfolding e
      by (insert v w \<open>ip_cut p = False\<close> \<open>pg_pushed _ = _\<close>, rule exI [of _ head], rule exI [of _ key], rule exI) (auto simp: goes_with_def goes_to_def)
  qed
qed

text \<open>C5: Nothing is pushed unvetted: whatever the push transition asks for, short of handing the work
  back, is one push of the very commit the relay holds for the job's own branch, every path of
  which was checked against the denylist in the same decision, and which keeps the head the
  review read while a correction is made. It goes to the job's branch under the lease of the
  agent's own last push, with that commit saved as the one to read back, or, before any push and
  once, to the branch that keeps the whole work, where nothing was.\<close>

theorem push_is_vetted:
  assumes "imp_push v j now s = Some (Inr r, t)" and "res_effects r \<noteq> []" and "res_state r \<noteq> HandingBack"
  shows "\<exists>p head key f. bn_progress s = Kept p \<and> bn_exists s \<and> vetted v p head \<and>
    res_effects r = [Effect key (Some f)] \<and>
    (res_state r = Opening \<and> (\<exists>q. bn_progress t = Kept q \<and> dv_progress q = (dv_progress p)\<lparr>pg_head := head\<rparr>) \<and>
       (\<exists>note. f = (\<lambda>b. (fst (noting (dl_note_saved (ie_params v)) (dl_note_removed (ie_params v))
         (push_stem (pg_branch (dv_progress p)) head)
         (dl_push (ie_params v) head (pg_branch (dv_progress p)) (pg_pushed (dv_progress p))) note), b))) \<or>
     res_state r = Pushing \<and> \<not> ip_cut p \<and> pg_pushed (dv_progress p) = '''' \<and>
       dl_remote (ie_params v) (whole_branch (pg_branch (dv_progress p))) = Inr '''' \<and>
       f = (\<lambda>b. (dl_push (ie_params v) head (whole_branch (pg_branch (dv_progress p))) '''', b)))"
proof -
  have n: "\<not> asks_nothing r" using assms(2,3) by (simp add: asks_nothing_def)
  from assms(1) obtain found s1 where l: "load_progress (j_id j) s = Some (Inr found, s1)"
    and r: "(case (if bn_exists s1 then found else None) of None \<Rightarrow> imp_gone v j now
        | Some p \<Rightarrow> if ip_cutting p then give (goes_to Implementing now)
            else (let (r, ok) = machine_over Implementing now p in
              if ok \<and> res_state r \<noteq> Pushing then give r else imp_push_work v j now p)) s1 = Some (Inr r, t)"
    by (auto simp: imp_push_def step_simps)
  from l have s1: "s1 = s" and found: "\<And>p. found = Some p \<Longrightarrow> bn_progress s = Kept p"
    by (auto simp: load_progress_def step_simps split: kept_file.splits if_splits)
  from r n obtain p where p: "found = Some p" "bn_exists s"
    by (auto simp: imp_gone_def step_simps s1 split: option.splits if_splits)
  with r n s1 have "imp_push_work v j now p s = Some (Inr r, t)"
    by (auto simp: machine_over_def Let_def split: if_splits)
  from push_work_sends [OF this n] found [OF p(1)] p(2) show ?thesis by blast
qed


subsection \<open>A first push\<close>

definition quiet_imp :: imp_env where
  "quiet_imp = \<lparr>ie_params = quiet_env\<lparr>dl_denylist := [''*.key'']\<rparr>, ie_prefix = ''afk/'', ie_procedure = ''docs/review.md'',
     ie_render = (\<lambda>_ _. Inr ''work''), ie_premises = (\<lambda>_. Inr False), ie_prepare = \<lparr>pe_clone = Inr ''main'',
       pe_heads = Inr '''', pe_switch = (\<lambda>_. None), pe_rev_head = Inr ''b0''\<rparr>, ie_nonce = Inr ''n'', ie_issues = Inr [],
     ie_issues_later = Inr [], ie_blockers = (\<lambda>_. Inr []), ie_blockers_later = (\<lambda>_. Inr []), ie_create_pr = (\<lambda>_. None),
     ie_create_issue = (\<lambda>_ _. None), ie_block = (\<lambda>_ _. None)\<rparr>"

definition first_push :: imp_delivery where
  "first_push = fresh_progress ''n'' ''afk/7-1'' ''b0'' ''main''"

lemma first_push_fields [simp]:
  "pg_branch (dv_progress first_push) = ''afk/7-1''" "pg_base (dv_progress first_push) = ''b0''"
  "pg_pushed (dv_progress first_push) = ''''" "dv_correction first_push = None" "\<not> ip_cutting first_push"
  "progress_complete (dv_progress first_push)"
  by (simp_all add: first_push_def fresh_progress_def progress_complete_def)


lemma quiet_imp_fields [simp]:
  "dl_relay (ie_params quiet_imp) b = Inr ''h1''" "dl_touched (ie_params quiet_imp) a h = Inr ''a.go''"
  "dl_denylist (ie_params quiet_imp) = [''*.key'']" "dl_signal (ie_params quiet_imp) = 400"
  "dl_sensitive (ie_params quiet_imp) = []" "dl_rounds (ie_params quiet_imp) = 2"
  "dl_file_error (ie_params quiet_imp) f = None" "dl_push (ie_params quiet_imp) h b l = None"
  by (simp_all add: quiet_imp_def quiet_env_def)

lemma quiet_measured: "measured (ie_params quiet_imp) base head = give \<lparr>ct_lines = 0, ct_tests = 0\<rparr>"
proof -
  have "changed_files (Some '''') (Some '''') = Some []" by code_simp
  then show ?thesis by (simp add: measured_def measure_diff_def quiet_imp_def quiet_env_def)
qed

lemma quiet_vet: "imp_vet quiet_imp j now first_push ''h1'' = give None"
proof -
  have "touched_paths (Inr ''a.go'') = Inr [''a.go'']" "denied [''*.key''] [''a.go''] = []" by code_simp+
  then show ?thesis by (simp add: imp_vet_def Let_def)
qed

lemma quiet_push:
  "\<exists>r t. imp_push quiet_imp zero_job 50 (example_bench first_push) = Some (Inr r, t) \<and> res_state r = Opening \<and>
     res_effects r \<noteq> []"
proof -
  let ?s = "example_bench first_push :: (imp_delivery, int) bench"
  let ?p = "first_push\<lparr>ip_lines := 0, ip_tests := 0, ip_sensitive := []\<rparr>"
  have l: "load_progress (j_id zero_job) ?s = Some (Inr (Some first_push), ?s)"
    by (rule load_progress_runs) (simp_all add: example_bench_def)
  have o: "\<not> over_signal \<lparr>ct_lines = 0, ct_tests = 0\<rparr> 400" by code_simp
  have k: "push_round_of (ie_params quiet_imp) (dv_progress ?p) ''h1'' 0 ?s = Some (Inr (Inr
      (Effect (round_key (push_stem ''afk/7-1'' ''h1'') 0) (Some (\<lambda>d. (fst (noting True True (push_stem ''afk/7-1'' ''h1'') None None), d))))), ?s)"
    by (simp add: push_round_of_def next_key_def on_world_def noting_effect_def first_key example_bench_def Let_def
        and_then_def look_def give_def)
      (simp add: quiet_imp_def quiet_env_def)
  have "imp_push_work quiet_imp zero_job 50 first_push ?s = imp_pushes quiet_imp zero_job 50 ?p ''h1'' ?s"
    by (simp add: imp_push_work_def quiet_vet quiet_measured imp_cuts_def o imp_sensitive_def Let_def)
  moreover have "imp_pushes quiet_imp zero_job 50 ?p ''h1'' ?s = Some (Inr (goes_with Opening 50
      [Effect (round_key (push_stem ''afk/7-1'' ''h1'') 0) (Some (\<lambda>d. (fst (noting True True (push_stem ''afk/7-1'' ''h1'') None None), d)))]),
      ?s\<lparr>bn_progress := Kept (?p\<lparr>dv_progress := (dv_progress ?p)\<lparr>pg_head := ''h1''\<rparr>\<rparr>)\<rparr>)"
    using k by (simp add: imp_pushes_def Let_def and_then_def correction_push_from_def save_progress_def give_def alter_def)
  moreover have "imp_push quiet_imp zero_job 50 ?s = imp_push_work quiet_imp zero_job 50 first_push ?s"
    by (simp add: imp_push_def and_then_runs [of "load_progress (j_id zero_job)" ?s "Some first_push" ?s, OF l] machine_over_def correction_over_def Let_def)
      (simp add: example_bench_def)
  ultimately show ?thesis by (simp add: goes_with_def goes_to_def)
qed

theorem push_is_vetted_witness:
  "\<exists>r t key f. imp_push quiet_imp zero_job 50 (example_bench first_push) = Some (Inr r, t) \<and>
     res_effects r = [Effect key (Some f)] \<and> vetted quiet_imp first_push ''h1''"
proof -
  from quiet_push obtain r t where r: "imp_push quiet_imp zero_job 50 (example_bench first_push) = Some (Inr r, t)"
    "res_state r = Opening" "res_effects r \<noteq> []" by blast
  have "res_state r \<noteq> HandingBack" by (simp add: r(2) Opening_def HandingBack_def)
  from push_is_vetted [OF r(1,3) this] obtain p head key f where
    "bn_progress (example_bench first_push :: (imp_delivery, int) bench) = Kept p" "vetted quiet_imp p head"
    "res_effects r = [Effect key (Some f)]" by blast
  moreover from this have "p = first_push" "head = ''h1''"
    by (simp_all add: example_bench_def vetted_def Let_def)
  ultimately show ?thesis using r(1) by blast
qed

theorem implement_never_strands_witness:
  "\<exists>r t (name :: string) tokens f. imp_step_of quiet_imp (zero_job\<lparr>j_state := Pushing\<rparr>) 60 ((example_bench first_push)\<lparr>bn_exists := False\<rparr>) =
      Some (Inr r, t) \<and> res_state r = Implementing \<and> (name, Implementing, tokens, f) \<in> set imp_transitions"
proof -
  let ?s = "(example_bench first_push)\<lparr>bn_exists := False\<rparr> :: (imp_delivery, int) bench"
  let ?j = "zero_job\<lparr>j_state := Pushing\<rparr>"
  have l: "load_progress (j_id zero_job) ?s = Some (Inr (Some first_push), ?s)"
    by (rule load_progress_runs) (simp_all add: example_bench_def)
  have "imp_step_of quiet_imp ?j 60 = imp_push quiet_imp ?j 60"
    by (simp add: imp_step_of_def step_from_def imp_transitions_def Pushing_def Start_state_def Claiming_def Implementing_def Gating_def)
  moreover have "\<exists>t. imp_push quiet_imp ?j 60 ?s = Some (Inr (goes_to Implementing 60), t)"
    by (simp add: imp_push_def and_then_runs [of "load_progress (j_id zero_job)" ?s "Some first_push" ?s, OF l])
      (simp add: imp_gone_def clear_job_def discard_def and_then_def alter_def give_def example_bench_def)
  ultimately obtain t where s: "imp_step_of quiet_imp ?j 60 ?s = Some (Inr (goes_to Implementing 60), t)" by auto
  have "bench_run_to imp_moves (j_id ?j) ?s"
    by (rule bench_run_to.begins) (simp add: no_shelf_def example_bench_def)
  from implement_never_strands [OF this s] obtain name tokens f where
    "(name, res_state (goes_to Implementing 60), tokens, f) \<in> set imp_transitions" by blast
  with s show ?thesis by (auto simp: goes_to_def)
qed

end
