(* ===== verification/Revise_Text.thy ===== *)
theory Revise_Text
  imports Implement_Text
begin

text \<open>
  What a revision reads and writes, \<^verbatim>\<open>internal/revise/\<close>, below its transitions: the conversation in
  the order it was written, which command was written during a revision and what its points are
  (\<^verbatim>\<open>revise.go\<close>); what the session is given (\<^verbatim>\<open>revise_run.go\<close>); the reply and the session's sections
  of it (\<^verbatim>\<open>revise_reply.go\<close>); and the replay of its commits onto someone else's push
  (\<^verbatim>\<open>internal/work/replay.go\<close>), where git is a parameter.
\<close>

subsection \<open>The conversation\<close>

definition revise_word :: string where "revise_word = ''/revise''"

fun merge_timeline :: "gh_comment list \<Rightarrow> pr_review list \<Rightarrow> owed_command list" where
  "merge_timeline cs [] = map ByComment cs"
| "merge_timeline cs (r # rs) =
     (let before = takeWhile (\<lambda>c. cm_created_at c \<le> rv_submitted_at r) cs in
      map ByComment before @ ByReview r # merge_timeline (drop (length before) cs) rs)"

definition timeline :: "gh_comment list \<Rightarrow> pr_review list \<Rightarrow> owed_command list" where
  "timeline comments reviews =
     merge_timeline comments (sort_key rv_submitted_at (filter (\<lambda>r. rv_state r \<noteq> ''PENDING'') reviews))"

text \<open>The last place a command has in a conversation, and the commands before and after it.\<close>

fun last_place :: "owed_command \<Rightarrow> owed_command list \<Rightarrow> nat option" where
  "last_place c [] = None"
| "last_place c (e # es) =
     (case last_place c es of
        Some i \<Rightarrow> Some (Suc i)
      | None \<Rightarrow> if same_command e c then Some 0 else None)"

fun answers_with :: "string \<Rightarrow> string \<Rightarrow> owed_command \<Rightarrow> bool" where
  "answers_with login marker (ByComment c) \<longleftrightarrow> equal_fold (cm_login c) login \<and> contains (cm_body c) marker"
| "answers_with login marker (ByReview r) \<longleftrightarrow> False"

definition in_flight :: "string \<Rightarrow> owed_command list \<Rightarrow> owed_command \<Rightarrow> bool" where
  "in_flight login conversation c =
     (let (earlier, later) = (case last_place c conversation of
            None \<Rightarrow> ([], conversation)
          | Some i \<Rightarrow> (take i conversation, drop (Suc i) conversation)) in
      list_ex (\<lambda>e. command_issues e login revise_word \<and>
        list_ex (answers_with login (command_revision_marker e)) later) earlier)"

subsection \<open>Points\<close>

record point =
  pt_comment :: int
  pt_review :: int
  pt_text :: string
  pt_path :: string
  pt_line :: int
  pt_url :: string

record send_back =
  sb_head :: string
  sb_ref :: string
  sb_points :: "point list"
  sb_pushed :: string

definition no_point :: point where
  "no_point = \<lparr>pt_comment = 0, pt_review = 0, pt_text = '''', pt_path = '''', pt_line = 0, pt_url = ''''\<rparr>"

definition points_of :: "string \<Rightarrow> string" where
  "points_of body =
     trim_space (case cut_prefix (trim_space body) revise_word of None \<Rightarrow> trim_space body | Some rest \<Rightarrow> rest)"

text \<open>\<open>Inl\<close> is the head a line comment was written on, when it is not the pull request's.\<close>

fun line_points :: "string \<Rightarrow> int \<Rightarrow> line_comment list \<Rightarrow> string + point list" where
  "line_points head review [] = Inr []"
| "line_points head review (l # ls) =
     (if lc_commit_id l \<noteq> head then Inl (lc_commit_id l)
      else map_sum id (\<lambda>ps. let t = trim_space (lc_body l) in
        if t \<noteq> '''' then no_point\<lparr>pt_review := review, pt_text := t, pt_path := lc_path l, pt_line := lc_line l,
          pt_url := lc_url l\<rparr> # ps else ps) (line_points head review ls))"

text \<open>A command's points, and the head it was written against.\<close>

definition command_points :: "(int \<Rightarrow> gh_error + line_comment list) \<Rightarrow> owed_command \<Rightarrow> string \<Rightarrow>
    gh_error + (point list \<times> string)" where
  "command_points lines c head =
     (case c of
        ByComment c \<Rightarrow>
          Inr (if points_of (cm_body c) \<noteq> ''''
               then ([no_point\<lparr>pt_comment := cm_id c, pt_text := points_of (cm_body c)\<rparr>], head) else ([], head))
      | ByReview r \<Rightarrow>
          if rv_commit_id r \<noteq> head then Inr ([], rv_commit_id r)
          else
            let body = (if points_of (rv_body r) \<noteq> ''''
                  then [no_point\<lparr>pt_review := rv_id r, pt_text := points_of (rv_body r)\<rparr>] else []) in
            case lines (rv_id r) of
              Inl e \<Rightarrow> Inl e
            | Inr ls \<Rightarrow> Inr (case line_points head (rv_id r) ls of Inl at_head \<Rightarrow> ([], at_head) | Inr ps \<Rightarrow> (body @ ps, head)))"

subsection \<open>Refusals\<close>

definition no_points_said :: "owed_command \<Rightarrow> string" where
  "no_points_said c =
     (case c of
        ByReview r \<Rightarrow> ''There is nothing here to revise. Write the points after '' @ tick revise_word @
          '' in the review's body, or as line comments in the same review. Nothing was done.''
      | ByComment x \<Rightarrow> ''There is nothing here to revise. Write the points after '' @ tick revise_word @
          '', in the same comment. Nothing was done.'')"

definition unpushable_said :: "string \<Rightarrow> string" where
  "unpushable_said repo = ''This pull request's branch is not in '' @ repo @
     '', so the agent cannot push to it. Nothing was done.''"

definition in_flight_said :: string where
  "in_flight_said = ''A revision of this pull request was in flight when this was written, so the head it was written against is no longer the pull request's. Nothing was done: read what the revision changed, then '' @
     tick revise_word @ '' again.''"

definition written_on_said :: "string \<Rightarrow> string \<Rightarrow> string" where
  "written_on_said on head = ''This review was written against '' @ tick (git_short on) @
     '', and the pull request's head is now '' @ tick (git_short head) @
     '', so what it points at may have moved. Nothing was done: read the pull request at its head, then '' @
     tick revise_word @ '' again.''"

text \<open>What a claim owes for its commands, and the points it takes, with the first command taken.\<close>

record claim_taken =
  cl_items :: "owed_item list"
  cl_points :: "point list"
  cl_first :: string

fun take_commands :: "string \<Rightarrow> string \<Rightarrow> (int \<Rightarrow> gh_error + line_comment list) \<Rightarrow> int \<Rightarrow> pull_request \<Rightarrow>
    owed_command list \<Rightarrow> owed_command list \<Rightarrow> claim_taken \<Rightarrow> gh_error + claim_taken" where
  "take_commands login repo lines n pr conversation [] k = Inr k"
| "take_commands login repo lines n pr conversation (c # cs) k =
     (let refuse = (\<lambda>stem body. k\<lparr>cl_items := cl_items k @ [command_reply c (stem @ command_key c) n body]\<rparr>);
          go = take_commands login repo lines n pr conversation cs in
      if \<not> equal_fold (pr_head_repo pr) repo then go (refuse ''revise-unpushable-'' (unpushable_said repo))
      else if in_flight login conversation c then go (refuse ''revise-in-flight-'' in_flight_said)
      else (case command_points lines c (pr_head_sha pr) of
          Inl e \<Rightarrow> Inl e
        | Inr (pts, on) \<Rightarrow>
            if on \<noteq> pr_head_sha pr then go (refuse ''revise-moved-'' (written_on_said on (pr_head_sha pr)))
            else if pts = [] then go (refuse ''revise-no-points-'' (no_points_said c))
            else go (k\<lparr>cl_points := cl_points k @ pts, cl_first := (if cl_first k = '''' then command_key c else cl_first k)\<rparr>)))"

text \<open>The commands a send-back answers, in order: the reviews each once.\<close>

fun answered_from :: "point list \<Rightarrow> int list \<Rightarrow> int list \<Rightarrow> int list \<times> int list" where
  "answered_from [] cs rs = (cs, rs)"
| "answered_from (p # ps) cs rs =
     (if pt_review p \<noteq> 0
      then answered_from ps cs (if rs = [] \<or> last rs \<noteq> pt_review p then rs @ [pt_review p] else rs)
      else if pt_comment p \<noteq> 0 then answered_from ps (cs @ [pt_comment p]) rs
      else answered_from ps cs rs)"

definition answered_by :: "point list \<Rightarrow> int list \<times> int list" where
  "answered_by ps = answered_from ps [] []"

definition answer_marks :: "int list \<Rightarrow> int list \<Rightarrow> string" where
  "answer_marks comments reviews =
     concat (map (\<lambda>i. revision_marker i @ nl) comments) @ concat (map (\<lambda>i. review_revision_marker i @ nl) reviews)"

definition revision_hand_back_marker :: "int \<Rightarrow> string \<Rightarrow> string" where
  "revision_hand_back_marker n key = ''<!-- afk:revision-hand-back pr='' @ dec n @ '' key='' @ key @ '' -->''"

subsection \<open>What the session is given\<close>

definition point_from :: "point \<Rightarrow> string" where
  "point_from p =
     (if pt_url p \<noteq> '''' \<and> 0 < pt_line p
      then ''a line comment on '' @ tick (pt_path p) @ '' line '' @ dec (pt_line p) @ '', in the review with id '' @
        dec (pt_review p) @ '': '' @ pt_url p
      else if pt_url p \<noteq> ''''
      then ''a line comment on the file '' @ tick (pt_path p) @ '', in the review with id '' @ dec (pt_review p) @ '': '' @ pt_url p
      else if pt_review p \<noteq> 0 then ''from the body of the review with id '' @ dec (pt_review p)
      else ''from the command with id '' @ dec (pt_comment p))"

fun numbered_points :: "int \<Rightarrow> point list \<Rightarrow> string" where
  "numbered_points i [] = ''''"
| "numbered_points i (p # ps) =
     dec i @ ''. '' @ pt_text p @ nl @ ''   ('' @ point_from p @ '')'' @ nl @ nl @ numbered_points (i + 1) ps"

text \<open>\<^verbatim>\<open><!-- afk:implement issue=(\d+) -->\<close>, the leftmost match's digits.\<close>

fun linked_digits :: "string \<Rightarrow> string option" where
  "linked_digits s =
     (case (case cut_prefix s ''<!-- afk:implement issue='' of
          None \<Rightarrow> None
        | Some t \<Rightarrow> if takeWhile is_digit t \<noteq> '''' \<and> cut_prefix (dropWhile is_digit t) '' -->'' \<noteq> None
            then Some (takeWhile is_digit t) else None) of
        Some ds \<Rightarrow> Some ds
      | None \<Rightarrow> (case s of [] \<Rightarrow> None | c # cs \<Rightarrow> linked_digits cs))"

definition linked_number :: "string \<Rightarrow> int option" where
  "linked_number body = (case linked_digits body of None \<Rightarrow> None | Some ds \<Rightarrow> parse_int64 ds)"

definition linked_text :: "gh_issue \<Rightarrow> string" where
  "linked_text is1 = nl @ ''## The issue this pull request is for'' @ nl @ nl @ ''# Issue #'' @ dec (is_number is1) @ '': '' @
     is_title is1 @ nl @ nl @
     (if trim_space (is_body is1) = '''' then ''(no description)'' @ nl else is_body is1 @ nl)"

definition send_back_file :: "int \<Rightarrow> send_back \<Rightarrow> string \<Rightarrow> gh_issue option \<Rightarrow> string" where
  "send_back_file n sb diff issue = (let fence = replicate 3 (CHR 0x60) in
     ''# Revision of pull request #'' @ dec n @ nl @ nl @
     ''The head this send-back was written against is '' @ tick (sb_head sb) @ ''.'' @ nl @ nl @
     ''## The points'' @ nl @ nl @ numbered_points 1 (sb_points sb) @
     ''## The diff at that head'' @ nl @ nl @ fence @ ''diff'' @ nl @ diff @ nl @ fence @ nl @
     (case issue of None \<Rightarrow> '''' | Some is1 \<Rightarrow> linked_text is1))"

subsection \<open>The session's part of the reply\<close>

text \<open>\<^verbatim>\<open>(?s)<!--.*?-->\<close> taken out, each match as short as it can be and none overlapping: the text
  copied, and how many characters of a match are still to be skipped.\<close>

fun without_hidden :: "nat \<Rightarrow> string \<Rightarrow> string" where
  "without_hidden k [] = []"
| "without_hidden (Suc k) (c # cs) = without_hidden k cs"
| "without_hidden 0 (c # cs) =
     (case (if has_prefix (c # cs) ''<!--'' then index_of (drop 4 (c # cs)) ''-->'' else None) of
        Some i \<Rightarrow> without_hidden (i + 6) cs
      | None \<Rightarrow> c # without_hidden 0 cs)"

fun open_escaped :: "nat \<Rightarrow> string \<Rightarrow> string" where
  "open_escaped k [] = []"
| "open_escaped (Suc k) (c # cs) = open_escaped k cs"
| "open_escaped 0 (c # cs) =
     (if has_prefix (c # cs) ''<!--'' then ''&lt;!--'' @ open_escaped 3 cs else c # open_escaped 0 cs)"

definition reply_sections :: "string list" where
  "reply_sections = [''Points'', ''Suggested follow-ups'', ''Not verified'']"

text \<open>The section a line is in, whether a fence is open, and each section's text so far.\<close>

record reply_state =
  rs_at :: "string option"
  rs_fence :: bool
  rs_bodies :: "string \<rightharpoonup> string"

definition reply_heading :: "string \<Rightarrow> string option" where
  "reply_heading h = find (\<lambda>name. equal_fold (trim_space h) name) reply_sections"

definition reply_line :: "string \<Rightarrow> reply_state \<Rightarrow> reply_state" where
  "reply_line line s =
     (let t = trim_space line; ticks = replicate 3 (CHR 0x60);
          s = (if has_prefix t ticks \<or> has_prefix t ''~~~'' then s\<lparr>rs_fence := \<not> rs_fence s\<rparr> else s) in
      case (if rs_fence s then None else cut_prefix line ''## '') of
        Some h \<Rightarrow>
          (case reply_heading h of
             None \<Rightarrow> s\<lparr>rs_at := None\<rparr>
           | Some name \<Rightarrow> s\<lparr>rs_at := Some name, rs_bodies := (rs_bodies s)(name \<mapsto>
               (case rs_bodies s name of None \<Rightarrow> '''' | Some b \<Rightarrow> b))\<rparr>)
      | None \<Rightarrow>
          (case rs_at s of
             None \<Rightarrow> s
           | Some name \<Rightarrow> s\<lparr>rs_bodies := (rs_bodies s)(name \<mapsto>
               (case rs_bodies s name of None \<Rightarrow> '''' | Some b \<Rightarrow> b) @ line @ nl)\<rparr>))"

definition reply_start :: reply_state where
  "reply_start = \<lparr>rs_at = None, rs_fence = False, rs_bodies = (\<lambda>_. None)\<rparr>"

definition shown_text :: "string \<Rightarrow> string" where
  "shown_text txt = open_escaped 0 (without_hidden 0 txt)"

definition reply_part :: "reply_state \<Rightarrow> string" where
  "reply_part s =
     join (concat (map (\<lambda>name. case rs_bodies s name of
         None \<Rightarrow> []
       | Some b \<Rightarrow> if trim_space b \<noteq> '''' then [''## '' @ name @ nl @ nl @ trim_space b] else []) reply_sections)) (nl @ nl)"

definition sections_of :: "string \<Rightarrow> string" where
  "sections_of txt = reply_part (fold reply_line (split_on (CHR 0x0A) (shown_text txt)) reply_start)"

subsection \<open>The replay\<close>

record conflict =
  cf_commit :: string
  cf_subject :: string
  cf_paths :: "string list"
  cf_parents :: int

definition conflict_said :: "conflict \<Rightarrow> string \<Rightarrow> string" where
  "conflict_said c onto =
     (let what = tick (git_short (cf_commit c)) @ '' ('' @ cf_subject c @ '')'' in
      if cf_paths c \<noteq> []
      then what @ '' conflicts with '' @ tick (git_short onto) @ '' in '' @ quoted_paths (cf_paths c) @ ''.''
      else if cf_parents c = 0
      then what @ '' has no parent, and the agent does not replay a history with a root of its own onto '' @ tick (git_short onto) @ ''.''
      else what @ '' is a merge commit, and the agent does not replay one onto '' @ tick (git_short onto) @ ''.'')"

text \<open>\<open>rl_tree\<close> is \<^verbatim>\<open>git merge-tree\<close> of a commit's change from its parent onto a head: its output and
  whether it exited clean. \<open>rl_who\<close> and \<open>rl_message\<close> are what \<^verbatim>\<open>git log\<close> says of a commit, and
  \<open>rl_commit\<close> is \<^verbatim>\<open>git commit-tree\<close>, given the five fields, the message, the tree and the parent.\<close>

record replay_env =
  rl_fetch :: "string option"
  rl_tip :: "string io"
  rl_base :: "string \<Rightarrow> string \<Rightarrow> string io"
  rl_list :: "string \<Rightarrow> string \<Rightarrow> string io"
  rl_subject :: "string \<Rightarrow> string io"
  rl_tree :: "string \<Rightarrow> string \<Rightarrow> string \<Rightarrow> (string \<times> bool) io"
  rl_who :: "string \<Rightarrow> string io"
  rl_message :: "string \<Rightarrow> string io"
  rl_commit :: "string list \<Rightarrow> string \<Rightarrow> string \<Rightarrow> string \<Rightarrow> (string \<times> bool) io"
  rl_update :: "string \<Rightarrow> string option"
  rl_import :: "string \<Rightarrow> string \<Rightarrow> string option"

definition commit_subject :: "replay_env \<Rightarrow> string \<Rightarrow> string" where
  "commit_subject v oid =
     (case rl_subject v oid of Inl e \<Rightarrow> git_short oid | Inr s \<Rightarrow> if s = '''' then git_short oid else s)"

fun distinct_paths :: "string list \<Rightarrow> string list \<Rightarrow> string list" where
  "distinct_paths seen [] = []"
| "distinct_paths seen (p # ps) =
     (if p \<noteq> '''' \<and> p \<notin> set seen then p # distinct_paths (p # seen) ps else distinct_paths seen ps)"

definition tree_fields :: "string \<Rightarrow> string list" where
  "tree_fields out = split_on (CHR 0x00) (trim_right out (CHR 0x00))"

text \<open>\<open>Inl\<close> is the paths that conflict, \<open>Inr\<close> the tree.\<close>

definition merge_tree :: "replay_env \<Rightarrow> string \<Rightarrow> string \<Rightarrow> string \<Rightarrow> (string list + string) io" where
  "merge_tree v parent head oid =
     map_sum id (\<lambda>(out, clean).
       if clean then Inr (List.hd (tree_fields out))
       else
         let paths = distinct_paths [] (tl (tree_fields out)) in
         Inl (if paths = [] then [''(git named no path)''] else paths)) (rl_tree v parent head oid)"

definition trim_newline :: "string \<Rightarrow> string" where
  "trim_newline s = (if has_suffix s nl then butlast s else s)"

definition recommit :: "replay_env \<Rightarrow> string \<Rightarrow> string \<Rightarrow> string \<Rightarrow> string io" where
  "recommit v oid tree parent =
     (case rl_who v oid of
        Inl e \<Rightarrow> Inl e
      | Inr who \<Rightarrow>
          let f = split_on (CHR 0x00) (trim_newline who) in
          if length f \<noteq> 5 then Inl (''reading '' @ git_short oid @ '''s author and committer'')
          else (case rl_message v oid of
              Inl e \<Rightarrow> Inl e
            | Inr message \<Rightarrow> (case rl_commit v f message tree parent of
                Inl e \<Rightarrow> Inl e
              | Inr (out, clean) \<Rightarrow> if clean then Inr (trim_space out) else Inl ''git commit-tree exited 1'')))"

text \<open>The commits put on top of \<open>head\<close> one by one: \<open>Inl\<close> is the conflict that stopped them.\<close>

fun replay_commits :: "replay_env \<Rightarrow> string \<Rightarrow> string list \<Rightarrow> (conflict + string) io" where
  "replay_commits v head [] = Inr (Inr head)"
| "replay_commits v head (line # ls) =
     (case words line of
        [] \<Rightarrow> replay_commits v head ls
      | [oid, parent] \<Rightarrow>
          (case merge_tree v parent head oid of
             Inl e \<Rightarrow> Inl e
           | Inr (Inl paths) \<Rightarrow> Inr (Inl \<lparr>cf_commit = oid, cf_subject = commit_subject v oid, cf_paths = paths, cf_parents = 1\<rparr>)
           | Inr (Inr tree) \<Rightarrow>
               (case recommit v oid tree head of
                  Inl e \<Rightarrow> Inl e
                | Inr head \<Rightarrow> replay_commits v head ls))
      | oid # parents \<Rightarrow>
          Inr (Inl \<lparr>cf_commit = oid, cf_subject = commit_subject v oid, cf_paths = [], cf_parents = int (length parents)\<rparr>))"

definition replay_onto :: "replay_env \<Rightarrow> string \<Rightarrow> string \<Rightarrow> (conflict + string) io" where
  "replay_onto v branch onto =
     (case rl_fetch v of
        Some e \<Rightarrow> Inl e
      | None \<Rightarrow> (case rl_tip v of
          Inl e \<Rightarrow> Inl e
        | Inr tip \<Rightarrow> (case rl_base v onto tip of
            Inl e \<Rightarrow> Inl e
          | Inr base \<Rightarrow>
              if base = onto then Inr (Inr tip)
              else (case rl_list v base tip of
                  Inl e \<Rightarrow> Inl e
                | Inr out \<Rightarrow> (case replay_commits v onto (split_on (CHR 0x0A) out) of
                    Inl e \<Rightarrow> Inl e
                  | Inr (Inl c) \<Rightarrow> Inr (Inl c)
                  | Inr (Inr head) \<Rightarrow> (case rl_update v head of
                      Some e \<Rightarrow> Inl e
                    | None \<Rightarrow> (case rl_import v branch head of
                        Some e \<Rightarrow> Inl e
                      | None \<Rightarrow> Inr (Inr head))))))))"

end
