(* ===== verification/Revise.thy ===== *)
theory Revise
  imports Revise_Text Delivery
begin

text \<open>
  The revise job kind, \<^verbatim>\<open>internal/revise/\<close>: a pull request sent back with points, revised by a model
  on top of the head the points were written against, gated, pushed under a lease, replayed onto
  anyone else's push, watched through CI, answered with one reply, and handed off or back. Thirteen
  transitions over thirteen states, each a step on the job's bench, whose request is the send-back.
\<close>

subsection \<open>The kind\<close>

definition Rev_Claiming :: string where "Rev_Claiming = ''claiming''"
definition Revising :: string where "Revising = ''revising''"
definition Pushed :: string where "Pushed = ''pushed''"
definition Replaying :: string where "Replaying = ''replaying''"
definition Replying :: string where "Replying = ''replying''"

record rev_delivery = delivery +
  rw_read :: string
  rw_points :: "int list"
  rw_reviews :: "int list"
  rw_reply :: string
  rw_replays :: int
  rw_measured :: bool
  rw_lines :: int
  rw_tests :: int
  rw_sensitive :: "touched list"

datatype rev_template = RevWhole | RevRetry | RevCorrect

record rev_prompt =
  rq_number :: int
  rq_branch :: string
  rq_gate :: string
  rq_failed :: bool
  rq_why :: string
  rq_correcting :: bool
  rq_reviewed :: string

text \<open>\<open>rx_cancelled\<close> is the context done, and \<open>rx_pull_later\<close> the pull request as an effect finds it.\<close>

record rev_env =
  rx_params :: delivery_env
  rx_replays :: int
  rx_pull :: "int \<Rightarrow> gh_error + pull_request"
  rx_pull_later :: "gh_error + pull_request"
  rx_reviews :: "gh_error + pr_review list"
  rx_lines :: "int \<Rightarrow> gh_error + line_comment list"
  rx_render :: "rev_template \<Rightarrow> rev_prompt \<Rightarrow> string io"
  rx_nonce :: "string io"
  rx_clone :: "string io"
  rx_fetch :: "string \<Rightarrow> string io"
  rx_fetch_also :: "string \<Rightarrow> string io"
  rx_has :: "string \<Rightarrow> bool io"
  rx_import :: "string \<Rightarrow> string \<Rightarrow> string option"
  rx_merge_base :: "string \<Rightarrow> string \<Rightarrow> string io"
  rx_diff :: "string \<Rightarrow> string \<Rightarrow> string io"
  rx_replay :: replay_env
  rx_cancelled :: bool

type_synonym 'a rev_step = "(rev_delivery, send_back, 'a) bench_step"

definition rev_book :: "rev_env \<Rightarrow> book" where
  "rev_book v = delivery_book (rx_params v) True"

subsection \<open>The send-back\<close>

definition load_send_back :: "send_back option rev_step" where
  "load_send_back =
     and_then (look bn_request) (\<lambda>f.
     case f of Absent \<Rightarrow> give None | Unreadable e \<Rightarrow> halt (DlFile e) | Kept sb \<Rightarrow> give (Some sb))"

definition save_send_back :: "rev_env \<Rightarrow> send_back \<Rightarrow> unit rev_step" where
  "save_send_back v sb =
     and_then (unless_error DlFile (dl_file_error (rx_params v) ''send-backs'')) (\<lambda>_.
     alter (\<lambda>s. s\<lparr>bn_request := Kept sb\<rparr>))"

definition drop_send_back :: "rev_env \<Rightarrow> unit rev_step" where
  "drop_send_back v =
     and_then (unless_error DlFile (dl_file_error (rx_params v) ''remove send-back'')) (\<lambda>_.
     alter (\<lambda>s. s\<lparr>bn_request := Absent\<rparr>))"

definition note_pushed :: "rev_env \<Rightarrow> string \<Rightarrow> unit rev_step" where
  "note_pushed v head =
     and_then load_send_back (\<lambda>found.
     case found of
       None \<Rightarrow> give ()
     | Some sb \<Rightarrow> if sb_pushed sb = head then give () else save_send_back v (sb\<lparr>sb_pushed := head\<rparr>))"

subsection \<open>Claiming\<close>

definition rev_claim :: "rev_env \<Rightarrow> job \<Rightarrow> instant \<Rightarrow> result rev_step" where
  "rev_claim v j now =
     (let n = sub_number (j_subject j); d = rx_params v; tk = dl_tracker d; b = rev_book v in
      if dl_repo d = '''' then halt (DlRefused ''revise does not know its repository'')
      else
      and_then (lift_sum DlTracker (rx_pull v n)) (\<lambda>pr.
      and_then (lift_sum DlTracker (ot_comments tk n)) (\<lambda>comments.
      and_then (lift_sum DlTracker (rx_reviews v)) (\<lambda>reviews.
      let conversation = timeline comments reviews in
      and_then (lift_sum DlOwed (unanswered_commands b tk conversation revise_word)) (\<lambda>commands.
      let items = map command_claim commands in
      and_then (drop_send_back v) (\<lambda>_.
      if pr_state pr \<noteq> ''open''
      then owes b j now Rev_Claiming \<lparr>or_next = Start_state, or_due = False, or_items = items\<rparr>
      else
      and_then (lift_sum DlTracker (take_commands (dl_login d) (dl_repo d) (rx_lines v) n pr conversation commands
          \<lparr>cl_items = items, cl_points = [], cl_first = ''''\<rparr>)) (\<lambda>k.
      if cl_points k = []
      then owes b j now Rev_Claiming \<lparr>or_next = Start_state, or_due = False, or_items = cl_items k\<rparr>
      else
      and_then (save_send_back v \<lparr>sb_head = pr_head_sha pr, sb_ref = pr_head_ref pr, sb_points = cl_points k, sb_pushed = ''''\<rparr>) (\<lambda>_.
      owes b j now Rev_Claiming \<lparr>or_next = Revising, or_due = True, or_items =
        cl_items k @ [unlabel_item (''revise-unlabel-'' @ cl_first k) n (dl_off_label d)]\<rparr>))))))))"

definition rev_claimed :: "rev_env \<Rightarrow> job \<Rightarrow> instant \<Rightarrow> result rev_step" where
  "rev_claimed v j now = settles (rev_book v) (dl_tracker (rx_params v)) j now (goes_to Start_state now)"

definition rev_handed_back :: "rev_env \<Rightarrow> job \<Rightarrow> instant \<Rightarrow> result rev_step" where
  "rev_handed_back v j now =
     and_then (drop_send_back v) (\<lambda>_.
     settles (rev_book v) (dl_tracker (rx_params v)) j now (rests_in Start_state))"

subsection \<open>Handing back\<close>

definition rev_hand_back_on :: "rev_env \<Rightarrow> job \<Rightarrow> instant \<Rightarrow> string \<Rightarrow> spent \<Rightarrow> string \<Rightarrow> string \<Rightarrow> string \<Rightarrow> string \<Rightarrow>
    result rev_step" where
  "rev_hand_back_on v j now marks sp key reason detail output =
     (let n = sub_number (j_subject j); d = rx_params v in
      hands_back d (rev_book v) j now
        \<lparr>hb_label = dl_back_label d, hb_number = n, hb_key = key, hb_marker = revision_hand_back_marker n key,
         hb_also = marks, hb_stopped = ''I stopped the revision. '' @ reason,
         hb_next = ''The pull request stays open: finish the branch by hand, or send it back again with '' @ tick revise_word @ ''.'',
         hb_detail = detail, hb_output = output, hb_spent = sp, hb_handing_back = HandingBack, hb_rest = Start_state\<rparr>)"

definition rev_marks :: "rev_delivery \<Rightarrow> string" where
  "rev_marks p = answer_marks (rw_points p) (rw_reviews p)"

definition rev_hand_back_of :: "rev_env \<Rightarrow> job \<Rightarrow> instant \<Rightarrow> rev_delivery \<Rightarrow> string \<Rightarrow> string \<Rightarrow> string \<Rightarrow> result rev_step" where
  "rev_hand_back_of v j now p reason detail output =
     rev_hand_back_on v j now (rev_marks p) (dv_spent p) (pg_nonce (dv_progress p)) reason detail output"

definition reply_of :: "string \<Rightarrow> gh_comment list \<Rightarrow> int \<Rightarrow> rev_delivery \<Rightarrow> gh_comment option" where
  "reply_of login comments n p =
     find (\<lambda>c. equal_fold (cm_login c) login \<and> contains (cm_body c) (revision_reply_marker n (pg_pushed (dv_progress p)))) comments"

definition rev_hand_back_replied :: "rev_env \<Rightarrow> job \<Rightarrow> instant \<Rightarrow> rev_delivery \<Rightarrow> string \<Rightarrow> string \<Rightarrow> result rev_step" where
  "rev_hand_back_replied v j now p reason output =
     (let n = sub_number (j_subject j); d = rx_params v in
      and_then (lift_sum DlTracker (ot_comments (dl_tracker d) n)) (\<lambda>comments.
      rev_hand_back_of v j now p reason
        (case reply_of (dl_login d) comments n p of
           None \<Rightarrow> ''What the revision did is in its reply above.''
         | Some c \<Rightarrow> ''What the revision did is in [its reply](https://github.com/'' @ dl_repo d @ ''/pull/'' @ dec n @
             ''#issuecomment-'' @ dec (cm_id c) @ '').'') output))"

definition rev_hand_back :: "rev_env \<Rightarrow> job \<Rightarrow> instant \<Rightarrow> rev_delivery \<Rightarrow> string \<Rightarrow> string \<Rightarrow> result rev_step" where
  "rev_hand_back v j now p reason output =
     (if dv_correction p \<noteq> None then rev_hand_back_replied v j now p reason output
      else rev_hand_back_of v j now p reason (rw_reply p) output)"

definition rev_lost_reason :: string where
  "rev_lost_reason = ''The agent lost its record of this revision - its state directory was wiped - so it cannot finish it.''"

definition rev_lost :: "rev_env \<Rightarrow> job \<Rightarrow> instant \<Rightarrow> result rev_step" where
  "rev_lost v j now =
     and_then (lift_sum DlTracker (rx_pull v (sub_number (j_subject j)))) (\<lambda>pr.
     rev_hand_back_on v j now '''' [] (''lost-'' @ pr_head_sha pr) rev_lost_reason '''' '''')"

definition rev_fail_correction :: "rev_env \<Rightarrow> job \<Rightarrow> instant \<Rightarrow> rev_delivery \<Rightarrow> correction \<Rightarrow> string \<Rightarrow> result rev_step" where
  "rev_fail_correction v j now p c why = fail_correction (rx_params v) Revising (rev_lost v j now) now p c why"

definition rev_stop :: "rev_env \<Rightarrow> job \<Rightarrow> instant \<Rightarrow> rev_delivery \<Rightarrow> string \<Rightarrow> string \<Rightarrow> result rev_step" where
  "rev_stop v j now p reason output =
     (case dv_correction p of
        Some c \<Rightarrow> if correction_running (Some c) then rev_fail_correction v j now p c reason
                  else rev_hand_back v j now p reason output
      | None \<Rightarrow> rev_hand_back v j now p reason output)"

definition rev_rest :: "rev_env \<Rightarrow> result rev_step" where
  "rev_rest v =
     and_then (attempted (clear_job (rx_params v))) (\<lambda>x.
     and_then (attempted (drop_send_back v)) (\<lambda>y.
     case (x, y) of
       (Inr _, Inr _) \<Rightarrow> give (rests_in Start_state)
     | (Inl e, _) \<Rightarrow> halt e
     | (_, Inl e) \<Rightarrow> halt e))"

subsection \<open>The workspace\<close>

definition lost_workspace_reason :: "string \<Rightarrow> string" where
  "lost_workspace_reason pushed = ''The agent lost the revision's workspace after it pushed '' @ tick (git_short pushed) @
     '' - part of its state directory was wiped - so it cannot fix what CI found.''"

definition lost_record_reason :: "string \<Rightarrow> string" where
  "lost_record_reason pushed = ''The agent lost its record of the revision after it pushed '' @ tick (git_short pushed) @
     '' - part of its state directory was wiped - so it cannot fix what CI found.''"

definition new_revision :: "string \<Rightarrow> string \<Rightarrow> send_back \<Rightarrow> rev_delivery" where
  "new_revision nonce branch sb =
     \<lparr>dv_progress = \<lparr>pg_nonce = nonce, pg_branch = branch, pg_base = '''', pg_into = '''', pg_head = '''',
        pg_pushed = sb_head sb, pg_pushed_at = 0, pg_session = '''', pg_last_input = 0, pg_attempts = 0,
        pg_failure = '''', pg_why = '''', pg_fixes = 0, pg_fixed_head = ''''\<rparr>,
      dv_correction = None, dv_spent = [], rw_read = sb_head sb, rw_points = fst (answered_by (sb_points sb)),
      rw_reviews = snd (answered_by (sb_points sb)), rw_reply = '''', rw_replays = 0, rw_measured = False,
      rw_lines = 0, rw_tests = 0, rw_sensitive = []\<rparr>"

text \<open>What is left to hand back of a revision whose progress went after its push.\<close>

definition lost_revision :: "send_back \<Rightarrow> rev_delivery" where
  "lost_revision sb =
     (let p = new_revision (''lost-pushed-'' @ sb_pushed sb) '''' sb in
      p\<lparr>dv_progress := (dv_progress p)\<lparr>pg_pushed := ''''\<rparr>\<rparr>)"

definition branch_deleted_reason :: "string \<Rightarrow> string" where
  "branch_deleted_reason branch = ''The pull request's branch '' @ tick branch @
     '' was deleted after the send-back was written, so there is nothing to revise.''"

definition head_gone_reason :: "string \<Rightarrow> string \<Rightarrow> string" where
  "head_gone_reason branch head = ''Someone else changed '' @ tick branch @ '' after the send-back was written: '' @
     tick (git_short head) @ '', the head it was written against, is no longer on the branch. Nothing was done, and the agent does not push over anyone else's work.''"

text \<open>The workspace made afresh: the progress, and why it cannot be, or the empty string.\<close>

definition fresh_revision :: "rev_env \<Rightarrow> job \<Rightarrow> send_back \<Rightarrow> (rev_delivery \<times> string) rev_step" where
  "fresh_revision v j sb =
     (let d = rx_params v in
      and_then (clear_job d) (\<lambda>_.
      and_then (lift_sum DlTracker (rx_pull v (sub_number (j_subject j)))) (\<lambda>pr.
      and_then (lift_sum DlFile (rx_nonce v)) (\<lambda>nonce.
      let branch = (if sb_ref sb = '''' then pr_head_ref pr else sb_ref sb); p = new_revision nonce branch sb in
      and_then (lift_sum DlGit (dl_remote d branch)) (\<lambda>at_head.
      if at_head = '''' then give (p, branch_deleted_reason branch)
      else
      and_then (unless_error DlFile (dl_file_error d ''make workspace'')) (\<lambda>_.
      and_then (lift_sum DlGit (rx_clone v)) (\<lambda>cloned.
      and_then (alter (\<lambda>s. s\<lparr>bn_exists := True\<rparr>)) (\<lambda>_.
      let into = (if pr_base_ref pr \<noteq> '''' then pr_base_ref pr else cloned) in
      and_then (lift_sum DlGit (rx_fetch v (''refs/heads/'' @ branch))) (\<lambda>fetched.
      and_then (lift_sum DlGit (rx_has v (sb_head sb))) (\<lambda>has.
      if \<not> has then give (p, head_gone_reason branch (sb_head sb))
      else
      and_then (unless_error DlGit (rx_import v branch (sb_head sb))) (\<lambda>_.
      and_then (lift_sum DlGit (rx_merge_base v (''origin/'' @ into) (sb_head sb))) (\<lambda>base.
      let p = p\<lparr>dv_progress := (dv_progress p)\<lparr>pg_base := base, pg_into := into\<rparr>\<rparr> in
      and_then (save_progress d p) (\<lambda>_. give (p, ''''))))))))))))))"

definition rev_workspace :: "rev_env \<Rightarrow> job \<Rightarrow> send_back \<Rightarrow> (rev_delivery \<times> string) rev_step" where
  "rev_workspace v j sb =
     and_then (load_progress (j_id j)) (\<lambda>found.
     and_then (look bn_exists) (\<lambda>there.
     let afresh = (if sb_pushed sb \<noteq> ''''
         then give (lost_revision sb, lost_record_reason (sb_pushed sb))
         else fresh_revision v j sb) in
     case found of
       None \<Rightarrow> afresh
     | Some p \<Rightarrow>
         if there \<and> rw_read p = sb_head sb \<and> ws_branch (dl_workspace (rx_params v)) = Inr (pg_branch (dv_progress p))
         then give (p, '''')
         else if rw_read p = sb_head sb \<and> pg_pushed (dv_progress p) \<noteq> rw_read p
         then give (p, lost_workspace_reason (pg_pushed (dv_progress p)))
         else afresh))"

subsection \<open>The session\<close>

definition rev_reset :: "rev_env \<Rightarrow> rev_delivery \<Rightarrow> unit rev_step" where
  "rev_reset v p =
     (let q = dv_progress p; d = rx_params v in
      if pg_session q = '''' \<and> pg_failure q = ''''
      then and_then (unless_error DlGit (dl_reset d (pg_pushed q))) (\<lambda>_.
        unless_error DlFile (dl_git_remove d ''afk-reply.md''))
      else give ())"

definition linked_issue :: "rev_env \<Rightarrow> int \<Rightarrow> gh_issue option rev_step" where
  "linked_issue v n =
     and_then (lift_sum DlTracker (rx_pull v n)) (\<lambda>pr.
     case linked_number (pr_body pr) of
       None \<Rightarrow> give None
     | Some i \<Rightarrow> and_then (lift_sum DlTracker (dl_issue (rx_params v) i)) (\<lambda>is1. give (Some is1)))"

text \<open>What is written for the session: the send-back, the failure, and the findings.\<close>

definition rev_spec :: "rev_env \<Rightarrow> int \<Rightarrow> send_back \<Rightarrow> rev_delivery \<Rightarrow> string rev_step" where
  "rev_spec v n sb p =
     (let d = rx_params v in
      and_then (lift_sum DlGit (rx_diff v (pg_base (dv_progress p)) (sb_head sb))) (\<lambda>diff.
      and_then (linked_issue v n) (\<lambda>issue.
      and_then (unless_error DlFile (dl_git_write d ''afk-send-back.md'')) (\<lambda>_.
      give (send_back_file n sb diff issue)))))"

definition rev_given :: "rev_env \<Rightarrow> rev_delivery \<Rightarrow> unit rev_step" where
  "rev_given v p =
     (let d = rx_params v in
      and_then (unless_error DlFile (if pg_failure (dv_progress p) \<noteq> '''' then dl_git_write d ''afk-gate.log'' else None)) (\<lambda>_.
      unless_error DlFile (if correction_running (dv_correction p) then dl_git_write d ''afk-findings.md'' else None)))"

definition rev_correcting :: "rev_delivery \<Rightarrow> bool" where
  "rev_correcting p \<longleftrightarrow> (case dv_correction p of None \<Rightarrow> False | Some c \<Rightarrow> co_failed c = '''' \<and> \<not> co_given c)"

definition rev_continues :: "rev_delivery \<Rightarrow> bool" where
  "rev_continues p \<longleftrightarrow> pg_session (dv_progress p) \<noteq> '''' \<and> (pg_failure (dv_progress p) \<noteq> '''' \<or> rev_correcting p)"

definition rev_template_for :: "rev_delivery \<Rightarrow> rev_template" where
  "rev_template_for p = (if \<not> rev_continues p then RevWhole else if rev_correcting p then RevCorrect else RevRetry)"

definition rev_prompt_of :: "rev_env \<Rightarrow> int \<Rightarrow> rev_delivery \<Rightarrow> rev_prompt" where
  "rev_prompt_of v n p = (let q = dv_progress p in
     \<lparr>rq_number = n, rq_branch = pg_branch q, rq_gate = dl_gate (rx_params v), rq_failed = (pg_failure q \<noteq> ''''),
      rq_why = pg_why q, rq_correcting = correction_running (dv_correction p),
      rq_reviewed = (case dv_correction p of None \<Rightarrow> '''' | Some c \<Rightarrow> co_reviewed c)\<rparr>)"

definition rev_forgotten :: "rev_delivery \<Rightarrow> rev_delivery" where
  "rev_forgotten p = p\<lparr>dv_progress := (dv_progress p)\<lparr>pg_session := '''', pg_last_input := 0\<rparr>\<rparr>"

definition rev_tier_run :: "rev_env \<Rightarrow> job \<Rightarrow> instant \<Rightarrow> ref \<Rightarrow> rev_delivery \<Rightarrow> (tier_ran \<times> run_request \<times> rev_delivery) rev_step" where
  "rev_tier_run v j now r p =
     (let n = sub_number (j_subject j); d = rx_params v; q = dv_progress p in
      and_then (lift_sum DlRender (rx_render v (rev_template_for p) (rev_prompt_of v n p))) (\<lambda>txt.
      let req = \<lparr>rr_model = r, rr_dir = j_id j, rr_prompt = txt,
            rr_session = (if rev_continues p then pg_session q else ''''), rr_cost = True\<rparr>;
          fresh = (\<lambda>_ :: nat. case dl_file_error d ''progress'' of Some e \<Rightarrow> Inl e
            | None \<Rightarrow> rx_render v RevWhole (rev_prompt_of v n (rev_forgotten p)));
          u = tier_run (dl_tier d) (dl_candidates_after d) j now (dl_model d) req (pg_last_input q) fresh Revising Deferred;
          p' = (if tu_forgot u = 0 then p else rev_forgotten p) in
      and_then (if tu_forgot u = 0 \<or> dl_file_error d ''progress'' \<noteq> None then give () else save_progress d p') (\<lambda>_.
      case tu_error u of
        Some e \<Rightarrow> halt (DlSession e)
      | None \<Rightarrow> give (u, req, p'))))"

definition rev_run_failed :: "rev_env \<Rightarrow> tier_ran \<Rightarrow> run_request \<Rightarrow> rev_delivery \<Rightarrow> result rev_step" where
  "rev_run_failed v u req p =
     (let q = dv_progress p;
          p = (if rr_session req \<noteq> '''' \<and> pg_session q \<noteq> '''' \<and> 0 < oc_last_input (tu_reply u)
               then p\<lparr>dv_progress := q\<lparr>pg_last_input := oc_last_input (tu_reply u)\<rparr>\<rparr> else p) in
      and_then (attempted (save_progress (rx_params v) p)) (\<lambda>_. give (tu_result u)))"

definition rev_left :: "rev_env \<Rightarrow> run_reply \<Rightarrow> rev_delivery \<Rightarrow> rev_delivery" where
  "rev_left v a p =
     p\<lparr>dv_progress := (dv_progress p)\<lparr>pg_session := oc_session a, pg_last_input := oc_last_input a\<rparr>,
       dv_correction := (case dv_correction p of None \<Rightarrow> None
         | Some c \<Rightarrow> if co_failed c = '''' then Some (c\<lparr>co_given := True\<rparr>) else Some c),
       rw_reply := (case dl_git_file (rx_params v) ''afk-reply.md'' of Inl e \<Rightarrow> '''' | Inr s \<Rightarrow> s)\<rparr>"

definition rev_session :: "rev_env \<Rightarrow> job \<Rightarrow> instant \<Rightarrow> ref \<Rightarrow> send_back \<Rightarrow> rev_delivery \<Rightarrow> result rev_step" where
  "rev_session v j now r sb p =
     and_then (rev_reset v p) (\<lambda>_.
     and_then (rev_spec v (sub_number (j_subject j)) sb p) (\<lambda>_.
     and_then (rev_given v p) (\<lambda>_.
     and_then (rev_tier_run v j now r p) (\<lambda>(u, req, p).
     let p = p\<lparr>dv_spent := spend_add (dl_prices (rx_params v)) r (tu_reply u) (dv_spent p)\<rparr> in
     if \<not> tu_ok u then rev_run_failed v u req p
     else and_then (save_progress (rx_params v) (rev_left v (tu_reply u) p)) (\<lambda>_. give (goes_to Gating now))))))"

definition rev_run :: "rev_env \<Rightarrow> job \<Rightarrow> instant \<Rightarrow> result rev_step" where
  "rev_run v j now =
     (let d = rx_params v in
      and_then (lift_sum DlResolve (tier_choose (dl_tier d) (dl_candidates d) j now Deferred)) (\<lambda>x.
      case x of
        Inr res \<Rightarrow> give res
      | Inl r \<Rightarrow>
          and_then load_send_back (\<lambda>found.
          case found of
            None \<Rightarrow> rev_lost v j now
          | Some sb \<Rightarrow>
              and_then (rev_workspace v j sb) (\<lambda>(p, gone).
              if gone \<noteq> '''' then rev_hand_back v j now p gone ''''
              else rev_session v j now r sb p))))"

subsection \<open>The gate\<close>

definition rev_nothing :: "rev_delivery \<Rightarrow> bool \<Rightarrow> string" where
  "rev_nothing p fix_made =
     (if fix_made then ''The session committed nothing on top of '' @ tick (git_short (pg_pushed (dv_progress p))) @
        '', the revision's last push, to fix what CI said, so there is nothing to push.''
      else ''The session committed nothing on top of '' @ tick (git_short (pg_pushed (dv_progress p))) @
        '', the head the send-back was written against, so there is nothing to push.'')"

definition rev_rewrote :: "rev_delivery \<Rightarrow> string" where
  "rev_rewrote p =
     (case dv_correction p of
        Some c \<Rightarrow> if correction_running (Some c) then correction_rewrote c
          else ''The revision rewrote '' @ tick (git_short (rw_read p)) @
            '', the head the send-back was written against, which a revision never does. Nothing was pushed.''
      | None \<Rightarrow> ''The revision rewrote '' @ tick (git_short (rw_read p)) @
          '', the head the send-back was written against, which a revision never does. Nothing was pushed.'')"

definition rev_kept :: "rev_delivery \<Rightarrow> string" where
  "rev_kept p =
     (case dv_correction p of
        Some c \<Rightarrow> if correction_running (Some c) then co_reviewed c else rw_read p
      | None \<Rightarrow> rw_read p)"

definition rev_kind :: "rev_env \<Rightarrow> (unit rev_delivery_ext, send_back) delivery_kind" where
  "rev_kind v = \<lparr>kd_job = KindRevise, kd_session = Revising, kd_hand_back = Some (rev_hand_back v),
     kd_gone = Some (rev_lost v), kd_lost = Some (rev_lost v), kd_nothing = Some rev_nothing, kd_anchor = Some rw_read,
     kd_rewrote = Some rev_rewrote, kd_gaps = None\<rparr>"

definition rev_resume :: "rev_env \<Rightarrow> job \<Rightarrow> instant \<Rightarrow> result rev_step" where
  "rev_resume v j now = give (goes_to Revising now)"

subsection \<open>The push\<close>

text \<open>Where the denylist reads from: the lease while the branch has it, and what was read otherwise.\<close>

definition push_since :: "rev_env \<Rightarrow> rev_delivery \<Rightarrow> string \<Rightarrow> string rev_step" where
  "push_since v p head =
     (let q = dv_progress p in
      and_then (lift_sum DlGit (rx_has v (pg_pushed q))) (\<lambda>has.
      if \<not> has then give (rw_read p)
      else and_then (lift_sum DlGit (dl_ancestor (rx_params v) (pg_pushed q) head)) (\<lambda>kept.
        give (if kept then pg_pushed q else rw_read p))))"

definition rev_denied_reason :: "string list \<Rightarrow> string" where
  "rev_denied_reason bad = ''The revision touches '' @ quoted_paths bad @ '', which the denylist does not let the agent push.''"

text \<open>The commit the push would send, checked: \<open>Some\<close> is where the job goes instead.\<close>

definition rev_vet :: "rev_env \<Rightarrow> job \<Rightarrow> instant \<Rightarrow> rev_delivery \<Rightarrow> string \<Rightarrow> result option rev_step" where
  "rev_vet v j now p head =
     (let d = rx_params v in
      and_then (lift_sum DlGit (dl_ancestor d (rev_kept p) head)) (\<lambda>kept.
      if \<not> kept then and_then (rev_stop v j now p (rev_rewrote p) '''') (\<lambda>r. give (Some r))
      else
      and_then (push_since v p head) (\<lambda>since.
      and_then (lift_sum DlGit (touched_paths (dl_touched d since head))) (\<lambda>paths.
      let bad = denied (dl_denylist d) paths in
      if bad = [] then give None
      else and_then (rev_stop v j now p (rev_denied_reason bad) '''') (\<lambda>r. give (Some r))))))"

definition rev_measure :: "rev_env \<Rightarrow> int \<Rightarrow> string \<Rightarrow> rev_delivery \<Rightarrow> rev_delivery rev_step" where
  "rev_measure v n head p =
     (let d = rx_params v in
      and_then (lift_sum DlTracker (rx_pull v n)) (\<lambda>pr.
      let into = (if pr_base_ref pr = '''' then pg_into (dv_progress p) else pr_base_ref pr) in
      and_then (lift_sum DlGit (rx_fetch_also v (''refs/heads/'' @ into))) (\<lambda>tip.
      and_then (lift_sum DlGit (rx_merge_base v tip head)) (\<lambda>start.
      and_then (measured d start head) (\<lambda>c.
      and_then (if dl_sensitive d = [] then give []
          else and_then (lift_sum DlGit (changed_paths (dl_changed d tip head))) (\<lambda>paths.
            give (touches (dl_sensitive d) paths))) (\<lambda>ts.
      give (p\<lparr>rw_lines := ct_lines c, rw_tests := ct_tests c, rw_sensitive := ts, rw_measured := True\<rparr>)))))))"

text \<open>A measure that fails leaves nothing measured, unless the context is done.\<close>

definition rev_measured :: "rev_env \<Rightarrow> int \<Rightarrow> string \<Rightarrow> rev_delivery \<Rightarrow> rev_delivery rev_step" where
  "rev_measured v n head p =
     and_then (attempted (rev_measure v n head p)) (\<lambda>x.
     case x of
       Inr p \<Rightarrow> give p
     | Inl e \<Rightarrow> if rx_cancelled v then halt e
         else give (p\<lparr>rw_measured := False, rw_lines := 0, rw_tests := 0, rw_sensitive := []\<rparr>))"

definition rev_pushes :: "rev_env \<Rightarrow> job \<Rightarrow> instant \<Rightarrow> rev_delivery \<Rightarrow> string \<Rightarrow> result rev_step" where
  "rev_pushes v j now p head =
     (let d = rx_params v in
      and_then (push_round_of d (dv_progress p) head (correction_push_from (dv_correction p) head)) (\<lambda>k.
      case k of
        Inl (n, note) \<Rightarrow> rev_stop v j now p (unlanded_said n head (pg_branch (dv_progress p))) note
      | Inr e \<Rightarrow>
          and_then (save_progress d (p\<lparr>dv_progress := (dv_progress p)\<lparr>pg_head := head\<rparr>\<rparr>)) (\<lambda>_.
          give (goes_with Pushed now [e]))))"

definition rev_push_work :: "rev_env \<Rightarrow> job \<Rightarrow> instant \<Rightarrow> rev_delivery \<Rightarrow> result rev_step" where
  "rev_push_work v j now p =
     and_then (lift_sum DlGit (dl_relay (rx_params v) (pg_branch (dv_progress p)))) (\<lambda>head.
     and_then (rev_vet v j now p head) (\<lambda>stopped.
     case stopped of
       Some r \<Rightarrow> give r
     | None \<Rightarrow>
         and_then (rev_measured v (sub_number (j_subject j)) head p) (\<lambda>p. rev_pushes v j now p head)))"

text \<open>What the push and the replay begin with: the progress and the checkout, or the work is lost.\<close>

definition with_work :: "rev_env \<Rightarrow> job \<Rightarrow> instant \<Rightarrow> (rev_delivery \<Rightarrow> result rev_step) \<Rightarrow> result rev_step" where
  "with_work v j now f =
     and_then (load_progress (j_id j)) (\<lambda>found.
     and_then (look bn_exists) (\<lambda>there.
     case (if there then found else None) of None \<Rightarrow> rev_lost v j now | Some p \<Rightarrow> f p))"

definition rev_push :: "rev_env \<Rightarrow> job \<Rightarrow> instant \<Rightarrow> result rev_step" where
  "rev_push v j now =
     with_work v j now (\<lambda>p.
       let (r, ok) = machine_over Revising now p in
       if ok \<and> res_state r \<noteq> Pushing then give r else rev_push_work v j now p)"

definition rev_moved :: "rev_delivery \<Rightarrow> string \<Rightarrow> string" where
  "rev_moved p at_head =
     (let q = dv_progress p in
      if at_head = '''' \<or> pg_pushed q = pg_head q then where_moved at_head (pg_pushed q)
      else if pg_pushed q = rw_read p
      then ''it is at '' @ tick (git_short at_head) @ '', not at '' @ tick (git_short (rw_read p)) @ '' where the send-back was written''
      else ''it is at '' @ tick (git_short at_head) @ '', not at '' @ tick (git_short (pg_pushed q)) @
        '', the push the revision was last replayed onto'')"

definition overwrote_reason :: "rev_delivery \<Rightarrow> string \<Rightarrow> string" where
  "overwrote_reason p at_head = ''Someone else changed '' @ tick (pg_branch (dv_progress p)) @ '' while the revision ran: '' @
     rev_moved p at_head @ ''. The revision was not pushed, and the agent does not push over anyone else's work.''"

definition resensitize :: "rev_env \<Rightarrow> job \<Rightarrow> instant \<Rightarrow> rev_delivery \<Rightarrow> result rev_step" where
  "resensitize v j now p =
     (let n = sub_number (j_subject j); d = rx_params v; q = dv_progress p in
      if \<not> rw_measured p then give (goes_to Watching now)
      else
      and_then (lift_sum DlTracker (rx_pull v n)) (\<lambda>pr.
      let reread = map_sum (dl_gh_text d) (\<lambda>pr. (pr_body pr, True)) (rx_pull_later v);
          edit = (\<lambda>body. map_option (dl_gh_text d) (dl_edit_pr d (pr_number pr) body)) in
      and_then (on_world (redescribe (dl_float d) (dl_quote d) (dl_rounds d) reread edit (pr_body pr) (pg_branch q)
        (pg_head q) (rw_sensitive p) None)) (\<lambda>x.
      and_then (lift_sum DlStore x) (\<lambda>e.
      give (case e of None \<Rightarrow> goes_to Watching now | Some e \<Rightarrow> goes_with Pushed now [e])))))"

definition rev_pushed :: "rev_env \<Rightarrow> job \<Rightarrow> instant \<Rightarrow> result rev_step" where
  "rev_pushed v j now =
     (let d = rx_params v in
      and_then (load_progress (j_id j)) (\<lambda>found.
      case found of
        None \<Rightarrow> rev_lost v j now
      | Some p \<Rightarrow>
          if pg_pushed (dv_progress p) = pg_head (dv_progress p)
          then and_then (note_pushed v (pg_head (dv_progress p))) (\<lambda>_. resensitize v j now p)
          else
          and_then (landed d now (dv_progress p)) (\<lambda>(l, at_head, q).
          let p = p\<lparr>dv_progress := q\<rparr> in
          case l of
            Moved \<Rightarrow>
              if at_head = '''' \<or> dv_correction p \<noteq> None
              then and_then (note_of (push_stem (pg_branch q) (pg_head q))) (\<lambda>note.
                rev_hand_back v j now p (overwrote_reason p at_head) note)
              else give (goes_to Replaying now)
          | NotLanded \<Rightarrow> give (goes_to Pushing now)
          | Landed \<Rightarrow>
              and_then (note_pushed v (pg_head q)) (\<lambda>_.
              and_then (save_progress d p) (\<lambda>_. resensitize v j now p)))))"

subsection \<open>The replay\<close>

definition replays_spent_reason :: "rev_env \<Rightarrow> rev_delivery \<Rightarrow> string \<Rightarrow> string" where
  "replays_spent_reason v p at_head = ''Someone else changed '' @ tick (pg_branch (dv_progress p)) @ '' while the revision ran: '' @
     rev_moved p at_head @ ''. The revision had already been replayed onto pushes made during it as many times as it may be ('' @
     dec (rx_replays v) @ ''), so it was not pushed, and the agent does not push over anyone else's work.''"

definition conflict_reason :: "rev_delivery \<Rightarrow> conflict \<Rightarrow> string" where
  "conflict_reason p c = ''Someone else pushed to '' @ tick (pg_branch (dv_progress p)) @
     '' while the revision ran, and the revision does not replay onto their push: '' @ conflict_said c (pg_pushed (dv_progress p)) @
     '' Nothing was pushed, and the agent does not push over anyone else's work.''"

text \<open>Whether the revision's own push is on the branch after all.\<close>

definition landed_under :: "rev_env \<Rightarrow> progress \<Rightarrow> string \<Rightarrow> bool rev_step" where
  "landed_under v q at_head =
     (if pg_head q = '''' \<or> pg_head q = pg_pushed q then give False
      else and_then (lift_sum DlGit (rx_has v (pg_head q))) (\<lambda>has.
        if \<not> has then give False else lift_sum DlGit (dl_ancestor (rx_params v) (pg_head q) at_head)))"

text \<open>Whether what is on the branch has the lease.\<close>

definition lease_kept :: "rev_env \<Rightarrow> progress \<Rightarrow> string \<Rightarrow> bool rev_step" where
  "lease_kept v q at_head =
     and_then (lift_sum DlGit (rx_has v (pg_pushed q))) (\<lambda>has.
     if \<not> has then give False else lift_sum DlGit (dl_ancestor (rx_params v) (pg_pushed q) at_head))"

definition rev_replays_on :: "rev_env \<Rightarrow> job \<Rightarrow> instant \<Rightarrow> rev_delivery \<Rightarrow> result rev_step" where
  "rev_replays_on v j now p =
     and_then (lift_sum DlGit (replay_onto (rx_replay v) (pg_branch (dv_progress p)) (pg_pushed (dv_progress p)))) (\<lambda>x.
     case x of
       Inl c \<Rightarrow> rev_hand_back v j now p (conflict_reason p c) ''''
     | Inr head \<Rightarrow> give (goes_to Gating now))"

definition rev_replay_work :: "rev_env \<Rightarrow> job \<Rightarrow> instant \<Rightarrow> rev_delivery \<Rightarrow> result rev_step" where
  "rev_replay_work v j now p =
     (let d = rx_params v; q = dv_progress p in
      and_then (lift_sum DlGit (dl_remote d (pg_branch q))) (\<lambda>there.
      if there = '''' then rev_hand_back v j now p (overwrote_reason p '''') ''''
      else
      and_then (lift_sum DlGit (rx_fetch v (''refs/heads/'' @ pg_branch q))) (\<lambda>at_head.
      and_then (landed_under v q at_head) (\<lambda>on_branch.
      if on_branch
      then and_then (save_progress d (p\<lparr>dv_progress := q\<lparr>pg_pushed := pg_head q, pg_pushed_at := now\<rparr>\<rparr>)) (\<lambda>_.
        give (goes_to Pushed now))
      else
      and_then (lease_kept v q at_head) (\<lambda>kept.
      if \<not> kept then rev_hand_back v j now p (overwrote_reason p at_head) ''''
      else if at_head = pg_pushed q then rev_replays_on v j now p
      else if rx_replays v \<le> rw_replays p then rev_hand_back v j now p (replays_spent_reason v p at_head) ''''
      else
      let p = p\<lparr>rw_replays := rw_replays p + 1, dv_progress := q\<lparr>pg_pushed := at_head\<rparr>\<rparr> in
      and_then (save_progress d p) (\<lambda>_. rev_replays_on v j now p))))))"

definition rev_replay :: "rev_env \<Rightarrow> job \<Rightarrow> instant \<Rightarrow> result rev_step" where
  "rev_replay v j now = with_work v j now (rev_replay_work v j now)"

subsection \<open>The watch and the reply\<close>

definition over_size_line :: "rev_env \<Rightarrow> rev_delivery \<Rightarrow> string" where
  "over_size_line v p =
     (let signal = dl_signal (rx_params v) in
      if rw_measured p \<and> over_signal \<lparr>ct_lines = rw_lines p, ct_tests = rw_tests p\<rparr> signal
      then nl @ ''The pull request is now '' @ dec (rw_lines p) @ '' changed lines, and '' @ dec (rw_tests p) @
        '' changed lines of tests, which is over the size signal of '' @ dec signal @ ''.'' @ nl
      else '''')"

definition reply_body :: "rev_env \<Rightarrow> int \<Rightarrow> rev_delivery \<Rightarrow> string" where
  "reply_body v n p =
     (let d = rx_params v; pushed = pg_pushed (dv_progress p); s = sections_of (rw_reply p); f = footer (dl_float d) (dv_spent p) in
      revision_reply_marker n pushed @ nl @ revision_read_marker (rw_read p) @ nl @ rev_marks p @
      ''[Changes since your review](https://github.com/'' @ dl_repo d @ ''/compare/'' @ rw_read p @ ''...'' @ pushed @ ''): '' @
      tick (git_short (rw_read p)) @ '' to '' @ tick (git_short pushed) @ ''.'' @ nl @
      over_size_line v p @
      (if s \<noteq> '''' then nl @ s @ nl else '''') @
      (if f \<noteq> '''' then nl @ f @ nl else ''''))"

definition rev_reply :: "rev_env \<Rightarrow> job \<Rightarrow> instant \<Rightarrow> rev_delivery \<Rightarrow> result rev_step" where
  "rev_reply v j now p =
     (let n = sub_number (j_subject j) in
      owes (rev_book v) j now Replying \<lparr>or_next = Reviewing, or_due = True, or_items =
        [said_item (''revise-reply-pr-'' @ dec n @ ''-'' @ pg_nonce (dv_progress p)) n
          (revision_reply_marker n (pg_pushed (dv_progress p))) (reply_body v n p)]\<rparr>)"

definition rev_replied :: "rev_env \<Rightarrow> job \<Rightarrow> instant \<Rightarrow> result rev_step" where
  "rev_replied v j now =
     (let n = sub_number (j_subject j); d = rx_params v in
      and_then (settles (rev_book v) (dl_tracker d) j now (goes_to Watching now)) (\<lambda>res.
      if res_state res \<noteq> Watching then give res
      else
      and_then (load_progress (j_id j)) (\<lambda>found.
      case found of
        None \<Rightarrow> give res
      | Some p \<Rightarrow>
          and_then (lift_sum DlTracker (ot_comments (dl_tracker d) n)) (\<lambda>comments.
          give (if reply_of (dl_login d) comments n p \<noteq> None then goes_to Reviewing now else res)))))"

text \<open>What the last transitions begin with: the pull request open, and the progress.\<close>

definition while_open :: "rev_env \<Rightarrow> job \<Rightarrow> instant \<Rightarrow> (pull_request \<Rightarrow> rev_delivery \<Rightarrow> result rev_step) \<Rightarrow> result rev_step" where
  "while_open v j now f =
     and_then (lift_sum DlTracker (rx_pull v (sub_number (j_subject j)))) (\<lambda>pr.
     if pr_state pr \<noteq> ''open'' then rev_rest v
     else
     and_then (load_progress (j_id j)) (\<lambda>found.
     case found of None \<Rightarrow> rev_lost v j now | Some p \<Rightarrow> f pr p))"

definition rev_watches :: "rev_env \<Rightarrow> job \<Rightarrow> instant \<Rightarrow> pull_request \<Rightarrow> rev_delivery \<Rightarrow> result rev_step" where
  "rev_watches v j now pr p =
     (let (r, ok) = machine_over Revising now p in
      if ok then give r
      else and_then (watched (rx_params v) now (dv_progress p)) (\<lambda>(w, q).
        let p = p\<lparr>dv_progress := q\<rparr> in
        case cx_state w of
          CIPending \<Rightarrow> give (waits_until Watching (cx_run_at w) [])
        | CIGreen \<Rightarrow> if dv_correction p \<noteq> None then give (goes_to Reviewing now) else rev_reply v j now p
        | CIHandBack \<Rightarrow>
            (case dv_correction p of
               Some c \<Rightarrow> if co_failed c = '''' \<and> \<not> cx_moved w then rev_fail_correction v j now p c (cx_reason w)
                         else rev_hand_back v j now p (cx_reason w) (cx_output w)
             | None \<Rightarrow> rev_hand_back v j now p (cx_reason w) (cx_output w))
        | CIRed \<Rightarrow> and_then (save_progress (rx_params v) p) (\<lambda>_. give (goes_to Revising now))))"

definition rev_watch :: "rev_env \<Rightarrow> job \<Rightarrow> instant \<Rightarrow> result rev_step" where
  "rev_watch v j now = while_open v j now (rev_watches v j now)"

subsection \<open>The review and the hand-off\<close>

definition rev_correct :: "rev_env \<Rightarrow> instant \<Rightarrow> rev_delivery \<Rightarrow> correction \<Rightarrow> result rev_step" where
  "rev_correct v now p c =
     and_then (save_progress (rx_params v) (p\<lparr>dv_correction := Some c, dv_progress := (dv_progress p)\<lparr>pg_attempts := 0,
       pg_fixes := 0, pg_fixed_head := '''', pg_failure := '''', pg_why := ''''\<rparr>\<rparr>)) (\<lambda>_.
     give (goes_to Revising now))"

definition rev_corrected :: "rev_env \<Rightarrow> job \<Rightarrow> instant \<Rightarrow> rev_delivery \<Rightarrow> correction \<Rightarrow> result rev_step" where
  "rev_corrected v j now p c =
     (let d = rx_params v; q = dv_progress p; n = sub_number (j_subject j); s = correction_next (Some c) (pg_pushed q) in
      if s \<noteq> Edit then give (goes_to (step_state Revising s) now)
      else
      and_then (handing d (\<lambda>h w. (kept_pushed h q, w))) (\<lambda>r.
      if ho_state r = HoHandBack then rev_hand_back_replied v j now p (ho_reason r) (ho_output r)
      else
      and_then (on_world (edit_review (editor_of d n (co_reviewed c) (pg_pushed q)) n c (pg_pushed q))) (\<lambda>x.
      and_then (lift_sum edit_failed x) (\<lambda>e.
      give (case e of None \<Rightarrow> goes_to HandingOff now | Some e \<Rightarrow> goes_with Reviewing now [e])))))"

definition rev_awaits :: "rev_env \<Rightarrow> job \<Rightarrow> instant \<Rightarrow> pull_request \<Rightarrow> rev_delivery \<Rightarrow> result rev_step" where
  "rev_awaits v j now pr p =
     (let d = rx_params v; q = dv_progress p; n = sub_number (j_subject j) in
      case dv_correction p of
        Some c \<Rightarrow> rev_corrected v j now p c
      | None \<Rightarrow>
          and_then (handing d (\<lambda>h. await_review h now n q)) (\<lambda>r.
          case ho_state r of
            HoDone \<Rightarrow>
              (case (if equal_fold (pr_login pr) (dl_login d) then begin_correction (ho_review r) (pg_pushed q) else None) of
                 Some c \<Rightarrow> rev_correct v now p c
               | None \<Rightarrow> give (goes_to HandingOff now))
          | HoHandedBack \<Rightarrow> rev_rest v
          | HoHandBack \<Rightarrow> rev_hand_back_replied v j now p (ho_reason r) (ho_output r)
          | HoPending \<Rightarrow> give (waits_until Reviewing (ho_run_at r) (ho_effects r))))"

definition rev_await_review :: "rev_env \<Rightarrow> job \<Rightarrow> instant \<Rightarrow> result rev_step" where
  "rev_await_review v j now = while_open v j now (rev_awaits v j now)"

definition rev_hands_off :: "rev_env \<Rightarrow> job \<Rightarrow> instant \<Rightarrow> pull_request \<Rightarrow> rev_delivery \<Rightarrow> result rev_step" where
  "rev_hands_off v j now pr p =
     (let d = rx_params v; q = dv_progress p; n = sub_number (j_subject j) in
      and_then (handing d (\<lambda>h. hand_off h now pr (pg_pushed q)
        (''revise-hand-off-pr-'' @ dec n @ ''-'' @ pg_pushed q))) (\<lambda>r.
      case ho_state r of
        HoDone \<Rightarrow> rev_rest v
      | HoHandBack \<Rightarrow> rev_hand_back_replied v j now p (ho_reason r) (ho_output r)
      | _ \<Rightarrow> give (waits_until HandingOff (ho_run_at r) (ho_effects r))))"

definition rev_hand_off :: "rev_env \<Rightarrow> job \<Rightarrow> instant \<Rightarrow> result rev_step" where
  "rev_hand_off v j now = while_open v j now (rev_hands_off v j now)"

subsection \<open>The transitions\<close>

definition rev_transitions :: "(rev_env, rev_delivery, send_back) kind_transition list" where
  "rev_transitions =
     [(''revise'', Start_state, [], rev_claim),
      (''revise-claimed'', Rev_Claiming, [], rev_claimed),
      (''revise-run'', Revising, [heavy_build], rev_run),
      (''revise-gate'', Gating, [heavy_build], \<lambda>v. machine_gate (rev_kind v) (rx_params v)),
      (''revise-push'', Pushing, [], rev_push),
      (''revise-pushed'', Pushed, [], rev_pushed),
      (''revise-watch'', Watching, [], rev_watch),
      (''revise-replay'', Replaying, [], rev_replay),
      (''revise-replied'', Replying, [], rev_replied),
      (''revise-review'', Reviewing, [], rev_await_review),
      (''revise-hand-off'', HandingOff, [], rev_hand_off),
      (''revise-handed-back'', HandingBack, [], rev_handed_back),
      (''revise-resume'', Deferred, [], rev_resume)]"

definition rev_states :: "string list" where
  "rev_states = states_for Revising @ [Rev_Claiming, Pushed, Replaying, Replying]"

definition rev_step_of :: "rev_env \<Rightarrow> job \<Rightarrow> instant \<Rightarrow> result rev_step" where
  "rev_step_of = step_from rev_transitions"

end
