(* ===== verification/Revise_Properties.thy ===== *)
theory Revise_Properties
  imports Revise Bench_States
begin

text \<open>
  What the revise kind promises across its transitions: its states are closed, nothing is pushed
  unvetted or on top of a rewritten head, a revision is replayed a bounded number of times, and
  its reply carries no hidden line the session wrote.
\<close>

subsection \<open>The kind's states\<close>

lemma rev_states_set: "set rev_states = {Start_state, Revising, Gating, Deferred, Pushing, Watching, Reviewing,
    HandingOff, HandingBack, Rev_Claiming, Pushed, Replaying, Replying}"
  by (auto simp: rev_states_def states_for_def)

lemma rev_in [simp]:
  "Start_state \<in> set rev_states" "Revising \<in> set rev_states" "Gating \<in> set rev_states" "Deferred \<in> set rev_states"
  "Pushing \<in> set rev_states" "Watching \<in> set rev_states" "Reviewing \<in> set rev_states" "HandingOff \<in> set rev_states"
  "HandingBack \<in> set rev_states" "Rev_Claiming \<in> set rev_states" "Pushed \<in> set rev_states"
  "Replaying \<in> set rev_states" "Replying \<in> set rev_states"
  by (simp_all add: rev_states_set)

abbreviation rev_safe :: "job \<Rightarrow> result rev_step \<Rightarrow> bool" where
  "rev_safe j m \<equiv> safe (shelf_in rev_states (j_id j)) m (placed_in rev_states)"

lemma rev_records_in [simp]:
  "record_in rev_states \<lparr>or_next = Start_state, or_due = False, or_items = its\<rparr>"
  "record_in rev_states \<lparr>or_next = Revising, or_due = True, or_items = its\<rparr>"
  "record_in rev_states \<lparr>or_next = Reviewing, or_due = True, or_items = its\<rparr>"
  by (simp_all add: record_in_def)

lemma keeps_send_back [keeps_rules]:
  "keeps bn_shelf load_send_back" "keeps bn_shelf (save_send_back v sb)" "keeps bn_shelf (drop_send_back v)"
  unfolding load_send_back_def save_send_back_def drop_send_back_def
  by (intro keeps_rules; auto intro!: keeps_rules split: kept_file.split)+

lemma keeps_note_pushed [keeps_rules]: "keeps bn_shelf (note_pushed v head)"
  unfolding note_pushed_def by (intro keeps_rules)

lemma keeps_rev [keeps_rules]:
  "keeps bn_shelf (fresh_revision v j sb)" "keeps bn_shelf (rev_reset v p)"
  "keeps bn_shelf (linked_issue v n)" "keeps bn_shelf (rev_given v p)" "keeps bn_shelf (push_since v p head)"
  "keeps bn_shelf (landed_under v q at_head)" "keeps bn_shelf (lease_kept v q at_head)"
  unfolding fresh_revision_def rev_reset_def linked_issue_def rev_given_def push_since_def landed_under_def
    lease_kept_def Let_def
  by (intro keeps_rules; simp)+

lemma keeps_rev_workspace [keeps_rules]: "keeps bn_shelf (rev_workspace v j sb)"
  unfolding rev_workspace_def Let_def by (intro keeps_rules)

lemma keeps_rev_spec [keeps_rules]: "keeps bn_shelf (rev_spec v n sb p)"
  unfolding rev_spec_def Let_def by (intro keeps_rules)

lemma keeps_rev_measured [keeps_rules]: "keeps bn_shelf (rev_measured v n head p)"
  unfolding rev_measured_def rev_measure_def Let_def by (intro keeps_rules)

subsection \<open>Handing back\<close>

lemma rev_on_safe: "rev_safe j (rev_hand_back_on v j now marks sp key reason detail output)"
  unfolding rev_hand_back_on_def Let_def by (rule safe_hands_back) simp_all

lemma rev_of_safe: "rev_safe j (rev_hand_back_of v j now p reason detail output)"
  unfolding rev_hand_back_of_def by (rule rev_on_safe)

lemma rev_replied_back_safe: "rev_safe j (rev_hand_back_replied v j now p reason output)"
  unfolding rev_hand_back_replied_def Let_def by (intro safe_lift_then rev_of_safe)

lemma rev_hand_back_safe: "rev_safe j (rev_hand_back v j now p reason output)"
  unfolding rev_hand_back_def by (intro safe_if rev_replied_back_safe rev_of_safe)

lemma rev_lost_safe: "rev_safe j (rev_lost v j now)"
  unfolding rev_lost_def by (intro safe_lift_then rev_on_safe)

lemma rev_fail_safe: "rev_safe j (rev_fail_correction v j now p c why)"
  unfolding rev_fail_correction_def by (intro safe_fail_correction rev_lost_safe) simp_all

lemma rev_stop_safe: "rev_safe j (rev_stop v j now p reason output)"
  unfolding rev_stop_def by (intro safe_option safe_if rev_fail_safe rev_hand_back_safe)

lemma rev_rest_safe: "rev_safe j (rev_rest v)"
  unfolding rev_rest_def
  by (intro safe_shelf_then keeps_rules safe_prod) (auto intro!: safe_give safe_halt split: sum.split)

interpretation rev_gate: kept_kind "rev_kind v" rev_states for v
  by unfold_locales
    (auto simp: rev_kind_def machine_states_def rev_states_set states_for_def rev_hand_back_safe rev_lost_safe)

subsection \<open>Every transition keeps the states\<close>

lemma rev_claim_safe: "rev_safe j (rev_claim v j now)"
  unfolding rev_claim_def Let_def
  by (intro safe_rules safe_shelf_then keeps_rules safe_owes) simp_all

lemma rev_claimed_safe: "j_state j = Rev_Claiming \<Longrightarrow> rev_safe j (rev_claimed v j now)"
  unfolding rev_claimed_def by (rule safe_settles) simp_all

lemma rev_handed_back_safe: "j_state j = HandingBack \<Longrightarrow> rev_safe j (rev_handed_back v j now)"
  unfolding rev_handed_back_def by (intro safe_shelf_then keeps_rules safe_settles) simp_all

lemma rev_tier_safe:
  "safe (shelf_in rev_states (j_id j)) (rev_tier_run v j now r p)
     (\<lambda>(u, req, p'). \<not> tu_ok u \<longrightarrow> placed_in rev_states (tu_result u))"
  unfolding rev_tier_run_def Let_def
  by (intro safe_lift_then safe_shelf_then keeps_rules safe_option safe_halt safe_give)
    (auto intro!: tier_run_placed)

lemma rev_session_safe: "rev_safe j (rev_session v j now r sb p)"
  unfolding rev_session_def Let_def rev_run_failed_def
  by (intro safe_shelf_then keeps_rules safe_prod safe_lift_then safe_and_then [OF rev_tier_safe] safe_if safe_give)
    auto

lemma rev_run_safe: "rev_safe j (rev_run v j now)"
  unfolding rev_run_def Let_def
  by (intro safe_lift_then safe_sum safe_shelf_then keeps_rules safe_option safe_prod safe_if rev_session_safe
      rev_lost_safe rev_hand_back_safe safe_give) (auto intro!: choose_placed)

lemma rev_vet_safe:
  "safe (shelf_in rev_states (j_id j)) (rev_vet v j now p head) (\<lambda>x. \<forall>r. x = Some r \<longrightarrow> placed_in rev_states r)"
proof -
  have s: "safe (shelf_in rev_states (j_id j)) (and_then (rev_stop v j now p reason out) (\<lambda>r. give (Some r)))
      (\<lambda>x. \<forall>r. x = Some r \<longrightarrow> placed_in rev_states r)" for reason out
    by (intro safe_and_then [OF rev_stop_safe] safe_give) simp
  show ?thesis
    unfolding rev_vet_def Let_def
    by (intro safe_lift_then safe_if safe_shelf_then keeps_rules s safe_give) auto
qed

lemma rev_pushes_safe: "rev_safe j (rev_pushes v j now p head)"
  unfolding rev_pushes_def Let_def
  by (intro safe_shelf_then keeps_rules safe_sum safe_prod rev_stop_safe safe_give) auto

lemma rev_push_work_safe: "rev_safe j (rev_push_work v j now p)"
  unfolding rev_push_work_def
  by (intro safe_lift_then safe_and_then [OF rev_vet_safe] safe_option safe_shelf_then keeps_rules rev_pushes_safe
      safe_give) auto

lemma with_work_safe: "(\<And>p. rev_safe j (f p)) \<Longrightarrow> rev_safe j (with_work v j now f)"
  unfolding with_work_def by (intro safe_shelf_then safe_look_then keeps_rules safe_option rev_lost_safe)

lemma rev_over_placed: "machine_over Revising now p = (r, ok) \<Longrightarrow> placed_in rev_states r"
  using over_placed [of Revising rev_states now p] by simp

lemma rev_push_safe: "rev_safe j (rev_push v j now)"
  unfolding rev_push_def Let_def
  by (intro with_work_safe safe_prod safe_if rev_push_work_safe safe_give) (auto dest: rev_over_placed)

lemma resensitize_safe: "rev_safe j (resensitize v j now p)"
  unfolding resensitize_def Let_def
  by (intro safe_if safe_shelf_then keeps_rules safe_lift_then safe_give) (auto split: option.split)

lemma rev_pushed_safe: "rev_safe j (rev_pushed v j now)"
  unfolding rev_pushed_def Let_def
  by (intro safe_shelf_then keeps_rules safe_option safe_if safe_prod rev_lost_safe resensitize_safe)
    (auto intro!: safe_shelf_then keeps_rules rev_hand_back_safe resensitize_safe safe_give split: landing.split)

lemma rev_replays_on_safe: "rev_safe j (rev_replays_on v j now p)"
  unfolding rev_replays_on_def by (intro safe_lift_then safe_sum rev_hand_back_safe safe_give) simp

lemma rev_replay_safe: "rev_safe j (rev_replay v j now)"
  unfolding rev_replay_def rev_replay_work_def Let_def
  by (intro with_work_safe safe_lift_then safe_if safe_shelf_then keeps_rules rev_hand_back_safe rev_replays_on_safe
      safe_give) simp_all

lemma rev_reply_safe: "rev_safe j (rev_reply v j now p)"
  unfolding rev_reply_def Let_def by (rule safe_owes) simp_all

lemma rev_replied_safe: "j_state j = Replying \<Longrightarrow> rev_safe j (rev_replied v j now)"
  unfolding rev_replied_def Let_def
  by (rule safe_and_then [OF safe_settles])
    (auto intro!: safe_if safe_shelf_then keeps_rules safe_option safe_lift_then safe_give)

lemma while_open_safe: "(\<And>pr p. rev_safe j (f pr p)) \<Longrightarrow> rev_safe j (while_open v j now f)"
  unfolding while_open_def
  by (intro safe_lift_then safe_if safe_shelf_then keeps_rules safe_option rev_lost_safe rev_rest_safe)

lemma rev_watches_safe: "rev_safe j (rev_watches v j now pr p)"
proof -
  have r: "rev_safe j (and_then (save_progress d q) (\<lambda>_. give (goes_to Revising now)))" for d q
    by (intro safe_shelf_then keeps_rules safe_give) simp
  show ?thesis
    unfolding rev_watches_def Let_def
    by (intro safe_prod safe_if safe_and_then [OF watched_safe])
      (auto intro!: safe_give rev_hand_back_safe rev_fail_safe waits_placed rev_reply_safe r dest: rev_over_placed
        split: ci_state.split option.split)
qed

lemma rev_corrected_safe: "rev_safe j (rev_corrected v j now p c)"
proof -
  have "step_state Revising s \<in> set rev_states" for s
    by (cases s) (simp_all add: step_state_def)
  then show ?thesis
    unfolding rev_corrected_def Let_def
    by (intro safe_if safe_shelf_then keeps_rules safe_lift_then rev_replied_back_safe safe_give)
      (auto split: option.split)
qed

lemma rev_awaits_safe: "rev_safe j (rev_awaits v j now pr p)"
proof -
  have c: "rev_safe j (rev_correct v now p c)" for c
    unfolding rev_correct_def by (intro safe_shelf_then keeps_rules safe_give) simp
  show ?thesis
    unfolding rev_awaits_def Let_def
    by (intro safe_option rev_corrected_safe safe_and_then [OF await_safe])
      (auto intro!: safe_give rev_replied_back_safe rev_rest_safe waits_placed c
        split: handoff_state.split option.split)
qed

lemma rev_hands_off_safe: "rev_safe j (rev_hands_off v j now pr p)"
  unfolding rev_hands_off_def Let_def
  by (intro safe_and_then [OF hand_off_safe])
    (auto intro!: safe_give rev_replied_back_safe rev_rest_safe waits_placed split: handoff_state.split)

subsection \<open>Nothing is stranded\<close>

definition rev_moves :: "job \<Rightarrow> result rev_step \<Rightarrow> bool" where
  "rev_moves j m \<longleftrightarrow> (\<exists>v now. m = rev_step_of v j now)"

lemma rev_transitions_safe:
  "list_all (\<lambda>(name, st, tokens, f). j_state j = st \<longrightarrow> rev_safe j (f v j now)) rev_transitions"
proof -
  have w: "rev_safe j (rev_watch v j now)" "rev_safe j (rev_await_review v j now)" "rev_safe j (rev_hand_off v j now)"
    unfolding rev_watch_def rev_await_review_def rev_hand_off_def
    by (intro while_open_safe rev_watches_safe rev_awaits_safe rev_hands_off_safe)+
  have r: "rev_safe j (rev_resume v j now)"
    unfolding rev_resume_def by (intro safe_give) simp
  show ?thesis
    unfolding rev_transitions_def list.pred_inject list_all_Nil_iff prod.case
    by (intro conjI impI TrueI rev_claim_safe rev_claimed_safe rev_run_safe rev_gate.gate_safe rev_push_safe
        rev_pushed_safe rev_replay_safe rev_replied_safe w rev_handed_back_safe r)
qed

lemma rev_step_safe: "rev_safe j (rev_step_of v j now)"
  unfolding rev_step_of_def by (rule step_from_safe [OF rev_transitions_safe])

lemma rev_states_have_transitions: "set rev_states \<subseteq> set (map (\<lambda>(name, st, tokens, f). st) rev_transitions)"
  unfolding rev_states_set rev_transitions_def list.map prod.case list.set by blast

text \<open>C19: A revise job is never stranded: whatever its runs, their effects, faults and restarts left on
  its bench, a transition that decides moves the job to a state one of the thirteen transitions
  starts from, and leaves it at rest only at the start, where the next send-back finds it.\<close>

theorem revise_never_strands:
  assumes "bench_run_to rev_moves (j_id j) s" and "rev_step_of v j now s = Some (Inr r, t)"
  shows "(\<exists>name tokens f. (name, res_state r, tokens, f) \<in> set rev_transitions) \<and>
    (res_run_at r = None \<longrightarrow> res_state r = Start_state)"
proof -
  have "shelf_in rev_states (j_id j) s"
    using assms(1) by (rule bench_run_shelf) (auto simp: rev_moves_def rev_step_safe)
  then have "placed_in rev_states r" using assms(2) by (rule safeD(2) [OF rev_step_safe])
  then show ?thesis using rev_states_have_transitions by (force simp: placed_in_def)
qed

subsection \<open>A push is vetted\<close>

lemma rev_on_quiet: "gives (rev_hand_back_on v j now marks sp key reason detail out) asks_nothing"
  unfolding rev_hand_back_on_def hands_back_def Let_def hand_back.simps by (intro gives_and_then owes_quiet)

lemma rev_hand_back_quiet: "gives (rev_hand_back v j now p reason out) asks_nothing"
  unfolding rev_hand_back_def rev_hand_back_replied_def rev_hand_back_of_def Let_def
  by (intro gives_if gives_and_then rev_on_quiet)

lemma rev_lost_quiet: "gives (rev_lost v j now) asks_nothing"
  unfolding rev_lost_def by (intro gives_and_then rev_on_quiet)

lemma rev_stop_quiet: "gives (rev_stop v j now p reason out) asks_nothing"
  unfolding rev_stop_def rev_fail_correction_def fail_correction_def correction_fail_def Let_def
  by (intro gives_option gives_if rev_hand_back_quiet gives_and_then gives_give rev_lost_quiet) simp_all

text \<open>The commit is the relay's, keeps the head that was read, and every path it touches since the
  lease, or since that head where the branch dropped the lease, is off the denylist.\<close>

definition rev_vetted :: "rev_env \<Rightarrow> rev_delivery \<Rightarrow> string \<Rightarrow> bool" where
  "rev_vetted v p head \<longleftrightarrow> (let d = rx_params v; q = dv_progress p in
     dl_relay d (pg_branch q) = Inr head \<and> dl_ancestor d (rev_kept p) head = Inr True \<and>
     (\<exists>since paths. touched_paths (dl_touched d since head) = Inr paths \<and> denied (dl_denylist d) paths = [] \<and>
       since = (if rx_has v (pg_pushed q) = Inr True \<and> dl_ancestor d (pg_pushed q) head = Inr True
                then pg_pushed q else rw_read p)))"

lemma rev_vet_stops: "gives (rev_vet v j now p head) (\<lambda>x. \<forall>r. x = Some r \<longrightarrow> asks_nothing r)"
proof -
  have s: "gives (and_then (rev_stop v j now p reason out) (\<lambda>r. give (Some r))) (\<lambda>x. \<forall>r. x = Some r \<longrightarrow> asks_nothing r)"
    for reason out
    by (intro gives_and_then_from [OF rev_stop_quiet] gives_give) simp
  show ?thesis
    unfolding rev_vet_def Let_def by (intro gives_and_then gives_if s gives_give) simp
qed

lemma push_since_is:
  "push_since v p head s = Some (Inr since, t) \<Longrightarrow> t = s \<and>
     since = (if rx_has v (pg_pushed (dv_progress p)) = Inr True \<and>
         dl_ancestor (rx_params v) (pg_pushed (dv_progress p)) head = Inr True
       then pg_pushed (dv_progress p) else rw_read p)"
  by (auto simp: push_since_def Let_def step_simps split: if_splits)

lemma rev_vet_passes:
  assumes "rev_vet v j now p head s = Some (Inr None, t)" and "dl_relay (rx_params v) (pg_branch (dv_progress p)) = Inr head"
  shows "rev_vetted v p head \<and> t = s"
proof -
  from assms(1) obtain since paths u where "dl_ancestor (rx_params v) (rev_kept p) head = Inr True"
    and u: "push_since v p head s = Some (Inr since, u)"
    and "touched_paths (dl_touched (rx_params v) since head) = Inr paths" "denied (dl_denylist (rx_params v)) paths = []" "t = u"
    by (auto simp: rev_vet_def Let_def step_simps split: if_splits)
  with assms(2) push_since_is [OF u] show ?thesis unfolding rev_vetted_def Let_def by blast
qed

lemma rev_pushes_sends:
  assumes "rev_pushes v j now p head s = Some (Inr r, t)" and "\<not> asks_nothing r"
  shows "\<exists>key nt. r = goes_with Pushed now [Effect key (Some (\<lambda>b. (fst (noting (dl_note_saved (rx_params v))
      (dl_note_removed (rx_params v)) (push_stem (pg_branch (dv_progress p)) head)
      (dl_push (rx_params v) head (pg_branch (dv_progress p)) (pg_pushed (dv_progress p))) nt), b)))] \<and>
    bn_progress t = Kept (p\<lparr>dv_progress := (dv_progress p)\<lparr>pg_head := head\<rparr>\<rparr>)"
proof -
  obtain k u where k: "push_round_of (rx_params v) (dv_progress p) head (correction_push_from (dv_correction p) head) s =
      Some (Inr k, u)"
    and r: "(case k of Inl (n, note) \<Rightarrow> rev_stop v j now p (unlanded_said n head (pg_branch (dv_progress p))) note
      | Inr e \<Rightarrow> and_then (save_progress (rx_params v) (p\<lparr>dv_progress := (dv_progress p)\<lparr>pg_head := head\<rparr>\<rparr>)) (\<lambda>_.
          give (goes_with Pushed now [e]))) u = Some (Inr r, t)"
    using assms(1) by (auto simp: rev_pushes_def Let_def step_simps)
  show ?thesis
  proof (cases k)
    case (Inl x)
    with r assms(2) givesD [OF rev_stop_quiet] show ?thesis by (auto split: prod.splits)
  next
    case (Inr e)
    from push_round_effect [OF k [unfolded Inr]] obtain key nt where
      "e = Effect key (Some (\<lambda>b. (fst (noting (dl_note_saved (rx_params v)) (dl_note_removed (rx_params v))
        (push_stem (pg_branch (dv_progress p)) head)
        (dl_push (rx_params v) head (pg_branch (dv_progress p)) (pg_pushed (dv_progress p))) nt), b)))" by blast
    with r Inr show ?thesis by (auto simp: step_simps)
  qed
qed

lemma measured_progress: "gives (rev_measured v n head p) (\<lambda>p1. dv_progress p1 = dv_progress p)"
proof -
  have m: "gives (rev_measure v n head p) (\<lambda>p1. dv_progress p1 = dv_progress p)"
    unfolding rev_measure_def Let_def by (intro gives_and_then gives_give) simp
  have "gives (attempted (rev_measure v n head p)) (\<lambda>x. \<forall>p1. x = Inr p1 \<longrightarrow> dv_progress p1 = dv_progress p)"
    using m by (auto simp: gives_def)
  then show ?thesis
    unfolding rev_measured_def by (rule gives_and_then_from) (auto intro!: gives_rules)
qed

text \<open>C6: A revision pushes only what was vetted, on top of what was read: the one thing its push
  transition asks for, short of handing back, is the push of the commit the relay holds for the
  pull request's branch, which keeps the head the send-back was written against (or, while a
  correction is made, the head its review read), and whose every change since the lease - or
  since that head, where the branch no longer has the lease - was checked against the denylist in
  the same decision. It goes out under the lease of the last push the agent saw there, and the
  commit is saved as the one to read back.\<close>

theorem revision_push_is_vetted:
  assumes "rev_push v j now s = Some (Inr r, t)" and "res_effects r \<noteq> []" and "res_state r \<noteq> HandingBack"
  shows "\<exists>p head key nt q. bn_progress s = Kept p \<and> bn_exists s \<and> rev_vetted v p head \<and> res_state r = Pushed \<and>
    res_effects r = [Effect key (Some (\<lambda>b. (fst (noting (dl_note_saved (rx_params v)) (dl_note_removed (rx_params v))
      (push_stem (pg_branch (dv_progress p)) head)
      (dl_push (rx_params v) head (pg_branch (dv_progress p)) (pg_pushed (dv_progress p))) nt), b)))] \<and>
    bn_progress t = Kept q \<and> dv_progress q = (dv_progress p)\<lparr>pg_head := head\<rparr>"
proof -
  have n: "\<not> asks_nothing r" using assms(2,3) by (simp add: asks_nothing_def)
  from assms(1) obtain found s1 where l: "load_progress (j_id j) s = Some (Inr found, s1)"
    and r: "(case (if bn_exists s1 then found else None) of None \<Rightarrow> rev_lost v j now
        | Some p \<Rightarrow> (case machine_over Revising now p of (r, ok) \<Rightarrow>
            if ok \<and> res_state r \<noteq> Pushing then give r else rev_push_work v j now p)) s1 = Some (Inr r, t)"
    unfolding rev_push_def with_work_def Let_def by (auto simp: step_simps)
  from l have s1: "s1 = s" and found: "\<And>p. found = Some p \<Longrightarrow> bn_progress s = Kept p"
    by (auto simp: load_progress_def step_simps split: kept_file.splits if_splits)
  from r n givesD [OF rev_lost_quiet] obtain p where p: "found = Some p" "bn_exists s"
    by (auto simp: s1 split: option.splits if_splits)
  with r n s1 have "rev_push_work v j now p s = Some (Inr r, t)"
    by (auto simp: machine_over_def Let_def split: if_splits)
  then obtain head x u where h: "dl_relay (rx_params v) (pg_branch (dv_progress p)) = Inr head"
    and vet: "rev_vet v j now p head s = Some (Inr x, u)"
    and w: "(case x of Some r \<Rightarrow> give r | None \<Rightarrow>
        and_then (rev_measured v (sub_number (j_subject j)) head p) (\<lambda>p. rev_pushes v j now p head)) u = Some (Inr r, t)"
    by (auto simp: rev_push_work_def step_simps)
  from w n givesD [OF rev_vet_stops vet] have x: "x = None" by (cases x) auto
  with vet h have v: "rev_vetted v p head" by (simp add: rev_vet_passes)
  from w x obtain p1 u1 where m: "rev_measured v (sub_number (j_subject j)) head p u = Some (Inr p1, u1)"
    and e: "rev_pushes v j now p1 head u1 = Some (Inr r, t)"
    by (auto simp: step_simps)
  have p1: "dv_progress p1 = dv_progress p"
    using givesD [OF measured_progress m] by simp
  from rev_pushes_sends [OF e n] obtain key nt where
    r: "r = goes_with Pushed now [Effect key (Some (\<lambda>b. (fst (noting (dl_note_saved (rx_params v))
      (dl_note_removed (rx_params v)) (push_stem (pg_branch (dv_progress p)) head)
      (dl_push (rx_params v) head (pg_branch (dv_progress p)) (pg_pushed (dv_progress p))) nt), b)))]"
    and t: "bn_progress t = Kept (p1\<lparr>dv_progress := (dv_progress p)\<lparr>pg_head := head\<rparr>\<rparr>)"
    unfolding p1 by blast
  show ?thesis
    by (rule exI [of _ p], rule exI [of _ head], rule exI [of _ key], rule exI [of _ nt],
        rule exI [of _ "p1\<lparr>dv_progress := (dv_progress p)\<lparr>pg_head := head\<rparr>\<rparr>"])
      (simp add: r t v found p goes_with_def goes_to_def)
qed

subsection \<open>The replay\<close>

text \<open>What a replay may save: the work as it was, its own push found landed, or the lease moved forward
  onto a push that has it, once more and no more often than it may.\<close>

definition replay_saves :: "rev_env \<Rightarrow> instant \<Rightarrow> rev_delivery \<Rightarrow> rev_delivery \<Rightarrow> bool" where
  "replay_saves v now p q \<longleftrightarrow> (let g = dv_progress p; d = rx_params v in
     q = p \<or>
     (\<exists>at_head. rx_fetch v (''refs/heads/'' @ pg_branch g) = Inr at_head \<and>
       (q = p\<lparr>dv_progress := g\<lparr>pg_pushed := pg_head g, pg_pushed_at := now\<rparr>\<rparr> \<and>
          dl_ancestor d (pg_head g) at_head = Inr True \<or>
        q = p\<lparr>rw_replays := rw_replays p + 1, dv_progress := g\<lparr>pg_pushed := at_head\<rparr>\<rparr> \<and>
          rw_replays p < rx_replays v \<and> at_head \<noteq> pg_pushed g \<and> dl_ancestor d (pg_pushed g) at_head = Inr True)))"

abbreviation saves_from :: "rev_env \<Rightarrow> instant \<Rightarrow> (rev_delivery, send_back) bench \<Rightarrow> (rev_delivery, send_back) bench \<Rightarrow> bool" where
  "saves_from v now s t \<equiv> \<forall>q. bn_progress t = Kept q \<longrightarrow> (\<exists>p. bn_progress s = Kept p \<and> replay_saves v now p q)"

lemma saves_keeps: "keeps bn_progress m \<Longrightarrow> safe (saves_from v now s) m (\<lambda>_. True)"
  by (rule safe_keeps [of bn_progress]) (simp_all add: gives_def)

lemma saves_hands_back: "safe (saves_from v now s) (hands_back d b j at_now hb) (\<lambda>_. True)"
proof -
  have k: "keeps bn_progress (owes b j at_now st r)" for st r
    by (auto simp: keeps_def owes_def split: option.splits prod.splits)
  have c: "safe (saves_from v now s) (clear_job d) (\<lambda>_. True)"
  proof -
    have d: "safe (saves_from v now s) (discard d) (\<lambda>_. True)"
      unfolding discard_def by (intro saves_keeps keeps_rules) simp_all
    show ?thesis
      unfolding clear_job_def
      by (intro safe_and_then [OF d] safe_unless_then safe_and_then [OF safe_alter] safe_alter) simp_all
  qed
  show ?thesis unfolding hands_back_def by (intro safe_and_then [OF c] saves_keeps k)
qed

lemma saves_hand_back: "safe (saves_from v now s) (rev_hand_back v j at_now p reason out) (\<lambda>_. True)"
  unfolding rev_hand_back_def rev_hand_back_replied_def rev_hand_back_of_def rev_hand_back_on_def Let_def
  by (intro safe_rules saves_hands_back)

lemma saves_lost: "safe (saves_from v now s) (rev_lost v j at_now) (\<lambda>_. True)"
  unfolding rev_lost_def rev_hand_back_on_def Let_def by (intro safe_rules saves_hands_back)

lemma saves_save:
  "(\<exists>p. bn_progress s = Kept p \<and> replay_saves v now p q) \<Longrightarrow> safe (saves_from v now s) (save_progress d q) (\<lambda>_. True)"
  unfolding save_progress_def by (intro safe_unless_then safe_alter) simp

lemma saves_onto: "safe (saves_from v now s) (rev_replays_on v j at_now p) (\<lambda>_. True)"
  unfolding rev_replays_on_def by (intro safe_lift_then safe_sum saves_hand_back safe_give) simp

lemma saves_work:
  assumes "bn_progress s = Kept p"
  shows "safe (saves_from v now s) (rev_replay_work v j now p) (\<lambda>_. True)"
proof -
  have l: "gives (landed_under v q at_head) (\<lambda>b. b \<longrightarrow> dl_ancestor (rx_params v) (pg_head q) at_head = Inr True)" for q at_head
    unfolding landed_under_def gives_def by (auto simp: step_simps split: if_splits)
  have k: "gives (lease_kept v q at_head) (\<lambda>b. b \<longrightarrow> dl_ancestor (rx_params v) (pg_pushed q) at_head = Inr True)" for q at_head
    unfolding lease_kept_def gives_def by (auto simp: step_simps split: if_splits)
  have kl: "safe (saves_from v now s) (landed_under v q at_head)
      (\<lambda>b. b \<longrightarrow> dl_ancestor (rx_params v) (pg_head q) at_head = Inr True)" for q at_head
    by (rule safe_keeps [of bn_progress, OF _ _ l]) (auto simp: landed_under_def intro!: keeps_rules)
  have kk: "safe (saves_from v now s) (lease_kept v q at_head)
      (\<lambda>b. b \<longrightarrow> dl_ancestor (rx_params v) (pg_pushed q) at_head = Inr True)" for q at_head
    by (rule safe_keeps [of bn_progress, OF _ _ k]) (auto simp: lease_kept_def intro!: keeps_rules)
  show ?thesis
    unfolding rev_replay_work_def Let_def
    by (intro safe_lift_then safe_if saves_hand_back safe_and_then [OF kl] safe_and_then [OF kk] saves_onto
        safe_and_then [OF saves_save] safe_give)
      (auto simp: assms replay_saves_def Let_def)
qed

text \<open>C20: A replay never rewinds and never runs on: whatever the replay transition leaves saved, on
  every outcome, errors included, is the work as it was, or the agent's own push recorded as
  landed when the branch has it, or the lease moved onto the head it fetched - a different one
  that has the old lease - with the count of replays one higher and still within the bound.\<close>

theorem replay_is_bounded:
  assumes "rev_replay v j now s = Some (x, t)" and "bn_progress t = Kept q"
  shows "\<exists>p. bn_progress s = Kept p \<and> replay_saves v now p q"
proof -
  have i: "saves_from v now s s" by (simp add: replay_saves_def)
  have "\<exists>y. load_progress (j_id j) s = Some (y, s) \<and> (\<forall>p. y = Inr (Some p) \<longrightarrow> bn_progress s = Kept p)"
    by (simp add: load_progress_def and_then_def look_def give_def halt_def split: kept_file.split)
  then obtain y where l: "load_progress (j_id j) s = Some (y, s)"
    and found: "\<And>p. y = Inr (Some p) \<Longrightarrow> bn_progress s = Kept p" by blast
  have "saves_from v now s t"
  proof (cases y)
    case (Inl e)
    with assms(1) l have "t = s" by (simp add: rev_replay_def with_work_def and_then_def)
    with i show ?thesis by simp
  next
    case (Inr z)
    with assms(1) l have r: "(case (if bn_exists s then z else None) of None \<Rightarrow> rev_lost v j now
        | Some p \<Rightarrow> rev_replay_work v j now p) s = Some (x, t)"
      by (simp add: rev_replay_def with_work_def and_then_def look_def)
    show ?thesis
    proof (cases "if bn_exists s then z else None")
      case None
      with r safeD(1) [OF saves_lost i] show ?thesis by simp
    next
      case (Some p)
      then have "bn_progress s = Kept p" using found Inr by (auto split: if_splits)
      from safeD(1) [OF saves_work [OF this] i] r Some show ?thesis by simp
    qed
  qed
  with assms(2) show ?thesis by blast
qed

subsection \<open>A first push\<close>

definition example_rev_replay :: replay_env where
  "example_rev_replay = \<lparr>rl_fetch = None, rl_tip = Inr ''h1'', rl_base = (\<lambda>_ _. Inr ''h0''), rl_list = (\<lambda>_ _. Inr ''h1 h0''),
     rl_subject = (\<lambda>_. Inr ''fix''), rl_tree = (\<lambda>_ _ _. Inr (''t1'', True)), rl_who = (\<lambda>_. Inr (join (replicate 5 ''a'') [CHR 0x00])),
     rl_message = (\<lambda>_. Inr ''fix''), rl_commit = (\<lambda>_ _ _ _. Inr (''h2'', True)), rl_update = (\<lambda>_. None),
     rl_import = (\<lambda>_ _. None)\<rparr>"

definition example_rev_pr :: pull_request where
  "example_rev_pr = \<lparr>pr_number = 7, pr_state = ''open'', pr_head_sha = ''h0'', pr_head_ref = ''work'', pr_head_repo = ''o/r'',
     pr_base_ref = ''main'', pr_base_sha = ''b0'', pr_login = ''afk'', pr_labels = [], pr_title = ''t'', pr_body = ''b''\<rparr>"

definition quiet_rev :: rev_env where
  "quiet_rev = \<lparr>rx_params = quiet_env\<lparr>dl_denylist := [''*.key'']\<rparr>, rx_replays = 3, rx_pull = (\<lambda>_. Inr example_rev_pr),
     rx_pull_later = Inr example_rev_pr, rx_reviews = Inr [], rx_lines = (\<lambda>_. Inr []), rx_render = (\<lambda>_ _. Inr ''work''),
     rx_nonce = Inr ''n'', rx_clone = Inr ''main'', rx_fetch = (\<lambda>_. Inr ''h0''), rx_fetch_also = (\<lambda>_. Inr ''b0''),
     rx_has = (\<lambda>_. Inr True), rx_import = (\<lambda>_ _. None), rx_merge_base = (\<lambda>_ _. Inr ''b0''), rx_diff = (\<lambda>_ _. Inr ''''),
     rx_replay = example_rev_replay, rx_cancelled = False\<rparr>"

definition first_revision :: rev_delivery where
  "first_revision = (let p = new_revision ''n'' ''work'' \<lparr>sb_head = ''h0'', sb_ref = ''work'', sb_points = [], sb_pushed = ''''\<rparr> in
     p\<lparr>dv_progress := (dv_progress p)\<lparr>pg_base := ''b0'', pg_into := ''main''\<rparr>\<rparr>)"

lemma first_revision_fields [simp]:
  "pg_branch (dv_progress first_revision) = ''work''" "pg_pushed (dv_progress first_revision) = ''h0''"
  "rw_read first_revision = ''h0''" "dv_correction first_revision = None" "rev_kept first_revision = ''h0''"
  by (simp_all add: first_revision_def new_revision_def rev_kept_def Let_def)

lemma quiet_rev_fields [simp]:
  "dl_relay (rx_params quiet_rev) b = Inr ''h1''" "dl_touched (rx_params quiet_rev) a h = Inr ''a.go''"
  "dl_denylist (rx_params quiet_rev) = [''*.key'']" "dl_sensitive (rx_params quiet_rev) = []"
  "dl_rounds (rx_params quiet_rev) = 2" "dl_file_error (rx_params quiet_rev) f = None"
  "dl_push (rx_params quiet_rev) h b l = None" "dl_ancestor (rx_params quiet_rev) a h = Inr True"
  "rx_has quiet_rev h = Inr True" "rx_pull quiet_rev n = Inr example_rev_pr" "rx_fetch_also quiet_rev r = Inr ''b0''"
  "rx_merge_base quiet_rev t h = Inr ''b0''" "dl_note_saved (rx_params quiet_rev)" "dl_note_removed (rx_params quiet_rev)"
  by (simp_all add: quiet_rev_def quiet_env_def)

lemma rev_quiet_vet: "rev_vet quiet_rev j now first_revision ''h1'' = give None"
proof -
  have "touched_paths (Inr ''a.go'') = Inr [''a.go'']" "denied [''*.key''] [''a.go''] = []" by code_simp+
  then show ?thesis by (simp add: rev_vet_def push_since_def Let_def)
qed

lemma rev_quiet_measured:
  "rev_measured quiet_rev n ''h1'' p = give (p\<lparr>rw_lines := 0, rw_tests := 0, rw_sensitive := [], rw_measured := True\<rparr>)"
proof -
  have "changed_files (Some '''') (Some '''') = Some []" by code_simp
  then have m: "measured (rx_params quiet_rev) base head = give \<lparr>ct_lines = 0, ct_tests = 0\<rparr>" for base head
    by (simp add: measured_def measure_diff_def quiet_rev_def quiet_env_def)
  have a: "attempted (give x) = give (Inr x)" for x :: rev_delivery
    by (rule ext) (simp add: attempted_def give_def)
  show ?thesis by (simp add: rev_measured_def rev_measure_def Let_def m a)
qed

lemma rev_quiet_push:
  "\<exists>r t. rev_push quiet_rev zero_job 50 (example_bench first_revision) = Some (Inr r, t) \<and> res_state r = Pushed \<and>
     res_effects r \<noteq> []"
proof -
  let ?s = "example_bench first_revision :: (rev_delivery, send_back) bench"
  let ?p = "first_revision\<lparr>rw_lines := 0, rw_tests := 0, rw_sensitive := [], rw_measured := True\<rparr>"
  let ?e = "Effect (round_key (push_stem ''work'' ''h1'') 0)
      (Some (\<lambda>d. (fst (noting True True (push_stem ''work'' ''h1'') None None), d)))"
  have l: "load_progress (j_id zero_job) ?s = Some (Inr (Some first_revision), ?s)"
    by (rule load_progress_runs)
      (simp_all add: example_bench_def first_revision_def new_revision_def progress_complete_def Let_def)
  have k: "push_round_of (rx_params quiet_rev) (dv_progress ?p) ''h1'' 0 ?s = Some (Inr (Inr ?e), ?s)"
    by (simp add: push_round_of_def next_key_def on_world_def noting_effect_def first_key example_bench_def Let_def
        and_then_def look_def give_def)
  have "rev_push_work quiet_rev zero_job 50 first_revision ?s = rev_pushes quiet_rev zero_job 50 ?p ''h1'' ?s"
    by (simp add: rev_push_work_def rev_quiet_vet rev_quiet_measured)
  moreover have "rev_pushes quiet_rev zero_job 50 ?p ''h1'' ?s = Some (Inr (goes_with Pushed 50 [?e]),
      ?s\<lparr>bn_progress := Kept (?p\<lparr>dv_progress := (dv_progress ?p)\<lparr>pg_head := ''h1''\<rparr>\<rparr>)\<rparr>)"
    using k by (simp add: rev_pushes_def Let_def and_then_def correction_push_from_def save_progress_def give_def alter_def)
  moreover have "rev_push quiet_rev zero_job 50 ?s = rev_push_work quiet_rev zero_job 50 first_revision ?s"
    by (simp add: rev_push_def with_work_def machine_over_def correction_over_def Let_def
        and_then_runs [of "load_progress (j_id zero_job)" ?s "Some first_revision" ?s, OF l])
      (simp add: example_bench_def)
  ultimately show ?thesis by (simp add: goes_with_def goes_to_def)
qed

theorem revision_push_is_vetted_witness:
  "\<exists>r t key f. rev_push quiet_rev zero_job 50 (example_bench first_revision) = Some (Inr r, t) \<and>
     res_effects r = [Effect key (Some f)] \<and> rev_vetted quiet_rev first_revision ''h1''"
proof -
  from rev_quiet_push obtain r t where r: "rev_push quiet_rev zero_job 50 (example_bench first_revision) = Some (Inr r, t)"
    "res_state r = Pushed" "res_effects r \<noteq> []" by blast
  have "res_state r \<noteq> HandingBack" by (simp add: r(2) Pushed_def HandingBack_def)
  from revision_push_is_vetted [OF r(1,3) this] obtain p head key f where
    "bn_progress (example_bench first_revision :: (rev_delivery, send_back) bench) = Kept p" "rev_vetted quiet_rev p head"
    "res_effects r = [Effect key (Some f)]" by blast
  moreover from this have "p = first_revision" "head = ''h1''"
    by (simp_all add: example_bench_def rev_vetted_def Let_def)
  ultimately show ?thesis using r(1) by blast
qed

definition moved_rev :: rev_env where
  "moved_rev = quiet_rev\<lparr>rx_params := quiet_env\<lparr>dl_remote := \<lambda>_. Inr ''h9''\<rparr>, rx_fetch := \<lambda>_. Inr ''h9''\<rparr>"

lemma moved_rev_fields [simp]:
  "dl_remote (rx_params moved_rev) b = Inr ''h9''" "rx_fetch moved_rev r = Inr ''h9''" "rx_has moved_rev h = Inr True"
  "dl_ancestor (rx_params moved_rev) a h = Inr True" "rx_replays moved_rev = 3" "rx_replay moved_rev = example_rev_replay"
  "dl_file_error (rx_params moved_rev) f = None"
  by (simp_all add: moved_rev_def quiet_rev_def quiet_env_def)

theorem replay_is_bounded_witness:
  "\<exists>t q. rev_replay moved_rev zero_job 50 (example_bench first_revision) = Some (Inr (goes_to Gating 50), t) \<and>
     bn_progress t = Kept q \<and> pg_pushed (dv_progress q) = ''h9'' \<and> rw_replays q = 1 \<and>
     replay_saves moved_rev 50 first_revision q"
proof -
  let ?s = "example_bench first_revision :: (rev_delivery, send_back) bench"
  let ?q = "first_revision\<lparr>rw_replays := 1, dv_progress := (dv_progress first_revision)\<lparr>pg_pushed := ''h9''\<rparr>\<rparr>"
  have l: "load_progress (j_id zero_job) ?s = Some (Inr (Some first_revision), ?s)"
    by (rule load_progress_runs)
      (simp_all add: example_bench_def first_revision_def new_revision_def progress_complete_def Let_def)
  have f: "pg_head (dv_progress first_revision) = ''''" "rw_replays first_revision = 0"
    by (simp_all add: first_revision_def new_revision_def Let_def)
  have o: "replay_onto example_rev_replay ''work'' ''h9'' = Inr (Inr ''h2'')" by code_simp
  have "rev_replay moved_rev zero_job 50 ?s = rev_replay_work moved_rev zero_job 50 first_revision ?s"
    by (simp add: rev_replay_def with_work_def
        and_then_runs [of "load_progress (j_id zero_job)" ?s "Some first_revision" ?s, OF l])
      (simp add: example_bench_def)
  also have "\<dots> = Some (Inr (goes_to Gating 50), ?s\<lparr>bn_progress := Kept ?q\<rparr>)"
    by (simp add: rev_replay_work_def landed_under_def lease_kept_def rev_replays_on_def save_progress_def f o Let_def
        and_then_def give_def alter_def)
  finally have r: "rev_replay moved_rev zero_job 50 ?s = Some (Inr (goes_to Gating 50), ?s\<lparr>bn_progress := Kept ?q\<rparr>)" .
  have "bn_progress (?s\<lparr>bn_progress := Kept ?q\<rparr>) = Kept ?q" by simp
  from replay_is_bounded [OF r this] have "replay_saves moved_rev 50 first_revision ?q"
    by (auto simp: example_bench_def)
  with r show ?thesis by (intro exI [of _ "?s\<lparr>bn_progress := Kept ?q\<rparr>"] exI [of _ ?q]) simp
qed

theorem revise_never_strands_witness:
  "\<exists>(t :: (rev_delivery, send_back) bench) (name :: string) tokens f.
     rev_step_of quiet_rev (zero_job\<lparr>j_state := Deferred\<rparr>) 60 (example_bench first_revision) =
      Some (Inr (goes_to Revising 60), t) \<and> (name, Revising, tokens, f) \<in> set rev_transitions"
proof -
  let ?s = "example_bench first_revision :: (rev_delivery, send_back) bench"
  let ?j = "zero_job\<lparr>j_state := Deferred\<rparr>"
  have "rev_step_of quiet_rev ?j 60 = rev_resume quiet_rev ?j 60"
    by (simp add: rev_step_of_def step_from_def rev_transitions_def Deferred_def Start_state_def Rev_Claiming_def
        Revising_def Gating_def Pushing_def Pushed_def Watching_def Replaying_def Replying_def Reviewing_def
        HandingOff_def HandingBack_def)
  then have s: "rev_step_of quiet_rev ?j 60 ?s = Some (Inr (goes_to Revising 60), ?s)"
    by (simp add: rev_resume_def give_def)
  have "bench_run_to rev_moves (j_id ?j) ?s"
    by (rule bench_run_to.begins) (simp add: no_shelf_def example_bench_def)
  from revise_never_strands [OF this s] obtain name tokens f where
    "(name, res_state (goes_to Revising 60), tokens, f) \<in> set rev_transitions" by blast
  with s show ?thesis by (auto simp: goes_to_def)
qed

end
