(* ===== verification/Reply_Properties.thy ===== *)
theory Reply_Properties
  imports Revise_Text Corrections
begin

text \<open>
  The session's part of a revision's reply, \<^verbatim>\<open>Sections\<close> in \<^verbatim>\<open>internal/revise/revise_reply.go\<close>: whatever
  the session wrote, no hidden line of its own is in what the agent posts, so nothing it typed is
  read back as one of the agent's markers.
\<close>

abbreviation comment_open :: string where
  "comment_open \<equiv> ''<!--''"

subsection \<open>Openings are escaped\<close>

lemma open_escaped_drop: "open_escaped k s = open_escaped 0 (drop k s)"
  by (induction s arbitrary: k) (auto simp: drop_Cons split: nat.split)

lemma escaped_prefix:
  "has_prefix (open_escaped 0 s) r \<Longrightarrow> CHR ''<'' \<notin> set r \<Longrightarrow> CHR ''&'' \<notin> set r \<Longrightarrow> has_prefix s r"
proof (induction s arbitrary: r)
  case (Cons c s)
  then show ?case by (cases r) (auto simp: has_prefix_def split: if_splits)
qed (simp add: has_prefix_def)

lemma escaped_opening_skips: "contains (''&lt;!--'' @ t) comment_open \<longleftrightarrow> contains t comment_open"
  by (simp add: contains_Cons has_prefix_def)

lemma no_opening: "\<not> contains (open_escaped 0 s) comment_open"
proof (induction s rule: length_induct)
  case (1 s)
  show ?case
  proof (cases s)
    case Nil
    then show ?thesis by (simp add: contains_def)
  next
    case (Cons c cs)
    have r: "\<not> contains (open_escaped 0 t) comment_open" if "length t \<le> length cs" for t
      using 1 that Cons by simp
    show ?thesis
    proof (cases "has_prefix s comment_open")
      case True
      then have "open_escaped 0 s = ''&lt;!--'' @ open_escaped 0 (drop 3 cs)"
        using Cons open_escaped_drop [of 3] by simp
      then show ?thesis using r [of "drop 3 cs"] escaped_opening_skips by simp
    next
      case False
      then have e: "open_escaped 0 s = c # open_escaped 0 cs" by (simp add: Cons)
      have "\<not> has_prefix (c # open_escaped 0 cs) comment_open"
        using False escaped_prefix [of cs "''!--''"] by (auto simp: Cons has_prefix_def)
      then show ?thesis using e r [of cs] by (simp add: contains_Cons)
    qed
  qed
qed

subsection \<open>The sections keep them out\<close>

lemma clean_over_nl:
  "\<not> contains s comment_open \<Longrightarrow> \<not> contains t comment_open \<Longrightarrow> \<not> contains (s @ nl @ t) comment_open"
  using contains_over_sep [of s "CHR 0x0A" t comment_open] by (auto simp: nl_def)

definition lines_clean :: "string \<Rightarrow> bool" where
  "lines_clean b \<longleftrightarrow> (\<exists>ls. b = concat (map (\<lambda>l. l @ nl) ls) \<and> (\<forall>l\<in>set ls. \<not> contains l comment_open))"

lemma lines_clean_Nil: "lines_clean ''''"
  unfolding lines_clean_def by (rule exI [of _ "[]"]) simp

lemma lines_clean_line: "lines_clean b \<Longrightarrow> \<not> contains l comment_open \<Longrightarrow> lines_clean (b @ l @ nl)"
proof -
  assume "lines_clean b" and l: "\<not> contains l comment_open"
  then obtain ls where "b = concat (map (\<lambda>l. l @ nl) ls)" "\<forall>l\<in>set ls. \<not> contains l comment_open"
    unfolding lines_clean_def by blast
  with l show ?thesis unfolding lines_clean_def by (intro exI [of _ "ls @ [l]"]) auto
qed

lemma clean_lines: "lines_clean b \<Longrightarrow> \<not> contains b comment_open"
proof -
  have "\<not> contains (concat (map (\<lambda>l. l @ nl) ls)) comment_open" if "\<forall>l\<in>set ls. \<not> contains l comment_open" for ls
    using that
  proof (induction ls)
    case Nil
    then show ?case by (simp add: contains_def)
  next
    case (Cons l ls)
    then show ?case by (simp add: clean_over_nl)
  qed
  then show "lines_clean b \<Longrightarrow> ?thesis" by (auto simp: lines_clean_def)
qed

lemma trim_space_part: "\<exists>a b. s = a @ trim_space s @ b"
proof -
  let ?t = "dropWhile is_space s"
  have "?t = trim_space s @ rev (takeWhile is_space (rev ?t))"
    unfolding trim_space_def by (metis rev_append rev_rev_ident takeWhile_dropWhile_id)
  then show ?thesis by (metis takeWhile_dropWhile_id)
qed

lemma contains_trim: "contains (trim_space s) m \<Longrightarrow> contains s m"
  using trim_space_part [of s] contains_append1 contains_append2 by metis

definition bodies_clean :: "reply_state \<Rightarrow> bool" where
  "bodies_clean s \<longleftrightarrow> (\<forall>name b. rs_bodies s name = Some b \<longrightarrow> lines_clean b)"

lemma reply_line_clean: "bodies_clean s \<Longrightarrow> \<not> contains l comment_open \<Longrightarrow> bodies_clean (reply_line l s)"
  by (auto simp: bodies_clean_def reply_line_def Let_def lines_clean_Nil lines_clean_line
      dest: lines_clean_line [OF lines_clean_Nil] split: option.splits)

lemma reply_lines_clean:
  "bodies_clean s \<Longrightarrow> \<forall>l\<in>set ls. \<not> contains l comment_open \<Longrightarrow> bodies_clean (fold reply_line ls s)"
  by (induction ls arbitrary: s) (simp_all add: reply_line_clean)

lemma joined_clean: "\<forall>p\<in>set ps. \<not> contains p comment_open \<Longrightarrow> \<not> contains (join ps (nl @ nl)) comment_open"
proof (induction ps "nl @ nl" rule: join.induct)
  case (3 p q ps)
  then have "\<not> contains (nl @ join (q # ps) (nl @ nl)) comment_open"
    using clean_over_nl [of "''''"] by (simp add: contains_def)
  with 3 show ?case using clean_over_nl [of p] by simp
qed (simp_all add: contains_def)

lemma part_clean: "bodies_clean s \<Longrightarrow> \<not> contains (reply_part s) comment_open"
proof -
  assume b: "bodies_clean s"
  have "\<not> contains (''## '' @ name @ nl @ nl @ trim_space t) comment_open"
    if "name \<in> set reply_sections" "rs_bodies s name = Some t" for name t
  proof -
    have "\<not> contains (trim_space t) comment_open"
      using b that(2) clean_lines contains_trim unfolding bodies_clean_def by blast
    moreover have "CHR ''<'' \<notin> set (''## '' @ name @ nl @ nl)"
      using that(1) by (auto simp: reply_sections_def nl_def)
    ultimately show ?thesis using contains_skip [of "''## '' @ name @ nl @ nl" "trim_space t" "''!--''"] by simp
  qed
  then show ?thesis
    unfolding reply_part_def by (intro joined_clean) (auto split: option.splits if_splits)
qed

text \<open>C21: Nothing hidden that a session wrote is posted: the sections of its reply, whatever the file
  held - comments, comments inside comments, openings never closed - hold no opening of an HTML
  comment, so none of the lines the agent reads back as its own markers can come from the session.\<close>

theorem reply_carries_no_marker: "\<not> contains (sections_of txt) ''<!--''"
proof -
  have "\<not> contains (join (split_on (CHR 0x0A) (shown_text txt)) [CHR 0x0A]) comment_open"
    unfolding join_split_on unfolding shown_text_def by (rule no_opening)
  then have "\<forall>l\<in>set (split_on (CHR 0x0A) (shown_text txt)). \<not> contains l comment_open"
    by (subst (asm) contains_join) simp_all
  moreover have "bodies_clean reply_start" by (simp add: bodies_clean_def reply_start_def)
  ultimately show ?thesis unfolding sections_of_def by (intro part_clean reply_lines_clean)
qed

end
