(* ===== verification/Store_Refinement.thy ===== *)
theory Store_Refinement
  imports Store_Properties
begin

text \<open>
  What the store promises its callers, apart from any table or column: a ledger of jobs by id, the
  keys reserved so far, and the episodes of exhausted tiers. \<open>ledger_step\<close> is the contract of the
  \<^verbatim>\<open>Store\<close> interface of \<^verbatim>\<open>internal/store/store.go\<close>, one rule for each way a call may come out,
  with the answer it gives. The SQLite store of \<^verbatim>\<open>sqlite.go\<close> implements it: every sequence of
  calls on it, with the answers it gave, is a run of the ledger.
\<close>

subsection \<open>The ledger\<close>

record ledger =
  lg_jobs :: "string \<rightharpoonup> job"
  lg_keys :: "string set"
  lg_tiers :: "string \<rightharpoonup> episode"

datatype call_answer = AnJob job | AnLeased "job option" | AnDone | AnEpisode episode | AnError store_error

definition empty_ledger :: ledger where
  "empty_ledger = \<lparr>lg_jobs = Map.empty, lg_keys = {}, lg_tiers = Map.empty\<rparr>"

text \<open>A job waiting for a holder: due, and not leased to anyone else.\<close>

definition waiting_for :: "string \<Rightarrow> instant \<Rightarrow> job \<Rightarrow> bool" where
  "waiting_for h now b \<longleftrightarrow> (\<exists>t\<le>now. j_next b = Some t) \<and> free_for h now b"

abbreviation with_job :: "ledger \<Rightarrow> string \<Rightarrow> job \<Rightarrow> ledger" where
  "with_job g jid b \<equiv> g\<lparr>lg_jobs := (lg_jobs g)(jid \<mapsto> b)\<rparr>"

abbreviation with_tier :: "ledger \<Rightarrow> string \<Rightarrow> episode option \<Rightarrow> ledger" where
  "with_tier g jid e \<equiv> g\<lparr>lg_tiers := (lg_tiers g)(jid := e)\<rparr>"

inductive ledger_step :: "store_call \<Rightarrow> call_answer \<Rightarrow> ledger \<Rightarrow> ledger \<Rightarrow> bool" where
  made: "kind_valid k \<Longrightarrow> subject_type_valid (sub_type s) \<Longrightarrow> lg_jobs g (job_ID k s) = None \<Longrightarrow>
    ledger_step (Ensure k s st t) (AnJob (new_job k s st t)) g (with_job g (job_ID k s) (new_job k s st t))"
| found: "kind_valid k \<Longrightarrow> subject_type_valid (sub_type s) \<Longrightarrow> lg_jobs g (job_ID k s) = Some b \<Longrightarrow>
    ledger_step (Ensure k s st t) (AnJob b) g g"
| unmade: "\<not> (kind_valid k \<and> subject_type_valid (sub_type s)) \<Longrightarrow> ledger_step (Ensure k s st t) (AnError e) g g"
| taken: "lg_jobs g jid = Some b \<Longrightarrow> free_for h now b \<Longrightarrow>
    ledger_step (Acquire jid h now ttl) (AnLeased (Some (lease_to h (now + ttl) b))) g
      (with_job g jid (lease_to h (now + ttl) b))"
| held: "lg_jobs g jid = Some b \<Longrightarrow> \<not> free_for h now b \<Longrightarrow> ledger_step (Acquire jid h now ttl) (AnLeased None) g g"
| unknown: "lg_jobs g jid = None \<Longrightarrow> ledger_step (Acquire jid h now ttl) (AnError (ErrNoJob jid)) g g"
| handed: "lg_jobs g jid = Some b \<Longrightarrow> waiting_for h now b \<Longrightarrow>
    (\<And>j a. lg_jobs g j = Some a \<Longrightarrow> waiting_for h now a \<Longrightarrow> (j_next b, jid) \<le> (j_next a, j)) \<Longrightarrow>
    ledger_step (Due h now ttl) (AnLeased (Some (lease_to h (now + ttl) b))) g
      (with_job g jid (lease_to h (now + ttl) b))"
| idle: "(\<And>j a. lg_jobs g j = Some a \<Longrightarrow> \<not> waiting_for h now a) \<Longrightarrow>
    ledger_step (Due h now ttl) (AnLeased None) g g"
| decided: "lg_jobs g (c_job c) = Some b \<Longrightarrow> holder_of b = Some (c_holder c) \<Longrightarrow>
    ledger_step (Commit c) AnDone g
      \<lparr>lg_jobs = (lg_jobs g)(c_job c \<mapsto> committed c b), lg_keys = lg_keys g \<union> set (c_keys c),
       lg_tiers = (if c_end_episode c then (lg_tiers g)(c_job c := None) else lg_tiers g)\<rparr>"
| displaced: "lg_jobs g (c_job c) = Some b \<Longrightarrow> holder_of b \<noteq> Some (c_holder c) \<Longrightarrow>
    ledger_step (Commit c) (AnError (ErrNotHeld (c_job c) (c_holder c))) g g"
| nowhere: "lg_jobs g (c_job c) = None \<Longrightarrow> ledger_step (Commit c) (AnError (ErrNoJob (c_job c))) g g"
| freed: "lg_jobs g jid = Some b \<Longrightarrow> ledger_step (Release jid h) AnDone g (with_job g jid (unleased_by h b))"
| unheld: "lg_jobs g jid = None \<Longrightarrow> ledger_step (Release jid h) AnDone g g"
| again: "lg_tiers g jid = Some ep \<Longrightarrow> ep' = ep\<lparr>ep_times := ep_times ep + 1\<rparr> \<Longrightarrow>
    ledger_step (CountEpisode jid start) (AnEpisode ep') g (with_tier g jid (Some ep'))"
| began: "lg_tiers g jid = None \<Longrightarrow> lg_jobs g jid \<noteq> None \<Longrightarrow>
    ep = \<lparr>ep_running = ep_running start, ep_deferred = ep_deferred start, ep_since = ep_since start, ep_times = 1,
      ep_told = False\<rparr> \<Longrightarrow>
    ledger_step (CountEpisode jid start) (AnEpisode ep) g (with_tier g jid (Some ep))"
| orphan: "lg_tiers g jid = None \<Longrightarrow> lg_jobs g jid = None \<Longrightarrow>
    ledger_step (CountEpisode jid start) (AnError (ErrForeignKey jid)) g g"
| told: "lg_tiers g jid = Some ep \<Longrightarrow> ep_since ep = since \<Longrightarrow>
    ledger_step (ToldEpisode jid since) AnDone g (with_tier g jid (Some (ep\<lparr>ep_told := True\<rparr>)))"
| untold: "(\<And>ep. lg_tiers g jid = Some ep \<Longrightarrow> ep_since ep \<noteq> since) \<Longrightarrow> ledger_step (ToldEpisode jid since) AnDone g g"
| ended: "ledger_step (EndEpisode jid) AnDone g (with_tier g jid None)"
| left: "lg_tiers g jid = Some ep \<Longrightarrow> st \<noteq> ep_running ep \<Longrightarrow> st \<noteq> ep_deferred ep \<Longrightarrow>
    ledger_step (LeaveEpisode jid st) AnDone g (with_tier g jid None)"
| stayed: "(\<And>ep. lg_tiers g jid = Some ep \<Longrightarrow> st = ep_running ep \<or> st = ep_deferred ep) \<Longrightarrow>
    ledger_step (LeaveEpisode jid st) AnDone g g"

inductive ledger_run :: "store_call list \<Rightarrow> call_answer list \<Rightarrow> ledger \<Rightarrow> ledger \<Rightarrow> bool" where
  no_calls: "ledger_run [] [] g g"
| next_call: "ledger_step c a g g1 \<Longrightarrow> ledger_run cs as g1 g2 \<Longrightarrow> ledger_run (c # cs) (a # as) g g2"

subsection \<open>The store's answers\<close>

definition answer_by :: "('a \<Rightarrow> call_answer) \<Rightarrow> store_error + 'a \<Rightarrow> call_answer" where
  "answer_by f x = (case x of Inl e \<Rightarrow> AnError e | Inr a \<Rightarrow> f a)"

fun answer_to :: "store_call \<Rightarrow> db \<Rightarrow> call_answer" where
  "answer_to (Ensure k s i t) d = answer_by AnJob (fst (ensure k s i t d))"
| "answer_to (Acquire j h now ttl) d = answer_by AnLeased (fst (acquire j h now ttl d))"
| "answer_to (Due h now ttl) d = answer_by AnLeased (fst (due h now ttl d))"
| "answer_to (Commit c) d = answer_by (\<lambda>_. AnDone) (fst (commit c d))"
| "answer_to (Release j h) d = answer_by (\<lambda>_. AnDone) (fst (release j h d))"
| "answer_to (CountEpisode j ep) d = answer_by AnEpisode (fst (count_episode j ep d))"
| "answer_to (ToldEpisode j t) d = answer_by (\<lambda>_. AnDone) (fst (told_episode j t d))"
| "answer_to (EndEpisode j) d = answer_by (\<lambda>_. AnDone) (fst (end_episode j d))"
| "answer_to (LeaveEpisode j st) d = answer_by (\<lambda>_. AnDone) (fst (leave_episode j st d))"

fun answers_to :: "store_call list \<Rightarrow> db \<Rightarrow> call_answer list" where
  "answers_to [] d = []"
| "answers_to (c # cs) d = answer_to c d # answers_to cs (exec c d)"

definition ledger_of :: "db \<Rightarrow> ledger" where
  "ledger_of d = \<lparr>lg_jobs = view d, lg_keys = dom (db_idempotency d), lg_tiers = db_episodes d\<rparr>"

lemma ledger_of_fields [simp]:
  "lg_jobs (ledger_of d) = view d" "lg_keys (ledger_of d) = dom (db_idempotency d)"
  "lg_tiers (ledger_of d) = db_episodes d"
  by (simp_all add: ledger_of_def)

lemma ledger_ofI:
  "view d = jobs \<Longrightarrow> dom (db_idempotency d) = keys \<Longrightarrow> db_episodes d = tiers \<Longrightarrow>
     ledger_of d = \<lparr>lg_jobs = jobs, lg_keys = keys, lg_tiers = tiers\<rparr>"
  by (simp add: ledger_of_def)

lemma answer_by_simps [simp]: "answer_by f (Inl e) = AnError e" "answer_by f (Inr a) = f a"
  by (simp_all add: answer_by_def)

subsection \<open>Each call refines the ledger's\<close>

text \<open>The store's step on a call, as the ledger sees it.\<close>

abbreviation refines :: "store_call \<Rightarrow> db \<Rightarrow> bool" where
  "refines c d \<equiv> ledger_step c (answer_to c d) (ledger_of d) (ledger_of (exec c d))"

lemma ensure_refines: "refines (Ensure k s st t) d"
proof (cases "kind_valid k \<and> subject_type_valid (sub_type s)")
  case False
  with ensure_invalid [OF False, of st t d] show ?thesis
    by (auto simp: isl_def intro: ledger_step.unmade)
next
  case True
  then have v: "kind_valid k" "subject_type_valid (sub_type s)" by simp_all
  show ?thesis
  proof (cases "view d (job_ID k s)")
    case None
    then have "ledger_of (exec (Ensure k s st t) d) = with_job (ledger_of d) (job_ID k s) (new_job k s st t)"
      by (simp add: ledger_of_def ensure_view [OF v])
    with None v ledger_step.made [of k s "ledger_of d" st t] show ?thesis by (simp add: ensure_result)
  next
    case (Some b)
    then have "ledger_of (exec (Ensure k s st t) d) = ledger_of d"
      by (simp add: ledger_of_def ensure_view [OF v])
    with Some v ledger_step.found [of k s "ledger_of d" b st t] show ?thesis by (simp add: ensure_result)
  qed
qed

lemma acquire_refines:
  assumes "db_ok d"
  shows "refines (Acquire jid h now ttl) d"
proof -
  have g: "ledger_of (exec (Acquire jid h now ttl) d) = (case view d jid of None \<Rightarrow> ledger_of d
      | Some b \<Rightarrow> if free_for h now b then with_job (ledger_of d) jid (lease_to h (now + ttl) b) else ledger_of d)"
    by (simp add: ledger_of_def acquire_view [OF assms] split: option.split)
  show ?thesis
    unfolding g
    using ledger_step.taken [of "ledger_of d" jid _ h now ttl] ledger_step.held [of "ledger_of d" jid _ h now ttl]
      ledger_step.unknown [of "ledger_of d" jid h now ttl]
    by (cases "view d jid") (simp_all add: acquire_result [OF assms])
qed

lemma due_refines:
  assumes "db_ok d"
  shows "refines (Due h now ttl) d"
proof -
  have w: "waiting_for h now (scan_job r) \<longleftrightarrow> due_where now h r" if "find_row (r_id r) d = Some r" for r
    using lease_where_view [OF assms that, of now h]
    by (auto simp: waiting_for_def due_where_def scan_job_def split: option.split)
  show ?thesis
  proof (cases "fst (due h now ttl d)")
    case (Inr x)
    show ?thesis
    proof (cases x)
      case None
      have "filter (due_where now h) (db_jobs d) = []"
        using Inr None by (auto simp: due_def split: option.splits)
      then have "\<not> waiting_for h now a" if "view d j = Some a" for j a
        using that w by (auto simp: view_def find_row_def filter_empty_conv dest: tlookup_SomeD)
      then have "ledger_step (Due h now ttl) (AnLeased None) (ledger_of d) (ledger_of d)"
        by (intro ledger_step.idle) simp
      moreover have "snd (due h now ttl d) = d"
        using due_None [of h now ttl d] Inr None by simp
      ultimately show ?thesis using Inr None by simp
    next
      case (Some b')
      from due_longest_waiting [OF assms, of h now ttl b'] Inr Some obtain b where
        b: "view d (j_id b) = Some b" "b' = lease_to h (now + ttl) b" "waiting_for h now b"
        and up: "view (snd (due h now ttl d)) = (view d)(j_id b \<mapsto> b')"
        and least: "\<And>j a t. view d j = Some a \<Longrightarrow> j_next a = Some t \<Longrightarrow> t \<le> now \<Longrightarrow> free_for h now a \<Longrightarrow>
          (j_next b, j_id b) \<le> (Some t, j)"
        unfolding waiting_for_def by metis
      have "ledger_step (Due h now ttl) (AnLeased (Some b')) (ledger_of d) (with_job (ledger_of d) (j_id b) b')"
        unfolding b(2)
      proof (rule ledger_step.handed)
        show "(j_next b, j_id b) \<le> (j_next a, j)" if "lg_jobs (ledger_of d) j = Some a" "waiting_for h now a" for j a
          using that least [of j a] by (auto simp: waiting_for_def)
      qed (use b in simp_all)
      moreover have "ledger_of (exec (Due h now ttl) d) = with_job (ledger_of d) (j_id b) b'"
        by (simp add: ledger_of_def up)
      ultimately show ?thesis using Inr Some by simp
    qed
  qed (auto simp: due_def split: option.splits)
qed

lemma commit_refines:
  assumes "db_ok d"
  shows "refines (Commit c) d"
proof -
  have tiers: "db_episodes (snd (commit c d)) = (if isl (fst (commit c d)) \<or> \<not> c_end_episode c then db_episodes d
      else (db_episodes d)(c_job c := None))"
    by (auto simp: commit_def Let_def update_row_def split: option.splits)
  show ?thesis
  proof (cases "\<exists>b. view d (c_job c) = Some b \<and> holder_of b = Some (c_holder c)")
    case True
    then obtain b where b: "view d (c_job c) = Some b" "holder_of b = Some (c_holder c)" by blast
    then have r: "fst (commit c d) = Inr ()" by (simp add: commit_result [OF assms])
    then have "ledger_of (exec (Commit c) d) = \<lparr>lg_jobs = (view d)(c_job c \<mapsto> committed c b),
        lg_keys = dom (db_idempotency d) \<union> set (c_keys c),
        lg_tiers = (if c_end_episode c then (db_episodes d)(c_job c := None) else db_episodes d)\<rparr>"
      by (simp add: ledger_of_def commit_view [OF assms] commit_keys tiers b)
    with ledger_step.decided [of "ledger_of d" c b] b r show ?thesis by (cases "c_end_episode c") simp_all
  next
    case False
    then have g: "ledger_of (exec (Commit c) d) = ledger_of d" and "isl (fst (commit c d))"
      by (auto simp: ledger_of_def commit_view [OF assms] commit_keys tiers commit_result [OF assms] split: option.split)
    show ?thesis
      unfolding g
      using False ledger_step.displaced [of "ledger_of d" c] ledger_step.nowhere [of "ledger_of d" c]
      by (cases "view d (c_job c)") (auto simp: commit_result [OF assms])
  qed
qed

lemma release_refines: "refines (Release jid h) d"
proof -
  have g: "ledger_of (exec (Release jid h) d) = (case view d jid of None \<Rightarrow> ledger_of d
      | Some b \<Rightarrow> with_job (ledger_of d) jid (unleased_by h b))"
    by (simp add: ledger_of_def release_view split: option.split)
  show ?thesis
    unfolding g
    using ledger_step.freed [of "ledger_of d" jid] ledger_step.unheld [of "ledger_of d" jid]
    by (cases "view d jid") simp_all
qed

lemma count_refines: "refines (CountEpisode jid start) d"
proof (cases "db_episodes d jid")
  case None
  have v: "find_row jid d = None \<longleftrightarrow> view d jid = None" by (simp add: view_def)
  show ?thesis
  proof (cases "view d jid")
    case None
    with \<open>db_episodes d jid = None\<close> v show ?thesis
      using ledger_step.orphan [of "ledger_of d" jid start] by (simp add: count_episode_def)
  next
    case (Some b)
    then have "find_row jid d \<noteq> None" using v by simp
    with None Some ledger_step.began [OF _ _ refl, of "ledger_of d" jid start]
    show ?thesis by (auto simp: count_episode_def Let_def ledger_of_def)
  qed
next
  case (Some ep)
  then show ?thesis
    using ledger_step.again [OF _ refl, of "ledger_of d" jid ep start]
    by (simp add: count_episode_def Let_def ledger_of_def)
qed

lemma told_refines: "refines (ToldEpisode jid since) d"
proof (cases "\<exists>ep. db_episodes d jid = Some ep \<and> ep_since ep = since")
  case True
  then obtain ep where "db_episodes d jid = Some ep" "ep_since ep = since" by blast
  with ledger_step.told [of "ledger_of d" jid ep since] show ?thesis
    by (simp add: told_episode_def ledger_of_def)
next
  case False
  then have "told_episode jid since d = (Inr (), d)" by (auto simp: told_episode_def split: option.split)
  with False ledger_step.untold [of "ledger_of d" jid since] show ?thesis by auto
qed

lemma end_refines: "refines (EndEpisode jid) d"
  using ledger_step.ended [of jid "ledger_of d"] by (simp add: end_episode_def ledger_of_def)

lemma leave_refines: "refines (LeaveEpisode jid st) d"
proof (cases "\<exists>ep. db_episodes d jid = Some ep \<and> st \<noteq> ep_running ep \<and> st \<noteq> ep_deferred ep")
  case True
  then obtain ep where "db_episodes d jid = Some ep" "st \<noteq> ep_running ep" "st \<noteq> ep_deferred ep" by blast
  with ledger_step.left [of "ledger_of d" jid ep st] show ?thesis
    by (auto simp: leave_episode_def ledger_of_def)
next
  case False
  then have "leave_episode jid st d = (Inr (), d)" by (auto simp: leave_episode_def split: option.split)
  with False ledger_step.stayed [of "ledger_of d" jid st] show ?thesis by auto
qed

lemma call_refines: "db_ok d \<Longrightarrow> refines c d"
  by (cases c) (simp_all only: ensure_refines acquire_refines due_refines commit_refines release_refines count_refines
      told_refines end_refines leave_refines)

lemma calls_refine: "db_ok d \<Longrightarrow> ledger_run cs (answers_to cs d) (ledger_of d) (ledger_of (exec_all cs d))"
proof (induction cs arbitrary: d)
  case Nil
  then show ?case by (simp add: exec_all_def ledger_run.no_calls)
next
  case (Cons c cs)
  from ledger_run.next_call [OF call_refines [OF Cons.prems, of c] Cons.IH [OF exec_ok [OF Cons.prems]]]
  show ?case by (simp add: exec_all_def)
qed

text \<open>C7: The SQLite store implements the ledger: from a new database, any sequence of calls, with the
  answers the store gave to each, is a run of the ledger. Every answer, errors included, and every
  change of a job, a key or an episode is one the contract of the interface allows.\<close>

theorem store_refines_ledger:
  "ledger_run calls (answers_to calls empty_db) empty_ledger (ledger_of (exec_all calls empty_db))"
proof -
  have "ledger_of empty_db = empty_ledger"
    by (simp add: ledger_of_def empty_ledger_def empty_db_def view_def find_row_def tlookup_Nil fun_eq_iff)
  with calls_refine [OF db_ok_empty, of calls] show ?thesis by simp
qed

end
