(* ===== verification/Caught.thy ===== *)
theory Caught
  imports Work_Steps
begin

text \<open>
  What CI caught that the local gate did not, \<^verbatim>\<open>internal/caught/caught.go\<close>: the runs on heads the
  agent pushed, their failed jobs, and each failed check of each head counted once. What the
  tracker answers is a record. The report is the lines it is written as; writing them, and the
  two formats of a time, are parameters.
\<close>

subsection \<open>Reading the catches\<close>

definition failed_conclusions :: "string list" where
  "failed_conclusions = [''failure'', ''timed_out'']"

definition listed_conclusions :: "string list" where
  "listed_conclusions = [''failure'', ''timed_out'', ''cancelled'']"

definition on_head :: "string \<Rightarrow> bool" where
  "on_head e \<longleftrightarrow> e \<in> {''push'', ''pull_request'', ''dynamic''}"

definition is_catch :: "string \<Rightarrow> bool" where
  "is_catch conclusion \<longleftrightarrow> conclusion \<in> set failed_conclusions"

record caught_tracker =
  ct_count :: "string \<Rightarrow> gh_error + int"
  ct_runs :: "string \<Rightarrow> string \<Rightarrow> gh_error + (workflow_run list \<times> int)"
  ct_jobs :: "int \<Rightarrow> gh_error + workflow_job list"

record catch =
  ca_head :: string
  ca_branch :: string
  ca_check :: string
  ca_url :: string
  ca_at :: gotime

record caught_report =
  cp_catches :: "catch list"
  cp_login :: string
  cp_started :: int
  cp_runs :: int
  cp_listed :: int

text \<open>The catches so far, newest last; what is caught already is their heads and checks.\<close>

definition catch_key :: "catch \<Rightarrow> string \<times> string" where
  "catch_key c = (ca_head c, ca_check c)"

definition catch_job :: "workflow_run \<Rightarrow> workflow_job \<Rightarrow> catch list \<Rightarrow> catch list" where
  "catch_job wrun j cs =
     (if \<not> is_catch (wj_conclusion j) then cs
      else if (wr_head_sha wrun, wj_name j) \<in> set (map catch_key cs) then cs
      else cs @ [\<lparr>ca_head = wr_head_sha wrun, ca_branch = wr_head_branch wrun, ca_check = wj_name j,
                  ca_url = wj_url j, ca_at = wr_created wrun\<rparr>])"

fun catch_runs :: "caught_tracker \<Rightarrow> workflow_run list \<Rightarrow> int list \<times> catch list \<Rightarrow>
    gh_error + (int list \<times> catch list)" where
  "catch_runs t [] s = Inr s"
| "catch_runs t (wrun # runs) (seen, cs) =
     (if wr_id wrun \<in> set seen \<or> \<not> on_head (wr_event wrun) then catch_runs t runs (seen, cs)
      else (case ct_jobs t (wr_id wrun) of
          Inl e \<Rightarrow> Inl e
        | Inr jobs \<Rightarrow> catch_runs t runs (wr_id wrun # seen, fold (catch_job wrun) jobs cs)))"

fun catch_listings :: "caught_tracker \<Rightarrow> string \<Rightarrow> string list \<Rightarrow> int list \<times> catch list \<Rightarrow> caught_report \<Rightarrow>
    gh_error + caught_report" where
  "catch_listings t login [] (seen, cs) r = Inr (r\<lparr>cp_catches := cs\<rparr>)"
| "catch_listings t login (conclusion # rest) s r =
     (case ct_runs t login conclusion of
        Inl e \<Rightarrow> Inl e
      | Inr (runs, all_runs) \<Rightarrow>
          (case catch_runs t runs s of
             Inl e \<Rightarrow> Inl e
           | Inr s' \<Rightarrow> catch_listings t login rest s'
               (r\<lparr>cp_listed := cp_listed r + all_runs, cp_runs := cp_runs r + int (length runs)\<rparr>)))"

definition read_catches :: "caught_tracker \<Rightarrow> string \<Rightarrow> gh_error + caught_report" where
  "read_catches t login =
     (case ct_count t login of
        Inl e \<Rightarrow> Inl e
      | Inr started \<Rightarrow>
          (case catch_listings t login listed_conclusions ([], [])
              \<lparr>cp_catches = [], cp_login = login, cp_started = started, cp_runs = 0, cp_listed = 0\<rparr> of
             Inl e \<Rightarrow> Inl e
           | Inr r \<Rightarrow> Inr (r\<lparr>cp_catches := sort_key ca_at (cp_catches r)\<rparr>)))"

subsection \<open>The report\<close>

definition check_counts :: "caught_report \<Rightarrow> (string \<times> int) list" where
  "check_counts r =
     (let checks = map ca_check (cp_catches r) in
      sort_key (\<lambda>(check, n). (- n, check)) (map (\<lambda>c. (c, int (count_list checks c))) (remdups checks)))"

definition plural :: "int \<Rightarrow> string \<Rightarrow> string \<Rightarrow> string" where
  "plural n one many = (if n = 1 then ''1 '' @ one else dec n @ '' '' @ many)"

definition caught_summary :: "(gotime \<Rightarrow> string) \<Rightarrow> caught_report \<Rightarrow> string" where
  "caught_summary date r =
     (let of_runs = ''of '' @ plural (cp_started r) ''run'' ''runs'' @ '' '' @ cp_login r @ '' started''; cs = cp_catches r in
      if cs = [] then ''CI has caught nothing the local gate passed, '' @ of_runs @ ''.''
      else plural (int (length cs)) ''catch'' ''catches'' @ '' on '' @
        plural (int (card (set (map ca_head cs)))) ''head'' ''heads'' @ '', from '' @ date (ca_at (List.hd cs)) @
        '' to '' @ date (ca_at (last cs)) @ '', '' @ of_runs @ ''.'')"

definition report_lines :: "(gotime \<Rightarrow> string) \<Rightarrow> (gotime \<Rightarrow> string) \<Rightarrow> bool \<Rightarrow> caught_report \<Rightarrow> string list" where
  "report_lines rfc3339 date all_of r =
     (let tab = [CHR 0x09] in
      (if all_of then map (\<lambda>c. rfc3339 (ca_at c) @ tab @ git_short (ca_head c) @ tab @ ca_branch c @ tab @
         ca_check c @ tab @ ca_url c) (cp_catches r) else []) @
      map (\<lambda>(check, n). dec n @ tab @ check) (check_counts r) @
      [caught_summary date r] @
      (if cp_started r = 0
       then [''GitHub serves no run '' @ cp_login r @ '' started: check that it is the agent's login.''] else []) @
      (if cp_runs r < cp_listed r
       then [''GitHub served '' @ dec (cp_runs r) @ '' of '' @ dec (cp_listed r) @
         '' runs that did not pass; the oldest are not counted.''] else []))"

subsection \<open>Each check of each head once\<close>

text \<open>A run served, on a head the agent pushed, and a job of it that failed.\<close>

definition caught_in :: "caught_tracker \<Rightarrow> workflow_run list \<Rightarrow> (string \<times> string) set" where
  "caught_in t runs = {(wr_head_sha wrun, wj_name j) | wrun j jobs. wrun \<in> set runs \<and> on_head (wr_event wrun) \<and>
     ct_jobs t (wr_id wrun) = Inr jobs \<and> j \<in> set jobs \<and> is_catch (wj_conclusion j)}"

definition served :: "caught_tracker \<Rightarrow> string \<Rightarrow> workflow_run list" where
  "served t login = concat (map (\<lambda>c. case ct_runs t login c of Inl e \<Rightarrow> [] | Inr (runs, n) \<Rightarrow> runs) listed_conclusions)"

lemma catch_job_keys:
  "set (map catch_key (catch_job wrun j cs)) = set (map catch_key cs) \<union>
     (if is_catch (wj_conclusion j) then {(wr_head_sha wrun, wj_name j)} else {})"
  "distinct (map catch_key cs) \<Longrightarrow> distinct (map catch_key (catch_job wrun j cs))"
  by (auto simp: catch_job_def catch_key_def)

lemma catch_jobs_keys:
  "set (map catch_key (fold (catch_job wrun) jobs cs)) = set (map catch_key cs) \<union>
     {(wr_head_sha wrun, wj_name j) | j. j \<in> set jobs \<and> is_catch (wj_conclusion j)}"
  "distinct (map catch_key cs) \<Longrightarrow> distinct (map catch_key (fold (catch_job wrun) jobs cs))"
proof (induction jobs arbitrary: cs)
  case (Cons j jobs)
  { case 1 show ?case unfolding fold_Cons comp_def Cons.IH(1) catch_job_keys(1) by auto }
  { case 2 then show ?case unfolding fold_Cons comp_def by (intro Cons.IH(2) catch_job_keys(2)) }
qed auto

text \<open>What the search has seen: the ids of the runs on a head among those read, and their catches.\<close>

definition read_so_far :: "caught_tracker \<Rightarrow> workflow_run list \<Rightarrow> int list \<times> catch list \<Rightarrow> bool" where
  "read_so_far t runs s \<longleftrightarrow>
     set (fst s) = wr_id ` {wrun \<in> set runs. on_head (wr_event wrun)} \<and>
     set (map catch_key (snd s)) = caught_in t runs \<and> distinct (map catch_key (snd s))"

text \<open>A run served twice is the same run.\<close>

definition one_run_per_id :: "workflow_run list \<Rightarrow> bool" where
  "one_run_per_id runs \<longleftrightarrow> (\<forall>a\<in>set runs. \<forall>b\<in>set runs. wr_id a = wr_id b \<longrightarrow>
     wr_head_sha a = wr_head_sha b \<and> wr_event a = wr_event b)"

lemma caught_in_append: "caught_in t (a @ b) = caught_in t a \<union> caught_in t b"
  by (auto simp: caught_in_def)

lemma catch_runs_reads:
  assumes "catch_runs t runs s = Inr s'" and "read_so_far t before s" and "one_run_per_id (before @ runs)"
  shows "read_so_far t (before @ runs) s'"
  using assms
proof (induction t runs s arbitrary: before rule: catch_runs.induct)
  case (2 t wrun runs seen cs)
  have one: "one_run_per_id ((before @ [wrun]) @ runs)" using "2.prems"(3) by simp
  have next_runs: "read_so_far t (before @ wrun # runs) s'"
    if "catch_runs t runs s1 = Inr s'" "read_so_far t (before @ [wrun]) s1"
      "\<And>b. catch_runs t runs s1 = Inr s' \<Longrightarrow> read_so_far t b s1 \<Longrightarrow> one_run_per_id (b @ runs) \<Longrightarrow>
         read_so_far t (b @ runs) s'" for s1
    using that(3) [OF that(1,2) one] by simp
  show ?case
  proof (cases "wr_id wrun \<in> set seen \<or> \<not> on_head (wr_event wrun)")
    case True
    have sub: "caught_in t [wrun] \<subseteq> caught_in t before"
    proof (cases "on_head (wr_event wrun)")
      case on: True
      with True "2.prems"(2) obtain r where r: "r \<in> set before" "on_head (wr_event r)" "wr_id r = wr_id wrun"
        by (auto simp: read_so_far_def)
      then have "wr_head_sha r = wr_head_sha wrun"
        using "2.prems"(3) by (auto simp: one_run_per_id_def)
      with r show ?thesis unfolding caught_in_def by clarsimp metis
    qed (auto simp: caught_in_def)
    have "wr_id ` {x \<in> set (before @ [wrun]). on_head (wr_event x)} = set seen"
      using True "2.prems"(2) by (auto simp: read_so_far_def)
    with sub "2.prems"(2) have "read_so_far t (before @ [wrun]) (seen, cs)"
      by (auto simp: read_so_far_def caught_in_append)
    then show ?thesis using "2.prems"(1) True "2.IH"(1) by (intro next_runs) auto
  next
    case False
    then obtain jobs where jobs: "ct_jobs t (wr_id wrun) = Inr jobs"
      using "2.prems"(1) by (auto split: sum.splits)
    have "caught_in t [wrun] = {(wr_head_sha wrun, wj_name j) | j. j \<in> set jobs \<and> is_catch (wj_conclusion j)}"
      using False jobs by (auto simp: caught_in_def)
    then have "read_so_far t (before @ [wrun]) (wr_id wrun # seen, fold (catch_job wrun) jobs cs)"
      using "2.prems"(2) False
      by (auto simp: read_so_far_def caught_in_append catch_jobs_keys simp del: set_map)
    then show ?thesis using "2.prems"(1) False jobs "2.IH"(2) by (intro next_runs) auto
  qed
qed simp

lemma catch_listings_reads:
  assumes "catch_listings t login ls s r = Inr r'" and "read_so_far t before s"
    and "one_run_per_id (before @ concat (map (\<lambda>c. case ct_runs t login c of Inl e \<Rightarrow> [] | Inr (runs, n) \<Rightarrow> runs) ls))"
  shows "\<exists>seen. read_so_far t (before @ concat (map (\<lambda>c. case ct_runs t login c of Inl e \<Rightarrow> [] | Inr (runs, n) \<Rightarrow> runs) ls))
    (seen, cp_catches r')"
  using assms
proof (induction t login ls s r arbitrary: before rule: catch_listings.induct)
  case (2 t login c rest s r)
  then obtain runs n s1 where r: "ct_runs t login c = Inr (runs, n)" and s1: "catch_runs t runs s = Inr s1"
    by (auto split: sum.splits)
  have "one_run_per_id (before @ runs)"
    using "2.prems"(3) r by (auto simp: one_run_per_id_def)
  from catch_runs_reads [OF s1 "2.prems"(2) this] "2.prems" r s1
  show ?case using "2.IH" [OF r refl s1, of "before @ runs"] by simp
qed auto

text \<open>A report names each check that failed on each head the agent pushed exactly once - re-runs,
  other workflows with a job of the same name, and runs a moving listing served twice included -
  and names nothing else: only jobs that ran and failed, of runs on a head. It is oldest first,
  and the counts by check add up to it.\<close>

theorem catches_counted_once:
  assumes "read_catches t login = Inr r" and "one_run_per_id (served t login)"
  shows "distinct (map catch_key (cp_catches r)) \<and>
    set (map catch_key (cp_catches r)) = caught_in t (served t login) \<and>
    sorted (map ca_at (cp_catches r)) \<and>
    (\<Sum>(check, n)\<leftarrow>check_counts r. n) = int (length (cp_catches r)) \<and>
    set (check_counts r) = {(c, int (count_list (map ca_check (cp_catches r)) c)) | c. c \<in> ca_check ` set (cp_catches r)}"
proof -
  obtain n r0 where c: "ct_count t login = Inr n"
    and r0: "catch_listings t login listed_conclusions ([], [])
      \<lparr>cp_catches = [], cp_login = login, cp_started = n, cp_runs = 0, cp_listed = 0\<rparr> = Inr r0"
    and r: "r = r0\<lparr>cp_catches := sort_key ca_at (cp_catches r0)\<rparr>"
    using assms(1) by (auto simp: read_catches_def split: sum.splits)
  have "read_so_far t [] ([], [])" by (simp add: read_so_far_def caught_in_def)
  from catch_listings_reads [OF r0 this] assms(2) obtain seen
    where s: "read_so_far t (served t login) (seen, cp_catches r0)"
    by (auto simp: served_def)
  have p: "mset (map catch_key (cp_catches r)) = mset (map catch_key (cp_catches r0))"
    by (simp add: r)
  have "distinct (map catch_key (cp_catches r))"
    using s p by (metis read_so_far_def mset_eq_imp_distinct_iff snd_conv)
  moreover have "set (map catch_key (cp_catches r)) = caught_in t (served t login)"
    using s p by (metis read_so_far_def mset_eq_setD snd_conv)
  moreover have "sorted (map ca_at (cp_catches r))" by (simp add: r)
  moreover have "(\<Sum>(check, n)\<leftarrow>check_counts r. n) = int (length (cp_catches r))"
  proof -
    let ?ch = "map ca_check (cp_catches r)"
    have "(\<Sum>(check, n)\<leftarrow>check_counts r. n) = sum_list (map snd (check_counts r))"
      by (simp add: case_prod_beta')
    also have "\<dots> = sum_mset (mset (map snd (check_counts r)))" by (simp only: sum_mset_sum_list)
    also have "mset (map snd (check_counts r)) = mset (map (\<lambda>c. int (count_list ?ch c)) (remdups ?ch))"
      by (simp add: check_counts_def Let_def image_mset.compositionality comp_def)
    also have "sum_mset \<dots> = (\<Sum>c\<leftarrow>remdups ?ch. int (count_list ?ch c))" by (simp only: sum_mset_sum_list)
    also have "\<dots> = int (\<Sum>c\<in>set ?ch. count_list ?ch c)"
      by (subst sum_list_distinct_conv_sum_set) (simp_all add: distinct_remdups)
    also have "\<dots> = int (length ?ch)" by (simp only: sum_count_set [OF subset_refl finite_set])
    finally show ?thesis by simp
  qed
  moreover have "set (check_counts r) =
      {(c, int (count_list (map ca_check (cp_catches r)) c)) | c. c \<in> ca_check ` set (cp_catches r)}"
    by (auto simp: check_counts_def Let_def)
  ultimately show ?thesis by blast
qed


definition example_caught :: caught_tracker where
  "example_caught = \<lparr>ct_count = (\<lambda>_. Inr 3),
     ct_runs = (\<lambda>login c. Inr (if c = ''failure'' then
       [\<lparr>wr_id = 1, wr_head_sha = ''h1'', wr_head_branch = ''b'', wr_event = ''push'', wr_conclusion = c, wr_created = Some 5\<rparr>,
        \<lparr>wr_id = 1, wr_head_sha = ''h1'', wr_head_branch = ''b'', wr_event = ''push'', wr_conclusion = c, wr_created = Some 5\<rparr>]
       else [], 2)),
     ct_jobs = (\<lambda>i. Inr [\<lparr>wj_name = ''test'', wj_conclusion = ''failure'', wj_url = ''''\<rparr>,
       \<lparr>wj_name = ''build'', wj_conclusion = ''success'', wj_url = ''''\<rparr>])\<rparr>"

theorem catches_counted_once_witness:
  "\<exists>r. read_catches example_caught ''afk'' = Inr r \<and> distinct (map catch_key (cp_catches r)) \<and>
     set (map catch_key (cp_catches r)) = {(''h1'', ''test'')}"
proof -
  obtain r where r: "read_catches example_caught ''afk'' = Inr r"
    and k: "map catch_key (cp_catches r) = [(''h1'', ''test'')]"
    by (simp add: read_catches_def example_caught_def listed_conclusions_def on_head_def catch_job_def
        is_catch_def failed_conclusions_def catch_key_def)
  have "one_run_per_id (served example_caught ''afk'')"
    by (simp add: one_run_per_id_def served_def example_caught_def listed_conclusions_def)
  from catches_counted_once [OF r this] r k show ?thesis by auto
qed

end
