(* ===== verification/Premises.thy ===== *)
theory Premises
  imports Implement_Text
begin

text \<open>
  An issue's premises, \<^verbatim>\<open>internal/premise/premise.go\<close>: the links of its Premises section, each once
  and in order, and which of them the agent fetches. The four regular expressions are written out
  as the matchers they are. \<open>url_of\<close> is \<^verbatim>\<open>net/url\<close>'s reading of an address - its host without a
  port, its path and its fragment, both unescaped - or that it is not one.
\<close>

subsection \<open>Links\<close>

record web_url =
  wu_host :: string
  wu_path :: string
  wu_fragment :: string

record premise_link =
  li_text :: string
  li_repo :: string
  li_unread :: string
  li_number :: int
  li_comment :: int
  li_ref :: string
  li_path :: string

definition link_text :: "string \<Rightarrow> premise_link" where
  "link_text t = \<lparr>li_text = t, li_repo = '''', li_unread = '''', li_number = 0, li_comment = 0, li_ref = '''', li_path = ''''\<rparr>"

definition link_file :: "premise_link \<Rightarrow> bool" where
  "link_file l \<longleftrightarrow> li_path l \<noteq> ''''"

subsection \<open>The regular expressions\<close>

definition trim_left_of :: "char list \<Rightarrow> string \<Rightarrow> string" where
  "trim_left_of cs s = dropWhile (\<lambda>c. c \<in> set cs) s"

definition trim_right_of :: "char list \<Rightarrow> string \<Rightarrow> string" where
  "trim_right_of cs s = rev (dropWhile (\<lambda>c. c \<in> set cs) (rev s))"

definition blank_byte :: "char \<Rightarrow> bool" where
  "blank_byte c \<longleftrightarrow> c = CHR '' '' \<or> c = CHR 0x09"

text \<open>A heading's level and text.\<close>

definition heading_of :: "string \<Rightarrow> (nat \<times> string) option" where
  "heading_of line =
     (let n = length (takeWhile (\<lambda>c. c = CHR ''#'') line); r = drop n line in
      if 1 \<le> n \<and> n \<le> 6 \<and> r \<noteq> '''' \<and> blank_byte (List.hd r)
      then Some (n, trim_right_of [CHR '' '', CHR 0x09, CHR ''#''] (dropWhile blank_byte r)) else None)"

definition name_byte :: "char \<Rightarrow> bool" where
  "name_byte c \<longleftrightarrow> word_char c \<or> c = CHR ''.'' \<or> c = CHR ''-''"

definition url_byte :: "char \<Rightarrow> bool" where
  "url_byte c \<longleftrightarrow> c \<notin> {CHR 0x09, CHR 0x0A, CHR 0x0C, CHR 0x0D, CHR '' '', CHR ''<'', CHR ''>'', CHR ''('', CHR '')'',
     CHR ''['', CHR '']''}"

text \<open>The address at the start of a text.\<close>

definition address_at :: "string \<Rightarrow> string option" where
  "address_at s =
     (let after = (\<lambda>p. case cut_prefix s p of None \<Rightarrow> None
        | Some r \<Rightarrow> let u = takeWhile url_byte r in if u = '''' then None else Some (p @ u)) in
      case after ''http://'' of Some u \<Rightarrow> Some u | None \<Rightarrow> after ''https://'')"

fun addresses :: "nat \<Rightarrow> string \<Rightarrow> string list" where
  "addresses k [] = []"
| "addresses (Suc k) (c # cs) = addresses k cs"
| "addresses 0 (c # cs) =
     (case address_at (c # cs) of
        None \<Rightarrow> addresses 0 cs
      | Some u \<Rightarrow> u # addresses (length u - 1) cs)"

fun without_addresses :: "nat \<Rightarrow> string \<Rightarrow> string" where
  "without_addresses k [] = []"
| "without_addresses (Suc k) (c # cs) = without_addresses k cs"
| "without_addresses 0 (c # cs) =
     (case address_at (c # cs) of
        None \<Rightarrow> c # without_addresses 0 cs
      | Some u \<Rightarrow> CHR '' '' # without_addresses (length u - 1) cs)"

text \<open>\<open>#N\<close> at the start of a text: its digits, ended at a word's boundary.\<close>

definition number_at :: "string \<Rightarrow> string option" where
  "number_at s =
     (case cut_prefix s ''#'' of
        None \<Rightarrow> None
      | Some r \<Rightarrow>
          let d = takeWhile is_digit r; e = dropWhile is_digit r in
          if d = '''' \<or> e \<noteq> '''' \<and> word_char (List.hd e) then None else Some d)"

text \<open>\<open>owner/name\<close> at the start of a text.\<close>

definition repo_at :: "string \<Rightarrow> string option" where
  "repo_at s =
     (if s = '''' \<or> \<not> word_char (List.hd s) \<or> List.hd s = CHR ''_'' then None
      else
        let a = takeWhile name_byte s in
        (case dropWhile name_byte s of
           [] \<Rightarrow> None
         | c # r \<Rightarrow> if c \<noteq> CHR ''/'' then None
             else let b = takeWhile name_byte r in if b = '''' then None else Some (a @ ''/'' @ b)))"

text \<open>The repository and the digits of a reference at the start of a text.\<close>

definition reference_at :: "string \<Rightarrow> (string \<times> string) option" where
  "reference_at s =
     (let named = (case repo_at s of None \<Rightarrow> None | Some r \<Rightarrow> map_option (Pair r) (number_at (drop (length r) s))) in
      case named of Some x \<Rightarrow> Some x | None \<Rightarrow> map_option (Pair '''') (number_at s))"

text \<open>The reference, with the rune before it: the whole match, the repository and the digits.\<close>

definition short_at :: "bool \<Rightarrow> string \<Rightarrow> (string \<times> string \<times> string) option" where
  "short_at start s =
     (let found = (\<lambda>n. map_option (\<lambda>(r, d). (take n s @ r @ ''#'' @ d, r, d)) (reference_at (drop n s))) in
      case (if start then found 0 else None) of
        Some x \<Rightarrow> Some x
      | None \<Rightarrow>
          if s = '''' \<or> word_char (List.hd s) \<or> List.hd s \<in> {CHR ''/'', CHR ''#'', CHR ''&''} then None
          else found (rune_width s))"

fun short_references :: "bool \<Rightarrow> nat \<Rightarrow> string \<Rightarrow> (string \<times> string \<times> string) list" where
  "short_references start k [] = []"
| "short_references start (Suc k) (c # cs) = short_references False k cs"
| "short_references start 0 (c # cs) =
     (case short_at start (c # cs) of
        None \<Rightarrow> short_references False 0 cs
      | Some (m, r, d) \<Rightarrow> (m, r, d) # short_references False (length m - 1) cs)"

definition review_comment :: "string \<Rightarrow> bool" where
  "review_comment f \<longleftrightarrow> list_ex (\<lambda>p. case cut_prefix f p of None \<Rightarrow> False | Some d \<Rightarrow> d \<noteq> '''' \<and> list_all is_digit d)
     [''discussion_r'', ''r'', ''pullrequestreview-'']"

subsection \<open>Reading an address\<close>

definition hex_value :: "char \<Rightarrow> nat option" where
  "hex_value c =
     (let n = of_char c :: nat in
      if 0x30 \<le> n \<and> n \<le> 0x39 then Some (n - 0x30)
      else if 0x41 \<le> n \<and> n \<le> 0x46 then Some (n - 0x37)
      else if 0x61 \<le> n \<and> n \<le> 0x66 then Some (n - 0x57) else None)"

text \<open>\<^verbatim>\<open>url.PathUnescape\<close>.\<close>

fun path_unescape :: "string \<Rightarrow> string option" where
  "path_unescape [] = Some []"
| "path_unescape (c # s) =
     (if c \<noteq> CHR ''%'' then map_option (Cons c) (path_unescape s)
      else (case s of
          a # b # r \<Rightarrow>
            (case (hex_value a, hex_value b) of
               (Some x, Some y) \<Rightarrow> map_option (Cons (char_of (16 * x + y))) (path_unescape r)
             | _ \<Rightarrow> None)
        | _ \<Rightarrow> None))"

text \<open>\<^verbatim>\<open>strconv.Atoi\<close>, or \<^verbatim>\<open>ParseInt\<close> in base ten at 64 bits: \<open>None\<close> is an error.\<close>

definition go_atoi :: "string \<Rightarrow> int option" where
  "go_atoi s =
     (let neg = has_prefix s ''-''; d = (if has_prefix s ''-'' \<or> has_prefix s ''+'' then tl s else s) in
      if d = '''' \<or> \<not> list_all is_digit d then None
      else let v = undec 0 d in
        if neg then (if v \<le> 2 ^ 63 then Some (- v) else None) else if v < 2 ^ 63 then Some v else None)"

definition unread_form :: string where
  "unread_form = ''not a file permalink, an issue, a pull request or a comment''"

definition lower :: "string \<Rightarrow> string" where
  "lower s = map fold_char s"

definition link_at :: "web_url \<Rightarrow> premise_link \<Rightarrow> premise_link" where
  "link_at u l =
     (let parts = split_on (CHR ''/'') (trim_left_of ''/'' (trim_right_of ''/'' (wu_path u)));
          unread = l\<lparr>li_unread := unread_form\<rparr> in
      if length parts < 4 then unread
      else
        let repo = parts ! 0 @ ''/'' @ parts ! 1 in
        if parts ! 2 = ''blob''
        then (if length parts < 5 then unread
              else (case path_unescape (join (drop 4 parts) ''/'') of
                  None \<Rightarrow> unread
                | Some p \<Rightarrow> l\<lparr>li_repo := repo, li_ref := parts ! 3, li_path := p\<rparr>))
        else if parts ! 2 = ''issues'' \<or> parts ! 2 = ''pull''
        then (case go_atoi (parts ! 3) of
            None \<Rightarrow> unread
          | Some n \<Rightarrow>
              if n < 1 then unread
              else if review_comment (wu_fragment u)
              then l\<lparr>li_unread := ''a review comment on a pull request's diff, or a review, which the agent does not fetch''\<rparr>
              else l\<lparr>li_repo := repo, li_number := n, li_comment :=
                (case cut_prefix (wu_fragment u) ''issuecomment-'' of None \<Rightarrow> 0
                 | Some i \<Rightarrow> (case go_atoi i of None \<Rightarrow> 0 | Some c \<Rightarrow> c))\<rparr>)
        else unread)"

definition link_of_address :: "(string \<Rightarrow> web_url option) \<Rightarrow> string \<Rightarrow> premise_link" where
  "link_of_address url_of raw =
     (case url_of raw of
        None \<Rightarrow> (link_text raw)\<lparr>li_unread := ''not a URL the agent can read''\<rparr>
      | Some u \<Rightarrow>
          if lower (wu_host u) \<noteq> ''github.com'' \<and> lower (wu_host u) \<noteq> ''www.github.com''
          then (link_text raw)\<lparr>li_unread := ''not on GitHub, so the agent does not fetch it''\<rparr>
          else link_at u (link_text raw))"

subsection \<open>The section\<close>

definition premises_named :: "string \<Rightarrow> bool" where
  "premises_named txt \<longleftrightarrow> equal_fold (trim_left_of ''*_: '' (trim_right_of ''*_: '' (trim_space txt))) ''Premises''"

definition link_key :: "premise_link \<Rightarrow> string" where
  "link_key l =
     (if li_repo l = '''' then li_text l
      else lower (li_repo l) @ ''|'' @ dec (li_number l) @ ''|'' @ dec (li_comment l) @ ''|'' @ li_ref l @ ''|'' @ li_path l)"

text \<open>The link a reference is, if its number is one.\<close>

definition link_of_reference :: "string \<Rightarrow> string \<times> string \<times> string \<Rightarrow> premise_link option" where
  "link_of_reference repo m =
     (let (whole, named, digits) = m; l = link_text (trim_left_of ('' '' @ [CHR 0x09] @ ''([*_,;:'') whole);
          rep = (if named \<noteq> '''' then named else repo) in
      case go_atoi digits of
        None \<Rightarrow> None
      | Some n \<Rightarrow>
          if n < 1 then None
          else if rep = '''' then Some (l\<lparr>li_unread := ''a reference with no repository to read it in''\<rparr>)
          else Some (l\<lparr>li_repo := rep, li_number := n\<rparr>))"

definition address_end :: "char list" where
  "address_end = ''.,;:!?'' @ [CHR 0x27, CHR 0x22] @ ''*_'' @ [CHR 0x60]"

definition line_links :: "(string \<Rightarrow> web_url option) \<Rightarrow> string \<Rightarrow> string \<Rightarrow> premise_link list" where
  "line_links url_of repo line =
     map (\<lambda>u. link_of_address url_of (trim_right_of address_end u)) (addresses 0 line) @
     List.map_filter (link_of_reference repo) (short_references True 0 (without_addresses 0 line))"

record premises_read =
  pd_level :: nat
  pd_fenced :: bool
  pd_seen :: "string list"
  pd_links :: "premise_link list"

definition add_link :: "premise_link \<Rightarrow> premises_read \<Rightarrow> premises_read" where
  "add_link l s =
     (if link_key l \<in> set (pd_seen s) then s
      else s\<lparr>pd_seen := link_key l # pd_seen s, pd_links := pd_links s @ [l]\<rparr>)"

definition premises_line :: "(string \<Rightarrow> web_url option) \<Rightarrow> string \<Rightarrow> string \<Rightarrow> premises_read \<Rightarrow> premises_read" where
  "premises_line url_of repo line s =
     (let s = (if has_prefix (trim_space line) (replicate 3 (CHR 0x60)) then s\<lparr>pd_fenced := \<not> pd_fenced s\<rparr> else s) in
      case (if pd_fenced s then None else heading_of line) of
        Some (n, t) \<Rightarrow>
          if premises_named t then s\<lparr>pd_level := n\<rparr>
          else if 0 < pd_level s \<and> n \<le> pd_level s then s\<lparr>pd_level := 0\<rparr> else s
      | None \<Rightarrow>
          if pd_level s = 0 \<or> pd_fenced s then s else fold add_link (line_links url_of repo line) s)"

definition premise_links :: "(string \<Rightarrow> web_url option) \<Rightarrow> string \<Rightarrow> string \<Rightarrow> premise_link list" where
  "premise_links url_of body repo =
     pd_links (fold (premises_line url_of repo) (split_on (CHR 0x0A) (unix_lines body))
       \<lparr>pd_level = 0, pd_fenced = False, pd_seen = [], pd_links = []\<rparr>)"

end
