(* ===== verification/Premises_Properties.thy ===== *)
theory Premises_Properties
  imports Premises
begin

text \<open>
  The links of a Premises section against what the section says: every link of its lines is listed,
  once, and each is either one the agent fetches, a file or a thread and never both, or says why it
  is not.
\<close>

subsection \<open>The section's lines\<close>

fun section_lines :: "nat \<Rightarrow> bool \<Rightarrow> string list \<Rightarrow> string list" where
  "section_lines level fen [] = []"
| "section_lines level fen (line # ls) =
     (let fen = (if has_prefix (trim_space line) (replicate 3 (CHR 0x60)) then \<not> fen else fen) in
      case (if fen then None else heading_of line) of
        Some (n, t) \<Rightarrow> section_lines (if premises_named t then n else if n \<le> level then 0 else level) fen ls
      | None \<Rightarrow> (if level = 0 \<or> fen then id else Cons line) (section_lines level fen ls))"

definition premises_section :: "string \<Rightarrow> string list" where
  "premises_section body = section_lines 0 False (split_on (CHR 0x0A) (unix_lines body))"

lemma add_links_keep [simp]: "pd_level (fold add_link ls s) = pd_level s" "pd_fenced (fold add_link ls s) = pd_fenced s"
  by (induction ls arbitrary: s) (simp_all add: add_link_def)

text \<open>The first link of each key, and the keys seen after them.\<close>

fun first_links :: "string list \<Rightarrow> premise_link list \<Rightarrow> premise_link list" where
  "first_links seen [] = []"
| "first_links seen (l # ls) =
     (if link_key l \<in> set seen then first_links seen ls else l # first_links (link_key l # seen) ls)"

fun keys_after :: "premise_link list \<Rightarrow> string list \<Rightarrow> string list" where
  "keys_after [] seen = seen"
| "keys_after (l # ls) seen = keys_after ls (if link_key l \<in> set seen then seen else link_key l # seen)"

lemma add_links [simp]:
  "pd_seen (fold add_link ls s) = keys_after ls (pd_seen s)"
  "pd_links (fold add_link ls s) = pd_links s @ first_links (pd_seen s) ls"
  by (induction ls arbitrary: s) (simp_all add: add_link_def)

lemma keys_after_append [simp]: "keys_after (xs @ ys) seen = keys_after ys (keys_after xs seen)"
  by (induction xs arbitrary: seen) simp_all

lemma first_links_append [simp]: "first_links seen (xs @ ys) = first_links seen xs @ first_links (keys_after xs seen) ys"
  by (induction xs arbitrary: seen) simp_all

lemma premises_read_reads:
  "pd_links (fold (premises_line url_of repo) ls s) = pd_links s @
     first_links (pd_seen s) (concat (map (line_links url_of repo) (section_lines (pd_level s) (pd_fenced s) ls)))"
proof (induction ls arbitrary: s)
  case (Cons line ls)
  let ?f = "if has_prefix (trim_space line) (replicate 3 (CHR 0x60)) then \<not> pd_fenced s else pd_fenced s"
  have "pd_links (fold (premises_line url_of repo) (line # ls) s) =
      pd_links (fold (premises_line url_of repo) ls (premises_line url_of repo line s))" by simp
  also have "\<dots> = pd_links (premises_line url_of repo line s) @ first_links (pd_seen (premises_line url_of repo line s))
      (concat (map (line_links url_of repo) (section_lines (pd_level (premises_line url_of repo line s))
        (pd_fenced (premises_line url_of repo line s)) ls)))" by (rule Cons.IH)
  also have "\<dots> = pd_links s @ first_links (pd_seen s) (concat (map (line_links url_of repo)
      (section_lines (pd_level s) (pd_fenced s) (line # ls))))"
  proof (cases "if ?f then None else heading_of line")
    case None
    then show ?thesis
      by (cases "pd_fenced s"; cases "has_prefix (trim_space line) (replicate 3 (CHR 0x60))"; cases "pd_level s = 0")
        (simp_all add: premises_line_def)
  next
    case (Some h)
    then show ?thesis
      by (cases h; cases "pd_fenced s"; cases "has_prefix (trim_space line) (replicate 3 (CHR 0x60))";
          cases "pd_level s = 0") (simp_all add: premises_line_def Let_def)
  qed
  finally show ?case .
qed simp

lemma premise_links_are: "premise_links url_of body repo =
    first_links [] (concat (map (line_links url_of repo) (premises_section body)))"
  by (simp add: premise_links_def premises_section_def premises_read_reads)

subsection \<open>Each link once\<close>

lemma first_links_keys: "set (map link_key (first_links seen ls)) = set (map link_key ls) - set seen"
  by (induction seen ls rule: first_links.induct) auto

lemma first_links_distinct: "distinct (map link_key (first_links seen ls))"
proof (induction seen ls rule: first_links.induct)
  case (2 seen l ls)
  then show ?case
    using first_links_keys [of "link_key l # seen" ls] by (auto simp del: set_map)
qed simp

lemma first_links_from: "set (first_links seen ls) \<subseteq> set ls"
  by (induction seen ls rule: first_links.induct) auto

subsection \<open>What a link is\<close>

text \<open>A link the agent fetches is a file or a thread; any other says why it does not.\<close>

definition premise_sound :: "premise_link \<Rightarrow> bool" where
  "premise_sound l \<longleftrightarrow>
     (if li_repo l = '''' then li_unread l \<noteq> '''' \<and> \<not> link_file l \<and> li_number l = 0
      else li_unread l = '''' \<and> (if link_file l then li_number l = 0 else 1 \<le> li_number l))"

lemma unescape_nonempty: "path_unescape s = Some t \<Longrightarrow> s \<noteq> '''' \<Longrightarrow> t \<noteq> ''''"
proof (cases s)
  case (Cons c r)
  assume u: "path_unescape s = Some t"
  show ?thesis
  proof (cases "c = CHR ''%''")
    case False
    with u Cons show ?thesis by auto
  next
    case True
    with u Cons show ?thesis by (cases r; cases "tl r") (auto simp del: char_of_eq_iff split: option.splits)
  qed
qed simp

lemma split_on_last: "s \<noteq> '''' \<Longrightarrow> last s \<noteq> c \<Longrightarrow> last (split_on c s) \<noteq> ''''"
proof (induction s)
  case (Cons x s)
  then show ?case by (cases "s = ''''") (auto split: list.split if_splits)
qed simp

lemma join_nonempty: "ls \<noteq> [] \<Longrightarrow> last ls \<noteq> '''' \<Longrightarrow> join ls sep \<noteq> ''''"
  by (induction ls sep rule: join.induct) auto

lemma trimmed_last:
  assumes "trim_left_of cs (trim_right_of cs s) \<noteq> ''''"
  shows "last (trim_left_of cs (trim_right_of cs s)) \<notin> set cs"
proof -
  let ?t = "trim_right_of cs s"
  have t: "?t \<noteq> ''''" using assms by (auto simp: trim_left_of_def)
  then have "last ?t \<notin> set cs"
    using hd_dropWhile [of "\<lambda>c. c \<in> set cs" "rev s"] by (simp add: trim_right_of_def last_rev)
  moreover have "?t = takeWhile (\<lambda>c. c \<in> set cs) ?t @ trim_left_of cs ?t" by (simp add: trim_left_of_def)
  ultimately show ?thesis using assms by (metis last_appendR)
qed

lemma unread_sound: "r \<noteq> '''' \<Longrightarrow> premise_sound ((link_text raw)\<lparr>li_unread := r\<rparr>)"
  by (simp add: premise_sound_def link_text_def link_file_def)

lemma premise_at_sound: "premise_sound (link_at u (link_text raw))"
proof -
  let ?p = "trim_left_of ''/'' (trim_right_of ''/'' (wu_path u))"
  let ?parts = "split_on (CHR ''/'') ?p"
  have f: "premise_sound ((link_text raw)\<lparr>li_repo := rp, li_ref := r, li_path := p\<rparr>)" if "rp \<noteq> ''''" "p \<noteq> ''''" for rp r p
    using that by (simp add: premise_sound_def link_text_def link_file_def)
  have n: "premise_sound ((link_text raw)\<lparr>li_repo := rp, li_number := n, li_comment := c\<rparr>)" if "rp \<noteq> ''''" "1 \<le> n" for rp n c
    using that by (simp add: premise_sound_def link_text_def link_file_def)
  have j: "path_unescape (join (drop 4 ?parts) ''/'') = Some p \<Longrightarrow> p \<noteq> ''''" if "\<not> length ?parts < 5" for p
  proof -
    have "?p \<noteq> ''''" using that by auto
    then have "last ?parts \<noteq> ''''" using trimmed_last [of "''/''"] by (intro split_on_last) auto
    then have "join (drop 4 ?parts) ''/'' \<noteq> ''''" using that by (intro join_nonempty) auto
    then show "path_unescape (join (drop 4 ?parts) ''/'') = Some p \<Longrightarrow> p \<noteq> ''''" using unescape_nonempty by blast
  qed
  show ?thesis
    unfolding link_at_def Let_def
    by (auto simp: unread_form_def intro!: unread_sound f n split: option.split dest: j)
qed

lemma line_links_sound: "l \<in> set (line_links url_of repo line) \<Longrightarrow> premise_sound l"
proof -
  have a: "premise_sound (link_of_address url_of raw)" for raw
    by (auto simp: link_of_address_def intro: premise_at_sound unread_sound split: option.split)
  have r: "premise_sound l" if "link_of_reference repo m = Some l" for m l
    using that
    by (auto simp: link_of_reference_def premise_sound_def link_text_def link_file_def Let_def split: prod.splits option.splits if_splits)
  show "l \<in> set (line_links url_of repo line) \<Longrightarrow> premise_sound l"
    using a r by (auto simp: line_links_def List.map_filter_def)
qed


text \<open>The path of a permalink is unescaped once by \<^verbatim>\<open>url.Parse\<close> and once more here: a file whose name holds
  a percent sign is not read as a file at all.\<close>

lemma percent_name_not_read:
  "li_unread (link_at \<lparr>wu_host = ''github.com'', wu_path = ''/o/r/blob/abc/100%.md'', wu_fragment = ''''\<rparr> (link_text raw)) = unread_form"
proof -
  have "trim_left_of ''/'' (trim_right_of ''/'' ''/o/r/blob/abc/100%.md'') = ''o/r/blob/abc/100%.md''" by code_simp
  moreover have "split_on (CHR ''/'') ''o/r/blob/abc/100%.md'' = [''o'', ''r'', ''blob'', ''abc'', ''100%.md'']" by code_simp
  moreover have "path_unescape ''100%.md'' = None" by code_simp
  ultimately show ?thesis by (simp add: link_at_def Let_def)
qed

end
