(* ===== verification/Premise_Fetch.thy ===== *)
theory Premise_Fetch
  imports Premises_Properties Steps
begin

text \<open>
  Fetching an issue's premises, \<^verbatim>\<open>internal/premise/fetch.go\<close>: each link's source written into a
  directory of the workspace, then what was fetched of each, then the index, last. The directory is
  the state of the steps; its reads and writes may fail, the context may end after any link, and
  what a repository answers is the reader's. The text of an error and the format of a time are
  parameters.
\<close>

subsection \<open>The directory\<close>

record premise_fetched =
  fc_text :: string
  fc_lines :: "string list"
  fc_whole :: bool

text \<open>The state file: not there, not what the agent wrote, or what an earlier fetch kept.\<close>

datatype fetched_state = StateAbsent | StateOther | StateKept "premise_fetched list"

record premise_dir =
  pf_index :: "string option"
  pf_state :: fetched_state
  pf_files :: "string \<rightharpoonup> string"

definition empty_dir :: premise_dir where
  "empty_dir = \<lparr>pf_index = None, pf_state = StateAbsent, pf_files = Map.empty\<rparr>"

record premise_reader =
  pa_issue :: "int \<Rightarrow> gh_error + gh_issue"
  pa_comments :: "int \<Rightarrow> gh_error + gh_comment list"
  pa_branch :: "gh_error + string"
  pa_file :: "string \<Rightarrow> string \<Rightarrow> gh_error + string"

text \<open>What fails, and what it leaves: removing the directory, some of it; writing a file, which may be
  cut short; forgetting a link, with some of its files gone. \<open>pm_ended\<close> is the context's error
  after a link.\<close>

record premise_env =
  pm_stat :: "string option"
  pm_read :: "string option"
  pm_remove :: "(string \<times> premise_dir) option"
  pm_make :: "string option"
  pm_write :: "string \<Rightarrow> (string \<times> string option) option"
  pm_forget :: "int \<Rightarrow> (string \<times> (string \<Rightarrow> bool)) option"
  pm_ended :: "int \<Rightarrow> string option"
  pm_reader :: "string \<Rightarrow> premise_reader"
  pm_error :: "gh_error \<Rightarrow> string"
  pm_time :: "gotime \<Rightarrow> string"

type_synonym 'a fetch_step = "(string, premise_dir, 'a) step"

text \<open>A write of a file as \<open>put\<close> has it, or, if it fails, what it left, as \<open>cut_short\<close> has it.\<close>

definition writes :: "premise_env \<Rightarrow> string \<Rightarrow> (premise_dir \<Rightarrow> premise_dir) \<Rightarrow> (string \<Rightarrow> premise_dir \<Rightarrow> premise_dir) \<Rightarrow>
    unit fetch_step" where
  "writes v name put cut_short =
     (case pm_write v name of
        None \<Rightarrow> alter put
      | Some (e, None) \<Rightarrow> halt e
      | Some (e, Some rest) \<Rightarrow> and_then (alter (cut_short rest)) (\<lambda>_. halt e))"

definition write_premise :: "premise_env \<Rightarrow> string \<Rightarrow> string \<Rightarrow> unit fetch_step" where
  "write_premise v name txt =
     (let put = (\<lambda>x s. s\<lparr>pf_files := (pf_files s)(name \<mapsto> x)\<rparr>) in writes v name (put txt) put)"

text \<open>The \<open>i\<close>'th link's files.\<close>

definition link_prefix :: "int \<Rightarrow> string" where
  "link_prefix i = dec i @ ''-''"

definition forget_link :: "premise_env \<Rightarrow> int \<Rightarrow> unit fetch_step" where
  "forget_link v i =
     and_then (alter (\<lambda>s. s\<lparr>pf_files := (\<lambda>n.
       if has_prefix n (link_prefix i) \<and> (case pm_forget v i of None \<Rightarrow> True | Some (e, went) \<Rightarrow> went n)
       then None else pf_files s n)\<rparr>)) (\<lambda>_.
     unless_error id (map_option fst (pm_forget v i)))"

definition earlier_fetch :: "premise_env \<Rightarrow> premise_link list \<Rightarrow> premise_fetched list option fetch_step" where
  "earlier_fetch v links =
     and_then (look pf_index) (\<lambda>index.
     case pm_stat v of
       Some e \<Rightarrow> halt e
     | None \<Rightarrow>
         if index = None then give None
         else
         and_then (look pf_state) (\<lambda>st.
         case st of
           StateAbsent \<Rightarrow> give None
         | StateOther \<Rightarrow> and_then (unless_error id (pm_read v)) (\<lambda>_. give None)
         | StateKept before \<Rightarrow> and_then (unless_error id (pm_read v)) (\<lambda>_.
             give (if map fc_text before = map li_text links then Some before else None))))"

subsection \<open>One link\<close>

text \<open>\<^verbatim>\<open>path.Base\<close>.\<close>

definition source_base :: "string \<Rightarrow> string" where
  "source_base p =
     (if p = '''' then ''.''
      else let q = trim_right p (CHR ''/'') in
        if q = '''' then ''/'' else last (split_on (CHR ''/'') q))"

definition fetch_file :: "premise_env \<Rightarrow> int \<Rightarrow> premise_link \<Rightarrow> premise_reader \<Rightarrow> (string list \<times> bool \<times> bool) fetch_step" where
  "fetch_file v i l r =
     (let base = source_base (li_path l); linked = pa_file r (li_path l) (li_ref l); name = dec i @ ''-linked-'' @ base in
      and_then (case linked of
          Inl e \<Rightarrow> give [''not fetched at the linked revision, '' @ tick (li_ref l) @ '': '' @ pm_error v e]
        | Inr txt \<Rightarrow> and_then (write_premise v name txt) (\<lambda>_.
            give [tick (li_path l) @ '' at the linked revision, '' @ tick (li_ref l) @ '': '' @ tick name])) (\<lambda>lines.
      let got = \<not> isl linked in
      case pa_branch r of
        Inl e \<Rightarrow> give (lines @ [''not fetched at the head of the default branch, which could not be read: '' @ pm_error v e], got, False)
      | Inr branch \<Rightarrow>
          (case pa_file r (li_path l) branch of
             Inl e \<Rightarrow> give (lines @ [''not fetched at the head of '' @ tick branch @ '', the default branch: '' @ pm_error v e], got, False)
           | Inr txt \<Rightarrow>
               let name = dec i @ ''-head-'' @ base in
               and_then (write_premise v name txt) (\<lambda>_.
               give (lines @ [tick (li_path l) @ '' at the head of '' @ tick branch @ '', the default branch: '' @ tick name @
                 (case linked of Inl e \<Rightarrow> ''''
                  | Inr was \<Rightarrow> if was = txt then '', the same as at the linked revision''
                              else '', which differs from the linked revision'')], True, got)))))"

definition thread_comment :: "premise_env \<Rightarrow> premise_link \<Rightarrow> gh_comment \<Rightarrow> string" where
  "thread_comment v l c =
     nl @ ''---'' @ nl @ nl @ ''**'' @ cm_login c @ '', '' @ pm_time v (cm_created_at c) @ ''**'' @
     (if li_comment l \<noteq> 0 \<and> cm_id c = li_comment l then '' (the comment the premise links to)'' else '''') @
     nl @ nl @ cm_body c @ nl"

definition fetch_thread :: "premise_env \<Rightarrow> int \<Rightarrow> premise_link \<Rightarrow> premise_reader \<Rightarrow> (string list \<times> bool) fetch_step" where
  "fetch_thread v i l r =
     (case pa_issue r (li_number l) of
        Inl e \<Rightarrow> give ([''not fetched: '' @ pm_error v e], False)
      | Inr is1 \<Rightarrow>
          (case pa_comments r (li_number l) of
             Inl e \<Rightarrow> give ([''not fetched: its comments could not be read: '' @ pm_error v e], False)
           | Inr comments \<Rightarrow>
               let knd = (if is_pull_request is1 then ''a pull request'' else ''an issue'');
                   name = dec i @ ''-thread.md'';
                   found = (li_comment l \<noteq> 0 \<and> list_ex (\<lambda>c. cm_id c = li_comment l) comments) in
               and_then (write_premise v name
                 (''# '' @ li_repo l @ ''#'' @ dec (is_number is1) @ '': '' @ is_title is1 @ nl @ nl @ knd @ '', '' @ is_state is1 @
                  ''. Its conversation as it is now: the description, then every comment, oldest first. Review comments on a pull request's diff are not in it.'' @ nl @ nl @
                  (if trim_space (is_body is1) = '''' then ''(no description)'' else is_body is1) @ nl @
                  concat (map (thread_comment v l) comments))) (\<lambda>_.
               give ([li_repo l @ ''#'' @ dec (is_number is1) @ '', '' @ knd @ '', '' @ is_state is1 @
                 '', as its thread is now: '' @ tick name @
                 (if found then '', with the comment the link points at marked''
                  else if li_comment l \<noteq> 0
                  then ''. The comment the link points at is not in it: deleted, or not on the conversation''
                  else '''')], True))))"

subsection \<open>The fetch\<close>

text \<open>Each repository's reader is asked for once, by the first name it is mentioned under.\<close>

definition reader_name :: "(string \<rightharpoonup> string) \<Rightarrow> string \<Rightarrow> string \<times> (string \<rightharpoonup> string)" where
  "reader_name rs repo =
     (case rs (lower repo) of
        Some r \<Rightarrow> (r, rs)
      | None \<Rightarrow> (repo, rs(lower repo \<mapsto> repo)))"

text \<open>One link fetched anew: what is kept of it, and whether any of it was read.\<close>

definition fetch_link :: "premise_env \<Rightarrow> int \<Rightarrow> premise_link \<Rightarrow> premise_reader \<Rightarrow> (premise_fetched \<times> bool) fetch_step" where
  "fetch_link v i l r =
     (if li_unread l \<noteq> ''''
      then give (\<lparr>fc_text = li_text l, fc_lines = [''not fetched: '' @ li_unread l], fc_whole = False\<rparr>, False)
      else if link_file l
      then and_then (fetch_file v i l r) (\<lambda>(lines, ok, whole).
        give (\<lparr>fc_text = li_text l, fc_lines = lines, fc_whole = whole\<rparr>, ok))
      else and_then (fetch_thread v i l r) (\<lambda>(lines, ok).
        give (\<lparr>fc_text = li_text l, fc_lines = lines, fc_whole = ok\<rparr>, ok)))"

text \<open>A link an earlier fetch read whole is kept; one it did not is forgotten first.\<close>

definition fetch_one :: "premise_env \<Rightarrow> premise_fetched option \<Rightarrow> int \<Rightarrow> premise_link \<Rightarrow> premise_reader \<Rightarrow>
    (premise_fetched \<times> bool) fetch_step" where
  "fetch_one v was i l r =
     (case was of
        None \<Rightarrow> fetch_link v i l r
      | Some f \<Rightarrow> if fc_whole f then give (f, True) else and_then (forget_link v i) (\<lambda>_. fetch_link v i l r))"

definition reads_source :: "premise_fetched option \<Rightarrow> premise_link \<Rightarrow> bool" where
  "reads_source was l \<longleftrightarrow> (case was of None \<Rightarrow> True | Some f \<Rightarrow> \<not> fc_whole f) \<and> li_unread l = ''''"

text \<open>Every link in turn, with what an earlier fetch kept of each: what is kept now, and how many
  nothing could be read of.\<close>

fun fetch_links :: "premise_env \<Rightarrow> premise_fetched list option \<Rightarrow> (string \<rightharpoonup> string) \<Rightarrow> int \<Rightarrow> premise_link list \<Rightarrow>
    (premise_fetched list \<times> int) fetch_step" where
  "fetch_links v before rs i [] = give ([], 0)"
| "fetch_links v before rs i (l # ls) =
     (let was = Option.bind before (\<lambda>fs. if fs = [] then None else Some (List.hd fs));
          (name, rs') = (if reads_source was l then reader_name rs (li_repo l) else ('''', rs)) in
      and_then (fetch_one v was i l (pm_reader v name)) (\<lambda>(f, ok).
      and_then (unless_error id (pm_ended v i)) (\<lambda>_.
      and_then (fetch_links v (map_option tl before) rs' (i + 1) ls) (\<lambda>(fs, failed).
      give (f # fs, if ok then failed else failed + 1)))))"

definition index_intro :: string where
  "index_intro = ''# Premises'' @ nl @ nl @ ''The issue's Premises section links these. The agent fetched each as the work started: a file permalink at its linked revision and at the head of its repository's default branch, and an issue, a pull request or a comment as its thread is now. Each file named here is in this directory. A link that was not fetched is a premise whose source can't be read.'' @ nl @ nl"

fun index_entries :: "int \<Rightarrow> premise_fetched list \<Rightarrow> string" where
  "index_entries i [] = ''''"
| "index_entries i (f # fs) =
     dec i @ ''. '' @ fc_text f @ nl @ concat (map (\<lambda>l. ''   - '' @ l @ nl) (fc_lines f)) @ index_entries (i + 1) fs"

definition remove_premises :: "premise_env \<Rightarrow> unit fetch_step" where
  "remove_premises v =
     (case pm_remove v of
        None \<Rightarrow> alter (\<lambda>_. empty_dir)
      | Some (e, left) \<Rightarrow> and_then (alter (\<lambda>_. left)) (\<lambda>_. halt e))"

definition premises_fetch :: "premise_env \<Rightarrow> premise_link list \<Rightarrow> int fetch_step" where
  "premises_fetch v links =
     and_then (earlier_fetch v links) (\<lambda>before.
     and_then (if before = None then remove_premises v else give ()) (\<lambda>_.
     and_then (unless_error id (pm_make v)) (\<lambda>_.
     and_then (fetch_links v before Map.empty 1 links) (\<lambda>(fs, failed).
     and_then (writes v ''.fetched.json'' (\<lambda>s. s\<lparr>pf_state := StateKept fs\<rparr>) (\<lambda>_ s. s\<lparr>pf_state := StateOther\<rparr>)) (\<lambda>_.
     and_then (writes v ''index.md'' (\<lambda>s. s\<lparr>pf_index := Some (index_intro @ index_entries 1 fs)\<rparr>)
       (\<lambda>rest s. s\<lparr>pf_index := Some rest\<rparr>)) (\<lambda>_.
     give failed))))))"

subsection \<open>What a fetch leaves of the other links\<close>

text \<open>A step that changes nothing but files of the \<open>i\<close>'th link.\<close>

definition only_link :: "int \<Rightarrow> 'a fetch_step \<Rightarrow> bool" where
  "only_link i m \<longleftrightarrow> (\<forall>s x t. m s = Some (x, t) \<longrightarrow> pf_index t = pf_index s \<and> pf_state t = pf_state s \<and>
     (\<forall>n. \<not> has_prefix n (link_prefix i) \<longrightarrow> pf_files t n = pf_files s n))"

named_theorems only_rules

lemma only_give [only_rules]: "only_link i (give a)"
  by (simp add: only_link_def give_def)

lemma only_and_then [only_rules]: "only_link i m \<Longrightarrow> (\<And>a. only_link i (f a)) \<Longrightarrow> only_link i (and_then m f)"
  by (fastforce simp: only_link_def and_then_def split: option.splits sum.splits)

lemma only_unless [only_rules]: "only_link i (unless_error h x)"
  by (cases x) (simp_all add: only_link_def unless_error_def give_def halt_def)

lemma only_write [only_rules]: "has_prefix n (link_prefix i) \<Longrightarrow> only_link i (write_premise v n txt)"
  unfolding write_premise_def writes_def Let_def
  by (auto simp: only_link_def alter_def and_then_def halt_def split: option.splits prod.splits)

lemma only_forget [only_rules]: "only_link i (forget_link v i)"
  unfolding forget_link_def by (intro only_rules) (auto simp: only_link_def alter_def)

lemma only_file: "only_link i (fetch_file v i l r)"
  unfolding fetch_file_def Let_def
  by (auto intro!: only_rules simp: link_prefix_def has_prefix_def split: sum.split)

lemma only_thread: "only_link i (fetch_thread v i l r)"
  unfolding fetch_thread_def Let_def
  by (auto intro!: only_rules simp: link_prefix_def has_prefix_def split: sum.split)

lemma only_fetch_link: "only_link i (fetch_link v i l r)"
  unfolding fetch_link_def by (auto intro!: only_rules only_file only_thread)

subsection \<open>What an earlier fetch read whole stays\<close>

lemma andD: "and_then m f s = Some (x, t) \<Longrightarrow> (\<exists>e. m s = Some (Inl e, t) \<and> x = Inl e) \<or> (\<exists>a u. m s = Some (Inr a, u) \<and> f a u = Some (x, t))"
  by (auto simp: and_then_def split: option.splits sum.splits)

lemma link_prefix_apart: "has_prefix n (link_prefix i) \<Longrightarrow> has_prefix n (link_prefix j) \<Longrightarrow> 0 \<le> i \<Longrightarrow> 0 \<le> j \<Longrightarrow> i = j"
proof -
  assume p: "has_prefix n (link_prefix i)" "has_prefix n (link_prefix j)" "0 \<le> i" "0 \<le> j"
  then obtain a b where "dec i @ ''-'' @ a = dec j @ ''-'' @ b"
    by (auto simp: has_prefix_conv link_prefix_def)
  moreover have "takeWhile is_digit (dec k @ ''-'' @ c) = dec k" if "0 \<le> k" for k c
    using dec_digits [OF that] by (simp add: takeWhile_append list_all_iff is_digit_def)
  ultimately have "dec i = dec j" using p(3,4) by metis
  then show "i = j" by simp
qed

lemma fetch_one_keeps:
  "fetch_one v (Some f) i l r s = Some (x, t) \<Longrightarrow>
     pf_index t = pf_index s \<and> pf_state t = pf_state s \<and>
     (\<forall>n. (has_prefix n (link_prefix i) \<longrightarrow> fc_whole f) \<longrightarrow> pf_files t n = pf_files s n) \<and>
     (fc_whole f \<longrightarrow> x = Inr (f, True))"
proof (cases "fc_whole f")
  case False
  have "only_link i (fetch_one v (Some f) i l r)"
    using False by (simp add: fetch_one_def only_and_then only_forget only_fetch_link)
  then show "fetch_one v (Some f) i l r s = Some (x, t) \<Longrightarrow> ?thesis" using False by (simp add: only_link_def)
qed (auto simp: fetch_one_def give_def)

lemma fetch_one_named: "fetch_one v was i l r s = Some (Inr (f, ok), t) \<Longrightarrow> (\<And>g. was = Some g \<Longrightarrow> fc_text g = li_text l) \<Longrightarrow>
    fc_text f = li_text l"
  by (auto simp: fetch_one_def fetch_link_def step_simps split: option.splits if_splits prod.splits)

lemma fetch_links_keeps:
  assumes "fetch_links v (Some fs) rs i ls s = Some (x, t)" and "length fs = length ls"
  shows "pf_index t = pf_index s \<and> pf_state t = pf_state s \<and>
    (\<forall>n. (\<forall>k<length fs. has_prefix n (link_prefix (i + int k)) \<longrightarrow> fc_whole (fs ! k)) \<longrightarrow> pf_files t n = pf_files s n) \<and>
    (\<forall>now failed. x = Inr (now, failed) \<longrightarrow> (\<forall>k<length fs. fc_whole (fs ! k) \<longrightarrow> now ! k = fs ! k))"
  using assms
proof (induction ls arbitrary: fs rs i s x t)
  case Nil
  then show ?case by (auto simp: give_def)
next
  case (Cons l ls)
  then obtain f fs' where fs: "fs = f # fs'" "length fs' = length ls" by (cases fs) auto
  obtain name rs' where n: "(if reads_source (Some f) l then reader_name rs (li_repo l) else ('''', rs)) = (name, rs')"
    by fastforce
  have run: "and_then (fetch_one v (Some f) i l (pm_reader v name)) (\<lambda>(f, ok).
      and_then (unless_error id (pm_ended v i)) (\<lambda>_.
      and_then (fetch_links v (Some fs') rs' (i + 1) ls) (\<lambda>(fs, failed).
      give (f # fs, if ok then failed else failed + 1)))) s = Some (x, t)"
    using Cons.prems(1) n by (simp add: fs Let_def)
  have shift: "(\<forall>k<length fs. P (int k) (fs ! k)) \<longleftrightarrow> P 0 f \<and> (\<forall>k<length fs'. P (1 + int k) (fs' ! k))" for P
    by (auto simp: fs All_less_Suc2)
  show ?case
  proof (cases "fetch_one v (Some f) i l (pm_reader v name) s")
    case None
    with run show ?thesis by (simp add: and_then_def)
  next
    case (Some yu)
    obtain y u where y: "fetch_one v (Some f) i l (pm_reader v name) s = Some (y, u)" using Some by (cases yu) auto
    note one = fetch_one_keeps [OF y]
    show ?thesis
    proof (cases "\<exists>z u'. y = Inr z \<and> pm_ended v i = None \<and> fetch_links v (Some fs') rs' (i + 1) ls u = Some u'")
      case False
      with run y have "t = u \<and> (\<exists>e. x = Inl e)"
        by (cases y; cases "pm_ended v i") (auto simp: and_then_def unless_error_def halt_def give_def split: option.splits)
      with one show ?thesis unfolding shift [of "\<lambda>k f. has_prefix _ (link_prefix (i + k)) \<longrightarrow> fc_whole f"] by auto
    next
      case True
      then obtain g ok z u' where g: "y = Inr (g, ok)" "pm_ended v i = None"
        "fetch_links v (Some fs') rs' (i + 1) ls u = Some (z, u')" by auto
      from Cons.IH [OF g(3) fs(2)] have rest: "pf_index u' = pf_index u \<and> pf_state u' = pf_state u \<and>
        (\<forall>n. (\<forall>k<length fs'. has_prefix n (link_prefix (i + (1 + int k))) \<longrightarrow> fc_whole (fs' ! k)) \<longrightarrow> pf_files u' n = pf_files u n) \<and>
        (\<forall>now failed. z = Inr (now, failed) \<longrightarrow> (\<forall>k<length fs'. fc_whole (fs' ! k) \<longrightarrow> now ! k = fs' ! k))"
        by (simp add: algebra_simps)
      from run y g have t: "t = u'" and x: "\<And>now failed. x = Inr (now, failed) \<Longrightarrow> \<exists>fs2 m. z = Inr (fs2, m) \<and> now = g # fs2"
        by (auto simp: and_then_def unless_error_def give_def split: sum.splits)
      have files: "pf_files u' n = pf_files s n"
        if "\<forall>k<length fs. has_prefix n (link_prefix (i + int k)) \<longrightarrow> fc_whole (fs ! k)" for n
      proof -
        from that have "has_prefix n (link_prefix i) \<longrightarrow> fc_whole f"
          "\<forall>k<length fs'. has_prefix n (link_prefix (i + (1 + int k))) \<longrightarrow> fc_whole (fs' ! k)"
          using shift [of "\<lambda>k f. has_prefix n (link_prefix (i + k)) \<longrightarrow> fc_whole f"] by simp_all
        with one rest have "pf_files u n = pf_files s n" "pf_files u' n = pf_files u n" by blast+
        then show ?thesis by simp
      qed
      have whole: "now ! k = fs ! k" if r: "x = Inr (now, failed)" and k: "k < length fs" "fc_whole (fs ! k)" for now failed k
      proof -
        obtain fs2 m where m: "z = Inr (fs2, m)" "now = g # fs2" using x [OF r] by blast
        show ?thesis
        proof (cases k)
          case 0
          with k one g(1) m show ?thesis by (simp add: fs)
        next
          case (Suc k')
          with k rest m show ?thesis by (simp add: fs)
        qed
      qed
      from one rest have "pf_index u' = pf_index s" "pf_state u' = pf_state s" by simp_all
      then show ?thesis unfolding t using files whole by blast
    qed
  qed
qed

lemma fetch_links_named:
  "fetch_links v before rs i ls s = Some (Inr (now, failed), t) \<Longrightarrow>
     (\<And>fs. before = Some fs \<Longrightarrow> map fc_text fs = map li_text ls) \<Longrightarrow>
     map fc_text now = map li_text ls \<and> 0 \<le> failed \<and> failed \<le> int (length ls)"
proof (induction ls arbitrary: before rs i s now failed)
  case Nil
  then show ?case by (simp add: give_def)
next
  case (Cons l ls)
  let ?was = "Option.bind before (\<lambda>fs. if fs = [] then None else Some (List.hd fs))"
  obtain name rs' where n: "(if reads_source ?was l then reader_name rs (li_repo l) else ('''', rs)) = (name, rs')"
    by fastforce
  from Cons.prems(1) n obtain f ok u u' fs m where
    f: "fetch_one v ?was i l (pm_reader v name) s = Some (Inr (f, ok), u)"
    and r: "fetch_links v (map_option tl before) rs' (i + 1) ls u' = Some (Inr (fs, m), t)"
    and now: "now = f # fs" "failed = (if ok then m else m + 1)"
    by (auto simp: Let_def step_simps split: prod.splits if_splits)
  have "fc_text g = li_text l" if "?was = Some g" for g
    using that Cons.prems(2) by (cases before) (auto split: if_splits)
  from fetch_one_named [OF f this] have "fc_text f = li_text l" by simp
  moreover have "map fc_text gs = map li_text ls" if "map_option tl before = Some gs" for gs
    using that Cons.prems(2) by (cases before) (auto simp: map_tl)
  ultimately show ?case using Cons.IH [OF r] now by auto
qed


definition example_premise :: premise_link where
  "example_premise = (link_text ''#12'')\<lparr>li_repo := ''o/r'', li_number := 12\<rparr>"

definition example_fetched :: premise_dir where
  "example_fetched = \<lparr>pf_index = Some '''', pf_state = StateKept [\<lparr>fc_text = ''#12'', fc_lines = [''as it was''], fc_whole = True\<rparr>],
     pf_files = [''1-thread.md'' \<mapsto> ''as it was'']\<rparr>"

definition example_fetch_env :: premise_env where
  "example_fetch_env = \<lparr>pm_stat = None, pm_read = None, pm_remove = None, pm_make = None, pm_write = (\<lambda>_. None),
     pm_forget = (\<lambda>_. None), pm_ended = (\<lambda>_. None),
     pm_reader = (\<lambda>_. \<lparr>pa_issue = (\<lambda>_. Inl NoKey), pa_comments = (\<lambda>_. Inl NoKey), pa_branch = Inl NoKey, pa_file = (\<lambda>_ _. Inl NoKey)\<rparr>),
     pm_error = (\<lambda>_. ''failed''), pm_time = (\<lambda>_. '''')\<rparr>"


end
