(* ===== verification/Params.thy ===== *)
theory Params
  imports Premises Budget Notify Tokens Intake Sensitive
begin

text \<open>
  Where configuration enters the binary, \<^verbatim>\<open>internal/cli/params.go\<close>: every parameter is a flag with an
  environment variable behind it and no default, and a policy that is only half there is refused.
  What the flags were given is the record \<open>params\<close>; the environment, the key files, and the standard
  library's reading of a duration, a float, a time, a URL and a key are the record \<open>process\<close>. An error
  says whether it is the operator's mistake.
\<close>

subsection \<open>Errors\<close>

datatype cli_error = UsageError string | CliError string

definition with_ok :: "'e + 'a \<Rightarrow> ('a \<Rightarrow> 'e + 'b) \<Rightarrow> 'e + 'b" where
  "with_ok x f = (case x of Inl e \<Rightarrow> Inl e | Inr a \<Rightarrow> f a)"

named_theorems config_rules

lemma with_ok_Inr [config_rules]: "with_ok x f = Inr b \<longleftrightarrow> (\<exists>a. x = Inr a \<and> f a = Inr b)"
  by (cases x) (simp_all add: with_ok_def)

lemma with_ok_simps [simp]: "with_ok (Inl e) f = Inl e" "with_ok (Inr a) f = f a"
  by (simp_all add: with_ok_def)

text \<open>A check that gives nothing but its error.\<close>

definition refused_if :: "bool \<Rightarrow> 'e \<Rightarrow> 'e + unit" where
  "refused_if b e = (if b then Inl e else Inr ())"

lemma refused_if_Inr [config_rules]: "refused_if b e = Inr u \<longleftrightarrow> \<not> b"
  by (simp add: refused_if_def)

subsection \<open>What the process is given\<close>

text \<open>\<^verbatim>\<open>strconv.ParseFloat\<close> answers every float64, the ones that are no number included; a comparison
  with \<open>NotANumber\<close> is false whichever way it is made.\<close>

datatype go_float = Finite rat | Infinite bool | NotANumber

record pem_block =
  pb_type :: string
  pb_bytes :: string

text \<open>A private key is the bytes it is parsed from; \<open>xe_pkcs8\<close> answers \<open>Inl\<close> for a key of another
  algorithm, with the name of its type.\<close>

record process =
  xe_getenv :: "string \<Rightarrow> string"
  xe_read :: "string \<Rightarrow> string + string"
  xe_duration :: "string \<Rightarrow> int option"
  xe_duration_text :: "int \<Rightarrow> string"
  xe_float :: "string \<Rightarrow> go_float option"
  xe_time :: "string \<Rightarrow> instant option"
  xe_time_text :: "instant \<Rightarrow> string"
  xe_url :: "string \<Rightarrow> (string \<times> string) option"
  xe_quote :: "string \<Rightarrow> string"
  xe_pem :: "string \<Rightarrow> pem_block option"
  xe_pkcs1 :: "string \<Rightarrow> bool"
  xe_pkcs8 :: "string \<Rightarrow> (string + unit) option"
  xe_glob_text :: "glob_error \<Rightarrow> string"
  xe_sensitive_text :: "sensitive_error \<Rightarrow> string"

text \<open>The flags, before the environment is looked at; a flag not given is empty.\<close>

record params =
  fl_store :: string
  fl_lease :: string
  fl_retry :: string
  fl_max_attempts :: string
  fl_workers :: string
  fl_poll :: string
  fl_token_wait :: string
  fl_tokens :: "(string \<times> int) list"
  fl_budget_key :: string
  fl_budget_age :: string
  fl_budget_at :: string
  fl_budget_waive :: "waiver list"
  fl_notify_url :: string
  fl_notify_key :: string
  fl_tier_notify_after :: string
  fl_repo :: string
  fl_app_id :: string
  fl_app_key :: string
  fl_eligibility_label :: string
  fl_review_queue_limit :: string
  fl_branch_prefix :: string
  fl_gate :: string
  fl_implement_tier :: string
  fl_implement_needs :: string
  fl_gate_attempts :: string
  fl_hand_off_label :: string
  fl_denylist :: string
  fl_ci_wait :: string
  fl_ci_ceiling :: string
  fl_ci_fixes :: string
  fl_size_signal :: string
  fl_fresh_session_at :: string
  fl_replays :: string
  fl_review_procedure :: string
  fl_sensitive :: string
  fl_opencode :: string
  fl_enrolment :: string
  fl_catalogue_age :: string
  fl_review_tier :: string
  fl_review_needs :: string
  fl_model_attempts :: string
  fl_tier_wait :: string
  fl_model_timeout :: string
  fl_review_floor :: string
  fl_review_fold_cut :: string
  fl_effect_rounds :: string
  fl_hand_back_label :: string

subsection \<open>One parameter\<close>

definition optional :: "process \<Rightarrow> string \<Rightarrow> string \<Rightarrow> string" where
  "optional x value1 env = (if value1 \<noteq> '''' then value1 else xe_getenv x env)"

definition required :: "process \<Rightarrow> string \<Rightarrow> string \<Rightarrow> string \<Rightarrow> cli_error + string" where
  "required x value1 flag env =
     (let v = optional x value1 env in
      if v \<noteq> '''' then Inr v
      else Inl (UsageError (''--'' @ flag @ '' is required (or set '' @ env @ '')'')))"

definition duration :: "process \<Rightarrow> string \<Rightarrow> string \<Rightarrow> cli_error + int" where
  "duration x value1 flag =
     (case xe_duration x value1 of
        None \<Rightarrow> Inl (UsageError (''--'' @ flag @ '': '' @ xe_quote x value1 @ '' is not a duration''))
      | Some d \<Rightarrow>
          if d \<le> 0 then Inl (UsageError (''--'' @ flag @ '': '' @ xe_duration_text x d @ '' is not a positive duration''))
          else Inr d)"

definition whole_number :: "process \<Rightarrow> string \<Rightarrow> string \<Rightarrow> cli_error + int" where
  "whole_number x value1 flag =
     (case go_atoi value1 of
        Some n \<Rightarrow> if n < 1 then Inl (UsageError (''--'' @ flag @ '': '' @ xe_quote x value1 @ '' is not a positive whole number'')) else Inr n
      | None \<Rightarrow> Inl (UsageError (''--'' @ flag @ '': '' @ xe_quote x value1 @ '' is not a positive whole number'')))"

text \<open>A bound that may be zero: the replays, and the size a session is started afresh at.\<close>

definition natural_number :: "process \<Rightarrow> string \<Rightarrow> string \<Rightarrow> cli_error + int" where
  "natural_number x value1 flag =
     (case go_atoi value1 of
        Some n \<Rightarrow> if n < 0 then Inl (UsageError (''--'' @ flag @ '': '' @ xe_quote x value1 @ '' is not a whole number'')) else Inr n
      | None \<Rightarrow> Inl (UsageError (''--'' @ flag @ '': '' @ xe_quote x value1 @ '' is not a whole number'')))"

definition out_of_percent :: "go_float \<Rightarrow> bool" where
  "out_of_percent v \<longleftrightarrow>
     (case v of Finite r \<Rightarrow> r \<le> 0 \<or> 100 < r | Infinite b \<Rightarrow> True | NotANumber \<Rightarrow> False)"

definition percentage :: "process \<Rightarrow> string \<Rightarrow> string \<Rightarrow> cli_error + go_float" where
  "percentage x value1 flag =
     (case xe_float x value1 of
        Some v \<Rightarrow> if out_of_percent v
          then Inl (UsageError (''--'' @ flag @ '': '' @ xe_quote x value1 @ '' is not a percentage between 0 and 100''))
          else Inr v
      | None \<Rightarrow> Inl (UsageError (''--'' @ flag @ '': '' @ xe_quote x value1 @ '' is not a percentage between 0 and 100'')))"

text \<open>A required parameter read as one of these.\<close>

definition required_duration :: "process \<Rightarrow> string \<Rightarrow> string \<Rightarrow> string \<Rightarrow> cli_error + int" where
  "required_duration x value1 flag env = with_ok (required x value1 flag env) (\<lambda>v. duration x v flag)"

definition required_count :: "process \<Rightarrow> string \<Rightarrow> string \<Rightarrow> string \<Rightarrow> cli_error + int" where
  "required_count x value1 flag env = with_ok (required x value1 flag env) (\<lambda>v. whole_number x v flag)"

definition read_key :: "process \<Rightarrow> string \<Rightarrow> string \<Rightarrow> cli_error + string" where
  "read_key x path flag =
     (case xe_read x path of
        Inl e \<Rightarrow> Inl (CliError (''--'' @ flag @ '': '' @ e))
      | Inr b \<Rightarrow>
          if trim_space b = '''' then Inl (UsageError (''--'' @ flag @ '': '' @ path @ '' is empty''))
          else Inr (trim_space b))"

text \<open>The parts of a list that are not blank, trimmed.\<close>

definition listed :: "char \<Rightarrow> string \<Rightarrow> string list" where
  "listed sep v = filter (\<lambda>e. e \<noteq> '''') (map trim_space (split_on sep v))"

subsection \<open>The store, the lease, the retry policy and the pool\<close>

definition store_path :: "process \<Rightarrow> params \<Rightarrow> cli_error + string" where
  "store_path x p = required x (fl_store p) ''store'' ''AFK_STORE''"

definition lease_ttl :: "process \<Rightarrow> params \<Rightarrow> cli_error + int" where
  "lease_ttl x p = required_duration x (fl_lease p) ''lease'' ''AFK_LEASE''"

text \<open>The policy is the interval and the bound; \<open>backs_off\<close> is what it answers for an attempt.\<close>

definition backs_off :: "int \<times> int \<Rightarrow> instant \<Rightarrow> int \<Rightarrow> gotime \<times> bool" where
  "backs_off policy now n = (let (d, limit) = policy in if limit \<le> n then (None, False) else (Some (now + d), True))"

definition backoff_policy :: "process \<Rightarrow> params \<Rightarrow> cli_error + (int \<times> int) option" where
  "backoff_policy x p =
     (let retry = optional x (fl_retry p) ''AFK_RETRY''; attempts = optional x (fl_max_attempts p) ''AFK_MAX_ATTEMPTS'' in
      if retry = '''' \<and> attempts = '''' then Inr None
      else if retry = '''' then Inl (UsageError ''--max-attempts needs --retry: there is no interval to re-enter on'')
      else if attempts = '''' then Inl (UsageError ''--retry needs --max-attempts: a retry with no bound never stops'')
      else with_ok (duration x retry ''retry'') (\<lambda>d.
        with_ok (whole_number x attempts ''max-attempts'') (\<lambda>limit. Inr (Some (d, limit)))))"

definition parse_token :: "process \<Rightarrow> string \<Rightarrow> string + string \<times> int" where
  "parse_token x v =
     (let (name, capacity, ok) = cut v (CHR ''='') in
      if \<not> ok \<or> name = '''' then Inl (xe_quote x v @ '' is not <name>=<capacity>'')
      else
        let bad = ''resource token '' @ xe_quote x name @ '': '' @ xe_quote x capacity @ '' is not a positive whole number'' in
        case go_atoi capacity of
          None \<Rightarrow> Inl bad
        | Some n \<Rightarrow> if n < 1 then Inl bad else Inr (name, n))"

text \<open>One \<^verbatim>\<open>--token\<close> flag, onto those before it.\<close>

definition set_token :: "process \<Rightarrow> string \<Rightarrow> (string \<times> int) list \<Rightarrow> string + (string \<times> int) list" where
  "set_token x v t =
     with_ok (parse_token x v) (\<lambda>(name, n).
       if name \<in> set (map fst t) then Inl (''resource token '' @ xe_quote x name @ '' given twice'')
       else Inr (t @ [(name, n)]))"

text \<open>The capacities of \<^verbatim>\<open>AFK_TOKENS\<close>: a name given again replaces what was given before.\<close>

fun env_tokens :: "process \<Rightarrow> string list \<Rightarrow> (string \<times> int) list \<Rightarrow> cli_error + (string \<times> int) list" where
  "env_tokens x [] t = Inr t"
| "env_tokens x (pair # pairs) t =
     (case parse_token x pair of
        Inl e \<Rightarrow> Inl (UsageError (''AFK_TOKENS: '' @ e))
      | Inr (name, n) \<Rightarrow> env_tokens x pairs (filter (\<lambda>e. fst e \<noteq> name) t @ [(name, n)]))"

definition capacities :: "process \<Rightarrow> params \<Rightarrow> cli_error + (string \<times> int) list" where
  "capacities x p =
     (if fl_tokens p \<noteq> [] then Inr (fl_tokens p)
      else env_tokens x (listed (CHR '','') (xe_getenv x ''AFK_TOKENS'')) [])"

record pool_params =
  pc_workers :: int
  pc_poll :: int
  pc_token_wait :: int
  pc_capacity :: "(string \<times> int) list"

definition pool_config :: "process \<Rightarrow> params \<Rightarrow> cli_error + pool_params" where
  "pool_config x p =
     with_ok (required_count x (fl_workers p) ''workers'' ''AFK_WORKERS'') (\<lambda>workers.
     with_ok (required_duration x (fl_poll p) ''poll'' ''AFK_POLL'') (\<lambda>poll.
     with_ok (required_duration x (fl_token_wait p) ''token-wait'' ''AFK_TOKEN_WAIT'') (\<lambda>wait.
     with_ok (capacities x p) (\<lambda>capacity.
     Inr \<lparr>pc_workers = workers, pc_poll = poll, pc_token_wait = wait, pc_capacity = capacity\<rparr>))))"

end
