(* ===== verification/Config.thy ===== *)
theory Config
  imports Params Resolver
begin

text \<open>
  The policies of \<^verbatim>\<open>internal/cli/params.go\<close>: the budget observer and its waivers, the notifier, the
  tracker and the App's key, what is taken unattended, what a review reports, what a job says on the
  tracker, what both kinds that deliver take, and model choice.
\<close>

subsection \<open>The budget\<close>

definition parse_waiver :: "process \<Rightarrow> string \<Rightarrow> string + waiver" where
  "parse_waiver x v =
     (let (name, ts, ok) = cut v (CHR ''=''); name = trim_space name; ts = trim_space ts in
      if \<not> ok then Inl (xe_quote x v @ '' is not <window>=<RFC3339>'')
      else if name = '''' then Inl (xe_quote x v @ '' names no window'')
      else (case xe_time x ts of
          None \<Rightarrow> Inl (''window '' @ xe_quote x name @ '': '' @ xe_quote x ts @ '' is not an RFC 3339 timestamp'')
        | Some until \<Rightarrow> Inr \<lparr>wv_window = name, wv_until = until\<rparr>))"

definition no_duplicate_waiver :: "process \<Rightarrow> waiver list \<Rightarrow> waiver \<Rightarrow> string + unit" where
  "no_duplicate_waiver x ws wa =
     refused_if (wv_window wa \<in> set (map wv_window ws)) (''window '' @ xe_quote x (wv_window wa) @ '' is waived twice'')"

text \<open>One \<^verbatim>\<open>--budget-waive\<close> flag, onto those before it.\<close>

definition set_waiver :: "process \<Rightarrow> string \<Rightarrow> waiver list \<Rightarrow> string + waiver list" where
  "set_waiver x v ws =
     with_ok (parse_waiver x v) (\<lambda>wa.
     with_ok (no_duplicate_waiver x ws wa) (\<lambda>_.
     Inr (ws @ [wa])))"

fun set_waivers :: "process \<Rightarrow> string list \<Rightarrow> waiver list \<Rightarrow> string + waiver list" where
  "set_waivers x [] ws = Inr ws"
| "set_waivers x (v # vs) ws = with_ok (set_waiver x v ws) (set_waivers x vs)"

definition waivers_from :: "process \<Rightarrow> params \<Rightarrow> cli_error + waiver list" where
  "waivers_from x p =
     (if fl_budget_waive p \<noteq> [] then Inr (fl_budget_waive p)
      else (case set_waivers x (listed (CHR '','') (xe_getenv x ''AFK_BUDGET_WAIVE'')) [] of
          Inl e \<Rightarrow> Inl (UsageError (''AFK_BUDGET_WAIVE: '' @ e))
        | Inr ws \<Rightarrow> Inr ws))"

text \<open>What the observer is made of. Admission compares the threshold with zero first, so one that is
  no number is none.\<close>

record budget_params =
  pb_token :: string
  pb_max_age :: int
  pb_threshold :: go_float
  pb_waivers :: "waiver list"

definition threshold_of :: "go_float \<Rightarrow> rat" where
  "threshold_of v = (case v of Finite r \<Rightarrow> r | _ \<Rightarrow> 0)"

definition observer_of :: "budget_params \<Rightarrow> observer" where
  "observer_of b = \<lparr>ob_max_age = pb_max_age b, ob_threshold = threshold_of (pb_threshold b),
     ob_waivers = pb_waivers b, ob_last = zero_state, ob_last_fail = None\<rparr>"

definition budget_config :: "process \<Rightarrow> params \<Rightarrow> cli_error + budget_params option" where
  "budget_config x p =
     (let key = optional x (fl_budget_key p) ''AFK_BUDGET_KEY''; age = optional x (fl_budget_age p) ''AFK_BUDGET_AGE'';
          pct = optional x (fl_budget_at p) ''AFK_BUDGET_AT'' in
      with_ok (waivers_from x p) (\<lambda>ws.
      if key = '''' then
        (if age \<noteq> '''' \<or> pct \<noteq> '''' \<or> ws \<noteq> []
         then Inl (UsageError ''--budget-age, --budget-at and --budget-waive need --budget-key: there is nothing to observe'')
         else Inr None)
      else
        with_ok (if age \<noteq> '''' then duration x age ''budget-age'' else Inr 0) (\<lambda>max_age.
        with_ok (if pct \<noteq> '''' then percentage x pct ''budget-at'' else Inr (Finite 0)) (\<lambda>threshold.
        with_ok (read_key x key ''budget-key'') (\<lambda>token.
        Inr (Some \<lparr>pb_token = token, pb_max_age = max_age, pb_threshold = threshold, pb_waivers = ws\<rparr>))))))"

definition require_budget_age :: "process \<Rightarrow> params \<Rightarrow> cli_error + unit" where
  "require_budget_age x p =
     refused_if (optional x (fl_budget_key p) ''AFK_BUDGET_KEY'' \<noteq> '''' \<and> optional x (fl_budget_age p) ''AFK_BUDGET_AGE'' = '''')
       (UsageError ''--budget-key needs --budget-age (or set AFK_BUDGET_AGE)'')"

subsection \<open>The notifier\<close>

record notify_params =
  nf_url :: string
  nf_token :: string
  nf_tier_after :: int
  nf_repo :: string

definition notify_config :: "process \<Rightarrow> params \<Rightarrow> cli_error + notify_params option" where
  "notify_config x p =
     (let url = optional x (fl_notify_url p) ''AFK_NOTIFY_URL''; key = optional x (fl_notify_key p) ''AFK_NOTIFY_KEY'';
          after = optional x (fl_tier_notify_after p) ''AFK_TIER_NOTIFY_AFTER'' in
      if url = '''' then
        (if key \<noteq> '''' \<or> after \<noteq> ''''
         then Inl (UsageError ''--notify-key and --tier-notify-after need --notify-url: there is nowhere to publish to'')
         else Inr None)
      else if after = '''' then Inl (UsageError ''--notify-url needs --tier-notify-after (or set AFK_TIER_NOTIFY_AFTER)'')
      else
        with_ok (whole_number x after ''tier-notify-after'') (\<lambda>n.
        with_ok (if key \<noteq> '''' then read_key x key ''notify-key'' else Inr '''') (\<lambda>token.
        Inr (Some \<lparr>nf_url = url, nf_token = token, nf_tier_after = n, nf_repo = optional x (fl_repo p) ''AFK_REPO''\<rparr>))))"

definition notifier_of :: "notify_params \<Rightarrow> notifier" where
  "notifier_of n = \<lparr>nt_repo = nf_repo n, nt_tier_after = nf_tier_after n, nt_sent = [], nt_posted = []\<rparr>"

subsection \<open>The tracker\<close>

definition parse_key :: "process \<Rightarrow> string \<Rightarrow> string + string" where
  "parse_key x b =
     (case xe_pem x b of
        None \<Rightarrow> Inl ''no PEM block''
      | Some block \<Rightarrow>
          if pb_type block = ''RSA PRIVATE KEY'' then
            (if xe_pkcs1 x (pb_bytes block) then Inr (pb_bytes block) else Inl ''not a PKCS #1 RSA private key'')
          else if pb_type block = ''PRIVATE KEY'' then
            (case xe_pkcs8 x (pb_bytes block) of
               None \<Rightarrow> Inl ''not a PKCS #8 private key''
             | Some (Inl other) \<Rightarrow> Inl (''a '' @ other @ '', and a GitHub App's key is RSA'')
             | Some (Inr _) \<Rightarrow> Inr (pb_bytes block))
          else Inl (''a PEM block of type '' @ xe_quote x (pb_type block) @ '', and a GitHub App's key is an RSA private key''))"

record tracker_params =
  tp_repo :: string
  tp_app_id :: string
  tp_key :: string

definition owner_and_name :: "string \<Rightarrow> bool" where
  "owner_and_name repo \<longleftrightarrow>
     (let (owner, name, ok) = cut repo (CHR ''/'') in ok \<and> owner \<noteq> '''' \<and> name \<noteq> '''' \<and> CHR ''/'' \<notin> set name)"

definition tracker_config :: "process \<Rightarrow> params \<Rightarrow> cli_error + tracker_params option" where
  "tracker_config x p =
     (let repo = optional x (fl_repo p) ''AFK_REPO''; aid = optional x (fl_app_id p) ''AFK_APP_ID'';
          path = optional x (fl_app_key p) ''AFK_APP_KEY'' in
      if repo = '''' then
        (if aid \<noteq> '''' \<or> path \<noteq> ''''
         then Inl (UsageError ''--app-id and --app-key need --repo: there is no repository to read'') else Inr None)
      else if \<not> owner_and_name repo then Inl (UsageError (''--repo: '' @ xe_quote x repo @ '' is not owner/name''))
      else if aid = '''' then Inl (UsageError ''--repo needs --app-id (or set AFK_APP_ID): the agent authenticates as a GitHub App'')
      else if path = '''' then Inl (UsageError ''--repo needs --app-key (or set AFK_APP_KEY): the agent authenticates as a GitHub App'')
      else
        with_ok (read_key x path ''app-key'') (\<lambda>pem.
        case parse_key x pem of
          Inl e \<Rightarrow> Inl (UsageError (''--app-key: '' @ path @ '': '' @ e))
        | Inr key \<Rightarrow> Inr (Some \<lparr>tp_repo = repo, tp_app_id = aid, tp_key = key\<rparr>)))"

text \<open>The agent's own login is read once, and a failure is not kept.\<close>

definition tracker_login :: "(string + string) \<Rightarrow> string \<Rightarrow> (string + string) \<times> string" where
  "tracker_login asked login =
     (if login \<noteq> '''' then (Inr login, login)
      else (case asked of
          Inl e \<Rightarrow> (Inl (''reading the agent's own login: '' @ e), login)
        | Inr l \<Rightarrow> (Inr l, l)))"

text \<open>Whose token reads a premise's repository: the App's own, or none.\<close>

definition reads_with_token :: "tracker_params \<Rightarrow> string \<Rightarrow> bool" where
  "reads_with_token t repo = equal_fold repo (tp_repo t)"

subsection \<open>Intake\<close>

definition no_queue :: review_queue where
  "no_queue = \<lparr>qu_limit = 0, qu_label = '''', qu_revise = ''''\<rparr>"

definition no_unattended :: unattended where
  "no_unattended = \<lparr>un_label = '''', un_kind = '''', un_start = '''', un_queue = no_queue\<rparr>"

definition unattended_for :: "string \<Rightarrow> unattended" where
  "unattended_for lbl =
     \<lparr>un_label = lbl, un_kind = KindImplement, un_start = ''start'', un_queue = no_queue\<rparr>"

definition queue_config :: "process \<Rightarrow> params \<Rightarrow> cli_error + review_queue" where
  "queue_config x p =
     (let v = optional x (fl_review_queue_limit p) ''AFK_REVIEW_QUEUE_LIMIT''; lbl = optional x (fl_hand_off_label p) ''AFK_HAND_OFF_LABEL'' in
      if v = '''' then Inr no_queue
      else with_ok (whole_number x v ''review-queue-limit'') (\<lambda>limit.
        if lbl = '''' then Inl (UsageError ''--review-queue-limit needs --hand-off-label (or set AFK_HAND_OFF_LABEL): the pull requests waiting on the operator's review are the ones carrying it'')
        else Inr \<lparr>qu_limit = limit, qu_label = lbl, qu_revise = KindRevise\<rparr>))"

definition taking_config :: "process \<Rightarrow> params \<Rightarrow> cli_error + unattended" where
  "taking_config x p =
     with_ok (queue_config x p) (\<lambda>queue.
     let lbl = optional x (fl_eligibility_label p) ''AFK_ELIGIBILITY_LABEL'' in
     Inr (if lbl = '''' then no_unattended else (unattended_for lbl)\<lparr>un_queue := queue\<rparr>))"


subsection \<open>A review, and what a job says\<close>

record review_params =
  rf_floor :: string
  rf_fold_cut :: int

definition review_config :: "process \<Rightarrow> params \<Rightarrow> cli_error + review_params" where
  "review_config x p =
     (let floor = optional x (fl_review_floor p) ''AFK_REVIEW_FLOOR''; v = optional x (fl_review_fold_cut p) ''AFK_REVIEW_FOLD_CUT'' in
      if floor \<notin> {'''', ''blocker'', ''should-fix'', ''consider''}
      then Inl (UsageError (''--review-floor: '' @ xe_quote x floor @ '' is not blocker, should-fix or consider''))
      else with_ok (if v \<noteq> '''' then whole_number x v ''review-fold-cut'' else Inr 0) (\<lambda>n.
        Inr \<lparr>rf_floor = floor, rf_fold_cut = n\<rparr>))"

definition replay_bound :: "process \<Rightarrow> params \<Rightarrow> cli_error + int" where
  "replay_bound x p =
     with_ok (required x (fl_replays p) ''replays'' ''AFK_REPLAYS'') (\<lambda>v. natural_number x v ''replays'')"

record effect_params =
  ef_rounds :: int
  ef_back_label :: string

definition effects_config :: "process \<Rightarrow> params \<Rightarrow> cli_error + effect_params" where
  "effects_config x p =
     with_ok (required_count x (fl_effect_rounds p) ''effect-rounds'' ''AFK_EFFECT_ROUNDS'') (\<lambda>n.
     with_ok (required x (fl_hand_back_label p) ''hand-back-label'' ''AFK_HAND_BACK_LABEL'') (\<lambda>lbl.
     Inr \<lparr>ef_rounds = n, ef_back_label = lbl\<rparr>))"

subsection \<open>Delivering\<close>

definition valid_denylist :: "process \<Rightarrow> string list \<Rightarrow> string option" where
  "valid_denylist x globs =
     (if globs = [] then Some ''the denylist is empty''
      else map_option (xe_glob_text x) (globs_valid ''denylist'' globs))"

fun sensitive_entries :: "process \<Rightarrow> string list \<Rightarrow> cli_error + sensitive_path list" where
  "sensitive_entries x [] = Inr []"
| "sensitive_entries x (entry # es) =
     (let (lbl, globs, ok) = cut entry (CHR ''='') in
      if \<not> ok then Inl (UsageError (''--sensitive: '' @ xe_quote x entry @ '' is not <label>=<globs>''))
      else with_ok (sensitive_entries x es) (\<lambda>ss.
        Inr (\<lparr>sp_label = trim_space lbl, sp_globs = listed (CHR '','') globs\<rparr> # ss)))"

definition sensitive_config :: "process \<Rightarrow> string \<Rightarrow> cli_error + sensitive_path list" where
  "sensitive_config x v =
     with_ok (sensitive_entries x (listed (CHR '';'') v)) (\<lambda>ss.
     case sensitive_valid ss of
       Some e \<Rightarrow> Inl (UsageError (''--sensitive: '' @ xe_sensitive_text x e))
     | None \<Rightarrow> Inr ss)"

record delivery_params =
  dp_gate_command :: string
  dp_attempts :: int
  dp_off_label :: string
  dp_denylist :: "string list"
  dp_ci_wait :: int
  dp_ci_ceiling :: int
  dp_ci_fixes :: int
  dp_size_signal :: int
  dp_fresh_at :: int
  dp_sensitive_paths :: "sensitive_path list"

definition denylist_config :: "process \<Rightarrow> params \<Rightarrow> cli_error + string list" where
  "denylist_config x p =
     with_ok (required x (fl_denylist p) ''denylist'' ''AFK_DENYLIST'') (\<lambda>v.
     let globs = listed (CHR '','') v in
     case valid_denylist x globs of
       Some e \<Rightarrow> Inl (UsageError (''--denylist: '' @ e))
     | None \<Rightarrow> Inr globs)"

definition delivery_config :: "process \<Rightarrow> params \<Rightarrow> cli_error + delivery_params" where
  "delivery_config x p =
     with_ok (required x (fl_gate p) ''gate'' ''AFK_GATE'') (\<lambda>gate.
     with_ok (required_count x (fl_gate_attempts p) ''gate-attempts'' ''AFK_GATE_ATTEMPTS'') (\<lambda>attempts.
     with_ok (required x (fl_hand_off_label p) ''hand-off-label'' ''AFK_HAND_OFF_LABEL'') (\<lambda>lbl.
     with_ok (denylist_config x p) (\<lambda>globs.
     with_ok (required_duration x (fl_ci_wait p) ''ci-wait'' ''AFK_CI_WAIT'') (\<lambda>wait.
     with_ok (required_duration x (fl_ci_ceiling p) ''ci-ceiling'' ''AFK_CI_CEILING'') (\<lambda>ceiling.
     with_ok (required_count x (fl_ci_fixes p) ''ci-fixes'' ''AFK_CI_FIXES'') (\<lambda>fixes.
     with_ok (required_count x (fl_size_signal p) ''size-signal'' ''AFK_SIZE_SIGNAL'') (\<lambda>signal.
     with_ok (with_ok (required x (fl_fresh_session_at p) ''fresh-session-at'' ''AFK_FRESH_SESSION_AT'')
       (\<lambda>v. natural_number x v ''fresh-session-at'')) (\<lambda>fresh.
     with_ok (sensitive_config x (optional x (fl_sensitive p) ''AFK_SENSITIVE'')) (\<lambda>ss.
     Inr \<lparr>dp_gate_command = gate, dp_attempts = attempts, dp_off_label = lbl, dp_denylist = globs, dp_ci_wait = wait,
       dp_ci_ceiling = ceiling, dp_ci_fixes = fixes, dp_size_signal = signal, dp_fresh_at = fresh, dp_sensitive_paths = ss\<rparr>))))))))))"

record implement_params =
  im_prefix :: string
  im_procedure :: string

text \<open>A URL is its scheme and its host.\<close>

definition web_address :: "process \<Rightarrow> string \<Rightarrow> bool" where
  "web_address x v \<longleftrightarrow>
     (case xe_url x v of None \<Rightarrow> False
      | Some (scheme, host) \<Rightarrow> (scheme = ''https'' \<or> scheme = ''http'') \<and> host \<noteq> '''')"

definition implement_config :: "process \<Rightarrow> params \<Rightarrow> cli_error + implement_params" where
  "implement_config x p =
     with_ok (required x (fl_branch_prefix p) ''branch-prefix'' ''AFK_BRANCH_PREFIX'') (\<lambda>pre.
     let v = optional x (fl_review_procedure p) ''AFK_REVIEW_PROCEDURE'' in
     if v \<noteq> '''' \<and> \<not> web_address x v
     then Inl (UsageError (''--review-procedure: '' @ xe_quote x v @ '' is not an http or https URL''))
     else Inr \<lparr>im_prefix = pre, im_procedure = v\<rparr>)"

subsection \<open>Model choice\<close>

record model_params =
  mo_opencode :: string
  mo_enrolment :: string
  mo_catalogue_age :: int
  mo_tier :: string
  mo_needs :: "capability list"
  mo_attempts :: int
  mo_tier_wait :: int
  mo_timeout :: int

definition model_for :: "process \<Rightarrow> params \<Rightarrow> string \<Rightarrow> string \<Rightarrow> string \<Rightarrow> string \<Rightarrow> string \<Rightarrow> cli_error + model_params" where
  "model_for x p tier_value tier_flag tier_env needs_value needs_env =
     with_ok (required x (fl_opencode p) ''opencode'' ''AFK_OPENCODE'') (\<lambda>opencode.
     with_ok (required x (fl_enrolment p) ''enrolment'' ''AFK_ENROLMENT'') (\<lambda>enrolment.
     with_ok (required x tier_value tier_flag tier_env) (\<lambda>tier.
     with_ok (required_count x (fl_model_attempts p) ''model-attempts'' ''AFK_MODEL_ATTEMPTS'') (\<lambda>attempts.
     with_ok (required_duration x (fl_tier_wait p) ''tier-wait'' ''AFK_TIER_WAIT'') (\<lambda>wait.
     with_ok (required_duration x (fl_model_timeout p) ''model-timeout'' ''AFK_MODEL_TIMEOUT'') (\<lambda>timeout.
     let v = optional x (fl_catalogue_age p) ''AFK_CATALOGUE_AGE'' in
     with_ok (if v \<noteq> '''' then duration x v ''catalogue-age'' else Inr 0) (\<lambda>age.
     Inr \<lparr>mo_opencode = opencode, mo_enrolment = enrolment, mo_catalogue_age = age, mo_tier = tier,
       mo_needs = listed (CHR '','') (optional x needs_value needs_env), mo_attempts = attempts,
       mo_tier_wait = wait, mo_timeout = timeout\<rparr>)))))))"

definition review_model :: "process \<Rightarrow> params \<Rightarrow> cli_error + model_params" where
  "review_model x p = model_for x p (fl_review_tier p) ''review-tier'' ''AFK_REVIEW_TIER'' (fl_review_needs p) ''AFK_REVIEW_NEEDS''"

definition implement_model :: "process \<Rightarrow> params \<Rightarrow> cli_error + model_params" where
  "implement_model x p =
     model_for x p (fl_implement_tier p) ''implement-tier'' ''AFK_IMPLEMENT_TIER'' (fl_implement_needs p) ''AFK_IMPLEMENT_NEEDS''"

end
