(* ===== verification/Commands.thy ===== *)
theory Commands
  imports Config Implement Revise Review Dispatch
begin

text \<open>
  The command surface, \<^verbatim>\<open>internal/cli\<close>: the exit codes, the subject of a hand-run, the transitions a
  build knows and the commands it answers, the dependencies of each job kind (\<^verbatim>\<open>deps.go\<close>), and what
  each subcommand resolves before it runs anything (\<^verbatim>\<open>cli.go\<close>). Everything a kind reaches that is not
  configuration - the tracker, git, the model - is in the kind's own environment, which is taken as it
  is and has its parameters set. Parsing flags is the standard library's; what it came to is given.
\<close>

subsection \<open>Exit codes\<close>

definition exit_code :: "cli_error option \<Rightarrow> int" where
  "exit_code e = (case e of None \<Rightarrow> 0 | Some (UsageError _) \<Rightarrow> 2 | Some (CliError _) \<Rightarrow> 1)"

datatype usage_to = UsageNowhere | UsageStdout | UsageStderr

text \<open>One invocation: its exit code, and where the usage text goes. \<open>sub\<close> is what a subcommand comes
  to with the arguments after it.\<close>

definition main_exit :: "process \<Rightarrow> (string \<Rightarrow> string list \<Rightarrow> cli_error option) \<Rightarrow> string list \<Rightarrow> int \<times> usage_to" where
  "main_exit x sub args =
     (case args of
        [] \<Rightarrow> (2, UsageStderr)
      | cmd # rest \<Rightarrow>
          let e = (if cmd \<in> {''run'', ''work'', ''intake'', ''budget'', ''caught'', ''version''} then sub cmd rest
                   else if cmd \<in> {''help'', ''-h'', ''--help''} then None
                   else Some (UsageError (''unknown command '' @ xe_quote x cmd)));
              to = (case e of Some (UsageError _) \<Rightarrow> UsageStderr
                    | _ \<Rightarrow> if cmd \<in> {''help'', ''-h'', ''--help''} then UsageStdout else UsageNowhere) in
          (exit_code e, to))"

subsection \<open>The subject of a hand-run\<close>

record subject_flags =
  sf_job :: string
  sf_issue :: string
  sf_pr :: string

definition subject_count :: "subject_flags \<Rightarrow> nat" where
  "subject_count s = length (filter (\<lambda>v. v \<noteq> '''') [sf_job s, sf_issue s, sf_pr s])"

definition subject_text :: "subject_flags \<Rightarrow> string" where
  "subject_text s =
     (if sf_job s \<noteq> '''' then ''job '' @ sf_job s else if sf_issue s \<noteq> '''' then ''issue '' @ sf_issue s
      else if sf_pr s \<noteq> '''' then ''pr '' @ sf_pr s else ''no subject'')"

definition subject_named :: "process \<Rightarrow> subject_flags \<Rightarrow> cli_error + subject option" where
  "subject_named x s =
     (if sf_job s \<noteq> '''' then Inr None
      else let (typ, num) = (if sf_pr s \<noteq> '''' then (SubjectPR, sf_pr s) else (SubjectIssue, sf_issue s));
               bad = UsageError (xe_quote x num @ '' is not a '' @ typ @ '' number'') in
        case go_atoi num of
          None \<Rightarrow> Inl bad
        | Some n \<Rightarrow> if n < 1 then Inl bad else Inr (Some \<lparr>sub_type = typ, sub_number = n\<rparr>))"

text \<open>The id of the job a subject names, made in the transition's own starting state if there is none.\<close>

definition subject_job :: "process \<Rightarrow> subject_flags \<Rightarrow> transition \<Rightarrow> instant \<Rightarrow> db \<Rightarrow> (cli_error + (store_error + string)) \<times> db" where
  "subject_job x s t now d =
     (case subject_named x s of
        Inl e \<Rightarrow> (Inl e, d)
      | Inr None \<Rightarrow> (Inr (Inr (sf_job s)), d)
      | Inr (Some sub) \<Rightarrow>
          (case ensure (t_kind t) sub (t_from t) (Some now) d of
             (Inl e, d') \<Rightarrow> (Inr (Inl e), d')
           | (Inr j, d') \<Rightarrow> (Inr (Inr (j_id j)), d')))"

definition subject_of :: "kind \<Rightarrow> subject_type" where
  "subject_of k = (if k = KindImplement then SubjectIssue else SubjectPR)"

subsection \<open>The transitions and the commands\<close>

text \<open>A transition's name, state and tokens, by kind.\<close>

definition review_names :: "(string \<times> string) list" where
  "review_names = [(''review'', review_start), (''review-claimed'', review_claiming), (''review-run'', review_reviewing),
     (''review-post'', review_posting), (''review-verify'', review_verifying), (''review-resume'', review_deferred),
     (''review-handed-back'', review_handing_back)]"

definition kind_entries :: "kind \<Rightarrow> (string \<times> string \<times> string list) list" where
  "kind_entries k =
     (if k = KindReview then map (\<lambda>(name, st). (name, st, [])) review_names
      else if k = KindImplement then map (\<lambda>(name, st, toks, _). (name, st, toks)) imp_transitions
      else map (\<lambda>(name, st, toks, _). (name, st, toks)) rev_transitions)"

record deps =
  de_review :: "review_env option"
  de_implement :: "imp_env option"
  de_revise :: "rev_env option"

definition no_deps :: deps where
  "no_deps = \<lparr>de_review = None, de_implement = None, de_revise = None\<rparr>"

definition configured :: "deps option \<Rightarrow> kind \<Rightarrow> bool" where
  "configured d k \<longleftrightarrow>
     (case d of None \<Rightarrow> True
      | Some d \<Rightarrow> if k = KindReview then de_review d \<noteq> None
                 else if k = KindImplement then de_implement d \<noteq> None else de_revise d \<noteq> None)"

definition kind_list :: "(string \<Rightarrow> job \<Rightarrow> instant \<Rightarrow> decided) \<Rightarrow> kind \<Rightarrow> transition list" where
  "kind_list runs k = map (\<lambda>(name, st, toks). \<lparr>t_name = name, t_kind = k, t_from = st, t_tokens = toks, t_run = Some (runs name)\<rparr>)
     (kind_entries k)"

text \<open>With no dependencies, every kind's, to be named but not run; with them, those of the kinds that
  have their own.\<close>

definition catalogue_list :: "(string \<Rightarrow> job \<Rightarrow> instant \<Rightarrow> decided) \<Rightarrow> deps option \<Rightarrow> transition list" where
  "catalogue_list runs d =
     concat (map (kind_list runs) (filter (configured d) [KindReview, KindImplement, KindRevise]))"

text \<open>\<^verbatim>\<open>MustRegistry\<close>: \<open>None\<close> is a panic.\<close>

definition must_registry :: "transition list \<Rightarrow> registry option" where
  "must_registry ts = (case new_registry ts of Inl _ \<Rightarrow> None | Inr r \<Rightarrow> Some r)"

definition commands :: "command list" where
  "commands =
     [\<lparr>cd_word = review_word, cd_on = SubjectPR, cd_kind = KindReview, cd_start = review_start, cd_by_review = False\<rparr>,
      \<lparr>cd_word = implement_word, cd_on = SubjectIssue, cd_kind = KindImplement, cd_start = Start_state, cd_by_review = False\<rparr>,
      \<lparr>cd_word = revise_word, cd_on = SubjectPR, cd_kind = KindRevise, cd_start = Start_state, cd_by_review = True\<rparr>]"

definition runnable :: "command list \<Rightarrow> registry \<Rightarrow> command list" where
  "runnable cs r = filter (\<lambda>c. registry_next r (cd_kind c) (cd_start c) \<noteq> None) cs"

definition pool_takes :: "unattended \<Rightarrow> registry \<Rightarrow> bool" where
  "pool_takes u r \<longleftrightarrow> registry_next r (un_kind u) (un_start u) \<noteq> None"

definition known_transitions :: "registry \<Rightarrow> string" where
  "known_transitions r =
     (let names = registry_names r in
      if names = [] then ''no transitions are registered in this build'' else ''known transitions: '' @ join names '', '')"

subsection \<open>The dependencies of each kind\<close>

text \<open>What the world answers, and the environments whose parameters are set. The login is asked for
  once: a failure ends the command.\<close>

record command_env =
  xw_open :: "string \<Rightarrow> string option"
  xw_login :: "string + string"
  xw_holder :: string
  xw_now :: instant
  xw_runs :: "string \<Rightarrow> job \<Rightarrow> instant \<Rightarrow> decided"
  xw_review :: review_env
  xw_implement :: imp_env
  xw_revise :: rev_env
  xw_dispatcher :: dispatcher
  xw_intake :: intake

definition command_login :: "command_env \<Rightarrow> cli_error + string" where
  "command_login c = (case fst (tracker_login (xw_login c) '''') of Inl e \<Rightarrow> Inl (CliError e) | Inr l \<Rightarrow> Inr l)"

text \<open>What the resolver reads of the parameters: the observer and the store's path.\<close>

definition resolver_config :: "process \<Rightarrow> params \<Rightarrow> cli_error + budget_params option \<times> string" where
  "resolver_config x p = with_ok (budget_config x p) (\<lambda>b. with_ok (store_path x p) (\<lambda>path. Inr (b, path)))"

text \<open>The candidates as of one call: the enrolment and the catalogue are read afresh, and a budget
  that cannot be read is the last that was.\<close>

definition candidates_now :: "model_params \<Rightarrow> observer option \<Rightarrow> instant \<Rightarrow> instant \<Rightarrow> string + budget_state \<Rightarrow>
    string + enrolment \<Rightarrow> string + catalogue \<Rightarrow> resolve_error + ref list" where
  "candidates_now m ob now now' usage enrol cat =
     (case enrol of Inl e \<Rightarrow> Inl (OtherError e)
      | Inr en \<Rightarrow> (case cat of Inl e \<Rightarrow> Inl (OtherError e)
      | Inr ct \<Rightarrow>
          resolve \<lparr>rq_tier = mo_tier m, rq_capabilities = mo_needs m, rq_min_context = 0, rq_ceiling = zero_ceiling\<rparr> ct (Some en)
            (case ob of None \<Rightarrow> \<lparr>mb_limited = False, mb_resets_at = None\<rparr>
             | Some o1 \<Rightarrow> let ((state, _), o2) = observe o1 now usage in observer_resolver o2 state now')))"

text \<open>A catalogue that cannot be read prices nothing.\<close>

definition price_now :: "string + catalogue \<Rightarrow> ref \<Rightarrow> price" where
  "price_now cat r = (case cat of Inl _ \<Rightarrow> zero_price
     | Inr ct \<Rightarrow> (case cat_lookup ct r of None \<Rightarrow> zero_price | Some m \<Rightarrow> m_price m))"

definition review_deps :: "process \<Rightarrow> params \<Rightarrow> command_env \<Rightarrow> tracker_params option \<Rightarrow> cli_error + review_env" where
  "review_deps x p c tr =
     (case tr of
        None \<Rightarrow> Inl (UsageError ''a review needs --repo (or set AFK_REPO)'')
      | Some t \<Rightarrow>
          with_ok (review_model x p) (\<lambda>m.
          with_ok (effects_config x p) (\<lambda>ep.
          with_ok (review_config x p) (\<lambda>rp.
          with_ok (resolver_config x p) (\<lambda>_.
          with_ok (command_login c) (\<lambda>login.
          Inr ((xw_review c)\<lparr>ve_bound := mo_attempts m, ve_tier_wait := mo_tier_wait m, ve_rounds := ef_rounds ep,
            ve_label := ef_back_label ep, ve_floor := rf_floor rp, ve_fold_cut := rf_fold_cut rp,
            ve_repo := tp_repo t, ve_login := login\<rparr>)))))))"

definition delivery_deps :: "process \<Rightarrow> params \<Rightarrow> command_env \<Rightarrow> tracker_params \<Rightarrow> delivery_env \<Rightarrow> cli_error + delivery_env" where
  "delivery_deps x p c t v =
     with_ok (delivery_config x p) (\<lambda>dp.
     with_ok (implement_model x p) (\<lambda>m.
     with_ok (effects_config x p) (\<lambda>ep.
     with_ok (resolver_config x p) (\<lambda>_.
     with_ok (lease_ttl x p) (\<lambda>lease.
     with_ok (command_login c) (\<lambda>login.
     Inr (v\<lparr>dl_login := login, dl_repo := tp_repo t,
       dl_tier := (dl_tier v)\<lparr>tr_bound := mo_attempts m, tr_wait := mo_tier_wait m, tr_fresh_at := dp_fresh_at dp\<rparr>,
       dl_rounds := ef_rounds ep, dl_gate := dp_gate_command dp, dl_attempts := dp_attempts dp,
       dl_back_label := ef_back_label ep, dl_off_label := dp_off_label dp,
       dl_ci := (dl_ci v)\<lparr>ci_wait := dp_ci_wait dp, ci_ceiling := dp_ci_ceiling dp, ci_fixes := dp_ci_fixes dp\<rparr>,
       dl_denylist := dp_denylist dp, dl_sensitive := dp_sensitive_paths dp, dl_signal := dp_size_signal dp,
       dl_asker := \<lparr>ar_holder = xw_holder c @ ''/ask-review'', ar_ttl = lease\<rparr>\<rparr>)))))))"

definition implement_deps :: "process \<Rightarrow> params \<Rightarrow> command_env \<Rightarrow> tracker_params option \<Rightarrow> cli_error + imp_env" where
  "implement_deps x p c tr =
     (case tr of
        None \<Rightarrow> Inl (UsageError ''implement needs --repo (or set AFK_REPO)'')
      | Some t \<Rightarrow>
          with_ok (implement_config x p) (\<lambda>ip.
          with_ok (delivery_deps x p c t (ie_params (xw_implement c))) (\<lambda>v.
          Inr ((xw_implement c)\<lparr>ie_params := v, ie_prefix := im_prefix ip, ie_procedure := im_procedure ip\<rparr>))))"

definition revise_deps :: "process \<Rightarrow> params \<Rightarrow> command_env \<Rightarrow> tracker_params option \<Rightarrow> cli_error + rev_env" where
  "revise_deps x p c tr =
     (case tr of
        None \<Rightarrow> Inl (UsageError ''revise needs --repo (or set AFK_REPO)'')
      | Some t \<Rightarrow>
          with_ok (implement_config x p) (\<lambda>_.
          with_ok (delivery_deps x p c t (rx_params (xw_revise c))) (\<lambda>v.
          with_ok (replay_bound x p) (\<lambda>n.
          Inr ((xw_revise c)\<lparr>rx_params := v, rx_replays := n\<rparr>)))))"

text \<open>A hand-run needs its own kind's parameters only.\<close>

definition kind_deps :: "process \<Rightarrow> params \<Rightarrow> command_env \<Rightarrow> tracker_params option \<Rightarrow> kind \<Rightarrow> cli_error + deps" where
  "kind_deps x p c tr k =
     (if k = KindReview then with_ok (review_deps x p c tr) (\<lambda>v. Inr (no_deps\<lparr>de_review := Some v\<rparr>))
      else if k = KindImplement then with_ok (implement_deps x p c tr) (\<lambda>v. Inr (no_deps\<lparr>de_implement := Some v\<rparr>))
      else if k = KindRevise then with_ok (revise_deps x p c tr) (\<lambda>v. Inr (no_deps\<lparr>de_revise := Some v\<rparr>))
      else Inr no_deps)"


subsection \<open>What each subcommand resolves\<close>

text \<open>What a command line came to once its flags were parsed: the error of that, or what is left.\<close>

type_synonym parsed_flags = "string + string list"

definition flags_ok :: "process \<Rightarrow> parsed_flags \<Rightarrow> cli_error + unit" where
  "flags_ok x fs =
     (case fs of
        Inl e \<Rightarrow> Inl (UsageError e)
      | Inr [] \<Rightarrow> Inr ()
      | Inr (a # _) \<Rightarrow> Inl (UsageError (''unexpected argument '' @ xe_quote x a)))"

record resolved_store =
  so_path :: string
  so_lease :: int
  so_backoff :: "(int \<times> int) option"

definition resolve_store :: "process \<Rightarrow> params \<Rightarrow> command_env \<Rightarrow> cli_error + resolved_store" where
  "resolve_store x p c =
     with_ok (store_path x p) (\<lambda>path.
     with_ok (lease_ttl x p) (\<lambda>lease.
     with_ok (backoff_policy x p) (\<lambda>b.
     case xw_open c path of
       Some e \<Rightarrow> Inl (CliError e)
     | None \<Rightarrow> Inr \<lparr>so_path = path, so_lease = lease, so_backoff = b\<rparr>)))"

definition new_intake :: "command_env \<Rightarrow> tracker_params option \<Rightarrow> int \<Rightarrow> unattended \<Rightarrow> cli_error + intake option" where
  "new_intake c tr lease u =
     (case tr of
        None \<Rightarrow> Inr None
      | Some _ \<Rightarrow>
          with_ok (command_login c) (\<lambda>login.
          Inr (Some ((xw_intake c)\<lparr>in_store := True, in_commands := commands, in_login := login,
            in_holder := xw_holder c, in_ttl := lease, in_unattended := u\<rparr>))))"

text \<open>The worker pool: the dispatcher, what it observes and tells, the kinds it can run, and its intake.
  A panic is \<open>None\<close>.\<close>

record work_config =
  wo_dispatcher :: dispatcher
  wo_observer :: "observer option"
  wo_notifier :: "notifier option"
  wo_kinds :: deps
  wo_intake :: "intake option"

text \<open>The kinds a pool can run: no branch prefix leaves out both that deliver, no replay bound the
  revision.\<close>

definition work_kinds :: "process \<Rightarrow> params \<Rightarrow> command_env \<Rightarrow> tracker_params option \<Rightarrow> cli_error + deps" where
  "work_kinds x p c tr =
     with_ok (review_deps x p c tr) (\<lambda>rv.
     with_ok (if optional x (fl_branch_prefix p) ''AFK_BRANCH_PREFIX'' = '''' then Inr None
       else with_ok (implement_deps x p c tr) (\<lambda>v. Inr (Some v))) (\<lambda>im.
     with_ok (if im = None \<or> optional x (fl_replays p) ''AFK_REPLAYS'' = '''' then Inr None
       else with_ok (revise_deps x p c tr) (\<lambda>v. Inr (Some v))) (\<lambda>re.
     Inr \<lparr>de_review = Some rv, de_implement = im, de_revise = re\<rparr>)))"

text \<open>What of the commands and of the issues the pool's own registry can start.\<close>

definition narrowed :: "registry \<Rightarrow> intake \<Rightarrow> intake" where
  "narrowed r i =
     i\<lparr>in_commands := runnable (in_commands i) r,
       in_unattended := (if un_label (in_unattended i) \<noteq> '''' \<and> \<not> pool_takes (in_unattended i) r
                         then no_unattended else in_unattended i)\<rparr>"

definition pool_error_text :: "process \<Rightarrow> pool_error \<Rightarrow> string" where
  "pool_error_text x e =
     (case e of TokenNoName \<Rightarrow> ''resource token with no name''
      | TokenBadCapacity name n \<Rightarrow> ''resource token '' @ xe_quote x name @ '' has capacity '' @ dec n @
          '': a token nothing can ever hold blocks its transitions forever'')"

definition work_setup :: "process \<Rightarrow> params \<Rightarrow> command_env \<Rightarrow> parsed_flags \<Rightarrow> cli_error + work_config option" where
  "work_setup x p c fs =
     with_ok (flags_ok x fs) (\<lambda>_.
     with_ok (pool_config x p) (\<lambda>pc.
     with_ok (case new_pool (pc_capacity pc) of Inl e \<Rightarrow> Inl (CliError (pool_error_text x e)) | Inr q \<Rightarrow> Inr q) (\<lambda>q.
     with_ok (require_budget_age x p) (\<lambda>_.
     with_ok (budget_config x p) (\<lambda>b.
     with_ok (notify_config x p) (\<lambda>n.
     with_ok (tracker_config x p) (\<lambda>tr.
     with_ok (taking_config x p) (\<lambda>u.
     with_ok (resolve_store x p c) (\<lambda>so.
     with_ok (work_kinds x p c tr) (\<lambda>ks.
     case must_registry (catalogue_list (xw_runs c) (Some ks)) of
       None \<Rightarrow> Inr None
     | Some r \<Rightarrow>
         with_ok (new_intake c tr (so_lease so) u) (\<lambda>i.
         Inr (Some \<lparr>
           wo_dispatcher = (xw_dispatcher c)\<lparr>dp_store := True, dp_registry := Some r, dp_pool := Some q,
             dp_holder := xw_holder c, dp_workers := pc_workers pc, dp_lease_ttl := so_lease so, dp_poll := pc_poll pc,
             dp_token_wait := pc_token_wait pc,
             dp_backoff := map_option (\<lambda>policy. backs_off policy (xw_now c)) (so_backoff so)\<rparr>,
           wo_observer = map_option observer_of b,
           wo_notifier = map_option notifier_of n,
           wo_kinds = ks,
           wo_intake = map_option (narrowed r) i\<rparr>)))))))))))) "

text \<open>A hand-run: everything the operator can have wrong is told before the store is opened.\<close>

record run_config =
  ro_transition :: transition
  ro_registry :: registry
  ro_kinds :: deps
  ro_store :: resolved_store

definition run_setup :: "process \<Rightarrow> params \<Rightarrow> command_env \<Rightarrow> string list \<Rightarrow> parsed_flags \<Rightarrow> subject_flags \<Rightarrow> cli_error + run_config option" where
  "run_setup x p c args fs s =
     (case args of
        [] \<Rightarrow> Inl (UsageError ''run needs a transition name'')
      | name # _ \<Rightarrow>
          if has_prefix name ''-'' then Inl (UsageError ''run needs a transition name'')
          else
          with_ok (flags_ok x fs) (\<lambda>_.
          if subject_count s = 0 then Inl (UsageError ''run needs one of --job, --issue or --pr'')
          else if 1 < subject_count s then Inl (UsageError ''run takes only one of --job, --issue or --pr'')
          else
          with_ok (subject_named x s) (\<lambda>named.
          case must_registry (catalogue_list (xw_runs c) None) of
            None \<Rightarrow> Inr None
          | Some all \<Rightarrow>
              (case registry_get all name of
                 None \<Rightarrow> Inl (UsageError (''unknown transition '' @ xe_quote x name @ ''; '' @ known_transitions all))
               | Some t \<Rightarrow>
                   let want = subject_of (t_kind t) in
                   if (case named of None \<Rightarrow> False | Some sub \<Rightarrow> sub_type sub \<noteq> want)
                   then Inl (UsageError (name @ '' runs '' @ t_kind t @ '' jobs, which are on a '' @ want @ '': use --'' @ want))
                   else
                   with_ok (tracker_config x p) (\<lambda>tr.
                   with_ok (resolve_store x p c) (\<lambda>so.
                   with_ok (kind_deps x p c tr (t_kind t)) (\<lambda>ks.
                   Inr (case must_registry (catalogue_list (xw_runs c) (Some ks)) of
                      None \<Rightarrow> None
                    | Some r \<Rightarrow> Some \<lparr>ro_transition = t, ro_registry = r, ro_kinds = ks, ro_store = so\<rparr>))))))))"

text \<open>The whole of a hand-run: the job is named, or made, and the transition is run on it by the runner
  the pool uses.\<close>

definition hand_run :: "command_env \<Rightarrow> process \<Rightarrow> subject_flags \<Rightarrow> string \<Rightarrow> run_config \<Rightarrow> instant \<Rightarrow> instant \<Rightarrow> instant \<Rightarrow> world \<Rightarrow>
    (cli_error + outcome \<times> run_error option) \<times> world" where
  "hand_run c x s name rc now now1 now2 w =
     (case call (\<lambda>d. let (r, d') = subject_job x s (ro_transition rc) now d in
          (case r of Inl e \<Rightarrow> Inr (Inl e) | Inr (Inl e) \<Rightarrow> Inl e | Inr (Inr jid) \<Rightarrow> Inr (Inr jid), d')) w of
        (Inl e, w1) \<Rightarrow> (Inr (no_outcome, Some (StoreErr e)), w1)
      | (Inr (Inl e), w1) \<Rightarrow> (Inl e, w1)
      | (Inr (Inr jid), w1) \<Rightarrow>
          let (out, e, w2) = run \<lparr>rn_registry = ro_registry rc, rn_holder = xw_holder c, rn_ttl = so_lease (ro_store rc),
              rn_backoff = map_option (\<lambda>policy. backs_off policy (xw_now c)) (so_backoff (ro_store rc))\<rparr> name jid now1 now2 w1
          in (Inr (out, e), w2))"

text \<open>One intake pass by hand: every command the build answers, whether or not a pool could run it.\<close>

definition intake_setup :: "process \<Rightarrow> params \<Rightarrow> command_env \<Rightarrow> parsed_flags \<Rightarrow> cli_error + intake option" where
  "intake_setup x p c fs =
     with_ok (flags_ok x fs) (\<lambda>_.
     with_ok (refused_if (optional x (fl_repo p) ''AFK_REPO'' = '''') (UsageError ''intake needs --repo (or set AFK_REPO)'')) (\<lambda>_.
     with_ok (taking_config x p) (\<lambda>u.
     with_ok (tracker_config x p) (\<lambda>tr.
     with_ok (resolve_store x p c) (\<lambda>so.
     new_intake c tr (so_lease so) u)))))"

definition caught_setup :: "process \<Rightarrow> params \<Rightarrow> command_env \<Rightarrow> parsed_flags \<Rightarrow> cli_error + string" where
  "caught_setup x p c fs =
     with_ok (flags_ok x fs) (\<lambda>_.
     with_ok (refused_if (optional x (fl_repo p) ''AFK_REPO'' = '''') (UsageError ''caught needs --repo (or set AFK_REPO)'')) (\<lambda>_.
     with_ok (tracker_config x p) (\<lambda>tr.
     command_login c)))"

subsection \<open>The budget as it is printed\<close>

definition budget_setup :: "process \<Rightarrow> params \<Rightarrow> parsed_flags \<Rightarrow> cli_error + budget_params" where
  "budget_setup x p fs =
     with_ok (flags_ok x fs) (\<lambda>_.
     with_ok (budget_config x p) (\<lambda>b.
     case b of None \<Rightarrow> Inl (UsageError ''budget needs --budget-key (or set AFK_BUDGET_KEY)'') | Some b \<Rightarrow> Inr b))"

text \<open>Whether a waiver names the period its window was observed in.\<close>

definition waiver_period :: "process \<Rightarrow> budget_state \<Rightarrow> waiver \<Rightarrow> string" where
  "waiver_period x st wa =
     (case state_window st (wv_window wa) of
        None \<Rightarrow> ''no '' @ wv_window wa @ '' window observed''
      | Some w \<Rightarrow>
          if waiver_matches wa w then ''covers this period''
          else (case w_resets_at w of
              None \<Rightarrow> ''does not match: the window reports no reset''
            | Some t \<Rightarrow> ''does not match this period's reset '' @ xe_time_text x t))"

definition budget_lines :: "process \<Rightarrow> (budget_state \<Rightarrow> string) \<Rightarrow> (admission \<Rightarrow> string) \<Rightarrow> budget_state \<Rightarrow> rat \<Rightarrow> waiver list \<Rightarrow> instant \<Rightarrow> string list" where
  "budget_lines x state_text admission_text st threshold ws now =
     [state_text st, admission_text (admit st threshold ws now)] @
     map (\<lambda>wa. wv_window wa @ '' is waived until '' @ xe_time_text x (wv_until wa) @ '': '' @ waiver_period x st wa) (live_waivers ws now)"

end
