(* ===== verification/Commands_Properties.thy ===== *)
theory Commands_Properties
  imports Commands Intake_Properties
begin

text \<open>
  What the command surface guarantees: every build registers whatever kinds it is given, and answers
  exactly the commands it can run; a configuration \<^verbatim>\<open>afk work\<close> accepts is one the dispatcher and the
  intake accept too, and bounds everything a delivery counts or waits for.
\<close>

subsection \<open>Every parameter\<close>

lemma required_Inr [config_rules]: "required x v flag env = Inr r \<longleftrightarrow> optional x v env = r \<and> r \<noteq> ''''"
  by (auto simp: required_def Let_def)

lemma duration_Inr [config_rules]: "duration x v flag = Inr d \<longleftrightarrow> xe_duration x v = Some d \<and> 0 < d"
  by (auto simp: duration_def split: option.splits)

lemma whole_number_Inr [config_rules]: "whole_number x v flag = Inr n \<longleftrightarrow> go_atoi v = Some n \<and> 1 \<le> n"
  by (auto simp: whole_number_def split: option.splits)

lemma natural_number_Inr [config_rules]: "natural_number x v flag = Inr n \<longleftrightarrow> go_atoi v = Some n \<and> 0 \<le> n"
  by (auto simp: natural_number_def split: option.splits)

lemma sum_case_Inr [config_rules]: "(case z of Inl e \<Rightarrow> Inl (h e) | Inr a \<Rightarrow> f a) = Inr b \<longleftrightarrow> (\<exists>a. z = Inr a \<and> f a = Inr b)"
  by (cases z) simp_all

lemma required_duration_pos: "required_duration x v flag env = Inr d \<Longrightarrow> 0 < d"
  by (auto simp: required_duration_def config_rules)

lemma required_count_pos: "required_count x v flag env = Inr n \<Longrightarrow> 1 \<le> n"
  by (auto simp: required_count_def config_rules)

lemma read_key_some: "read_key x path flag = Inr k \<Longrightarrow> k \<noteq> ''''"
  by (auto simp: read_key_def split: sum.splits if_splits)

text \<open>What \<^verbatim>\<open>percent\<close> lets through: a percentage, or what is no number at all, which compares false
  with both bounds, and which admission then takes for no threshold.\<close>

lemma percentage_Inr:
  "percentage x v flag = Inr f \<longleftrightarrow> xe_float x v = Some f \<and> (f = NotANumber \<or> (\<exists>r. f = Finite r \<and> 0 < r \<and> r \<le> 100))"
  by (auto simp: percentage_def out_of_percent_def split: option.splits go_float.splits)

lemma nan_is_no_threshold: "threshold_of NotANumber = 0" "xe_float x v = Some NotANumber \<Longrightarrow> percentage x v flag = Inr NotANumber"
  by (simp_all add: threshold_of_def percentage_Inr)

subsection \<open>The transitions of a build\<close>

lemma review_names_are: "map (\<lambda>t. (t_name t, t_from t)) (review_transitions txt v fl w) = review_names"
  by (simp add: review_transitions_def review_names_def)

lemma kinds_apart [simp]: "KindReview \<noteq> KindImplement" "KindImplement \<noteq> KindReview" "KindReview \<noteq> KindRevise"
    "KindRevise \<noteq> KindReview" "KindImplement \<noteq> KindRevise" "KindRevise \<noteq> KindImplement"
  by (simp_all add: KindReview_def KindImplement_def KindRevise_def)

definition all_kinds :: "kind list" where
  "all_kinds = [KindReview, KindImplement, KindRevise]"

definition named_states :: "kind \<Rightarrow> (string \<times> string) list" where
  "named_states k = map (\<lambda>(name, st, _). (name, st)) (kind_entries k)"

lemma named_states_are:
  "named_states KindReview = review_names"
  "named_states KindImplement = map (\<lambda>(name, st, _). (name, st)) imp_transitions"
  "named_states KindRevise = map (\<lambda>(name, st, _). (name, st)) rev_transitions"
  by (simp_all add: named_states_def kind_entries_def case_prod_beta comp_def)

lemmas state_names = review_start_def review_claiming_def review_reviewing_def review_posting_def review_verifying_def
  review_deferred_def review_handing_back_def Start_state_def Claiming_def Implementing_def Gating_def Pushing_def Opening_def
  Watching_def Reviewing_def HandingOff_def HandingBack_def Deferred_def Rev_Claiming_def Revising_def Pushed_def
  Replaying_def Replying_def

lemma names_distinct: "distinct (map fst (concat (map named_states all_kinds)))"
  by (simp add: all_kinds_def named_states_are review_names_def imp_transitions_def rev_transitions_def)

lemma states_distinct: "k \<in> set all_kinds \<Longrightarrow> distinct (map snd (named_states k)) \<and> '''' \<notin> set (map snd (named_states k))"
  by (auto simp: all_kinds_def named_states_are review_names_def imp_transitions_def rev_transitions_def state_names)

lemma names_given: "'''' \<notin> set (map fst (concat (map named_states all_kinds)))"
  by (simp add: all_kinds_def named_states_are review_names_def imp_transitions_def rev_transitions_def)

lemma tokens_given: "(name, st, toks) \<in> set (kind_entries k) \<Longrightarrow> toks = [] \<or> toks = [heavy_build]"
  by (auto simp: kind_entries_def imp_transitions_def rev_transitions_def split: if_splits)

text \<open>Leaving some kinds out keeps what is told apart apart.\<close>

lemma distinct_concat_filter: "distinct (concat (map f xs)) \<Longrightarrow> distinct (concat (map f (filter P xs)))"
  by (induction xs) auto

lemma kind_list_names: "map t_name (kind_list runs k) = map fst (named_states k)"
  by (simp add: kind_list_def named_states_def case_prod_beta comp_def)

lemma kind_list_states: "map state_key (kind_list runs k) = map (\<lambda>e. (k, snd e)) (named_states k)"
  by (simp add: kind_list_def named_states_def state_key_def case_prod_beta comp_def)

lemma distinct_keys: "distinct (map snd es) \<Longrightarrow> distinct (map (\<lambda>e. (k, snd e)) es)"
  by (induction es) auto

lemma distinct_by_kind:
  "distinct ks \<Longrightarrow> (\<And>k. k \<in> set ks \<Longrightarrow> distinct (map snd (g k))) \<Longrightarrow>
     distinct (concat (map (\<lambda>k. map (\<lambda>e. (k, snd e)) (g k)) ks))"
  by (induction ks) (auto intro: distinct_keys)

lemma kind_list_valid:
  assumes "k \<in> set all_kinds" and "t \<in> set (kind_list runs k)"
  shows "validate t = None"
proof -
  from assms(2) obtain e where e: "e \<in> set (kind_entries k)"
    and t: "t = \<lparr>t_name = fst e, t_kind = k, t_from = fst (snd e), t_tokens = snd (snd e), t_run = Some (runs (fst e))\<rparr>"
    by (auto simp: kind_list_def case_prod_beta)
  have named: "(fst e, fst (snd e)) \<in> set (named_states k)"
    using e by (auto simp: named_states_def case_prod_beta)
  have "fst e \<noteq> ''''" using names_given assms(1) named by (force simp: image_def)
  moreover have "fst (snd e) \<noteq> ''''" using states_distinct [OF assms(1)] named by (force simp: image_def)
  moreover have "snd (snd e) = [] \<or> snd (snd e) = [heavy_build]"
    using tokens_given [of "fst e" "fst (snd e)" "snd (snd e)" k] e by simp
  moreover have "kind_valid k" using assms(1) by (auto simp: all_kinds_def kind_valid_def)
  ultimately show ?thesis by (auto simp: t validate_def validate_tokens_ok heavy_build_def)
qed

lemma catalogue_from: "t \<in> set (catalogue_list runs d) \<longleftrightarrow> (\<exists>k\<in>set all_kinds. configured d k \<and> t \<in> set (kind_list runs k))"
  by (auto simp: catalogue_list_def all_kinds_def)

lemma catalogue_registers: "\<exists>r. new_registry (catalogue_list runs d) = Inr r"
proof (unfold new_registry_sound, intro conjI)
  show "\<forall>t\<in>set (catalogue_list runs d). validate t = None"
    using kind_list_valid by (auto simp: catalogue_from)
  have "map t_name (catalogue_list runs d) = concat (map (\<lambda>k. map fst (named_states k)) (filter (configured d) all_kinds))"
    by (simp add: catalogue_list_def all_kinds_def map_concat kind_list_names comp_def del: filter.simps)
  then show "distinct (map t_name (catalogue_list runs d))"
    using distinct_concat_filter [of "\<lambda>k. map fst (named_states k)" all_kinds] names_distinct by (simp add: map_concat comp_def)
  have "map state_key (catalogue_list runs d) =
      concat (map (\<lambda>k. map (\<lambda>e. (k, snd e)) (named_states k)) (filter (configured d) all_kinds))"
    by (simp add: catalogue_list_def all_kinds_def map_concat kind_list_states comp_def del: filter.simps)
  moreover have "distinct all_kinds" by (simp add: all_kinds_def)
  ultimately show "distinct (map state_key (catalogue_list runs d))"
    using states_distinct distinct_by_kind [of "filter (configured d) all_kinds" named_states] by auto
qed

lemma catalogue_must: "\<exists>r. must_registry (catalogue_list runs d) = Some r"
proof -
  obtain r where "new_registry (catalogue_list runs d) = Inr r" using catalogue_registers by blast
  then show ?thesis by (simp add: must_registry_def)
qed

text \<open>A kind's jobs are moved from a state exactly when the kind is configured and names the state.\<close>

lemma catalogue_moves:
  assumes "new_registry (catalogue_list runs d) = Inr r"
  shows "registry_next r k st \<noteq> None \<longleftrightarrow> k \<in> set all_kinds \<and> configured d k \<and> st \<in> set (map snd (named_states k))"
proof -
  have "registry_next r k st \<noteq> None \<longleftrightarrow> (\<exists>t. t \<in> set (catalogue_list runs d) \<and> t_kind t = k \<and> t_from t = st)"
    using registry_next_unique [OF assms] by blast
  also have "\<dots> \<longleftrightarrow> k \<in> set all_kinds \<and> configured d k \<and> st \<in> set (map snd (named_states k))"
    by (force simp: catalogue_from kind_list_def named_states_def case_prod_beta)
  finally show ?thesis .
qed

lemma starts_named: "c \<in> set commands \<Longrightarrow> cd_kind c \<in> set all_kinds \<and> cd_start c \<in> set (map snd (named_states (cd_kind c)))"
  by (auto simp: commands_def all_kinds_def named_states_are review_names_def imp_transitions_def rev_transitions_def)

text \<open>C11: Whatever kinds a build is given, the registry of their transitions is built without a panic,
  and the commands the pool answers, and the issues it takes, are exactly those of the kinds that are
  configured.\<close>

theorem every_build_registers:
  "\<exists>r. must_registry (catalogue_list runs d) = Some r \<and>
     runnable commands r = filter (\<lambda>c. configured d (cd_kind c)) commands \<and>
     (pool_takes (unattended_for lbl) r \<longleftrightarrow> configured d KindImplement)"
proof -
  obtain r where r: "new_registry (catalogue_list runs d) = Inr r" using catalogue_registers by blast
  note moves = catalogue_moves [OF r]
  have "runnable commands r = filter (\<lambda>c. configured d (cd_kind c)) commands"
    unfolding runnable_def moves using starts_named by (auto intro!: filter_cong)
  moreover have "pool_takes (unattended_for lbl) r \<longleftrightarrow> configured d KindImplement"
    unfolding pool_takes_def moves using starts_named [of "commands ! 1"]
    by (simp add: unattended_for_def commands_def Start_state_def)
  ultimately show ?thesis using r by (auto simp: must_registry_def)
qed


subsection \<open>What a configuration that is accepted holds to\<close>

text \<open>The bounds of a delivery: nothing is counted from nothing, nothing is waited for without end, the
  denylist is there and every glob of it can be matched.\<close>

definition delivery_bounded :: "delivery_env \<Rightarrow> bool" where
  "delivery_bounded v \<longleftrightarrow>
     1 \<le> dl_attempts v \<and> 1 \<le> dl_rounds v \<and> 1 \<le> dl_signal v \<and> dl_gate v \<noteq> '''' \<and>
     dl_back_label v \<noteq> '''' \<and> dl_off_label v \<noteq> '''' \<and>
     1 \<le> tr_bound (dl_tier v) \<and> 0 < tr_wait (dl_tier v) \<and> 0 \<le> tr_fresh_at (dl_tier v) \<and>
     0 < ci_wait (dl_ci v) \<and> 0 < ci_ceiling (dl_ci v) \<and> 1 \<le> ci_fixes (dl_ci v) \<and>
     dl_denylist v \<noteq> [] \<and> globs_valid ''denylist'' (dl_denylist v) = None \<and>
     sensitive_valid (dl_sensitive v) = None \<and> 0 < ar_ttl (dl_asker v)"

definition params_bounded :: "delivery_params \<Rightarrow> bool" where
  "params_bounded d \<longleftrightarrow>
     1 \<le> dp_attempts d \<and> 1 \<le> dp_size_signal d \<and> dp_gate_command d \<noteq> '''' \<and> dp_off_label d \<noteq> '''' \<and>
     0 \<le> dp_fresh_at d \<and> 0 < dp_ci_wait d \<and> 0 < dp_ci_ceiling d \<and> 1 \<le> dp_ci_fixes d \<and>
     dp_denylist d \<noteq> [] \<and> globs_valid ''denylist'' (dp_denylist d) = None \<and> sensitive_valid (dp_sensitive_paths d) = None"

lemma denylist_config_valid: "denylist_config x p = Inr gs \<Longrightarrow> gs \<noteq> [] \<and> globs_valid ''denylist'' gs = None"
  by (auto simp: denylist_config_def valid_denylist_def config_rules Let_def split: option.splits if_splits)

lemma sensitive_config_valid: "sensitive_config x v = Inr ss \<Longrightarrow> sensitive_valid ss = None"
  by (auto simp: sensitive_config_def config_rules split: option.splits)

lemma delivery_config_bounded: "delivery_config x p = Inr d \<Longrightarrow> params_bounded d"
  unfolding delivery_config_def with_ok_Inr
  by (auto simp: params_bounded_def required_Inr natural_number_Inr
      dest: required_count_pos required_duration_pos denylist_config_valid sensitive_config_valid)

lemma model_for_bounded: "model_for x p a b e f g = Inr m \<Longrightarrow> 1 \<le> mo_attempts m \<and> 0 < mo_tier_wait m \<and> 0 < mo_timeout m"
  unfolding model_for_def with_ok_Inr Let_def by (auto dest: required_count_pos required_duration_pos)

lemma effects_config_bounded: "effects_config x p = Inr e \<Longrightarrow> 1 \<le> ef_rounds e \<and> ef_back_label e \<noteq> ''''"
  unfolding effects_config_def with_ok_Inr by (auto simp: required_Inr dest: required_count_pos)

lemma lease_ttl_pos: "lease_ttl x p = Inr d \<Longrightarrow> 0 < d"
  unfolding lease_ttl_def by (rule required_duration_pos)

lemma delivery_deps_bounded: "delivery_deps x p c t v = Inr v' \<Longrightarrow> delivery_bounded v'"
  unfolding delivery_deps_def with_ok_Inr implement_model_def
  by (auto simp: delivery_bounded_def params_bounded_def
      dest!: delivery_config_bounded model_for_bounded effects_config_bounded lease_ttl_pos)

lemma implement_deps_bounded: "implement_deps x p c tr = Inr v \<Longrightarrow> delivery_bounded (ie_params v) \<and> ie_prefix v \<noteq> ''''"
  by (auto simp: implement_deps_def implement_config_def with_ok_Inr required_Inr Let_def
      dest: delivery_deps_bounded split: option.splits if_splits)

lemma revise_deps_bounded: "revise_deps x p c tr = Inr v \<Longrightarrow> delivery_bounded (rx_params v) \<and> 0 \<le> rx_replays v"
  by (auto simp: revise_deps_def replay_bound_def with_ok_Inr natural_number_Inr
      dest: delivery_deps_bounded split: option.splits)

lemma review_deps_bounded: "review_deps x p c tr = Inr v \<Longrightarrow> 1 \<le> ve_bound v \<and> 0 < ve_tier_wait v \<and> 1 \<le> ve_rounds v \<and> tr \<noteq> None"
  unfolding review_deps_def review_model_def with_ok_Inr
  by (auto simp: with_ok_Inr dest: model_for_bounded effects_config_bounded split: option.splits)

text \<open>A pool that can revise can implement, and every kind of it is bounded.\<close>

definition kinds_bounded :: "deps \<Rightarrow> bool" where
  "kinds_bounded ks \<longleftrightarrow>
     de_review ks \<noteq> None \<and> (de_revise ks \<noteq> None \<longrightarrow> de_implement ks \<noteq> None) \<and>
     pred_option (\<lambda>v. 1 \<le> ve_bound v \<and> 0 < ve_tier_wait v \<and> 1 \<le> ve_rounds v) (de_review ks) \<and>
     pred_option (\<lambda>v. delivery_bounded (ie_params v) \<and> ie_prefix v \<noteq> '''') (de_implement ks) \<and>
     pred_option (\<lambda>v. delivery_bounded (rx_params v) \<and> 0 \<le> rx_replays v) (de_revise ks)"

lemma work_kinds_bounded: "work_kinds x p c tr = Inr ks \<Longrightarrow> kinds_bounded ks \<and> tr \<noteq> None"
  unfolding work_kinds_def with_ok_Inr
  by (auto simp: kinds_bounded_def with_ok_Inr split: if_splits
      dest!: review_deps_bounded implement_deps_bounded revise_deps_bounded)


subsection \<open>The pool that is made of it\<close>

lemma budget_config_aged:
  "budget_config x p = Inr (Some b) \<Longrightarrow> require_budget_age x p = Inr () \<Longrightarrow> 0 < ob_max_age (observer_of b)"
  unfolding budget_config_def require_budget_age_def Let_def with_ok_Inr
  by (auto simp: with_ok_Inr refused_if_Inr duration_Inr observer_of_def split: if_splits)

text \<open>Each window is waived at most once.\<close>

lemma set_waivers_once: "set_waivers x vs ws = Inr ws' \<Longrightarrow> distinct (map wv_window ws) \<Longrightarrow> distinct (map wv_window ws')"
  by (induction vs arbitrary: ws) (auto simp: set_waiver_def no_duplicate_waiver_def with_ok_Inr refused_if_Inr)

lemma budget_config_once:
  "budget_config x p = Inr (Some b) \<Longrightarrow> distinct (map wv_window (fl_budget_waive p)) \<Longrightarrow> distinct (map wv_window (ob_waivers (observer_of b)))"
  unfolding budget_config_def waivers_from_def Let_def with_ok_Inr
  by (auto simp: with_ok_Inr observer_of_def split: if_splits sum.splits dest: set_waivers_once)

lemma notify_config_counts: "notify_config x p = Inr (Some n) \<Longrightarrow> 1 \<le> nt_tier_after (notifier_of n)"
  unfolding notify_config_def Let_def
  by (auto simp: with_ok_Inr whole_number_Inr notifier_of_def split: if_splits)

lemma tracker_config_repo: "tracker_config x p = Inr (Some t) \<Longrightarrow> optional x (fl_repo p) ''AFK_REPO'' = tp_repo t \<and> tp_repo t \<noteq> ''''"
  unfolding tracker_config_def Let_def
  by (auto simp: with_ok_Inr sum_case_Inr split: if_splits)

definition queue_valid :: "review_queue \<Rightarrow> bool" where
  "queue_valid q \<longleftrightarrow> 0 \<le> qu_limit q \<and> (qu_revise q = '''' \<or> qu_revise q = KindRevise) \<and> (qu_limit q = 0 \<or> qu_label q \<noteq> '''')"

lemma unattended_with_queue: "queue_valid q \<Longrightarrow> unattended_error ((unattended_for lbl)\<lparr>un_queue := q\<rparr>) = None"
  by (auto simp: queue_valid_def unattended_error_def unattended_for_def kind_valid_def)

lemma queue_config_valid: "queue_config x p = Inr q \<Longrightarrow> queue_valid q"
  by (auto simp: queue_config_def Let_def queue_valid_def no_queue_def with_ok_Inr whole_number_Inr split: if_splits)

lemma taking_config_valid: "taking_config x p = Inr u \<Longrightarrow> unattended_error u = None"
  unfolding taking_config_def Let_def with_ok_Inr
  by (auto simp: unattended_with_queue dest!: queue_config_valid) (simp add: unattended_error_def no_unattended_def)

lemma command_login_Inr: "command_login c = Inr l \<longleftrightarrow> xw_login c = Inr l"
  by (auto simp: command_login_def tracker_login_def split: sum.splits)

lemma pool_config_bounded: "pool_config x p = Inr pc \<Longrightarrow> 1 \<le> pc_workers pc \<and> 0 < pc_poll pc \<and> 0 < pc_token_wait pc"
  unfolding pool_config_def with_ok_Inr by (auto dest: required_count_pos required_duration_pos)

lemma resolve_store_lease: "resolve_store x p c = Inr so \<Longrightarrow> 0 < so_lease so"
  unfolding resolve_store_def with_ok_Inr by (auto split: option.splits dest: lease_ttl_pos)

lemma commands_valid: "c \<in> set commands \<Longrightarrow> command_error c = None"
  by (auto simp: commands_def command_error_def review_word_def implement_word_def revise_word_def has_prefix_def
      subject_type_valid_def kind_valid_def SubjectIssue_def SubjectPR_def review_start_def Start_state_def)

lemma first_intake_error_None: "first_error f xs = None \<longleftrightarrow> (\<forall>x\<in>set xs. f x = None)"
  by (induction xs) (auto split: option.splits)

lemma narrowed_valid:
  assumes "new_intake c tr lease u = Inr (Some i)" and "unattended_error u = None" and "0 < lease"
    and "xw_holder c \<noteq> ''''" and "xw_login c \<noteq> Inr ''''" and "in_tracker (xw_intake c) \<noteq> None"
  shows "intake_validate (narrowed r i) = None"
proof -
  have "unattended_error no_unattended = None" by (simp add: unattended_error_def no_unattended_def)
  moreover have "first_error command_error (runnable commands r) = None"
    using commands_valid by (auto simp: first_intake_error_None runnable_def)
  ultimately show ?thesis
    using assms by (auto simp: new_intake_def narrowed_def intake_validate_def with_ok_Inr command_login_Inr split: option.splits)
qed

text \<open>The only token a transition takes is the heavy build's, and only the kinds that deliver take it.\<close>

lemma unknown_tokens_from: "unknown_tokens q ts = Some e \<Longrightarrow> \<exists>t\<in>set ts. \<exists>tok\<in>set (t_tokens t). p_capacity q tok = None"
proof (induction ts)
  case (Cons t ts)
  show ?case
  proof (cases "pool_known q (t_tokens t)")
    case None
    then show ?thesis using Cons by auto
  next
    case (Some tok)
    then have "tok \<in> set (t_tokens t) \<and> p_capacity q tok = None"
      by (auto simp: pool_known_def find_Some_iff)
    then show ?thesis by auto
  qed
qed simp

lemma catalogue_tokens:
  assumes "t \<in> set (catalogue_list runs (Some ks))" and "tok \<in> set (t_tokens t)" and "de_revise ks \<noteq> None \<Longrightarrow> de_implement ks \<noteq> None"
  shows "tok = heavy_build \<and> de_implement ks \<noteq> None"
proof -
  obtain k where k: "k \<in> set all_kinds" "configured (Some ks) k" "t \<in> set (kind_list runs k)"
    using assms(1) by (auto simp: catalogue_from)
  have "tok = heavy_build" using k(3) assms(2) tokens_given by (fastforce simp: kind_list_def)
  moreover have "k \<noteq> KindReview" using k(3) assms(2) by (auto simp: kind_list_def kind_entries_def)
  ultimately show ?thesis using k assms(3) by (auto simp: all_kinds_def configured_def)
qed

lemma registry_all_set: "new_registry ts = Inr r \<Longrightarrow> set (registry_all r) = set ts"
  using new_registry_indexes [of ts r] by (simp add: registry_all_def indexes_def comp_def)


text \<open>What an accepted command line came to, part by part.\<close>

lemma work_setup_parts:
  assumes "work_setup x p c fs = Inr (Some w)"
  obtains pc q b n t u so ks r i where
    "pool_config x p = Inr pc" and "new_pool (pc_capacity pc) = Inr q" and "require_budget_age x p = Inr ()"
    and "budget_config x p = Inr b" and "notify_config x p = Inr n" and "tracker_config x p = Inr (Some t)"
    and "taking_config x p = Inr u" and "resolve_store x p c = Inr so" and "work_kinds x p c (Some t) = Inr ks"
    and "new_registry (catalogue_list (xw_runs c) (Some ks)) = Inr r"
    and "new_intake c (Some t) (so_lease so) u = Inr (Some i)"
    and "wo_dispatcher w = (xw_dispatcher c)\<lparr>dp_store := True, dp_registry := Some r, dp_pool := Some q,
             dp_holder := xw_holder c, dp_workers := pc_workers pc, dp_lease_ttl := so_lease so, dp_poll := pc_poll pc,
             dp_token_wait := pc_token_wait pc,
             dp_backoff := map_option (\<lambda>policy. backs_off policy (xw_now c)) (so_backoff so)\<rparr>"
    and "wo_observer w = map_option observer_of b" and "wo_notifier w = map_option notifier_of n"
    and "wo_kinds w = ks" and "wo_intake w = Some (narrowed r i)"
proof -
  from assms obtain pc q b n tr u so ks where s:
      "pool_config x p = Inr pc" "new_pool (pc_capacity pc) = Inr q" "require_budget_age x p = Inr ()"
      "budget_config x p = Inr b" "notify_config x p = Inr n" "tracker_config x p = Inr tr"
      "taking_config x p = Inr u" "resolve_store x p c = Inr so" "work_kinds x p c tr = Inr ks"
    by (auto simp: work_setup_def with_ok_Inr sum_case_Inr)
  obtain t where t: "tr = Some t" using work_kinds_bounded [OF s(9)] by auto
  obtain r where r: "new_registry (catalogue_list (xw_runs c) (Some ks)) = Inr r" using catalogue_registers by blast
  from assms s r t obtain j where j: "new_intake c (Some t) (so_lease so) u = Inr j"
    and w: "w = \<lparr>wo_dispatcher = (xw_dispatcher c)\<lparr>dp_store := True, dp_registry := Some r, dp_pool := Some q,
             dp_holder := xw_holder c, dp_workers := pc_workers pc, dp_lease_ttl := so_lease so, dp_poll := pc_poll pc,
             dp_token_wait := pc_token_wait pc,
             dp_backoff := map_option (\<lambda>policy. backs_off policy (xw_now c)) (so_backoff so)\<rparr>,
           wo_observer = map_option observer_of b, wo_notifier = map_option notifier_of n, wo_kinds = ks,
           wo_intake = map_option (narrowed r) j\<rparr>"
    by (auto simp: work_setup_def with_ok_Inr sum_case_Inr must_registry_def)
  obtain i where i: "j = Some i" using j by (auto simp: new_intake_def with_ok_Inr)
  show ?thesis by (rule that [OF s(1-5) s(6) [unfolded t] s(7,8) s(9) [unfolded t] r j [unfolded i]]) (simp_all add: w i)
qed

lemma work_never_panics: "work_setup x p c fs \<noteq> Inr None"
proof
  assume "work_setup x p c fs = Inr None"
  then obtain ks where "must_registry (catalogue_list (xw_runs c) (Some ks)) = None"
    by (auto simp: work_setup_def with_ok_Inr sum_case_Inr split: option.split_asm)
  then show False using catalogue_registers [of "xw_runs c" "Some ks"] by (auto simp: must_registry_def)
qed

text \<open>Without a repository the pool does not start: the review's dependencies refuse it.\<close>

lemma work_needs_repo: "work_setup x p c fs = Inr w \<Longrightarrow> optional x (fl_repo p) ''AFK_REPO'' \<noteq> ''''"
proof -
  assume a: "work_setup x p c fs = Inr w"
  then obtain v where "w = Some v" using work_never_panics by (cases w) auto
  with a obtain t where "tracker_config x p = Inr (Some t)" by (auto elim: work_setup_parts)
  then show ?thesis using tracker_config_repo by auto
qed



subsection \<open>A pool that implements\<close>

definition example_cli_process :: process where
  "example_cli_process =
     \<lparr>xe_getenv = (\<lambda>_. ''''), xe_read = (\<lambda>_. Inr ''PEM''),
      xe_duration = (\<lambda>s. if s = ''1m'' then Some (60 * second) else if s = ''1h'' then Some (3600 * second) else None),
      xe_duration_text = (\<lambda>_. ''''), xe_float = (\<lambda>_. None), xe_time = (\<lambda>_. None), xe_time_text = (\<lambda>_. ''''),
      xe_url = (\<lambda>_. None), xe_quote = (\<lambda>s. s), xe_pem = (\<lambda>_. Some \<lparr>pb_type = ''RSA PRIVATE KEY'', pb_bytes = ''key''\<rparr>),
      xe_pkcs1 = (\<lambda>_. True), xe_pkcs8 = (\<lambda>_. None), xe_glob_text = (\<lambda>_. ''''), xe_sensitive_text = (\<lambda>_. '''')\<rparr>"

definition example_params :: params where
  "example_params =
     \<lparr>fl_store = ''jobs.db'', fl_lease = ''1h'', fl_retry = '''', fl_max_attempts = '''', fl_workers = ''2'',
      fl_poll = ''1m'', fl_token_wait = ''1m'', fl_tokens = [(''heavy-build'', 1)], fl_budget_key = '''',
      fl_budget_age = '''', fl_budget_at = '''', fl_budget_waive = [], fl_notify_url = '''',
      fl_notify_key = '''', fl_tier_notify_after = '''', fl_repo = ''o/r'', fl_app_id = ''7'',
      fl_app_key = ''app.pem'', fl_eligibility_label = ''agent'', fl_review_queue_limit = '''',
      fl_branch_prefix = ''afk/'', fl_gate = ''make check'', fl_implement_tier = ''high'',
      fl_implement_needs = '''', fl_gate_attempts = ''3'', fl_hand_off_label = ''ready'',
      fl_denylist = ''secrets/**, *.pem'', fl_ci_wait = ''1m'', fl_ci_ceiling = ''1h'', fl_ci_fixes = ''2'',
      fl_size_signal = ''400'', fl_fresh_session_at = ''0'', fl_replays = '''', fl_review_procedure = '''',
      fl_sensitive = '''', fl_opencode = ''opencode'', fl_enrolment = ''enrolment.json'',
      fl_catalogue_age = '''', fl_review_tier = ''high'', fl_review_needs = '''', fl_model_attempts = ''2'',
      fl_tier_wait = ''1m'', fl_model_timeout = ''1h'', fl_review_floor = '''', fl_review_fold_cut = '''',
      fl_effect_rounds = ''3'', fl_hand_back_label = ''stuck''\<rparr>"

definition example_delivery :: delivery_params where
  "example_delivery = \<lparr>dp_gate_command = ''make check'', dp_attempts = 3, dp_off_label = ''ready'',
     dp_denylist = [''secrets/**'', ''*.pem''], dp_ci_wait = 60 * second, dp_ci_ceiling = 3600 * second, dp_ci_fixes = 2,
     dp_size_signal = 400, dp_fresh_at = 0, dp_sensitive_paths = []\<rparr>"

definition example_model :: model_params where
  "example_model = \<lparr>mo_opencode = ''opencode'', mo_enrolment = ''enrolment.json'', mo_catalogue_age = 0, mo_tier = ''high'',
     mo_needs = [], mo_attempts = 2, mo_tier_wait = 60 * second, mo_timeout = 3600 * second\<rparr>"

lemma example_configs:
  "pool_config example_cli_process example_params = Inr \<lparr>pc_workers = 2, pc_poll = 60 * second, pc_token_wait = 60 * second,
     pc_capacity = [(''heavy-build'', 1)]\<rparr>"
  "require_budget_age example_cli_process example_params = Inr ()"
  "notify_config example_cli_process example_params = Inr None"
  "tracker_config example_cli_process example_params = Inr (Some \<lparr>tp_repo = ''o/r'', tp_app_id = ''7'', tp_key = ''key''\<rparr>)"
  "taking_config example_cli_process example_params = Inr (unattended_for ''agent'')"
  "store_path example_cli_process example_params = Inr ''jobs.db''"
  "lease_ttl example_cli_process example_params = Inr (3600 * second)"
  "backoff_policy example_cli_process example_params = Inr None"
  "delivery_config example_cli_process example_params = Inr example_delivery"
  "review_model example_cli_process example_params = Inr example_model"
  "implement_model example_cli_process example_params = Inr example_model"
  "effects_config example_cli_process example_params = Inr \<lparr>ef_rounds = 3, ef_back_label = ''stuck''\<rparr>"
  "review_config example_cli_process example_params = Inr \<lparr>rf_floor = '''', rf_fold_cut = 0\<rparr>"
  "implement_config example_cli_process example_params = Inr \<lparr>im_prefix = ''afk/'', im_procedure = ''''\<rparr>"
  by code_simp+

lemma example_budget: "budget_config example_cli_process example_params = Inr None"
  by (simp add: budget_config_def waivers_from_def optional_def example_params_def example_cli_process_def listed_def trim_space_def)


definition example_command_env :: "command_env \<Rightarrow> command_env" where
  "example_command_env c = c\<lparr>xw_open := (\<lambda>_. None), xw_login := Inr ''afk[bot]'', xw_holder := ''host[1]'',
     xw_intake := example_intake\<rparr>"

lemma example_work:
  "\<exists>w q. work_setup example_cli_process example_params (example_command_env c) (Inr []) = Inr (Some w) \<and>
     dp_token_wait (wo_dispatcher w) = 60 * second \<and> dp_lease_ttl (wo_dispatcher w) = 3600 * second \<and>
     dp_pool (wo_dispatcher w) = Some q \<and> p_capacity q heavy_build \<noteq> None \<and>
     map_option (\<lambda>v. dl_denylist (ie_params v)) (de_implement (wo_kinds w)) = Some [''secrets/**'', ''*.pem'']"
proof -
  let ?c = "example_command_env c"
  have login: "command_login ?c = Inr ''afk[bot]''" by (simp add: command_login_Inr example_command_env_def)
  have store: "resolver_config example_cli_process example_params = Inr (None, ''jobs.db'')"
    by (simp add: resolver_config_def example_budget example_configs)
  have opt: "optional example_cli_process (fl_branch_prefix example_params) ''AFK_BRANCH_PREFIX'' = ''afk/''"
    "optional example_cli_process (fl_replays example_params) ''AFK_REPLAYS'' = ''''"
    by (simp_all add: optional_def example_params_def example_cli_process_def)
  obtain rv im where kinds: "work_kinds example_cli_process example_params ?c
      (Some \<lparr>tp_repo = ''o/r'', tp_app_id = ''7'', tp_key = ''key''\<rparr>) =
        Inr \<lparr>de_review = Some rv, de_implement = Some im, de_revise = None\<rparr>"
    and deny: "dl_denylist (ie_params im) = [''secrets/**'', ''*.pem'']"
    by (simp add: work_kinds_def review_deps_def implement_deps_def delivery_deps_def example_configs login store opt
        example_delivery_def)
  obtain r where r: "must_registry (catalogue_list (xw_runs ?c) (Some \<lparr>de_review = Some rv, de_implement = Some im, de_revise = None\<rparr>)) = Some r"
    using catalogue_must by blast
  have st: "resolve_store example_cli_process example_params ?c = Inr \<lparr>so_path = ''jobs.db'', so_lease = 3600 * second, so_backoff = None\<rparr>"
    by (simp add: resolve_store_def example_configs example_command_env_def)
  show ?thesis
    using r deny
    by (simp add: work_setup_def flags_ok_def example_configs example_budget kinds st new_intake_def login new_pool_def
        heavy_build_def del: One_nat_def)
qed


end
