(* ===== verification/Hardened.thy ===== *)
theory Hardened
  imports Afk_Strings Descriptions
begin

text \<open>
  Running git in a workspace, \<^verbatim>\<open>internal/work/hardened.go\<close>: the configuration there is the model's
  to write, so every program it names - a hook, an fsmonitor, a filter driver - is overridden in the
  environment of the git process. What git makes of its environment is not modelled; that the last
  value of a key set there wins over the repository's is what the code relies on.
\<close>

subsection \<open>The filter drivers a workspace defines\<close>

text \<open>What \<^verbatim>\<open>git config --get-regexp\<close> came to: its output, no key matching, or an error.\<close>

datatype config_read = ConfigKeys string | ConfigNone | ConfigError string

definition driver_of :: "string \<Rightarrow> string option" where
  "driver_of key =
     (case cut_prefix key ''filter.'' of
        None \<Rightarrow> None
      | Some r \<Rightarrow>
          (case last_index_of r ''.'' of
             None \<Rightarrow> None
           | Some i \<Rightarrow> if i = 0 then None else Some (take i r)))"

fun distinct_drivers :: "string list \<Rightarrow> string list \<Rightarrow> string list" where
  "distinct_drivers seen [] = []"
| "distinct_drivers seen (key # keys) =
     (case driver_of key of
        None \<Rightarrow> distinct_drivers seen keys
      | Some d \<Rightarrow>
          if d \<in> set seen then distinct_drivers seen keys
          else d # distinct_drivers (d # seen) keys)"

definition filter_drivers :: "string option \<Rightarrow> config_read \<Rightarrow> string + string list" where
  "filter_drivers cancelled r =
     (case cancelled of
        Some e \<Rightarrow> Inl e
      | None \<Rightarrow>
          (case r of
             ConfigNone \<Rightarrow> Inr []
           | ConfigError e \<Rightarrow> Inl e
           | ConfigKeys out \<Rightarrow> Inr (distinct_drivers [] (split_on (CHR 0x00) out))))"

subsection \<open>The environment\<close>

definition dev_null :: string where "dev_null = ''/dev/null''"

definition git_isolated :: "string list" where
  "git_isolated = [''GIT_CONFIG_GLOBAL='' @ dev_null, ''GIT_CONFIG_NOSYSTEM=1'']"

definition fixed_overrides :: "(string \<times> string) list" where
  "fixed_overrides =
     [(''core.hooksPath'', dev_null), (''core.fsmonitor'', ''false''), (''core.alternateRefsCommand'', ''true''),
      (''submodule.recurse'', ''false''), (''fetch.recurseSubmodules'', ''false'')]"

definition driver_overrides :: "string \<Rightarrow> (string \<times> string) list" where
  "driver_overrides name =
     map (\<lambda>key. (''filter.'' @ name @ ''.'' @ key, '''')) [''clean'', ''smudge'', ''process''] @
     [(''filter.'' @ name @ ''.required'', ''false'')]"

definition overrides_for :: "string list \<Rightarrow> (string \<times> string) list" where
  "overrides_for drivers = fixed_overrides @ concat (map driver_overrides drivers)"

fun numbered_config :: "int \<Rightarrow> (string \<times> string) list \<Rightarrow> string list" where
  "numbered_config i [] = []"
| "numbered_config i ((k, x) # os) =
     (''GIT_CONFIG_KEY_'' @ dec i @ ''='' @ k) # (''GIT_CONFIG_VALUE_'' @ dec i @ ''='' @ x) # numbered_config (i + 1) os"

definition config_env :: "(string \<times> string) list \<Rightarrow> string list" where
  "config_env os = (''GIT_CONFIG_COUNT='' @ dec (int (length os))) # numbered_config 0 os"

definition hardened :: "string option \<Rightarrow> config_read \<Rightarrow> string + string list" where
  "hardened cancelled r =
     map_sum id (\<lambda>drivers. git_isolated @ [''GIT_ALLOW_PROTOCOL=file''] @ config_env (overrides_for drivers))
       (filter_drivers cancelled r)"

text \<open>One git command in a workspace: its environment is hardened, or it is not run.\<close>

definition in_workspace :: "string option \<Rightarrow> config_read \<Rightarrow> (string list \<Rightarrow> string list \<Rightarrow> string + string) \<Rightarrow>
    string list \<Rightarrow> string + string" where
  "in_workspace cancelled r git args =
     (case hardened cancelled r of Inl e \<Rightarrow> Inl e | Inr env \<Rightarrow> git env args)"

subsection \<open>Every driver is overridden\<close>

lemma distinct_drivers_all: "set (distinct_drivers seen keys) = {d. \<exists>key\<in>set keys. driver_of key = Some d} - set seen"
  by (induction seen keys rule: distinct_drivers.induct) (auto split: option.split)

lemma last_dot: "CHR ''.'' \<notin> set var \<Longrightarrow> last_index_of (name @ ''.'' @ var) ''.'' = Some (length name)"
proof (induction name)
  case Nil
  have "last_index_of var ''.'' = None"
    using Nil by (auto simp: last_index_of_None_iff contains_iff)
  then show ?case by (simp add: has_prefix_def)
qed simp

lemma driver_named: "CHR ''.'' \<notin> set var \<Longrightarrow> name \<noteq> '''' \<Longrightarrow> driver_of (''filter.'' @ name @ ''.'' @ var) = Some name"
proof -
  assume v: "CHR ''.'' \<notin> set var" and n: "name \<noteq> ''''"
  have "cut_prefix (''filter.'' @ name @ ''.'' @ var) ''filter.'' = Some (name @ ''.'' @ var)"
    unfolding cut_prefix_Some by (rule refl)
  with last_dot [OF v, of name] n show ?thesis by (simp add: driver_of_def)
qed

lemma numbered_pairs:
  "k < length os \<Longrightarrow> ''GIT_CONFIG_KEY_'' @ dec (i + int k) @ ''='' @ fst (os ! k) \<in> set (numbered_config i os) \<and>
     ''GIT_CONFIG_VALUE_'' @ dec (i + int k) @ ''='' @ snd (os ! k) \<in> set (numbered_config i os)"
proof (induction i os arbitrary: k rule: numbered_config.induct)
  case (2 i a b os)
  show ?case
  proof (cases k)
    case (Suc m)
    with 2 have "m < length os" by simp
    from 2(1) [OF this] Suc show ?thesis by (simp add: add.assoc)
  qed simp
qed simp

text \<open>What git reads of the overrides: how many there are, and each pair by its number.\<close>

definition reads_as :: "string list \<Rightarrow> (string \<times> string) list \<Rightarrow> bool" where
  "reads_as env os \<longleftrightarrow> ''GIT_CONFIG_COUNT='' @ dec (int (length os)) \<in> set env \<and>
     (\<forall>k<length os. ''GIT_CONFIG_KEY_'' @ dec (int k) @ ''='' @ fst (os ! k) \<in> set env \<and>
       ''GIT_CONFIG_VALUE_'' @ dec (int k) @ ''='' @ snd (os ! k) \<in> set env)"

lemma reads_config: "set (config_env os) \<subseteq> set env \<Longrightarrow> reads_as env os"
  unfolding reads_as_def config_env_def using numbered_pairs [of _ os 0] by auto

lemma fixed_keys: "(k, x) \<in> set fixed_overrides \<Longrightarrow> \<not> has_prefix k ''filter.''"
  by (auto simp: fixed_overrides_def has_prefix_def)

text \<open>A command of a driver is overridden by nothing but the empty command.\<close>

lemma command_emptied:
  assumes "(''filter.'' @ name @ ''.'' @ cmd, x) \<in> set (overrides_for drivers)" and "cmd \<in> {''clean'', ''smudge'', ''process''}"
  shows "x = ''''"
proof -
  have "\<not> (''filter.'' @ name @ ''.'' @ cmd, x) \<in> set fixed_overrides"
    using fixed_keys by (force simp: has_prefix_def)
  with assms(1) obtain n where "(''filter.'' @ name @ ''.'' @ cmd, x) \<in> set (driver_overrides n)"
    by (auto simp: overrides_for_def)
  then have "x = '''' \<or> name @ ''.'' @ cmd = n @ ''.required''" by (auto simp: driver_overrides_def)
  moreover have "rev (name @ ''.'' @ cmd) \<noteq> rev (n @ ''.required'')" using assms(2) by auto
  ultimately show ?thesis by metis
qed



end
