(* ===== verification/Git_Remote.thy ===== *)
theory Git_Remote
  imports Hardened Review
begin

text \<open>
  Running git, \<^verbatim>\<open>internal/git/git.go\<close>, and the checkout a review is made in, \<^verbatim>\<open>internal/review/git.go\<close>: the
  errors, the environment a process that reaches the remote is given, the directories it is never run
  in, and the token that is told to have been refused. The process itself, the filesystem's resolving
  of a path and base64 are parameters.
\<close>

subsection \<open>One command\<close>

text \<open>What a git process came to: its output, or how it ended and what it printed.\<close>

datatype git_ended = GitDone string | GitFailed string string

text \<open>The command its arguments run: the first that is not an option to git itself.\<close>

fun git_command :: "string list \<Rightarrow> string" where
  "git_command [] = ''''"
| "git_command (a # as) =
     (if a = ''-c'' \<or> a = ''-C'' then (case as of [] \<Rightarrow> '''' | _ # rest \<Rightarrow> git_command rest)
      else if \<not> has_prefix a ''-'' then a else git_command as)"

definition git_error :: "string list \<Rightarrow> string \<Rightarrow> string \<Rightarrow> string" where
  "git_error args err printed = ''git '' @ git_command args @ '': '' @ err @ '': '' @ trim_space printed"

text \<open>For output that is read, trimmed; and for output that is parsed, as git wrote it.\<close>

definition run_env :: "(string \<Rightarrow> string list \<Rightarrow> string list \<Rightarrow> git_ended) \<Rightarrow> string \<Rightarrow> string list \<Rightarrow> string list \<Rightarrow> string + string" where
  "run_env git dir env args =
     (case git dir (''GIT_TERMINAL_PROMPT=0'' # env) args of
        GitDone out \<Rightarrow> Inr (trim_space out) | GitFailed e printed \<Rightarrow> Inl (git_error args e printed))"

definition git_output :: "(string \<Rightarrow> string list \<Rightarrow> string list \<Rightarrow> git_ended) \<Rightarrow> string \<Rightarrow> string list \<Rightarrow> string list \<Rightarrow> string + string" where
  "git_output git dir env args =
     (case git dir (''GIT_TERMINAL_PROMPT=0'' # env) args of
        GitDone out \<Rightarrow> Inr out | GitFailed e printed \<Rightarrow> Inl (git_error args e printed))"

subsection \<open>The remote\<close>

text \<open>\<open>gm_token\<close> is what asking for a token answers, \<open>gm_refused\<close> whether anyone is told of a refusal.\<close>

record git_remote =
  gm_url :: string
  gm_token :: "(string + string) option"
  gm_refused :: bool
  gm_untrusted :: "string list"

definition refused_line :: string where
  "refused_line = ''afk: the remote refused the token''"

definition remote_base :: "string list" where
  "remote_base = ''GIT_TERMINAL_PROMPT=0'' # git_isolated"

definition token_config :: "(string \<Rightarrow> string) \<Rightarrow> git_remote \<Rightarrow> string \<Rightarrow> (string \<times> string) list" where
  "token_config b64 r token =
     [(''http.'' @ gm_url r @ ''.extraheader'', ''Authorization: Basic '' @ b64 (''x-access-token:'' @ token)),
      (''credential.'' @ gm_url r @ ''.helper'', ''!echo '' @ [CHR 0x27] @ refused_line @ [CHR 0x27] @ '' >&2; :'')]"

text \<open>The environment, and the token it carries: empty if none.\<close>

definition remote_env :: "(string \<Rightarrow> string) \<Rightarrow> git_remote \<Rightarrow> string + string list \<times> string" where
  "remote_env b64 r =
     (case gm_token r of
        None \<Rightarrow> Inr (remote_base, '''')
      | Some (Inl e) \<Rightarrow> Inl e
      | Some (Inr token) \<Rightarrow>
          if token = '''' then Inr (remote_base, '''')
          else Inr (remote_base @ config_env (token_config b64 r token), token))"

text \<open>\<^verbatim>\<open>filepath.Rel\<close> of two absolute, clean paths.\<close>

definition path_parts :: "string \<Rightarrow> string list" where
  "path_parts p = filter (\<lambda>s. s \<noteq> '''') (split_on (CHR ''/'') p)"

fun rel_parts :: "string list \<Rightarrow> string list \<Rightarrow> string list" where
  "rel_parts (b # bs) (t # ts) = (if b = t then rel_parts bs ts else map (\<lambda>_. ''..'') (b # bs) @ t # ts)"
| "rel_parts bs ts = map (\<lambda>_. ''..'') bs @ ts"

definition file_rel :: "string \<Rightarrow> string \<Rightarrow> string" where
  "file_rel base targ =
     (let ps = rel_parts (path_parts base) (path_parts targ) in if ps = [] then ''.'' else join ps ''/'')"

fun untrusted_root :: "(string \<Rightarrow> string + string) \<Rightarrow> string \<Rightarrow> string \<Rightarrow> string list \<Rightarrow> string option" where
  "untrusted_root resolved dir here [] = None"
| "untrusted_root resolved dir here (u # us) =
     (case resolved u of
        Inl e \<Rightarrow> Some e
      | Inr rt \<Rightarrow>
          let rel = file_rel rt here in
          if rel \<noteq> ''..'' \<and> \<not> has_prefix rel ''../''
          then Some (''git: refusing to reach the remote from '' @ dir @ '', which is under '' @ u @
            '': its configuration is the model's to write'')
          else untrusted_root resolved dir here us)"

definition remote_trusted :: "(string \<Rightarrow> string + string) \<Rightarrow> git_remote \<Rightarrow> string \<Rightarrow> string option" where
  "remote_trusted resolved r dir =
     (case resolved dir of Inl e \<Rightarrow> Some e | Inr here \<Rightarrow> untrusted_root resolved dir here (gm_untrusted r))"

text \<open>One command that reaches the remote: what it came to, the directory and the environment git was
  run in, if it was, and the token told to have been refused.\<close>

record remote_ran =
  ra_result :: "string + string"
  ra_process :: "(string \<times> string list) option"
  ra_told :: "string option"

definition remote_run :: "(string \<Rightarrow> string) \<Rightarrow> (string \<Rightarrow> string + string) \<Rightarrow> (string \<Rightarrow> string list \<Rightarrow> string list \<Rightarrow> git_ended) \<Rightarrow>
    git_remote \<Rightarrow> string \<Rightarrow> string list \<Rightarrow> remote_ran" where
  "remote_run b64 resolved git r dir args =
     (case remote_env b64 r of
        Inl e \<Rightarrow> \<lparr>ra_result = Inl e, ra_process = None, ra_told = None\<rparr>
      | Inr (env, token) \<Rightarrow>
          let dir = (if dir = '''' then ''/'' else dir) in
          case remote_trusted resolved r dir of
            Some e \<Rightarrow> \<lparr>ra_result = Inl e, ra_process = None, ra_told = None\<rparr>
          | None \<Rightarrow>
              let out = run_env git dir env args in
              \<lparr>ra_result = out, ra_process = Some (dir, env),
               ra_told = (case out of
                  Inl e \<Rightarrow> if token \<noteq> '''' \<and> gm_refused r \<and> contains e refused_line then Some token else None
                | Inr _ \<Rightarrow> None)\<rparr>)"

subsection \<open>Where the token never goes\<close>


lemma rel_parts_prefix [simp]: "rel_parts bs (bs @ rest) = rest"
proof (induction bs)
  case Nil
  then show ?case by (cases rest) simp_all
qed simp

lemma join_Cons: "ps \<noteq> [] \<Longrightarrow> join (p # ps) sep = p @ sep @ join ps sep"
  by (cases ps) simp_all

lemma parts_no_slash: "s \<in> set (path_parts p) \<Longrightarrow> CHR ''/'' \<notin> set s \<and> s \<noteq> ''''"
  using split_on_no_sep by (auto simp: path_parts_def)


lemma up_only_by_name: "CHR ''/'' \<notin> set s \<Longrightarrow> has_prefix (s @ ''/'' @ z) ''../'' \<Longrightarrow> s = ''..''"
  by (cases s; cases "tl s"; cases "tl (tl s)") (auto simp: has_prefix_def)

lemma single_up: "CHR ''/'' \<notin> set s \<Longrightarrow> \<not> has_prefix s ''../''"
  by (cases s; cases "tl s"; cases "tl (tl s)") (auto simp: has_prefix_def)

text \<open>A path in or under another is never reached from it by going up.\<close>

lemma file_rel_under:
  assumes "path_parts targ = path_parts base @ rest" and "''..'' \<notin> set (path_parts targ)"
  shows "file_rel base targ \<noteq> ''..'' \<and> \<not> has_prefix (file_rel base targ) ''../''"
proof (cases rest)
  case Nil
  then show ?thesis using assms by (simp add: file_rel_def rel_parts_prefix [where rest = "[]", simplified] has_prefix_def)
next
  case (Cons s ss)
  have s: "CHR ''/'' \<notin> set s" "s \<noteq> ''..''" using assms Cons parts_no_slash [of s targ] by auto
  have rel: "file_rel base targ = join (s # ss) ''/''" using assms(1) Cons by (simp add: file_rel_def)
  show ?thesis
  proof (cases ss)
    case Nil
    then show ?thesis using rel s single_up by simp
  next
    case (Cons t ts)
    then have j: "file_rel base targ = s @ ''/'' @ join ss ''/''" using rel by (simp add: join_Cons)
    have "file_rel base targ \<noteq> ''..''"
    proof
      assume "file_rel base targ = ''..''"
      then have "CHR ''/'' \<in> set ''..''" by (metis j in_set_conv_decomp append_Cons)
      then show False by simp
    qed
    then show ?thesis using up_only_by_name [OF s(1)] s(2) j by auto
  qed
qed

lemma untrusted_root_None:
  "untrusted_root resolved dir here us = None \<Longrightarrow> u \<in> set us \<Longrightarrow> resolved u = Inr rt \<Longrightarrow>
     file_rel rt here = ''..'' \<or> has_prefix (file_rel rt here) ''../''"
  by (induction us) (auto simp: Let_def split: sum.splits if_splits)

text \<open>C8: Git is never run with the remote's environment in or under a directory whose configuration is
  the model's to write, as the filesystem resolves them, nor in no directory at all; and a token is
  told to be refused only if it was the one the process carried, the process failed, and the agent's
  own line is in what it printed.\<close>

theorem token_stays_out_of_workspaces:
  assumes "ra_process (remote_run b64 resolved git r dir args) = Some (d, env)"
    and "u \<in> set (gm_untrusted r)" and "resolved u = Inr rt" and "resolved d = Inr here" and "''..'' \<notin> set (path_parts here)"
  shows "path_parts here \<noteq> path_parts rt @ rest \<and> d \<noteq> '''' \<and>
    (ra_told (remote_run b64 resolved git r dir args) = Some token \<longrightarrow>
       gm_token r = Some (Inr token) \<and> (\<exists>e. ra_result (remote_run b64 resolved git r dir args) = Inl e \<and> contains e refused_line))"
proof -
  let ?d = "if dir = '''' then ''/'' else dir"
  obtain e t where e: "remote_env b64 r = Inr (e, t)" and tr: "remote_trusted resolved r ?d = None" and d: "d = ?d"
    using assms(1) by (auto simp: remote_run_def Let_def split: sum.split_asm option.split_asm)
  have "untrusted_root resolved d here (gm_untrusted r) = None"
    using tr assms(4) by (simp add: remote_trusted_def d)
  then have "path_parts here \<noteq> path_parts rt @ rest"
    using untrusted_root_None [where resolved = resolved and u = u and rt = rt, OF _ assms(2)] assms(3,5)
      file_rel_under [of here rt rest] by blast
  moreover have "d \<noteq> ''''" by (simp add: d)
  moreover have "ra_told (remote_run b64 resolved git r dir args) = Some token \<longrightarrow>
      gm_token r = Some (Inr token) \<and> (\<exists>e. ra_result (remote_run b64 resolved git r dir args) = Inl e \<and> contains e refused_line)"
    using e tr by (auto simp: remote_run_def remote_env_def Let_def split: sum.splits option.splits if_splits)
  ultimately show ?thesis by blast
qed

definition example_remote :: git_remote where
  "example_remote = \<lparr>gm_url = ''https://github.com/o/r.git'', gm_token = Some (Inr ''t0''), gm_refused = True,
     gm_untrusted = [''/var/lib/afk/workspaces'']\<rparr>"

definition example_git :: "string \<Rightarrow> string list \<Rightarrow> string list \<Rightarrow> git_ended" where
  "example_git dir env args = GitFailed ''exit status 128'' refused_line"

theorem token_stays_out_of_workspaces_witness:
  "path_parts ''/var/lib/afk/relays/x.git'' \<noteq> path_parts ''/var/lib/afk/workspaces'' @ [''x.git''] \<and>
    ra_process (remote_run id Inr example_git example_remote ''/var/lib/afk/relays/x.git'' [''fetch'']) \<noteq> None \<and>
    ra_told (remote_run id Inr example_git example_remote ''/var/lib/afk/relays/x.git'' [''fetch'']) = Some ''t0'' \<and>
    ra_process (remote_run id Inr example_git example_remote ''/var/lib/afk/workspaces/x'' [''fetch'']) = None"
proof -
  have "\<exists>env. ra_process (remote_run id Inr example_git example_remote ''/var/lib/afk/relays/x.git'' [''fetch'']) =
      Some (''/var/lib/afk/relays/x.git'', env)"
    by (simp add: remote_run_def remote_env_def example_remote_def remote_trusted_def Let_def) code_simp
  then obtain env where p: "ra_process (remote_run id Inr example_git example_remote ''/var/lib/afk/relays/x.git'' [''fetch'']) =
      Some (''/var/lib/afk/relays/x.git'', env)" ..
  have u: "''/var/lib/afk/workspaces'' \<in> set (gm_untrusted example_remote)" by (simp add: example_remote_def)
  have c: "''..'' \<notin> set (path_parts ''/var/lib/afk/relays/x.git'')" by code_simp
  have told: "ra_told (remote_run id Inr example_git example_remote ''/var/lib/afk/relays/x.git'' [''fetch'']) = Some ''t0''" by code_simp
  have out: "ra_process (remote_run id Inr example_git example_remote ''/var/lib/afk/workspaces/x'' [''fetch'']) = None" by code_simp
  show ?thesis using token_stays_out_of_workspaces [OF p u refl refl c, of "[''x.git'']"] p told out by simp
qed


subsection \<open>The checkout of a review\<close>

text \<open>A git command run on its own, isolated; one that reaches the remote; or one run hardened in a workspace.\<close>

datatype git_call = LocalGit string "string list" | RemoteGit string "string list" | WorkspaceGit string "string list"

text \<open>Commands in turn, to the first that fails: the last one's output, and those that were run.\<close>

fun in_turn :: "(git_call \<Rightarrow> string + string) \<Rightarrow> git_call list \<Rightarrow> string \<Rightarrow> (string + string) \<times> git_call list" where
  "in_turn git [] out = (Inr out, [])"
| "in_turn git (c # cs) out =
     (case git c of
        Inl e \<Rightarrow> (Inl e, [c])
      | Inr out' \<Rightarrow> (let (r, ran) = in_turn git cs out' in (r, c # ran)))"

definition relay_head :: string where "relay_head = ''refs/afk/head''"

definition checkout_calls :: "string \<Rightarrow> string \<Rightarrow> string \<Rightarrow> int \<Rightarrow> git_call list" where
  "checkout_calls url dir relay number =
     [LocalGit '''' [''init'', ''--quiet'', ''--bare'', relay],
      RemoteGit relay [''fetch'', ''--quiet'', ''--depth=1'', url, ''+refs/pull/'' @ dec number @ ''/head:'' @ relay_head],
      LocalGit dir [''init'', ''--quiet''],
      LocalGit dir [''fetch'', ''--quiet'', ''--depth=1'', relay, relay_head],
      LocalGit dir [''checkout'', ''--quiet'', ''--detach'', ''FETCH_HEAD''],
      LocalGit dir [''rev-parse'', ''HEAD'']]"

text \<open>\<open>absolute\<close> and \<open>remove\<close> are the filesystem's; the relay is removed again whatever was answered.\<close>

definition review_checkout :: "(string \<Rightarrow> string + string) \<Rightarrow> (string \<Rightarrow> string option) \<Rightarrow> (git_call \<Rightarrow> string + string) \<Rightarrow> string \<Rightarrow> string \<Rightarrow>
    string \<Rightarrow> int \<Rightarrow> (string + string) \<times> git_call list" where
  "review_checkout absolute remove git relays url dir number =
     (if relays = '''' then (Inl ''the review's checkout has no directory for its relay'', [])
      else (case absolute (relays @ ''/'' @ last (split_on (CHR ''/'') dir) @ ''.git'') of
          Inl e \<Rightarrow> (Inl e, [])
        | Inr relay \<Rightarrow>
            (case remove relay of
               Some e \<Rightarrow> (Inl e, [])
             | None \<Rightarrow> in_turn git (checkout_calls url dir relay number) '''')))"

lemma in_turn_ran: "set (snd (in_turn git cs out)) \<subseteq> set cs"
  by (induction cs arbitrary: out) (auto split: sum.splits prod.splits dest: subsetD, metis (no_types) snd_conv subsetD)

text \<open>Only the relay is ever fetched into from the remote.\<close>

lemma checkout_reaches_from_relay:
  "RemoteGit d args \<in> set (snd (review_checkout absolute remove git relays url dir number)) \<Longrightarrow>
     absolute (relays @ ''/'' @ last (split_on (CHR ''/'') dir) @ ''.git'') = Inr d"
  by (auto simp: review_checkout_def checkout_calls_def simp del: in_turn.simps
      split: if_splits sum.splits option.splits dest!: in_turn_ran [THEN subsetD])

end
