(* ===== verification/Work_Git.thy ===== *)
theory Work_Git
  imports Git_Remote Work_Steps Premises
begin

text \<open>
  What the delivering kinds ask of git, \<^verbatim>\<open>internal/work/git.go\<close>, and where a job's checkout and its
  relay are, \<^verbatim>\<open>internal/work/workspace.go\<close>: each operation is the commands it runs, in turn, to the
  first that fails. What a command answers is a parameter.
\<close>

subsection \<open>Where a job's files are\<close>

definition ws_under :: "string \<Rightarrow> string \<Rightarrow> string" where
  "ws_under state sub = state @ ''/'' @ sub"

definition workspaces_dir :: "string \<Rightarrow> string" where "workspaces_dir state = ws_under state ''workspaces''"
definition relays_dir :: "string \<Rightarrow> string" where "relays_dir state = ws_under state ''relays''"

definition workspace_dir :: "string \<Rightarrow> string \<Rightarrow> string" where
  "workspace_dir state jid = ws_under (workspaces_dir state) jid"

definition relay_dir :: "string \<Rightarrow> string \<Rightarrow> string" where
  "relay_dir state jid = ws_under (relays_dir state) (jid @ ''.git'')"

definition progress_path :: "string \<Rightarrow> string \<Rightarrow> string" where
  "progress_path state jid = ws_under (ws_under state ''progress'') (jid @ ''.json'')"

definition note_path :: "string \<Rightarrow> string \<Rightarrow> string" where
  "note_path state jid = ws_under (ws_under state ''notes'') (jid @ ''.json'')"

subsection \<open>The operations\<close>

type_synonym git_world = "git_call \<Rightarrow> string + string"
type_synonym 'a git_trace = "(string + 'a) \<times> git_call list"

definition refspec :: "string \<Rightarrow> string \<Rightarrow> string" where
  "refspec a b = ''+'' @ a @ '':'' @ b"

definition branch_ref :: "string \<Rightarrow> string" where
  "branch_ref branch = ''refs/heads/'' @ branch"

definition work_clone :: "git_world \<Rightarrow> string + string \<Rightarrow> string \<Rightarrow> string \<Rightarrow> string git_trace" where
  "work_clone git absolute url dir =
     (case absolute of
        Inl e \<Rightarrow> (Inl e, [])
      | Inr path \<Rightarrow>
          let (r, ran) = in_turn git [RemoteGit '''' [''clone'', ''--quiet'', ''--no-tags'', url, path],
                LocalGit dir [''rev-parse'', ''--abbrev-ref'', ''origin/HEAD'']] '''' in
          (map_sum id (\<lambda>into. case cut_prefix into ''origin/'' of None \<Rightarrow> into | Some b \<Rightarrow> b) r, ran))"

text \<open>The relay is made afresh: \<open>remove\<close> is the error of removing one that is there.\<close>

definition relay_afresh :: "git_world \<Rightarrow> string option \<Rightarrow> string \<Rightarrow> git_call list \<Rightarrow> string git_trace" where
  "relay_afresh git remove relay calls =
     (case remove of
        Some e \<Rightarrow> (Inl e, [])
      | None \<Rightarrow> in_turn git (LocalGit '''' [''init'', ''--quiet'', ''--bare'', relay] # calls) '''')"

definition work_relay :: "git_world \<Rightarrow> string option \<Rightarrow> string \<Rightarrow> string \<Rightarrow> string \<Rightarrow> string git_trace" where
  "work_relay git remove ws relay branch =
     (let r = branch_ref branch in
      relay_afresh git remove relay
        [LocalGit relay [''fetch'', ''--quiet'', ''--no-tags'', ''--force'', ws, refspec r r],
         LocalGit relay [''rev-parse'', r]])"

definition fetch_also_calls :: "string \<Rightarrow> string \<Rightarrow> string \<Rightarrow> git_call list" where
  "fetch_also_calls relay url r =
     [RemoteGit relay [''fetch'', ''--quiet'', ''--no-tags'', ''--force'', url, refspec r r],
      LocalGit relay [''rev-parse'', r]]"

definition work_fetch_into :: "git_world \<Rightarrow> string option \<Rightarrow> string \<Rightarrow> string \<Rightarrow> string \<Rightarrow> string git_trace" where
  "work_fetch_into git remove relay url r = relay_afresh git remove relay (fetch_also_calls relay url r)"

definition work_fetch_also :: "git_world \<Rightarrow> string \<Rightarrow> string \<Rightarrow> string \<Rightarrow> string git_trace" where
  "work_fetch_also git relay url r = in_turn git (fetch_also_calls relay url r) ''''"

definition work_import :: "git_world \<Rightarrow> string \<Rightarrow> string \<Rightarrow> string \<Rightarrow> string \<Rightarrow> string \<Rightarrow> string git_trace" where
  "work_import git relay ws branch r commit1 =
     in_turn git [WorkspaceGit ws [''fetch'', ''--quiet'', ''--no-tags'', ''--force'', relay, refspec r ''refs/afk/import''],
       WorkspaceGit ws [''checkout'', ''--quiet'', ''--force'', ''-B'', branch, commit1]] ''''"

definition work_touched :: "git_world \<Rightarrow> string \<Rightarrow> string \<Rightarrow> string \<Rightarrow> string git_trace" where
  "work_touched git dir base head =
     in_turn git [LocalGit dir [''log'', ''--no-renames'', ''--diff-merges=separate'', ''--name-only'', ''--format='', ''-z'',
       base @ ''..'' @ head]] ''''"

definition work_push :: "git_world \<Rightarrow> string \<Rightarrow> string \<Rightarrow> string \<Rightarrow> string \<Rightarrow> string \<Rightarrow> string git_trace" where
  "work_push git relay url head branch lease =
     (let r = branch_ref branch in
      in_turn git [RemoteGit relay [''-c'', ''core.hooksPath=/dev/null'', ''push'', ''--quiet'', ''--no-verify'',
        ''--force-with-lease='' @ r @ '':'' @ lease, url, head @ '':'' @ r]] '''')"

definition work_remote_head :: "git_world \<Rightarrow> string \<Rightarrow> string \<Rightarrow> string git_trace" where
  "work_remote_head git url branch =
     (let (r, ran) = in_turn git [RemoteGit '''' [''ls-remote'', url, branch_ref branch]] '''' in
      (map_sum id (\<lambda>out. fst (cut out (CHR 0x09))) r, ran))"

text \<open>A question of git: only its own no, an exit of 1 with the context not ended, is no.\<close>

datatype git_exit = ExitZero | ExitOne | ExitOther string

definition git_says :: "string option \<Rightarrow> git_exit \<Rightarrow> string + bool" where
  "git_says ended x =
     (case ended of
        Some e \<Rightarrow> Inl e
      | None \<Rightarrow> (case x of ExitZero \<Rightarrow> Inr True | ExitOne \<Rightarrow> Inr False | ExitOther e \<Rightarrow> Inl e))"

definition ancestor_call :: "string \<Rightarrow> string \<Rightarrow> string \<Rightarrow> git_call" where
  "ancestor_call dir a c = LocalGit dir [''merge-base'', ''--is-ancestor'', a, c]"

definition has_commit_call :: "string \<Rightarrow> string \<Rightarrow> git_call" where
  "has_commit_call dir c = LocalGit dir [''rev-parse'', ''--quiet'', ''--verify'', c @ ''^{commit}'']"

definition work_commits :: "git_world \<Rightarrow> string \<Rightarrow> string \<Rightarrow> int git_trace" where
  "work_commits git dir base =
     (let (r, ran) = in_turn git [WorkspaceGit dir [''rev-list'', ''--count'', base @ ''..HEAD'']] '''' in
      (case r of Inl e \<Rightarrow> Inl e
       | Inr out \<Rightarrow> (case go_atoi out of None \<Rightarrow> Inl (''strconv.Atoi: '' @ out) | Some n \<Rightarrow> Inr n), ran))"

definition work_uncommitted :: "git_world \<Rightarrow> string \<Rightarrow> string git_trace" where
  "work_uncommitted git dir = in_turn git [WorkspaceGit dir [''status'', ''--porcelain'', ''--untracked-files=no'']] ''''"

definition clean_call :: "string \<Rightarrow> git_call" where
  "clean_call dir = WorkspaceGit dir [''clean'', ''--quiet'', ''--force'', ''-d'']"

definition work_reset :: "git_world \<Rightarrow> string \<Rightarrow> string \<Rightarrow> string git_trace" where
  "work_reset git dir base = in_turn git [WorkspaceGit dir [''reset'', ''--quiet'', ''--hard'', base], clean_call dir] ''''"

definition work_restore :: "git_world \<Rightarrow> string \<Rightarrow> string \<Rightarrow> string \<Rightarrow> string git_trace" where
  "work_restore git dir branch commit1 =
     in_turn git [WorkspaceGit dir [''checkout'', ''--quiet'', ''--force'', ''-B'', branch, commit1], clean_call dir] ''''"

definition work_branch_of :: "git_world \<Rightarrow> string \<Rightarrow> string git_trace" where
  "work_branch_of git dir = in_turn git [WorkspaceGit dir [''rev-parse'', ''--abbrev-ref'', ''HEAD'']] ''''"

definition work_merge_base :: "git_world \<Rightarrow> string \<Rightarrow> string \<Rightarrow> string \<Rightarrow> string git_trace" where
  "work_merge_base git dir into head = in_turn git [LocalGit dir [''merge-base'', into, head]] ''''"

definition work_diff :: "git_world \<Rightarrow> string \<Rightarrow> string \<Rightarrow> string \<Rightarrow> string git_trace" where
  "work_diff git dir base head = in_turn git [LocalGit dir [''diff'', ''--no-color'', base @ ''...'' @ head]] ''''"

subsection \<open>The relay is outside every workspace\<close>

lemma path_parts_under: "path_parts (ws_under a b) = path_parts a @ path_parts b"
  by (simp add: path_parts_def ws_under_def split_on_append)

lemma path_parts_single: "CHR ''/'' \<notin> set s \<Longrightarrow> s \<noteq> '''' \<Longrightarrow> path_parts s = [s]"
proof -
  have "CHR ''/'' \<notin> set s \<Longrightarrow> split_on (CHR ''/'') s = [s]" by (induction s) auto
  then show "CHR ''/'' \<notin> set s \<Longrightarrow> s \<noteq> '''' \<Longrightarrow> ?thesis" by (simp add: path_parts_def)
qed

lemma rel_parts_common: "rel_parts (s @ a) (s @ b) = rel_parts a b"
  by (induction s) simp_all

text \<open>The remote as the command builds it refuses every job's checkout and never refuses a job's
  relay: with the workspaces untrusted, reaching the remote from a checkout is an error, and from the
  relay it is allowed, wherever the state directory is.\<close>

theorem relays_are_trusted:
  assumes "gm_untrusted r = [workspaces_dir state]" and "CHR ''/'' \<notin> set jid" and "jid \<notin> {'''', ''..''}"
  shows "remote_trusted Inr r (relay_dir state jid) = None \<and> remote_trusted Inr r (workspace_dir state jid) \<noteq> None"
proof -
  have ws: "path_parts (workspaces_dir state) = path_parts state @ [''workspaces'']"
    using path_parts_single [of "''workspaces''"] by (simp add: workspaces_dir_def workspace_dir_def relays_dir_def relay_dir_def path_parts_under)
  have wd: "path_parts (workspace_dir state jid) = path_parts state @ [''workspaces'', jid]"
    using assms path_parts_single [of jid] path_parts_single [of "''workspaces''"]
    by (simp add: workspaces_dir_def workspace_dir_def relays_dir_def relay_dir_def path_parts_under)
  have rd: "path_parts (relay_dir state jid) = path_parts state @ [''relays'', jid @ ''.git'']"
    using assms path_parts_single [of "jid @ ''.git''"] path_parts_single [of "''relays''"]
    by (simp add: workspaces_dir_def workspace_dir_def relays_dir_def relay_dir_def path_parts_under)
  have "file_rel (workspaces_dir state) (relay_dir state jid) = ''../relays/'' @ jid @ ''.git''"
    by (simp add: file_rel_def ws rd rel_parts_common)
  moreover have "file_rel (workspaces_dir state) (workspace_dir state jid) = jid"
    by (simp add: file_rel_def ws wd rel_parts_common)
  ultimately show ?thesis
    using assms(1,3) single_up [OF assms(2)] by (simp add: remote_trusted_def has_prefix_def)
qed

theorem relays_are_trusted_witness:
  "remote_trusted Inr example_remote (relay_dir ''/var/lib/afk'' ''implement-issue-7'') = None \<and>
   remote_trusted Inr example_remote (workspace_dir ''/var/lib/afk'' ''implement-issue-7'') \<noteq> None"
  by (rule relays_are_trusted) (simp_all add: example_remote_def workspaces_dir_def ws_under_def)

text \<open>Of the operations of a delivery, only the clone, the reads of the remote and the push reach it, and
  none from a checkout.\<close>

lemma workspace_operations_stay_local:
  "RemoteGit d args \<notin> set (snd (work_relay git remove ws relay branch))"
  "RemoteGit d args \<notin> set (snd (work_import git relay ws branch r c))"
  "RemoteGit d args \<notin> set (snd (work_reset git dir base))"
  "RemoteGit d args \<notin> set (snd (work_restore git dir branch c))"
  "RemoteGit d args \<in> set (snd (work_push git relay url head branch lease)) \<Longrightarrow> d = relay"
  "RemoteGit d args \<in> set (snd (work_fetch_into git remove relay url r)) \<Longrightarrow> d = relay"
  "RemoteGit d args \<in> set (snd (work_fetch_also git relay url r)) \<Longrightarrow> d = relay"
  by (auto simp: work_relay_def relay_afresh_def work_import_def work_reset_def work_restore_def work_push_def
      work_fetch_into_def work_fetch_also_def fetch_also_calls_def clean_call_def Let_def simp del: in_turn.simps
      split: option.splits dest!: in_turn_ran [THEN subsetD])

end
