(* ===== verification/Upstream.thy ===== *)
theory Upstream
  imports Afk_Strings
begin

text \<open>
  What the agent takes from outside through one door: the HTTP of the catalogue, the usage endpoint and
  the notification channel, \<^verbatim>\<open>internal/fetch/fetch.go\<close>, and a file a session wrote in a workspace's
  \<^verbatim>\<open>.git\<close>, \<^verbatim>\<open>internal/work/file.go\<close>. The transport and the filesystem are parameters.
\<close>

subsection \<open>HTTP\<close>

record web_request =
  wq_method :: string
  wq_url :: string
  wq_headers :: "(string \<times> string) list"
  wq_body :: string

record web_response =
  wp_code :: int
  wp_status :: string
  wp_body :: string

definition authorise :: "string \<Rightarrow> web_request \<Rightarrow> web_request" where
  "authorise token q =
     (if token = '''' then q
      else q\<lparr>wq_headers := filter (\<lambda>h. fst h \<noteq> ''Authorization'') (wq_headers q) @ [(''Authorization'', ''Bearer '' @ token)]\<rparr>)"

definition not_ok :: "string \<Rightarrow> web_response \<Rightarrow> string" where
  "not_ok url p = url @ '': '' @ wp_status p"

text \<open>\<open>valid\<close> is the request's own error, and \<open>send\<close> the transport's.\<close>

definition http_get :: "(string \<Rightarrow> string option) \<Rightarrow> (web_request \<Rightarrow> string + web_response) \<Rightarrow> string \<Rightarrow> string \<Rightarrow> string + string" where
  "http_get valid send url token =
     (case valid url of
        Some e \<Rightarrow> Inl e
      | None \<Rightarrow>
          (case send (authorise token \<lparr>wq_method = ''GET'', wq_url = url, wq_headers = [], wq_body = ''''\<rparr>) of
             Inl e \<Rightarrow> Inl e
           | Inr p \<Rightarrow> if wp_code p \<noteq> 200 then Inl (not_ok url p) else Inr (wp_body p)))"

definition http_post :: "(string \<Rightarrow> string option) \<Rightarrow> (web_request \<Rightarrow> string + web_response) \<Rightarrow> string \<Rightarrow> string \<Rightarrow>
    (string \<times> string) list \<Rightarrow> string \<Rightarrow> string option" where
  "http_post valid send url token headers body =
     (case valid url of
        Some e \<Rightarrow> Some e
      | None \<Rightarrow>
          (case send (authorise token \<lparr>wq_method = ''POST'', wq_url = url, wq_headers = headers, wq_body = body\<rparr>) of
             Inl e \<Rightarrow> Some e
           | Inr p \<Rightarrow> if wp_code p \<noteq> 200 then Some (not_ok url p) else None))"

subsection \<open>A file of the workspace's .git\<close>

text \<open>What a name stands for there; a file may fail to be read.\<close>

datatype git_entry = NoEntry | EntryError string | NotRegular | RegularFile "string + string"

text \<open>\<open>None\<close> for a directory that is not there, and a link or anything else that is no file, reads as
  nothing.\<close>

definition read_git_file :: "(string + (string \<Rightarrow> git_entry)) option \<Rightarrow> string \<Rightarrow> string + string" where
  "read_git_file dir name =
     (case dir of
        None \<Rightarrow> Inr ''''
      | Some (Inl e) \<Rightarrow> Inl e
      | Some (Inr entry) \<Rightarrow>
          (case entry name of
             NoEntry \<Rightarrow> Inr '''' | EntryError e \<Rightarrow> Inl e | NotRegular \<Rightarrow> Inr '''' | RegularFile r \<Rightarrow> r))"

end
