(* ===== verification/Spec2Isabelle.thy ===== *)
theory Spec2Isabelle
  imports Dispatch_Properties Globs Diff_Size Delivery GitHub_App Intake_Properties Owed_Properties Review_Properties
    Implement_Properties Revise_Properties Reply_Properties Store_Refinement Caught Premise_Fetch Commands_Properties Work_Git Upstream
begin

text \<open>
  A verification development for \<^bold>\<open>afk-agent\<close>: an unattended agent, in Go, that takes work from a GitHub
  repository and leaves a pull request. What follows says what each theory models, what is proved of
  it, and what is left out. Paths are under \<^verbatim>\<open>src/\<close>.

  \<^bold>\<open>The program.\<close> Everything the agent does is a \<^emph>\<open>job\<close>: an issue or a pull request, a kind (review,
  implement, revise) and a state, kept in a SQLite file. A \<^emph>\<open>transition\<close> moves a job from one state to the
  next: it reads, decides, and answers the state to go to, when to be run again, and the \<^emph>\<open>effects\<close> to
  perform, each under a key. The runner commits the decision and its keys in one write, under a lease,
  and performs the effects only after; a transition that finds it is owed something reads the
  tracker back before it moves on. A pool of workers takes due jobs under resource tokens and the
  budget, intake turns comments and labels into jobs, and the command line configures and starts all
  of it. A process may die between any two writes, several may share one store, and the workspaces a
  model works in are not trusted: those are the behaviours the properties are about.

  \<^bold>\<open>How the code is modelled.\<close> A struct is a \<^theory_text>\<open>record\<close>, an enumeration a \<^theory_text>\<open>datatype\<close>, a Go error the left of
  a sum or an option, a string a list of bytes, a Go map an association list or a partial map, a
  \<^verbatim>\<open>time.Time\<close> an integer of nanoseconds with the zero time as \<open>None\<close>. Handlers are state passing over the
  store and the files (\<open>world\<close>, \<open>bench\<close>, \<open>premise_dir\<close>), and every early return is a branch. What the
  tracker, git, a model or the filesystem answers is an argument - often a record of answers, with
  another for what an effect finds later - and any of it may fail. Interleavings and crashes are step
  relations. The definitions evaluate, and every property with a hypothesis has a witness.

  \<^bold>\<open>Foundations.\<close> \<open>Afk_Prelude\<close> and \<open>Afk_Strings\<close>: times, decimals, keyed tables and Go's packages \<^verbatim>\<open>strings\<close>
  and \<^verbatim>\<open>net/url\<close>, with the collections the component proofs use. \<open>Steps\<close>: a fallible step over a state,
  its bind, and the rules for what every answer satisfies (\<open>gives\<close>) and what a step leaves alone
  (\<open>keeps\<close>).

  \<^bold>\<open>The store\<close> (\<^verbatim>\<open>internal/store\<close>). \<open>Job_Store\<close>: the tables and every operation on them, the migrations
  included. \<open>Store_Laws\<close>: the locale of what its callers rely on, interpreted on the SQLite operations.
  \<open>Store_Properties\<close>: integrity of any history, the lease, atomicity, reserved keys, the queue's order.
  \<open>Store_Refinement\<close>: an abstract ledger of jobs, keys and episodes, and the simulation that every run
  of the store is a run of it.

  \<^bold>\<open>Running transitions\<close> (\<^verbatim>\<open>internal/transition\<close>). \<open>Registry\<close>, \<open>Tokens\<close>, \<open>Rounds\<close>, \<open>Runner\<close>, \<open>Armer\<close>: the
  registry of transitions, the resource tokens, the rounds of an effect that is read back, one run of
  a transition, and what arms a job from outside. \<open>Runner_Properties\<close> and \<open>Interleaving\<close>: an effect is
  performed at most once for its key, whatever calls fail, whatever transitions decide, and however
  workers and crashes interleave; a run settles its job and gives its lease back. The token proofs
  bound what is held by the capacity and show that acquiring in name order cannot deadlock.

  \<^bold>\<open>Models and money\<close> (\<^verbatim>\<open>internal/model\<close>, \<^verbatim>\<open>internal/budget\<close>, \<^verbatim>\<open>internal/spend\<close>). \<open>Catalogue\<close> and \<open>Resolver\<close>:
  the catalogue, the enrolment and which models qualify, equal to a declarative selection. \<open>Budget\<close>:
  observing the usage endpoint, waivers and admission. \<open>Spend\<close>: the footer that says what the runs cost.

  \<^bold>\<open>The pool\<close> (\<^verbatim>\<open>internal/dispatch\<close>, \<^verbatim>\<open>internal/notify\<close>). \<open>Dispatch\<close>, \<open>Notify\<close> and \<open>Dispatch_Properties\<close>: one
  pass of a worker with all it calls, and what an operator is told and how often.

  \<^bold>\<open>The tracker\<close> (\<^verbatim>\<open>internal/github\<close>). \<open>GitHub_Types\<close>, \<open>GitHub_Client\<close>, \<open>GitHub_App\<close>: the documents, every
  operation of the client with its pages, and the App's token, with a locale for a source of
  credentials; requests stay under the API root, and tokens are fresh or not presented.

  \<^bold>\<open>Coming in\<close> (\<^verbatim>\<open>internal/intake\<close>). \<open>Intake\<close> and \<open>Intake_Properties\<close>: a pass over the tracker, each command
  armed once, nothing armed for those who may not ask, and the review queue's limit.

  \<^bold>\<open>Owing and reading back\<close> (\<^verbatim>\<open>internal/owed\<close>). \<open>Owed\<close> and \<open>Owed_Properties\<close>: the record of what a decision
  owes, written before its effects, and the read-back that settles it or makes the rest again; the
  locale \<open>owing_kind\<close> carries any invariant of a kind's answers through it, and each kind interprets it.

  \<^bold>\<open>The review kind\<close> (\<^verbatim>\<open>internal/review\<close>, \<^verbatim>\<open>internal/permalink\<close>, \<^verbatim>\<open>internal/caught\<close>). \<open>Review_Spec\<close>, \<open>Review\<close>,
  \<open>Review_Properties\<close>, \<open>Permalink\<close>, \<open>Caught\<close>: what a review is written against, its seven transitions, and
  what they leave; the citations linked in its text; the report of what CI caught.

  \<^bold>\<open>Delivering\<close> (\<^verbatim>\<open>internal/delivery\<close>, \<^verbatim>\<open>internal/work\<close>, \<^verbatim>\<open>internal/correction\<close>, \<^verbatim>\<open>internal/handoff\<close>,
  \<^verbatim>\<open>internal/size\<close>, \<^verbatim>\<open>internal/sensitive\<close>, \<^verbatim>\<open>internal/glob\<close>, \<^verbatim>\<open>internal/opencode\<close>, \<^verbatim>\<open>internal/statefile\<close>).
  \<open>Globs\<close>, \<open>Sensitive\<close>, \<open>Diff_Size\<close>, \<open>Descriptions\<close>: the denylist's globs, equal to a declarative meaning, the
  sensitive paths, the size of a diff and the description kept up to date. \<open>Opencode\<close> and \<open>Sessions\<close>: one
  run of a model with each way it can end, and the choice between continuing a session and a new one.
  \<open>Work_Steps\<close>, \<open>Bench\<close>, \<open>Delivery\<close>, \<open>Bench_States\<close>: the gate, the watch on CI, the leased push; the bench of
  files a delivery works on; the machine both delivering kinds share. \<open>Corrections\<close> and \<open>Handoff\<close>: the
  one correction of a review's findings, and the end of a delivery.

  \<^bold>\<open>The implement kind\<close> (\<^verbatim>\<open>internal/implement\<close>). \<open>Implement_Text\<close>, \<open>Implement\<close>, \<open>Implement_Properties\<close>: the
  branch names and descriptions, the eleven transitions, and that their states are closed and that
  nothing is pushed but a commit whose paths the denylist was checked against.

  \<^bold>\<open>The revise kind\<close> (\<^verbatim>\<open>internal/revise\<close>, \<^verbatim>\<open>internal/work/replay.go\<close>). \<open>Revise_Text\<close>, \<open>Revise\<close>,
  \<open>Revise_Properties\<close>, \<open>Reply_Properties\<close>: the send-back, the thirteen transitions, the replay of a revision
  onto someone else's push, the reply; the same closure and vetting, a bounded number of replays, and
  a reply that carries no hidden marker of the session's.

  \<^bold>\<open>Premises\<close> (\<^verbatim>\<open>internal/premise\<close>). \<open>Premises\<close>, \<open>Premises_Properties\<close>, \<open>Premise_Fetch\<close>: the links of an issue's
  Premises section, and the fetch of their sources, which a retry only adds to.

  \<^bold>\<open>Git\<close> (\<^verbatim>\<open>internal/git\<close>, \<^verbatim>\<open>internal/work/{hardened,git,workspace,file}.go\<close>, \<^verbatim>\<open>internal/review/git.go\<close>,
  \<^verbatim>\<open>internal/fetch\<close>). \<open>Hardened\<close>, \<open>Git_Remote\<close>, \<open>Work_Git\<close>, \<open>Upstream\<close>: the environment of a git process in a
  workspace and of one that carries the token, where the latter is never run, each operation as the
  commands it runs, and the HTTP of the other endpoints.

  \<^bold>\<open>The command line\<close> (\<^verbatim>\<open>internal/cli\<close>). \<open>Params\<close> and \<open>Config\<close>: every parameter and every policy. \<open>Commands\<close>
  and \<open>Commands_Properties\<close>: what each subcommand resolves, and that a configuration that is accepted
  starts a pool whose every bound is one.

  \<^bold>\<open>Bounds and fuel.\<close> A loop that ends is a recursive function with its measure. Three loops have no bound
  of the code's own - the next free branch name, the next fresh key of a round, the sub-agents of a
  run - and are \<^theory_text>\<open>partial_function (option)\<close>, so that not ending is \<open>None\<close>; each is shown to end where a
  property needs it. A listing follows at most as many pages as its argument says, which stands for
  the server's word that there is a next page: it answers \<open>None\<close> past that, and the properties of
  the client hold for any number.

  \<^bold>\<open>Not modelled.\<close> Logging and the wording of what only a log reads; the templates of the prompts; goroutines
  and their shutdown (workers are interleaved steps instead); the HTTP transport, the JSON codec, SQL
  and the SQLite driver beneath the operations; processes and the filesystem beneath their answers;
  cryptography and the parsing of keys; the formats of floats, durations and times, which are
  parameters; signals, the host name, and the text of the usage. The servers the tests run against
  (\<^verbatim>\<open>internal/github/githubtest\<close>, \<^verbatim>\<open>internal/store/storetest\<close>) and the vendored packages are no part of it.
\<close>

end
